(* ===== verification/Prelude.thy ===== *)
theory Prelude
  imports Main "HOL-Library.Word" "HOL-Library.Monad_Syntax"
begin

text \<open>
  Shared vocabulary of the development: the C integer types, assertions, memory-mapped
  registers and byte memory, with the lemmas on them that every component uses.

  \<^item> A C integer of width \<open>n\<close> is an \<open>n word\<close>: arithmetic wraps as it does in C.
  \<^item> \<open>assert(e)\<close> is \<open>c_assert e\<close> in the option monad; \<open>None\<close> is a failed assertion
    (or another trap of the C program, such as a call through a null pointer).
  \<^item> A peripheral is an abstract device state \<open>'d\<close> with a record of access functions: every
    volatile read may change the device, and nothing is assumed of what it returns. The values
    of the masks and field macros of the device header, which is not part of the repository,
    are fields of the same record.
  \<^item> RAM is a function from 32-bit addresses to bytes.
\<close>

unbundle bit_operations_syntax

named_theorems io_frame \<open>what register accesses leave alone\<close>
named_theorems io_ram \<open>register accesses on a device that stores what is written\<close>

subsection \<open>Integer types and assertions\<close>

type_synonym u8 = "8 word"
type_synonym u16 = "16 word"
type_synonym u32 = "32 word"
type_synonym u64 = "64 word"

definition c_assert :: "bool \<Rightarrow> unit option" where
  "c_assert b = (if b then Some () else None)"

lemma c_assert_simps [simp]: "c_assert True = Some ()" "c_assert False = None"
  by (simp_all add: c_assert_def)

lemma c_assert_eq_Some [simp]: "(c_assert b = Some u) = b"
  by (simp add: c_assert_def)

lemma c_assert_bind_eq_Some [simp]:
  "(c_assert b \<bind> f = Some x) = (b \<and> f () = Some x)"
  by (simp add: c_assert_def)

lemma c_assert_bind_eq_None [simp]:
  "(c_assert b \<bind> f = None) = (b \<longrightarrow> f () = None)"
  by (simp add: c_assert_def)

text \<open>C division and remainder; a zero divisor is undefined behaviour, \<open>None\<close>.\<close>

definition c_div :: "'a::len word \<Rightarrow> 'a word \<Rightarrow> 'a word option" where
  "c_div a b = (if b = 0 then None else Some (a div b))"

definition c_mod :: "'a::len word \<Rightarrow> 'a word \<Rightarrow> 'a word option" where
  "c_mod a b = (if b = 0 then None else Some (a mod b))"

lemma c_div_eq_Some [simp]: "(c_div a b = Some q) = (b \<noteq> 0 \<and> q = a div b)"
  by (auto simp: c_div_def)

lemma c_div_eq_None [simp]: "(c_div a b = None) = (b = 0)"
  by (simp add: c_div_def)

subsection \<open>Words read as natural numbers\<close>

lemma unat_ucast_up [simp]:
  fixes w :: "'a::len word"
  assumes "LENGTH('a) \<le> LENGTH('b::len)"
  shows "unat (ucast w :: 'b word) = unat w"
proof -
  have "unat w < 2 ^ LENGTH('a)" by simp
  also have "\<dots> \<le> (2::nat) ^ LENGTH('b)" using assms by (simp add: power_increasing)
  finally show ?thesis by (simp add: unsigned_ucast_eq take_bit_nat_eq_self)
qed

lemma unat_ucast_small:
  fixes w :: "'a::len word"
  assumes "unat w < 2 ^ LENGTH('b::len)"
  shows "unat (ucast w :: 'b word) = unat w"
  using assms by (simp add: unsigned_ucast_eq take_bit_nat_eq_self)

lemma unat_plus_small:
  fixes a b :: "'a::len word"
  assumes "unat a + unat b < 2 ^ LENGTH('a)"
  shows "unat (a + b) = unat a + unat b"
  using assms by (simp add: unat_word_ariths)

lemma unat_mult_small:
  fixes a b :: "'a::len word"
  assumes "unat a * unat b < 2 ^ LENGTH('a)"
  shows "unat (a * b) = unat a * unat b"
  using assms by (simp add: unat_word_ariths)

lemma unat_minus_small:
  fixes a b :: "'a::len word"
  assumes "unat b \<le> unat a"
  shows "unat (a - b) = unat a - unat b"
  using assms by (simp add: unat_sub_if')

lemmas unat_small = unat_plus_small unat_mult_small unat_minus_small

lemma unat_u8_le: "unat (w :: u8) \<le> 255"
  using unsigned_less [of w, where ?'a = nat] by simp

lemma unat_not_u8: "unat (NOT (w :: u8)) = 255 - unat w"
proof -
  have "NOT w = - 1 - w" by (simp add: not_eq_complement)
  moreover have "unat w \<le> unat (- 1 :: u8)" using unat_u8_le [of w] by (simp add: unsigned_minus_1_eq_mask mask_eq_exp_minus_1)
  ultimately show ?thesis by (simp add: unat_minus_small unsigned_minus_1_eq_mask mask_eq_exp_minus_1)
qed

lemma ucast_u8_u32 [simp]: "(ucast (ucast (b :: u8) :: u32) :: u8) = b"
  by (rule bit_word_eqI) (auto simp: bit_ucast_iff)

lemma unat_and_3:
  fixes w :: "'a::len word"
  shows "unat (w AND 3) = unat w mod 4"
proof -
  have "w AND 3 = take_bit 2 w" by (simp add: take_bit_eq_mask mask_eq_exp_minus_1)
  then have "unat (w AND 3) = unat (take_bit 2 w)" by (simp only:)
  also have "\<dots> = take_bit 2 (unat w)" by (simp only: unsigned_take_bit_eq)
  finally show ?thesis by (simp add: take_bit_eq_mod)
qed

lemma radix_inj:
  assumes "r < (n::nat)" "r' < n" "q * n + r = q' * n + r'"
  shows "q = q' \<and> r = r'"
proof -
  have "(q * n + r) div n = q" "(q' * n + r') div n = q'" using assms(1,2) by simp_all
  with assms(3) have "q = q'" by simp
  with assms(3) show ?thesis by simp
qed

lemma sum_list_upt_split:
  "a \<le> b \<Longrightarrow> b < c \<Longrightarrow> sum_list (map f [a..<b]) + f b \<le> (sum_list (map f [a..<c]) :: nat)"
proof (induction c)
  case (Suc c)
  then show ?case by (cases "b = c") auto
qed simp

subsection \<open>Memory-mapped registers\<close>

record ('r, 'd) mmio =
  reg_read :: "'r \<Rightarrow> 'd \<Rightarrow> u32 \<times> 'd"
  reg_write :: "'r \<Rightarrow> u32 \<Rightarrow> 'd \<Rightarrow> 'd"

text \<open>\<open>base->R |= m\<close> and \<open>base->R &= ~m\<close>: one volatile read, one volatile write.\<close>

definition reg_set :: "('r, 'd, 'm) mmio_scheme \<Rightarrow> 'r \<Rightarrow> u32 \<Rightarrow> 'd \<Rightarrow> 'd" where
  "reg_set io r m d = (let (v, d) = reg_read io r d in reg_write io r (v OR m) d)"

definition reg_clear :: "('r, 'd, 'm) mmio_scheme \<Rightarrow> 'r \<Rightarrow> u32 \<Rightarrow> 'd \<Rightarrow> 'd" where
  "reg_clear io r m d = (let (v, d) = reg_read io r d in reg_write io r (v AND NOT m) d)"

text \<open>
  Registers that hold what software writes to them and whose reads have no effect. \<open>M r\<close> are the bits
  of register \<open>r\<close> that behave so, 0 for a register nothing is said about; \<open>view\<close> gives their present
  values. Flags that are cleared by writing 1, counters and data registers are left out of \<open>M\<close> by the
  properties that use it as a named hypothesis.
\<close>

definition ram_like :: "('r, 'd, 'm) mmio_scheme \<Rightarrow> ('r \<Rightarrow> u32) \<Rightarrow> ('d \<Rightarrow> 'r \<Rightarrow> u32) \<Rightarrow> bool" where
  "ram_like io M view \<longleftrightarrow>
     (\<forall>r d. M r \<noteq> 0 \<longrightarrow> snd (reg_read io r d) = d \<and> fst (reg_read io r d) AND M r = view d r) \<and>
     (\<forall>r v d. M r \<noteq> 0 \<longrightarrow> view (reg_write io r v d) = (view d)(r := v AND M r))"

lemma ram_like_bits:
  assumes "ram_like io M view" "M r \<noteq> 0"
  shows "snd (reg_read io r d) = d" "fst (reg_read io r d) AND M r = view d r"
    and "view (reg_write io r v d) = (view d)(r := v AND M r)"
  using assms by (simp_all add: ram_like_def)

lemma ram_like_read [io_ram]: "ram_like io M view \<Longrightarrow> M r = - 1 \<Longrightarrow> reg_read io r d = (view d r, d)"
  using ram_like_bits(1,2) [of io M view r d] by (simp add: prod_eq_iff)

lemma ram_like_write [io_ram]: "ram_like io M view \<Longrightarrow> M r = - 1 \<Longrightarrow> view (reg_write io r v d) = (view d)(r := v)"
  by (simp add: ram_like_bits(3) fun_eq_iff)

lemma ram_like_set [io_ram]:
  "ram_like io M view \<Longrightarrow> M r = - 1 \<Longrightarrow> view (reg_set io r m d) = (view d)(r := view d r OR m)"
  by (simp add: reg_set_def io_ram fun_eq_iff)

lemma ram_like_clear [io_ram]:
  "ram_like io M view \<Longrightarrow> M r = - 1 \<Longrightarrow> view (reg_clear io r m d) = (view d)(r := view d r AND NOT m)"
  by (simp add: reg_clear_def io_ram fun_eq_iff)

subsection \<open>Byte memory\<close>

type_synonym mem = "u32 \<Rightarrow> u8"

text \<open>The \<open>n\<close> bytes that start at address \<open>a\<close>.\<close>

definition mem_bytes :: "mem \<Rightarrow> u32 \<Rightarrow> nat \<Rightarrow> u8 list" where
  "mem_bytes m a n = map (\<lambda>i. m (a + of_nat i)) [0..<n]"

lemma length_mem_bytes [simp]: "length (mem_bytes m a n) = n"
  by (simp add: mem_bytes_def)

lemma mem_bytes_0 [simp]: "mem_bytes m a 0 = []"
  by (simp add: mem_bytes_def)

lemma mem_bytes_Suc: "mem_bytes m a (Suc n) = mem_bytes m a n @ [m (a + of_nat n)]"
  by (simp add: mem_bytes_def)

lemma mem_bytes_Cons: "mem_bytes m a (Suc n) = m a # mem_bytes m (a + 1) n"
proof -
  have "[0..<Suc n] = 0 # map Suc [0..<n]" by (simp add: upt_conv_Cons map_Suc_upt)
  then show ?thesis by (simp add: mem_bytes_def o_def ac_simps)
qed

lemma nth_mem_bytes [simp]: "i < n \<Longrightarrow> mem_bytes m a n ! i = m (a + of_nat i)"
  by (simp add: mem_bytes_def)

lemma of_nat_u32_eq_iff: "i < 2 ^ 32 \<Longrightarrow> j < 2 ^ 32 \<Longrightarrow> (of_nat i :: u32) = of_nat j \<longleftrightarrow> i = j"
  by (simp add: word_unat_eq_iff unsigned_of_nat take_bit_nat_eq_self)

lemma mem_bytes_update:
  assumes "i < n" "n \<le> 2 ^ 32"
  shows "mem_bytes (m(a + of_nat i := b)) a n = (mem_bytes m a n)[i := b]"
  using assms by (intro nth_equalityI) (auto simp: nth_list_update of_nat_u32_eq_iff)

text \<open>Storing a list of bytes at consecutive addresses.\<close>

fun mem_write :: "mem \<Rightarrow> u32 \<Rightarrow> u8 list \<Rightarrow> mem" where
  "mem_write m a [] = m"
| "mem_write m a (b # bs) = mem_write (m(a := b)) (a + 1) bs"

lemma mem_write_append: "mem_write m a (bs @ cs) = mem_write (mem_write m a bs) (a + of_nat (length bs)) cs"
  by (induction bs arbitrary: m a) (simp_all add: ac_simps)

lemma mem_write_snoc: "mem_write m a (bs @ [b]) = (mem_write m a bs)(a + of_nat (length bs) := b)"
  by (simp add: mem_write_append)

lemma mem_write_outside:
  "(\<And>i. i < length bs \<Longrightarrow> x \<noteq> a + of_nat i) \<Longrightarrow> mem_write m a bs x = m x"
proof (induction bs arbitrary: m a)
  case (Cons b bs)
  have "x \<noteq> a + 1 + of_nat i" if "i < length bs" for i
    using Cons.prems [of "Suc i"] that by (simp add: ac_simps)
  moreover have "x \<noteq> a" using Cons.prems [of 0] by simp
  ultimately show ?case by (simp add: Cons.IH)
qed simp

lemma mem_write_nth:
  assumes "length bs \<le> 2 ^ 32" "i < length bs"
  shows "mem_write m a bs (a + of_nat i) = bs ! i"
  using assms
proof (induction bs rule: rev_induct)
  case (snoc b bs)
  then show ?case
    by (cases "i = length bs") (auto simp: mem_write_snoc nth_append of_nat_u32_eq_iff)
qed simp

lemma mem_bytes_write: "length bs \<le> 2 ^ 32 \<Longrightarrow> mem_bytes (mem_write m a bs) a (length bs) = bs"
  by (intro nth_equalityI) (simp_all add: mem_write_nth)

lemma mem_bytes_outside:
  "(\<And>i. i < n \<Longrightarrow> a + of_nat i \<noteq> x) \<Longrightarrow> mem_bytes (m(x := b)) a n = mem_bytes m a n"
  by (intro nth_equalityI) auto

text \<open>The \<open>n\<close> bytes at \<open>a\<close> and the \<open>k\<close> bytes at \<open>b\<close> do not overlap.\<close>

definition apart :: "u32 \<Rightarrow> nat \<Rightarrow> u32 \<Rightarrow> nat \<Rightarrow> bool" where
  "apart a n b k \<longleftrightarrow> (\<forall>i < n. \<forall>j < k. a + of_nat i \<noteq> b + of_nat j)"

lemma apart_0 [simp]: "apart a 0 b k" "apart a n b 0"
  by (simp_all add: apart_def)

lemma apart_sym: "apart a n b k \<Longrightarrow> apart b k a n"
  unfolding apart_def by metis

lemma apartD: "apart a n b k \<Longrightarrow> i < n \<Longrightarrow> j < k \<Longrightarrow> a + of_nat i \<noteq> b + of_nat j"
  by (simp add: apart_def)

lemma apart_first: "apart a n b k \<Longrightarrow> 0 < n \<Longrightarrow> j < k \<Longrightarrow> a \<noteq> b + of_nat j"
  using apartD [of a n b k 0 j] by simp

lemma apart_next: "apart a (Suc n) b k \<Longrightarrow> apart (a + 1) n b k"
  by (simp add: apart_def) (metis Suc_mono add.assoc of_nat_Suc)

lemma apart_mono: "apart a n b k \<Longrightarrow> n' \<le> n \<Longrightarrow> k' \<le> k \<Longrightarrow> apart a n' b k'"
  by (auto simp: apart_def)

lemma mem_bytes_apart: "apart a n b (length bs) \<Longrightarrow> mem_bytes (mem_write m b bs) a n = mem_bytes m a n"
  by (intro nth_equalityI) (auto simp: apart_def intro!: mem_write_outside)

lemma apart_drop:
  assumes "apart a n b k" "i \<le> k"
  shows "apart a n (b + of_nat i) (k - i)"
  unfolding apart_def
proof (intro allI impI)
  fix x y
  assume "x < n" "y < k - i"
  then have "a + of_nat x \<noteq> b + of_nat (i + y)" using assms by (intro apartD [OF assms(1)]) simp_all
  then show "a + of_nat x \<noteq> b + of_nat i + of_nat y" by (simp add: add.assoc)
qed

lemma mem_bytes_append: "mem_bytes m a (n + k) = mem_bytes m a n @ mem_bytes m (a + of_nat n) k"
  by (induction k) (simp_all add: mem_bytes_Suc add.assoc)

lemma mem_bytes_cong: "(\<And>i. i < n \<Longrightarrow> m (a + of_nat i) = m' (a + of_nat i)) \<Longrightarrow> mem_bytes m a n = mem_bytes m' a n"
  by (simp add: mem_bytes_def)

lemma unat_add_offset: "unat (a :: u32) + n \<le> 2 ^ 32 \<Longrightarrow> i < n \<Longrightarrow> unat (a + of_nat i) = unat a + i"
  by (simp add: unat_plus_small unsigned_of_nat take_bit_nat_eq_self)

lemma apart_ranges:
  assumes "unat a + n \<le> unat b" "unat b + k \<le> 2 ^ 32"
  shows "apart a n b k"
  unfolding apart_def
proof (intro allI impI)
  fix i j
  assume "i < n" "j < k"
  then have "unat (a + of_nat i) = unat a + i" "unat (b + of_nat j) = unat b + j"
    using assms unat_add_offset [of b k j] unat_add_offset [of a n i] by simp_all
  with assms \<open>i < n\<close> show "a + of_nat i \<noteq> b + of_nat j" by auto
qed

end
