(* ===== verification/Calendar.thy ===== *)
theory Calendar
  imports Prelude
begin

text \<open>
  The Gregorian calendar the date drivers are measured against, counted naively: days since
  1 January 1970 are the lengths of all earlier years and months added up. And the interface
  \<open>datetime_codec\<close> that a driver's pair of conversions between a broken-down date and a seconds
  counter has to meet, with what follows from it for the driver's clients.
\<close>

subsection \<open>Reference calendar\<close>

definition greg_leap :: "nat \<Rightarrow> bool" where
  "greg_leap y \<longleftrightarrow> (y mod 4 = 0 \<and> y mod 100 \<noteq> 0) \<or> y mod 400 = 0"

definition greg_year_days :: "nat \<Rightarrow> nat" where
  "greg_year_days y = (if greg_leap y then 366 else 365)"

definition greg_month_days :: "nat \<Rightarrow> nat \<Rightarrow> nat" where
  "greg_month_days y m =
     (if m = 2 then (if greg_leap y then 29 else 28)
      else if m \<in> {4, 6, 9, 11} then 30 else 31)"

definition civil_days :: "nat \<Rightarrow> nat \<Rightarrow> nat \<Rightarrow> nat" where
  "civil_days y m d =
     sum_list (map greg_year_days [1970..<y]) + sum_list (map (greg_month_days y) [1..<m]) + (d - 1)"

text \<open>
  Between 1970 and 2099 the Gregorian rule is "divisible by four", so the years before \<open>y\<close> have
  a closed form. \<open>julian_year\<close> is the length the drivers' loops use.
\<close>

lemma greg_leap_range: "1970 \<le> y \<Longrightarrow> y \<le> 2099 \<Longrightarrow> greg_leap y \<longleftrightarrow> y mod 4 = 0"
  unfolding greg_leap_def by presburger

definition year_start :: "nat \<Rightarrow> nat" where
  "year_start y = 365 * (y - 1970) + ((y - 1) div 4 - 492)"

definition julian_year :: "nat \<Rightarrow> nat" where
  "julian_year y = (if y mod 4 = 0 then 366 else 365)"

lemma year_start_Suc:
  assumes "1970 \<le> y"
  shows "year_start (Suc y) = year_start y + julian_year y"
proof -
  obtain D where D: "(y - 1) div 4 = D" by simp
  have "492 \<le> D" using assms D div_le_mono [of 1969 "y - 1" 4] by simp
  moreover have "(Suc y - 1) div 4 = D + (if y mod 4 = 0 then 1 else 0)"
    using assms D by (cases y) (auto simp: div_Suc)
  moreover have "365 * (Suc y - 1970) = 365 * (y - 1970) + 365" using assms by simp
  ultimately show ?thesis unfolding year_start_def julian_year_def D by simp
qed

lemma year_start_mono: "1970 \<le> y \<Longrightarrow> y < z \<Longrightarrow> year_start y + julian_year y \<le> year_start z"
proof (induction z)
  case (Suc z)
  then show ?case
    using year_start_Suc [of z] by (cases "y = z") auto
qed simp

lemma sum_year_days:
  "1970 \<le> y \<Longrightarrow> y \<le> 2100 \<Longrightarrow> sum_list (map greg_year_days [1970..<y]) = year_start y"
proof (induction y rule: nat_induct_at_least)
  case base
  show ?case by (simp add: year_start_def)
next
  case (Suc n)
  then have "greg_year_days n = julian_year n"
    by (simp add: greg_year_days_def julian_year_def greg_leap_range)
  with Suc show ?case by (simp add: year_start_Suc)
qed

lemma month_cases: "1 \<le> m \<Longrightarrow> m \<le> 12 \<Longrightarrow> m \<in> {1,2,3,4,5,6,7,8,9,10,11,12::nat}"
  by (simp, arith)

lemma greg_month_days_le: "greg_month_days y m \<le> 31"
  by (simp add: greg_month_days_def)

lemma day_of_year_le:
  assumes "1 \<le> m" "m \<le> 12" "d \<le> greg_month_days y m"
  shows "sum_list (map (greg_month_days y) [1..<m]) + d \<le> greg_year_days y"
  using assms(3) month_cases [OF assms(1,2)]
  by (auto simp: greg_month_days_def greg_year_days_def upt_conv_Cons split: if_splits)

lemma greg_year_days_sum: "greg_year_days y = sum_list (map (greg_month_days y) [1..<13])"
  by (simp add: greg_year_days_def greg_month_days_def upt_conv_Cons)

lemma greg_julian_year: "1970 \<le> y \<Longrightarrow> y \<le> 2099 \<Longrightarrow> greg_year_days y = julian_year y"
  by (simp add: greg_year_days_def julian_year_def greg_leap_range)

lemma civil_days_le:
  assumes "1970 \<le> y" "y \<le> 2099" "1 \<le> m" "m \<le> 12" "1 \<le> d" "d \<le> greg_month_days y m"
  shows "civil_days y m d \<le> 47481"
proof -
  have "year_start y + julian_year y \<le> year_start 2100"
    using assms(1,2) by (intro year_start_mono) auto
  also have "\<dots> = 47482" by (simp add: year_start_def)
  finally show ?thesis
    using day_of_year_le [OF assms(3,4,6)] assms(1,2,5)
    by (simp add: civil_days_def sum_year_days greg_julian_year)
qed

text \<open>A day count determines the date.\<close>

lemma civil_days_year_less:
  assumes "1970 \<le> y" "y < y'" "y' \<le> 2099" "1 \<le> m" "m \<le> 12" "1 \<le> d" "d \<le> greg_month_days y m"
  shows "civil_days y m d < civil_days y' m' d'"
proof -
  have "year_start y + julian_year y \<le> year_start y'" using assms by (intro year_start_mono) auto
  then show ?thesis
    using day_of_year_le [OF assms(4,5,7)] assms
    by (simp add: civil_days_def sum_year_days greg_julian_year)
qed

lemma civil_days_month_less:
  assumes "1 \<le> m" "m < m'" "1 \<le> d" "d \<le> greg_month_days y m" "1 \<le> d'"
  shows "civil_days y m d < civil_days y m' d'"
  using sum_list_upt_split [of 1 m m' "greg_month_days y"] assms by (simp add: civil_days_def)

lemma civil_days_inj:
  assumes "1970 \<le> y" "y \<le> 2099" "1 \<le> m" "m \<le> 12" "1 \<le> d" "d \<le> greg_month_days y m"
    and "1970 \<le> y'" "y' \<le> 2099" "1 \<le> m'" "m' \<le> 12" "1 \<le> d'" "d' \<le> greg_month_days y' m'"
    and eq: "civil_days y m d = civil_days y' m' d'"
  shows "y = y' \<and> m = m' \<and> d = d'"
proof -
  have "\<not> y < y'" using civil_days_year_less [of y y' m d m' d'] assms by auto
  moreover have "\<not> y' < y" using civil_days_year_less [of y' y m' d' m d] assms by auto
  ultimately have y: "y = y'" by simp
  have "\<not> m < m'" using civil_days_month_less [of m m' d y d'] assms y by auto
  moreover have "\<not> m' < m" using civil_days_month_less [of m' m d' y d] assms y by auto
  ultimately have m: "m = m'" by simp
  from eq y m assms show ?thesis by (simp add: civil_days_def)
qed

subsection \<open>The interface of a date driver\<close>

text \<open>
  \<open>valid\<close> is the driver's format check, \<open>to_secs\<close> and \<open>of_secs\<close> its conversions, \<open>limit\<close> the
  first second after its range. The laws are what the drivers rely on when they store a date in
  a seconds register and read it back.
\<close>

locale datetime_codec =
  fixes valid :: "'t \<Rightarrow> bool"
    and to_secs :: "'t \<Rightarrow> u32 option"
    and of_secs :: "u32 \<Rightarrow> 't"
    and limit :: nat
  assumes to_total: "valid t \<Longrightarrow> \<exists>s. to_secs t = Some s \<and> unat s < limit"
    and of_to: "valid t \<Longrightarrow> to_secs t = Some s \<Longrightarrow> of_secs s = t"
    and of_valid: "unat s < limit \<Longrightarrow> valid (of_secs s)"
    and to_of: "unat s < limit \<Longrightarrow> to_secs (of_secs s) = Some s"
begin

lemma to_secs_inj: "valid a \<Longrightarrow> valid b \<Longrightarrow> to_secs a = to_secs b \<Longrightarrow> a = b"
  using to_total of_to by (metis option.inject)

lemma of_secs_inj: "unat r < limit \<Longrightarrow> unat s < limit \<Longrightarrow> of_secs r = of_secs s \<Longrightarrow> r = s"
  using to_of by (metis option.inject)

lemma of_secs_image: "of_secs ` {s. unat s < limit} = {t. valid t}"
proof (intro equalityI subsetI)
  fix t assume "t \<in> {t. valid t}"
  then show "t \<in> of_secs ` {s. unat s < limit}"
    using to_total [of t] of_to [of t] by (auto intro!: image_eqI)
qed (auto intro: of_valid)

end

end
