(* ===== verification/Rtc_Calendar.thy ===== *)
theory Rtc_Calendar
  imports Calendar
begin

text \<open>
  \<open>drivers/rtc/fsl_rtc.c\<close>: the date check and the two conversions of the RTC driver, and that
  they meet the \<open>datetime_codec\<close> interface over the Gregorian reference of \<open>Calendar\<close>. The loops
  over years and months of \<open>RTC_ConvertSecondsToDatetime\<close> are recursive functions on the words
  the C code counts with.
\<close>

record rtc_datetime =
  year :: u16
  month :: u8
  day :: u8
  hour :: u8
  minute :: u8
  second :: u8

definition daysPerMonth :: "u8 list" where
  "daysPerMonth = [0, 31, 28, 31, 30, 31, 30, 31, 31, 30, 31, 30, 31]"

definition monthDays :: "u16 list" where
  "monthDays = [0, 0, 31, 59, 90, 120, 151, 181, 212, 243, 273, 304, 334]"

definition RTC_CheckDatetimeFormat :: "rtc_datetime \<Rightarrow> bool" where
  "RTC_CheckDatetimeFormat dt =
     (if year dt < 1970 \<or> 2099 < year dt \<or> 12 < month dt \<or> month dt < 1 \<or>
         24 \<le> hour dt \<or> 60 \<le> minute dt \<or> 60 \<le> second dt
      then False
      else
        let tab = (if (year dt AND 3 = 0 \<and> year dt mod 100 \<noteq> 0) \<or> year dt mod 400 = 0
                   then daysPerMonth[2 := 29] else daysPerMonth)
        in if tab ! unat (month dt) < day dt \<or> day dt < 1 then False else True)"

definition RTC_ConvertDatetimeToSeconds :: "rtc_datetime \<Rightarrow> u32 option" where
  "RTC_ConvertDatetimeToSeconds dt = do {
     let days = (ucast (year dt) - 1970) * 365;
     let days = days + (ucast (year dt) div 4 - 1970 div 4);
     c_assert (unat (month dt) < length monthDays);
     let days = days + ucast (monthDays ! unat (month dt));
     let days = days + (ucast (day dt) - 1);
     let days = (if year dt AND 3 = 0 \<and> month dt \<le> 2 \<and> days \<noteq> 0 then days - 1 else days);
     c_assert (days < 0xFFFFFFFF div 86400);
     Some (days * 86400 + ucast (hour dt) * 3600 + ucast (minute dt) * 60 + ucast (second dt))
   }"

function rtc_year_loop :: "u32 \<Rightarrow> u16 \<Rightarrow> u16 \<Rightarrow> u32 \<times> u16" where
  "rtc_year_loop days daysInYear yr =
     (if ucast daysInYear < days then
        let days' = days - ucast daysInYear; yr' = yr + 1 in
        rtc_year_loop days' (if yr' AND 3 \<noteq> 0 then 365 else 365 + 1) yr'
      else (days, yr))"
  by pat_completeness auto

lemma unat_days_step: "(ucast (n::u16) :: u32) < d \<Longrightarrow> unat (d - ucast n) = unat d - unat n"
  by (simp add: unat_minus_small word_less_nat_alt)

termination rtc_year_loop
proof (relation "measures [\<lambda>(d, n, y). unat d, \<lambda>(d, n, y). if n = 0 then 1 else 0]", goal_cases)
  case (2 d n y x xa)
  then have "n \<noteq> 0 \<Longrightarrow> 0 < unat n" by (simp add: unat_gt_0)
  with 2 show ?case by (auto simp: unat_days_step word_less_nat_alt)
qed simp

function rtc_month_loop :: "u8 list \<Rightarrow> u32 \<Rightarrow> u32 \<Rightarrow> u8 \<Rightarrow> u32 \<times> u8" where
  "rtc_month_loop tab x days mon =
     (if x \<le> 12 then
        if days \<le> ucast (tab ! unat x) then (days, ucast x)
        else rtc_month_loop tab (x + 1) (days - ucast (tab ! unat x)) mon
      else (days, mon))"
  by pat_completeness auto
termination
  by (relation "measure (\<lambda>(tab, x, d, m). 13 - unat x)")
     (auto simp: word_le_nat_alt unat_plus_small)

declare rtc_year_loop.simps [simp del] rtc_month_loop.simps [simp del]

definition RTC_ConvertSecondsToDatetime :: "u32 \<Rightarrow> rtc_datetime \<Rightarrow> rtc_datetime" where
  "RTC_ConvertSecondsToDatetime seconds dt =
     (let secondsRemaining = seconds;
          days = secondsRemaining div 86400 + 1;
          secondsRemaining = secondsRemaining mod 86400;
          dt = dt\<lparr>hour := ucast (secondsRemaining div 3600)\<rparr>;
          secondsRemaining = secondsRemaining mod 3600;
          dt = dt\<lparr>minute := ucast (secondsRemaining div 60)\<rparr>;
          dt = dt\<lparr>second := ucast (secondsRemaining mod 60)\<rparr>;
          (days, yr) = rtc_year_loop days 365 1970;
          dt = dt\<lparr>year := yr\<rparr>;
          tab = (if yr AND 3 = 0 then daysPerMonth[2 := 29] else daysPerMonth);
          (days, mon) = rtc_month_loop tab 1 days (month dt);
          dt = dt\<lparr>month := mon\<rparr>
      in dt\<lparr>day := ucast days\<rparr>)"

subsection \<open>The tables against the reference\<close>

lemma sum_month_days:
  assumes "1 \<le> m" "m \<le> 12"
  shows "sum_list (map (greg_month_days y) [1..<m]) =
         unat (monthDays ! m) + (if greg_leap y \<and> 2 < m then 1 else 0)"
  using month_cases [OF assms]
  by (auto simp: monthDays_def greg_month_days_def upt_conv_Cons)

lemma daysPerMonth_greg:
  assumes "1 \<le> m" "m \<le> 12"
  shows "unat ((if greg_leap y then daysPerMonth[2 := 29] else daysPerMonth) ! m) = greg_month_days y m"
  using month_cases [OF assms]
  by (auto simp: daysPerMonth_def greg_month_days_def)


subsection \<open>The format check\<close>

definition civil_valid :: "rtc_datetime \<Rightarrow> bool" where
  "civil_valid dt \<longleftrightarrow>
     1970 \<le> unat (year dt) \<and> unat (year dt) \<le> 2099 \<and>
     1 \<le> unat (month dt) \<and> unat (month dt) \<le> 12 \<and>
     1 \<le> unat (day dt) \<and> unat (day dt) \<le> greg_month_days (unat (year dt)) (unat (month dt)) \<and>
     unat (hour dt) < 24 \<and> unat (minute dt) < 60 \<and> unat (second dt) < 60"

definition civil_seconds :: "rtc_datetime \<Rightarrow> nat" where
  "civil_seconds dt =
     civil_days (unat (year dt)) (unat (month dt)) (unat (day dt)) * 86400 +
     unat (hour dt) * 3600 + unat (minute dt) * 60 + unat (second dt)"

lemma year_and_3: "(y AND 3 = (0::u16)) \<longleftrightarrow> unat y mod 4 = 0"
  by (metis unat_and_3 unat_eq_zero)

lemma year_mod: "(y mod 100 = (0::u16)) \<longleftrightarrow> unat y mod 100 = 0"
   "(y mod 400 = (0::u16)) \<longleftrightarrow> unat y mod 400 = 0"
  by (simp_all add: word_unat_eq_iff unat_mod_distrib)

lemma greg_leap_word:
  "((y AND 3 = (0::u16)) \<and> y mod 100 \<noteq> 0 \<or> y mod 400 = 0) \<longleftrightarrow> greg_leap (unat y)"
  by (simp add: year_and_3 year_mod greg_leap_def)

lemma RTC_CheckDatetimeFormat_iff: "RTC_CheckDatetimeFormat dt \<longleftrightarrow> civil_valid dt"
proof (cases "1 \<le> unat (month dt) \<and> unat (month dt) \<le> 12")
  case True
  then show ?thesis
    using daysPerMonth_greg [of "unat (month dt)" "unat (year dt)"]
    unfolding RTC_CheckDatetimeFormat_def civil_valid_def greg_leap_word
    by (auto simp: word_less_nat_alt word_le_nat_alt Let_def)
next
  case False
  then show ?thesis
    by (auto simp: RTC_CheckDatetimeFormat_def civil_valid_def word_less_nat_alt)
qed

subsection \<open>From a date to seconds\<close>

lemma civil_days_eq:
  assumes "1970 \<le> y" "y \<le> 2099" "1 \<le> m" "m \<le> 12"
  shows "civil_days y m d = year_start y + (unat (monthDays ! m) + (if y mod 4 = 0 \<and> 2 < m then 1 else 0)) + (d - 1)"
proof -
  have y: "y \<le> 2100" using assms(2) by simp
  show ?thesis
    unfolding civil_days_def sum_year_days [OF assms(1) y] sum_month_days [OF assms(3,4)]
      greg_leap_range [OF assms(1,2)] by simp
qed

lemma monthDays_bound: "m \<le> 12 \<Longrightarrow> unat (monthDays ! m) \<le> 334"
proof -
  have *: "list_all (\<lambda>x. unat x \<le> 334) monthDays" by (simp add: monthDays_def)
  assume "m \<le> 12"
  then have "m < length monthDays" by (simp add: monthDays_def)
  with * show ?thesis by (simp add: list_all_length)
qed

lemma word_days_eq:
  fixes y :: u16 and d :: u8
  assumes "1970 \<le> unat y" "unat y \<le> 2099" "1 \<le> unat d"  "unat d \<le> 31" "m \<le> 12"
  defines "n \<equiv> (ucast y - 1970) * 365 + (ucast y div 4 - 1970 div 4) +
               ucast (monthDays ! m) + (ucast d - 1) :: u32"
  shows "unat n = 365 * (unat y - 1970) + (unat y div 4 - 492) + unat (monthDays ! m) + (unat d - 1)"
proof -
  have a: "unat ((ucast y - 1970) * 365 :: u32) = (unat y - 1970) * 365"
    using assms(1,2) by (simp add: unat_small)
  have "492 \<le> unat y div 4" "unat y div 4 \<le> 525"
    using assms(1,2) div_le_mono [of 1970 "unat y" 4] div_le_mono [of "unat y" 2099 4] by simp_all
  then have b: "unat (ucast y div 4 - 1970 div 4 :: u32) = unat y div 4 - 492"
    and bb: "unat y div 4 \<le> 525"
    by (simp_all add: unat_minus_small unat_div_distrib)
  have c: "unat (ucast d - 1 :: u32) = unat d - 1" using assms(3) by (simp add: unat_minus_small)
  have ab: "unat ((ucast y - 1970) * 365 + (ucast y div 4 - 1970 div 4) :: u32) =
      (unat y - 1970) * 365 + (unat y div 4 - 492)"
    using a b bb assms(1,2) by (subst unat_plus_small) simp_all
  have abm: "unat ((ucast y - 1970) * 365 + (ucast y div 4 - 1970 div 4) + ucast (monthDays ! m) :: u32) =
      (unat y - 1970) * 365 + (unat y div 4 - 492) + unat (monthDays ! m)"
    using ab bb assms(1,2) monthDays_bound [OF assms(5)] by (subst unat_plus_small) simp_all
  show ?thesis
    unfolding n_def using abm c bb assms(1-4) monthDays_bound [OF assms(5)]
    by (subst unat_plus_small) (simp_all add: mult.commute)
qed

lemma year_start_leap_days:
  assumes "1970 \<le> y"
  shows "365 * (y - 1970) + (y div 4 - 492) = year_start y + (if y mod 4 = 0 then 1 else 0)"
proof -
  obtain D where D: "(y - 1) div 4 = D" by simp
  have "492 \<le> D" using assms D div_le_mono [of 1969 "y - 1" 4] by simp
  moreover have "y div 4 = D + (if y mod 4 = 0 then 1 else 0)"
    using assms D by (cases y) (auto simp: div_Suc)
  ultimately show ?thesis unfolding year_start_def D by simp
qed


lemma civil_days_bound:
  assumes "civil_valid dt"
  shows "civil_days (unat (year dt)) (unat (month dt)) (unat (day dt)) \<le> 47481"
  using assms by (intro civil_days_le) (simp_all add: civil_valid_def)

lemma civil_seconds_bound:
  assumes "civil_valid dt"
  shows "civil_seconds dt < 4102444800"
  using civil_days_bound [OF assms] assms by (simp add: civil_seconds_def civil_valid_def)

lemma to_seconds_civil:
  assumes "RTC_CheckDatetimeFormat dt"
  shows "\<exists>s. RTC_ConvertDatetimeToSeconds dt = Some s \<and> unat s = civil_seconds dt"
proof -
  have v: "civil_valid dt" using assms by (simp add: RTC_CheckDatetimeFormat_iff)
  have r: "1970 \<le> unat (year dt)" "unat (year dt) \<le> 2099" "1 \<le> unat (month dt)" "unat (month dt) \<le> 12"
    "1 \<le> unat (day dt)" "unat (day dt) \<le> 31" "unat (hour dt) < 24" "unat (minute dt) < 60" "unat (second dt) < 60"
    using v greg_month_days_le [of "unat (year dt)" "unat (month dt)"] by (simp_all add: civil_valid_def)
  define n :: u32 where "n = (ucast (year dt) - 1970) * 365 + (ucast (year dt) div 4 - 1970 div 4) +
      ucast (monthDays ! unat (month dt)) + (ucast (day dt) - 1)"
  define k :: u32 where "k = (if year dt AND 3 = 0 \<and> month dt \<le> 2 \<and> n \<noteq> 0 then n - 1 else n)"
  have n: "unat n = year_start (unat (year dt)) + (if unat (year dt) mod 4 = 0 then 1 else 0) +
      unat (monthDays ! unat (month dt)) + (unat (day dt) - 1)"
    using word_days_eq [OF r(1,2,5,6,4)] year_start_leap_days [OF r(1)] by (simp add: n_def)
  have "unat k = civil_days (unat (year dt)) (unat (month dt)) (unat (day dt))"
    unfolding k_def civil_days_eq [OF r(1-4)] year_and_3
    using n by (auto simp: word_le_nat_alt unat_minus_one simp flip: unat_eq_zero)
  moreover have "civil_days (unat (year dt)) (unat (month dt)) (unat (day dt)) \<le> 47481"
    using civil_days_bound [OF v] .
  ultimately have k: "unat k = civil_days (unat (year dt)) (unat (month dt)) (unat (day dt))" "unat k \<le> 47481"
    by simp_all
  have "RTC_ConvertDatetimeToSeconds dt =
      Some (k * 86400 + ucast (hour dt) * 3600 + ucast (minute dt) * 60 + ucast (second dt))"
    unfolding RTC_ConvertDatetimeToSeconds_def Let_def n_def [symmetric] k_def [symmetric]
    using r(4) k(2) by (simp add: monthDays_def word_less_nat_alt)
  moreover have "unat (k * 86400 + ucast (hour dt) * 3600 + ucast (minute dt) * 60 + ucast (second dt)) =
      civil_seconds dt"
    using k r(7-9) by (simp add: unat_small civil_seconds_def)
  ultimately show ?thesis by blast
qed

subsection \<open>From seconds to a date\<close>

lemma year_loop_spec:
  assumes "rtc_year_loop d n y = (d', y')"
    and "1970 \<le> unat y" "unat y + unat d < 65536" "1 \<le> unat d"
    and "unat n = julian_year (unat y)"
  shows "1 \<le> unat d' \<and> unat d' \<le> julian_year (unat y') \<and> unat y \<le> unat y' \<and>
         year_start (unat y') + unat d' = year_start (unat y) + unat d"
  using assms
proof (induction d n y rule: rtc_year_loop.induct)
  case (1 d n y)
  show ?case
  proof (cases "ucast n < d")
    case False
    with 1 show ?thesis by (auto simp: rtc_year_loop.simps [of d n y] word_less_nat_alt)
  next
    case True
    let ?n = "if (y + 1) AND 3 \<noteq> 0 then 365 else 365 + 1 :: u16"
    have lt: "unat n < unat d" using True by (simp add: word_less_nat_alt)
    have d: "unat (d - ucast n) = unat d - unat n" using True by (rule unat_days_step)
    have y: "unat (y + 1) = Suc (unat y)" using 1(4) lt by (simp add: unat_plus_small)
    have n: "unat ?n = julian_year (unat (y + 1))"
      by (simp add: julian_year_def unat_and_3 [symmetric] unat_eq_zero)
    have eq: "rtc_year_loop (d - ucast n) ?n (y + 1) = (d', y')"
      using 1(2) True by (simp add: rtc_year_loop.simps [of d n y] Let_def)
    have "0 < unat n" using 1(6) by (simp add: julian_year_def)
    then have "1 \<le> unat d' \<and> unat d' \<le> julian_year (unat y') \<and> unat (y + 1) \<le> unat y' \<and>
       year_start (unat y') + unat d' = year_start (unat (y + 1)) + unat (d - ucast n)"
      using "1.IH" [OF True refl refl eq _ _ _ n] 1(3,4) lt d y by linarith
    then show ?thesis using year_start_Suc [OF 1(3)] 1(6) lt d y by simp
  qed
qed

lemma month_loop_spec:
  assumes "rtc_month_loop tab x d m0 = (d', m')"
    and "\<And>k. 1 \<le> k \<Longrightarrow> k \<le> 12 \<Longrightarrow> unat (tab ! k) = f k"
    and "1 \<le> unat x" "unat x \<le> 12" "1 \<le> unat d"
    and "unat d + sum_list (map f [1..<unat x]) \<le> sum_list (map f [1..<13])"
  shows "1 \<le> unat m' \<and> unat m' \<le> 12 \<and> 1 \<le> unat d' \<and> unat d' \<le> f (unat m') \<and>
         sum_list (map f [1..<unat m']) + unat d' = sum_list (map f [1..<unat x]) + unat d"
  using assms
proof (induction tab x d m0 rule: rtc_month_loop.induct)
  case (1 tab x d m0)
  have le: "x \<le> 12" using 1(5) by (simp add: word_le_nat_alt)
  have tx: "unat (tab ! unat x) = f (unat x)" using 1(3-5) by simp
  show ?case
  proof (cases "d \<le> ucast (tab ! unat x)")
    case True
    have "unat (ucast x :: u8) = unat x" using 1(5) by (simp add: unat_ucast_small)
    with True 1 le tx show ?thesis
      by (auto simp: rtc_month_loop.simps [of tab x d m0] word_le_nat_alt)
  next
    case False
    have lt: "f (unat x) < unat d" using False tx by (simp add: word_le_nat_alt)
    have d: "unat (d - ucast (tab ! unat x)) = unat d - f (unat x)"
      using lt tx by (simp add: unat_minus_small)
    have x1: "unat (x + 1) = Suc (unat x)" using 1(5) by (simp add: unat_plus_small)
    have s: "sum_list (map f [1..<unat (x + 1)]) = sum_list (map f [1..<unat x]) + f (unat x)"
      using 1(4) x1 by simp
    have "unat x \<noteq> 12"
    proof
      assume x12: "unat x = 12"
      have "[1..<13::nat] = [1..<12] @ [12]" by (simp add: upt_conv_Cons)
      then have "sum_list (map f [1..<13]) = sum_list (map f [1..<12]) + f 12" by simp
      with x12 1(7) lt show False by simp
    qed
    then have "unat (x + 1) \<le> 12" using 1(5) x1 by simp
    moreover have "rtc_month_loop tab (x + 1) (d - ucast (tab ! unat x)) m0 = (d', m')"
      using 1(2) le False by (simp add: rtc_month_loop.simps [of tab x d m0])
    ultimately show ?thesis
      using "1.IH" [OF le False _ 1(3)] 1(7) lt d x1 s by simp
  qed
qed

text \<open>The time of day computed by the three divisions.\<close>

lemma time_of_day:
  fixes s :: u32
  defines "h \<equiv> ucast (s mod 86400 div 3600) :: u8" and "mi \<equiv> ucast (s mod 86400 mod 3600 div 60) :: u8"
    and "se \<equiv> ucast (s mod 86400 mod 3600 mod 60) :: u8"
  shows "unat h < 24 \<and> unat mi < 60 \<and> unat se < 60 \<and>
         unat h * 3600 + unat mi * 60 + unat se = unat s mod 86400"
proof -
  define r where "r = unat s mod 86400"
  have r: "r < 86400" by (simp add: r_def)
  have b: "r div 3600 < 24" "r mod 3600 div 60 < 60" "r mod 3600 mod 60 < 60"
    using r by (simp_all add: less_mult_imp_div_less)
  have "r div 3600 * 3600 + r mod 3600 div 60 * 60 + r mod 3600 mod 60 = r"
    by (simp add: add.assoc)
  moreover have "unat h = r div 3600" "unat mi = r mod 3600 div 60" "unat se = r mod 3600 mod 60"
    using b by (simp_all add: h_def mi_def se_def r_def unat_ucast_small unat_div_distrib unat_mod_distrib)
  ultimately show ?thesis using b r_def by simp
qed

text \<open>The date found by the two loops from a day count.\<close>

lemma date_of_day_count:
  assumes "rtc_year_loop D 365 1970 = (d1, y)" and "1 \<le> unat D" "unat D \<le> 47482"
    and "rtc_month_loop (if y AND 3 = 0 then daysPerMonth[2 := 29] else daysPerMonth) 1 d1 m0 = (d2, m)"
  shows "1970 \<le> unat y \<and> unat y \<le> 2099 \<and> 1 \<le> unat m \<and> unat m \<le> 12 \<and>
         1 \<le> unat d2 \<and> unat d2 \<le> greg_month_days (unat y) (unat m) \<and>
         civil_days (unat y) (unat m) (unat d2) + 1 = unat D"
proof -
  have Y: "1 \<le> unat d1" "unat d1 \<le> julian_year (unat y)" "1970 \<le> unat y"
    "year_start (unat y) + unat d1 = unat D"
    using year_loop_spec [OF assms(1)] assms(2,3) by (simp_all add: julian_year_def year_start_def)
  have y99: "unat y \<le> 2099"
  proof (rule ccontr)
    assume "\<not> unat y \<le> 2099"
    then have "year_start 2099 + julian_year 2099 \<le> year_start (unat y)" by (intro year_start_mono) auto
    moreover have "year_start 2099 + julian_year 2099 = 47482" by (simp add: year_start_def julian_year_def)
    ultimately show False using Y assms(3) by simp
  qed
  have leap: "greg_leap (unat y) \<longleftrightarrow> y AND 3 = 0" using Y(3) y99 by (simp add: greg_leap_range year_and_3)
  have tab: "1 \<le> k \<Longrightarrow> k \<le> 12 \<Longrightarrow>
      unat ((if y AND 3 = 0 then daysPerMonth[2 := 29] else daysPerMonth) ! k) = greg_month_days (unat y) k" for k
    unfolding leap [symmetric] by (rule daysPerMonth_greg)
  have "julian_year (unat y) = sum_list (map (greg_month_days (unat y)) [1..<13])"
    by (simp add: julian_year_def greg_month_days_def greg_leap_range [OF Y(3) y99] upt_conv_Cons)
  then have "1 \<le> unat m \<and> unat m \<le> 12 \<and> 1 \<le> unat d2 \<and> unat d2 \<le> greg_month_days (unat y) (unat m) \<and>
      sum_list (map (greg_month_days (unat y)) [1..<unat m]) + unat d2 = unat d1"
    using month_loop_spec [OF assms(4) tab] Y by simp
  with Y y99 show ?thesis by (simp add: civil_days_def sum_year_days)
qed

lemma to_datetime_civil:
  assumes "unat s < 4102444800"
  shows "RTC_CheckDatetimeFormat (RTC_ConvertSecondsToDatetime s dt0) \<and>
         civil_seconds (RTC_ConvertSecondsToDatetime s dt0) = unat s"
proof -
  let ?tab = "\<lambda>y. if y AND 3 = (0::u16) then daysPerMonth[2 := 29] else daysPerMonth"
  define D where "D = s div 86400 + 1"
  have D: "unat D = unat s div 86400 + 1" "unat D \<le> 47482"
    using assms div_le_mono [of "unat s" 4102444799 86400]
    by (simp_all add: D_def unat_plus_small unat_div_distrib)
  obtain d1 y where yl: "rtc_year_loop D 365 1970 = (d1, y)" by fastforce
  obtain d2 m where ml: "rtc_month_loop (?tab y) 1 d1 (month dt0) = (d2, m)" by fastforce
  have M: "1970 \<le> unat y" "unat y \<le> 2099" "1 \<le> unat m" "unat m \<le> 12" "1 \<le> unat d2"
    "unat d2 \<le> greg_month_days (unat y) (unat m)" "civil_days (unat y) (unat m) (unat d2) + 1 = unat D"
    using date_of_day_count [OF yl _ D(2) ml] D(1) by simp_all
  have d8: "unat (ucast d2 :: u8) = unat d2"
    using M(6) greg_month_days_le [of "unat y" "unat m"] by (simp add: unat_ucast_small)
  have R: "RTC_ConvertSecondsToDatetime s dt0 =
      dt0\<lparr>hour := ucast (s mod 86400 div 3600), minute := ucast (s mod 86400 mod 3600 div 60),
          second := ucast (s mod 86400 mod 3600 mod 60), year := y, month := m, day := ucast d2\<rparr>"
    unfolding RTC_ConvertSecondsToDatetime_def Let_def D_def [symmetric] yl
    using ml by simp
  have "civil_valid (RTC_ConvertSecondsToDatetime s dt0)"
    using M d8 time_of_day [of s] by (simp add: R civil_valid_def)
  moreover have "civil_seconds (RTC_ConvertSecondsToDatetime s dt0) =
      civil_days (unat y) (unat m) (unat d2) * 86400 + unat (ucast (s mod 86400 div 3600) :: u8) * 3600 +
      unat (ucast (s mod 86400 mod 3600 div 60) :: u8) * 60 + unat (ucast (s mod 86400 mod 3600 mod 60) :: u8)"
    using d8 by (simp add: R civil_seconds_def)
  then have "civil_seconds (RTC_ConvertSecondsToDatetime s dt0) = unat s"
    using M(7) D(1) time_of_day [of s] div_mult_mod_eq [of "unat s" 86400] by linarith
  ultimately show ?thesis by (simp add: RTC_CheckDatetimeFormat_iff)
qed

text \<open>The reference seconds determine the date: valid dates with equal seconds are equal.\<close>

lemma civil_seconds_inj:
  assumes v: "civil_valid a" "civil_valid b" and eq: "civil_seconds a = civil_seconds b"
  shows "a = b"
proof -
  let ?tod = "\<lambda>t. (unat (hour t) * 60 + unat (minute t)) * 60 + unat (second t)"
  let ?cd = "\<lambda>t. civil_days (unat (year t)) (unat (month t)) (unat (day t))"
  have s: "civil_seconds t = ?cd t * 86400 + ?tod t" for t by (simp add: civil_seconds_def)
  have lt: "civil_valid t \<Longrightarrow> ?tod t < 86400" for t by (simp add: civil_valid_def)
  have 1: "?cd a = ?cd b \<and> ?tod a = ?tod b"
    by (rule radix_inj [OF lt [OF v(1)] lt [OF v(2)] eq [unfolded s]])
  have b: "unat (second a) < 60" "unat (second b) < 60" "unat (minute a) < 60" "unat (minute b) < 60"
    using v by (simp_all add: civil_valid_def)
  have 2: "unat (hour a) * 60 + unat (minute a) = unat (hour b) * 60 + unat (minute b) \<and>
      unat (second a) = unat (second b)"
    by (rule radix_inj [OF b(1,2) conjunct2 [OF 1]])
  have "unat (hour a) = unat (hour b) \<and> unat (minute a) = unat (minute b)"
    by (rule radix_inj [OF b(3,4) conjunct1 [OF 2]])
  moreover have "unat (year a) = unat (year b) \<and> unat (month a) = unat (month b) \<and> unat (day a) = unat (day b)"
    using v 1 by (intro civil_days_inj) (simp_all add: civil_valid_def)
  ultimately show ?thesis using 2 by (cases a, cases b) (simp add: word_unat_eq_iff)
qed

subsection \<open>The driver meets the interface\<close>

text \<open>
  \<open>RTC_GetDatetime\<close> zeroes the structure before converting, so the conversion starts from
  \<open>rtc_datetime_zero\<close>; the result does not depend on it.
\<close>

definition rtc_datetime_zero :: rtc_datetime where
  "rtc_datetime_zero = \<lparr>year = 0, month = 0, day = 0, hour = 0, minute = 0, second = 0\<rparr>"

definition rtc_limit :: nat where "rtc_limit = 4102444800"

lemma roundtrip_date:
  assumes "RTC_CheckDatetimeFormat dt" "RTC_ConvertDatetimeToSeconds dt = Some s"
  shows "RTC_ConvertSecondsToDatetime s dt0 = dt"
proof -
  have v: "civil_valid dt" using assms(1) by (simp add: RTC_CheckDatetimeFormat_iff)
  have s: "unat s = civil_seconds dt" using to_seconds_civil [OF assms(1)] assms(2) by auto
  then have "unat s < 4102444800" using civil_seconds_bound [OF v] by simp
  from to_datetime_civil [OF this, of dt0] s v show ?thesis
    by (intro civil_seconds_inj) (simp_all add: RTC_CheckDatetimeFormat_iff)
qed

lemma roundtrip_secs:
  assumes "unat s < 4102444800"
  shows "RTC_ConvertDatetimeToSeconds (RTC_ConvertSecondsToDatetime s dt0) = Some s"
  using to_datetime_civil [OF assms, of dt0]
    to_seconds_civil [of "RTC_ConvertSecondsToDatetime s dt0"]
  by (auto simp: word_unat_eq_iff)

interpretation rtc: datetime_codec RTC_CheckDatetimeFormat RTC_ConvertDatetimeToSeconds
  "\<lambda>s. RTC_ConvertSecondsToDatetime s rtc_datetime_zero" rtc_limit
proof (unfold_locales, goal_cases)
  case (1 t)
  then show ?case
    using to_seconds_civil [OF 1] civil_seconds_bound [of t]
    by (auto simp: RTC_CheckDatetimeFormat_iff rtc_limit_def)
next
  case (2 t s)
  then show ?case by (rule roundtrip_date)
next
  case (3 s)
  then show ?case using to_datetime_civil [of s] by (simp add: rtc_limit_def)
next
  case (4 s)
  then show ?case by (simp add: rtc_limit_def roundtrip_secs)
qed

subsection \<open>Properties\<close>

text \<open>C26: \<open>RTC_CheckDatetimeFormat\<close> accepts exactly the dates of the Gregorian calendar from 1970
  to 2099 with a time of day below 24:00:00.\<close>

theorem format_check_gregorian: "RTC_CheckDatetimeFormat dt \<longleftrightarrow> civil_valid dt"
  by (rule RTC_CheckDatetimeFormat_iff)

text \<open>C20: on every date the format check accepts, \<open>RTC_ConvertDatetimeToSeconds\<close> passes its
  assertions and returns the number of seconds since 1 January 1970 that the calendar gives,
  without wrap-around.\<close>

theorem to_seconds_counts:
  assumes "RTC_CheckDatetimeFormat dt"
  shows "\<exists>s. RTC_ConvertDatetimeToSeconds dt = Some s \<and> unat s = civil_seconds dt"
  by (rule to_seconds_civil [OF assms])

theorem to_seconds_counts_witness:
  "\<exists>s. RTC_ConvertDatetimeToSeconds \<lparr>year = 2024, month = 2, day = 29, hour = 23, minute = 59, second = 58\<rparr> = Some s \<and>
       unat s = civil_seconds \<lparr>year = 2024, month = 2, day = 29, hour = 23, minute = 59, second = 58\<rparr>"
  by (rule to_seconds_counts) code_simp

text \<open>C19: for every counter value before 1 January 2100, whatever the structure held,
  \<open>RTC_ConvertSecondsToDatetime\<close> yields a valid date, the only valid date whose seconds since
  1970 are the counter, and converting it back returns the counter.\<close>

theorem to_datetime_unique:
  assumes "unat s < rtc_limit"
  shows "civil_valid (RTC_ConvertSecondsToDatetime s dt0) \<and>
         (\<forall>dt. civil_valid dt \<and> civil_seconds dt = unat s \<longleftrightarrow> dt = RTC_ConvertSecondsToDatetime s dt0) \<and>
         RTC_ConvertDatetimeToSeconds (RTC_ConvertSecondsToDatetime s dt0) = Some s"
  using to_datetime_civil [of s dt0] roundtrip_secs [of s dt0] assms
  by (auto simp: rtc_limit_def RTC_CheckDatetimeFormat_iff intro: civil_seconds_inj)

theorem to_datetime_unique_witness:
  "civil_valid (RTC_ConvertSecondsToDatetime 4102444799 rtc_datetime_zero) \<and>
   RTC_ConvertDatetimeToSeconds (RTC_ConvertSecondsToDatetime 4102444799 rtc_datetime_zero) = Some 4102444799"
  using to_datetime_unique [of 4102444799 rtc_datetime_zero] by (simp add: rtc_limit_def)

end
