(* ===== verification/Common.thy ===== *)
theory Common
  imports Prelude
begin

text \<open>
  \<open>drivers/common/fsl_common.h\<close>: status codes. A status is a 32-bit signed integer built from a
  group number and a code; its values are kept as \<open>int\<close>, since no driver computes with them.
\<close>

type_synonym status = int

definition MAKE_STATUS :: "int \<Rightarrow> int \<Rightarrow> status" where
  "MAKE_STATUS grp code = grp * 100 + code"

definition kStatusGroup_Generic :: int where "kStatusGroup_Generic = 0"
definition kStatusGroup_LPUART :: int where "kStatusGroup_LPUART = 13"
definition kStatusGroup_LPC_USART :: int where "kStatusGroup_LPC_USART = 57"

definition kStatus_Success :: status where "kStatus_Success = MAKE_STATUS kStatusGroup_Generic 0"
definition kStatus_Fail :: status where "kStatus_Fail = MAKE_STATUS kStatusGroup_Generic 1"
definition kStatus_OutOfRange :: status where "kStatus_OutOfRange = MAKE_STATUS kStatusGroup_Generic 3"
definition kStatus_InvalidArgument :: status where
  "kStatus_InvalidArgument = MAKE_STATUS kStatusGroup_Generic 4"
definition kStatus_NoTransferInProgress :: status where
  "kStatus_NoTransferInProgress = MAKE_STATUS kStatusGroup_Generic 6"

lemmas status_defs =
  MAKE_STATUS_def kStatusGroup_Generic_def kStatusGroup_LPUART_def kStatusGroup_LPC_USART_def
  kStatus_Success_def kStatus_Fail_def kStatus_OutOfRange_def kStatus_InvalidArgument_def kStatus_NoTransferInProgress_def

lemma make_status_inj:
  assumes "0 \<le> c" "c < 100" "0 \<le> c'" "c' < 100" "MAKE_STATUS g c = MAKE_STATUS g' c'"
  shows "g = g' \<and> c = c'"
proof -
  have "(g * 100 + c) div 100 = g" "(g' * 100 + c') div 100 = g'" using assms(1-4) by simp_all
  with assms(5) have "g = g'" by (simp add: MAKE_STATUS_def)
  with assms(5) show ?thesis by (simp add: MAKE_STATUS_def)
qed

text \<open>
  \<open>fsl_common_arm.h\<close>: register addresses compare equal in their secure and non-secure alias when
  the build is for the secure world (\<open>cmse\<close>).
\<close>

definition MSDK_REG_SECURE_ADDR :: "bool \<Rightarrow> u32 \<Rightarrow> u32" where
  "MSDK_REG_SECURE_ADDR cmse x = (if cmse then x OR push_bit 28 1 else x)"

text \<open>
  The loop of every \<open>GetInstance\<close>: the index of the first base address that matches, or the
  number of instances.
\<close>

fun find_base :: "bool \<Rightarrow> u32 list \<Rightarrow> u32 \<Rightarrow> nat" where
  "find_base cmse [] base = 0"
| "find_base cmse (b # bs) base =
     (if MSDK_REG_SECURE_ADDR cmse b = MSDK_REG_SECURE_ADDR cmse base then 0
      else Suc (find_base cmse bs base))"

lemma find_base_le: "find_base cmse bs base \<le> length bs"
  by (induction bs) auto

lemma find_base_hit:
  "find_base cmse bs base < length bs \<Longrightarrow>
   MSDK_REG_SECURE_ADDR cmse (bs ! find_base cmse bs base) = MSDK_REG_SECURE_ADDR cmse base"
  by (induction bs) (auto split: if_splits)

lemma find_base_first:
  assumes "distinct (map (MSDK_REG_SECURE_ADDR cmse) bs)" "i < length bs"
  shows "find_base cmse bs (bs ! i) = i"
  using assms
proof (induction bs arbitrary: i)
  case (Cons b bs)
  show ?case
  proof (cases i)
    case (Suc j)
    with Cons.prems have "MSDK_REG_SECURE_ADDR cmse b \<noteq> MSDK_REG_SECURE_ADDR cmse (bs ! j)"
      by (metis (no_types, lifting) Suc_less_eq distinct.simps(2) image_eqI length_Cons list.set_map list.simps(9) nth_mem)
    with Suc Cons show ?thesis by simp
  qed simp
qed simp

text \<open>
  The interrupt mask register of the core: \<open>DisableGlobalIRQ\<close> returns its value and masks all
  interrupts, \<open>EnableGlobalIRQ\<close> restores a value.
\<close>

definition DisableGlobalIRQ :: "u32 \<Rightarrow> u32 \<times> u32" where
  "DisableGlobalIRQ primask = (primask, 1)"

definition EnableGlobalIRQ :: "u32 \<Rightarrow> u32 \<Rightarrow> u32" where
  "EnableGlobalIRQ saved primask = saved"

end
