(* ===== verification/Rtc.thy ===== *)
theory Rtc
  imports Rtc_Calendar Common
begin

text \<open>
  \<open>drivers/rtc/fsl_rtc.c\<close> and the inline functions of \<open>fsl_rtc.h\<close>: the register-level driver.
  The peripheral is a device state \<open>'d\<close> accessed through an \<open>rtc_soc\<close>: its registers, the masks
  and field macros of the device header, the feature macros the code is compiled with and the
  clock gate. Every \<open>#if\<close> of the source is a test of a feature.
\<close>

subsection \<open>The peripheral\<close>

datatype rtc_reg =
    R_TSR | R_TAR | R_TCR | R_CR | R_SR | R_IER | R_TIR | R_TDR | R_TTSR | R_MER | R_MCLR | R_MCHR

datatype rtc_mask =
    CR_SWR | CR_UM | CR_SUP | CR_WPS | CR_WPE | CR_CLKO | CR_OSCE | CR_LPOS
  | CR_SC2P | CR_SC4P | CR_SC8P | CR_SC16P
  | SR_TIF | SR_TOF | SR_TAF | SR_MOF | SR_TCE | SR_TIDF
  | IER_TIIE | IER_TOIE | IER_TAIE | IER_TSIE | IER_MOIE | IER_TSIC
  | TIR_TMIE | TIR_FSIE | TIR_TPIE | TIR_SIE | TIR_LCIE
  | TDR_TMF | TDR_FSF | TDR_TPF | TDR_STF | TDR_LCTF
  | MER_MCE

datatype rtc_field = F_CR_UM | F_CR_SUP | F_CR_WPS | F_CR_CLKO | F_TCR_CIR | F_TCR_TCR | F_IER_TSIC

datatype rtc_feature =
    RTC_CLOCK_CONTROL | HAS_NO_CR_OSCE | HAS_WAKEUP_PIN_SELECTION | HAS_CLOCK_OUTPUT | HAS_TSIC
  | HAS_ERRATA_010716 | HAS_MONOTONIC | HAS_TIR | HAS_TIR_TPIE | HAS_TIR_SIE | HAS_TIR_LCIE
  | HAS_SR_TIDF | HAS_TDR | HAS_TDR_TPF | HAS_TDR_STF | HAS_TDR_LCTF

record 'd rtc_soc = "(rtc_reg, 'd) mmio" +
  rmask :: "rtc_mask \<Rightarrow> u32"
  rfield :: "rtc_field \<Rightarrow> u32 \<Rightarrow> u32"
  rfeature :: "rtc_feature \<Rightarrow> bool"
  CLOCK_EnableClock :: "'d \<Rightarrow> 'd"
  CLOCK_DisableClock :: "'d \<Rightarrow> 'd"

record rtc_config =
  clockOutput :: bool
  wakeupSelect :: bool
  updateMode :: bool
  supervisorAccess :: bool
  compensationInterval :: u32
  compensationTime :: u32

text \<open>The enumerators of \<open>rtc_interrupt_enable_t\<close> and \<open>rtc_status_flags_t\<close>.\<close>

definition kRTC_TimeInvalidInterruptEnable :: u32 where "kRTC_TimeInvalidInterruptEnable = push_bit 0 1"
definition kRTC_TimeOverflowInterruptEnable :: u32 where "kRTC_TimeOverflowInterruptEnable = push_bit 1 1"
definition kRTC_AlarmInterruptEnable :: u32 where "kRTC_AlarmInterruptEnable = push_bit 2 1"
definition kRTC_MonotonicOverflowInterruptEnable :: u32 where
  "kRTC_MonotonicOverflowInterruptEnable = push_bit 3 1"
definition kRTC_SecondsInterruptEnable :: u32 where "kRTC_SecondsInterruptEnable = push_bit 4 1"
definition kRTC_TestModeInterruptEnable :: u32 where "kRTC_TestModeInterruptEnable = push_bit 5 1"
definition kRTC_FlashSecurityInterruptEnable :: u32 where
  "kRTC_FlashSecurityInterruptEnable = push_bit 6 1"
definition kRTC_TamperPinInterruptEnable :: u32 where "kRTC_TamperPinInterruptEnable = push_bit 7 1"
definition kRTC_SecurityModuleInterruptEnable :: u32 where
  "kRTC_SecurityModuleInterruptEnable = push_bit 8 1"
definition kRTC_LossOfClockInterruptEnable :: u32 where "kRTC_LossOfClockInterruptEnable = push_bit 9 1"

definition kRTC_TimeInvalidFlag :: u32 where "kRTC_TimeInvalidFlag = push_bit 0 1"
definition kRTC_TimeOverflowFlag :: u32 where "kRTC_TimeOverflowFlag = push_bit 1 1"
definition kRTC_AlarmFlag :: u32 where "kRTC_AlarmFlag = push_bit 2 1"
definition kRTC_MonotonicOverflowFlag :: u32 where "kRTC_MonotonicOverflowFlag = push_bit 3 1"
definition kRTC_TamperInterruptDetectFlag :: u32 where "kRTC_TamperInterruptDetectFlag = push_bit 4 1"
definition kRTC_TestModeFlag :: u32 where "kRTC_TestModeFlag = push_bit 5 1"
definition kRTC_FlashSecurityFlag :: u32 where "kRTC_FlashSecurityFlag = push_bit 6 1"
definition kRTC_TamperPinFlag :: u32 where "kRTC_TamperPinFlag = push_bit 7 1"
definition kRTC_SecurityTamperFlag :: u32 where "kRTC_SecurityTamperFlag = push_bit 8 1"
definition kRTC_LossOfClockTamperFlag :: u32 where "kRTC_LossOfClockTamperFlag = push_bit 9 1"

lemmas rtc_enum_defs =
  kRTC_TimeInvalidInterruptEnable_def kRTC_TimeOverflowInterruptEnable_def
  kRTC_AlarmInterruptEnable_def kRTC_MonotonicOverflowInterruptEnable_def
  kRTC_SecondsInterruptEnable_def kRTC_TestModeInterruptEnable_def
  kRTC_FlashSecurityInterruptEnable_def kRTC_TamperPinInterruptEnable_def
  kRTC_SecurityModuleInterruptEnable_def kRTC_LossOfClockInterruptEnable_def
  kRTC_TimeInvalidFlag_def kRTC_TimeOverflowFlag_def kRTC_AlarmFlag_def
  kRTC_MonotonicOverflowFlag_def kRTC_TamperInterruptDetectFlag_def kRTC_TestModeFlag_def
  kRTC_FlashSecurityFlag_def kRTC_TamperPinFlag_def kRTC_SecurityTamperFlag_def
  kRTC_LossOfClockTamperFlag_def

subsection \<open>Timer, oscillator and reset\<close>

definition RTC_StartTimer :: "'d rtc_soc \<Rightarrow> 'd \<Rightarrow> 'd" where
  "RTC_StartTimer soc d = reg_set soc R_SR (rmask soc SR_TCE) d"

definition RTC_StopTimer :: "'d rtc_soc \<Rightarrow> 'd \<Rightarrow> 'd" where
  "RTC_StopTimer soc d = reg_clear soc R_SR (rmask soc SR_TCE) d"

definition RTC_Deinit :: "'d rtc_soc \<Rightarrow> 'd \<Rightarrow> 'd" where
  "RTC_Deinit soc d =
     (let d = reg_clear soc R_SR (rmask soc SR_TCE) d
      in if rfeature soc RTC_CLOCK_CONTROL then CLOCK_DisableClock soc d else d)"

definition RTC_EnableOscillatorClock :: "'d rtc_soc \<Rightarrow> bool \<Rightarrow> 'd \<Rightarrow> 'd" where
  "RTC_EnableOscillatorClock soc enable d =
     (if enable then reg_set soc R_CR (rmask soc CR_OSCE) d
      else reg_clear soc R_CR (rmask soc CR_OSCE) d)"

definition RTC_SetClockSource :: "'d rtc_soc \<Rightarrow> 'd \<Rightarrow> 'd" where
  "RTC_SetClockSource soc d = reg_set soc R_CR (rmask soc CR_OSCE) d"

definition RTC_EnableLPOClock :: "'d rtc_soc \<Rightarrow> bool \<Rightarrow> 'd \<Rightarrow> 'd" where
  "RTC_EnableLPOClock soc enable d =
     (if enable then reg_set soc R_CR (rmask soc CR_LPOS) d
      else reg_clear soc R_CR (rmask soc CR_LPOS) d)"

definition RTC_GetTamperTimeSeconds :: "'d rtc_soc \<Rightarrow> 'd \<Rightarrow> u32 \<times> 'd" where
  "RTC_GetTamperTimeSeconds soc d = reg_read soc R_TTSR d"

definition RTC_SetOscCapLoad :: "'d rtc_soc \<Rightarrow> u32 \<Rightarrow> 'd \<Rightarrow> 'd" where
  "RTC_SetOscCapLoad soc capLoad d =
     (let (reg, d) = reg_read soc R_CR d;
          reg = reg AND NOT (rmask soc CR_SC2P OR rmask soc CR_SC4P OR rmask soc CR_SC8P OR rmask soc CR_SC16P);
          reg = reg OR capLoad
      in reg_write soc R_CR reg d)"

definition RTC_Reset :: "'d rtc_soc \<Rightarrow> 'd \<Rightarrow> 'd" where
  "RTC_Reset soc d =
     (let d = reg_set soc R_CR (rmask soc CR_SWR) d;
          d = reg_clear soc R_CR (rmask soc CR_SWR) d
      in reg_write soc R_TSR 1 d)"

definition RTC_EnableWakeUpPin :: "'d rtc_soc \<Rightarrow> bool \<Rightarrow> 'd \<Rightarrow> 'd" where
  "RTC_EnableWakeUpPin soc enable d =
     (if enable then reg_set soc R_CR (rmask soc CR_WPE) d
      else reg_clear soc R_CR (rmask soc CR_WPE) d)"

definition RTC_EnableClockOutput :: "'d rtc_soc \<Rightarrow> bool \<Rightarrow> 'd \<Rightarrow> 'd" where
  "RTC_EnableClockOutput soc enable d =
     (if enable then reg_clear soc R_CR (rmask soc CR_CLKO) d
      else reg_set soc R_CR (rmask soc CR_CLKO) d)"

subsection \<open>Interrupts and status flags\<close>

text \<open>
  \<open>if (0U != (k & mask)) { tmp32 |= m; }\<close> and \<open>if (0U != (m & base->R)) { tmp32 |= k; }\<close>; the
  second reads the register.
\<close>

definition or_if :: "u32 \<Rightarrow> u32 \<Rightarrow> u32 \<Rightarrow> u32 \<Rightarrow> u32" where
  "or_if k msk m tmp = (if k AND msk \<noteq> 0 then tmp OR m else tmp)"

definition test_or :: "'d rtc_soc \<Rightarrow> rtc_reg \<Rightarrow> u32 \<Rightarrow> u32 \<Rightarrow> u32 \<times> 'd \<Rightarrow> u32 \<times> 'd" where
  "test_or soc r m k td =
     (let (tmp, d) = td; (v, d) = reg_read soc r d
      in (if m AND v \<noteq> 0 then tmp OR k else tmp, d))"

text \<open>The part of the mask computation that \<open>RTC_EnableInterrupts\<close> and \<open>RTC_DisableInterrupts\<close> share.\<close>

definition rtc_ier_bits :: "'d rtc_soc \<Rightarrow> u32 \<Rightarrow> u32" where
  "rtc_ier_bits soc msk =
     (let tmp32 = 0;
          tmp32 = or_if kRTC_TimeInvalidInterruptEnable msk (rmask soc IER_TIIE) tmp32;
          tmp32 = or_if kRTC_TimeOverflowInterruptEnable msk (rmask soc IER_TOIE) tmp32;
          tmp32 = or_if kRTC_AlarmInterruptEnable msk (rmask soc IER_TAIE) tmp32;
          tmp32 = or_if kRTC_SecondsInterruptEnable msk (rmask soc IER_TSIE) tmp32
      in if rfeature soc HAS_MONOTONIC
         then or_if kRTC_MonotonicOverflowInterruptEnable msk (rmask soc IER_MOIE) tmp32 else tmp32)"

definition rtc_tir_bits :: "'d rtc_soc \<Rightarrow> u32 \<Rightarrow> u32" where
  "rtc_tir_bits soc msk =
     (let tmp32 = 0;
          tmp32 = or_if kRTC_TestModeInterruptEnable msk (rmask soc TIR_TMIE) tmp32;
          tmp32 = or_if kRTC_FlashSecurityInterruptEnable msk (rmask soc TIR_FSIE) tmp32;
          tmp32 = (if rfeature soc HAS_TIR_TPIE
                   then or_if kRTC_TamperPinInterruptEnable msk (rmask soc TIR_TPIE) tmp32 else tmp32);
          tmp32 = (if rfeature soc HAS_TIR_SIE
                   then or_if kRTC_SecurityModuleInterruptEnable msk (rmask soc TIR_SIE) tmp32 else tmp32)
      in if rfeature soc HAS_TIR_LCIE
         then or_if kRTC_LossOfClockInterruptEnable msk (rmask soc TIR_LCIE) tmp32 else tmp32)"

definition RTC_EnableInterrupts :: "'d rtc_soc \<Rightarrow> u32 \<Rightarrow> 'd \<Rightarrow> 'd" where
  "RTC_EnableInterrupts soc msk d =
     (let d = reg_set soc R_IER (rtc_ier_bits soc msk) d
      in if rfeature soc HAS_TIR then reg_set soc R_TIR (rtc_tir_bits soc msk) d else d)"

definition RTC_DisableInterrupts :: "'d rtc_soc \<Rightarrow> u32 \<Rightarrow> 'd \<Rightarrow> 'd" where
  "RTC_DisableInterrupts soc msk d =
     (let d = reg_clear soc R_IER (rtc_ier_bits soc msk) d
      in if rfeature soc HAS_TIR then reg_clear soc R_TIR (rtc_tir_bits soc msk) d else d)"

definition RTC_GetEnabledInterrupts :: "'d rtc_soc \<Rightarrow> 'd \<Rightarrow> u32 \<times> 'd" where
  "RTC_GetEnabledInterrupts soc d =
     (let t = (0, d);
          t = test_or soc R_IER (rmask soc IER_TIIE) kRTC_TimeInvalidInterruptEnable t;
          t = test_or soc R_IER (rmask soc IER_TOIE) kRTC_TimeOverflowInterruptEnable t;
          t = test_or soc R_IER (rmask soc IER_TAIE) kRTC_AlarmInterruptEnable t;
          t = test_or soc R_IER (rmask soc IER_TSIE) kRTC_SecondsInterruptEnable t;
          t = (if rfeature soc HAS_MONOTONIC
               then test_or soc R_IER (rmask soc IER_MOIE) kRTC_MonotonicOverflowInterruptEnable t else t)
      in if rfeature soc HAS_TIR then
           let t = test_or soc R_TIR (rmask soc TIR_TMIE) kRTC_TestModeInterruptEnable t;
               t = test_or soc R_TIR (rmask soc TIR_FSIE) kRTC_FlashSecurityInterruptEnable t;
               t = (if rfeature soc HAS_TIR_TPIE
                    then test_or soc R_TIR (rmask soc TIR_TPIE) kRTC_TamperPinInterruptEnable t else t);
               t = (if rfeature soc HAS_TIR_SIE
                    then test_or soc R_TIR (rmask soc TIR_SIE) kRTC_SecurityModuleInterruptEnable t else t)
           in if rfeature soc HAS_TIR_LCIE
              then test_or soc R_TIR (rmask soc TIR_LCIE) kRTC_LossOfClockInterruptEnable t else t
         else t)"

definition RTC_GetStatusFlags :: "'d rtc_soc \<Rightarrow> 'd \<Rightarrow> u32 \<times> 'd" where
  "RTC_GetStatusFlags soc d =
     (let t = (0, d);
          t = test_or soc R_SR (rmask soc SR_TIF) kRTC_TimeInvalidFlag t;
          t = test_or soc R_SR (rmask soc SR_TOF) kRTC_TimeOverflowFlag t;
          t = test_or soc R_SR (rmask soc SR_TAF) kRTC_AlarmFlag t;
          t = (if rfeature soc HAS_MONOTONIC
               then test_or soc R_SR (rmask soc SR_MOF) kRTC_MonotonicOverflowFlag t else t);
          t = (if rfeature soc HAS_SR_TIDF
               then test_or soc R_SR (rmask soc SR_TIDF) kRTC_TamperInterruptDetectFlag t else t)
      in if rfeature soc HAS_TDR then
           let t = test_or soc R_TDR (rmask soc TDR_TMF) kRTC_TestModeFlag t;
               t = test_or soc R_TDR (rmask soc TDR_FSF) kRTC_FlashSecurityFlag t;
               t = (if rfeature soc HAS_TDR_TPF
                    then test_or soc R_TDR (rmask soc TDR_TPF) kRTC_TamperPinFlag t else t);
               t = (if rfeature soc HAS_TDR_STF
                    then test_or soc R_TDR (rmask soc TDR_STF) kRTC_SecurityTamperFlag t else t)
           in if rfeature soc HAS_TDR_LCTF
              then test_or soc R_TDR (rmask soc TDR_LCTF) kRTC_LossOfClockTamperFlag t else t
         else t)"

text \<open>\<open>if (0U != (mask & k)) { base->R = v; }\<close>\<close>

definition write_if :: "'d rtc_soc \<Rightarrow> u32 \<Rightarrow> u32 \<Rightarrow> rtc_reg \<Rightarrow> u32 \<Rightarrow> 'd \<Rightarrow> 'd" where
  "write_if soc msk k r v d = (if msk AND k \<noteq> 0 then reg_write soc r v d else d)"

definition RTC_ClearStatusFlags :: "'d rtc_soc \<Rightarrow> u32 \<Rightarrow> 'd \<Rightarrow> 'd" where
  "RTC_ClearStatusFlags soc msk d =
     (let d = write_if soc msk kRTC_AlarmFlag R_TAR 0 d;
          d = write_if soc msk kRTC_TimeOverflowFlag R_TSR 1 d;
          d = write_if soc msk kRTC_TimeInvalidFlag R_TSR 1 d
      in if rfeature soc HAS_TDR then
           let d = write_if soc msk kRTC_TestModeFlag R_TDR (rmask soc TDR_TMF) d;
               d = write_if soc msk kRTC_FlashSecurityFlag R_TDR (rmask soc TDR_FSF) d;
               d = (if rfeature soc HAS_TDR_TPF
                    then write_if soc msk kRTC_TamperPinFlag R_TDR (rmask soc TDR_TPF) d else d);
               d = (if rfeature soc HAS_TDR_STF
                    then write_if soc msk kRTC_SecurityTamperFlag R_TDR (rmask soc TDR_STF) d else d)
           in if rfeature soc HAS_TDR_LCTF
              then write_if soc msk kRTC_LossOfClockTamperFlag R_TDR (rmask soc TDR_LCTF) d else d
         else d)"

subsection \<open>Initialisation\<close>

definition RTC_Init :: "'d rtc_soc \<Rightarrow> rtc_config \<Rightarrow> 'd \<Rightarrow> 'd" where
  "RTC_Init soc config d =
     (let d = (if rfeature soc RTC_CLOCK_CONTROL then CLOCK_EnableClock soc d else d);
          (flags, d) = RTC_GetStatusFlags soc d;
          d = (if kRTC_TimeInvalidFlag = flags AND kRTC_TimeInvalidFlag then RTC_Reset soc d else d);
          (reg, d) = reg_read soc R_CR d;
          reg = (if \<not> rfeature soc HAS_NO_CR_OSCE then
                   reg AND NOT (rmask soc CR_UM OR rmask soc CR_SUP)
                     OR (rfield soc F_CR_UM (if updateMode config then 1 else 0) OR
                         rfield soc F_CR_SUP (if supervisorAccess config then 1 else 0))
                 else reg AND NOT (rmask soc CR_UM)
                     OR rfield soc F_CR_UM (if updateMode config then 1 else 0));
          reg = (if rfeature soc HAS_WAKEUP_PIN_SELECTION then
                   reg AND NOT (rmask soc CR_WPS) OR rfield soc F_CR_WPS (if wakeupSelect config then 1 else 0)
                 else reg);
          reg = (if rfeature soc HAS_CLOCK_OUTPUT then
                   reg AND NOT (rmask soc CR_CLKO) OR rfield soc F_CR_CLKO (if clockOutput config then 0 else 1)
                 else reg);
          d = reg_write soc R_CR reg d;
          d = reg_write soc R_TCR (rfield soc F_TCR_CIR (compensationInterval config) OR
                                   rfield soc F_TCR_TCR (compensationTime config)) d
      in if rfeature soc HAS_TSIC then reg_clear soc R_IER (rmask soc IER_TSIC OR rmask soc IER_TSIE) d
         else d)"

definition RTC_GetDefaultConfig :: rtc_config where
  "RTC_GetDefaultConfig =
     \<lparr>clockOutput = False, wakeupSelect = False, updateMode = False, supervisorAccess = False,
      compensationInterval = 0, compensationTime = 0\<rparr>"

subsection \<open>Time and alarm\<close>

text \<open>
  The conversions are called on checked dates only, except in \<open>RTC_GetAlarm\<close>; \<open>None\<close> is a failed
  assertion.
\<close>

definition RTC_SetDatetime :: "'d rtc_soc \<Rightarrow> rtc_datetime \<Rightarrow> 'd \<Rightarrow> (status \<times> 'd) option" where
  "RTC_SetDatetime soc datetime d =
     (if \<not> RTC_CheckDatetimeFormat datetime then Some (kStatus_InvalidArgument, d)
      else do {
        s \<leftarrow> RTC_ConvertDatetimeToSeconds datetime;
        Some (kStatus_Success, reg_write soc R_TSR s d)
      })"

definition RTC_GetDatetime :: "'d rtc_soc \<Rightarrow> 'd \<Rightarrow> rtc_datetime \<times> 'd" where
  "RTC_GetDatetime soc d =
     (let datetime = rtc_datetime_zero;
          (seconds, d) = reg_read soc R_TSR d
      in (RTC_ConvertSecondsToDatetime seconds datetime, d))"

definition RTC_SetAlarm :: "'d rtc_soc \<Rightarrow> rtc_datetime \<Rightarrow> 'd \<Rightarrow> (status \<times> 'd) option" where
  "RTC_SetAlarm soc alarmTime d =
     (if \<not> RTC_CheckDatetimeFormat alarmTime then Some (kStatus_InvalidArgument, d)
      else do {
        alarmSeconds \<leftarrow> RTC_ConvertDatetimeToSeconds alarmTime;
        let (currSeconds, d) = reg_read soc R_TSR d;
        if alarmSeconds < currSeconds then Some (kStatus_Fail, d)
        else if rfeature soc HAS_ERRATA_010716 then
          let (sr, d) = reg_read soc R_SR d;
              restartCounter = (sr AND rmask soc SR_TCE \<noteq> 0);
              d = reg_clear soc R_SR (rmask soc SR_TCE) d;
              d = reg_write soc R_TAR alarmSeconds d;
              d = (if restartCounter then reg_set soc R_SR (rmask soc SR_TCE) d else d)
          in Some (kStatus_Success, d)
        else Some (kStatus_Success, reg_write soc R_TAR alarmSeconds d)
      })"

definition RTC_GetAlarm :: "'d rtc_soc \<Rightarrow> rtc_datetime \<Rightarrow> 'd \<Rightarrow> (rtc_datetime \<times> 'd) option" where
  "RTC_GetAlarm soc datetime d = do {
     c_assert (RTC_CheckDatetimeFormat datetime);
     let (alarmSeconds, d) = reg_read soc R_TAR d;
     Some (RTC_ConvertSecondsToDatetime alarmSeconds datetime, d)
   }"

subsection \<open>Monotonic counter and seconds interrupt frequency\<close>

definition RTC_GetMonotonicCounter :: "'d rtc_soc \<Rightarrow> 'd \<Rightarrow> u64 \<times> 'd" where
  "RTC_GetMonotonicCounter soc d =
     (let (lo, d) = reg_read soc R_MCLR d;
          u64temp = ucast lo :: u64;
          (hi, d) = reg_read soc R_MCHR d
      in (push_bit 32 (ucast hi) OR u64temp, d))"

definition RTC_SetMonotonicCounter :: "'d rtc_soc \<Rightarrow> u64 \<Rightarrow> 'd \<Rightarrow> 'd" where
  "RTC_SetMonotonicCounter soc counter d =
     (let d = reg_clear soc R_MER (rmask soc MER_MCE) d;
          d = reg_write soc R_MCHR (ucast (drop_bit 32 counter)) d
      in reg_write soc R_MCLR (ucast (counter AND 0xFFFFFFFF)) d)"

definition RTC_IncrementMonotonicCounter :: "'d rtc_soc \<Rightarrow> 'd \<Rightarrow> status \<times> 'd" where
  "RTC_IncrementMonotonicCounter soc d =
     (let (sr, d) = reg_read soc R_SR d
      in if sr AND (rmask soc SR_MOF OR rmask soc SR_TIF) \<noteq> 0 then (kStatus_Fail, d)
         else let d = reg_set soc R_MER (rmask soc MER_MCE) d
              in (kStatus_Success, reg_write soc R_MCLR 1 d))"

definition kRTC_TimerSecondsFrequency128Hz :: u32 where "kRTC_TimerSecondsFrequency128Hz = 7"

definition RTC_SetTimerSecondsInterruptFrequency :: "'d rtc_soc \<Rightarrow> u32 \<Rightarrow> 'd \<Rightarrow> 'd option" where
  "RTC_SetTimerSecondsInterruptFrequency soc freq d = do {
     c_assert (freq < kRTC_TimerSecondsFrequency128Hz);
     let (reg, d) = reg_read soc R_IER d;
     let reg = reg AND NOT (rmask soc IER_TSIC);
     let reg = reg OR rfield soc F_IER_TSIC freq;
     let reg = (if reg AND rmask soc IER_TSIE \<noteq> 0 then reg OR rmask soc IER_TSIE else reg);
     Some (reg_write soc R_IER reg d)
   }"

subsection \<open>Interrupt enables as a table\<close>

text \<open>
  Both the enable functions and the query run through the same list of interrupt sources, one
  per enumerator bit and register mask. \<open>collect\<close> is what they compute from it.
\<close>

definition collect :: "(u32 \<times> u32) list \<Rightarrow> u32 \<Rightarrow> u32" where
  "collect tab v = fold (\<lambda>(m, k) acc. if m AND v \<noteq> 0 then acc OR k else acc) tab 0"

lemma bit_fold_or:
  "bit (fold (\<lambda>(m, k) acc. if m AND v \<noteq> 0 then acc OR k else acc) tab (a::u32)) n \<longleftrightarrow>
   bit a n \<or> (\<exists>(m, k) \<in> set tab. m AND v \<noteq> 0 \<and> bit k n)"
  by (induction tab arbitrary: a) (auto simp: bit_or_iff split: if_splits)

lemma bit_collect: "bit (collect tab v) n \<longleftrightarrow> (\<exists>(m, k) \<in> set tab. m AND v \<noteq> 0 \<and> bit k n)"
  by (simp add: collect_def bit_fold_or)

definition rtc_ier_table :: "'d rtc_soc \<Rightarrow> (u32 \<times> u32) list" where
  "rtc_ier_table soc =
     [(rmask soc IER_TIIE, kRTC_TimeInvalidInterruptEnable),
      (rmask soc IER_TOIE, kRTC_TimeOverflowInterruptEnable),
      (rmask soc IER_TAIE, kRTC_AlarmInterruptEnable),
      (rmask soc IER_TSIE, kRTC_SecondsInterruptEnable)] @
     (if rfeature soc HAS_MONOTONIC
      then [(rmask soc IER_MOIE, kRTC_MonotonicOverflowInterruptEnable)] else [])"

definition rtc_tir_table :: "'d rtc_soc \<Rightarrow> (u32 \<times> u32) list" where
  "rtc_tir_table soc =
     [(rmask soc TIR_TMIE, kRTC_TestModeInterruptEnable),
      (rmask soc TIR_FSIE, kRTC_FlashSecurityInterruptEnable)] @
     (if rfeature soc HAS_TIR_TPIE then [(rmask soc TIR_TPIE, kRTC_TamperPinInterruptEnable)] else []) @
     (if rfeature soc HAS_TIR_SIE then [(rmask soc TIR_SIE, kRTC_SecurityModuleInterruptEnable)] else []) @
     (if rfeature soc HAS_TIR_LCIE then [(rmask soc TIR_LCIE, kRTC_LossOfClockInterruptEnable)] else [])"

lemma rtc_ier_bits_collect: "rtc_ier_bits soc msk = collect (map prod.swap (rtc_ier_table soc)) msk"
  by (simp add: rtc_ier_bits_def collect_def rtc_ier_table_def or_if_def Let_def)

lemma rtc_tir_bits_collect: "rtc_tir_bits soc msk = collect (map prod.swap (rtc_tir_table soc)) msk"
  by (simp add: rtc_tir_bits_def collect_def rtc_tir_table_def or_if_def Let_def)

lemma test_or_ram:
  "ram_like soc M view \<Longrightarrow> M r = - 1 \<Longrightarrow> test_or soc r m k (a, d) = (if m AND view d r \<noteq> 0 then a OR k else a, d)"
  by (simp add: test_or_def io_ram)

lemma fold_or_acc:
  "fold (\<lambda>(m, k) acc. if m AND v \<noteq> 0 then acc OR k else acc) tab (a::u32) = a OR collect tab v"
  by (rule bit_eqI) (simp add: bit_fold_or bit_collect bit_or_iff)

lemma enabled_collect:
  assumes "ram_like soc M view" "M R_IER = - 1" "M R_TIR = - 1"
  shows "RTC_GetEnabledInterrupts soc d =
         (collect (rtc_ier_table soc) (view d R_IER) OR
          (if rfeature soc HAS_TIR then collect (rtc_tir_table soc) (view d R_TIR) else 0), d)"
  using fold_or_acc [of "view d R_TIR" "rtc_tir_table soc" "collect (rtc_ier_table soc) (view d R_IER)", symmetric]
  by (simp add: RTC_GetEnabledInterrupts_def test_or_ram [OF assms(1)] assms(2,3) Let_def
      rtc_ier_table_def rtc_tir_table_def collect_def)

text \<open>
  The masks of the sources of one register do not overlap, and every source is one bit of the
  enumeration.
\<close>

definition exclusive :: "(u32 \<times> u32) list \<Rightarrow> bool" where
  "exclusive tab \<longleftrightarrow> (\<forall>(m, k) \<in> set tab. m \<noteq> 0) \<and>
     (\<forall>(m, k) \<in> set tab. \<forall>(m', k') \<in> set tab. k = k' \<or> m AND m' = 0)"

lemma exclusiveD: "exclusive tab \<Longrightarrow> (m, k) \<in> set tab \<Longrightarrow> (m', k') \<in> set tab \<Longrightarrow> k = k' \<or> m AND m' = 0"
  unfolding exclusive_def by fastforce

lemma exclusive_nonzero: "exclusive tab \<Longrightarrow> (m, k) \<in> set tab \<Longrightarrow> m \<noteq> 0"
  unfolding exclusive_def by fastforce

definition supported :: "(u32 \<times> u32) list \<Rightarrow> u32" where
  "supported tab = fold (\<lambda>(m, k) acc. acc OR k) tab 0"

lemma bit_supported: "bit (supported tab) n \<longleftrightarrow> (\<exists>(m, k) \<in> set tab. bit k n)"
proof -
  have "bit (fold (\<lambda>(m, k) acc. acc OR k) tab (a::u32)) n \<longleftrightarrow> bit a n \<or> (\<exists>(m, k) \<in> set tab. bit k n)" for a
    by (induction tab arbitrary: a) (auto simp: bit_or_iff)
  then show ?thesis by (simp add: supported_def)
qed

lemma nonzero_bit: "(w::u32) \<noteq> 0 \<longleftrightarrow> (\<exists>j. bit w j)"
  by (metis bit_0_eq bit_eq_iff bot_apply bot_bool_def)

definition one_bit :: "u32 \<Rightarrow> bool" where
  "one_bit k \<longleftrightarrow> (\<exists>i < 32. k = push_bit i 1)"

lemma one_bit_push: "i < 32 \<Longrightarrow> one_bit (push_bit i 1)"
  by (auto simp: one_bit_def)

lemma one_bit_enums:
  "one_bit kRTC_TimeInvalidInterruptEnable" "one_bit kRTC_TimeOverflowInterruptEnable"
  "one_bit kRTC_AlarmInterruptEnable" "one_bit kRTC_SecondsInterruptEnable"
  "one_bit kRTC_MonotonicOverflowInterruptEnable" "one_bit kRTC_TestModeInterruptEnable"
  "one_bit kRTC_FlashSecurityInterruptEnable" "one_bit kRTC_TamperPinInterruptEnable"
  "one_bit kRTC_SecurityModuleInterruptEnable" "one_bit kRTC_LossOfClockInterruptEnable"
  unfolding rtc_enum_defs by (rule one_bit_push; simp)+

lemma one_bit_test: "one_bit k \<Longrightarrow> (k AND msk \<noteq> 0 \<and> bit k n) \<longleftrightarrow> (bit msk n \<and> bit k n)"
  by (auto simp: one_bit_def nonzero_bit bit_simps)

lemma and_collect_swap:
  assumes "exclusive tab" "(m, k) \<in> set tab"
  shows "m AND collect (map prod.swap tab) msk \<noteq> 0 \<longleftrightarrow> k AND msk \<noteq> 0"
proof
  assume "m AND collect (map prod.swap tab) msk \<noteq> 0"
  then obtain j where jm: "bit m j" and js: "bit (collect (map prod.swap tab) msk) j"
    unfolding nonzero_bit bit_and_iff by blast
  from js obtain m' k' where j: "(m', k') \<in> set tab" "k' AND msk \<noteq> 0" "bit m' j"
    unfolding bit_collect by auto
  from jm j(3) have "bit (m AND m') j" by (simp add: bit_and_iff)
  then have "m AND m' \<noteq> 0" by auto
  with exclusiveD [OF assms(1) assms(2) j(1)] have "k = k'" by blast
  with j show "k AND msk \<noteq> 0" by simp
next
  assume k: "k AND msk \<noteq> 0"
  from exclusive_nonzero [OF assms] obtain j where "bit m j" unfolding nonzero_bit ..
  moreover have "bit (collect (map prod.swap tab) msk) j"
    using assms(2) k \<open>bit m j\<close> unfolding bit_collect by (intro bexI [of _ "(k, m)"]) auto
  ultimately have "bit (m AND collect (map prod.swap tab) msk) j" by (simp add: bit_and_iff)
  then show "m AND collect (map prod.swap tab) msk \<noteq> 0" by auto
qed

lemma collect_enable:
  assumes "exclusive tab" "\<forall>(m, k) \<in> set tab. one_bit k"
  shows "collect tab (v OR collect (map prod.swap tab) msk) = collect tab v OR (msk AND supported tab)"
proof (rule bit_eqI)
  fix n
  have "(m AND (v OR collect (map prod.swap tab) msk) \<noteq> 0 \<and> bit k n) \<longleftrightarrow>
        (m AND v \<noteq> 0 \<and> bit k n \<or> bit msk n \<and> bit k n)" if "(m, k) \<in> set tab" for m k
    using and_collect_swap [OF assms(1) that, of msk] one_bit_test [of k msk n] assms(2) that
    by (auto simp: bit.conj_disj_distrib or_eq_0_iff)
  then show "bit (collect tab (v OR collect (map prod.swap tab) msk)) n =
             bit (collect tab v OR (msk AND supported tab)) n"
    by (auto simp: bit_collect bit_or_iff bit_and_iff bit_supported)
qed

lemma collect_disable:
  assumes "exclusive tab" "\<forall>(m, k) \<in> set tab. one_bit k"
  shows "collect tab (v AND NOT (collect (map prod.swap tab) msk)) = collect tab v AND NOT msk"
proof (rule bit_eqI)
  fix n assume n: "possible_bit TYPE(32 word) n"
  let ?S = "collect (map prod.swap tab) msk"
  have "(m AND (v AND NOT ?S) \<noteq> 0 \<and> bit k n) \<longleftrightarrow> (m AND v \<noteq> 0 \<and> bit k n \<and> \<not> bit msk n)"
    if mk: "(m, k) \<in> set tab" for m k
  proof (cases "k AND msk \<noteq> 0")
    case True
    have "bit ?S j" if "bit m j" for j
      using mk True that unfolding bit_collect by (intro bexI [of _ "(k, m)"]) auto
    then have "m AND (v AND NOT ?S) = 0"
      by (intro bit_eqI) (auto simp: bit_and_iff bit_not_iff)
    with True mk assms(2) one_bit_test [of k msk n] show ?thesis by auto
  next
    case False
    then have "m AND ?S = 0" using and_collect_swap [OF assms(1) mk] by blast
    then have "m AND (v AND NOT ?S) = m AND v"
      by (intro bit_eqI) (auto simp: bit_eq_iff bit_and_iff bit_not_iff)
    with False mk assms(2) one_bit_test [of k msk n] show ?thesis by auto
  qed
  with n show "bit (collect tab (v AND NOT ?S)) n = bit (collect tab v AND NOT msk) n"
    by (auto simp: bit_collect bit_and_iff bit_not_iff)
qed

lemma one_bit_tables:
  "\<forall>(m, k) \<in> set (rtc_ier_table soc). one_bit k" "\<forall>(m, k) \<in> set (rtc_tir_table soc). one_bit k"
  by (auto simp: rtc_ier_table_def rtc_tir_table_def one_bit_enums split: if_splits)

subsection \<open>Properties\<close>

text \<open>
  The seconds counter. \<open>running\<close> tells whether it is counting; a write of SR with TCE clear stops it,
  and while it is stopped TSR reads back what is written to it. Nothing is known of a write to TSR
  while the counter is running: the description of \<open>RTC_SetDatetime\<close> says that it fails.
\<close>

definition seconds_counter :: "'d rtc_soc \<Rightarrow> ('d \<Rightarrow> bool) \<Rightarrow> bool" where
  "seconds_counter soc running \<longleftrightarrow>
     (\<forall>v d. v AND rmask soc SR_TCE = 0 \<longrightarrow> \<not> running (reg_write soc R_SR v d)) \<and>
     (\<forall>v d. \<not> running d \<longrightarrow> fst (reg_read soc R_TSR (reg_write soc R_TSR v d)) = v)"

text \<open>
  The register writes of a device in order, as a record kept beside it: a write appends to it, a
  read does not, and a read changes no status bit.
\<close>

definition bus_log :: "'d rtc_soc \<Rightarrow> ('d \<Rightarrow> (rtc_reg \<times> u32) list) \<Rightarrow> bool" where
  "bus_log soc log \<longleftrightarrow>
     (\<forall>r v d. log (reg_write soc r v d) = log d @ [(r, v)]) \<and>
     (\<forall>r d. log (snd (reg_read soc r d)) = log d) \<and>
     (\<forall>r d. fst (reg_read soc R_SR (snd (reg_read soc r d))) = fst (reg_read soc R_SR d))"

lemma bus_log_io:
  assumes "bus_log soc log"
  shows "log (reg_write soc r v d) = log d @ [(r, v)]" "log (snd (reg_read soc r d)) = log d"
    "fst (reg_read soc R_SR (snd (reg_read soc r d))) = fst (reg_read soc R_SR d)"
    "log (reg_set soc r m d) = log d @ [(r, fst (reg_read soc r d) OR m)]"
    "log (reg_clear soc r m d) = log d @ [(r, fst (reg_read soc r d) AND NOT m)]"
  using assms by (simp_all add: bus_log_def reg_set_def reg_clear_def case_prod_beta)

text \<open>A plain register file with all features on and one mask bit per source, for the witnesses.\<close>

definition rtc_example :: "(rtc_reg \<Rightarrow> u32) rtc_soc" where
  "rtc_example =
     \<lparr>reg_read = \<lambda>r d. (d r, d), reg_write = \<lambda>r v d. d(r := v),
      rmask = \<lambda>m. case m of IER_TIIE \<Rightarrow> 1 | IER_TOIE \<Rightarrow> 2 | IER_TAIE \<Rightarrow> 4 | IER_MOIE \<Rightarrow> 8 | IER_TSIE \<Rightarrow> 16
        | TIR_TMIE \<Rightarrow> 1 | TIR_FSIE \<Rightarrow> 2 | TIR_TPIE \<Rightarrow> 4 | TIR_SIE \<Rightarrow> 8 | TIR_LCIE \<Rightarrow> 16
        | SR_TCE \<Rightarrow> 16 | MER_MCE \<Rightarrow> 16 | SR_TIF \<Rightarrow> 1 | SR_MOF \<Rightarrow> 8 | _ \<Rightarrow> 0,
      rfield = \<lambda>f v. v, rfeature = \<lambda>f. True, CLOCK_EnableClock = \<lambda>d. d, CLOCK_DisableClock = \<lambda>d. d\<rparr>"

lemma rtc_example_ram: "ram_like rtc_example (\<lambda>_. - 1) (\<lambda>d. d)"
  by (simp add: ram_like_def rtc_example_def fun_eq_iff)

text \<open>
  The same registers with the log of their writes, except that a write to TSR is lost while TCE is
  set; the errata workaround is compiled in.
\<close>

definition rtc_logged :: "((rtc_reg \<Rightarrow> u32) \<times> (rtc_reg \<times> u32) list) rtc_soc" where
  "rtc_logged =
     \<lparr>reg_read = \<lambda>r (d, l). (d r, d, l),
      reg_write = \<lambda>r v (d, l). (if r = R_TSR \<and> d R_SR AND 16 \<noteq> 0 then d else d(r := v), l @ [(r, v)]),
      rmask = rmask rtc_example, rfield = \<lambda>f v. v, rfeature = \<lambda>f. True,
      CLOCK_EnableClock = \<lambda>d. d, CLOCK_DisableClock = \<lambda>d. d\<rparr>"

lemma rtc_logged_ok:
  "seconds_counter rtc_logged (\<lambda>(d, l). d R_SR AND 16 \<noteq> 0)" "bus_log rtc_logged snd"
  by (auto simp: seconds_counter_def bus_log_def rtc_logged_def rtc_example_def)

lemma rtc_example_exclusive:
  "exclusive (rtc_ier_table rtc_example)" "exclusive (rtc_tir_table rtc_example)"
  by (simp_all add: exclusive_def rtc_ier_table_def rtc_tir_table_def rtc_example_def)

text \<open>C21: setting the time. The counter has to be stopped first: after \<open>RTC_StopTimer\<close>, or on a counter
  that is not running, a valid date that \<open>RTC_SetDatetime\<close> accepts is the date \<open>RTC_GetDatetime\<close>
  returns. An invalid date is refused with \<open>kStatus_InvalidArgument\<close> and the device is not touched.
  No input trips an assertion.\<close>

theorem set_get_datetime:
  assumes "seconds_counter soc running"
  shows "if RTC_CheckDatetimeFormat dt
         then (\<exists>d'. RTC_SetDatetime soc dt (RTC_StopTimer soc d) = Some (kStatus_Success, d') \<and>
                 fst (RTC_GetDatetime soc d') = dt) \<and>
              (\<not> running d \<longrightarrow> (\<exists>d'. RTC_SetDatetime soc dt d = Some (kStatus_Success, d') \<and>
                 fst (RTC_GetDatetime soc d') = dt))
         else RTC_SetDatetime soc dt d = Some (kStatus_InvalidArgument, d)"
proof (cases "RTC_CheckDatetimeFormat dt")
  case True
  then obtain s where s: "RTC_ConvertDatetimeToSeconds dt = Some s" using rtc.to_total by blast
  with True have "RTC_ConvertSecondsToDatetime s rtc_datetime_zero = dt" by (rule rtc.of_to)
  with s True assms have "\<exists>d'. RTC_SetDatetime soc dt e = Some (kStatus_Success, d') \<and> fst (RTC_GetDatetime soc d') = dt"
    if "\<not> running e" for e
    using that by (simp add: RTC_SetDatetime_def RTC_GetDatetime_def seconds_counter_def case_prod_beta)
  moreover have "\<not> running (RTC_StopTimer soc d)"
    using assms by (simp add: seconds_counter_def RTC_StopTimer_def reg_clear_def case_prod_beta and.assoc)
  ultimately show ?thesis using True by simp
qed (simp add: RTC_SetDatetime_def)

text \<open>The witness starts with the counter running; without the stop the date would not be stored.\<close>

definition rtc_leap_day :: rtc_datetime where
  "rtc_leap_day = \<lparr>year = 2024, month = 2, day = 29, hour = 0, minute = 0, second = 0\<rparr>"

lemma rtc_leap_day_ok: "RTC_CheckDatetimeFormat rtc_leap_day" "civil_seconds rtc_leap_day = 1709164800"
proof -
  show ok: "RTC_CheckDatetimeFormat rtc_leap_day" by code_simp
  have "RTC_ConvertDatetimeToSeconds rtc_leap_day = Some 1709164800" by code_simp
  with to_seconds_civil [OF ok] show "civil_seconds rtc_leap_day = 1709164800" by auto
qed

theorem set_get_datetime_witness:
  "\<exists>d'. RTC_SetDatetime rtc_logged rtc_leap_day (RTC_StopTimer rtc_logged (\<lambda>_. 16, [])) = Some (kStatus_Success, d') \<and>
        fst (RTC_GetDatetime rtc_logged d') = rtc_leap_day"
  using set_get_datetime [OF rtc_logged_ok(1), of rtc_leap_day "(\<lambda>_. 16, [])"]
  unfolding if_P [OF rtc_leap_day_ok(1)] by blast

text \<open>C27: every branch of \<open>RTC_SetAlarm\<close>, by the register writes it makes. An invalid time gives
  \<open>kStatus_InvalidArgument\<close>, a time before the present second \<open>kStatus_Fail\<close>, both without a register
  write. Any other time, the present second included although the description of the function asks
  for a later one, is programmed: without the errata workaround TAR is written and nothing else.
  With it the counter is stopped first by clearing TCE, TAR is written only then, and TCE is set
  again if and only if it was set before.\<close>

theorem set_alarm_branches:
  fixes d :: 'd
  assumes "bus_log soc log"
  defines "now \<equiv> fst (reg_read soc R_TSR d)" and "sr \<equiv> fst (reg_read soc R_SR d)" and "tce \<equiv> rmask soc SR_TCE"
  shows "if \<not> RTC_CheckDatetimeFormat dt then RTC_SetAlarm soc dt d = Some (kStatus_InvalidArgument, d)
         else \<exists>s d'. unat s = civil_seconds dt \<and>
           (if s < now then RTC_SetAlarm soc dt d = Some (kStatus_Fail, d') \<and> log d' = log d
            else RTC_SetAlarm soc dt d = Some (kStatus_Success, d') \<and>
              (if \<not> rfeature soc HAS_ERRATA_010716 then log d' = log d @ [(R_TAR, s)]
               else if sr AND tce = 0 then log d' = log d @ [(R_SR, sr AND NOT tce), (R_TAR, s)]
               else \<exists>sr'. log d' = log d @ [(R_SR, sr AND NOT tce), (R_TAR, s), (R_SR, sr' OR tce)]))"
proof (cases "RTC_CheckDatetimeFormat dt")
  case True
  then obtain s where s: "RTC_ConvertDatetimeToSeconds dt = Some s" "unat s = civil_seconds dt"
    using to_seconds_civil by blast
  have "\<exists>d'. (if s < now then RTC_SetAlarm soc dt d = Some (kStatus_Fail, d') \<and> log d' = log d
            else RTC_SetAlarm soc dt d = Some (kStatus_Success, d') \<and>
              (if \<not> rfeature soc HAS_ERRATA_010716 then log d' = log d @ [(R_TAR, s)]
               else if sr AND tce = 0 then log d' = log d @ [(R_SR, sr AND NOT tce), (R_TAR, s)]
               else \<exists>sr'. log d' = log d @ [(R_SR, sr AND NOT tce), (R_TAR, s), (R_SR, sr' OR tce)]))"
    unfolding now_def sr_def tce_def using True
    by (cases "s < fst (reg_read soc R_TSR d)")
       (auto simp: RTC_SetAlarm_def s(1) case_prod_beta Let_def bus_log_io [OF assms(1)])
  then show ?thesis using True s(2) by (simp only: not_True_eq_False if_False) blast
qed (simp add: RTC_SetAlarm_def)

text \<open>The counter is running, and the alarm is set for the present second.\<close>

theorem set_alarm_branches_witness:
  "\<exists>d'. RTC_SetAlarm rtc_logged rtc_leap_day ((\<lambda>_. 0)(R_TSR := 1709164800, R_SR := 16), []) = Some (kStatus_Success, d') \<and>
     (\<exists>sr'. snd d' = [(R_SR, 0), (R_TAR, 1709164800), (R_SR, sr' OR 16)])"
proof -
  let ?d = "((\<lambda>_. 0)(R_TSR := 1709164800, R_SR := 16), []) :: (rtc_reg \<Rightarrow> u32) \<times> (rtc_reg \<times> u32) list"
  have v: "fst (reg_read rtc_logged R_TSR ?d) = 1709164800" "fst (reg_read rtc_logged R_SR ?d) = 16"
    "rmask rtc_logged SR_TCE = 16" "rfeature rtc_logged HAS_ERRATA_010716" by (simp_all add: rtc_logged_def rtc_example_def)
  obtain s d' where s: "unat s = 1709164800" and d': "if s < 1709164800
      then RTC_SetAlarm rtc_logged rtc_leap_day ?d = Some (kStatus_Fail, d') \<and> snd d' = snd ?d
      else RTC_SetAlarm rtc_logged rtc_leap_day ?d = Some (kStatus_Success, d') \<and>
        (if \<not> rfeature rtc_logged HAS_ERRATA_010716 then snd d' = snd ?d @ [(R_TAR, s)]
         else if (16 :: u32) AND 16 = 0 then snd d' = snd ?d @ [(R_SR, 16 AND NOT 16), (R_TAR, s)]
         else \<exists>sr'. snd d' = snd ?d @ [(R_SR, 16 AND NOT 16), (R_TAR, s), (R_SR, sr' OR 16)])"
    using set_alarm_branches [OF rtc_logged_ok(2), of rtc_leap_day ?d] rtc_leap_day_ok unfolding v(1-3) by auto
  have "s = 1709164800" using s by (simp add: word_unat_eq_iff)
  then show ?thesis using d' v(4) by auto
qed

text \<open>after \<open>RTC_EnableInterrupts mask\<close> the enabled interrupts are those enabled before and
  the sources of the mask that the device has; after \<open>RTC_DisableInterrupts mask\<close> they are those
  enabled before without the mask. The enable bits of one register must not overlap.\<close>

theorem interrupt_enables:
  assumes "ram_like soc M view" "M R_IER = - 1" "M R_TIR = - 1"
    "exclusive (rtc_ier_table soc)" "exclusive (rtc_tir_table soc)"
  shows "fst (RTC_GetEnabledInterrupts soc (RTC_EnableInterrupts soc msk d)) =
           fst (RTC_GetEnabledInterrupts soc d) OR
           (msk AND (supported (rtc_ier_table soc) OR
                     (if rfeature soc HAS_TIR then supported (rtc_tir_table soc) else 0))) \<and>
         fst (RTC_GetEnabledInterrupts soc (RTC_DisableInterrupts soc msk d)) =
           fst (RTC_GetEnabledInterrupts soc d) AND NOT msk"
  (is "?enable \<and> ?disable")
proof
  note tables = rtc_ier_bits_collect rtc_tir_bits_collect
  show ?enable
    using collect_enable [OF assms(4) one_bit_tables(1)] collect_enable [OF assms(5) one_bit_tables(2)]
    by (simp add: enabled_collect [OF assms(1-3)] RTC_EnableInterrupts_def ram_like_set [OF assms(1)] assms(2,3) tables Let_def
        bit.conj_disj_distrib or.assoc or.left_commute or.commute)
  show ?disable
    using collect_disable [OF assms(4) one_bit_tables(1)] collect_disable [OF assms(5) one_bit_tables(2)]
    by (simp add: enabled_collect [OF assms(1-3)] RTC_DisableInterrupts_def ram_like_clear [OF assms(1)] assms(2,3) tables Let_def
        bit.conj_disj_distrib2)
qed

lemma rtc_example_interrupts:
  "supported (rtc_ier_table rtc_example) OR supported (rtc_tir_table rtc_example) = 0x3FF"
  "fst (RTC_GetEnabledInterrupts rtc_example (\<lambda>_. 0)) = 0"
  by (simp_all add: RTC_GetEnabledInterrupts_def test_or_def supported_def rtc_ier_table_def rtc_tir_table_def
      rtc_enum_defs rtc_example_def)

lemma interrupt_enables_example:
  "fst (RTC_GetEnabledInterrupts rtc_example (RTC_EnableInterrupts rtc_example 0x204 (\<lambda>_. 0))) = 0x204"
proof -
  have "rfeature rtc_example HAS_TIR" by (simp add: rtc_example_def)
  then show ?thesis
    using interrupt_enables [OF rtc_example_ram _ _ rtc_example_exclusive, of "0x204" "\<lambda>_. 0"]
    by (simp add: rtc_example_interrupts)
qed

text \<open>The 64-bit value given to \<open>RTC_SetMonotonicCounter\<close> is the value
  \<open>RTC_GetMonotonicCounter\<close> returns, where the two counter registers and MER hold what is written to
  them (as the counter does with increment mode off); increment mode is off afterwards. \<open>RTC_IncrementMonotonicCounter\<close> refuses, without touching a register, exactly
  when the overflow or the time-invalid flag is up.\<close>

lemma monotonic_counter:
  assumes "ram_like soc M view" "M R_MER = - 1" "M R_MCLR = - 1" "M R_MCHR = - 1" "M R_SR = - 1"
  shows "fst (RTC_GetMonotonicCounter soc (RTC_SetMonotonicCounter soc c d)) = c \<and>
         view (RTC_SetMonotonicCounter soc c d) R_MER AND rmask soc MER_MCE = 0 \<and>
         (if view d R_SR AND (rmask soc SR_MOF OR rmask soc SR_TIF) \<noteq> 0
          then RTC_IncrementMonotonicCounter soc d = (kStatus_Fail, d)
          else \<exists>d'. RTC_IncrementMonotonicCounter soc d = (kStatus_Success, d') \<and>
                 view d' R_MER = view d R_MER OR rmask soc MER_MCE)"
proof -
  have m: "(0xFFFFFFFF :: u64) = mask 32" by (simp add: mask_eq_exp_minus_1)
  have "push_bit 32 (ucast (ucast (drop_bit 32 c) :: u32)) OR ucast (ucast (c AND 0xFFFFFFFF) :: u32) = c"
    unfolding m by (rule bit_eqI) (auto simp: bit_simps)
  then show ?thesis using assms
    by (simp add: RTC_GetMonotonicCounter_def RTC_SetMonotonicCounter_def RTC_IncrementMonotonicCounter_def
        io_ram Let_def and.assoc fun_eq_iff)
qed

lemma monotonic_counter_example:
  "fst (RTC_GetMonotonicCounter rtc_example
     (RTC_SetMonotonicCounter rtc_example 0x123456789ABCDEF0 (\<lambda>_. 0))) = 0x123456789ABCDEF0"
  using monotonic_counter [OF rtc_example_ram] by simp

end
