(* ===== verification/Lin_Frame.thy ===== *)
theory Lin_Frame
  imports Prelude
begin

text \<open>
  \<open>drivers/lin/fsl_lin.c\<close>: the byte-level rules of the LIN bus, i.e. the parity bits of a
  protected identifier, the checksum byte and the timeout counts. The interface \<open>frame_check\<close>
  is what the sending and the receiving side of the protocol rely on.
\<close>

subsection \<open>Parity\<close>

definition MAKE_PARITY :: u8 where "MAKE_PARITY = 0"
definition CHECK_PARITY :: u8 where "CHECK_PARITY = 1"

definition BIT :: "u8 \<Rightarrow> nat \<Rightarrow> u8" where
  "BIT A B = drop_bit B A AND 0x01"

definition lin_parity :: "u8 \<Rightarrow> u8" where
  "lin_parity PID =
     push_bit 6 (((BIT PID 0 XOR BIT PID 1) XOR BIT PID 2) XOR BIT PID 4) OR
     push_bit 7 (NOT (((BIT PID 1 XOR BIT PID 3) XOR BIT PID 4) XOR BIT PID 5))"

definition LIN_ProcessParity :: "u8 \<Rightarrow> u8 \<Rightarrow> u8" where
  "LIN_ProcessParity PID typeAction =
     (let parity = lin_parity PID
      in if CHECK_PARITY = typeAction then
           if PID AND 0xC0 \<noteq> parity then 0xFF else PID AND 0x3F
         else PID OR parity)"

subsection \<open>Checksum\<close>

text \<open>The loop of \<open>LIN_MakeChecksumByte\<close>: \<open>len\<close> bytes are left from address \<open>buffer\<close>.\<close>

fun lin_checksum_loop :: "mem \<Rightarrow> u32 \<Rightarrow> nat \<Rightarrow> u16 \<Rightarrow> u16" where
  "lin_checksum_loop ram buffer 0 checksum = checksum"
| "lin_checksum_loop ram buffer (Suc len) checksum =
     (let checksum = checksum + ucast (ram buffer);
          checksum = (if 0xFF < checksum then checksum - 0xFF else checksum)
      in lin_checksum_loop ram (buffer + 1) len checksum)"

definition LIN_MakeChecksumByte :: "mem \<Rightarrow> u32 \<Rightarrow> u8 \<Rightarrow> u8 \<Rightarrow> u8 option" where
  "LIN_MakeChecksumByte ram buffer sizeBuffer PID = do {
     c_assert (0 \<noteq> PID);
     let checksum = (if 0x3C \<noteq> PID \<and> 0x7D \<noteq> PID then ucast PID else 0);
     Some (NOT (ucast (lin_checksum_loop ram buffer (unat sizeBuffer) checksum)))
   }"

subsection \<open>Timeout counts\<close>

definition LIN_TIME_OUT_UNIT_US :: u32 where "LIN_TIME_OUT_UNIT_US = 500"

text \<open>A zero divisor traps, like a failed assertion.\<close>

definition LIN_CalcMaxHeaderTimeoutCnt :: "u32 \<Rightarrow> u32 option" where
  "LIN_CalcMaxHeaderTimeoutCnt baudRate = do {
     c_assert (baudRate \<le> 0xFFFFFFFF div LIN_TIME_OUT_UNIT_US);
     c_assert (LIN_TIME_OUT_UNIT_US * baudRate \<noteq> 0);
     Some (14 * 2 * 1000000 div (LIN_TIME_OUT_UNIT_US * baudRate) + 1)
   }"

definition LIN_CalcMaxResTimeoutCnt :: "u32 \<Rightarrow> u8 \<Rightarrow> u32 option" where
  "LIN_CalcMaxResTimeoutCnt baudRate sz = do {
     c_assert (baudRate \<le> 0xFFFFFFFF div LIN_TIME_OUT_UNIT_US);
     c_assert (LIN_TIME_OUT_UNIT_US * baudRate \<noteq> 0);
     Some (14 * (1 + ucast sz) * 1000000 div (LIN_TIME_OUT_UNIT_US * baudRate) + 1)
   }"

subsection \<open>Parity bit by bit\<close>

text \<open>The parity equations of the LIN specification: \<open>P0\<close> is bit 6, \<open>P1\<close> is bit 7.\<close>

definition lin_P0 :: "u8 \<Rightarrow> bool" where
  "lin_P0 w \<longleftrightarrow> (((bit w 0 \<noteq> bit w 1) \<noteq> bit w 2) \<noteq> bit w 4)"

definition lin_P1 :: "u8 \<Rightarrow> bool" where
  "lin_P1 w \<longleftrightarrow> \<not> (((bit w 1 \<noteq> bit w 3) \<noteq> bit w 4) \<noteq> bit w 5)"

lemma bit_BIT: "bit (BIT w b) n \<longleftrightarrow> n = 0 \<and> bit w b"
  by (auto simp: BIT_def bit_simps)

lemma bit_lin_parity: "bit (lin_parity w) n \<longleftrightarrow> n = 6 \<and> lin_P0 w \<or> n = 7 \<and> lin_P1 w"
proof -
  have "bit (lin_parity w) n \<Longrightarrow> n < 8" using bit_imp_le_length [of "lin_parity w" n] by simp
  moreover have "\<not> bit (lin_parity w) n" if "n < 6" using that by (simp add: lin_parity_def bit_simps)
  moreover have "bit (lin_parity w) 6 = lin_P0 w"
    by (simp add: lin_parity_def lin_P0_def bit_simps bit_BIT)
  moreover have "bit (lin_parity w) 7 = lin_P1 w"
    by (simp add: lin_parity_def lin_P1_def bit_simps bit_BIT)
  moreover have "n < 8 \<Longrightarrow> n < 6 \<or> n = 6 \<or> n = 7" by arith
  ultimately show ?thesis by (metis less_irrefl numeral_less_iff semiring_norm(76,78,81))
qed

lemma bit_3F: "bit (0x3F :: u8) n \<longleftrightarrow> n < 6"
proof -
  have m: "(0x3F :: u8) = mask 6" by (simp add: mask_eq_exp_minus_1)
  show ?thesis unfolding m bit_mask_iff by auto
qed

lemma bit_C0: "bit (0xC0 :: u8) n \<longleftrightarrow> n = 6 \<or> n = 7"
proof -
  have m: "(0xC0 :: u8) = push_bit 6 (mask 2)" by (simp add: mask_eq_exp_minus_1)
  show ?thesis unfolding m bit_push_bit_iff bit_mask_iff by auto
qed

lemma parity_ok_iff: "w AND 0xC0 = lin_parity w \<longleftrightarrow> (bit w 6 \<longleftrightarrow> lin_P0 w) \<and> (bit w 7 \<longleftrightarrow> lin_P1 w)"
proof -
  have "w AND 0xC0 = lin_parity w \<longleftrightarrow> (\<forall>n. bit (w AND 0xC0) n = bit (lin_parity w) n)"
    by (metis bit_eqI)
  also have "\<dots> \<longleftrightarrow> (\<forall>n. (bit w n \<and> (n = 6 \<or> n = 7)) = (n = 6 \<and> lin_P0 w \<or> n = 7 \<and> lin_P1 w))"
    unfolding bit_and_iff bit_C0 bit_lin_parity ..
  also have "\<dots> \<longleftrightarrow> (bit w 6 \<longleftrightarrow> lin_P0 w) \<and> (bit w 7 \<longleftrightarrow> lin_P1 w)"
  proof
    assume a: "\<forall>n. (bit w n \<and> (n = 6 \<or> n = 7)) = (n = 6 \<and> lin_P0 w \<or> n = 7 \<and> lin_P1 w)"
    from a [rule_format, of 6] a [rule_format, of 7]
    show "(bit w 6 \<longleftrightarrow> lin_P0 w) \<and> (bit w 7 \<longleftrightarrow> lin_P1 w)" by simp
  qed auto
  finally show ?thesis .
qed

lemma check_parity: "LIN_ProcessParity w CHECK_PARITY =
    (if (bit w 6 \<longleftrightarrow> lin_P0 w) \<and> (bit w 7 \<longleftrightarrow> lin_P1 w) then w AND 0x3F else 0xFF)"
  using parity_ok_iff [of w] by (simp add: LIN_ProcessParity_def)

lemma make_parity: "LIN_ProcessParity w MAKE_PARITY = w OR lin_parity w"
  by (simp add: LIN_ProcessParity_def MAKE_PARITY_def CHECK_PARITY_def)

lemma bit_make_parity:
  "bit (LIN_ProcessParity w MAKE_PARITY) n \<longleftrightarrow> bit w n \<or> n = 6 \<and> lin_P0 w \<or> n = 7 \<and> lin_P1 w"
  by (simp add: make_parity bit_or_iff bit_lin_parity)

lemma id_bits: "w \<le> 0x3F \<longleftrightarrow> \<not> bit w 6 \<and> \<not> bit (w::u8) 7"
proof -
  have "w \<le> 0x3F \<longleftrightarrow> take_bit 6 (unat w) = unat w"
    by (auto simp: word_le_nat_alt take_bit_nat_eq_self_iff)
  also have "\<dots> \<longleftrightarrow> take_bit 6 w = w" by (simp add: word_unat_eq_iff unsigned_take_bit_eq)
  also have "\<dots> \<longleftrightarrow> (\<forall>n. bit w n \<longrightarrow> n < 6)"
    by (metis bit_take_bit_iff bit_eqI)
  also have "\<dots> \<longleftrightarrow> \<not> bit w 6 \<and> \<not> bit w 7"
  proof
    assume a: "\<not> bit w 6 \<and> \<not> bit w 7"
    show "\<forall>n. bit w n \<longrightarrow> n < 6"
    proof (intro allI impI)
      fix n assume n: "bit w n"
      then have "n < 8" using bit_imp_le_length [of w n] by simp
      moreover have "n \<noteq> 6" "n \<noteq> 7" using a n by auto
      ultimately show "n < 6" by arith
    qed
  qed auto
  finally show ?thesis .
qed

subsection \<open>Checksum as a ones'-complement sum\<close>

text \<open>
  Adding with the carry fed back is addition modulo 255, with 255 in the place of 0 unless every
  summand is 0. \<open>ones_sum\<close> is that value of the plain sum \<open>t\<close>.
\<close>

definition ones_sum :: "nat \<Rightarrow> nat" where
  "ones_sum t = (if t = 0 then 0 else (t - 1) mod 255 + 1)"

definition checksum_seed :: "u8 \<Rightarrow> nat" where
  "checksum_seed PID = (if PID = 0x3C \<or> PID = 0x7D then 0 else unat PID)"

lemma ones_sum_le: "ones_sum t \<le> 255"
  using mod_less_divisor [of 255 "t - 1"] by (simp add: ones_sum_def del: mod_less_divisor)

lemma ones_sum_small: "t \<le> 255 \<Longrightarrow> ones_sum t = t"
  by (simp add: ones_sum_def)

lemma ones_sum_mod: "ones_sum t mod 255 = t mod 255"
  by (cases t) (simp_all add: ones_sum_def mod_Suc)

lemma ones_sum_eq_0 [simp]: "ones_sum t = 0 \<longleftrightarrow> t = 0"
  by (simp add: ones_sum_def)

lemma ones_sum_eqI: "t mod 255 = u mod 255 \<Longrightarrow> (t = 0 \<longleftrightarrow> u = 0) \<Longrightarrow> ones_sum t = ones_sum u"
  by (cases t; cases u) (auto simp: ones_sum_def mod_Suc split: if_splits)

lemma ones_sum_step:
  assumes "b \<le> 255"
  shows "(if 255 < ones_sum t + b then ones_sum t + b - 255 else ones_sum t + b) = ones_sum (t + b)"
proof -
  let ?r = "if 255 < ones_sum t + b then ones_sum t + b - 255 else ones_sum t + b"
  have "?r \<le> 255" using ones_sum_le [of t] assms by auto
  moreover have "?r mod 255 = (t + b) mod 255"
    using mod_add_cong [of "ones_sum t" 255 t b b, OF ones_sum_mod refl] le_mod_geq [of 255 "ones_sum t + b"] by auto
  moreover have "?r = 0 \<longleftrightarrow> t + b = 0" using ones_sum_le [of t] by auto
  ultimately show ?thesis using ones_sum_eqI [of ?r "t + b"] ones_sum_small [of ?r] by simp
qed

lemma checksum_loop_ones_sum:
  "unat cs = ones_sum t \<Longrightarrow>
   unat (lin_checksum_loop ram a n cs) = ones_sum (t + sum_list (map unat (mem_bytes ram a n)))"
proof (induction n arbitrary: a cs t)
  case (Suc n)
  define b where "b = unat (ram a)"
  have b: "b \<le> 255" by (simp add: b_def unat_u8_le)
  have u: "unat (cs + ucast (ram a)) = ones_sum t + b"
    using Suc.prems ones_sum_le [of t] b by (simp add: unat_plus_small b_def)
  have "unat (if 0xFF < cs + ucast (ram a) then cs + ucast (ram a) - 0xFF else cs + ucast (ram a)) =
        ones_sum (t + b)"
    unfolding ones_sum_step [OF b, symmetric] using u by (auto simp: word_less_nat_alt unat_minus_small)
  from Suc.IH [OF this] show ?case by (simp add: mem_bytes_Cons Let_def b_def add.assoc)
qed simp

lemma make_checksum_value:
  assumes "PID \<noteq> 0"
  obtains c where "LIN_MakeChecksumByte ram a n PID = Some c"
    "unat c = 255 - ones_sum (checksum_seed PID + sum_list (map unat (mem_bytes ram a (unat n))))"
proof -
  define cs :: u16 where "cs = (if 0x3C \<noteq> PID \<and> 0x7D \<noteq> PID then ucast PID else 0)"
  define s where "s = lin_checksum_loop ram a (unat n) cs"
  let ?v = "ones_sum (checksum_seed PID + sum_list (map unat (mem_bytes ram a (unat n))))"
  have "unat cs = ones_sum (checksum_seed PID)"
    by (auto simp: cs_def checksum_seed_def ones_sum_small unat_u8_le)
  then have s: "unat s = ?v" unfolding s_def by (rule checksum_loop_ones_sum)
  then have "unat (ucast s :: u8) = ?v"
    using ones_sum_le le_imp_less_Suc by (fastforce intro: trans [OF unat_ucast_small])
  then show ?thesis
    using that [of "NOT (ucast s)"] assms by (simp add: LIN_MakeChecksumByte_def cs_def s_def unat_not_u8)
qed

subsection \<open>The interface of the frame check\<close>

text \<open>
  What the two ends of the protocol use of a frame check \<open>mk\<close>: it is defined for every
  identifier but 0 and depends on the bytes only, not on where they are kept. Then a receiver
  that stored what the sender had computes the byte the sender appended.
\<close>

locale frame_check =
  fixes mk :: "mem \<Rightarrow> u32 \<Rightarrow> u8 \<Rightarrow> u8 \<Rightarrow> u8 option"
  assumes mk_total: "pid \<noteq> 0 \<Longrightarrow> mk m a n pid \<noteq> None"
    and mk_bytes: "mem_bytes m a (unat n) = mem_bytes m' a' (unat n) \<Longrightarrow> mk m a n pid = mk m' a' n pid"
begin

lemma accepts_sent:
  assumes "mk m a n pid = Some c" "mem_bytes m' a' (unat n) = mem_bytes m a (unat n)"
  shows "mk m' a' n pid = Some c"
  using mk_bytes [OF assms(2)] assms(1) by simp

end

interpretation lin_check: frame_check LIN_MakeChecksumByte
proof (unfold_locales, goal_cases)
  case (1 pid m a n)
  then show ?case by (simp add: LIN_MakeChecksumByte_def)
next
  case (2 m a n m' a' pid)
  have "pid \<noteq> 0 \<Longrightarrow> ?case"
    using 2 make_checksum_value [of pid m a n] make_checksum_value [of pid m' a' n]
    by (metis word_unat_eq_iff)
  then show ?case by (cases "pid = 0") (auto simp: LIN_MakeChecksumByte_def)
qed

lemma parity_cong:
  "(\<And>i. i < 6 \<Longrightarrow> bit v i = bit w i) \<Longrightarrow> lin_P0 v = lin_P0 w \<and> lin_P1 v = lin_P1 w"
  by (simp add: lin_P0_def lin_P1_def)

lemma make_parity_ok:
  assumes "i \<le> 0x3F"
  shows "LIN_ProcessParity (LIN_ProcessParity i MAKE_PARITY) CHECK_PARITY = i"
proof -
  let ?p = "LIN_ProcessParity i MAKE_PARITY"
  have n: "\<not> bit i 6" "\<not> bit i 7" using assms by (simp_all add: id_bits)
  have "lin_P0 ?p = lin_P0 i \<and> lin_P1 ?p = lin_P1 i"
    by (rule parity_cong) (auto simp: bit_make_parity)
  then have "LIN_ProcessParity ?p CHECK_PARITY = ?p AND 0x3F"
    using n by (simp add: check_parity bit_make_parity)
  also have "\<dots> = i"
  proof (rule bit_eqI)
    fix k assume "possible_bit TYPE(8 word) k"
    then have "k < 6 \<or> k = 6 \<or> k = 7" by auto
    then show "bit (?p AND 0x3F) k = bit i k"
      unfolding bit_and_iff bit_3F bit_make_parity using n by auto
  qed
  finally show ?thesis .
qed

lemma and_3F_neq_FF: "w AND 0x3F \<noteq> (0xFF :: u8)"
proof
  assume "w AND 0x3F = 0xFF"
  then have "bit (w AND 0x3F) 7 = bit (0xFF :: u8) 7" by (simp only:)
  then show False unfolding bit_and_iff bit_3F by simp
qed

lemma check_parity_valid:
  "LIN_ProcessParity w CHECK_PARITY \<noteq> 0xFF \<longleftrightarrow> (bit w 6 \<longleftrightarrow> lin_P0 w) \<and> (bit w 7 \<longleftrightarrow> lin_P1 w)"
  by (simp add: check_parity and_3F_neq_FF)

lemma valid_pid_nonzero: "LIN_ProcessParity w CHECK_PARITY \<noteq> 0xFF \<Longrightarrow> w \<noteq> 0"
  by (auto simp: check_parity_valid lin_P1_def)

lemma made_pid_valid:
  assumes "i \<le> 0x3F"
  shows "LIN_ProcessParity (LIN_ProcessParity i MAKE_PARITY) CHECK_PARITY \<noteq> 0xFF"
  using assms make_parity_ok [OF assms] by auto

lemma bit_flip: "bit (w XOR push_bit i 1 :: u8) n \<longleftrightarrow> (if n = i \<and> i < 8 then \<not> bit w n else bit w n)"
  by (auto simp: bit_simps)

lemma flip_detected:
  assumes "i < 8" "LIN_ProcessParity w CHECK_PARITY \<noteq> 0xFF"
  shows "LIN_ProcessParity (w XOR push_bit i 1) CHECK_PARITY = 0xFF"
proof -
  have "i \<in> {0, 1, 2, 3, 4, 5, 6, 7}" using assms(1) by (simp, arith)
  moreover have "(bit w 6 \<longleftrightarrow> lin_P0 w) \<and> (bit w 7 \<longleftrightarrow> lin_P1 w)" using assms(2) by (simp add: check_parity_valid)
  ultimately have "\<not> ((bit (w XOR push_bit i 1) 6 \<longleftrightarrow> lin_P0 (w XOR push_bit i 1)) \<and>
      (bit (w XOR push_bit i 1) 7 \<longleftrightarrow> lin_P1 (w XOR push_bit i 1)))"
    unfolding lin_P0_def lin_P1_def bit_flip by (elim insertE emptyE) (simp; argo)+
  then show ?thesis using check_parity_valid by blast
qed

subsection \<open>Properties\<close>

text \<open>\<open>LIN_ProcessParity\<close> implements the two parity equations of the LIN specification. Making
  sets bits 6 and 7 to P0 and P1; checking returns the identifier when both bits are right and
  0xFF when one is not.\<close>

theorem parity_equations:
  "(bit (LIN_ProcessParity w MAKE_PARITY) n \<longleftrightarrow> bit w n \<or> n = 6 \<and> lin_P0 w \<or> n = 7 \<and> lin_P1 w) \<and>
   LIN_ProcessParity w CHECK_PARITY =
     (if (bit w 6 \<longleftrightarrow> lin_P0 w) \<and> (bit w 7 \<longleftrightarrow> lin_P1 w) then w AND 0x3F else 0xFF)"
  using bit_make_parity check_parity by blast

text \<open>C25: every frame identifier survives the round trip through its protected form, the protected
  form is never 0 (the value the checksum routine asserts against), and in a valid protected
  identifier every single-bit error is reported.\<close>

theorem parity_round_trip:
  assumes "i \<le> 0x3F"
  shows "LIN_ProcessParity (LIN_ProcessParity i MAKE_PARITY) CHECK_PARITY = i \<and>
         LIN_ProcessParity i MAKE_PARITY \<noteq> 0 \<and>
         (\<forall>k < 8. LIN_ProcessParity (LIN_ProcessParity i MAKE_PARITY XOR push_bit k 1) CHECK_PARITY = 0xFF)"
  using make_parity_ok [OF assms] made_pid_valid [OF assms] valid_pid_nonzero flip_detected by blast

theorem parity_round_trip_witness:
  "LIN_ProcessParity (LIN_ProcessParity 0x3D MAKE_PARITY) CHECK_PARITY = 0x3D \<and>
   LIN_ProcessParity (LIN_ProcessParity 0x3D MAKE_PARITY XOR push_bit 5 1) CHECK_PARITY = 0xFF"
proof -
  have "(0x3D :: u8) \<le> 0x3F" by simp
  from parity_round_trip [OF this] show ?thesis by (metis numeral_less_iff semiring_norm(76,78,81))
qed

text \<open>C23: the checksum byte. For every identifier but 0 the routine returns the complement of the
  ones'-complement sum of the data, with the identifier included unless it is a diagnostic one;
  the 16-bit accumulator never wraps. Adding the checksum to the sum gives 255, which is the
  receiver's test.\<close>

theorem checksum_value:
  assumes "PID \<noteq> 0"
  shows "\<exists>c. LIN_MakeChecksumByte ram a n PID = Some c \<and>
           unat c = 255 - ones_sum (checksum_seed PID + sum_list (map unat (mem_bytes ram a (unat n)))) \<and>
           ones_sum (checksum_seed PID + sum_list (map unat (mem_bytes ram a (unat n)))) + unat c = 255"
proof -
  obtain c where "LIN_MakeChecksumByte ram a n PID = Some c"
    "unat c = 255 - ones_sum (checksum_seed PID + sum_list (map unat (mem_bytes ram a (unat n))))"
    by (rule make_checksum_value [OF assms, where ram = ram and a = a and n = n])
  with ones_sum_le show ?thesis by (metis le_add_diff_inverse)
qed

theorem checksum_value_witness:
  "\<exists>c. LIN_MakeChecksumByte (\<lambda>_. 0x4A) 0 4 0x4A = Some c \<and> unat c = 0x8C"
  using checksum_value [of "0x4A" "\<lambda>_. 0x4A" 0 4]
  by (simp add: mem_bytes_def checksum_seed_def ones_sum_def upt_conv_Cons)

lemma ones_sum_cong_byte:
  assumes "ones_sum t = ones_sum u" "t + x = u + y" "x \<le> 255" "y \<le> 255" "x \<noteq> y"
  shows "{x, y} = {0, 255}"
proof -
  have "t mod 255 = u mod 255" using assms(1) ones_sum_mod by metis
  then have "int t mod 255 = int u mod 255" by (metis of_nat_mod of_nat_numeral)
  then have "255 dvd int t - int u" by (simp add: mod_eq_dvd_iff)
  moreover have "int t - int u = int y - int x" using assms(2) by linarith
  ultimately obtain k where k: "int y - int x = 255 * k" by (auto elim: dvdE)
  with assms(3-5) have "k = 1 \<or> k = -1" by auto
  with k assms(3,4) show ?thesis by auto
qed

lemma same_checksum:
  assumes "PID \<noteq> 0" "LIN_MakeChecksumByte ram a n PID = LIN_MakeChecksumByte ram' a' n PID"
  shows "ones_sum (checksum_seed PID + sum_list (map unat (mem_bytes ram a (unat n)))) =
         ones_sum (checksum_seed PID + sum_list (map unat (mem_bytes ram' a' (unat n))))" (is "ones_sum ?t = ones_sum ?u")
proof -
  obtain c where c: "LIN_MakeChecksumByte ram a n PID = Some c" "unat c = 255 - ones_sum ?t"
    by (rule make_checksum_value [OF assms(1)])
  obtain c' where c': "LIN_MakeChecksumByte ram' a' n PID = Some c'" "unat c' = 255 - ones_sum ?u"
    by (rule make_checksum_value [OF assms(1)])
  from c c' assms(2) have "255 - ones_sum ?t = 255 - ones_sum ?u" by simp
  then show ?thesis using ones_sum_le [of ?t] ones_sum_le [of ?u] by linarith
qed

text \<open>C24: error detection. If two buffers of the same length differ in one byte only and have the
  same checksum byte, then that byte is 0x00 in one and 0xFF in the other.\<close>

theorem checksum_detects_byte:
  assumes "PID \<noteq> 0"
    and "LIN_MakeChecksumByte ram a n PID = LIN_MakeChecksumByte (ram(a + of_nat i := b)) a n PID"
    and "i < unat n" "b \<noteq> ram (a + of_nat i)"
  shows "{b, ram (a + of_nat i)} = {0, 0xFF}"
proof -
  define bs where "bs = mem_bytes ram a (unat n)"
  define x where "x = ram (a + of_nat i)"
  have x: "bs ! i = x" "i < length bs" using assms(3) by (simp_all add: bs_def x_def)
  have n: "unat n \<le> 2 ^ 32" using unat_u8_le [of n] by simp
  have upd: "mem_bytes (ram(a + of_nat i := b)) a (unat n) = bs[i := b]"
    unfolding bs_def by (rule mem_bytes_update [OF assms(3) n])
  have "unat x \<le> sum_list (map unat bs)" using x elem_le_sum_list [of i "map unat bs"] by simp
  then have sum: "sum_list (map unat (bs[i := b])) + unat x = sum_list (map unat bs) + unat b"
    using x by (simp add: map_update sum_list_update)
  have "ones_sum (checksum_seed PID + sum_list (map unat bs)) =
        ones_sum (checksum_seed PID + sum_list (map unat (bs[i := b])))"
    using same_checksum [OF assms(1,2)] unfolding upd bs_def [symmetric] .
  then have "{unat b, unat x} = {0, 255}"
    by (rule ones_sum_cong_byte) (use sum assms(4) in \<open>simp_all add: unat_u8_le x_def word_unat_eq_iff\<close>)
  then show ?thesis unfolding x_def [symmetric] by (auto simp: doubleton_eq_iff word_unat_eq_iff)
qed

theorem checksum_detects_byte_witness:
  "LIN_MakeChecksumByte (\<lambda>_. 0) 0 2 0x4A = LIN_MakeChecksumByte ((\<lambda>_. 0)(0 + of_nat 1 := 0xFF)) 0 2 0x4A \<and>
   {0xFF, 0 :: u8} = {0, 0xFF}"
proof -
  have eq: "LIN_MakeChecksumByte (\<lambda>_. 0) 0 2 0x4A = LIN_MakeChecksumByte ((\<lambda>_. 0)(0 + of_nat 1 := 0xFF)) 0 2 0x4A"
    by code_simp
  have ne: "(0x4A :: u8) \<noteq> 0" "(1::nat) < unat (2 :: u8)" "(0xFF :: u8) \<noteq> 0" by simp_all
  show ?thesis using checksum_detects_byte [OF ne(1) eq ne(2,3)] eq by blast
qed

end
