(* ===== verification/Lin_Lpuart.thy ===== *)
theory Lin_Lpuart
  imports Lin_Frame Common
begin

text \<open>
  \<open>drivers/lin/fsl_lin_lpuart.c\<close> and the inline functions of \<open>fsl_lin_lpuart.h\<close>: the LIN node
  over an LPUART. This theory holds the data of a node and every operation of the driver, in the
  order of the source; what they do together is proved in the theories that import it.

  A node is one LPUART instance: the device, the RAM that frame buffers live in, the structures
  \<open>lin_state_t\<close> and \<open>lin_user_config_t\<close> behind \<open>g_linStatePtr[instance]\<close> and
  \<open>g_linUserconfigPtr[instance]\<close> with whether those pointers are set, and the per-instance
  statics. Dereferencing a null pointer, calling through one and failing an assertion are \<open>None\<close>.
  User callbacks are numbered; a callback may change its own node in any way.
\<close>

subsection \<open>Data\<close>

datatype lin_event_id =
    LIN_NO_EVENT | LIN_WAKEUP_SIGNAL | LIN_BAUDRATE_ADJUSTED | LIN_RECV_BREAK_FIELD_OK | LIN_SYNC_OK
  | LIN_SYNC_ERROR | LIN_PID_OK | LIN_PID_ERROR | LIN_FRAME_ERROR | LIN_READBACK_ERROR
  | LIN_CHECKSUM_ERROR | LIN_TX_COMPLETED | LIN_RX_COMPLETED | LIN_NO_DATA_TIMEOUT
  | LIN_BUS_ACTIVITY_TIMEOUT | LIN_TIMEOUT_ERROR | LIN_LAST_RESPONSE_SHORT_ERROR

datatype lin_status =
    LIN_IFC_NOT_SUPPORT | LIN_INITIALIZED | LIN_SUCCESS | LIN_ERROR | LIN_TX_BUSY | LIN_RX_BUSY
  | LIN_BUS_BUSY | LIN_NO_TRANSFER_IN_PROGRESS | LIN_TIMEOUT | LIN_LPUART_STAT_CLOCK_GATED_OFF

datatype lin_node_state =
    LIN_NODE_STATE_UNINIT | LIN_NODE_STATE_SLEEP_MODE | LIN_NODE_STATE_IDLE
  | LIN_NODE_STATE_SEND_BREAK_FIELD | LIN_NODE_STATE_RECV_SYNC | LIN_NODE_STATE_SEND_PID
  | LIN_NODE_STATE_RECV_PID | LIN_NODE_STATE_RECV_DATA | LIN_NODE_STATE_RECV_DATA_COMPLETED
  | LIN_NODE_STATE_SEND_DATA | LIN_NODE_STATE_SEND_DATA_COMPLETED

record lin_state =
  txBuff :: u32
  rxBuff :: u32
  frame_index :: u8
  cntByte :: u8
  txSize :: u8
  rxSize :: u8
  checkSum :: u8
  isTxBusy :: bool
  isRxBusy :: bool
  isBusBusy :: bool
  isTxBlocking :: bool
  isRxBlocking :: bool
  Callback :: "nat option"
  currentId :: u8
  currentPid :: u8
  currentEventId :: lin_event_id
  currentNodeState :: lin_node_state
  timeoutCounter :: u32
  timeoutCounterFlag :: bool
  baudrateEvalEnable :: bool
  fallingEdgeInterruptCount :: u8
  linSourceClockFreq :: u32
  txCompleted :: bool
  rxCompleted :: bool

record lin_user_config =
  hardware_instance :: u8
  baudRate :: u32
  nodeFunction :: bool
  autobaudEnable :: bool
  timerGetTimeIntervalCallback :: "nat option"

definition LIN_SLAVE :: bool where "LIN_SLAVE = False"
definition LIN_MASTER :: bool where "LIN_MASTER = True"

record 'd lin_node =
  n_dev :: 'd
  n_ram :: mem
  n_st :: lin_state
  n_stptr :: bool
  n_cfg :: lin_user_config
  n_cfgptr :: bool
  s_previousTwoBitTimeLength :: u32
  s_wakeupSignal :: u8
  s_countMeasure :: u8
  s_timeMeasure :: u32

text \<open>
  The registers (\<open>L_DATA8\<close> is the low byte lane of DATA, which \<open>LIN_LPUART_WriteByte\<close> writes),
  masks and features of the device header.
\<close>

datatype lin_reg = L_BAUD | L_STAT | L_CTRL | L_DATA | L_DATA8 | L_MATCH | L_MODIR | L_FIFO | L_WATER

datatype lin_mask =
    BAUD_LBKDIE | BAUD_RXEDGIE | BAUD_BOTHEDGE | BAUD_OSR | BAUD_SBR | BAUD_M10 | BAUD_SBNS
  | FIFO_TXOF | FIFO_RXUF | FIFO_TXOFE | FIFO_RXUFE | FIFO_TXEMPT | FIFO_RXEMPT
  | CTRL_TE | CTRL_RE | CTRL_M | CTRL_PE | CTRL_PT | CTRL_RIE | CTRL_FEIE
  | STAT_LBKDIF | STAT_RXEDGIF | STAT_IDLE | STAT_OR | STAT_NF | STAT_FE | STAT_PF | STAT_MA1F | STAT_MA2F
  | STAT_LBKDE | STAT_BRK13 | STAT_RXINV | STAT_TDRE | STAT_TC | STAT_RDRF

datatype lin_field = F_BAUD_OSR | F_BAUD_SBR | F_BAUD_SBNS | F_DATA_FRETSC

datatype lin_feature =
    LPUART_HAS_FIFO | LPUART_HAS_LIN_BREAK_DETECT | LPUART_HAS_ADDRESS_MATCHING | LPUART_HAS_MODEM_SUPPORT
  | LPUART_FIFO_SIZE | LPUART_RX_TX_IRQS | LPUART_ERR_IRQS | LPUART_CLOCK_CONTROL | LPUART_PERIPH_CLOCKS
  | LIN_STACK_ENABLE

datatype lin_irq = RxTxIrq | ErrIrq

record 'd lin_soc = "(lin_reg, 'd) mmio" +
  lmask :: "lin_mask \<Rightarrow> u32"
  lfield :: "lin_field \<Rightarrow> u32 \<Rightarrow> u32"
  lfeature :: "lin_feature \<Rightarrow> bool"
  RXINV_SHIFT :: nat
  RXEDGIE_SHIFT :: nat
  LIN_LPUART_CLOCK_FREQ :: u32
  TRANSMISSION_COMPLETE_TIMEOUT :: u32
  lin_EnableIRQ :: "lin_irq \<Rightarrow> 'd \<Rightarrow> 'd"
  lin_DisableIRQ :: "lin_irq \<Rightarrow> 'd \<Rightarrow> 'd"
  lin_EnableClock :: "bool \<Rightarrow> 'd \<Rightarrow> 'd"
  lin_DisableClock :: "bool \<Rightarrow> 'd \<Rightarrow> 'd"
  lin_invoke :: "nat \<Rightarrow> 'd lin_node \<Rightarrow> 'd lin_node option"
  lin_get_time :: "nat \<Rightarrow> 'd lin_node \<Rightarrow> u32 \<times> 'd lin_node"

text \<open>Enumerators defined from the masks of the device header.\<close>

definition kLPUART_TxDataRegEmptyFlag :: "'d lin_soc \<Rightarrow> u32" where
  "kLPUART_TxDataRegEmptyFlag soc = lmask soc STAT_TDRE"
definition kLPUART_TransmissionCompleteFlag :: "'d lin_soc \<Rightarrow> u32" where
  "kLPUART_TransmissionCompleteFlag soc = lmask soc STAT_TC"
definition kLPUART_RxDataRegFullFlag :: "'d lin_soc \<Rightarrow> u32" where
  "kLPUART_RxDataRegFullFlag soc = lmask soc STAT_RDRF"
definition kLPUART_RxOverrunFlag :: "'d lin_soc \<Rightarrow> u32" where
  "kLPUART_RxOverrunFlag soc = lmask soc STAT_OR"
definition kLPUART_FramingErrorFlag :: "'d lin_soc \<Rightarrow> u32" where
  "kLPUART_FramingErrorFlag soc = lmask soc STAT_FE"
definition kLPUART_LinBreakFlag :: "'d lin_soc \<Rightarrow> u32" where
  "kLPUART_LinBreakFlag soc = lmask soc STAT_LBKDIF"
definition kLPUART_RxActiveEdgeFlag :: "'d lin_soc \<Rightarrow> u32" where
  "kLPUART_RxActiveEdgeFlag soc = lmask soc STAT_RXEDGIF"
definition kLPUART_LinBreakInterruptEnable :: "'d lin_soc \<Rightarrow> u32" where
  "kLPUART_LinBreakInterruptEnable soc = drop_bit 8 (lmask soc BAUD_LBKDIE)"
definition kLPUART_RxActiveEdgeInterruptEnable :: "'d lin_soc \<Rightarrow> u32" where
  "kLPUART_RxActiveEdgeInterruptEnable soc = drop_bit 8 (lmask soc BAUD_RXEDGIE)"
definition kLPUART_RxDataRegFullInterruptEnable :: "'d lin_soc \<Rightarrow> u32" where
  "kLPUART_RxDataRegFullInterruptEnable soc = lmask soc CTRL_RIE"
definition kLPUART_FramingErrorInterruptEnable :: "'d lin_soc \<Rightarrow> u32" where
  "kLPUART_FramingErrorInterruptEnable soc = lmask soc CTRL_FEIE"

definition kStatus_LPUART_FlagCannotClearManually :: status where
  "kStatus_LPUART_FlagCannotClearManually = MAKE_STATUS kStatusGroup_LPUART 6"

text \<open>Updating the device and the state structure of a node; calling the node's callback.\<close>

definition on_dev :: "('d \<Rightarrow> 'd) \<Rightarrow> 'd lin_node \<Rightarrow> 'd lin_node" where
  "on_dev f n = n\<lparr>n_dev := f (n_dev n)\<rparr>"

definition on_st :: "(lin_state \<Rightarrow> lin_state) \<Rightarrow> 'd lin_node \<Rightarrow> 'd lin_node" where
  "on_st f n = n\<lparr>n_st := f (n_st n)\<rparr>"

definition lin_callback :: "'d lin_soc \<Rightarrow> 'd lin_node \<Rightarrow> 'd lin_node option" where
  "lin_callback soc n = (case Callback (n_st n) of None \<Rightarrow> Some n | Some f \<Rightarrow> lin_invoke soc f n)"

subsection \<open>Register level\<close>

definition LIN_LPUART_GetRxDataPolarity :: "'d lin_soc \<Rightarrow> 'd \<Rightarrow> bool \<times> 'd" where
  "LIN_LPUART_GetRxDataPolarity soc d =
     (let (stat, d) = reg_read soc L_STAT d in (drop_bit (RXINV_SHIFT soc) stat AND 1 > 0, d))"

definition LIN_LPUART_SetRxDataPolarity :: "'d lin_soc \<Rightarrow> bool \<Rightarrow> 'd \<Rightarrow> 'd" where
  "LIN_LPUART_SetRxDataPolarity soc polarity d =
     (let (stat, d) = reg_read soc L_STAT d
      in reg_write soc L_STAT (stat AND NOT (lmask soc STAT_RXINV) OR
                               push_bit (RXINV_SHIFT soc) (if polarity then 1 else 0)) d)"

definition LIN_LPUART_WriteByte :: "'d lin_soc \<Rightarrow> u8 \<Rightarrow> 'd \<Rightarrow> 'd" where
  "LIN_LPUART_WriteByte soc b d = reg_write soc L_DATA8 (ucast b) d"

definition LIN_LPUART_ReadByte :: "'d lin_soc \<Rightarrow> 'd \<Rightarrow> u8 \<times> 'd" where
  "LIN_LPUART_ReadByte soc d = (let (v, d) = reg_read soc L_DATA d in (ucast v, d))"

definition LIN_LPUART_EnableInterrupts :: "'d lin_soc \<Rightarrow> u32 \<Rightarrow> 'd \<Rightarrow> 'd" where
  "LIN_LPUART_EnableInterrupts soc msk d =
     (let d = reg_set soc L_BAUD (push_bit 8 msk AND (lmask soc BAUD_LBKDIE OR lmask soc BAUD_RXEDGIE)) d;
          d = (if lfeature soc LPUART_HAS_FIFO then
                 let (v, d) = reg_read soc L_FIFO d
                 in reg_write soc L_FIFO (v AND NOT (lmask soc FIFO_TXOF OR lmask soc FIFO_RXUF) OR
                      (push_bit 8 msk AND (lmask soc FIFO_TXOFE OR lmask soc FIFO_RXUFE))) d
               else d);
          msk = msk AND 0xFFFFFF00
      in reg_set soc L_CTRL msk d)"

definition LIN_LPUART_DisableInterrupts :: "'d lin_soc \<Rightarrow> u32 \<Rightarrow> 'd \<Rightarrow> 'd" where
  "LIN_LPUART_DisableInterrupts soc msk d =
     (let d = reg_clear soc L_BAUD (push_bit 8 msk AND (lmask soc BAUD_LBKDIE OR lmask soc BAUD_RXEDGIE)) d;
          d = (if lfeature soc LPUART_HAS_FIFO then
                 let (v, d) = reg_read soc L_FIFO d
                 in reg_write soc L_FIFO ((v AND NOT (lmask soc FIFO_TXOF OR lmask soc FIFO_RXUF)) AND
                      NOT (push_bit 8 msk AND (lmask soc FIFO_TXOFE OR lmask soc FIFO_RXUFE))) d
               else d);
          msk = msk AND 0xFFFFFF00
      in reg_clear soc L_CTRL msk d)"

text \<open>
  The search of \<open>LIN_LPUART_CalculateBaudRate\<close> over the oversampling rates. The result of an
  iteration is the best difference so far and the values stored through \<open>osr\<close> and \<open>sbr\<close>; a
  zero divisor traps.
\<close>

definition lin_baud_step :: "u32 \<Rightarrow> u32 \<Rightarrow> u32 \<Rightarrow> u32 \<times> u32 \<times> u16 \<Rightarrow> (u32 \<times> u32 \<times> u16) option" where
  "lin_baud_step baudRate_Bps srcClock_Hz osrTemp best = do {
     c_assert (baudRate_Bps * osrTemp \<noteq> 0);
     let (baudDiff, osr, sbr) = best;
     let sbrTemp = (ucast (srcClock_Hz div (baudRate_Bps * osrTemp)) :: u16);
     let sbrTemp = (if sbrTemp = 0 then 1 else sbrTemp);
     let calculatedBaud = srcClock_Hz div (osrTemp * ucast sbrTemp);
     let tempDiff = calculatedBaud - baudRate_Bps;
     let next = baudRate_Bps - srcClock_Hz div (osrTemp * (ucast sbrTemp + 1));
     let (tempDiff, sbrTemp) = (if next < tempDiff then (next, sbrTemp + 1) else (tempDiff, sbrTemp));
     Some (if tempDiff \<le> baudDiff then (tempDiff, osrTemp, sbrTemp) else (baudDiff, osr, sbr))
   }"

function lin_baud_loop :: "u32 \<Rightarrow> u32 \<Rightarrow> u32 \<Rightarrow> u32 \<times> u32 \<times> u16 \<Rightarrow> (u32 \<times> u32 \<times> u16) option" where
  "lin_baud_loop baudRate_Bps srcClock_Hz osrTemp best =
     (if osrTemp \<le> 32 then do {
        best \<leftarrow> lin_baud_step baudRate_Bps srcClock_Hz osrTemp best;
        lin_baud_loop baudRate_Bps srcClock_Hz (osrTemp + 1) best
      } else Some best)"
  by pat_completeness auto
termination
  by (relation "measure (\<lambda>(b, s, x, r). 33 - unat x)") (auto simp: word_le_nat_alt unat_plus_small)

declare lin_baud_loop.simps [simp del]

definition LIN_LPUART_CalculateBaudRate :: "u32 \<Rightarrow> u32 \<Rightarrow> u32 \<times> u16 \<Rightarrow> (status \<times> u32 \<times> u16) option" where
  "LIN_LPUART_CalculateBaudRate baudRate_Bps srcClock_Hz os = do {
     c_assert (0 \<noteq> baudRate_Bps);
     c_assert (srcClock_Hz div baudRate_Bps div 4 \<le> 0xFFFF);
     let baudDiff = baudRate_Bps;
     (baudDiff, osr, sbr) \<leftarrow> lin_baud_loop baudRate_Bps srcClock_Hz 4 (baudDiff, os);
     let status = (if baudRate_Bps div 100 * 3 \<le> baudDiff then kStatus_Fail else kStatus_Success);
     Some (status, osr, sbr)
   }"

definition LIN_LPUART_SetBaudRate :: "'d lin_soc \<Rightarrow> u32 \<Rightarrow> u16 \<Rightarrow> 'd \<Rightarrow> 'd" where
  "LIN_LPUART_SetBaudRate soc osr sbr d =
     (let (oldCtrl, d) = reg_read soc L_CTRL d;
          d = reg_clear soc L_CTRL (lmask soc CTRL_TE OR lmask soc CTRL_RE) d;
          (temp, d) = reg_read soc L_BAUD d;
          temp = (if 3 < osr \<and> osr < 8 then temp OR lmask soc BAUD_BOTHEDGE else temp);
          temp = temp AND NOT (lmask soc BAUD_OSR);
          temp = temp OR lfield soc F_BAUD_OSR (osr - 1);
          temp = temp AND NOT (lmask soc BAUD_SBR);
          d = reg_write soc L_BAUD (temp OR lfield soc F_BAUD_SBR (ucast sbr)) d
      in reg_write soc L_CTRL oldCtrl d)"

definition LIN_LPUART_SetBitCountPerChar :: "'d lin_soc \<Rightarrow> 'd \<Rightarrow> 'd" where
  "LIN_LPUART_SetBitCountPerChar soc d =
     (let (v, d) = reg_read soc L_CTRL d;
          d = reg_write soc L_CTRL (v AND NOT (lmask soc CTRL_M)) d
      in reg_clear soc L_BAUD (lmask soc BAUD_M10) d)"

definition LIN_LPUART_GetStatusFlags :: "'d lin_soc \<Rightarrow> 'd \<Rightarrow> u32 \<times> 'd" where
  "LIN_LPUART_GetStatusFlags soc d =
     (let (temp, d) = reg_read soc L_STAT d
      in if lfeature soc LPUART_HAS_FIFO then
           let (fifo, d) = reg_read soc L_FIFO d
           in (temp OR drop_bit 16 (fifo AND (lmask soc FIFO_TXEMPT OR lmask soc FIFO_RXEMPT OR
                                              lmask soc FIFO_TXOF OR lmask soc FIFO_RXUF)), d)
         else (temp, d))"

definition LIN_LPUART_ClearStatusFlags :: "'d lin_soc \<Rightarrow> u32 \<Rightarrow> 'd \<Rightarrow> status \<times> 'd" where
  "LIN_LPUART_ClearStatusFlags soc msk d =
     (let d = (if lfeature soc LPUART_HAS_FIFO then
                 let ovf = lmask soc FIFO_TXOF OR lmask soc FIFO_RXUF;
                     (temp, d) = reg_read soc L_FIFO d;
                     temp = temp AND NOT ovf;
                     temp = temp OR (push_bit 16 msk AND ovf)
                 in reg_write soc L_FIFO temp d
               else d);
          (temp, d) = reg_read soc L_STAT d;
          temp = (if lfeature soc LPUART_HAS_LIN_BREAK_DETECT then
                    temp AND NOT (lmask soc STAT_LBKDIF) OR (msk AND lmask soc STAT_LBKDIF)
                  else temp);
          w1c = lmask soc STAT_RXEDGIF OR lmask soc STAT_IDLE OR lmask soc STAT_OR OR lmask soc STAT_NF OR
                lmask soc STAT_FE OR lmask soc STAT_PF;
          temp = temp AND NOT w1c;
          temp = temp OR (msk AND w1c);
          temp = (if lfeature soc LPUART_HAS_ADDRESS_MATCHING then
                    temp AND NOT (lmask soc STAT_MA2F OR lmask soc STAT_MA1F) OR
                    (msk AND (lmask soc STAT_MA2F OR lmask soc STAT_MA1F))
                  else temp);
          d = reg_write soc L_STAT temp d;
          (flags, d) = LIN_LPUART_GetStatusFlags soc d
      in (if msk AND flags \<noteq> 0 then kStatus_LPUART_FlagCannotClearManually else kStatus_Success, d))"

definition LIN_LPUART_GetInstance :: "bool \<Rightarrow> u32 list \<Rightarrow> u32 \<Rightarrow> nat option" where
  "LIN_LPUART_GetInstance cmse g_linLpuartBase base = do {
     let i = find_base cmse g_linLpuartBase base;
     c_assert (i < length g_linLpuartBase);
     Some i
   }"

definition LIN_LPUART_QueueBreakChar :: "'d lin_soc \<Rightarrow> 'd \<Rightarrow> lin_status \<times> 'd" where
  "LIN_LPUART_QueueBreakChar soc d = (LIN_SUCCESS, reg_write soc L_DATA (lfield soc F_DATA_FRETSC 1) d)"

definition lin_irqs :: "'d lin_soc \<Rightarrow> (lin_irq \<Rightarrow> 'd \<Rightarrow> 'd) \<Rightarrow> 'd \<Rightarrow> 'd" where
  "lin_irqs soc f d =
     (let d = (if lfeature soc LPUART_RX_TX_IRQS then f RxTxIrq d else d)
      in if lfeature soc LPUART_ERR_IRQS then f ErrIrq d else d)"

subsection \<open>Idle and sleep\<close>

text \<open>The device part of \<open>LIN_LPUART_GotoIdleState\<close> and of \<open>LIN_LPUART_GoToSleepMode\<close>.\<close>

definition lin_idle_dev :: "'d lin_soc \<Rightarrow> 'd \<Rightarrow> 'd" where
  "lin_idle_dev soc d =
     (let d = LIN_LPUART_SetRxDataPolarity soc False d;
          d = lin_irqs soc (lin_DisableIRQ soc) d;
          d = (if lfeature soc LPUART_HAS_LIN_BREAK_DETECT then
                 LIN_LPUART_EnableInterrupts soc (kLPUART_LinBreakInterruptEnable soc)
                   (reg_set soc L_STAT (lmask soc STAT_LBKDE) d)
               else d);
          d = LIN_LPUART_EnableInterrupts soc
                (kLPUART_RxDataRegFullInterruptEnable soc OR kLPUART_FramingErrorInterruptEnable soc) d;
          d = LIN_LPUART_DisableInterrupts soc (kLPUART_RxActiveEdgeInterruptEnable soc) d
      in lin_irqs soc (lin_EnableIRQ soc) d)"

definition LIN_LPUART_GotoIdleState :: "'d lin_soc \<Rightarrow> 'd lin_node \<Rightarrow> (lin_status \<times> 'd lin_node) option" where
  "LIN_LPUART_GotoIdleState soc n = do {
     c_assert (n_stptr n);
     let n = on_dev (lin_idle_dev soc) n;
     Some (LIN_SUCCESS, on_st (\<lambda>s. s\<lparr>currentNodeState := LIN_NODE_STATE_IDLE\<rparr>) n)
   }"

definition lin_sleep_dev :: "'d lin_soc \<Rightarrow> 'd \<Rightarrow> 'd" where
  "lin_sleep_dev soc d =
     (let d = LIN_LPUART_SetRxDataPolarity soc False d;
          d = lin_irqs soc (lin_DisableIRQ soc) d;
          d = (if lfeature soc LPUART_HAS_LIN_BREAK_DETECT then
                 LIN_LPUART_DisableInterrupts soc (kLPUART_LinBreakInterruptEnable soc) d
               else d);
          d = LIN_LPUART_DisableInterrupts soc
                (kLPUART_RxDataRegFullInterruptEnable soc OR kLPUART_FramingErrorInterruptEnable soc) d;
          d = LIN_LPUART_EnableInterrupts soc (kLPUART_RxActiveEdgeInterruptEnable soc) d
      in lin_irqs soc (lin_EnableIRQ soc) d)"

definition LIN_LPUART_GoToSleepMode :: "'d lin_soc \<Rightarrow> 'd lin_node \<Rightarrow> (lin_status \<times> 'd lin_node) option" where
  "LIN_LPUART_GoToSleepMode soc n = do {
     c_assert (n_stptr n);
     let n = on_st (\<lambda>s. s\<lparr>currentNodeState := LIN_NODE_STATE_SLEEP_MODE\<rparr>) n;
     Some (LIN_SUCCESS, on_dev (lin_sleep_dev soc) n)
   }"

subsection \<open>Break, wake-up and autobaud\<close>

definition LIN_LPUART_ProcessBreakDetect :: "'d lin_soc \<Rightarrow> 'd lin_node \<Rightarrow> 'd lin_node option" where
  "LIN_LPUART_ProcessBreakDetect soc n = do {
     let n = on_dev (\<lambda>d. snd (LIN_LPUART_ClearStatusFlags soc (kLPUART_LinBreakFlag soc) d)) n;
     c_assert (n_stptr n);
     if currentNodeState (n_st n) = LIN_NODE_STATE_SLEEP_MODE then do {
       (_, n) \<leftarrow> LIN_LPUART_GotoIdleState soc n;
       Some n
     } else do {
       let n = (if lfeature soc LPUART_HAS_LIN_BREAK_DETECT then
                  on_dev (\<lambda>d. LIN_LPUART_DisableInterrupts soc (kLPUART_LinBreakInterruptEnable soc)
                                (reg_clear soc L_STAT (lmask soc STAT_LBKDE) d)) n
                else n);
       let n = on_st (\<lambda>s. s\<lparr>isBusBusy := True\<rparr>) n;
       c_assert (n_cfgptr n);
       if nodeFunction (n_cfg n) = LIN_MASTER then
         if currentNodeState (n_st n) = LIN_NODE_STATE_SEND_BREAK_FIELD then
           let n = on_st (\<lambda>s. s\<lparr>currentNodeState := LIN_NODE_STATE_SEND_PID\<rparr>) n
           in Some (on_dev (LIN_LPUART_WriteByte soc 0x55) n)
         else Some n
       else do {
         n \<leftarrow> (if currentNodeState (n_st n) = LIN_NODE_STATE_RECV_DATA \<or>
                  currentNodeState (n_st n) = LIN_NODE_STATE_SEND_DATA
               then lin_callback soc (on_st (\<lambda>s. s\<lparr>currentEventId := LIN_LAST_RESPONSE_SHORT_ERROR\<rparr>) n)
               else Some n);
         let n = on_st (\<lambda>s. s\<lparr>currentEventId := LIN_RECV_BREAK_FIELD_OK\<rparr>) n;
         n \<leftarrow> lin_callback soc n;
         Some (on_st (\<lambda>s. s\<lparr>currentNodeState := LIN_NODE_STATE_RECV_SYNC\<rparr>) n)
       }
     }
   }"

text \<open>The timer callback, called through its pointer without a null check.\<close>

definition lin_timer :: "'d lin_soc \<Rightarrow> 'd lin_node \<Rightarrow> (u32 \<times> 'd lin_node) option" where
  "lin_timer soc n = do {
     c_assert (n_cfgptr n);
     f \<leftarrow> timerGetTimeIntervalCallback (n_cfg n);
     Some (lin_get_time soc f n)
   }"

definition LIN_LPUART_CheckWakeupSignal :: "'d lin_soc \<Rightarrow> 'd lin_node \<Rightarrow> 'd lin_node option" where
  "LIN_LPUART_CheckWakeupSignal soc n = do {
     let (polarity, d) = LIN_LPUART_GetRxDataPolarity soc (n_dev n);
     let n = n\<lparr>n_dev := d\<rparr>;
     if polarity = False then do {
       c_assert (n_cfgptr n);
       if timerGetTimeIntervalCallback (n_cfg n) = None then Some n
       else do {
         (_, n) \<leftarrow> lin_timer soc n;
         Some (on_dev (LIN_LPUART_SetRxDataPolarity soc True) n)
       }
     } else do {
       let n = on_dev (LIN_LPUART_SetRxDataPolarity soc False) n;
       (wakeupSignalLength, n) \<leftarrow> lin_timer soc n;
       if 150000 \<le> wakeupSignalLength then
         if wakeupSignalLength \<le> 5000000 then do {
           c_assert (n_stptr n);
           n \<leftarrow> lin_callback soc (on_st (\<lambda>s. s\<lparr>currentEventId := LIN_WAKEUP_SIGNAL\<rparr>) n);
           (_, n) \<leftarrow> LIN_LPUART_GotoIdleState soc n;
           Some n
         } else Some n
       else Some n
     }
   }"

text \<open>\<open>TWO_BIT_DURATION_MIN_x\<close> and \<open>_MAX_x\<close>, \<open>AUTOBAUD_BREAK_TIME_MIN\<close>, in nanoseconds.\<close>

definition AUTOBAUD_BAUDRATE_TOLERANCE :: u32 where "AUTOBAUD_BAUDRATE_TOLERANCE = 2"
definition BIT_RATE_TOLERANCE_UNSYNC :: u32 where "BIT_RATE_TOLERANCE_UNSYNC = 14"

definition two_bit_max :: "u32 \<Rightarrow> u32" where
  "two_bit_max hundreds = 2 * (100000 * (100 + AUTOBAUD_BAUDRATE_TOLERANCE) div hundreds)"

definition two_bit_min :: "u32 \<Rightarrow> u32" where
  "two_bit_min hundreds = 2 * (100000 * (100 - AUTOBAUD_BAUDRATE_TOLERANCE) div hundreds)"

definition AUTOBAUD_BREAK_TIME_MIN :: u32 where
  "AUTOBAUD_BREAK_TIME_MIN = 13 * (100000 * (100 - AUTOBAUD_BAUDRATE_TOLERANCE) div 192)"

text \<open>The cascade of comparisons that picks \<open>MasterBaudrate\<close>, 0 when no range matches.\<close>

definition lin_master_baud :: "u32 \<Rightarrow> u32" where
  "lin_master_baud t =
     (if two_bit_min 192 \<le> t \<and> t \<le> two_bit_max 192 then 19200
      else if two_bit_min 144 \<le> t \<and> t \<le> two_bit_max 144 then 14400
      else if two_bit_min 96 \<le> t \<and> t \<le> two_bit_max 96 then 9600
      else if two_bit_min 48 \<le> t \<and> t \<le> two_bit_max 48 then 4800
      else if two_bit_min 24 \<le> t \<and> t \<le> two_bit_max 24 then 2400
      else 0)"

definition lin_cancel_capture :: "'d lin_soc \<Rightarrow> 'd lin_node \<Rightarrow> 'd lin_node option" where
  "lin_cancel_capture soc n = do {
     (_, n) \<leftarrow> LIN_LPUART_GotoIdleState soc n;
     Some (on_st (\<lambda>s. s\<lparr>fallingEdgeInterruptCount := 0\<rparr>) n)
   }"

definition LIN_LPUART_EvalTwoBitTimeLength :: "'d lin_soc \<Rightarrow> u32 \<Rightarrow> 'd lin_node \<Rightarrow> 'd lin_node option" where
  "LIN_LPUART_EvalTwoBitTimeLength soc t n = do {
     c_assert (n_stptr n);
     n \<leftarrow> (if fallingEdgeInterruptCount (n_st n) < 5 \<and> 0 < fallingEdgeInterruptCount (n_st n) then do {
             n \<leftarrow> (if t < two_bit_min 192 \<or>
                      (two_bit_max 192 < t \<and> t < two_bit_min 144) \<or>
                      (two_bit_max 144 < t \<and> t < two_bit_min 96) \<or>
                      (two_bit_max 96 < t \<and> t < two_bit_min 48) \<or>
                      (two_bit_max 48 < t \<and> t < two_bit_min 24) \<or>
                      two_bit_max 24 < t
                   then lin_cancel_capture soc n
                   else if 1 < fallingEdgeInterruptCount (n_st n) then
                     if t < (100 - BIT_RATE_TOLERANCE_UNSYNC) * (s_previousTwoBitTimeLength n div 100) \<or>
                        (100 + BIT_RATE_TOLERANCE_UNSYNC) * (s_previousTwoBitTimeLength n div 100) < t
                     then lin_cancel_capture soc n
                     else Some n
                   else Some n);
             Some (n\<lparr>s_previousTwoBitTimeLength := t\<rparr>)
           } else Some n);
     Some (on_st (\<lambda>s. s\<lparr>fallingEdgeInterruptCount := fallingEdgeInterruptCount s + 1\<rparr>) n)
   }"

definition lin_wakeup_for :: "u32 \<Rightarrow> u8" where
  "lin_wakeup_for baud = (if 10000 < baud then 0x80 else 0xF8)"

definition LIN_LPUART_AutobaudTimerValEval :: "'d lin_soc \<Rightarrow> u32 \<Rightarrow> 'd lin_node \<Rightarrow> 'd lin_node option" where
  "LIN_LPUART_AutobaudTimerValEval soc t n = do {
     c_assert (n_stptr n);
     if currentNodeState (n_st n) = LIN_NODE_STATE_RECV_SYNC then do {
       n \<leftarrow> LIN_LPUART_EvalTwoBitTimeLength soc t n;
       if 4 < fallingEdgeInterruptCount (n_st n) then do {
         let MasterBaudrate = lin_master_baud t;
         if MasterBaudrate \<noteq> 0 then do {
           c_assert (n_cfgptr n);
           n \<leftarrow> (if baudRate (n_cfg n) \<noteq> MasterBaudrate then do {
                   let n = n\<lparr>n_cfg := (n_cfg n)\<lparr>baudRate := MasterBaudrate\<rparr>\<rparr>;
                   n \<leftarrow> (if lfeature soc LIN_STACK_ENABLE then do {
                           (st, osrValue, sbrValue) \<leftarrow>
                             LIN_LPUART_CalculateBaudRate (baudRate (n_cfg n)) (LIN_LPUART_CLOCK_FREQ soc) (0, 0);
                           Some (if st = kStatus_Success
                                 then on_dev (LIN_LPUART_SetBaudRate soc osrValue sbrValue) n else n)
                         } else Some n);
                   Some (n\<lparr>s_wakeupSignal := lin_wakeup_for (baudRate (n_cfg n))\<rparr>)
                 } else Some n);
           let n = on_st (\<lambda>s. s\<lparr>currentEventId := LIN_BAUDRATE_ADJUSTED, baudrateEvalEnable := False\<rparr>) n;
           n \<leftarrow> lin_callback soc n;
           Some (on_st (\<lambda>s. s\<lparr>currentNodeState := LIN_NODE_STATE_RECV_PID, currentEventId := LIN_SYNC_OK\<rparr>) n)
         } else lin_cancel_capture soc n
       } else Some n
     } else Some n
   }"

subsection \<open>Frames\<close>

definition LIN_LPUART_ProcessFrameHeader :: "'d lin_soc \<Rightarrow> u8 \<Rightarrow> 'd lin_node \<Rightarrow> 'd lin_node option" where
  "LIN_LPUART_ProcessFrameHeader soc tmpByte n = do {
     c_assert (n_stptr n);
     case currentNodeState (n_st n) of
       LIN_NODE_STATE_RECV_SYNC \<Rightarrow>
         if tmpByte = 0x55 then
           Some (on_st (\<lambda>s. s\<lparr>currentEventId := LIN_SYNC_OK, currentNodeState := LIN_NODE_STATE_RECV_PID\<rparr>) n)
         else do {
           n \<leftarrow> lin_callback soc (on_st (\<lambda>s. s\<lparr>currentEventId := LIN_SYNC_ERROR\<rparr>) n);
           let n = on_st (\<lambda>s. s\<lparr>isBusBusy := False\<rparr>) n;
           (_, n) \<leftarrow> LIN_LPUART_GotoIdleState soc n;
           Some n
         }
     | LIN_NODE_STATE_SEND_PID \<Rightarrow>
         if tmpByte = 0x55 then
           let n = on_st (\<lambda>s. s\<lparr>currentNodeState := LIN_NODE_STATE_RECV_PID\<rparr>) n
           in Some (on_dev (LIN_LPUART_WriteByte soc (currentPid (n_st n))) n)
         else lin_callback soc (on_st (\<lambda>s. s\<lparr>currentEventId := LIN_SYNC_ERROR, isBusBusy := False,
                                            currentNodeState := LIN_NODE_STATE_IDLE\<rparr>) n)
     | LIN_NODE_STATE_RECV_PID \<Rightarrow> do {
         c_assert (n_cfgptr n);
         if nodeFunction (n_cfg n) = LIN_MASTER then
           if tmpByte = currentPid (n_st n) then
             lin_callback soc (on_st (\<lambda>s. s\<lparr>currentEventId := LIN_PID_OK, isBusBusy := False\<rparr>) n)
           else
             lin_callback soc (on_st (\<lambda>s. s\<lparr>currentEventId := LIN_PID_ERROR, isBusBusy := False,
                                          currentNodeState := LIN_NODE_STATE_IDLE\<rparr>) n)
         else do {
           let n = on_st (\<lambda>s. s\<lparr>currentId := LIN_ProcessParity tmpByte CHECK_PARITY, currentPid := tmpByte\<rparr>) n;
           if currentId (n_st n) \<noteq> 0xFF then
             lin_callback soc (on_st (\<lambda>s. s\<lparr>currentEventId := LIN_PID_OK, isBusBusy := False\<rparr>) n)
           else do {
             n \<leftarrow> lin_callback soc (on_st (\<lambda>s. s\<lparr>currentEventId := LIN_PID_ERROR\<rparr>) n);
             let n = on_st (\<lambda>s. s\<lparr>isBusBusy := False\<rparr>) n;
             (_, n) \<leftarrow> LIN_LPUART_GotoIdleState soc n;
             Some n
           }
         }
       }
     | _ \<Rightarrow> Some n
   }"

definition LIN_LPUART_ProcessReceiveFrameData :: "'d lin_soc \<Rightarrow> u8 \<Rightarrow> 'd lin_node \<Rightarrow> 'd lin_node option" where
  "LIN_LPUART_ProcessReceiveFrameData soc tmpByte n = do {
     c_assert (n_stptr n);
     let n = (if (ucast (cntByte (n_st n)) + 1 :: u32) < ucast (rxSize (n_st n)) then
                on_st (\<lambda>s. s\<lparr>rxBuff := rxBuff s + 1\<rparr>) (n\<lparr>n_ram := (n_ram n)(rxBuff (n_st n) := tmpByte)\<rparr>)
              else on_st (\<lambda>s. s\<lparr>checkSum := tmpByte\<rparr>) n);
     let n = on_st (\<lambda>s. s\<lparr>cntByte := cntByte s + 1\<rparr>) n;
     if cntByte (n_st n) = rxSize (n_st n) then do {
       let n = on_st (\<lambda>s. s\<lparr>rxBuff := rxBuff s - (ucast (rxSize s) - 1),
                            currentNodeState := LIN_NODE_STATE_RECV_DATA_COMPLETED\<rparr>) n;
       c \<leftarrow> LIN_MakeChecksumByte (n_ram n) (rxBuff (n_st n)) (rxSize (n_st n) - 1) (currentPid (n_st n));
       if c = checkSum (n_st n) then do {
         n \<leftarrow> lin_callback soc (on_st (\<lambda>s. s\<lparr>currentEventId := LIN_RX_COMPLETED\<rparr>) n);
         let n = (if isRxBlocking (n_st n) = True then on_st (\<lambda>s. s\<lparr>rxCompleted := True\<rparr>) n else n);
         let n = on_st (\<lambda>s. s\<lparr>isBusBusy := False, isRxBusy := False\<rparr>) n;
         if currentNodeState (n_st n) \<noteq> LIN_NODE_STATE_SLEEP_MODE then do {
           (_, n) \<leftarrow> LIN_LPUART_GotoIdleState soc n;
           Some n
         } else Some n
       } else do {
         n \<leftarrow> lin_callback soc (on_st (\<lambda>s. s\<lparr>currentEventId := LIN_CHECKSUM_ERROR\<rparr>) n);
         let n = on_st (\<lambda>s. s\<lparr>isBusBusy := False, isRxBusy := False\<rparr>) n;
         (_, n) \<leftarrow> LIN_LPUART_GotoIdleState soc n;
         Some n
       }
     } else Some n
   }"

text \<open>The error exit of \<open>LIN_LPUART_ProcessSendFrameData\<close>, which the source has twice.\<close>

definition lin_readback_error :: "'d lin_soc \<Rightarrow> 'd lin_node \<Rightarrow> 'd lin_node option" where
  "lin_readback_error soc n = do {
     n \<leftarrow> lin_callback soc (on_st (\<lambda>s. s\<lparr>currentEventId := LIN_READBACK_ERROR\<rparr>) n);
     if isTxBlocking (n_st n) = False then do {
       let n = on_st (\<lambda>s. s\<lparr>isBusBusy := False, isTxBusy := False\<rparr>) n;
       (_, n) \<leftarrow> LIN_LPUART_GotoIdleState soc n;
       Some n
     } else Some n
   }"

definition LIN_LPUART_ProcessSendFrameData :: "'d lin_soc \<Rightarrow> u8 \<Rightarrow> 'd lin_node \<Rightarrow> 'd lin_node option" where
  "LIN_LPUART_ProcessSendFrameData soc tmpByte n = do {
     c_assert (n_stptr n);
     let (flags, d) = LIN_LPUART_GetStatusFlags soc (n_dev n);
     let n = n\<lparr>n_dev := d\<rparr>;
     (sendFlag, n) \<leftarrow>
       (if 0 = flags AND kLPUART_TxDataRegEmptyFlag soc then do {
          n \<leftarrow> lin_readback_error soc n;
          Some (False, n)
        } else do {
          let tmpSize = txSize (n_st n) - cntByte (n_st n);
          let tmpCheckSumAndSize = (tmpSize = 1 \<and> checkSum (n_st n) \<noteq> tmpByte);
          let tmpBuffAndSize = (n_ram n (txBuff (n_st n)) \<noteq> tmpByte \<and> tmpSize \<noteq> 1);
          if tmpBuffAndSize \<or> tmpCheckSumAndSize then do {
            n \<leftarrow> lin_readback_error soc n;
            Some (False, n)
          } else
            Some (True, on_st (\<lambda>s. s\<lparr>txBuff := txBuff s + 1, cntByte := cntByte s + 1\<rparr>) n)
        });
     if sendFlag = True then
       if cntByte (n_st n) < txSize (n_st n) then
         if (ucast (txSize (n_st n)) - ucast (cntByte (n_st n)) :: u32) = 1 then
           Some (on_dev (LIN_LPUART_WriteByte soc (checkSum (n_st n))) n)
         else Some (on_dev (LIN_LPUART_WriteByte soc (n_ram n (txBuff (n_st n)))) n)
       else do {
         let n = on_st (\<lambda>s. s\<lparr>currentEventId := LIN_TX_COMPLETED,
                              currentNodeState := LIN_NODE_STATE_SEND_DATA_COMPLETED\<rparr>) n;
         let n = on_dev (LIN_LPUART_DisableInterrupts soc (kLPUART_RxDataRegFullFlag soc)) n;
         n \<leftarrow> lin_callback soc n;
         let n = (if isTxBlocking (n_st n) = True then on_st (\<lambda>s. s\<lparr>txCompleted := True\<rparr>) n else n);
         let n = on_st (\<lambda>s. s\<lparr>isBusBusy := False, isTxBusy := False\<rparr>) n;
         (_, n) \<leftarrow> LIN_LPUART_GotoIdleState soc n;
         Some n
       }
     else Some n
   }"

definition LIN_LPUART_ProcessFrame :: "'d lin_soc \<Rightarrow> u8 \<Rightarrow> 'd lin_node \<Rightarrow> 'd lin_node option" where
  "LIN_LPUART_ProcessFrame soc tmpByte n = do {
     c_assert (n_stptr n);
     case currentNodeState (n_st n) of
       LIN_NODE_STATE_RECV_SYNC \<Rightarrow> LIN_LPUART_ProcessFrameHeader soc tmpByte n
     | LIN_NODE_STATE_SEND_PID \<Rightarrow> LIN_LPUART_ProcessFrameHeader soc tmpByte n
     | LIN_NODE_STATE_RECV_PID \<Rightarrow> LIN_LPUART_ProcessFrameHeader soc tmpByte n
     | LIN_NODE_STATE_RECV_DATA \<Rightarrow> LIN_LPUART_ProcessReceiveFrameData soc tmpByte n
     | LIN_NODE_STATE_SEND_DATA \<Rightarrow> LIN_LPUART_ProcessSendFrameData soc tmpByte n
     | _ \<Rightarrow> Some n
   }"

subsection \<open>Initialisation\<close>

text \<open>
  \<open>LIN_LPUART_Init\<close> in three parts: the reset of the registers, the set-up once the baud rate is
  found, and the fields of the state structure. The structures are the caller's; the node does
  not point to them yet.
\<close>

definition lin_reset_dev :: "'d lin_soc \<Rightarrow> 'd \<Rightarrow> 'd" where
  "lin_reset_dev soc d =
     (let d = (if lfeature soc LPUART_CLOCK_CONTROL then
                 let d = lin_EnableClock soc False d
                 in if lfeature soc LPUART_PERIPH_CLOCKS then lin_EnableClock soc True d else d
               else d);
          d = reg_write soc L_CTRL 0 d;
          d = reg_write soc L_MATCH 0 d;
          d = (if lfeature soc LPUART_HAS_MODEM_SUPPORT then reg_write soc L_MODIR 0 d else d)
      in if lfeature soc LPUART_FIFO_SIZE then
           let d = reg_write soc L_FIFO (lmask soc FIFO_RXUF OR lmask soc FIFO_TXOF) d
           in reg_write soc L_WATER 0 d
         else d)"

definition lin_setup_dev :: "'d lin_soc \<Rightarrow> bool \<Rightarrow> u32 \<Rightarrow> u16 \<Rightarrow> 'd \<Rightarrow> 'd" where
  "lin_setup_dev soc master osrValue sbrValue d =
     (let d = LIN_LPUART_SetBaudRate soc osrValue sbrValue d;
          d = LIN_LPUART_SetBitCountPerChar soc d;
          d = reg_clear soc L_CTRL (lmask soc CTRL_PE) d;
          d = reg_clear soc L_CTRL (lmask soc CTRL_PT) d;
          (v, d) = reg_read soc L_BAUD d;
          temp = v AND NOT (lmask soc BAUD_SBNS);
          d = reg_write soc L_BAUD (temp OR lfield soc F_BAUD_SBNS 0) d;
          d = (if master = LIN_MASTER then reg_set soc L_STAT (lmask soc STAT_BRK13) d else d);
          d = lin_irqs soc (lin_DisableIRQ soc) d;
          d = (if lfeature soc LPUART_HAS_LIN_BREAK_DETECT then
                 LIN_LPUART_EnableInterrupts soc (kLPUART_LinBreakInterruptEnable soc)
                   (reg_set soc L_STAT (lmask soc STAT_LBKDE) d)
               else d);
          d = LIN_LPUART_EnableInterrupts soc
                (kLPUART_FramingErrorInterruptEnable soc OR kLPUART_RxDataRegFullInterruptEnable soc) d
      in lin_irqs soc (lin_EnableIRQ soc) d)"

definition lin_init_state :: "u32 \<Rightarrow> lin_state \<Rightarrow> lin_state" where
  "lin_init_state freq st =
     st\<lparr>currentNodeState := LIN_NODE_STATE_IDLE, linSourceClockFreq := freq, isTxBusy := False,
        isRxBusy := False, isBusBusy := False, isRxBlocking := False, isTxBlocking := False,
        timeoutCounterFlag := False, timeoutCounter := 0, txCompleted := False, rxCompleted := False,
        frame_index := 0\<rparr>"

definition LIN_LPUART_Init ::
    "'d lin_soc \<Rightarrow> lin_user_config \<Rightarrow> lin_state \<Rightarrow> u32 \<Rightarrow> 'd lin_node \<Rightarrow>
     (lin_status \<times> lin_user_config \<times> lin_state \<times> 'd lin_node) option" where
  "LIN_LPUART_Init soc cfg st freq n = do {
     c_assert (0 \<noteq> baudRate cfg);
     if freq = 0 then Some (LIN_LPUART_STAT_CLOCK_GATED_OFF, cfg, st, n)
     else do {
       let auto = (autobaudEnable cfg \<and> nodeFunction cfg = LIN_SLAVE);
       let (cfg, st, n) =
         (if auto then
            (cfg\<lparr>baudRate := 19200\<rparr>, st\<lparr>fallingEdgeInterruptCount := 0, baudrateEvalEnable := True\<rparr>,
             n\<lparr>s_previousTwoBitTimeLength := 0, s_countMeasure := 0, s_timeMeasure := 0\<rparr>)
          else (cfg, st, n));
       let n = on_dev (lin_reset_dev soc) n;
       (status, osrValue, sbrValue) \<leftarrow> LIN_LPUART_CalculateBaudRate (baudRate cfg) freq (0, 0);
       if status = kStatus_Success then do {
         let n = on_dev (lin_setup_dev soc (nodeFunction cfg) osrValue sbrValue) n;
         let st = lin_init_state freq st;
         let n = n\<lparr>s_wakeupSignal := lin_wakeup_for (baudRate cfg)\<rparr>;
         let n = (if \<not> auto then on_dev (reg_set soc L_CTRL (lmask soc CTRL_TE OR lmask soc CTRL_RE)) n else n);
         Some (LIN_SUCCESS, cfg, st, n)
       } else Some (LIN_ERROR, cfg, st, n)
     }
   }"

text \<open>
  The wait for transmission complete in \<open>LIN_LPUART_Deinit\<close>. With the timeout macro at 0 the loop
  has no bound: \<open>None\<close> is then a device that never reports completion. Otherwise the flag tells
  whether the device completed within the count.
\<close>

partial_function (option) lin_wait_tc :: "'d lin_soc \<Rightarrow> u32 \<Rightarrow> 'd \<Rightarrow> (bool \<times> 'd) option" where
  "lin_wait_tc soc waitTimes d =
     (let (flags, d) = LIN_LPUART_GetStatusFlags soc d
      in if 0 = flags AND kLPUART_TransmissionCompleteFlag soc then
           if TRANSMISSION_COMPLETE_TIMEOUT soc \<noteq> 0 then
             let waitTimes = waitTimes - 1
             in if waitTimes = 0 then Some (False, d) else lin_wait_tc soc waitTimes d
           else lin_wait_tc soc waitTimes d
         else Some (True, d))"

definition LIN_LPUART_Deinit :: "'d lin_soc \<Rightarrow> 'd lin_node \<Rightarrow> (lin_status \<times> 'd lin_node) option" where
  "LIN_LPUART_Deinit soc n =
     (if \<not> n_stptr n then Some (LIN_ERROR, n)
      else do {
        (completed, d) \<leftarrow> lin_wait_tc soc (TRANSMISSION_COMPLETE_TIMEOUT soc) (n_dev n);
        let n = n\<lparr>n_dev := d\<rparr>;
        if \<not> completed then Some (LIN_ERROR, n)
        else do {
          let n = on_dev (reg_clear soc L_CTRL (lmask soc CTRL_TE OR lmask soc CTRL_RE)) n;
          let n = on_dev (lin_irqs soc (lin_DisableIRQ soc)) n;
          let n = (if lfeature soc LPUART_CLOCK_CONTROL then
                     let n = on_dev (lin_DisableClock soc False) n
                     in if lfeature soc LPUART_PERIPH_CLOCKS then on_dev (lin_DisableClock soc True) n else n
                   else n);
          let n = on_st (\<lambda>s. s\<lparr>currentNodeState := LIN_NODE_STATE_UNINIT\<rparr>) n;
          Some (LIN_SUCCESS, n\<lparr>n_stptr := False\<rparr>)
        }
      })"

subsection \<open>Transfers\<close>

text \<open>\<open>LIN_SetTimeoutCounter\<close> of \<open>fsl_lin.c\<close> on a supported instance.\<close>

definition lin_set_timeout :: "u32 \<Rightarrow> 'd lin_node \<Rightarrow> 'd lin_node option" where
  "lin_set_timeout timeoutValue n = do {
     c_assert (n_stptr n);
     Some (on_st (\<lambda>s. s\<lparr>timeoutCounterFlag := False, timeoutCounter := timeoutValue\<rparr>) n)
   }"

definition lin_clear_lbkde :: "'d lin_soc \<Rightarrow> 'd lin_node \<Rightarrow> 'd lin_node" where
  "lin_clear_lbkde soc n =
     (if lfeature soc LPUART_HAS_LIN_BREAK_DETECT
      then on_dev (reg_clear soc L_STAT (lmask soc STAT_LBKDE)) n else n)"

definition LIN_LPUART_SendFrameDataBlocking ::
    "'d lin_soc \<Rightarrow> u32 \<Rightarrow> u8 \<Rightarrow> u32 \<Rightarrow> 'd lin_node \<Rightarrow> (lin_status \<times> 'd lin_node) option" where
  "LIN_LPUART_SendFrameDataBlocking soc buff sz timeoutMSec n = do {
     c_assert (buff \<noteq> 0);
     c_assert (n_stptr n);
     let checkSleepMode = (LIN_NODE_STATE_SLEEP_MODE = currentNodeState (n_st n));
     if 8 < sz \<or> 0 = sz \<or> checkSleepMode then Some (LIN_ERROR, n)
     else if isBusBusy (n_st n) then Some (LIN_BUS_BUSY, n)
     else do {
       c \<leftarrow> LIN_MakeChecksumByte (n_ram n) buff sz (currentPid (n_st n));
       let n = on_st (\<lambda>s. s\<lparr>checkSum := c, txBuff := buff, txSize := sz + 1, cntByte := 0,
                            currentEventId := LIN_NO_EVENT, isBusBusy := True, isTxBusy := True,
                            isTxBlocking := True, txCompleted := False\<rparr>) n;
       let n = lin_clear_lbkde soc n;
       n \<leftarrow> lin_set_timeout timeoutMSec n;
       let n = on_st (\<lambda>s. s\<lparr>currentNodeState := LIN_NODE_STATE_SEND_DATA\<rparr>) n;
       Some (LIN_SUCCESS, on_dev (LIN_LPUART_WriteByte soc (n_ram n (txBuff (n_st n)))) n)
     }
   }"

definition LIN_LPUART_SendFrameData ::
    "'d lin_soc \<Rightarrow> u32 \<Rightarrow> u8 \<Rightarrow> 'd lin_node \<Rightarrow> (lin_status \<times> 'd lin_node) option" where
  "LIN_LPUART_SendFrameData soc buff sz n = do {
     c_assert (buff \<noteq> 0);
     c_assert (n_stptr n);
     let checkSleepMode = (LIN_NODE_STATE_SLEEP_MODE = currentNodeState (n_st n));
     if 8 < sz \<or> 0 = sz \<or> checkSleepMode then Some (LIN_ERROR, n)
     else if isBusBusy (n_st n) then Some (LIN_BUS_BUSY, n)
     else do {
       c \<leftarrow> LIN_MakeChecksumByte (n_ram n) buff sz (currentPid (n_st n));
       let n = on_st (\<lambda>s. s\<lparr>checkSum := c, txBuff := buff, txSize := sz + 1, cntByte := 0,
                            currentNodeState := LIN_NODE_STATE_SEND_DATA, currentEventId := LIN_NO_EVENT,
                            isBusBusy := True, isTxBusy := True\<rparr>) n;
       let n = lin_clear_lbkde soc n;
       Some (LIN_SUCCESS, on_dev (LIN_LPUART_WriteByte soc (n_ram n (txBuff (n_st n)))) n)
     }
   }"

definition LIN_LPUART_GetTransmitStatus :: "'d lin_soc \<Rightarrow> 'd lin_node \<Rightarrow> (lin_status \<times> u8) option" where
  "LIN_LPUART_GetTransmitStatus soc n = do {
     c_assert (n_stptr n);
     let bytesRemaining = txSize (n_st n) - cntByte (n_st n);
     Some (if currentEventId (n_st n) = LIN_NO_EVENT then
             if bytesRemaining \<noteq> 0 then
               if timeoutCounterFlag (n_st n) = False then LIN_TX_BUSY else LIN_TIMEOUT
             else LIN_SUCCESS
           else if \<not> lfeature soc LIN_STACK_ENABLE \<and> currentEventId (n_st n) = LIN_TIMEOUT_ERROR then LIN_TIMEOUT
           else LIN_SUCCESS, bytesRemaining)
   }"

definition LIN_LPUART_RecvFrmDataBlocking ::
    "'d lin_soc \<Rightarrow> u32 \<Rightarrow> u8 \<Rightarrow> u32 \<Rightarrow> 'd lin_node \<Rightarrow> (lin_status \<times> 'd lin_node) option" where
  "LIN_LPUART_RecvFrmDataBlocking soc buff sz timeoutMSec n = do {
     c_assert (buff \<noteq> 0);
     c_assert (n_stptr n);
     let checkSleepMode = (LIN_NODE_STATE_SLEEP_MODE = currentNodeState (n_st n));
     if 8 < sz \<or> 0 = sz \<or> checkSleepMode then Some (LIN_ERROR, n)
     else if isBusBusy (n_st n) then Some (LIN_BUS_BUSY, n)
     else do {
       let n = on_st (\<lambda>s. s\<lparr>rxBuff := buff, rxSize := sz + 1, cntByte := 0,
                            currentNodeState := LIN_NODE_STATE_RECV_DATA, currentEventId := LIN_NO_EVENT,
                            isBusBusy := True, isRxBusy := True, isRxBlocking := True,
                            rxCompleted := False\<rparr>) n;
       let n = lin_clear_lbkde soc n;
       n \<leftarrow> lin_set_timeout timeoutMSec n;
       Some (LIN_SUCCESS, n)
     }
   }"

definition LIN_LPUART_RecvFrmData ::
    "'d lin_soc \<Rightarrow> u32 \<Rightarrow> u8 \<Rightarrow> 'd lin_node \<Rightarrow> (lin_status \<times> 'd lin_node) option" where
  "LIN_LPUART_RecvFrmData soc buff sz n = do {
     c_assert (buff \<noteq> 0);
     c_assert (n_stptr n);
     let checkSleepMode = (LIN_NODE_STATE_SLEEP_MODE = currentNodeState (n_st n));
     if 8 < sz \<or> 0 = sz \<or> checkSleepMode then Some (LIN_ERROR, n)
     else if isBusBusy (n_st n) then Some (LIN_BUS_BUSY, n)
     else do {
       let n = on_st (\<lambda>s. s\<lparr>rxBuff := buff, rxSize := sz + 1, cntByte := 0,
                            currentNodeState := LIN_NODE_STATE_RECV_DATA, currentEventId := LIN_NO_EVENT,
                            isBusBusy := True, isRxBusy := True, isRxBlocking := False\<rparr>) n;
       Some (LIN_SUCCESS, lin_clear_lbkde soc n)
     }
   }"

definition LIN_LPUART_AbortTransferData :: "'d lin_soc \<Rightarrow> 'd lin_node \<Rightarrow> (lin_status \<times> 'd lin_node) option" where
  "LIN_LPUART_AbortTransferData soc n = do {
     c_assert (n_stptr n);
     if isBusBusy (n_st n) then do {
       (_, n) \<leftarrow> LIN_LPUART_GotoIdleState soc n;
       Some (LIN_SUCCESS, on_st (\<lambda>s. s\<lparr>isTxBusy := False, isRxBusy := False, isBusBusy := False\<rparr>) n)
     } else Some (LIN_SUCCESS, n)
   }"

definition LIN_LPUART_GetReceiveStatus :: "'d lin_soc \<Rightarrow> 'd lin_node \<Rightarrow> (lin_status \<times> u8) option" where
  "LIN_LPUART_GetReceiveStatus soc n = do {
     c_assert (n_stptr n);
     let bytesRemaining = rxSize (n_st n) - cntByte (n_st n);
     Some (if currentEventId (n_st n) = LIN_NO_EVENT then
             if bytesRemaining \<noteq> 0 then
               if timeoutCounterFlag (n_st n) = False then LIN_RX_BUSY else LIN_TIMEOUT
             else LIN_SUCCESS
           else if \<not> lfeature soc LIN_STACK_ENABLE \<and> currentEventId (n_st n) = LIN_TIMEOUT_ERROR then LIN_TIMEOUT
           else LIN_SUCCESS, bytesRemaining)
   }"

definition LIN_LPUART_SendWakeupSignal :: "'d lin_soc \<Rightarrow> 'd lin_node \<Rightarrow> (lin_status \<times> 'd lin_node) option" where
  "LIN_LPUART_SendWakeupSignal soc n = do {
     c_assert (n_stptr n);
     if isBusBusy (n_st n) = False
     then Some (LIN_SUCCESS, on_dev (LIN_LPUART_WriteByte soc (s_wakeupSignal n)) n)
     else Some (LIN_BUS_BUSY, n)
   }"

definition LIN_LPUART_MasterSendHeader ::
    "'d lin_soc \<Rightarrow> u8 \<Rightarrow> 'd lin_node \<Rightarrow> (lin_status \<times> 'd lin_node) option" where
  "LIN_LPUART_MasterSendHeader soc ident n = do {
     c_assert (n_stptr n);
     c_assert (n_cfgptr n);
     let checkSleepMode = (LIN_NODE_STATE_SLEEP_MODE = currentNodeState (n_st n));
     if nodeFunction (n_cfg n) = LIN_SLAVE \<or> 0x3F < ident \<or> checkSleepMode then Some (LIN_ERROR, n)
     else if isBusBusy (n_st n) then Some (LIN_BUS_BUSY, n)
     else do {
       let n = on_st (\<lambda>s. s\<lparr>currentId := ident, currentPid := LIN_ProcessParity ident MAKE_PARITY,
                            currentNodeState := LIN_NODE_STATE_SEND_BREAK_FIELD,
                            currentEventId := LIN_NO_EVENT, isBusBusy := True\<rparr>) n;
       let n = (if lfeature soc LPUART_HAS_LIN_BREAK_DETECT then
                  on_dev (\<lambda>d. LIN_LPUART_EnableInterrupts soc (kLPUART_LinBreakInterruptEnable soc)
                                (reg_set soc L_STAT (lmask soc STAT_LBKDE) d)) n
                else n);
       Some (LIN_SUCCESS, on_dev (\<lambda>d. snd (LIN_LPUART_QueueBreakChar soc d)) n)
     }
   }"

definition LIN_LPUART_EnableIRQ :: "'d lin_soc \<Rightarrow> 'd lin_node \<Rightarrow> (lin_status \<times> 'd lin_node) option" where
  "LIN_LPUART_EnableIRQ soc n = do {
     c_assert (n_stptr n);
     let n = (if lfeature soc LPUART_RX_TX_IRQS then on_dev (lin_DisableIRQ soc RxTxIrq) n else n);
     let n = (if currentNodeState (n_st n) = LIN_NODE_STATE_SLEEP_MODE then
                on_dev (LIN_LPUART_EnableInterrupts soc (kLPUART_RxActiveEdgeInterruptEnable soc)) n
              else
                let n = (if lfeature soc LPUART_HAS_LIN_BREAK_DETECT then
                           on_dev (LIN_LPUART_EnableInterrupts soc (kLPUART_LinBreakInterruptEnable soc)) n
                         else n)
                in on_dev (LIN_LPUART_EnableInterrupts soc
                     (kLPUART_RxDataRegFullInterruptEnable soc OR kLPUART_FramingErrorInterruptEnable soc)) n);
     Some (LIN_SUCCESS, on_dev (lin_irqs soc (lin_EnableIRQ soc)) n)
   }"

definition LIN_LPUART_DisableIRQ :: "'d lin_soc \<Rightarrow> 'd lin_node \<Rightarrow> (lin_status \<times> 'd lin_node) option" where
  "LIN_LPUART_DisableIRQ soc n = do {
     c_assert (n_stptr n);
     let n = (if currentNodeState (n_st n) = LIN_NODE_STATE_SLEEP_MODE then
                on_dev (LIN_LPUART_DisableInterrupts soc (kLPUART_RxActiveEdgeInterruptEnable soc)) n
              else
                let n = (if lfeature soc LPUART_HAS_LIN_BREAK_DETECT then
                           on_dev (LIN_LPUART_DisableInterrupts soc (kLPUART_LinBreakInterruptEnable soc)) n
                         else n)
                in on_dev (LIN_LPUART_DisableInterrupts soc
                     (kLPUART_RxDataRegFullInterruptEnable soc OR kLPUART_FramingErrorInterruptEnable soc)) n);
     Some (LIN_SUCCESS, on_dev (lin_irqs soc (lin_DisableIRQ soc)) n)
   }"

subsection \<open>Autobaud capture and the interrupt handler\<close>

definition lin_capture_sleep :: "'d lin_soc \<Rightarrow> u32 \<Rightarrow> 'd lin_node \<Rightarrow> (lin_status \<times> 'd lin_node) option" where
  "lin_capture_sleep soc tmpTime n = do {
     (retVal, n) \<leftarrow>
       (if 150000 \<le> tmpTime \<and> tmpTime \<le> 5000000 then do {
          n \<leftarrow> lin_callback soc (on_st (\<lambda>s. s\<lparr>currentEventId := LIN_WAKEUP_SIGNAL\<rparr>) n);
          (_, n) \<leftarrow> LIN_LPUART_GotoIdleState soc n;
          Some (LIN_BUS_BUSY, n)
        } else Some (LIN_ERROR, n));
     Some (retVal, n\<lparr>s_countMeasure := 0\<rparr>)
   }"

definition lin_capture_idle :: "'d lin_soc \<Rightarrow> u32 \<Rightarrow> 'd lin_node \<Rightarrow> (lin_status \<times> 'd lin_node) option" where
  "lin_capture_idle soc tmpTime n =
     (if AUTOBAUD_BREAK_TIME_MIN \<le> tmpTime then do {
        let n = (if lfeature soc LPUART_HAS_LIN_BREAK_DETECT then
                   on_dev (\<lambda>d. LIN_LPUART_DisableInterrupts soc (kLPUART_LinBreakInterruptEnable soc)
                                 (reg_clear soc L_STAT (lmask soc STAT_LBKDE) d)) n
                 else n);
        let n = on_st (\<lambda>s. s\<lparr>isBusBusy := True, currentEventId := LIN_RECV_BREAK_FIELD_OK\<rparr>) n;
        n \<leftarrow> lin_callback soc n;
        let n = on_st (\<lambda>s. s\<lparr>currentNodeState := LIN_NODE_STATE_RECV_SYNC, fallingEdgeInterruptCount := 0\<rparr>) n;
        Some (LIN_BUS_BUSY, n\<lparr>s_countMeasure := 1\<rparr>)
      } else Some (LIN_ERROR, n\<lparr>s_countMeasure := 0\<rparr>))"

definition lin_capture_sync :: "'d lin_soc \<Rightarrow> 'd lin_node \<Rightarrow> (lin_status \<times> 'd lin_node) option" where
  "lin_capture_sync soc n = do {
     n \<leftarrow> LIN_LPUART_AutobaudTimerValEval soc (s_timeMeasure n) n;
     let n = n\<lparr>s_countMeasure := 0, s_timeMeasure := 0\<rparr>;
     Some (if currentNodeState (n_st n) = LIN_NODE_STATE_IDLE then LIN_ERROR else LIN_BUS_BUSY, n)
   }"

definition LIN_LPUART_AutoBaudCapture :: "'d lin_soc \<Rightarrow> 'd lin_node \<Rightarrow> (lin_status \<times> 'd lin_node) option" where
  "LIN_LPUART_AutoBaudCapture soc n = do {
     c_assert (n_stptr n);
     if baudrateEvalEnable (n_st n) then do {
       (tmpTime, n) \<leftarrow> lin_timer soc n;
       if 0xFFFFFFFF - tmpTime < s_timeMeasure n then Some (LIN_ERROR, n)
       else do {
         let n = n\<lparr>s_timeMeasure := s_timeMeasure n + tmpTime, s_countMeasure := s_countMeasure n + 1\<rparr>;
         if 1 < s_countMeasure n then
           case currentNodeState (n_st n) of
             LIN_NODE_STATE_SLEEP_MODE \<Rightarrow> lin_capture_sleep soc tmpTime n
           | LIN_NODE_STATE_IDLE \<Rightarrow> lin_capture_idle soc tmpTime n
           | _ \<Rightarrow> lin_capture_sync soc n
         else Some (LIN_BUS_BUSY, n)
       }
     } else do {
       let n = (if 4 < fallingEdgeInterruptCount (n_st n) then
                  on_st (\<lambda>s. s\<lparr>fallingEdgeInterruptCount := 0\<rparr>)
                    (on_dev (reg_set soc L_CTRL (lmask soc CTRL_TE OR lmask soc CTRL_RE)) n)
                else n);
       Some (LIN_SUCCESS, n)
     }
   }"

text \<open>The branch of the interrupt handler for a framing error.\<close>

definition lin_framing_error :: "'d lin_soc \<Rightarrow> 'd lin_node \<Rightarrow> 'd lin_node option" where
  "lin_framing_error soc n = do {
     let n = on_dev (\<lambda>d. snd (LIN_LPUART_ClearStatusFlags soc (kLPUART_FramingErrorFlag soc) d)) n;
     let n = on_dev (\<lambda>d. snd (LIN_LPUART_ReadByte soc d)) n;
     let n = on_st (\<lambda>s. s\<lparr>currentEventId := LIN_FRAME_ERROR\<rparr>) n;
     n \<leftarrow> (if currentNodeState (n_st n) = LIN_NODE_STATE_SEND_DATA then lin_callback soc n else Some n);
     n \<leftarrow> (if isRxBlocking (n_st n) = False \<and> currentNodeState (n_st n) = LIN_NODE_STATE_RECV_DATA
           then lin_callback soc n else Some n);
     let n = on_st (\<lambda>s. s\<lparr>isBusBusy := False\<rparr>) n;
     (_, n) \<leftarrow> LIN_LPUART_GotoIdleState soc n;
     Some n
   }"

text \<open>\<open>LIN_LPUART_GetStatusFlags(base) & k\<close> on a node.\<close>

definition lin_flags :: "'d lin_soc \<Rightarrow> u32 \<Rightarrow> 'd lin_node \<Rightarrow> u32 \<times> 'd lin_node" where
  "lin_flags soc k n = (let (flags, d) = LIN_LPUART_GetStatusFlags soc (n_dev n) in (flags AND k, n\<lparr>n_dev := d\<rparr>))"

definition LIN_LPUART_IRQHandler :: "'d lin_soc \<Rightarrow> 'd lin_node \<Rightarrow> 'd lin_node option" where
  "LIN_LPUART_IRQHandler soc n = do {
     let (baud, d) = reg_read soc L_BAUD (n_dev n);
     let n = n\<lparr>n_dev := d\<rparr>;
     let activeEdgeIntState = (baud AND push_bit (RXEDGIE_SHIFT soc) 1 \<noteq> 0);
     let (brk, n) = lin_flags soc (kLPUART_LinBreakFlag soc) n;
     n \<leftarrow> (if brk \<noteq> 0 then LIN_LPUART_ProcessBreakDetect soc n
           else
             let (edge, n) = lin_flags soc (kLPUART_RxActiveEdgeFlag soc) n
             in if kLPUART_RxActiveEdgeFlag soc = edge \<and> activeEdgeIntState then do {
                  let n = on_dev (\<lambda>d. snd (LIN_LPUART_ClearStatusFlags soc (kLPUART_RxActiveEdgeFlag soc) d)) n;
                  c_assert (n_stptr n);
                  if currentNodeState (n_st n) = LIN_NODE_STATE_SLEEP_MODE
                  then LIN_LPUART_CheckWakeupSignal soc n else Some n
                } else
                  let (fe, n) = lin_flags soc (kLPUART_FramingErrorFlag soc) n
                  in if fe \<noteq> 0 then do {
                       c_assert (n_stptr n);
                       lin_framing_error soc n
                     } else
                       let (rdrf, n) = lin_flags soc (kLPUART_RxDataRegFullFlag soc) n
                       in if rdrf \<noteq> 0 then
                            let n = on_dev (\<lambda>d. snd (LIN_LPUART_ClearStatusFlags soc (kLPUART_RxDataRegFullFlag soc) d)) n;
                                (tmpByte, d) = LIN_LPUART_ReadByte soc (n_dev n)
                            in LIN_LPUART_ProcessFrame soc tmpByte (n\<lparr>n_dev := d\<rparr>)
                          else Some n);
     let (ovr, n) = lin_flags soc (kLPUART_RxOverrunFlag soc) n;
     Some (if kLPUART_RxOverrunFlag soc = ovr
           then on_dev (\<lambda>d. snd (LIN_LPUART_ClearStatusFlags soc (kLPUART_RxOverrunFlag soc) d)) n
           else n)
   }"

end
