(* ===== verification/Lin.thy ===== *)
theory Lin
  imports Lin_Lpuart
begin

text \<open>
  \<open>drivers/lin/fsl_lin.c\<close>: the instance-numbered interface of the LIN driver. Its state is one
  node per LPUART instance (\<open>g_linStatePtr\<close>, \<open>g_linUserconfigPtr\<close>); \<open>count\<close> is
  \<open>FSL_FEATURE_SOC_LPUART_COUNT\<close>. A call on an instance that does not exist changes nothing.
\<close>

type_synonym 'd lin_sys = "u32 \<Rightarrow> 'd lin_node"

text \<open>
  The shape shared by the functions: check the instance number, call the lower level on its node.
\<close>

definition lin_dispatch ::
    "u32 \<Rightarrow> ('d lin_node \<Rightarrow> (lin_status \<times> 'd lin_node) option) \<Rightarrow> u32 \<Rightarrow> 'd lin_sys \<Rightarrow>
     (lin_status \<times> 'd lin_sys) option" where
  "lin_dispatch count f inst sys =
     (if inst < count then do {
        (retVal, n) \<leftarrow> f (sys inst);
        Some (retVal, sys(inst := n))
      } else Some (LIN_IFC_NOT_SUPPORT, sys))"

definition lin_query ::
    "u32 \<Rightarrow> ('d lin_node \<Rightarrow> (lin_status \<times> u8) option) \<Rightarrow> u32 \<Rightarrow> 'd lin_sys \<Rightarrow> u8 \<Rightarrow>
     (lin_status \<times> u8) option" where
  "lin_query count f inst sys bytesRemaining =
     (if inst < count then f (sys inst) else Some (LIN_IFC_NOT_SUPPORT, bytesRemaining))"

subsection \<open>Configuration\<close>

definition LIN_GetSlaveDefaultConfig :: lin_user_config where
  "LIN_GetSlaveDefaultConfig =
     \<lparr>hardware_instance = 0, baudRate = 19200, nodeFunction = LIN_SLAVE, autobaudEnable = True,
      timerGetTimeIntervalCallback = None\<rparr>"

definition LIN_GetMasterDefaultConfig :: lin_user_config where
  "LIN_GetMasterDefaultConfig =
     \<lparr>hardware_instance = 0, baudRate = 19200, nodeFunction = LIN_MASTER, autobaudEnable = False,
      timerGetTimeIntervalCallback = None\<rparr>"

definition LIN_CalculateBaudrate :: "u32 \<Rightarrow> u32 \<Rightarrow> u32 \<Rightarrow> u32 \<Rightarrow> u32 \<times> u16 \<Rightarrow> (u32 \<times> u16) option" where
  "LIN_CalculateBaudrate count inst baudRate_Bps srcClock_Hz os =
     (if inst < count then do {
        (_, os) \<leftarrow> LIN_LPUART_CalculateBaudRate baudRate_Bps srcClock_Hz os;
        Some os
      } else Some os)"

definition LIN_SetBaudrate :: "u32 \<Rightarrow> 'd lin_soc \<Rightarrow> u32 \<Rightarrow> u32 \<Rightarrow> u16 \<Rightarrow> 'd lin_sys \<Rightarrow> 'd lin_sys" where
  "LIN_SetBaudrate count soc inst osr sbr sys =
     (if inst < count then sys(inst := on_dev (LIN_LPUART_SetBaudRate soc osr sbr) (sys inst)) else sys)"

definition LIN_Init ::
    "u32 \<Rightarrow> 'd lin_soc \<Rightarrow> u32 \<Rightarrow> lin_user_config \<Rightarrow> lin_state \<Rightarrow> u32 \<Rightarrow> 'd lin_sys \<Rightarrow>
     (lin_status \<times> 'd lin_sys) option" where
  "LIN_Init count soc inst linUserConfig linCurrentState clockSource =
     lin_dispatch count
       (\<lambda>n. do {
          (retVal, cfg, st, n) \<leftarrow> LIN_LPUART_Init soc linUserConfig linCurrentState clockSource n;
          let n = n\<lparr>n_stptr := True, n_st := st\<rparr>;
          Some (retVal, n\<lparr>n_cfgptr := True, n_cfg := cfg\<rparr>)
        }) inst"

definition LIN_Deinit :: "u32 \<Rightarrow> 'd lin_soc \<Rightarrow> u32 \<Rightarrow> 'd lin_sys \<Rightarrow> (lin_status \<times> 'd lin_sys) option" where
  "LIN_Deinit count soc =
     lin_dispatch count
       (\<lambda>n. do {
          (retVal, n) \<leftarrow> LIN_LPUART_Deinit soc n;
          Some (retVal, n\<lparr>n_stptr := False, n_cfgptr := False\<rparr>)
        })"

definition LIN_InstallCallback ::
    "u32 \<Rightarrow> u32 \<Rightarrow> nat option \<Rightarrow> 'd lin_sys \<Rightarrow> (nat option \<times> 'd lin_sys) option" where
  "LIN_InstallCallback count inst func sys =
     (if inst < count then do {
        c_assert (n_stptr (sys inst));
        let currentCallback = Callback (n_st (sys inst));
        Some (currentCallback, sys(inst := on_st (\<lambda>s. s\<lparr>Callback := func\<rparr>) (sys inst)))
      } else Some (None, sys))"

subsection \<open>Transfers\<close>

definition LIN_SendFrameDataBlocking ::
    "u32 \<Rightarrow> 'd lin_soc \<Rightarrow> u32 \<Rightarrow> u32 \<Rightarrow> u8 \<Rightarrow> u32 \<Rightarrow> 'd lin_sys \<Rightarrow> (lin_status \<times> 'd lin_sys) option" where
  "LIN_SendFrameDataBlocking count soc inst buff sz timeoutMSec =
     lin_dispatch count (LIN_LPUART_SendFrameDataBlocking soc buff sz timeoutMSec) inst"

definition LIN_SendFrameData ::
    "u32 \<Rightarrow> 'd lin_soc \<Rightarrow> u32 \<Rightarrow> u32 \<Rightarrow> u8 \<Rightarrow> 'd lin_sys \<Rightarrow> (lin_status \<times> 'd lin_sys) option" where
  "LIN_SendFrameData count soc inst buff sz = lin_dispatch count (LIN_LPUART_SendFrameData soc buff sz) inst"

definition LIN_GetTransmitStatus ::
    "u32 \<Rightarrow> 'd lin_soc \<Rightarrow> u32 \<Rightarrow> 'd lin_sys \<Rightarrow> u8 \<Rightarrow> (lin_status \<times> u8) option" where
  "LIN_GetTransmitStatus count soc inst = lin_query count (LIN_LPUART_GetTransmitStatus soc) inst"

definition LIN_ReceiveFrameDataBlocking ::
    "u32 \<Rightarrow> 'd lin_soc \<Rightarrow> u32 \<Rightarrow> u32 \<Rightarrow> u8 \<Rightarrow> u32 \<Rightarrow> 'd lin_sys \<Rightarrow> (lin_status \<times> 'd lin_sys) option" where
  "LIN_ReceiveFrameDataBlocking count soc inst buff sz timeoutMSec =
     lin_dispatch count (LIN_LPUART_RecvFrmDataBlocking soc buff sz timeoutMSec) inst"

definition LIN_ReceiveFrameData ::
    "u32 \<Rightarrow> 'd lin_soc \<Rightarrow> u32 \<Rightarrow> u32 \<Rightarrow> u8 \<Rightarrow> 'd lin_sys \<Rightarrow> (lin_status \<times> 'd lin_sys) option" where
  "LIN_ReceiveFrameData count soc inst buff sz = lin_dispatch count (LIN_LPUART_RecvFrmData soc buff sz) inst"

definition LIN_AbortTransferData :: "u32 \<Rightarrow> 'd lin_soc \<Rightarrow> u32 \<Rightarrow> 'd lin_sys \<Rightarrow> (lin_status \<times> 'd lin_sys) option" where
  "LIN_AbortTransferData count soc = lin_dispatch count (LIN_LPUART_AbortTransferData soc)"

definition LIN_GetReceiveStatus ::
    "u32 \<Rightarrow> 'd lin_soc \<Rightarrow> u32 \<Rightarrow> 'd lin_sys \<Rightarrow> u8 \<Rightarrow> (lin_status \<times> u8) option" where
  "LIN_GetReceiveStatus count soc inst = lin_query count (LIN_LPUART_GetReceiveStatus soc) inst"

definition LIN_GoToSleepMode :: "u32 \<Rightarrow> 'd lin_soc \<Rightarrow> u32 \<Rightarrow> 'd lin_sys \<Rightarrow> (lin_status \<times> 'd lin_sys) option" where
  "LIN_GoToSleepMode count soc = lin_dispatch count (LIN_LPUART_GoToSleepMode soc)"

definition LIN_GotoIdleState :: "u32 \<Rightarrow> 'd lin_soc \<Rightarrow> u32 \<Rightarrow> 'd lin_sys \<Rightarrow> (lin_status \<times> 'd lin_sys) option" where
  "LIN_GotoIdleState count soc = lin_dispatch count (LIN_LPUART_GotoIdleState soc)"

definition LIN_SendWakeupSignal :: "u32 \<Rightarrow> 'd lin_soc \<Rightarrow> u32 \<Rightarrow> 'd lin_sys \<Rightarrow> (lin_status \<times> 'd lin_sys) option" where
  "LIN_SendWakeupSignal count soc = lin_dispatch count (LIN_LPUART_SendWakeupSignal soc)"

definition LIN_GetCurrentNodeState :: "u32 \<Rightarrow> u32 \<Rightarrow> 'd lin_sys \<Rightarrow> lin_node_state" where
  "LIN_GetCurrentNodeState count inst sys =
     (if inst < count \<and> n_stptr (sys inst) then currentNodeState (n_st (sys inst)) else LIN_NODE_STATE_UNINIT)"

definition LIN_SetTimeoutCounter :: "u32 \<Rightarrow> u32 \<Rightarrow> u32 \<Rightarrow> 'd lin_sys \<Rightarrow> 'd lin_sys option" where
  "LIN_SetTimeoutCounter count inst timeoutValue sys =
     (if inst < count then do {
        n \<leftarrow> lin_set_timeout timeoutValue (sys inst);
        Some (sys(inst := n))
      } else Some sys)"

definition LIN_MasterSendHeader ::
    "u32 \<Rightarrow> 'd lin_soc \<Rightarrow> u32 \<Rightarrow> u8 \<Rightarrow> 'd lin_sys \<Rightarrow> (lin_status \<times> 'd lin_sys) option" where
  "LIN_MasterSendHeader count soc inst ident = lin_dispatch count (LIN_LPUART_MasterSendHeader soc ident) inst"

definition LIN_EnableIRQ :: "u32 \<Rightarrow> 'd lin_soc \<Rightarrow> u32 \<Rightarrow> 'd lin_sys \<Rightarrow> (lin_status \<times> 'd lin_sys) option" where
  "LIN_EnableIRQ count soc = lin_dispatch count (LIN_LPUART_EnableIRQ soc)"

definition LIN_DisableIRQ :: "u32 \<Rightarrow> 'd lin_soc \<Rightarrow> u32 \<Rightarrow> 'd lin_sys \<Rightarrow> (lin_status \<times> 'd lin_sys) option" where
  "LIN_DisableIRQ count soc = lin_dispatch count (LIN_LPUART_DisableIRQ soc)"

definition LIN_IRQHandler :: "u32 \<Rightarrow> 'd lin_soc \<Rightarrow> u8 \<Rightarrow> 'd lin_sys \<Rightarrow> 'd lin_sys option" where
  "LIN_IRQHandler count soc inst sys =
     (if ucast inst < count then do {
        n \<leftarrow> LIN_LPUART_IRQHandler soc (sys (ucast inst));
        Some (sys(ucast inst := n))
      } else Some sys)"

definition LIN_AutoBaudCapture :: "u32 \<Rightarrow> 'd lin_soc \<Rightarrow> u32 \<Rightarrow> 'd lin_sys \<Rightarrow> (lin_status \<times> 'd lin_sys) option" where
  "LIN_AutoBaudCapture count soc = lin_dispatch count (LIN_LPUART_AutoBaudCapture soc)"

subsection \<open>Timeouts\<close>

text \<open>The body of \<open>LIN_TimeoutService\<close> on the node of the instance.\<close>

definition lin_timeout_service :: "'d lin_soc \<Rightarrow> 'd lin_node \<Rightarrow> 'd lin_node option" where
  "lin_timeout_service soc n = do {
     c_assert (n_stptr n);
     case currentNodeState (n_st n) of
       LIN_NODE_STATE_SEND_DATA \<Rightarrow>
         if timeoutCounter (n_st n) = 0 then do {
           n \<leftarrow> lin_callback soc (on_st (\<lambda>s. s\<lparr>timeoutCounterFlag := True\<rparr>) n);
           let n = (if isTxBlocking (n_st n) = False
                    then on_st (\<lambda>s. s\<lparr>isBusBusy := False, isTxBusy := False, txCompleted := True\<rparr>) n else n);
           (_, n) \<leftarrow> LIN_LPUART_GotoIdleState soc n;
           Some n
         } else Some (on_st (\<lambda>s. s\<lparr>timeoutCounter := timeoutCounter s - 1\<rparr>) n)
     | LIN_NODE_STATE_RECV_DATA \<Rightarrow>
         if timeoutCounter (n_st n) = 0 then do {
           n \<leftarrow> lin_callback soc (on_st (\<lambda>s. s\<lparr>timeoutCounterFlag := True\<rparr>) n);
           let n = (if isRxBlocking (n_st n) = False
                    then on_st (\<lambda>s. s\<lparr>isBusBusy := False, isRxBusy := False, rxCompleted := True\<rparr>) n else n);
           (_, n) \<leftarrow> LIN_LPUART_GotoIdleState soc n;
           Some n
         } else Some (on_st (\<lambda>s. s\<lparr>timeoutCounter := timeoutCounter s - 1\<rparr>) n)
     | _ \<Rightarrow> Some n
   }"

definition LIN_TimeoutService :: "u32 \<Rightarrow> 'd lin_soc \<Rightarrow> u32 \<Rightarrow> 'd lin_sys \<Rightarrow> 'd lin_sys option" where
  "LIN_TimeoutService count soc inst sys =
     (if inst < count then do {
        n \<leftarrow> lin_timeout_service soc (sys inst);
        Some (sys(inst := n))
      } else Some sys)"

definition LIN_SetResponse ::
    "u32 \<Rightarrow> 'd lin_soc \<Rightarrow> u8 \<Rightarrow> u32 \<Rightarrow> u8 \<Rightarrow> u8 \<Rightarrow> 'd lin_sys \<Rightarrow> (lin_status \<times> 'd lin_sys) option" where
  "LIN_SetResponse count soc inst response_buff response_length max_frame_res_timeout sys = do {
     sys \<leftarrow> LIN_SetTimeoutCounter count (ucast inst) (ucast max_frame_res_timeout) sys;
     LIN_SendFrameData count soc (ucast inst) response_buff response_length sys
   }"

definition LIN_RxResponse ::
    "u32 \<Rightarrow> 'd lin_soc \<Rightarrow> u8 \<Rightarrow> u32 \<Rightarrow> u8 \<Rightarrow> u8 \<Rightarrow> 'd lin_sys \<Rightarrow> (lin_status \<times> 'd lin_sys) option" where
  "LIN_RxResponse count soc inst response_buff response_length max_frame_res_timeout sys = do {
     sys \<leftarrow> LIN_SetTimeoutCounter count (ucast inst) (ucast max_frame_res_timeout) sys;
     LIN_ReceiveFrameData count soc (ucast inst) response_buff response_length sys
   }"

definition LIN_IgnoreResponse :: "u32 \<Rightarrow> 'd lin_soc \<Rightarrow> u8 \<Rightarrow> 'd lin_sys \<Rightarrow> (lin_status \<times> 'd lin_sys) option" where
  "LIN_IgnoreResponse count soc inst = LIN_GotoIdleState count soc (ucast inst)"

end
