(* ===== verification/Lin_Session.thy ===== *)
theory Lin_Session
  imports Lin
begin

text \<open>
  What the LIN node does over a whole transfer. A session starts with a call of the driver and
  goes on with the bytes the interrupt handler hands to \<open>LIN_LPUART_ProcessFrame\<close>, one by one.
  The receive session, the send session against a transmitter that echoes, the header exchange
  of master and slave, and the composition of sender and receiver.
\<close>

subsection \<open>Vocabulary\<close>

text \<open>User callbacks that only look at the node, and a timer that changes only the device.\<close>

definition observer :: "'d lin_soc \<Rightarrow> bool" where
  "observer soc \<longleftrightarrow> (\<forall>f n. lin_invoke soc f n = Some n) \<and>
     (\<forall>f n. \<exists>d. snd (lin_get_time soc f n) = n\<lparr>n_dev := d\<rparr>)"

lemma observer_timer:
  assumes "observer soc" "lin_timer soc n = Some (t, n')"
  obtains d where "n' = n\<lparr>n_dev := d\<rparr>"
proof -
  from assms(2) obtain f where "lin_get_time soc f n = (t, n')"
    by (auto simp: lin_timer_def bind_eq_Some_conv)
  moreover from assms(1) obtain d where "snd (lin_get_time soc f n) = n\<lparr>n_dev := d\<rparr>"
    unfolding observer_def by blast
  ultimately show ?thesis using that by simp
qed

lemma observer_callback [simp]: "observer soc \<Longrightarrow> lin_callback soc n = Some n"
  by (simp add: lin_callback_def observer_def split: option.split)

fun lin_feed :: "'d lin_soc \<Rightarrow> u8 list \<Rightarrow> 'd lin_node \<Rightarrow> 'd lin_node option" where
  "lin_feed soc [] n = Some n"
| "lin_feed soc (b # bs) n = do {
     n \<leftarrow> LIN_LPUART_ProcessFrame soc b n;
     lin_feed soc bs n
   }"

lemma lin_feed_append: "lin_feed soc (bs @ cs) n = do { n \<leftarrow> lin_feed soc bs n; lin_feed soc cs n }"
  by (induction bs arbitrary: n) (simp_all split: bind_split)

lemma on_st_simps [simp]:
  "n_st (on_st f n) = f (n_st n)" "n_dev (on_st f n) = n_dev n" "n_ram (on_st f n) = n_ram n"
  "n_stptr (on_st f n) = n_stptr n" "n_cfg (on_st f n) = n_cfg n" "n_cfgptr (on_st f n) = n_cfgptr n"
  "s_previousTwoBitTimeLength (on_st f n) = s_previousTwoBitTimeLength n"
  "s_wakeupSignal (on_st f n) = s_wakeupSignal n" "s_countMeasure (on_st f n) = s_countMeasure n"
  "s_timeMeasure (on_st f n) = s_timeMeasure n"
  by (simp_all add: on_st_def)

lemma on_dev_simps [simp]:
  "n_st (on_dev g n) = n_st n" "n_dev (on_dev g n) = g (n_dev n)" "n_ram (on_dev g n) = n_ram n"
  "n_stptr (on_dev g n) = n_stptr n" "n_cfg (on_dev g n) = n_cfg n" "n_cfgptr (on_dev g n) = n_cfgptr n"
  "s_previousTwoBitTimeLength (on_dev g n) = s_previousTwoBitTimeLength n"
  "s_wakeupSignal (on_dev g n) = s_wakeupSignal n" "s_countMeasure (on_dev g n) = s_countMeasure n"
  "s_timeMeasure (on_dev g n) = s_timeMeasure n"
  by (simp_all add: on_dev_def)

lemma goto_idle:
  "n_stptr n \<Longrightarrow> LIN_LPUART_GotoIdleState soc n =
     Some (LIN_SUCCESS, on_st (\<lambda>s. s\<lparr>currentNodeState := LIN_NODE_STATE_IDLE\<rparr>) (on_dev (lin_idle_dev soc) n))"
  by (simp add: LIN_LPUART_GotoIdleState_def)

subsection \<open>Receiving\<close>

text \<open>A data byte: it is stored, the pointer and the counter move on.\<close>

lemma recv_data_byte:
  assumes "n_stptr n" "currentNodeState (n_st n) = LIN_NODE_STATE_RECV_DATA"
    and "unat (cntByte (n_st n)) + 1 < unat (rxSize (n_st n))"
  shows "LIN_LPUART_ProcessFrame soc b n =
    Some (n\<lparr>n_ram := (n_ram n)(rxBuff (n_st n) := b),
            n_st := (n_st n)\<lparr>rxBuff := rxBuff (n_st n) + 1, cntByte := cntByte (n_st n) + 1\<rparr>\<rparr>)"
proof -
  have lt: "(ucast (cntByte (n_st n)) + 1 :: u32) < ucast (rxSize (n_st n))"
    using assms(3) unat_u8_le [of "cntByte (n_st n)"] by (simp add: word_less_nat_alt unat_plus_small)
  have "unat (cntByte (n_st n) + 1) = unat (cntByte (n_st n)) + 1"
    using assms(3) unat_u8_le [of "rxSize (n_st n)"] by (simp add: unat_plus_small)
  then have ne: "cntByte (n_st n) + 1 \<noteq> rxSize (n_st n)" using assms(3) by auto
  show ?thesis
    using assms(1,2) lt ne
    by (simp add: LIN_LPUART_ProcessFrame_def LIN_LPUART_ProcessReceiveFrameData_def on_st_def)
qed

lemma recv_data_bytes:
  assumes "n_stptr n" "currentNodeState (n_st n) = LIN_NODE_STATE_RECV_DATA"
    and "unat (cntByte (n_st n)) + length bs < unat (rxSize (n_st n))"
  shows "lin_feed soc bs n =
    Some (n\<lparr>n_ram := mem_write (n_ram n) (rxBuff (n_st n)) bs,
            n_st := (n_st n)\<lparr>rxBuff := rxBuff (n_st n) + of_nat (length bs),
                             cntByte := cntByte (n_st n) + of_nat (length bs)\<rparr>\<rparr>)"
  using assms
proof (induction bs arbitrary: n)
  case (Cons b bs)
  let ?n = "n\<lparr>n_ram := (n_ram n)(rxBuff (n_st n) := b),
              n_st := (n_st n)\<lparr>rxBuff := rxBuff (n_st n) + 1, cntByte := cntByte (n_st n) + 1\<rparr>\<rparr>"
  have 1: "LIN_LPUART_ProcessFrame soc b n = Some ?n"
    using Cons.prems by (intro recv_data_byte) simp_all
  have "unat (cntByte (n_st n) + 1) = unat (cntByte (n_st n)) + 1"
    using Cons.prems(3) unat_u8_le [of "rxSize (n_st n)"] by (simp add: unat_plus_small)
  then have "lin_feed soc bs ?n = Some (?n\<lparr>n_ram := mem_write (n_ram ?n) (rxBuff (n_st ?n)) bs,
      n_st := (n_st ?n)\<lparr>rxBuff := rxBuff (n_st ?n) + of_nat (length bs),
                        cntByte := cntByte (n_st ?n) + of_nat (length bs)\<rparr>\<rparr>)"
    using Cons.prems by (intro Cons.IH) simp_all
  then show ?case by (simp add: 1 ac_simps)
qed simp

text \<open>The last byte: it is the checksum, and the frame is judged.\<close>

lemma recv_checksum_byte:
  assumes "observer soc" "n_stptr n" "currentNodeState (n_st n) = LIN_NODE_STATE_RECV_DATA"
    and "unat (cntByte (n_st n)) + 1 = unat (rxSize (n_st n))"
    and "LIN_MakeChecksumByte (n_ram n) (rxBuff (n_st n) - (ucast (rxSize (n_st n)) - 1))
           (rxSize (n_st n) - 1) (currentPid (n_st n)) = Some k"
  shows "\<exists>n'. LIN_LPUART_ProcessFrame soc b n = Some n' \<and> n_ram n' = n_ram n \<and> n_stptr n' \<and>
           n_dev n' = lin_idle_dev soc (n_dev n) \<and>
           n_st n' = (n_st n)\<lparr>checkSum := b, cntByte := rxSize (n_st n),
             rxBuff := rxBuff (n_st n) - (ucast (rxSize (n_st n)) - 1),
             currentNodeState := LIN_NODE_STATE_IDLE, isBusBusy := False, isRxBusy := False,
             currentEventId := (if b = k then LIN_RX_COMPLETED else LIN_CHECKSUM_ERROR),
             rxCompleted := (rxCompleted (n_st n) \<or> b = k \<and> isRxBlocking (n_st n))\<rparr>"
proof -
  have nlt: "\<not> (ucast (cntByte (n_st n)) + 1 :: u32) < ucast (rxSize (n_st n))"
    using assms(4) unat_u8_le [of "cntByte (n_st n)"] by (simp add: word_less_nat_alt unat_plus_small)
  have eq: "cntByte (n_st n) + 1 = rxSize (n_st n)"
    using assms(4) unat_u8_le [of "rxSize (n_st n)"] by (simp add: word_unat_eq_iff unat_plus_small)
  show ?thesis
    using assms(1-3,5) nlt eq
    by (auto simp: LIN_LPUART_ProcessFrame_def LIN_LPUART_ProcessReceiveFrameData_def goto_idle Let_def)
qed

text \<open>The state a successful call of a receive function leaves behind.\<close>

lemma recv_session:
  assumes "observer soc" "n_stptr n" "currentNodeState (n_st n) = LIN_NODE_STATE_RECV_DATA"
    and "cntByte (n_st n) = 0" "rxSize (n_st n) = sz + 1" "0 < sz" "sz \<le> 8" "rxBuff (n_st n) = buf"
    and "currentPid (n_st n) \<noteq> 0" "length bs = unat sz"
  shows "\<exists>n'. lin_feed soc (bs @ [c]) n = Some n' \<and> n_stptr n' \<and>
           n_ram n' = mem_write (n_ram n) buf bs \<and> n_dev n' = lin_idle_dev soc (n_dev n) \<and>
           n_st n' = (n_st n)\<lparr>checkSum := c, cntByte := sz + 1, currentNodeState := LIN_NODE_STATE_IDLE,
             isBusBusy := False, isRxBusy := False,
             currentEventId := (if LIN_MakeChecksumByte (n_ram n') buf sz (currentPid (n_st n)) = Some c
                                then LIN_RX_COMPLETED else LIN_CHECKSUM_ERROR),
             rxCompleted := (rxCompleted (n_st n) \<or>
               LIN_MakeChecksumByte (n_ram n') buf sz (currentPid (n_st n)) = Some c \<and> isRxBlocking (n_st n))\<rparr>"
proof -
  have sz: "unat (sz + 1) = unat sz + 1" "unat sz \<le> 8"
    using assms(7) by (simp_all add: word_le_nat_alt unat_plus_small)
  let ?m = "mem_write (n_ram n) buf bs"
  let ?n = "n\<lparr>n_ram := ?m, n_st := (n_st n)\<lparr>rxBuff := buf + of_nat (length bs), cntByte := of_nat (length bs)\<rparr>\<rparr>"
  have 1: "lin_feed soc bs n = Some ?n"
    using recv_data_bytes [OF assms(2,3), of bs soc] assms sz by simp
  obtain k where k: "LIN_MakeChecksumByte ?m buf sz (currentPid (n_st n)) = Some k"
    using lin_check.mk_total [OF assms(9)] by blast
  have cnt: "unat (of_nat (length bs) :: u8) = unat sz" by (simp add: assms(10))
  have sub: "ucast (sz + 1) - 1 = (of_nat (length bs) :: u32)"
    using sz by (simp add: word_unat_eq_iff assms(10) unat_minus_small)
  have "\<exists>n'. LIN_LPUART_ProcessFrame soc c ?n = Some n' \<and> n_ram n' = n_ram ?n \<and> n_stptr n' \<and>
           n_dev n' = lin_idle_dev soc (n_dev ?n) \<and>
           n_st n' = (n_st ?n)\<lparr>checkSum := c, cntByte := rxSize (n_st ?n),
             rxBuff := rxBuff (n_st ?n) - (ucast (rxSize (n_st ?n)) - 1),
             currentNodeState := LIN_NODE_STATE_IDLE, isBusBusy := False, isRxBusy := False,
             currentEventId := (if c = k then LIN_RX_COMPLETED else LIN_CHECKSUM_ERROR),
             rxCompleted := (rxCompleted (n_st ?n) \<or> c = k \<and> isRxBlocking (n_st ?n))\<rparr>"
    using assms k cnt sub sz by (intro recv_checksum_byte) simp_all
  then show ?thesis using 1 k assms(5,8) sub by (auto simp: lin_feed_append)
qed

subsection \<open>Sending\<close>

text \<open>
  The transmitter: \<open>log\<close> reads off a device the bytes that were put into its data register, in
  order. Nothing but a write of the data byte changes it, and the register is reported empty
  whenever the status is read, as it is once a byte has come back on the bus.
\<close>

definition serial_tx :: "'d lin_soc \<Rightarrow> ('d \<Rightarrow> u8 list) \<Rightarrow> bool" where
  "serial_tx soc log \<longleftrightarrow>
     (\<forall>r d. log (snd (reg_read soc r d)) = log d) \<and>
     (\<forall>r v d. log (reg_write soc r v d) = (if r = L_DATA8 then log d @ [ucast v] else log d)) \<and>
     (\<forall>i d. log (lin_EnableIRQ soc i d) = log d \<and> log (lin_DisableIRQ soc i d) = log d) \<and>
     (\<forall>d. fst (reg_read soc L_STAT d) AND lmask soc STAT_TDRE \<noteq> 0)"

lemma serial_tx_basic [io_frame]:
  assumes "serial_tx soc log"
  shows "log (snd (reg_read soc r d)) = log d"
    and "log (reg_write soc r v d) = (if r = L_DATA8 then log d @ [ucast v] else log d)"
    and "log (lin_EnableIRQ soc i d) = log d" and "log (lin_DisableIRQ soc i d) = log d"
  using assms by (simp_all add: serial_tx_def)

lemma serial_tx_set [io_frame]:
  "serial_tx soc log \<Longrightarrow> r \<noteq> L_DATA8 \<Longrightarrow> log (reg_set soc r m d) = log d"
  "serial_tx soc log \<Longrightarrow> r \<noteq> L_DATA8 \<Longrightarrow> log (reg_clear soc r m d) = log d"
  by (simp_all add: reg_set_def reg_clear_def io_frame case_prod_beta)

lemma serial_tx_interrupts [io_frame]:
  assumes "serial_tx soc log"
  shows "log (LIN_LPUART_EnableInterrupts soc m d) = log d"
    and "log (LIN_LPUART_DisableInterrupts soc m d) = log d"
    and "log (LIN_LPUART_SetRxDataPolarity soc p d) = log d"
    and "log (snd (LIN_LPUART_GetStatusFlags soc d)) = log d"
    and "log (snd (LIN_LPUART_ClearStatusFlags soc m d)) = log d"
  using assms
  by (simp_all add: LIN_LPUART_EnableInterrupts_def LIN_LPUART_DisableInterrupts_def LIN_LPUART_GetStatusFlags_def
      LIN_LPUART_SetRxDataPolarity_def LIN_LPUART_ClearStatusFlags_def Let_def case_prod_beta io_frame)

lemma serial_tx_irqs [io_frame]:
  assumes "serial_tx soc log"
  shows "log (lin_irqs soc (lin_EnableIRQ soc) d) = log d" "log (lin_irqs soc (lin_DisableIRQ soc) d) = log d"
  using assms by (simp_all add: lin_irqs_def Let_def io_frame)

lemma serial_tx_idle [io_frame]: "serial_tx soc log \<Longrightarrow> log (lin_idle_dev soc d) = log d"
  by (simp add: lin_idle_dev_def Let_def io_frame)

lemma serial_tx_write [io_frame]:
  "serial_tx soc log \<Longrightarrow> log (LIN_LPUART_WriteByte soc b d) = log d @ [b]"
  by (simp add: LIN_LPUART_WriteByte_def io_frame)

lemma serial_tx_empty:
  assumes "serial_tx soc log"
  shows "fst (LIN_LPUART_GetStatusFlags soc d) AND kLPUART_TxDataRegEmptyFlag soc \<noteq> 0"
proof -
  have "fst (reg_read soc L_STAT d) AND lmask soc STAT_TDRE \<noteq> 0" using assms by (simp add: serial_tx_def)
  then show ?thesis
    by (auto simp: LIN_LPUART_GetStatusFlags_def kLPUART_TxDataRegEmptyFlag_def case_prod_beta Let_def
        bit.conj_disj_distrib2 or_eq_0_iff)
qed

text \<open>The byte the sender is waiting to see come back.\<close>

definition tx_expected :: "'d lin_node \<Rightarrow> u8" where
  "tx_expected n =
     (if txSize (n_st n) - cntByte (n_st n) = 1 then checkSum (n_st n) else n_ram n (txBuff (n_st n)))"

text \<open>One echoed byte: the counter moves on and the next byte goes out, or the frame is complete.\<close>

lemma send_echo:
  assumes "serial_tx soc log" "n_stptr n" "currentNodeState (n_st n) = LIN_NODE_STATE_SEND_DATA"
    and "unat (cntByte (n_st n)) + 1 < unat (txSize (n_st n))"
  shows "\<exists>n'. LIN_LPUART_ProcessFrame soc (tx_expected n) n = Some n' \<and> n_stptr n' \<and> n_ram n' = n_ram n \<and>
           n_st n' = (n_st n)\<lparr>txBuff := txBuff (n_st n) + 1, cntByte := cntByte (n_st n) + 1\<rparr> \<and>
           log (n_dev n') = log (n_dev n) @ [tx_expected n']"
proof -
  let ?s = "n_st n"
  have c: "unat (cntByte ?s + 1) = unat (cntByte ?s) + 1"
    using assms(4) unat_u8_le [of "txSize ?s"] by (simp add: unat_plus_small)
  have lt: "cntByte ?s + 1 < txSize ?s" using assms(4) c by (simp add: word_less_nat_alt)
  have d8: "unat (txSize ?s - (cntByte ?s + 1)) = unat (txSize ?s) - unat (cntByte ?s + 1)"
    using assms(4) c by (simp add: unat_minus_small)
  have d32: "unat (ucast (txSize ?s) - ucast (cntByte ?s + 1) :: u32) = unat (txSize ?s) - unat (cntByte ?s + 1)"
    using assms(4) c by (simp add: unat_minus_small)
  have one: "(ucast (txSize ?s) - ucast (cntByte ?s + 1) = (1::u32)) = (txSize ?s - (cntByte ?s + 1) = 1)"
    using d8 d32 by (simp add: word_unat_eq_iff)
  show ?thesis
    using assms(1-3) lt one serial_tx_empty [OF assms(1), of "n_dev n"]
    by (auto simp: LIN_LPUART_ProcessFrame_def LIN_LPUART_ProcessSendFrameData_def tx_expected_def
        case_prod_beta Let_def io_frame)
qed

lemma send_last_echo:
  assumes "observer soc" "serial_tx soc log" "n_stptr n" "currentNodeState (n_st n) = LIN_NODE_STATE_SEND_DATA"
    and "unat (cntByte (n_st n)) + 1 = unat (txSize (n_st n))"
  shows "\<exists>n'. LIN_LPUART_ProcessFrame soc (tx_expected n) n = Some n' \<and> n_stptr n' \<and> n_ram n' = n_ram n \<and>
           n_st n' = (n_st n)\<lparr>txBuff := txBuff (n_st n) + 1, cntByte := txSize (n_st n),
             currentEventId := LIN_TX_COMPLETED, currentNodeState := LIN_NODE_STATE_IDLE,
             isBusBusy := False, isTxBusy := False,
             txCompleted := (txCompleted (n_st n) \<or> isTxBlocking (n_st n))\<rparr> \<and>
           log (n_dev n') = log (n_dev n)"
proof -
  have c: "cntByte (n_st n) + 1 = txSize (n_st n)"
    using assms(5) unat_u8_le [of "txSize (n_st n)"] by (simp add: word_unat_eq_iff unat_plus_small)
  then have "txSize (n_st n) - cntByte (n_st n) = 1" by (metis add_diff_cancel_left')
  then show ?thesis
    using assms(1-4) c serial_tx_empty [OF assms(2), of "n_dev n"]
    by (auto simp: LIN_LPUART_ProcessFrame_def LIN_LPUART_ProcessSendFrameData_def tx_expected_def
        case_prod_beta Let_def io_frame goto_idle)
qed

text \<open>
  The rest of a frame when \<open>k\<close> bytes have been echoed: \<open>fs\<close> are the bytes that are still to come
  back, of which the first is already in the log.
\<close>

lemma send_rest:
  assumes "observer soc" "serial_tx soc log" "n_stptr n" "currentNodeState (n_st n) = LIN_NODE_STATE_SEND_DATA"
    and "unat (cntByte (n_st n)) + length bs + 1 = unat (txSize (n_st n))"
    and "mem_bytes (n_ram n) (txBuff (n_st n)) (length bs) = bs" "checkSum (n_st n) = c"
    and "log (n_dev n) = pre @ [tx_expected n]"
  shows "\<exists>n'. lin_feed soc (bs @ [c]) n = Some n' \<and> n_stptr n' \<and> n_ram n' = n_ram n \<and>
           n_st n' = (n_st n)\<lparr>txBuff := txBuff (n_st n) + of_nat (length bs) + 1, cntByte := txSize (n_st n),
             currentEventId := LIN_TX_COMPLETED, currentNodeState := LIN_NODE_STATE_IDLE,
             isBusBusy := False, isTxBusy := False,
             txCompleted := (txCompleted (n_st n) \<or> isTxBlocking (n_st n))\<rparr> \<and>
           log (n_dev n') = pre @ bs @ [c]"
  using assms(3-)
proof (induction bs arbitrary: n pre)
  case Nil
  have c: "cntByte (n_st n) + 1 = txSize (n_st n)"
    using Nil.prems(3) unat_u8_le [of "txSize (n_st n)"] by (simp add: word_unat_eq_iff unat_plus_small)
  then have "txSize (n_st n) - cntByte (n_st n) = 1" by (metis add_diff_cancel_left')
  then have "tx_expected n = c" using Nil.prems(5) by (simp add: tx_expected_def)
  moreover have "unat (cntByte (n_st n)) + 1 = unat (txSize (n_st n))" using Nil.prems(3) by simp
  ultimately show ?case
    using send_last_echo [OF assms(1,2) Nil.prems(1,2)] Nil.prems(6) by auto
next
  case (Cons b bs)
  have lt: "unat (cntByte (n_st n)) + 1 < unat (txSize (n_st n))" using Cons.prems(3) by simp
  have c: "unat (cntByte (n_st n) + 1) = unat (cntByte (n_st n)) + 1"
    using lt unat_u8_le [of "txSize (n_st n)"] by (simp add: unat_plus_small)
  have "unat (txSize (n_st n) - cntByte (n_st n)) = unat (txSize (n_st n)) - unat (cntByte (n_st n))"
    using lt by (simp add: unat_minus_small)
  then have "txSize (n_st n) - cntByte (n_st n) \<noteq> 1" using lt by auto
  then have b: "tx_expected n = b" "mem_bytes (n_ram n) (txBuff (n_st n) + 1) (length bs) = bs"
    using Cons.prems(4) by (simp_all add: tx_expected_def mem_bytes_Cons)
  obtain n1 where n1: "LIN_LPUART_ProcessFrame soc b n = Some n1" "n_stptr n1" "n_ram n1 = n_ram n"
    "n_st n1 = (n_st n)\<lparr>txBuff := txBuff (n_st n) + 1, cntByte := cntByte (n_st n) + 1\<rparr>"
    "log (n_dev n1) = log (n_dev n) @ [tx_expected n1]"
    using send_echo [OF assms(2) Cons.prems(1,2) lt] b(1) by metis
  have "\<exists>n'. lin_feed soc (bs @ [c]) n1 = Some n' \<and> n_stptr n' \<and> n_ram n' = n_ram n1 \<and>
           n_st n' = (n_st n1)\<lparr>txBuff := txBuff (n_st n1) + of_nat (length bs) + 1, cntByte := txSize (n_st n1),
             currentEventId := LIN_TX_COMPLETED, currentNodeState := LIN_NODE_STATE_IDLE,
             isBusBusy := False, isTxBusy := False,
             txCompleted := (txCompleted (n_st n1) \<or> isTxBlocking (n_st n1))\<rparr> \<and>
           log (n_dev n') = (pre @ [b]) @ bs @ [c]"
    using Cons.prems n1 b c by (intro Cons.IH) simp_all
  then show ?case using n1 by (auto simp: ac_simps)
qed

text \<open>What the non-blocking send leaves behind when it accepts a frame.\<close>

lemma send_start:
  assumes "serial_tx soc log" "n_stptr n" "buf \<noteq> 0" "0 < sz" "sz \<le> 8" "currentPid (n_st n) \<noteq> 0"
    and "\<not> isBusBusy (n_st n)" "currentNodeState (n_st n) \<noteq> LIN_NODE_STATE_SLEEP_MODE"
  obtains n' c where "LIN_LPUART_SendFrameData soc buf sz n = Some (LIN_SUCCESS, n')"
    "LIN_MakeChecksumByte (n_ram n) buf sz (currentPid (n_st n)) = Some c"
    "n_stptr n'" "n_ram n' = n_ram n"
    "n_st n' = (n_st n)\<lparr>checkSum := c, txBuff := buf, txSize := sz + 1, cntByte := 0,
       currentNodeState := LIN_NODE_STATE_SEND_DATA, currentEventId := LIN_NO_EVENT,
       isBusBusy := True, isTxBusy := True\<rparr>"
    "log (n_dev n') = log (n_dev n) @ [n_ram n buf]"
proof -
  obtain c where c: "LIN_MakeChecksumByte (n_ram n) buf sz (currentPid (n_st n)) = Some c"
    using lin_check.mk_total [OF assms(6)] by blast
  let ?n1 = "lin_clear_lbkde soc (on_st (\<lambda>s. s\<lparr>checkSum := c, txBuff := buf, txSize := sz + 1, cntByte := 0,
       currentNodeState := LIN_NODE_STATE_SEND_DATA, currentEventId := LIN_NO_EVENT,
       isBusBusy := True, isTxBusy := True\<rparr>) n)"
  have sz: "\<not> 8 < sz" "sz \<noteq> 0" using assms(4,5) by auto
  show ?thesis
  proof (rule that [OF _ c, of "on_dev (LIN_LPUART_WriteByte soc (n_ram n buf)) ?n1"])
    show "LIN_LPUART_SendFrameData soc buf sz n =
        Some (LIN_SUCCESS, on_dev (LIN_LPUART_WriteByte soc (n_ram n buf)) ?n1)"
      using assms c sz by (simp add: LIN_LPUART_SendFrameData_def lin_clear_lbkde_def)
  qed (use assms in \<open>simp_all add: lin_clear_lbkde_def io_frame\<close>)
qed

text \<open>What the non-blocking receive leaves behind when it accepts a frame.\<close>

lemma recv_start:
  assumes "n_stptr n" "buf \<noteq> 0" "0 < sz" "sz \<le> 8"
    and "\<not> isBusBusy (n_st n)" "currentNodeState (n_st n) \<noteq> LIN_NODE_STATE_SLEEP_MODE"
  obtains n' where "LIN_LPUART_RecvFrmData soc buf sz n = Some (LIN_SUCCESS, n')"
    "n_stptr n'" "n_ram n' = n_ram n"
    "n_st n' = (n_st n)\<lparr>rxBuff := buf, rxSize := sz + 1, cntByte := 0,
       currentNodeState := LIN_NODE_STATE_RECV_DATA, currentEventId := LIN_NO_EVENT,
       isBusBusy := True, isRxBusy := True, isRxBlocking := False\<rparr>"
proof -
  let ?n1 = "lin_clear_lbkde soc (on_st (\<lambda>s. s\<lparr>rxBuff := buf, rxSize := sz + 1, cntByte := 0,
       currentNodeState := LIN_NODE_STATE_RECV_DATA, currentEventId := LIN_NO_EVENT,
       isBusBusy := True, isRxBusy := True, isRxBlocking := False\<rparr>) n)"
  have sz: "\<not> 8 < sz" "sz \<noteq> 0" using assms(3,4) by auto
  show ?thesis
    by (rule that [of ?n1]) (use assms sz in \<open>simp_all add: LIN_LPUART_RecvFrmData_def lin_clear_lbkde_def\<close>)
qed

lemma unat_le_8: "sz \<le> 8 \<Longrightarrow> unat sz \<le> 8" for sz :: u8
  by (simp add: word_le_nat_alt)

subsection \<open>Example device\<close>

text \<open>A transmitter that keeps the bytes written to it, and a node on it, for the witnesses.\<close>

definition lin_example :: "u8 list lin_soc" where
  "lin_example =
     \<lparr>reg_read = \<lambda>r d. (if r = L_STAT then 1 else 0, d),
      reg_write = \<lambda>r v d. if r = L_DATA8 then d @ [ucast v] else d,
      lmask = \<lambda>m. if m = STAT_TDRE then 1 else 0, lfield = \<lambda>f v. v, lfeature = \<lambda>f. True,
      RXINV_SHIFT = 0, RXEDGIE_SHIFT = 0, LIN_LPUART_CLOCK_FREQ = 48000000, TRANSMISSION_COMPLETE_TIMEOUT = 0,
      lin_EnableIRQ = \<lambda>i d. d, lin_DisableIRQ = \<lambda>i d. d, lin_EnableClock = \<lambda>b d. d, lin_DisableClock = \<lambda>b d. d,
      lin_invoke = \<lambda>f n. Some n, lin_get_time = \<lambda>f n. (0, n)\<rparr>"

definition lin_example_state :: lin_state where
  "lin_example_state =
     \<lparr>txBuff = 0, rxBuff = 0, frame_index = 0, cntByte = 0, txSize = 0, rxSize = 0, checkSum = 0,
      isTxBusy = False, isRxBusy = False, isBusBusy = False, isTxBlocking = False, isRxBlocking = False,
      Callback = None, currentId = 0x0A, currentPid = 0xCA, currentEventId = LIN_NO_EVENT,
      currentNodeState = LIN_NODE_STATE_IDLE, timeoutCounter = 0, timeoutCounterFlag = False,
      baudrateEvalEnable = False, fallingEdgeInterruptCount = 0, linSourceClockFreq = 48000000,
      txCompleted = False, rxCompleted = False\<rparr>"

definition lin_example_node :: "u8 list lin_node" where
  "lin_example_node =
     \<lparr>n_dev = [], n_ram = \<lambda>_. 0x4A, n_st = lin_example_state, n_stptr = True,
      n_cfg = LIN_GetMasterDefaultConfig, n_cfgptr = True, s_previousTwoBitTimeLength = 0,
      s_wakeupSignal = 0x80, s_countMeasure = 0, s_timeMeasure = 0\<rparr>"

lemma lin_example_serial: "serial_tx lin_example (\<lambda>d. d)"
  by (simp add: serial_tx_def lin_example_def)

lemma lin_example_observer: "observer lin_example"
proof -
  have "\<exists>d. n = n\<lparr>n_dev := d\<rparr>" for n :: "u8 list lin_node" by (rule exI [of _ "n_dev n"]) simp
  then show ?thesis by (simp add: observer_def lin_example_def)
qed

lemmas lin_example_defs = lin_example_node_def lin_example_state_def LIN_GetMasterDefaultConfig_def LIN_MASTER_def

subsection \<open>Whole sessions\<close>

lemma recv_run:
  assumes "observer soc" "n_stptr n" "buf \<noteq> 0" "0 < sz" "sz \<le> 8" "currentPid (n_st n) \<noteq> 0"
    and "\<not> isBusBusy (n_st n)" "currentNodeState (n_st n) \<noteq> LIN_NODE_STATE_SLEEP_MODE"
    and "length bs = unat sz"
  shows "\<exists>n1 n2. LIN_LPUART_RecvFrmData soc buf sz n = Some (LIN_SUCCESS, n1) \<and>
           lin_feed soc (bs @ [c]) n1 = Some n2 \<and>
           mem_bytes (n_ram n2) buf (unat sz) = bs \<and>
           (\<forall>x. (\<forall>i < unat sz. x \<noteq> buf + of_nat i) \<longrightarrow> n_ram n2 x = n_ram n x) \<and>
           currentNodeState (n_st n2) = LIN_NODE_STATE_IDLE \<and> \<not> isBusBusy (n_st n2) \<and> \<not> isRxBusy (n_st n2) \<and>
           currentEventId (n_st n2) =
             (if LIN_MakeChecksumByte (n_ram n2) buf sz (currentPid (n_st n)) = Some c
              then LIN_RX_COMPLETED else LIN_CHECKSUM_ERROR)"
proof -
  obtain n1 where n1: "LIN_LPUART_RecvFrmData soc buf sz n = Some (LIN_SUCCESS, n1)" "n_stptr n1" "n_ram n1 = n_ram n"
    "n_st n1 = (n_st n)\<lparr>rxBuff := buf, rxSize := sz + 1, cntByte := 0,
       currentNodeState := LIN_NODE_STATE_RECV_DATA, currentEventId := LIN_NO_EVENT,
       isBusBusy := True, isRxBusy := True, isRxBlocking := False\<rparr>"
    by (rule recv_start [OF assms(2-5,7,8), of soc])
  have len: "length bs \<le> 2 ^ 32" using unat_le_8 [OF assms(5)] assms(9) by simp
  have mem: "mem_bytes (mem_write (n_ram n) buf bs) buf (unat sz) = bs" using mem_bytes_write [OF len] assms(9) by metis
  show ?thesis
    using recv_session [OF assms(1) n1(2), where sz = sz and buf = buf and bs = bs and c = c] n1 assms mem
    by (auto simp: mem_write_outside)
qed

lemma send_run:
  assumes "observer soc" "serial_tx soc log" "n_stptr n" "buf \<noteq> 0" "0 < sz" "sz \<le> 8"
    and "currentPid (n_st n) \<noteq> 0" "\<not> isBusBusy (n_st n)" "currentNodeState (n_st n) \<noteq> LIN_NODE_STATE_SLEEP_MODE"
  shows "\<exists>n1 n2 c. LIN_LPUART_SendFrameData soc buf sz n = Some (LIN_SUCCESS, n1) \<and>
           LIN_MakeChecksumByte (n_ram n) buf sz (currentPid (n_st n)) = Some c \<and>
           lin_feed soc (mem_bytes (n_ram n) buf (unat sz) @ [c]) n1 = Some n2 \<and>
           log (n_dev n2) = log (n_dev n) @ mem_bytes (n_ram n) buf (unat sz) @ [c] \<and> n_ram n2 = n_ram n \<and>
           currentNodeState (n_st n2) = LIN_NODE_STATE_IDLE \<and> \<not> isBusBusy (n_st n2) \<and> \<not> isTxBusy (n_st n2) \<and>
           currentEventId (n_st n2) = LIN_TX_COMPLETED"
proof -
  obtain n1 c where n1: "LIN_LPUART_SendFrameData soc buf sz n = Some (LIN_SUCCESS, n1)"
    "LIN_MakeChecksumByte (n_ram n) buf sz (currentPid (n_st n)) = Some c" "n_stptr n1" "n_ram n1 = n_ram n"
    "n_st n1 = (n_st n)\<lparr>checkSum := c, txBuff := buf, txSize := sz + 1, cntByte := 0,
       currentNodeState := LIN_NODE_STATE_SEND_DATA, currentEventId := LIN_NO_EVENT,
       isBusBusy := True, isTxBusy := True\<rparr>"
    "log (n_dev n1) = log (n_dev n) @ [n_ram n buf]"
    by (rule send_start [OF assms(2-9)])
  have sz: "unat (sz + 1) = unat sz + 1" using unat_le_8 [OF assms(6)] by (simp add: unat_plus_small)
  have "sz + 1 \<noteq> 1" using assms(5) by auto
  then have e: "tx_expected n1 = n_ram n buf" using n1 by (simp add: tx_expected_def)
  show ?thesis
    using send_rest [OF assms(1,2) n1(3), where bs = "mem_bytes (n_ram n) buf (unat sz)" and c = c and
        pre = "log (n_dev n)"] n1 sz e
    by auto
qed

subsection \<open>Properties\<close>

text \<open>C13: a receive session. The driver accepts the request, stores exactly the data bytes, in
  order, inside the buffer and touches no other memory, ends idle with the bus released, and
  reports completion if and only if the last byte is the checksum of the stored bytes.\<close>

theorem receive_session:
  assumes "observer soc" "n_stptr n" "buf \<noteq> 0" "0 < sz" "sz \<le> 8" "currentPid (n_st n) \<noteq> 0"
    and "\<not> isBusBusy (n_st n)" "currentNodeState (n_st n) \<noteq> LIN_NODE_STATE_SLEEP_MODE"
    and "length bs = unat sz"
  shows "\<exists>n1 n2. LIN_LPUART_RecvFrmData soc buf sz n = Some (LIN_SUCCESS, n1) \<and>
           lin_feed soc (bs @ [c]) n1 = Some n2 \<and>
           mem_bytes (n_ram n2) buf (unat sz) = bs \<and>
           (\<forall>x. (\<forall>i < unat sz. x \<noteq> buf + of_nat i) \<longrightarrow> n_ram n2 x = n_ram n x) \<and>
           currentNodeState (n_st n2) = LIN_NODE_STATE_IDLE \<and> \<not> isBusBusy (n_st n2) \<and> \<not> isRxBusy (n_st n2) \<and>
           currentEventId (n_st n2) =
             (if LIN_MakeChecksumByte (n_ram n2) buf sz (currentPid (n_st n)) = Some c
              then LIN_RX_COMPLETED else LIN_CHECKSUM_ERROR)"
  by (rule recv_run [OF assms])

theorem receive_session_witness:
  "\<exists>n1 n2. LIN_LPUART_RecvFrmData lin_example 0x100 2 lin_example_node = Some (LIN_SUCCESS, n1) \<and>
     lin_feed lin_example ([0x12, 0x34] @ [0xEE]) n1 = Some n2 \<and> mem_bytes (n_ram n2) 0x100 2 = [0x12, 0x34]"
  using receive_session [OF lin_example_observer, of lin_example_node "0x100" 2 "[0x12, 0x34]" "0xEE"]
  by (auto simp: lin_example_defs)

text \<open>C14: a send session. The bytes that reach the transmitter are the data bytes in order followed
  by their checksum and nothing else; when all of them have been echoed the node is idle with the
  bus released and completion reported.\<close>

theorem send_session:
  assumes "observer soc" "serial_tx soc log" "n_stptr n" "buf \<noteq> 0" "0 < sz" "sz \<le> 8"
    and "currentPid (n_st n) \<noteq> 0" "\<not> isBusBusy (n_st n)" "currentNodeState (n_st n) \<noteq> LIN_NODE_STATE_SLEEP_MODE"
  shows "\<exists>n1 n2 c. LIN_LPUART_SendFrameData soc buf sz n = Some (LIN_SUCCESS, n1) \<and>
           LIN_MakeChecksumByte (n_ram n) buf sz (currentPid (n_st n)) = Some c \<and>
           lin_feed soc (mem_bytes (n_ram n) buf (unat sz) @ [c]) n1 = Some n2 \<and>
           log (n_dev n2) = log (n_dev n) @ mem_bytes (n_ram n) buf (unat sz) @ [c] \<and> n_ram n2 = n_ram n \<and>
           currentNodeState (n_st n2) = LIN_NODE_STATE_IDLE \<and> \<not> isBusBusy (n_st n2) \<and> \<not> isTxBusy (n_st n2) \<and>
           currentEventId (n_st n2) = LIN_TX_COMPLETED"
  by (rule send_run [OF assms])

theorem send_session_witness:
  "\<exists>n1 n2 c. LIN_LPUART_SendFrameData lin_example 0x100 2 lin_example_node = Some (LIN_SUCCESS, n1) \<and>
     lin_feed lin_example ([0x4A, 0x4A] @ [c]) n1 = Some n2 \<and> n_dev n2 = [0x4A, 0x4A] @ [c] \<and>
     currentEventId (n_st n2) = LIN_TX_COMPLETED"
  using send_session [OF lin_example_observer lin_example_serial, of lin_example_node "0x100" 2]
  by (fastforce simp: lin_example_defs mem_bytes_def upt_conv_Cons)

text \<open>C1: sender and receiver together. What the sender puts on the bus, delivered to a receiver
  that waits for a frame with the same protected identifier and length, is accepted there, and
  the receiver's buffer then holds the sender's data.\<close>

theorem frame_transfer:
  assumes "observer tx" "serial_tx tx log" "n_stptr n" "buf \<noteq> 0" "0 < sz" "sz \<le> 8"
    and "currentPid (n_st n) \<noteq> 0" "\<not> isBusBusy (n_st n)" "currentNodeState (n_st n) \<noteq> LIN_NODE_STATE_SLEEP_MODE"
    and "observer rx" "n_stptr m" "buf' \<noteq> 0" "currentPid (n_st m) = currentPid (n_st n)"
    and "\<not> isBusBusy (n_st m)" "currentNodeState (n_st m) \<noteq> LIN_NODE_STATE_SLEEP_MODE"
  shows "\<exists>w n1 n2 m1 m2. LIN_LPUART_SendFrameData tx buf sz n = Some (LIN_SUCCESS, n1) \<and>
           LIN_LPUART_RecvFrmData rx buf' sz m = Some (LIN_SUCCESS, m1) \<and>
           lin_feed tx w n1 = Some n2 \<and> log (n_dev n2) = log (n_dev n) @ w \<and> lin_feed rx w m1 = Some m2 \<and>
           currentEventId (n_st n2) = LIN_TX_COMPLETED \<and> currentEventId (n_st m2) = LIN_RX_COMPLETED \<and>
           mem_bytes (n_ram m2) buf' (unat sz) = mem_bytes (n_ram n) buf (unat sz)"
proof -
  let ?bs = "mem_bytes (n_ram n) buf (unat sz)"
  obtain n1 n2 c where s: "LIN_LPUART_SendFrameData tx buf sz n = Some (LIN_SUCCESS, n1)"
    "LIN_MakeChecksumByte (n_ram n) buf sz (currentPid (n_st n)) = Some c"
    "lin_feed tx (?bs @ [c]) n1 = Some n2" "log (n_dev n2) = log (n_dev n) @ ?bs @ [c]"
    "currentEventId (n_st n2) = LIN_TX_COMPLETED"
    using send_run [OF assms(1-9)] by blast
  have pid: "currentPid (n_st m) \<noteq> 0" using assms(7,13) by simp
  obtain m1 m2 where r: "LIN_LPUART_RecvFrmData rx buf' sz m = Some (LIN_SUCCESS, m1)"
    "lin_feed rx (?bs @ [c]) m1 = Some m2" "mem_bytes (n_ram m2) buf' (unat sz) = ?bs"
    "currentEventId (n_st m2) =
       (if LIN_MakeChecksumByte (n_ram m2) buf' sz (currentPid (n_st m)) = Some c
        then LIN_RX_COMPLETED else LIN_CHECKSUM_ERROR)"
    using recv_run [OF assms(10,11,12,5,6) pid assms(14,15), of ?bs c] by auto
  have "LIN_MakeChecksumByte (n_ram m2) buf' sz (currentPid (n_st n)) = Some c"
    by (rule lin_check.accepts_sent [OF s(2) r(3)])
  then show ?thesis using s r assms(13) by (intro exI [of _ "?bs @ [c]"] exI conjI) auto
qed

theorem frame_transfer_witness:
  "\<exists>w n1 n2 m1 m2. LIN_LPUART_SendFrameData lin_example 0x100 8 lin_example_node = Some (LIN_SUCCESS, n1) \<and>
     LIN_LPUART_RecvFrmData lin_example 0x200 8 lin_example_node = Some (LIN_SUCCESS, m1) \<and>
     lin_feed lin_example w n1 = Some n2 \<and> n_dev n2 = w \<and> lin_feed lin_example w m1 = Some m2 \<and>
     currentEventId (n_st m2) = LIN_RX_COMPLETED"
  using frame_transfer [OF lin_example_observer lin_example_serial, of lin_example_node "0x100" 8
      lin_example lin_example_node "0x200"] lin_example_observer
  by (fastforce simp: lin_example_defs)

text \<open>C22: bus errors while sending. If the byte that comes back is not the byte the node expects, a
  non-blocking sender reports a read-back error, puts nothing more on the bus, releases it and is
  idle; a sender in blocking mode reports the error and stays in the sending state.\<close>

theorem readback_error:
  assumes "observer soc" "serial_tx soc log" "n_stptr n" "currentNodeState (n_st n) = LIN_NODE_STATE_SEND_DATA"
    and "b \<noteq> tx_expected n"
  shows "\<exists>n'. LIN_LPUART_ProcessFrame soc b n = Some n' \<and> log (n_dev n') = log (n_dev n) \<and>
           n_ram n' = n_ram n \<and> cntByte (n_st n') = cntByte (n_st n) \<and>
           currentEventId (n_st n') = LIN_READBACK_ERROR \<and>
           (if isTxBlocking (n_st n)
            then currentNodeState (n_st n') = LIN_NODE_STATE_SEND_DATA \<and> isBusBusy (n_st n') = isBusBusy (n_st n)
            else currentNodeState (n_st n') = LIN_NODE_STATE_IDLE \<and> \<not> isBusBusy (n_st n') \<and> \<not> isTxBusy (n_st n'))"
  using assms serial_tx_empty [OF assms(2), of "n_dev n"]
  by (auto simp: LIN_LPUART_ProcessFrame_def LIN_LPUART_ProcessSendFrameData_def lin_readback_error_def
      tx_expected_def case_prod_beta Let_def io_frame goto_idle split: if_splits)

theorem readback_error_witness:
  "\<exists>n'. LIN_LPUART_ProcessFrame lin_example 0x4B
       (on_st (\<lambda>s. s\<lparr>currentNodeState := LIN_NODE_STATE_SEND_DATA, txSize := 3\<rparr>) lin_example_node) = Some n' \<and>
     currentEventId (n_st n') = LIN_READBACK_ERROR \<and> currentNodeState (n_st n') = LIN_NODE_STATE_IDLE"
  using readback_error [OF lin_example_observer lin_example_serial,
      of "on_st (\<lambda>s. s\<lparr>currentNodeState := LIN_NODE_STATE_SEND_DATA, txSize := 3\<rparr>) lin_example_node" "0x4B"]
  by (auto simp: lin_example_defs tx_expected_def)

end
