(* ===== verification/Lin_Bus.thy ===== *)
theory Lin_Bus
  imports Lin_Session
begin

text \<open>
  The LIN node beyond data bytes: the header exchange of master and slave, break and framing
  errors, timeouts, sleep and wake-up, and the instance-numbered interface of \<open>fsl_lin.c\<close>.
\<close>

subsection \<open>Header exchange\<close>

lemma master_break:
  assumes "serial_tx soc log" "n_stptr n" "n_cfgptr n" "nodeFunction (n_cfg n) = LIN_MASTER"
    and "currentNodeState (n_st n) = LIN_NODE_STATE_SEND_BREAK_FIELD"
  shows "\<exists>n'. LIN_LPUART_ProcessBreakDetect soc n = Some n' \<and> n_stptr n' \<and> n_cfgptr n' \<and> n_cfg n' = n_cfg n \<and>
           log (n_dev n') = log (n_dev n) @ [0x55] \<and>
           n_st n' = (n_st n)\<lparr>isBusBusy := True, currentNodeState := LIN_NODE_STATE_SEND_PID\<rparr>"
  using assms by (simp add: LIN_LPUART_ProcessBreakDetect_def io_frame Let_def)

lemma master_sync_echo:
  assumes "serial_tx soc log" "n_stptr n" "currentNodeState (n_st n) = LIN_NODE_STATE_SEND_PID"
  shows "\<exists>n'. LIN_LPUART_ProcessFrame soc 0x55 n = Some n' \<and> n_stptr n' \<and> n_cfgptr n' = n_cfgptr n \<and>
           n_cfg n' = n_cfg n \<and> log (n_dev n') = log (n_dev n) @ [currentPid (n_st n)] \<and>
           n_st n' = (n_st n)\<lparr>currentNodeState := LIN_NODE_STATE_RECV_PID\<rparr>"
  using assms by (simp add: LIN_LPUART_ProcessFrame_def LIN_LPUART_ProcessFrameHeader_def io_frame)

lemma master_pid_echo:
  assumes "observer soc" "n_stptr n" "n_cfgptr n" "nodeFunction (n_cfg n) = LIN_MASTER"
    and "currentNodeState (n_st n) = LIN_NODE_STATE_RECV_PID"
  shows "LIN_LPUART_ProcessFrame soc (currentPid (n_st n)) n =
           Some (on_st (\<lambda>s. s\<lparr>currentEventId := LIN_PID_OK, isBusBusy := False\<rparr>) n)"
  using assms by (simp add: LIN_LPUART_ProcessFrame_def LIN_LPUART_ProcessFrameHeader_def)

lemma slave_break:
  assumes "observer soc" "n_stptr n" "n_cfgptr n" "nodeFunction (n_cfg n) = LIN_SLAVE"
    and "currentNodeState (n_st n) \<noteq> LIN_NODE_STATE_SLEEP_MODE"
  shows "\<exists>n'. LIN_LPUART_ProcessBreakDetect soc n = Some n' \<and> n_stptr n' \<and> n_cfgptr n' \<and> n_cfg n' = n_cfg n \<and>
           n_ram n' = n_ram n \<and>
           n_st n' = (n_st n)\<lparr>isBusBusy := True, currentEventId := LIN_RECV_BREAK_FIELD_OK,
                              currentNodeState := LIN_NODE_STATE_RECV_SYNC\<rparr>"
  using assms by (simp add: LIN_LPUART_ProcessBreakDetect_def LIN_SLAVE_def LIN_MASTER_def Let_def)

lemma slave_sync:
  assumes "n_stptr n" "currentNodeState (n_st n) = LIN_NODE_STATE_RECV_SYNC"
  shows "LIN_LPUART_ProcessFrame soc 0x55 n =
           Some (on_st (\<lambda>s. s\<lparr>currentEventId := LIN_SYNC_OK, currentNodeState := LIN_NODE_STATE_RECV_PID\<rparr>) n)"
  using assms by (simp add: LIN_LPUART_ProcessFrame_def LIN_LPUART_ProcessFrameHeader_def)

lemma slave_pid:
  assumes "observer soc" "n_stptr n" "n_cfgptr n" "nodeFunction (n_cfg n) = LIN_SLAVE"
    and "currentNodeState (n_st n) = LIN_NODE_STATE_RECV_PID"
  shows "\<exists>n'. LIN_LPUART_ProcessFrame soc p n = Some n' \<and> n_stptr n' \<and> n_ram n' = n_ram n \<and>
           n_st n' = (n_st n)\<lparr>currentId := LIN_ProcessParity p CHECK_PARITY, currentPid := p, isBusBusy := False,
             currentEventId := (if LIN_ProcessParity p CHECK_PARITY = 0xFF then LIN_PID_ERROR else LIN_PID_OK),
             currentNodeState := (if LIN_ProcessParity p CHECK_PARITY = 0xFF then LIN_NODE_STATE_IDLE
                                  else LIN_NODE_STATE_RECV_PID)\<rparr>"
  using assms by (auto simp: LIN_LPUART_ProcessFrame_def LIN_LPUART_ProcessFrameHeader_def LIN_SLAVE_def
      LIN_MASTER_def goto_idle)

lemma master_start:
  assumes "serial_tx soc log" "n_stptr n" "n_cfgptr n" "nodeFunction (n_cfg n) = LIN_MASTER" "i \<le> 0x3F"
    and "\<not> isBusBusy (n_st n)" "currentNodeState (n_st n) \<noteq> LIN_NODE_STATE_SLEEP_MODE"
  shows "\<exists>n'. LIN_LPUART_MasterSendHeader soc i n = Some (LIN_SUCCESS, n') \<and> n_stptr n' \<and> n_cfgptr n' \<and>
           n_cfg n' = n_cfg n \<and> log (n_dev n') = log (n_dev n) \<and>
           n_st n' = (n_st n)\<lparr>currentId := i, currentPid := LIN_ProcessParity i MAKE_PARITY,
             currentNodeState := LIN_NODE_STATE_SEND_BREAK_FIELD, currentEventId := LIN_NO_EVENT,
             isBusBusy := True\<rparr>"
proof -
  have "\<not> 0x3F < i" using assms(5) by simp
  then show ?thesis using assms
    by (auto simp: LIN_LPUART_MasterSendHeader_def LIN_LPUART_QueueBreakChar_def LIN_SLAVE_def LIN_MASTER_def
        io_frame Let_def)
qed

subsection \<open>Timeouts\<close>

fun lin_timeouts :: "'d lin_soc \<Rightarrow> nat \<Rightarrow> 'd lin_node \<Rightarrow> 'd lin_node option" where
  "lin_timeouts soc 0 n = Some n"
| "lin_timeouts soc (Suc k) n = do { n \<leftarrow> lin_timeout_service soc n; lin_timeouts soc k n }"

lemma timeout_tick:
  assumes "n_stptr n" "currentNodeState (n_st n) \<in> {LIN_NODE_STATE_SEND_DATA, LIN_NODE_STATE_RECV_DATA}"
    and "timeoutCounter (n_st n) \<noteq> 0"
  shows "lin_timeout_service soc n = Some (on_st (\<lambda>s. s\<lparr>timeoutCounter := timeoutCounter s - 1\<rparr>) n)"
  using assms by (auto simp: lin_timeout_service_def)

lemma timeout_ticks:
  assumes "n_stptr n" "currentNodeState (n_st n) \<in> {LIN_NODE_STATE_SEND_DATA, LIN_NODE_STATE_RECV_DATA}"
    and "k \<le> unat (timeoutCounter (n_st n))"
  shows "lin_timeouts soc k n = Some (on_st (\<lambda>s. s\<lparr>timeoutCounter := timeoutCounter s - of_nat k\<rparr>) n)"
  using assms
proof (induction k arbitrary: n)
  case 0
  show ?case by (simp add: on_st_def)
next
  case (Suc k)
  let ?n = "on_st (\<lambda>s. s\<lparr>timeoutCounter := timeoutCounter s - 1\<rparr>) n"
  have ne: "timeoutCounter (n_st n) \<noteq> 0" using Suc.prems(3) by auto
  then have "k \<le> unat (timeoutCounter (n_st n) - 1)" using Suc.prems(3) by (simp add: unat_minus_small)
  then have "lin_timeouts soc k ?n = Some (on_st (\<lambda>s. s\<lparr>timeoutCounter := timeoutCounter s - of_nat k\<rparr>) ?n)"
    using Suc.prems by (intro Suc.IH) simp_all
  then show ?case using timeout_tick [OF Suc.prems(1,2) ne, of soc] by (simp add: on_st_def algebra_simps)
qed

lemma timeout_expiry:
  assumes "observer soc" "n_stptr n" "timeoutCounter (n_st n) = 0"
    and "currentNodeState (n_st n) \<in> {LIN_NODE_STATE_SEND_DATA, LIN_NODE_STATE_RECV_DATA}"
  shows "\<exists>n'. lin_timeout_service soc n = Some n' \<and> n_stptr n' \<and> currentNodeState (n_st n') = LIN_NODE_STATE_IDLE \<and>
           timeoutCounterFlag (n_st n') \<and> currentPid (n_st n') = currentPid (n_st n) \<and>
           isBusBusy (n_st n') =
             (isBusBusy (n_st n) \<and>
              (if currentNodeState (n_st n) = LIN_NODE_STATE_SEND_DATA then isTxBlocking (n_st n)
               else isRxBlocking (n_st n)))"
  using assms by (auto simp: lin_timeout_service_def goto_idle Let_def)

lemma lin_timeouts_snoc: "lin_timeouts soc (k + 1) n = do { n \<leftarrow> lin_timeouts soc k n; lin_timeout_service soc n }"
proof (induction k arbitrary: n)
  case (Suc k)
  show ?case
  proof (cases "lin_timeout_service soc n")
    case (Some m)
    with Suc.IH [of m] show ?thesis by simp
  qed simp
next
  case 0
  show ?case by (cases "lin_timeout_service soc n") simp_all
qed

lemma timeout_run:
  assumes "observer soc" "n_stptr n"
    and "currentNodeState (n_st n) \<in> {LIN_NODE_STATE_SEND_DATA, LIN_NODE_STATE_RECV_DATA}"
  shows "\<exists>n'. lin_timeouts soc (unat (timeoutCounter (n_st n)) + 1) n = Some n' \<and> n_stptr n' \<and>
           currentNodeState (n_st n') = LIN_NODE_STATE_IDLE \<and> timeoutCounterFlag (n_st n') \<and>
           currentPid (n_st n') = currentPid (n_st n) \<and>
           isBusBusy (n_st n') =
             (isBusBusy (n_st n) \<and>
              (if currentNodeState (n_st n) = LIN_NODE_STATE_SEND_DATA then isTxBlocking (n_st n)
               else isRxBlocking (n_st n)))"
  using timeout_ticks [OF assms(2,3) order_refl, of soc]
    timeout_expiry [OF assms(1), of "on_st (\<lambda>s. s\<lparr>timeoutCounter := timeoutCounter s - timeoutCounter (n_st n)\<rparr>) n"] assms(2,3)
  unfolding lin_timeouts_snoc by auto

lemma timeouts_idle:
  assumes "n_stptr n" "currentNodeState (n_st n) = LIN_NODE_STATE_IDLE"
  shows "lin_timeouts soc k n = Some n"
  using assms by (induction k) (simp_all add: lin_timeout_service_def)

text \<open>
  A blocking send that is accepted and whose bytes all come back: the node ends idle with the bus
  released, and the blocking mark and the timeout of the call stay in its state.
\<close>

lemma send_blocking_run:
  assumes "observer soc" "serial_tx soc log" "n_stptr n" "buf \<noteq> 0" "0 < sz" "sz \<le> 8" "currentPid (n_st n) \<noteq> 0"
    and "\<not> isBusBusy (n_st n)" "currentNodeState (n_st n) \<noteq> LIN_NODE_STATE_SLEEP_MODE"
  obtains n1 n2 c where "LIN_LPUART_SendFrameDataBlocking soc buf sz t n = Some (LIN_SUCCESS, n1)"
    "LIN_MakeChecksumByte (n_ram n) buf sz (currentPid (n_st n)) = Some c"
    "lin_feed soc (mem_bytes (n_ram n) buf (unat sz) @ [c]) n1 = Some n2"
    "n_stptr n2" "currentNodeState (n_st n2) = LIN_NODE_STATE_IDLE" "\<not> isBusBusy (n_st n2)"
    "txCompleted (n_st n2)" "isTxBlocking (n_st n2)" "timeoutCounter (n_st n2) = t"
    "currentPid (n_st n2) = currentPid (n_st n)"
proof -
  obtain c where c: "LIN_MakeChecksumByte (n_ram n) buf sz (currentPid (n_st n)) = Some c"
    using lin_check.mk_total [OF assms(7)] by blast
  let ?s = "(n_st n)\<lparr>checkSum := c, txBuff := buf, txSize := sz + 1, cntByte := 0, currentEventId := LIN_NO_EVENT,
      isBusBusy := True, isTxBusy := True, isTxBlocking := True, txCompleted := False,
      timeoutCounterFlag := False, timeoutCounter := t, currentNodeState := LIN_NODE_STATE_SEND_DATA\<rparr>"
  have sz: "\<not> 8 < sz" "sz \<noteq> 0" "unat (sz + 1) = unat sz + 1"
    using assms(5,6) unat_le_8 [OF assms(6)] by (auto simp: unat_plus_small)
  obtain n1 where n1: "LIN_LPUART_SendFrameDataBlocking soc buf sz t n = Some (LIN_SUCCESS, n1)" "n_stptr n1"
    "n_ram n1 = n_ram n" "n_st n1 = ?s" "log (n_dev n1) = log (n_dev n) @ [n_ram n buf]"
    using assms c sz
    by (auto simp: LIN_LPUART_SendFrameDataBlocking_def lin_clear_lbkde_def lin_set_timeout_def io_frame Let_def)
  have "sz + 1 \<noteq> 1" using assms(5) by auto
  then have e: "tx_expected n1 = n_ram n buf" using n1 by (simp add: tx_expected_def)
  obtain n2 where n2: "lin_feed soc (mem_bytes (n_ram n) buf (unat sz) @ [c]) n1 = Some n2" "n_stptr n2"
    "n_st n2 = (n_st n1)\<lparr>txBuff := txBuff (n_st n1) + of_nat (unat sz) + 1, cntByte := txSize (n_st n1),
       currentEventId := LIN_TX_COMPLETED, currentNodeState := LIN_NODE_STATE_IDLE, isBusBusy := False,
       isTxBusy := False, txCompleted := (txCompleted (n_st n1) \<or> isTxBlocking (n_st n1))\<rparr>"
    using send_rest [OF assms(1,2) n1(2), where bs = "mem_bytes (n_ram n) buf (unat sz)" and c = c and
        pre = "log (n_dev n)"] n1 sz e
    by auto
  show ?thesis by (rule that [OF n1(1) c n2(1,2)]) (simp_all add: n2(3) n1(4))
qed

lemma abort_frees:
  assumes "n_stptr n" "isBusBusy (n_st n)"
  shows "\<exists>n'. LIN_LPUART_AbortTransferData soc n = Some (LIN_SUCCESS, n') \<and> n_stptr n' \<and>
           n_st n' = (n_st n)\<lparr>currentNodeState := LIN_NODE_STATE_IDLE, isTxBusy := False, isRxBusy := False,
             isBusBusy := False\<rparr>"
  using assms by (simp add: LIN_LPUART_AbortTransferData_def goto_idle)

lemma busy_refused:
  assumes "n_stptr n" "currentNodeState (n_st n) \<noteq> LIN_NODE_STATE_SLEEP_MODE" "isBusBusy (n_st n)"
    and "b \<noteq> 0 \<and> 0 < z \<and> z \<le> 8"
  shows "LIN_LPUART_SendFrameData soc b z n = Some (LIN_BUS_BUSY, n) \<and>
         LIN_LPUART_SendFrameDataBlocking soc b z w n = Some (LIN_BUS_BUSY, n) \<and>
         LIN_LPUART_RecvFrmData soc b z n = Some (LIN_BUS_BUSY, n) \<and>
         LIN_LPUART_RecvFrmDataBlocking soc b z w n = Some (LIN_BUS_BUSY, n)"
proof -
  have "\<not> 8 < z" "z \<noteq> 0" using assms(4) by auto
  then show ?thesis
    using assms by (simp add: LIN_LPUART_SendFrameData_def LIN_LPUART_SendFrameDataBlocking_def
        LIN_LPUART_RecvFrmData_def LIN_LPUART_RecvFrmDataBlocking_def)
qed

subsection \<open>Reachable nodes\<close>

text \<open>
  One operation of the driver on a node: a call by the application, a timer tick, an edge
  captured for autobaud, or the interrupt handler.
\<close>

inductive lin_step :: "'d lin_soc \<Rightarrow> 'd lin_node \<Rightarrow> 'd lin_node \<Rightarrow> bool" for soc where
  send: "LIN_LPUART_SendFrameData soc buf sz n = Some (r, n') \<Longrightarrow> lin_step soc n n'"
| send_blocking: "LIN_LPUART_SendFrameDataBlocking soc buf sz t n = Some (r, n') \<Longrightarrow> lin_step soc n n'"
| recv: "LIN_LPUART_RecvFrmData soc buf sz n = Some (r, n') \<Longrightarrow> lin_step soc n n'"
| recv_blocking: "LIN_LPUART_RecvFrmDataBlocking soc buf sz t n = Some (r, n') \<Longrightarrow> lin_step soc n n'"
| header: "LIN_LPUART_MasterSendHeader soc i n = Some (r, n') \<Longrightarrow> lin_step soc n n'"
| abort: "LIN_LPUART_AbortTransferData soc n = Some (r, n') \<Longrightarrow> lin_step soc n n'"
| sleep: "LIN_LPUART_GoToSleepMode soc n = Some (r, n') \<Longrightarrow> lin_step soc n n'"
| idle: "LIN_LPUART_GotoIdleState soc n = Some (r, n') \<Longrightarrow> lin_step soc n n'"
| wakeup: "LIN_LPUART_SendWakeupSignal soc n = Some (r, n') \<Longrightarrow> lin_step soc n n'"
| enable_irq: "LIN_LPUART_EnableIRQ soc n = Some (r, n') \<Longrightarrow> lin_step soc n n'"
| disable_irq: "LIN_LPUART_DisableIRQ soc n = Some (r, n') \<Longrightarrow> lin_step soc n n'"
| timeout: "lin_timeout_service soc n = Some n' \<Longrightarrow> lin_step soc n n'"
| set_timeout: "lin_set_timeout t n = Some n' \<Longrightarrow> lin_step soc n n'"
| autobaud: "LIN_LPUART_AutoBaudCapture soc n = Some (r, n') \<Longrightarrow> lin_step soc n n'"
| irq: "LIN_LPUART_IRQHandler soc n = Some n' \<Longrightarrow> lin_step soc n n'"

inductive lin_reach :: "'d lin_soc \<Rightarrow> 'd lin_node \<Rightarrow> bool" for soc where
  init: "LIN_LPUART_Init soc cfg st freq n = Some (LIN_SUCCESS, cfg', st', n') \<Longrightarrow>
         lin_reach soc (n'\<lparr>n_stptr := True, n_st := st', n_cfgptr := True, n_cfg := cfg'\<rparr>)"
| step: "lin_reach soc n \<Longrightarrow> lin_step soc n n' \<Longrightarrow> lin_reach soc n'"

text \<open>
  Well-formed node states: while a frame is under way the counter is inside the frame, the frame
  is one to eight data bytes and a checksum, and the bus is marked busy; the intermediate states
  that exist only inside a handler are never seen from outside.
\<close>

definition lin_wf :: "lin_state \<Rightarrow> bool" where
  "lin_wf s \<longleftrightarrow>
     (case currentNodeState s of
        LIN_NODE_STATE_RECV_DATA \<Rightarrow> cntByte s < rxSize s \<and> 2 \<le> rxSize s \<and> rxSize s \<le> 9 \<and> isBusBusy s
      | LIN_NODE_STATE_SEND_DATA \<Rightarrow> cntByte s < txSize s \<and> 2 \<le> txSize s \<and> txSize s \<le> 9 \<and> isBusBusy s
      | LIN_NODE_STATE_SEND_BREAK_FIELD \<Rightarrow> isBusBusy s
      | LIN_NODE_STATE_SEND_PID \<Rightarrow> isBusBusy s
      | LIN_NODE_STATE_RECV_SYNC \<Rightarrow> isBusBusy s
      | LIN_NODE_STATE_IDLE \<Rightarrow> True
      | LIN_NODE_STATE_SLEEP_MODE \<Rightarrow> True
      | LIN_NODE_STATE_RECV_PID \<Rightarrow> True
      | _ \<Rightarrow> False)"

lemma lin_wf_IDLE: "currentNodeState s = LIN_NODE_STATE_IDLE \<Longrightarrow> lin_wf s"
  by (simp add: lin_wf_def)

lemma lin_wf_SEND: "currentNodeState s = LIN_NODE_STATE_SEND_DATA \<Longrightarrow>
    lin_wf s \<longleftrightarrow> cntByte s < txSize s \<and> 2 \<le> txSize s \<and> txSize s \<le> 9 \<and> isBusBusy s"
  by (simp add: lin_wf_def)

lemma size_plus_1: "sz \<noteq> 0 \<Longrightarrow> \<not> 8 < sz \<Longrightarrow> (0::u8) < sz + 1 \<and> 2 \<le> sz + 1 \<and> sz + 1 \<le> 9"
proof -
  assume "sz \<noteq> 0" "\<not> 8 < sz"
  then have "0 < unat sz" "unat sz \<le> 8" by (simp_all add: word_less_nat_alt unat_gt_0)
  then show ?thesis by (simp add: word_le_nat_alt word_less_nat_alt unat_plus_small)
qed

named_theorems lin_keeps \<open>operations that keep the node well-formed\<close>

lemma wf_send [lin_keeps]:
  "LIN_LPUART_SendFrameData soc buf sz n = Some (r, n') \<Longrightarrow> lin_wf (n_st n) \<Longrightarrow> lin_wf (n_st n')"
  by (auto simp: LIN_LPUART_SendFrameData_def lin_clear_lbkde_def lin_wf_def size_plus_1 bind_eq_Some_conv Let_def
      split: if_splits)

lemma wf_send_blocking [lin_keeps]:
  "LIN_LPUART_SendFrameDataBlocking soc buf sz t n = Some (r, n') \<Longrightarrow> lin_wf (n_st n) \<Longrightarrow> lin_wf (n_st n')"
  by (auto simp: LIN_LPUART_SendFrameDataBlocking_def lin_clear_lbkde_def lin_set_timeout_def lin_wf_def
      size_plus_1 bind_eq_Some_conv Let_def split: if_splits)

lemma wf_recv [lin_keeps]:
  "LIN_LPUART_RecvFrmData soc buf sz n = Some (r, n') \<Longrightarrow> lin_wf (n_st n) \<Longrightarrow> lin_wf (n_st n')"
  by (auto simp: LIN_LPUART_RecvFrmData_def lin_clear_lbkde_def lin_wf_def size_plus_1 Let_def split: if_splits)

lemma wf_recv_blocking [lin_keeps]:
  "LIN_LPUART_RecvFrmDataBlocking soc buf sz t n = Some (r, n') \<Longrightarrow> lin_wf (n_st n) \<Longrightarrow> lin_wf (n_st n')"
  by (auto simp: LIN_LPUART_RecvFrmDataBlocking_def lin_clear_lbkde_def lin_set_timeout_def lin_wf_def
      size_plus_1 Let_def split: if_splits)

lemma wf_header [lin_keeps]:
  "LIN_LPUART_MasterSendHeader soc i n = Some (r, n') \<Longrightarrow> lin_wf (n_st n) \<Longrightarrow> lin_wf (n_st n')"
  by (auto simp: LIN_LPUART_MasterSendHeader_def lin_wf_def Let_def split: if_splits)

lemma idle_result: "LIN_LPUART_GotoIdleState soc n = Some (r, n') \<Longrightarrow>
    n_st n' = (n_st n)\<lparr>currentNodeState := LIN_NODE_STATE_IDLE\<rparr> \<and> n_ram n' = n_ram n"
  by (auto simp: LIN_LPUART_GotoIdleState_def)

lemma wf_idle [lin_keeps]: "LIN_LPUART_GotoIdleState soc n = Some (r, n') \<Longrightarrow> lin_wf (n_st n')"
  by (auto dest!: idle_result simp: lin_wf_def)

lemma lin_wf_update [simp]:
  "lin_wf (s\<lparr>timeoutCounterFlag := b, timeoutCounter := t\<rparr>) = lin_wf s"
  "lin_wf (s\<lparr>timeoutCounter := t\<rparr>) = lin_wf s"
  "lin_wf (s\<lparr>timeoutCounterFlag := b\<rparr>) = lin_wf s"
  "lin_wf (s\<lparr>currentEventId := e\<rparr>) = lin_wf s"
  "lin_wf (s\<lparr>fallingEdgeInterruptCount := k\<rparr>) = lin_wf s"
  by (simp_all add: lin_wf_def cong: lin_node_state.case_cong)

lemma wf_abort [lin_keeps]:
  "LIN_LPUART_AbortTransferData soc n = Some (r, n') \<Longrightarrow> lin_wf (n_st n) \<Longrightarrow> lin_wf (n_st n')"
  by (auto simp: LIN_LPUART_AbortTransferData_def LIN_LPUART_GotoIdleState_def lin_wf_def Let_def split: if_splits)

lemma wf_sleep [lin_keeps]: "LIN_LPUART_GoToSleepMode soc n = Some (r, n') \<Longrightarrow> lin_wf (n_st n')"
  by (auto simp: LIN_LPUART_GoToSleepMode_def lin_wf_def)

lemma wf_simple [lin_keeps]:
  "LIN_LPUART_SendWakeupSignal soc n = Some (r, n') \<Longrightarrow> lin_wf (n_st n) \<Longrightarrow> lin_wf (n_st n')"
  "LIN_LPUART_EnableIRQ soc n = Some (r, n') \<Longrightarrow> lin_wf (n_st n) \<Longrightarrow> lin_wf (n_st n')"
  "LIN_LPUART_DisableIRQ soc n = Some (r, n') \<Longrightarrow> lin_wf (n_st n) \<Longrightarrow> lin_wf (n_st n')"
  "lin_set_timeout t n = Some n' \<Longrightarrow> lin_wf (n_st n) \<Longrightarrow> lin_wf (n_st n')"
  by (auto simp: LIN_LPUART_SendWakeupSignal_def LIN_LPUART_EnableIRQ_def LIN_LPUART_DisableIRQ_def
      lin_set_timeout_def Let_def split: if_splits)

lemma wf_timeout [lin_keeps]:
  assumes "observer soc" "lin_timeout_service soc n = Some n'" "lin_wf (n_st n)"
  shows "lin_wf (n_st n')"
  using assms(2,3)
  by (auto simp: lin_timeout_service_def observer_callback [OF assms(1)] bind_eq_Some_conv lin_wf_def Let_def
      dest!: idle_result split: if_splits lin_node_state.splits)

lemma wf_break [lin_keeps]:
  assumes "observer soc" "LIN_LPUART_ProcessBreakDetect soc n = Some n'" "lin_wf (n_st n)"
  shows "lin_wf (n_st n')"
  using assms(2,3)
  by (auto simp: LIN_LPUART_ProcessBreakDetect_def observer_callback [OF assms(1)] bind_eq_Some_conv lin_wf_def Let_def
      dest!: idle_result split: if_splits lin_node_state.splits)

lemma wf_frame_header [lin_keeps]:
  assumes "observer soc" "LIN_LPUART_ProcessFrameHeader soc b n = Some n'" "lin_wf (n_st n)"
  shows "lin_wf (n_st n')"
  using assms(2,3)
  by (auto simp: LIN_LPUART_ProcessFrameHeader_def observer_callback [OF assms(1)] bind_eq_Some_conv lin_wf_def Let_def
      dest!: idle_result split: if_splits lin_node_state.splits)

lemma wf_receive [lin_keeps]:
  assumes "observer soc" "LIN_LPUART_ProcessReceiveFrameData soc b n = Some n'" "lin_wf (n_st n)"
    and "currentNodeState (n_st n) = LIN_NODE_STATE_RECV_DATA"
  shows "lin_wf (n_st n')"
proof -
  have w: "cntByte (n_st n) < rxSize (n_st n)" "2 \<le> rxSize (n_st n)" "rxSize (n_st n) \<le> 9" "isBusBusy (n_st n)"
    using assms(3,4) by (simp_all add: lin_wf_def)
  have lt: "cntByte (n_st n) + 1 < rxSize (n_st n)" if "cntByte (n_st n) + 1 \<noteq> rxSize (n_st n)"
    using w(1) that by (metis inc_le order_le_less)
  show ?thesis
    using assms(2,4) w lt
    by (auto simp: LIN_LPUART_ProcessReceiveFrameData_def observer_callback [OF assms(1)] bind_eq_Some_conv
        lin_wf_def Let_def dest!: idle_result split: if_splits)
qed

lemma wf_readback [lin_keeps]:
  assumes "observer soc" "lin_readback_error soc n = Some n'" "lin_wf (n_st n)"
  shows "lin_wf (n_st n')"
proof (cases "isTxBlocking (n_st n)")
  case True
  then have "n_st n' = (n_st n)\<lparr>currentEventId := LIN_READBACK_ERROR\<rparr>"
    using assms(2) by (auto simp: lin_readback_error_def observer_callback [OF assms(1)])
  then show ?thesis using assms(3) by simp
next
  case False
  then show ?thesis
    using assms(2) by (auto simp: lin_readback_error_def observer_callback [OF assms(1)] bind_eq_Some_conv lin_wf_def
        dest!: idle_result)
qed

lemma wf_send_data [lin_keeps]:
  assumes "observer soc" "LIN_LPUART_ProcessSendFrameData soc b n = Some n'" "lin_wf (n_st n)"
    and "currentNodeState (n_st n) = LIN_NODE_STATE_SEND_DATA"
  shows "lin_wf (n_st n')"
proof -
  have w: "2 \<le> txSize (n_st n)" "txSize (n_st n) \<le> 9" "isBusBusy (n_st n)"
    using assms(3,4) by (simp_all add: lin_wf_SEND)
  have rb: "lin_readback_error soc (n\<lparr>n_dev := d\<rparr>) = Some m \<Longrightarrow> lin_wf (n_st m)" for d m
    using wf_readback [OF assms(1), of "n\<lparr>n_dev := d\<rparr>" m] assms(3) by simp
  have p: "n_stptr n" using assms(2) by (simp add: LIN_LPUART_ProcessSendFrameData_def)
  obtain f d where fd: "LIN_LPUART_GetStatusFlags soc (n_dev n) = (f, d)" by fastforce
  let ?err = "0 = f AND kLPUART_TxDataRegEmptyFlag soc \<or> b \<noteq> tx_expected n"
  show ?thesis
  proof (cases ?err)
    case True
    then have "lin_readback_error soc (n\<lparr>n_dev := d\<rparr>) = Some n'"
      using assms(2) p fd
      by (cases "lin_readback_error soc (n\<lparr>n_dev := d\<rparr>)")
         (auto simp: LIN_LPUART_ProcessSendFrameData_def tx_expected_def Let_def split: if_splits)
    then show ?thesis by (rule rb)
  next
    case False
    then show ?thesis
      using assms(2,4) p fd w
      by (auto simp: LIN_LPUART_ProcessSendFrameData_def observer_callback [OF assms(1)] goto_idle
          tx_expected_def lin_wf_SEND Let_def lin_wf_IDLE split: if_splits)
  qed
qed

lemma wf_frame [lin_keeps]:
  assumes "observer soc" "LIN_LPUART_ProcessFrame soc b n = Some n'" "lin_wf (n_st n)"
  shows "lin_wf (n_st n')"
  using assms(2,3) wf_frame_header [OF assms(1), of b n n'] wf_receive [OF assms(1), of b n n']
    wf_send_data [OF assms(1), of b n n']
  by (auto simp: LIN_LPUART_ProcessFrame_def split: lin_node_state.splits)

lemma wf_wakeup [lin_keeps]:
  assumes "observer soc" "LIN_LPUART_CheckWakeupSignal soc n = Some n'" "lin_wf (n_st n)"
  shows "lin_wf (n_st n')"
proof -
  obtain p d where pd: "LIN_LPUART_GetRxDataPolarity soc (n_dev n) = (p, d)" by fastforce
  have t: "lin_timer soc m = Some (t, m') \<Longrightarrow> n_st m' = n_st m" for m t m'
    by (erule observer_timer [OF assms(1)]) simp
  show ?thesis
  proof (cases p)
    case False
    with assms(2,3) pd show ?thesis
      by (auto simp: LIN_LPUART_CheckWakeupSignal_def bind_eq_Some_conv Let_def dest!: t split: if_splits)
  next
    case True
    let ?m = "on_dev (LIN_LPUART_SetRxDataPolarity soc False) (n\<lparr>n_dev := d\<rparr>)"
    from True assms(2) pd obtain l m where m: "lin_timer soc ?m = Some (l, m)"
      by (auto simp: LIN_LPUART_CheckWakeupSignal_def bind_eq_Some_conv)
    have st: "n_st m = n_st n" using t [OF m] by simp
    show ?thesis
    proof (cases "150000 \<le> l \<and> l \<le> 5000000")
      case True
      with \<open>p\<close> assms(2) pd m show ?thesis
        by (auto simp: LIN_LPUART_CheckWakeupSignal_def observer_callback [OF assms(1)] bind_eq_Some_conv
            intro: lin_wf_IDLE dest!: idle_result)
    next
      case False
      with \<open>p\<close> assms(2,3) pd m st show ?thesis
        by (auto simp: LIN_LPUART_CheckWakeupSignal_def split: if_splits)
    qed
  qed
qed

lemma wf_framing [lin_keeps]:
  assumes "observer soc" "lin_framing_error soc n = Some n'"
  shows "lin_wf (n_st n')"
  using assms(2)
  by (auto simp: lin_framing_error_def observer_callback [OF assms(1)] bind_eq_Some_conv Let_def
      intro!: lin_wf_IDLE dest!: idle_result split: if_splits)

lemma wf_cancel: "lin_cancel_capture soc n = Some n' \<Longrightarrow> lin_wf (n_st n')"
  by (auto simp: lin_cancel_capture_def bind_eq_Some_conv intro!: lin_wf_IDLE dest!: idle_result)

lemma wf_eval [lin_keeps]:
  assumes "LIN_LPUART_EvalTwoBitTimeLength soc t n = Some n'" "lin_wf (n_st n)"
  shows "lin_wf (n_st n')"
  using assms
  by (auto simp: LIN_LPUART_EvalTwoBitTimeLength_def bind_eq_Some_conv dest: wf_cancel split: if_splits)

lemma lin_wf_RECV_PID: "currentNodeState s = LIN_NODE_STATE_RECV_PID \<Longrightarrow> lin_wf s"
  by (simp add: lin_wf_def)

lemma wf_autobaud_eval [lin_keeps]:
  assumes "observer soc" "LIN_LPUART_AutobaudTimerValEval soc t n = Some n'" "lin_wf (n_st n)"
  shows "lin_wf (n_st n')"
  using assms(2,3)
  by (auto simp: LIN_LPUART_AutobaudTimerValEval_def observer_callback [OF assms(1)] bind_eq_Some_conv Let_def
      intro: lin_wf_RECV_PID dest: wf_cancel wf_eval split: if_splits)

lemma lin_wf_SYNC: "currentNodeState s = LIN_NODE_STATE_RECV_SYNC \<Longrightarrow> lin_wf s \<longleftrightarrow> isBusBusy s"
  by (simp add: lin_wf_def)

lemma wf_capture [lin_keeps]:
  assumes "observer soc" "lin_wf (n_st n)"
  shows "lin_capture_sleep soc t n = Some (r, n') \<Longrightarrow> lin_wf (n_st n')"
    and "lin_capture_idle soc t n = Some (r, n') \<Longrightarrow> lin_wf (n_st n')"
    and "lin_capture_sync soc n = Some (r, n') \<Longrightarrow> lin_wf (n_st n')"
proof -
  show "lin_capture_sleep soc t n = Some (r, n') \<Longrightarrow> lin_wf (n_st n')"
    using assms(2) by (auto simp: lin_capture_sleep_def observer_callback [OF assms(1)] bind_eq_Some_conv
        intro: lin_wf_IDLE dest!: idle_result split: if_splits)
  show "lin_capture_idle soc t n = Some (r, n') \<Longrightarrow> lin_wf (n_st n')"
    using assms(2) by (auto simp: lin_capture_idle_def observer_callback [OF assms(1)] lin_wf_SYNC Let_def split: if_splits)
  show "lin_capture_sync soc n = Some (r, n') \<Longrightarrow> lin_wf (n_st n')"
    using assms(2) wf_autobaud_eval [OF assms(1)] by (auto simp: lin_capture_sync_def bind_eq_Some_conv Let_def)
qed

lemma wf_autobaud [lin_keeps]:
  assumes "observer soc" "LIN_LPUART_AutoBaudCapture soc n = Some (r, n')" "lin_wf (n_st n)"
  shows "lin_wf (n_st n')"
proof (cases "baudrateEvalEnable (n_st n)")
  case False
  then show ?thesis using assms(2,3) by (auto simp: LIN_LPUART_AutoBaudCapture_def Let_def split: if_splits)
next
  case True
  with assms(2) obtain t m where m: "lin_timer soc n = Some (t, m)"
    by (auto simp: LIN_LPUART_AutoBaudCapture_def bind_eq_Some_conv)
  then have st: "n_st m = n_st n" by (elim observer_timer [OF assms(1)]) simp
  let ?m = "m\<lparr>s_timeMeasure := s_timeMeasure m + t, s_countMeasure := s_countMeasure m + 1\<rparr>"
  have "lin_wf (n_st ?m)" using st assms(3) by simp
  note c = wf_capture [OF assms(1) this]
  show ?thesis using True assms(2,3) m st c
    by (auto simp: LIN_LPUART_AutoBaudCapture_def Let_def split: if_splits lin_node_state.splits)
qed

lemma lin_flags_node [simp]:
  "n_st (snd (lin_flags soc k n)) = n_st n" "n_ram (snd (lin_flags soc k n)) = n_ram n"
  by (simp_all add: lin_flags_def case_prod_beta Let_def)

text \<open>
  The interrupt handler up to the overrun check: whatever it does is one of four handlers, or
  nothing, on a node that differs in the device only.
\<close>

lemma lin_flags_eq: "lin_flags soc k n = (v, m) \<Longrightarrow> n_st m = n_st n \<and> n_ram m = n_ram n"
  using lin_flags_node [of soc k n] by simp

lemma irq_cases:
  assumes "LIN_LPUART_IRQHandler soc n = Some n'"
  obtains m m' where "n_st m = n_st n" "n_ram m = n_ram n" "n_st n' = n_st m'" "n_ram n' = n_ram m'"
    "m' = m \<or> LIN_LPUART_ProcessBreakDetect soc m = Some m' \<or> LIN_LPUART_CheckWakeupSignal soc m = Some m' \<or>
     lin_framing_error soc m = Some m' \<or> (\<exists>b. LIN_LPUART_ProcessFrame soc b m = Some m')"
proof -
  obtain v d where vd: "reg_read soc L_BAUD (n_dev n) = (v, d)" by fastforce
  obtain brk n1 where f1: "lin_flags soc (kLPUART_LinBreakFlag soc) (n\<lparr>n_dev := d\<rparr>) = (brk, n1)" by fastforce
  obtain edge n2 where f2: "lin_flags soc (kLPUART_RxActiveEdgeFlag soc) n1 = (edge, n2)" by fastforce
  obtain fe n3 where f3: "lin_flags soc (kLPUART_FramingErrorFlag soc) n2 = (fe, n3)" by fastforce
  obtain rdrf n4 where f4: "lin_flags soc (kLPUART_RxDataRegFullFlag soc) n3 = (rdrf, n4)" by fastforce
  let ?n5 = "on_dev (\<lambda>d. snd (LIN_LPUART_ClearStatusFlags soc (kLPUART_RxDataRegFullFlag soc) d)) n4"
  obtain b d5 where rb: "LIN_LPUART_ReadByte soc (n_dev ?n5) = (b, d5)" by fastforce
  let ?e = "on_dev (\<lambda>d. snd (LIN_LPUART_ClearStatusFlags soc (kLPUART_RxActiveEdgeFlag soc) d)) n2"
  note same = lin_flags_eq [OF f1] lin_flags_eq [OF f2] lin_flags_eq [OF f3] lin_flags_eq [OF f4]
  define R where "R = (if brk \<noteq> 0 then LIN_LPUART_ProcessBreakDetect soc n1
     else if kLPUART_RxActiveEdgeFlag soc = edge \<and> v AND push_bit (RXEDGIE_SHIFT soc) 1 \<noteq> 0 then do {
            c_assert (n_stptr ?e);
            if currentNodeState (n_st ?e) = LIN_NODE_STATE_SLEEP_MODE
            then LIN_LPUART_CheckWakeupSignal soc ?e else Some ?e }
     else if fe \<noteq> 0 then do { c_assert (n_stptr n3); lin_framing_error soc n3 }
     else if rdrf \<noteq> 0 then LIN_LPUART_ProcessFrame soc b (?n5\<lparr>n_dev := d5\<rparr>) else Some n4)"
  have "LIN_LPUART_IRQHandler soc n = do {
      n \<leftarrow> R;
      let (ovr, n) = lin_flags soc (kLPUART_RxOverrunFlag soc) n;
      Some (if kLPUART_RxOverrunFlag soc = ovr
            then on_dev (\<lambda>d. snd (LIN_LPUART_ClearStatusFlags soc (kLPUART_RxOverrunFlag soc) d)) n else n) }"
    using rb by (simp add: LIN_LPUART_IRQHandler_def R_def vd f1 f2 f3 f4 Let_def)
  with assms obtain m' where m': "R = Some m'" "n_st n' = n_st m'" "n_ram n' = n_ram m'"
    by (auto simp: bind_eq_Some_conv Let_def case_prod_beta split: if_splits)
  from m'(1) show ?thesis
    using same m'(2,3)
    by (auto simp: R_def split: if_splits intro: that [of n1 m'] that [of ?e m'] that [of n3 m']
        that [of "?n5\<lparr>n_dev := d5\<rparr>" m'] that [of n4 m'])
qed

lemma wf_irq [lin_keeps]:
  assumes "observer soc" "LIN_LPUART_IRQHandler soc n = Some n'" "lin_wf (n_st n)"
  shows "lin_wf (n_st n')"
proof -
  obtain m m' where m: "n_st m = n_st n" "n_st n' = n_st m'"
    "m' = m \<or> LIN_LPUART_ProcessBreakDetect soc m = Some m' \<or> LIN_LPUART_CheckWakeupSignal soc m = Some m' \<or>
     lin_framing_error soc m = Some m' \<or> (\<exists>b. LIN_LPUART_ProcessFrame soc b m = Some m')"
    by (rule irq_cases [OF assms(2)]) blast
  then show ?thesis
    using assms(3) wf_break [OF assms(1), of m m'] wf_wakeup [OF assms(1), of m m'] wf_framing [OF assms(1), of m m']
      wf_frame [OF assms(1), of _ m m'] by auto
qed

lemma wf_step: "lin_step soc n n' \<Longrightarrow> observer soc \<Longrightarrow> lin_wf (n_st n) \<Longrightarrow> lin_wf (n_st n')"
  by (cases rule: lin_step.cases, assumption) (blast intro: lin_keeps)+

lemma wf_init: "LIN_LPUART_Init soc cfg st freq n = Some (LIN_SUCCESS, cfg', st', n') \<Longrightarrow> lin_wf st'"
  by (auto simp: LIN_LPUART_Init_def lin_init_state_def bind_eq_Some_conv lin_wf_def Let_def
      split: if_splits prod.splits)

lemma wf_reach: "lin_reach soc n \<Longrightarrow> observer soc \<Longrightarrow> lin_wf (n_st n)"
proof (induction rule: lin_reach.induct)
  case (init cfg st freq n cfg' st' n')
  then show ?case using wf_init [OF init(1)] by simp
qed (blast intro: wf_step)

subsection \<open>Memory the interrupt handler writes\<close>

lemma ram_break: "observer soc \<Longrightarrow> LIN_LPUART_ProcessBreakDetect soc n = Some n' \<Longrightarrow> n_ram n' = n_ram n"
  by (auto simp: LIN_LPUART_ProcessBreakDetect_def bind_eq_Some_conv Let_def dest!: idle_result split: if_splits)

lemma ram_framing: "observer soc \<Longrightarrow> lin_framing_error soc n = Some n' \<Longrightarrow> n_ram n' = n_ram n"
  by (auto simp: lin_framing_error_def bind_eq_Some_conv Let_def dest!: idle_result split: if_splits)

lemma ram_wakeup:
  assumes "observer soc" "LIN_LPUART_CheckWakeupSignal soc n = Some n'"
  shows "n_ram n' = n_ram n"
proof -
  obtain p d where pd: "LIN_LPUART_GetRxDataPolarity soc (n_dev n) = (p, d)" by fastforce
  have t: "lin_timer soc m = Some (t, m') \<Longrightarrow> n_ram m' = n_ram m" for m t m'
    by (erule observer_timer [OF assms(1)]) simp
  show ?thesis
  proof (cases p)
    case False
    with assms(2) pd show ?thesis
      by (auto simp: LIN_LPUART_CheckWakeupSignal_def bind_eq_Some_conv Let_def dest!: t split: if_splits)
  next
    case True
    let ?m = "on_dev (LIN_LPUART_SetRxDataPolarity soc False) (n\<lparr>n_dev := d\<rparr>)"
    from True assms(2) pd obtain l m where m: "lin_timer soc ?m = Some (l, m)"
      by (auto simp: LIN_LPUART_CheckWakeupSignal_def bind_eq_Some_conv)
    have "n_ram m = n_ram n" using t [OF m] by simp
    with True assms(2) pd m show ?thesis
      by (auto simp: LIN_LPUART_CheckWakeupSignal_def observer_callback [OF assms(1)] bind_eq_Some_conv
          dest!: idle_result split: if_splits)
  qed
qed

lemma ram_readback: "observer soc \<Longrightarrow> lin_readback_error soc n = Some n' \<Longrightarrow> n_ram n' = n_ram n"
  by (auto simp: lin_readback_error_def bind_eq_Some_conv dest!: idle_result split: if_splits)

lemma ram_send:
  assumes "observer soc" "LIN_LPUART_ProcessSendFrameData soc b n = Some n'"
  shows "n_ram n' = n_ram n"
  using assms(2)
  by (auto simp: LIN_LPUART_ProcessSendFrameData_def observer_callback [OF assms(1)] bind_eq_Some_conv Let_def
      case_prod_beta dest!: idle_result ram_readback [OF assms(1)] split: if_splits)

lemma ram_header: "observer soc \<Longrightarrow> LIN_LPUART_ProcessFrameHeader soc b n = Some n' \<Longrightarrow> n_ram n' = n_ram n"
  by (auto simp: LIN_LPUART_ProcessFrameHeader_def bind_eq_Some_conv Let_def dest!: idle_result
      split: if_splits lin_node_state.splits)

lemma ram_receive:
  assumes "observer soc" "LIN_LPUART_ProcessReceiveFrameData soc b n = Some n'"
  shows "n_ram n' = n_ram n \<or>
         unat (cntByte (n_st n)) + 1 < unat (rxSize (n_st n)) \<and> n_ram n' = (n_ram n)(rxBuff (n_st n) := b)"
proof -
  have "(ucast (cntByte (n_st n)) + 1 :: u32) < ucast (rxSize (n_st n)) \<longleftrightarrow>
      unat (cntByte (n_st n)) + 1 < unat (rxSize (n_st n))"
    using unat_u8_le [of "cntByte (n_st n)"] by (simp add: word_less_nat_alt unat_plus_small)
  then show ?thesis
    using assms(2)
    by (auto simp: LIN_LPUART_ProcessReceiveFrameData_def observer_callback [OF assms(1)] bind_eq_Some_conv Let_def
        dest!: idle_result split: if_splits)
qed

lemma ram_frame:
  assumes "observer soc" "LIN_LPUART_ProcessFrame soc b n = Some n'"
  shows "n_ram n' = n_ram n \<or> currentNodeState (n_st n) = LIN_NODE_STATE_RECV_DATA \<and>
         unat (cntByte (n_st n)) + 1 < unat (rxSize (n_st n)) \<and> n_ram n' = (n_ram n)(rxBuff (n_st n) := b)"
  using assms(2) ram_receive [OF assms(1), of b n n'] ram_header [OF assms(1), of b n n'] ram_send [OF assms(1), of b n n']
  by (auto simp: LIN_LPUART_ProcessFrame_def split: lin_node_state.splits)

lemma ram_irq:
  assumes "observer soc" "LIN_LPUART_IRQHandler soc n = Some n'"
  shows "n_ram n' = n_ram n \<or> currentNodeState (n_st n) = LIN_NODE_STATE_RECV_DATA \<and>
         unat (cntByte (n_st n)) + 1 < unat (rxSize (n_st n)) \<and> (\<exists>b. n_ram n' = (n_ram n)(rxBuff (n_st n) := b))"
proof -
  obtain m m' where m: "n_st m = n_st n" "n_ram m = n_ram n" "n_ram n' = n_ram m'"
    "m' = m \<or> LIN_LPUART_ProcessBreakDetect soc m = Some m' \<or> LIN_LPUART_CheckWakeupSignal soc m = Some m' \<or>
     lin_framing_error soc m = Some m' \<or> (\<exists>b. LIN_LPUART_ProcessFrame soc b m = Some m')"
    by (rule irq_cases [OF assms(2)]) blast
  from m(4) show ?thesis
    using m(1-3) ram_break [OF assms(1), of m m'] ram_wakeup [OF assms(1), of m m'] ram_framing [OF assms(1), of m m']
      ram_frame [OF assms(1), of _ m m'] by (elim disjE exE) auto
qed

subsection \<open>Properties\<close>

text \<open>C15: the header exchange. A master that sends the header of identifier \<open>i\<close> and sees its break
  and its bytes come back puts the sync byte and the protected identifier on the bus; a slave that
  is awake and gets the break and these two bytes ends up with identifier \<open>i\<close>, and both nodes
  report a correct identifier with the bus free for the response.\<close>

theorem header_exchange:
  assumes "observer ms" "serial_tx ms log" "n_stptr n" "n_cfgptr n" "nodeFunction (n_cfg n) = LIN_MASTER" "i \<le> 0x3F"
    and "\<not> isBusBusy (n_st n)" "currentNodeState (n_st n) \<noteq> LIN_NODE_STATE_SLEEP_MODE"
    and "observer sl" "n_stptr m" "n_cfgptr m" "nodeFunction (n_cfg m) = LIN_SLAVE"
    and "currentNodeState (n_st m) \<noteq> LIN_NODE_STATE_SLEEP_MODE"
  shows "\<exists>n1 n2 n3 m1 m2 pid. pid = LIN_ProcessParity i MAKE_PARITY \<and>
           LIN_LPUART_MasterSendHeader ms i n = Some (LIN_SUCCESS, n1) \<and>
           LIN_LPUART_ProcessBreakDetect ms n1 = Some n2 \<and> lin_feed ms [0x55, pid] n2 = Some n3 \<and>
           log (n_dev n3) = log (n_dev n) @ [0x55, pid] \<and>
           LIN_LPUART_ProcessBreakDetect sl m = Some m1 \<and> lin_feed sl [0x55, pid] m1 = Some m2 \<and>
           currentEventId (n_st n3) = LIN_PID_OK \<and> \<not> isBusBusy (n_st n3) \<and>
           currentEventId (n_st m2) = LIN_PID_OK \<and> \<not> isBusBusy (n_st m2) \<and>
           currentId (n_st m2) = i \<and> currentPid (n_st m2) = currentPid (n_st n3)"
proof -
  let ?p = "LIN_ProcessParity i MAKE_PARITY"
  obtain n1 where n1: "LIN_LPUART_MasterSendHeader ms i n = Some (LIN_SUCCESS, n1)" "n_stptr n1" "n_cfgptr n1"
    "n_cfg n1 = n_cfg n" "log (n_dev n1) = log (n_dev n)" "currentPid (n_st n1) = ?p"
    "currentNodeState (n_st n1) = LIN_NODE_STATE_SEND_BREAK_FIELD"
    using master_start [OF assms(2-8)] by auto
  obtain n2 where n2: "LIN_LPUART_ProcessBreakDetect ms n1 = Some n2" "n_stptr n2" "n_cfgptr n2" "n_cfg n2 = n_cfg n"
    "log (n_dev n2) = log (n_dev n) @ [0x55]" "currentPid (n_st n2) = ?p"
    "currentNodeState (n_st n2) = LIN_NODE_STATE_SEND_PID"
    using master_break [OF assms(2) n1(2,3)] n1 assms(5) by auto
  obtain n3 where n3: "LIN_LPUART_ProcessFrame ms 0x55 n2 = Some n3" "n_stptr n3" "n_cfgptr n3" "n_cfg n3 = n_cfg n"
    "log (n_dev n3) = log (n_dev n) @ [0x55, ?p]" "currentPid (n_st n3) = ?p"
    "currentNodeState (n_st n3) = LIN_NODE_STATE_RECV_PID"
    using master_sync_echo [OF assms(2) n2(2,7)] n2 by auto
  let ?n4 = "on_st (\<lambda>s. s\<lparr>currentEventId := LIN_PID_OK, isBusBusy := False\<rparr>) n3"
  have n4: "LIN_LPUART_ProcessFrame ms ?p n3 = Some ?n4"
    using master_pid_echo [OF assms(1) n3(2,3) _ n3(7)] n3(4,6) assms(5) by simp
  obtain m1 where m1: "LIN_LPUART_ProcessBreakDetect sl m = Some m1" "n_stptr m1" "n_cfgptr m1" "n_cfg m1 = n_cfg m"
    "currentNodeState (n_st m1) = LIN_NODE_STATE_RECV_SYNC"
    using slave_break [OF assms(9-13)] by auto
  let ?m2 = "on_st (\<lambda>s. s\<lparr>currentEventId := LIN_SYNC_OK, currentNodeState := LIN_NODE_STATE_RECV_PID\<rparr>) m1"
  have m2: "LIN_LPUART_ProcessFrame sl 0x55 m1 = Some ?m2" by (rule slave_sync [OF m1(2,5)])
  have ok: "LIN_ProcessParity ?p CHECK_PARITY = i" "LIN_ProcessParity ?p CHECK_PARITY \<noteq> 0xFF"
    using make_parity_ok [OF assms(6)] made_pid_valid [OF assms(6)] by simp_all
  obtain m3 where m3: "LIN_LPUART_ProcessFrame sl ?p ?m2 = Some m3" "currentId (n_st m3) = i" "currentPid (n_st m3) = ?p"
    "currentEventId (n_st m3) = LIN_PID_OK" "\<not> isBusBusy (n_st m3)"
    using slave_pid [OF assms(9), of ?m2 ?p] m1 assms(12) ok by auto
  show ?thesis
    using n1(1) n2(1) n3 n4 m1(1) m2 m3
    by (intro exI [of _ n1] exI [of _ n2] exI [of _ ?n4] exI [of _ m1] exI [of _ m3] exI [of _ ?p]) simp
qed

definition lin_example_slave :: "u8 list lin_node" where
  "lin_example_slave = lin_example_node\<lparr>n_cfg := LIN_GetSlaveDefaultConfig\<rparr>"

theorem header_exchange_witness:
  "\<exists>n1 m1 m2 pid. LIN_LPUART_MasterSendHeader lin_example 0x3C lin_example_node = Some (LIN_SUCCESS, n1) \<and>
     LIN_LPUART_ProcessBreakDetect lin_example lin_example_slave = Some m1 \<and>
     lin_feed lin_example [0x55, pid] m1 = Some m2 \<and> currentId (n_st m2) = 0x3C"
proof -
  have "(0x3C :: u8) \<le> 0x3F" by simp
  then show ?thesis
    using header_exchange [OF lin_example_observer lin_example_serial, of lin_example_node "0x3C"
        lin_example lin_example_slave] lin_example_observer
    by (fastforce simp: lin_example_slave_def LIN_GetSlaveDefaultConfig_def lin_example_defs LIN_SLAVE_def)
qed

text \<open>C18: timeouts. The calls of the timeout service that a node gets while it is sending or
  receiving, with no other event, only count down for as many calls as the counter says: nothing of
  the node but the counter changes. The next call takes the node to the idle state with the timeout
  flag set; the bus is released unless the blocking mark of the direction is set.\<close>

theorem timeout_liveness:
  assumes "observer soc" "n_stptr n"
    and "currentNodeState (n_st n) \<in> {LIN_NODE_STATE_SEND_DATA, LIN_NODE_STATE_RECV_DATA}"
  shows "(\<forall>k. k \<le> unat (timeoutCounter (n_st n)) \<longrightarrow>
           lin_timeouts soc k n = Some (on_st (\<lambda>s. s\<lparr>timeoutCounter := timeoutCounter s - of_nat k\<rparr>) n)) \<and>
         (\<exists>n'. lin_timeouts soc (unat (timeoutCounter (n_st n)) + 1) n = Some n' \<and> n_stptr n' \<and>
           currentNodeState (n_st n') = LIN_NODE_STATE_IDLE \<and> timeoutCounterFlag (n_st n') \<and>
           isBusBusy (n_st n') =
             (isBusBusy (n_st n) \<and>
              (if currentNodeState (n_st n) = LIN_NODE_STATE_SEND_DATA then isTxBlocking (n_st n)
               else isRxBlocking (n_st n))))"
  using timeout_ticks [OF assms(2,3), of _ soc] timeout_run [OF assms] by blast

theorem timeout_liveness_witness:
  "\<exists>m m'. lin_timeouts lin_example 3 (on_st (\<lambda>s. s\<lparr>currentNodeState := LIN_NODE_STATE_RECV_DATA,
       timeoutCounter := 3, isBusBusy := True\<rparr>) lin_example_node) = Some m \<and>
     currentNodeState (n_st m) = LIN_NODE_STATE_RECV_DATA \<and> timeoutCounter (n_st m) = 0 \<and> isBusBusy (n_st m) \<and>
     lin_timeouts lin_example 4 (on_st (\<lambda>s. s\<lparr>currentNodeState := LIN_NODE_STATE_RECV_DATA,
       timeoutCounter := 3, isBusBusy := True\<rparr>) lin_example_node) = Some m' \<and>
     currentNodeState (n_st m') = LIN_NODE_STATE_IDLE \<and> \<not> isBusBusy (n_st m')"
  using timeout_liveness [OF lin_example_observer, of "on_st (\<lambda>s. s\<lparr>currentNodeState := LIN_NODE_STATE_RECV_DATA,
       timeoutCounter := 3, isBusBusy := True\<rparr>) lin_example_node"]
  by (auto simp: lin_example_defs simp del: lin_timeouts.simps)

text \<open>C28: the blocking mark of an earlier transfer outlives it. A blocking send that is accepted and
  completed sets \<open>isTxBlocking\<close>, and the non-blocking \<open>LIN_LPUART_SendFrameData\<close> that follows does not
  clear it. When this second frame gets no answer and times out, the node is idle, but the bus is
  still marked busy: every request to send or receive a frame is then refused with
  \<open>LIN_BUS_BUSY\<close> and leaves the node as it is, and more calls of the timeout service change nothing.
  \<open>LIN_LPUART_AbortTransferData\<close> releases the bus, after which a frame is accepted again.\<close>

theorem stale_blocking_mark:
  assumes "observer soc" "serial_tx soc log" "n_stptr n" "buf \<noteq> 0" "0 < sz" "sz \<le> 8" "currentPid (n_st n) \<noteq> 0"
    and "\<not> isBusBusy (n_st n)" "currentNodeState (n_st n) \<noteq> LIN_NODE_STATE_SLEEP_MODE"
    and "buf' \<noteq> 0" "0 < sz'" "sz' \<le> 8"
  shows "\<exists>n1 n2 n3 n4 n5 n6 c.
           LIN_LPUART_SendFrameDataBlocking soc buf sz t n = Some (LIN_SUCCESS, n1) \<and>
           LIN_MakeChecksumByte (n_ram n) buf sz (currentPid (n_st n)) = Some c \<and>
           lin_feed soc (mem_bytes (n_ram n) buf (unat sz) @ [c]) n1 = Some n2 \<and>
           currentNodeState (n_st n2) = LIN_NODE_STATE_IDLE \<and> \<not> isBusBusy (n_st n2) \<and> txCompleted (n_st n2) \<and>
           LIN_LPUART_SendFrameData soc buf' sz' n2 = Some (LIN_SUCCESS, n3) \<and>
           lin_timeouts soc (unat t + 1) n3 = Some n4 \<and>
           currentNodeState (n_st n4) = LIN_NODE_STATE_IDLE \<and> timeoutCounterFlag (n_st n4) \<and>
           (\<forall>b z w. b \<noteq> 0 \<and> 0 < z \<and> z \<le> 8 \<longrightarrow>
              LIN_LPUART_SendFrameData soc b z n4 = Some (LIN_BUS_BUSY, n4) \<and>
              LIN_LPUART_SendFrameDataBlocking soc b z w n4 = Some (LIN_BUS_BUSY, n4) \<and>
              LIN_LPUART_RecvFrmData soc b z n4 = Some (LIN_BUS_BUSY, n4) \<and>
              LIN_LPUART_RecvFrmDataBlocking soc b z w n4 = Some (LIN_BUS_BUSY, n4)) \<and>
           (\<forall>k. lin_timeouts soc k n4 = Some n4) \<and>
           LIN_LPUART_AbortTransferData soc n4 = Some (LIN_SUCCESS, n5) \<and>
           LIN_LPUART_SendFrameData soc buf' sz' n5 = Some (LIN_SUCCESS, n6)"
proof -
  obtain n1 n2 c where n1: "LIN_LPUART_SendFrameDataBlocking soc buf sz t n = Some (LIN_SUCCESS, n1)"
      "LIN_MakeChecksumByte (n_ram n) buf sz (currentPid (n_st n)) = Some c"
      "lin_feed soc (mem_bytes (n_ram n) buf (unat sz) @ [c]) n1 = Some n2"
    and n2: "n_stptr n2" "currentNodeState (n_st n2) = LIN_NODE_STATE_IDLE" "\<not> isBusBusy (n_st n2)"
      "txCompleted (n_st n2)" "isTxBlocking (n_st n2)" "timeoutCounter (n_st n2) = t"
      "currentPid (n_st n2) = currentPid (n_st n)"
    by (rule send_blocking_run [OF assms(1-9), of t])
  have p2: "currentPid (n_st n2) \<noteq> 0" "currentNodeState (n_st n2) \<noteq> LIN_NODE_STATE_SLEEP_MODE"
    using n2 assms(7) by simp_all
  obtain n3 c2 where n3: "LIN_LPUART_SendFrameData soc buf' sz' n2 = Some (LIN_SUCCESS, n3)" "n_stptr n3"
    "n_st n3 = (n_st n2)\<lparr>checkSum := c2, txBuff := buf', txSize := sz' + 1, cntByte := 0,
       currentNodeState := LIN_NODE_STATE_SEND_DATA, currentEventId := LIN_NO_EVENT,
       isBusBusy := True, isTxBusy := True\<rparr>"
    by (rule send_start [OF assms(2) n2(1) assms(10-12) p2(1) n2(3) p2(2)])
  obtain n4 where n4: "lin_timeouts soc (unat t + 1) n3 = Some n4" "n_stptr n4"
    "currentNodeState (n_st n4) = LIN_NODE_STATE_IDLE" "timeoutCounterFlag (n_st n4)" "isBusBusy (n_st n4)"
    "currentPid (n_st n4) = currentPid (n_st n2)"
    using timeout_run [OF assms(1) n3(2)] n3(3) n2(5,6) by auto
  obtain n5 where n5: "LIN_LPUART_AbortTransferData soc n4 = Some (LIN_SUCCESS, n5)" "n_stptr n5"
    "currentNodeState (n_st n5) \<noteq> LIN_NODE_STATE_SLEEP_MODE" "\<not> isBusBusy (n_st n5)" "currentPid (n_st n5) \<noteq> 0"
    using abort_frees [OF n4(2,5), of soc] n4(6) p2(1) by auto
  obtain n6 where n6: "LIN_LPUART_SendFrameData soc buf' sz' n5 = Some (LIN_SUCCESS, n6)"
    by (rule send_start [OF assms(2) n5(2) assms(10-12) n5(5,4,3)])
  have awake: "currentNodeState (n_st n4) \<noteq> LIN_NODE_STATE_SLEEP_MODE" using n4(3) by simp
  show ?thesis
    using n1 n2(2-4) n3(1) n4(1,3,4) busy_refused [OF n4(2) awake n4(5), of _ _ soc]
      timeouts_idle [OF n4(2,3), of soc] n5(1) n6
    by blast
qed

theorem stale_blocking_mark_witness:
  "\<exists>n1 n2 n3 n4 c. LIN_LPUART_SendFrameDataBlocking lin_example 0x100 2 5 lin_example_node = Some (LIN_SUCCESS, n1) \<and>
     lin_feed lin_example ([0x4A, 0x4A] @ [c]) n1 = Some n2 \<and>
     LIN_LPUART_SendFrameData lin_example 0x200 4 n2 = Some (LIN_SUCCESS, n3) \<and>
     lin_timeouts lin_example 6 n3 = Some n4 \<and> currentNodeState (n_st n4) = LIN_NODE_STATE_IDLE \<and>
     LIN_LPUART_RecvFrmData lin_example 0x300 8 n4 = Some (LIN_BUS_BUSY, n4)"
proof -
  have m: "mem_bytes (n_ram lin_example_node) 0x100 (unat (2 :: u8)) = [0x4A, 0x4A]"
    by (simp add: mem_bytes_def lin_example_node_def upt_conv_Cons)
  have pre: "n_stptr lin_example_node" "(0x100 :: u32) \<noteq> 0" "(0 :: u8) < 2" "(2 :: u8) \<le> 8"
    "currentPid (n_st lin_example_node) \<noteq> 0" "\<not> isBusBusy (n_st lin_example_node)"
    "currentNodeState (n_st lin_example_node) \<noteq> LIN_NODE_STATE_SLEEP_MODE"
    "(0x200 :: u32) \<noteq> 0" "(0 :: u8) < 4" "(4 :: u8) \<le> 8"
    by (simp_all add: lin_example_defs)
  have six: "unat (5 :: u32) + 1 = 6" by simp
  have h: "(0x300 :: u32) \<noteq> 0 \<and> (0 :: u8) < 8 \<and> (8 :: u8) \<le> 8" by simp
  show ?thesis
    using stale_blocking_mark [OF lin_example_observer lin_example_serial pre, of 5] h
    unfolding m six by blast
qed

lemma lin_example_baud: "LIN_LPUART_CalculateBaudRate 19200 48000000 (0, 0) = Some (kStatus_Success, 25, 100)"
  by code_simp

lemma lin_example_init:
  "\<exists>n'. LIN_LPUART_Init lin_example LIN_GetMasterDefaultConfig lin_example_state 48000000 lin_example_node =
     Some (LIN_SUCCESS, LIN_GetMasterDefaultConfig, lin_init_state 48000000 lin_example_state, n')"
  by (simp add: LIN_LPUART_Init_def LIN_GetMasterDefaultConfig_def LIN_MASTER_def LIN_SLAVE_def lin_example_baud)

lemma lin_example_reach: "\<exists>n. lin_reach lin_example n"
  using lin_example_init lin_reach.init by blast

text \<open>C2: the invariant of the node's state machine. After a successful initialisation and any
  sequence of driver calls, timer ticks, captures and interrupts, with callbacks that only
  observe: while a frame is under way its counter is below its size, its size is 2 to 9 and the
  bus is marked busy, and the states that exist only inside a handler are never left behind.\<close>

theorem reachable_well_formed:
  assumes "lin_reach soc n" "observer soc"
  shows "lin_wf (n_st n)"
  by (rule wf_reach [OF assms])

theorem reachable_well_formed_witness: "\<exists>n. lin_reach lin_example n \<and> lin_wf (n_st n)"
  using lin_example_reach reachable_well_formed lin_example_observer by blast

lemma dispatch_isolated:
  "(\<not> i < count \<longrightarrow> lin_dispatch count f i sys = Some (LIN_IFC_NOT_SUPPORT, sys)) \<and>
   (lin_dispatch count f i sys = Some (r, sys') \<longrightarrow> (\<forall>j. j \<noteq> i \<longrightarrow> sys' j = sys j))"
  by (auto simp: lin_dispatch_def bind_eq_Some_conv split: prod.splits)

lemmas lin_api_defs =
  LIN_Init_def LIN_Deinit_def LIN_SendFrameData_def LIN_SendFrameDataBlocking_def LIN_ReceiveFrameData_def
  LIN_ReceiveFrameDataBlocking_def LIN_AbortTransferData_def LIN_GoToSleepMode_def LIN_GotoIdleState_def
  LIN_SendWakeupSignal_def LIN_MasterSendHeader_def LIN_EnableIRQ_def LIN_DisableIRQ_def LIN_AutoBaudCapture_def

text \<open>The numbered interface. A call for an instance the chip does not have returns
  \<open>LIN_IFC_NOT_SUPPORT\<close> and changes nothing; a call for an existing instance changes no other
  instance.\<close>

lemma instance_isolation:
  assumes "f \<in> {\<lambda>i. LIN_Init count soc i cfg st freq, LIN_Deinit count soc, \<lambda>i. LIN_SendFrameData count soc i buf sz,
      \<lambda>i. LIN_SendFrameDataBlocking count soc i buf sz t, \<lambda>i. LIN_ReceiveFrameData count soc i buf sz,
      \<lambda>i. LIN_ReceiveFrameDataBlocking count soc i buf sz t, LIN_AbortTransferData count soc,
      LIN_GoToSleepMode count soc, LIN_GotoIdleState count soc, LIN_SendWakeupSignal count soc,
      \<lambda>i. LIN_MasterSendHeader count soc i ident, LIN_EnableIRQ count soc, LIN_DisableIRQ count soc,
      LIN_AutoBaudCapture count soc}"
  shows "(\<not> i < count \<longrightarrow> f i sys = Some (LIN_IFC_NOT_SUPPORT, sys)) \<and>
         (f i sys = Some (r, sys') \<longrightarrow> (\<forall>j. j \<noteq> i \<longrightarrow> sys' j = sys j))"
  using assms dispatch_isolated by (elim insertE emptyE) (simp_all only: lin_api_defs)

lemma instance_isolation_example:
  "LIN_GotoIdleState 2 lin_example 7 (\<lambda>_. lin_example_node) = Some (LIN_IFC_NOT_SUPPORT, \<lambda>_. lin_example_node)"
  using instance_isolation [of "LIN_GotoIdleState 2 lin_example" 2 lin_example _ _ _ _ _ _ _ 7] by auto

text \<open>life cycle. After a successful \<open>LIN_Init\<close> the instance is in the idle state with no
  transfer marked and its timeout cleared; after \<open>LIN_Deinit\<close>, whatever it returned, the instance
  is reported as uninitialised.\<close>

theorem init_deinit:
  "(LIN_Init count soc i cfg st freq sys = Some (LIN_SUCCESS, sys') \<longrightarrow>
      LIN_GetCurrentNodeState count i sys' = LIN_NODE_STATE_IDLE \<and>
      (let s = n_st (sys' i) in \<not> isBusBusy s \<and> \<not> isTxBusy s \<and> \<not> isRxBusy s \<and> \<not> timeoutCounterFlag s \<and>
         \<not> isTxBlocking s \<and> \<not> isRxBlocking s)) \<and>
   (LIN_Deinit count soc i sys = Some (r, sys'') \<longrightarrow>
      LIN_GetCurrentNodeState count i sys'' = LIN_NODE_STATE_UNINIT)"
proof (intro conjI impI)
  assume a: "LIN_Init count soc i cfg st freq sys = Some (LIN_SUCCESS, sys')"
  then have i: "i < count" by (simp add: LIN_Init_def lin_dispatch_def split: if_splits)
  with a obtain cfg' st' n' where L: "LIN_LPUART_Init soc cfg st freq (sys i) = Some (LIN_SUCCESS, cfg', st', n')"
    "sys' = sys(i := n'\<lparr>n_stptr := True, n_st := st', n_cfgptr := True, n_cfg := cfg'\<rparr>)"
    by (auto simp: LIN_Init_def lin_dispatch_def bind_eq_Some_conv)
  moreover from L(1) obtain s0 where "st' = lin_init_state freq s0"
    by (auto simp: LIN_LPUART_Init_def bind_eq_Some_conv Let_def split: if_splits prod.splits)
  ultimately show "LIN_GetCurrentNodeState count i sys' = LIN_NODE_STATE_IDLE"
    "let s = n_st (sys' i) in \<not> isBusBusy s \<and> \<not> isTxBusy s \<and> \<not> isRxBusy s \<and> \<not> timeoutCounterFlag s \<and>
         \<not> isTxBlocking s \<and> \<not> isRxBlocking s"
    using i by (simp_all add: LIN_GetCurrentNodeState_def lin_init_state_def)
next
  assume "LIN_Deinit count soc i sys = Some (r, sys'')"
  then show "LIN_GetCurrentNodeState count i sys'' = LIN_NODE_STATE_UNINIT"
    by (auto simp: LIN_Deinit_def lin_dispatch_def LIN_GetCurrentNodeState_def bind_eq_Some_conv split: if_splits)
qed

lemma init_deinit_example:
  "\<exists>sys'. LIN_Init 1 lin_example 0 LIN_GetMasterDefaultConfig lin_example_state 48000000 (\<lambda>_. lin_example_node) =
       Some (LIN_SUCCESS, sys') \<and> LIN_GetCurrentNodeState 1 0 sys' = LIN_NODE_STATE_IDLE"
proof -
  obtain sys' where s: "LIN_Init 1 lin_example 0 LIN_GetMasterDefaultConfig lin_example_state 48000000
      (\<lambda>_. lin_example_node) = Some (LIN_SUCCESS, sys')"
    using lin_example_init by (auto simp: LIN_Init_def lin_dispatch_def)
  then show ?thesis using init_deinit [of 1 lin_example 0] by blast
qed

end
