(* ===== verification/Lin_Memory.thy ===== *)
theory Lin_Memory
  imports Lin_Bus
begin

text \<open>
  Which memory the LIN driver writes. A receive request names a buffer and a size; from the call
  that is accepted until the node leaves the receiving state, the receive pointer, the byte counter
  and the frame size of the state structure stay tied to that request, whatever calls, timer ticks,
  captures and interrupts come in between. The interrupt handler therefore writes into the buffer
  of the request under way and nowhere else.
\<close>

subsection \<open>The request under way\<close>

text \<open>
  \<open>lin_receiving soc buf sz n\<close>: the node \<open>n\<close> is receiving the frame that was requested with the
  arguments \<open>buf\<close> and \<open>sz\<close>. It begins with an accepted request in a reachable node and goes on with
  every operation that leaves the node in the receiving state.
\<close>

inductive lin_receiving :: "'d lin_soc \<Rightarrow> u32 \<Rightarrow> u8 \<Rightarrow> 'd lin_node \<Rightarrow> bool" for soc buf sz where
  request: "lin_reach soc m \<Longrightarrow> LIN_LPUART_RecvFrmData soc buf sz m = Some (LIN_SUCCESS, n) \<Longrightarrow>
            lin_receiving soc buf sz n"
| request_blocking: "lin_reach soc m \<Longrightarrow> LIN_LPUART_RecvFrmDataBlocking soc buf sz t m = Some (LIN_SUCCESS, n) \<Longrightarrow>
            lin_receiving soc buf sz n"
| step: "lin_receiving soc buf sz n \<Longrightarrow> lin_step soc n n' \<Longrightarrow>
         currentNodeState (n_st n') = LIN_NODE_STATE_RECV_DATA \<Longrightarrow> lin_receiving soc buf sz n'"

text \<open>An operation that does not touch the reception: it does not begin one, and keeps the one under way.\<close>

definition rx_kept :: "lin_state \<Rightarrow> lin_state \<Rightarrow> bool" where
  "rx_kept s s' \<longleftrightarrow>
     (currentNodeState s' = LIN_NODE_STATE_RECV_DATA \<longrightarrow>
      currentNodeState s = LIN_NODE_STATE_RECV_DATA \<and>
      rxBuff s' = rxBuff s \<and> cntByte s' = cntByte s \<and> rxSize s' = rxSize s)"

text \<open>A data byte: the pointer and the counter move on together, inside the frame.\<close>

definition rx_advanced :: "lin_state \<Rightarrow> lin_state \<Rightarrow> bool" where
  "rx_advanced s s' \<longleftrightarrow>
     currentNodeState s = LIN_NODE_STATE_RECV_DATA \<and> rxSize s' = rxSize s \<and>
     rxBuff s' = rxBuff s + 1 \<and> cntByte s' = cntByte s + 1 \<and> unat (cntByte s) + 1 < unat (rxSize s)"

named_theorems lin_rx \<open>what an operation does to the reception under way\<close>

lemma rx_kept_refl [simp, intro]: "rx_kept s s"
  by (simp add: rx_kept_def)

lemma rx_kept_left: "currentNodeState s' \<noteq> LIN_NODE_STATE_RECV_DATA \<Longrightarrow> rx_kept s s'"
  by (simp add: rx_kept_def)

subsection \<open>Calls of the application\<close>

lemma rx_send [lin_rx]:
  "LIN_LPUART_SendFrameData soc buf sz n = Some (r, n') \<Longrightarrow> rx_kept (n_st n) (n_st n')"
  "LIN_LPUART_SendFrameDataBlocking soc buf sz t n = Some (r, n') \<Longrightarrow> rx_kept (n_st n) (n_st n')"
  by (auto simp: LIN_LPUART_SendFrameData_def LIN_LPUART_SendFrameDataBlocking_def lin_clear_lbkde_def
      lin_set_timeout_def bind_eq_Some_conv Let_def intro: rx_kept_left split: if_splits)

lemma rx_request:
  assumes "LIN_LPUART_RecvFrmData soc buf sz n = Some (r, n') \<or> LIN_LPUART_RecvFrmDataBlocking soc buf sz t n = Some (r, n')"
  shows "if r = LIN_SUCCESS
         then n_st n' = (n_st n')\<lparr>rxBuff := buf, rxSize := sz + 1, cntByte := 0\<rparr> \<and> 0 < sz \<and> sz \<le> 8
         else n' = n"
proof -
  have ok: "0 < sz \<and> sz \<le> 8" if "\<not> (8 < sz \<or> 0 = sz \<or> x)" for x using that by (auto simp: word_gt_0)
  show ?thesis
    using assms ok
    by (elim disjE)
       (auto simp: LIN_LPUART_RecvFrmData_def LIN_LPUART_RecvFrmDataBlocking_def lin_clear_lbkde_def
        lin_set_timeout_def Let_def split: if_splits)
qed

lemma rx_calls [lin_rx]:
  "LIN_LPUART_MasterSendHeader soc i n = Some (r, n') \<Longrightarrow> rx_kept (n_st n) (n_st n')"
  "LIN_LPUART_AbortTransferData soc n = Some (r, n') \<Longrightarrow> rx_kept (n_st n) (n_st n')"
  "LIN_LPUART_GoToSleepMode soc n = Some (r, n') \<Longrightarrow> rx_kept (n_st n) (n_st n')"
  "LIN_LPUART_GotoIdleState soc n = Some (r, n') \<Longrightarrow> rx_kept (n_st n) (n_st n')"
  "LIN_LPUART_SendWakeupSignal soc n = Some (r, n') \<Longrightarrow> rx_kept (n_st n) (n_st n')"
  "LIN_LPUART_EnableIRQ soc n = Some (r, n') \<Longrightarrow> rx_kept (n_st n) (n_st n')"
  "LIN_LPUART_DisableIRQ soc n = Some (r, n') \<Longrightarrow> rx_kept (n_st n) (n_st n')"
  "lin_set_timeout t n = Some n' \<Longrightarrow> rx_kept (n_st n) (n_st n')"
  by (auto simp: LIN_LPUART_MasterSendHeader_def LIN_LPUART_AbortTransferData_def LIN_LPUART_GoToSleepMode_def
      LIN_LPUART_GotoIdleState_def LIN_LPUART_SendWakeupSignal_def LIN_LPUART_EnableIRQ_def LIN_LPUART_DisableIRQ_def
      lin_set_timeout_def rx_kept_def bind_eq_Some_conv Let_def split: if_splits)

lemma rx_timeout [lin_rx]:
  assumes "observer soc" "lin_timeout_service soc n = Some n'"
  shows "rx_kept (n_st n) (n_st n')"
  using assms(2)
  by (auto simp: lin_timeout_service_def observer_callback [OF assms(1)] bind_eq_Some_conv rx_kept_def Let_def
      dest!: idle_result split: if_splits lin_node_state.splits)

subsection \<open>Handlers\<close>

lemma rx_break [lin_rx]:
  assumes "observer soc" "LIN_LPUART_ProcessBreakDetect soc n = Some n'"
  shows "rx_kept (n_st n) (n_st n')"
  using assms(2)
  by (auto simp: LIN_LPUART_ProcessBreakDetect_def observer_callback [OF assms(1)] bind_eq_Some_conv rx_kept_def Let_def
      dest!: idle_result split: if_splits)

lemma rx_framing [lin_rx]:
  assumes "observer soc" "lin_framing_error soc n = Some n'"
  shows "rx_kept (n_st n) (n_st n')"
  using assms(2)
  by (auto simp: lin_framing_error_def observer_callback [OF assms(1)] bind_eq_Some_conv Let_def
      intro!: rx_kept_left dest!: idle_result split: if_splits)

lemma rx_wakeup [lin_rx]:
  assumes "observer soc" "LIN_LPUART_CheckWakeupSignal soc n = Some n'"
  shows "rx_kept (n_st n) (n_st n')"
proof -
  obtain p d where pd: "LIN_LPUART_GetRxDataPolarity soc (n_dev n) = (p, d)" by fastforce
  have t: "lin_timer soc m = Some (t, m') \<Longrightarrow> n_st m' = n_st m" for m t m'
    by (erule observer_timer [OF assms(1)]) simp
  show ?thesis
  proof (cases p)
    case False
    with assms(2) pd have "n_st n' = n_st n"
      by (auto simp: LIN_LPUART_CheckWakeupSignal_def bind_eq_Some_conv Let_def dest!: t split: if_splits)
    then show ?thesis by simp
  next
    case True
    let ?m = "on_dev (LIN_LPUART_SetRxDataPolarity soc False) (n\<lparr>n_dev := d\<rparr>)"
    from True assms(2) pd obtain l m where m: "lin_timer soc ?m = Some (l, m)"
      by (auto simp: LIN_LPUART_CheckWakeupSignal_def bind_eq_Some_conv)
    have st: "n_st m = n_st n" using t [OF m] by simp
    have "currentNodeState (n_st n') = LIN_NODE_STATE_IDLE \<or> n_st n' = n_st n"
      using True assms(2) pd m st
      by (auto simp: LIN_LPUART_CheckWakeupSignal_def observer_callback [OF assms(1)] bind_eq_Some_conv
          dest!: idle_result split: if_splits)
    then show ?thesis by (auto intro: rx_kept_left)
  qed
qed

lemma rx_header [lin_rx]:
  assumes "observer soc" "LIN_LPUART_ProcessFrameHeader soc b n = Some n'"
  shows "rx_kept (n_st n) (n_st n')"
  using assms(2)
  by (auto simp: LIN_LPUART_ProcessFrameHeader_def observer_callback [OF assms(1)] bind_eq_Some_conv rx_kept_def Let_def
      dest!: idle_result split: if_splits lin_node_state.splits)

lemma rx_readback:
  assumes "observer soc" "lin_readback_error soc n = Some n'" "currentNodeState (n_st n) = LIN_NODE_STATE_SEND_DATA"
  shows "currentNodeState (n_st n') \<noteq> LIN_NODE_STATE_RECV_DATA"
  using assms(2,3)
  by (auto simp: lin_readback_error_def observer_callback [OF assms(1)] bind_eq_Some_conv
      dest!: idle_result split: if_splits)

lemma rx_send_data [lin_rx]:
  assumes "observer soc" "LIN_LPUART_ProcessSendFrameData soc b n = Some n'"
    and "currentNodeState (n_st n) = LIN_NODE_STATE_SEND_DATA"
  shows "rx_kept (n_st n) (n_st n')"
proof -
  have p: "n_stptr n" using assms(2) by (simp add: LIN_LPUART_ProcessSendFrameData_def)
  obtain f d where fd: "LIN_LPUART_GetStatusFlags soc (n_dev n) = (f, d)" by fastforce
  have "currentNodeState (n_st n') \<noteq> LIN_NODE_STATE_RECV_DATA"
  proof (cases "0 = f AND kLPUART_TxDataRegEmptyFlag soc \<or> b \<noteq> tx_expected n")
    case True
    then have "lin_readback_error soc (n\<lparr>n_dev := d\<rparr>) = Some n'"
      using assms(2) p fd
      by (cases "lin_readback_error soc (n\<lparr>n_dev := d\<rparr>)")
         (auto simp: LIN_LPUART_ProcessSendFrameData_def tx_expected_def Let_def split: if_splits)
    then show ?thesis using rx_readback [OF assms(1)] assms(3) by fastforce
  next
    case False
    then show ?thesis
      using assms(2,3) p fd
      by (auto simp: LIN_LPUART_ProcessSendFrameData_def observer_callback [OF assms(1)] goto_idle
          tx_expected_def Let_def split: if_splits)
  qed
  then show ?thesis by (rule rx_kept_left)
qed

text \<open>A received data byte moves the pointer and the counter; the last byte ends the reception.\<close>

lemma rx_receive:
  assumes "observer soc" "LIN_LPUART_ProcessReceiveFrameData soc b n = Some n'"
    and "currentNodeState (n_st n) = LIN_NODE_STATE_RECV_DATA" "lin_wf (n_st n)"
  shows "rx_kept (n_st n) (n_st n') \<or> rx_advanced (n_st n) (n_st n')"
proof (cases "unat (cntByte (n_st n)) + 1 < unat (rxSize (n_st n))")
  case True
  have p: "n_stptr n" using assms(2) by (simp add: LIN_LPUART_ProcessReceiveFrameData_def)
  have "LIN_LPUART_ProcessFrame soc b n = Some n'" using assms(2,3) p by (simp add: LIN_LPUART_ProcessFrame_def)
  then have "n_st n' = (n_st n)\<lparr>rxBuff := rxBuff (n_st n) + 1, cntByte := cntByte (n_st n) + 1\<rparr>"
    unfolding recv_data_byte [OF p assms(3) True] by (simp only: option.inject) (erule subst, simp)
  then have "rx_advanced (n_st n) (n_st n')" using assms(3) True by (simp add: rx_advanced_def)
  then show ?thesis by blast
next
  case False
  have "cntByte (n_st n) < rxSize (n_st n)" using assms(3,4) by (simp add: lin_wf_def)
  with False have eq: "cntByte (n_st n) + 1 = rxSize (n_st n)"
    using unat_u8_le [of "rxSize (n_st n)"] by (simp add: word_unat_eq_iff word_less_nat_alt unat_plus_small)
  have "\<not> (ucast (cntByte (n_st n)) + 1 :: u32) < ucast (rxSize (n_st n))"
    using False unat_u8_le [of "cntByte (n_st n)"] by (simp add: word_less_nat_alt unat_plus_small)
  note here = this eq
  have p: "n_stptr n" using assms(2) by (simp add: LIN_LPUART_ProcessReceiveFrameData_def)
  let ?sum = "LIN_MakeChecksumByte (n_ram n) (rxBuff (n_st n) - (ucast (rxSize (n_st n)) - 1)) (rxSize (n_st n) - 1)
    (currentPid (n_st n))"
  obtain k where k: "?sum = Some k"
    using assms(2) p here by (cases ?sum) (simp_all add: LIN_LPUART_ProcessReceiveFrameData_def)
  have "unat (cntByte (n_st n)) + 1 = unat (rxSize (n_st n))"
    using eq [symmetric] False \<open>cntByte (n_st n) < rxSize (n_st n)\<close> by (simp add: word_less_nat_alt)
  from recv_checksum_byte [OF assms(1) p assms(3) this k, of b]
  have "currentNodeState (n_st n') \<noteq> LIN_NODE_STATE_RECV_DATA"
    using assms(2,3) p by (auto simp: LIN_LPUART_ProcessFrame_def)
  then show ?thesis using rx_kept_left by blast
qed

lemma rx_frame:
  assumes "observer soc" "LIN_LPUART_ProcessFrame soc b n = Some n'" "lin_wf (n_st n)"
  shows "rx_kept (n_st n) (n_st n') \<or> rx_advanced (n_st n) (n_st n')"
  using assms(2,3) rx_header [OF assms(1), of b n n'] rx_receive [OF assms(1), of b n n']
    rx_send_data [OF assms(1), of b n n']
  by (auto simp: LIN_LPUART_ProcessFrame_def split: lin_node_state.splits)

lemma rx_irq:
  assumes "observer soc" "LIN_LPUART_IRQHandler soc n = Some n'" "lin_wf (n_st n)"
  shows "rx_kept (n_st n) (n_st n') \<or> rx_advanced (n_st n) (n_st n')"
proof -
  obtain m m' where m: "n_st m = n_st n" "n_st n' = n_st m'"
    "m' = m \<or> LIN_LPUART_ProcessBreakDetect soc m = Some m' \<or> LIN_LPUART_CheckWakeupSignal soc m = Some m' \<or>
     lin_framing_error soc m = Some m' \<or> (\<exists>b. LIN_LPUART_ProcessFrame soc b m = Some m')"
    by (rule irq_cases [OF assms(2)]) blast
  then show ?thesis
    using assms(3) rx_break [OF assms(1), of m m'] rx_wakeup [OF assms(1), of m m'] rx_framing [OF assms(1), of m m']
      rx_frame [OF assms(1), of _ m m'] by auto
qed

subsection \<open>Autobaud captures\<close>

lemma rx_cancel: "lin_cancel_capture soc n = Some n' \<Longrightarrow> currentNodeState (n_st n') = LIN_NODE_STATE_IDLE"
  by (auto simp: lin_cancel_capture_def bind_eq_Some_conv dest!: idle_result)

lemma rx_eval:
  assumes "LIN_LPUART_EvalTwoBitTimeLength soc t n = Some n'"
  shows "currentNodeState (n_st n') = LIN_NODE_STATE_IDLE \<or> currentNodeState (n_st n') = currentNodeState (n_st n)"
  using assms
  by (auto simp: LIN_LPUART_EvalTwoBitTimeLength_def bind_eq_Some_conv dest!: rx_cancel split: if_splits)

lemma rx_autobaud_eval [lin_rx]:
  assumes "observer soc" "LIN_LPUART_AutobaudTimerValEval soc t n = Some n'"
  shows "rx_kept (n_st n) (n_st n')"
proof (cases "currentNodeState (n_st n) = LIN_NODE_STATE_RECV_SYNC")
  case True
  with assms(2) obtain m where m: "LIN_LPUART_EvalTwoBitTimeLength soc t n = Some m"
    by (auto simp: LIN_LPUART_AutobaudTimerValEval_def bind_eq_Some_conv)
  have "currentNodeState (n_st m) \<noteq> LIN_NODE_STATE_RECV_DATA" using rx_eval [OF m] True by auto
  with assms(2) True m have "currentNodeState (n_st n') \<noteq> LIN_NODE_STATE_RECV_DATA"
    by (auto simp: LIN_LPUART_AutobaudTimerValEval_def observer_callback [OF assms(1)] bind_eq_Some_conv Let_def
        dest: rx_cancel split: if_splits)
  then show ?thesis by (rule rx_kept_left)
next
  case False
  then show ?thesis using assms(2) by (auto simp: LIN_LPUART_AutobaudTimerValEval_def bind_eq_Some_conv)
qed

lemma rx_capture:
  assumes "observer soc"
  shows "lin_capture_sleep soc t n = Some (r, n') \<Longrightarrow> rx_kept (n_st n) (n_st n')"
    and "lin_capture_idle soc t n = Some (r, n') \<Longrightarrow> rx_kept (n_st n) (n_st n')"
    and "lin_capture_sync soc n = Some (r, n') \<Longrightarrow> rx_kept (n_st n) (n_st n')"
proof -
  show "lin_capture_sleep soc t n = Some (r, n') \<Longrightarrow> rx_kept (n_st n) (n_st n')"
    by (auto simp: lin_capture_sleep_def observer_callback [OF assms] bind_eq_Some_conv rx_kept_def
        dest!: idle_result split: if_splits)
  show "lin_capture_idle soc t n = Some (r, n') \<Longrightarrow> rx_kept (n_st n) (n_st n')"
    by (auto simp: lin_capture_idle_def observer_callback [OF assms] rx_kept_def Let_def split: if_splits)
  show "lin_capture_sync soc n = Some (r, n') \<Longrightarrow> rx_kept (n_st n) (n_st n')"
    by (auto simp: lin_capture_sync_def bind_eq_Some_conv Let_def dest!: rx_autobaud_eval [OF assms])
qed

lemma rx_autobaud [lin_rx]:
  assumes "observer soc" "LIN_LPUART_AutoBaudCapture soc n = Some (r, n')"
  shows "rx_kept (n_st n) (n_st n')"
proof (cases "baudrateEvalEnable (n_st n)")
  case False
  then show ?thesis
    using assms(2) by (auto simp: LIN_LPUART_AutoBaudCapture_def rx_kept_def Let_def split: if_splits)
next
  case True
  with assms(2) obtain t m where m: "lin_timer soc n = Some (t, m)"
    by (auto simp: LIN_LPUART_AutoBaudCapture_def bind_eq_Some_conv)
  then have st: "n_st m = n_st n" by (elim observer_timer [OF assms(1)]) simp
  let ?m = "m\<lparr>s_timeMeasure := s_timeMeasure m + t, s_countMeasure := s_countMeasure m + 1\<rparr>"
  have "n_st ?m = n_st n" using st by simp
  then show ?thesis
    using True assms(2) m st rx_capture [OF assms(1), where n = ?m]
    by (auto simp: LIN_LPUART_AutoBaudCapture_def Let_def split: if_splits lin_node_state.splits)
qed

subsection \<open>The reception is tied to its request\<close>

text \<open>
  A step that ends in the receiving state continues the reception under way, untouched or by one
  byte, or is an accepted request; the latter needs a free bus, so none is under way then.
\<close>

lemma rx_step:
  assumes "lin_step soc n n'" "observer soc" "lin_wf (n_st n)"
    and "currentNodeState (n_st n') = LIN_NODE_STATE_RECV_DATA"
  shows "rx_kept (n_st n) (n_st n') \<or> rx_advanced (n_st n) (n_st n') \<or>
         \<not> isBusBusy (n_st n) \<and>
         (\<exists>buf sz t. LIN_LPUART_RecvFrmData soc buf sz n = Some (LIN_SUCCESS, n') \<or>
                     LIN_LPUART_RecvFrmDataBlocking soc buf sz t n = Some (LIN_SUCCESS, n'))"
  using assms(1)
proof cases
  case (recv buf sz r)
  then have "isBusBusy (n_st n) \<Longrightarrow> r \<noteq> LIN_SUCCESS"
    by (auto simp: LIN_LPUART_RecvFrmData_def split: if_splits)
  moreover have "r \<noteq> LIN_SUCCESS \<Longrightarrow> n' = n" using rx_request [OF disjI1 [OF recv]] by simp
  ultimately show ?thesis using recv rx_kept_refl by blast
next
  case (recv_blocking buf sz t r)
  then have "isBusBusy (n_st n) \<Longrightarrow> r \<noteq> LIN_SUCCESS"
    by (auto simp: LIN_LPUART_RecvFrmDataBlocking_def split: if_splits)
  moreover have "r \<noteq> LIN_SUCCESS \<Longrightarrow> n' = n" using rx_request [OF disjI2 [OF recv_blocking]] by simp
  ultimately show ?thesis using recv_blocking rx_kept_refl by blast
next
  case irq
  then show ?thesis using rx_irq [OF assms(2) _ assms(3)] by blast
qed (rule disjI1, rule lin_rx, (rule assms(2))?, assumption)+

lemma lin_receiving_reach: "lin_receiving soc buf sz n \<Longrightarrow> lin_reach soc n"
  by (induction rule: lin_receiving.induct) (blast intro: lin_reach.step lin_step.recv lin_step.recv_blocking)+

definition rx_tied :: "u32 \<Rightarrow> u8 \<Rightarrow> lin_state \<Rightarrow> bool" where
  "rx_tied buf sz s \<longleftrightarrow> 0 < sz \<and> sz \<le> 8 \<and> rxSize s = sz + 1 \<and> rxBuff s = buf + ucast (cntByte s)"

lemma rx_tied_advanced:
  assumes "rx_tied buf sz s" "rx_advanced s s'"
  shows "rx_tied buf sz s'"
proof -
  have "unat (cntByte s) + 1 < 256" using assms(2) unat_u8_le [of "rxSize s"] by (simp add: rx_advanced_def)
  then have "(ucast (cntByte s + 1) :: u32) = ucast (cntByte s) + 1"
    by (simp add: word_unat_eq_iff unat_plus_small)
  then show ?thesis using assms by (simp add: rx_tied_def rx_advanced_def)
qed

lemma rx_tied_request:
  assumes "LIN_LPUART_RecvFrmData soc buf sz n = Some (LIN_SUCCESS, n') \<or>
           LIN_LPUART_RecvFrmDataBlocking soc buf sz t n = Some (LIN_SUCCESS, n')"
  shows "rx_tied buf sz (n_st n')"
proof -
  from rx_request [OF assms] have st: "n_st n' = (n_st n')\<lparr>rxBuff := buf, rxSize := sz + 1, cntByte := 0\<rparr>"
    and sz: "0 < sz" "sz \<le> 8" by simp_all
  have "rxBuff (n_st n') = buf" "rxSize (n_st n') = sz + 1" "cntByte (n_st n') = 0"
    by (subst st, simp)+
  then show ?thesis using sz by (simp add: rx_tied_def)
qed

lemma lin_receiving_tied:
  assumes "lin_receiving soc buf sz n" "observer soc"
  shows "rx_tied buf sz (n_st n) \<and> currentNodeState (n_st n) = LIN_NODE_STATE_RECV_DATA"
  using assms
proof (induction rule: lin_receiving.induct)
  case (request m n)
  then have "currentNodeState (n_st n) = LIN_NODE_STATE_RECV_DATA"
    by (auto simp: LIN_LPUART_RecvFrmData_def lin_clear_lbkde_def Let_def split: if_splits)
  then show ?case using rx_tied_request request(2) by blast
next
  case (request_blocking m t n)
  then have "currentNodeState (n_st n) = LIN_NODE_STATE_RECV_DATA"
    by (auto simp: LIN_LPUART_RecvFrmDataBlocking_def lin_clear_lbkde_def lin_set_timeout_def Let_def split: if_splits)
  then show ?case using rx_tied_request request_blocking(2) by blast
next
  case (step n n')
  have wf: "lin_wf (n_st n)" using wf_reach [OF lin_receiving_reach [OF step(1)] step(5)] .
  have "isBusBusy (n_st n)" using wf step(4,5) by (simp add: lin_wf_def)
  then consider "rx_kept (n_st n) (n_st n')" | "rx_advanced (n_st n) (n_st n')"
    using rx_step [OF step(2,5) wf step(3)] by blast
  then show ?case
  proof cases
    case 1
    then show ?thesis using step(3-5) by (simp add: rx_kept_def rx_tied_def)
  next
    case 2
    then show ?thesis using step(3-5) rx_tied_advanced by blast
  qed
qed

text \<open>Every reachable node in the receiving state is receiving for some accepted request.\<close>

lemma reach_receiving:
  assumes "lin_reach soc n" "observer soc" "currentNodeState (n_st n) = LIN_NODE_STATE_RECV_DATA"
  shows "\<exists>buf sz. lin_receiving soc buf sz n"
  using assms
proof (induction rule: lin_reach.induct)
  case (init cfg st freq n cfg' st' n')
  from init(1) have "currentNodeState st' = LIN_NODE_STATE_IDLE"
    by (auto simp: LIN_LPUART_Init_def lin_init_state_def bind_eq_Some_conv Let_def split: if_splits prod.splits)
  then show ?case using init(3) by simp
next
  case (step n n')
  have wf: "lin_wf (n_st n)" using wf_reach [OF step(1,4)] .
  consider "currentNodeState (n_st n) = LIN_NODE_STATE_RECV_DATA"
    | buf sz t where "LIN_LPUART_RecvFrmData soc buf sz n = Some (LIN_SUCCESS, n') \<or>
                      LIN_LPUART_RecvFrmDataBlocking soc buf sz t n = Some (LIN_SUCCESS, n')"
    using rx_step [OF step(2,4) wf step(5)] step(5) unfolding rx_kept_def rx_advanced_def by blast
  then show ?case
  proof cases
    case 1
    then show ?thesis using step lin_receiving.step by blast
  next
    case 2
    then show ?thesis using step(1) lin_receiving.request lin_receiving.request_blocking by blast
  qed
qed

subsection \<open>Property\<close>

text \<open>C16: memory safety of the interrupt handler. In every reachable node, with callbacks that only
  observe, an interrupt either leaves memory as it is or stores one byte, and then the node is
  receiving the frame of an accepted request for \<open>sz\<close> bytes (at most eight) at \<open>buf\<close>, fewer than \<open>sz\<close>
  data bytes have arrived, and the byte goes to the next free place of that buffer.\<close>

theorem irq_memory_safe:
  assumes "lin_reach soc n" "observer soc" "LIN_LPUART_IRQHandler soc n = Some n'"
  shows "n_ram n' = n_ram n \<or>
         (\<exists>buf sz i b. lin_receiving soc buf sz n \<and> i = unat (cntByte (n_st n)) \<and> i < unat sz \<and> unat sz \<le> 8 \<and>
            n_ram n' = (n_ram n)(buf + of_nat i := b))"
proof (cases "n_ram n' = n_ram n")
  case False
  with ram_irq [OF assms(2,3)] obtain b where r: "currentNodeState (n_st n) = LIN_NODE_STATE_RECV_DATA"
    "unat (cntByte (n_st n)) + 1 < unat (rxSize (n_st n))" "n_ram n' = (n_ram n)(rxBuff (n_st n) := b)" by blast
  obtain buf sz where l: "lin_receiving soc buf sz n" using reach_receiving [OF assms(1,2) r(1)] by blast
  then have t: "sz \<le> 8" "rxSize (n_st n) = sz + 1" "rxBuff (n_st n) = buf + of_nat (unat (cntByte (n_st n)))"
    using lin_receiving_tied [OF l assms(2)] by (simp_all add: rx_tied_def)
  have "unat (sz + 1) = unat sz + 1" using unat_le_8 [OF t(1)] by (simp add: unat_plus_small)
  then show ?thesis using l r(2,3) t unat_le_8 [OF t(1)] by auto
qed simp

text \<open>A receiver with one byte waiting in its data register, and a node on it.\<close>

definition lin_receiver :: "u8 list lin_soc" where
  "lin_receiver = lin_example\<lparr>reg_read := \<lambda>r d. (if r = L_STAT then (if d = [] then 0 else 1)
      else if r = L_DATA then (if d = [] then 0 else ucast (hd d)) else 0, if r = L_DATA then tl d else d),
      reg_write := \<lambda>r v d. d, lmask := \<lambda>m. if m = STAT_RDRF then 1 else 0\<rparr>"

definition lin_receiver_node :: "u8 list lin_node" where
  "lin_receiver_node = lin_example_node\<lparr>n_dev := [0x12, 0x34], n_st := lin_init_state 48000000 lin_example_state\<rparr>"

lemma lin_receiver_io [simp]:
  "reg_read lin_receiver r d = (if r = L_STAT then (if d = [] then 0 else 1)
     else if r = L_DATA then (if d = [] then 0 else ucast (hd d)) else 0, if r = L_DATA then tl d else d)"
  "reg_write lin_receiver r v d = d" "lin_EnableIRQ lin_receiver i d = d" "lin_DisableIRQ lin_receiver i d = d"
  "lin_EnableClock lin_receiver b d = d" "lmask lin_receiver m = (if m = STAT_RDRF then 1 else 0)"
  by (simp_all add: lin_receiver_def lin_example_def)

lemma lin_receiver_quiet [simp]:
  "r \<noteq> L_DATA \<Longrightarrow> reg_set lin_receiver r m d = d" "r \<noteq> L_DATA \<Longrightarrow> reg_clear lin_receiver r m d = d"
  "LIN_LPUART_EnableInterrupts lin_receiver k d = d" "lin_irqs lin_receiver (lin_EnableIRQ lin_receiver) d = d"
  "lin_irqs lin_receiver (lin_DisableIRQ lin_receiver) d = d" "lin_reset_dev lin_receiver d = d"
  "LIN_LPUART_SetBaudRate lin_receiver osr sbr d = d" "LIN_LPUART_SetBitCountPerChar lin_receiver d = d"
  "snd (LIN_LPUART_ClearStatusFlags lin_receiver k d) = d"
  by (simp_all add: reg_set_def reg_clear_def LIN_LPUART_EnableInterrupts_def lin_irqs_def lin_reset_dev_def
      LIN_LPUART_SetBaudRate_def LIN_LPUART_SetBitCountPerChar_def LIN_LPUART_ClearStatusFlags_def
      LIN_LPUART_GetStatusFlags_def Let_def)

lemma lin_receiver_observer: "observer lin_receiver"
  using lin_example_observer by (simp add: observer_def lin_receiver_def)

lemma lin_receiver_reach: "lin_reach lin_receiver lin_receiver_node"
proof -
  let ?n = "lin_example_node\<lparr>n_dev := [0x12, 0x34]\<rparr>"
  have "LIN_LPUART_Init lin_receiver LIN_GetMasterDefaultConfig lin_example_state 48000000 ?n =
    Some (LIN_SUCCESS, LIN_GetMasterDefaultConfig, lin_init_state 48000000 lin_example_state, ?n)"
    by (simp add: LIN_LPUART_Init_def LIN_GetMasterDefaultConfig_def LIN_MASTER_def LIN_SLAVE_def lin_example_baud
        lin_setup_dev_def on_dev_def Let_def lin_wakeup_for_def lin_example_node_def)
  from lin_reach.init [OF this] show ?thesis by (simp add: lin_receiver_node_def lin_example_defs)
qed

lemma lin_receiver_request:
  "\<exists>n. LIN_LPUART_RecvFrmData lin_receiver 0x100 2 lin_receiver_node = Some (LIN_SUCCESS, n) \<and> n_stptr n \<and>
     n_dev n = [0x12, 0x34] \<and> n_ram n = (\<lambda>_. 0x4A) \<and> cntByte (n_st n) = 0 \<and> rxSize (n_st n) = 3 \<and>
     rxBuff (n_st n) = 0x100 \<and> currentNodeState (n_st n) = LIN_NODE_STATE_RECV_DATA"
  by (simp add: LIN_LPUART_RecvFrmData_def lin_receiver_node_def lin_init_state_def lin_example_defs
      lin_clear_lbkde_def Let_def)

lemma lin_receiver_irq:
  assumes "n_stptr n" "n_dev n = [0x12, 0x34]" "cntByte (n_st n) = 0" "rxSize (n_st n) = 3"
    and "currentNodeState (n_st n) = LIN_NODE_STATE_RECV_DATA"
  shows "\<exists>n'. LIN_LPUART_IRQHandler lin_receiver n = Some n' \<and> n_ram n' = (n_ram n)(rxBuff (n_st n) := 0x12)"
  using assms
  by (simp add: LIN_LPUART_IRQHandler_def lin_flags_def LIN_LPUART_GetStatusFlags_def LIN_LPUART_ReadByte_def
      kLPUART_LinBreakFlag_def kLPUART_RxActiveEdgeFlag_def kLPUART_FramingErrorFlag_def
      kLPUART_RxDataRegFullFlag_def kLPUART_RxOverrunFlag_def LIN_LPUART_ProcessFrame_def
      LIN_LPUART_ProcessReceiveFrameData_def Let_def)

theorem irq_memory_safe_witness:
  "\<exists>n n' buf sz b. lin_reach lin_receiver n \<and> LIN_LPUART_IRQHandler lin_receiver n = Some n' \<and>
     lin_receiving lin_receiver buf sz n \<and> n_ram n' = (n_ram n)(buf := b) \<and> n_ram n' 0x100 = 0x12 \<and> n_ram n 0x100 = 0x4A"
proof -
  obtain n where n: "LIN_LPUART_RecvFrmData lin_receiver 0x100 2 lin_receiver_node = Some (LIN_SUCCESS, n)" "n_stptr n"
    "n_dev n = [0x12, 0x34]" "n_ram n = (\<lambda>_. 0x4A)" "cntByte (n_st n) = 0" "rxSize (n_st n) = 3"
    "rxBuff (n_st n) = 0x100" "currentNodeState (n_st n) = LIN_NODE_STATE_RECV_DATA"
    using lin_receiver_request by blast
  obtain n' where n': "LIN_LPUART_IRQHandler lin_receiver n = Some n'" "n_ram n' = (n_ram n)(0x100 := 0x12)"
    using lin_receiver_irq [OF n(2,3,5,6,8)] n(7) by auto
  have r: "lin_reach lin_receiver n"
    using lin_reach.step [OF lin_receiver_reach] lin_step.recv n(1) by blast
  have ne: "n_ram n' \<noteq> n_ram n" using n'(2) n(4) by (simp add: fun_eq_iff)
  have "n_ram n' 0x100 = 0x12" "n_ram n 0x100 = 0x4A" using n'(2) n(4) by simp_all
  moreover obtain buf sz i b where "lin_receiving lin_receiver buf sz n" "i = unat (cntByte (n_st n))"
    "n_ram n' = (n_ram n)(buf + of_nat i := b)"
    using irq_memory_safe [OF r lin_receiver_observer n'(1)] ne by blast
  moreover from this have "n_ram n' = (n_ram n)(buf := b)" using n(5) by simp
  ultimately show ?thesis using r n'(1) by blast
qed

end
