(* ===== verification/Lin_Baud.thy ===== *)
theory Lin_Baud
  imports Lin_Lpuart
begin

text \<open>
  The baud-rate search of \<open>LIN_LPUART_CalculateBaudRate\<close> against what it is meant to find: the
  oversampling rate and divider whose rate is closest to the requested one.
\<close>

definition baud_err :: "nat \<Rightarrow> nat \<Rightarrow> nat \<Rightarrow> nat \<Rightarrow> nat" where
  "baud_err baud src o' s = (let v = src div (o' * s) in if v \<le> baud then baud - v else v - baud)"

text \<open>The divider an iteration settles on, with its error.\<close>

definition baud_pick :: "nat \<Rightarrow> nat \<Rightarrow> nat \<Rightarrow> nat" where
  "baud_pick baud src o' =
     (let q = src div (baud * o')
      in if q = 0 then 2
         else if baud_err baud src o' (q + 1) < baud_err baud src o' q then q + 1 else q)"

lemma pick_pos: "1 \<le> baud_pick baud src o'"
  by (simp add: baud_pick_def Let_def)

lemma rate_above:
  fixes o' s src baud :: nat
  assumes "0 < o'" "1 \<le> s" "s \<le> src div (baud * o')"
  shows "baud \<le> src div (o' * s)"
proof -
  have "s * (baud * o') \<le> src div (baud * o') * (baud * o')" using assms(3) by (rule mult_le_mono1)
  also have "\<dots> \<le> src" by (rule div_times_less_eq_dividend)
  finally have "s * (baud * o') \<le> src" .
  then have "baud * (o' * s) \<le> src" by (simp add: ac_simps)
  then show ?thesis using assms(1,2) by (simp add: less_eq_div_iff_mult_less_eq)
qed

lemma rate_below:
  fixes o' s src baud :: nat
  assumes "0 < o'" "0 < baud" "src div (baud * o') < s"
  shows "src div (o' * s) < baud"
proof -
  have "0 < baud * o'" using assms by simp
  then have "src < s * (baud * o')" using assms(3) by (simp only: div_less_iff_less_mult)
  then have "src < baud * (o' * s)" by (simp add: ac_simps)
  moreover have "0 < o' * s" using assms(1,3) by (cases s) simp_all
  ultimately show ?thesis by (simp only: div_less_iff_less_mult)
qed

text \<open>No divider does better than the one an iteration picks, when the clock is fast enough.\<close>

lemma pick_optimal:
  assumes "0 < o'" "0 < baud" "baud * o' \<le> src" "1 \<le> s"
  shows "baud_err baud src o' (baud_pick baud src o') \<le> baud_err baud src o' s"
proof -
  define q where "q = src div (baud * o')"
  have q: "1 \<le> q" using assms by (simp add: q_def less_eq_div_iff_mult_less_eq)
  have mn: "baud_err baud src o' (baud_pick baud src o') \<le> baud_err baud src o' q"
    "baud_err baud src o' (baud_pick baud src o') \<le> baud_err baud src o' (q + 1)"
    using q by (auto simp: baud_pick_def q_def [symmetric] Let_def)
  show ?thesis
  proof (cases "s \<le> q")
    case True
    have "src div (o' * q) \<le> src div (o' * s)" using True assms by (intro div_le_mono2) simp_all
    moreover have "baud \<le> src div (o' * q)" using rate_above [of o' q src baud] assms q by (simp add: q_def)
    ultimately have "baud_err baud src o' q \<le> baud_err baud src o' s" by (auto simp: baud_err_def Let_def)
    with mn(1) show ?thesis by simp
  next
    case False
    then have "o' * (q + 1) \<le> o' * s" by (intro mult_le_mono2) simp
    then have "src div (o' * s) \<le> src div (o' * (q + 1))" using assms(1) by (intro div_le_mono2) simp_all
    moreover have "src div (o' * (q + 1)) < baud" using rate_below [of o' baud src "q + 1"] assms by (simp add: q_def)
    ultimately have "baud_err baud src o' (q + 1) \<le> baud_err baud src o' s" by (auto simp: baud_err_def Let_def)
    with mn(2) show ?thesis by simp
  qed
qed

subsection \<open>One iteration\<close>

lemma err_le:
  assumes "0 < o'" "0 < baud"
  shows "baud_err baud src o' (baud_pick baud src o') \<le> baud"
proof -
  define q where "q = src div (baud * o')"
  have "src div (o' * s) < baud" if "q < s" for s
    using rate_below [OF assms] that by (simp add: q_def)
  then have le: "baud_err baud src o' s \<le> baud" if "q < s" for s
    using that by (simp add: baud_err_def Let_def less_imp_le)
  show ?thesis
  proof (cases "q < baud_pick baud src o'")
    case False
    then have "q \<noteq> 0 \<and> baud_pick baud src o' = q \<and> \<not> baud_err baud src o' (q + 1) < baud_err baud src o' q"
      by (simp add: baud_pick_def q_def [symmetric] Let_def split: if_splits)
    with le [of "q + 1"] show ?thesis by simp
  qed (rule le)
qed

text \<open>
  The word arithmetic of an iteration, read as natural numbers: as long as products stay below
  \<open>2 ^ 32\<close> it picks the divider above and keeps the better of the old and the new choice.
\<close>

lemma baud_step_pick:
  assumes b: "0 < unat baud" "unat baud < 2 ^ 27" and o: "4 \<le> unat osr" "unat osr \<le> 32"
    and cap: "unat src div (unat baud * 4) < 65535"
  shows "\<exists>D s. lin_baud_step baud src osr (bd, osr0, sbr0) =
             Some (if D \<le> bd then (D, osr, s) else (bd, osr0, sbr0)) \<and>
           unat s = baud_pick (unat baud) (unat src) (unat osr) \<and>
           unat D = baud_err (unat baud) (unat src) (unat osr) (unat s)"
proof -
  have prod: "unat baud * unat osr < 2 ^ 32"
  proof -
    have "unat baud * unat osr \<le> unat baud * 32" using o(2) by (rule mult_le_mono2)
    also have "\<dots> < 2 ^ 32" using b(2) by simp
    finally show ?thesis .
  qed
  have po: "unat (baud * osr) = unat baud * unat osr" using prod by (simp add: unat_mult_small)
  define q where "q = unat src div (unat baud * unat osr)"
  have "q \<le> unat src div (unat baud * 4)" unfolding q_def using b o by (intro div_le_mono2) simp_all
  then have q: "q < 65535" using cap by simp
  have uq: "unat (src div (baud * osr)) = q" by (simp add: unat_div_distrib po q_def)
  define s1 :: u16 where "s1 = (if (ucast (src div (baud * osr)) :: u16) = 0 then 1 else ucast (src div (baud * osr)))"
  have "unat (ucast (src div (baud * osr)) :: u16) = q" using q uq by (simp add: unat_ucast_small)
  then have s1: "unat s1 = (if q = 0 then 1 else q)" by (auto simp: s1_def unat_eq_zero unat_gt_0)
  have os: "unat (osr * ucast s1) = unat osr * unat s1" "unat (osr * (ucast s1 + 1)) = unat osr * (unat s1 + 1)"
  proof -
    have "unat osr * (unat s1 + 1) \<le> 32 * 65535" using o(2) s1 q by (intro mult_le_mono) auto
    then show "unat (osr * ucast s1) = unat osr * unat s1" "unat (osr * (ucast s1 + 1)) = unat osr * (unat s1 + 1)"
      using s1 q by (auto simp: unat_mult_small unat_plus_small)
  qed
  define calc where "calc = src div (osr * ucast s1)"
  define nxt where "nxt = src div (osr * (ucast s1 + 1))"
  have uc: "unat calc = unat src div (unat osr * unat s1)" "unat nxt = unat src div (unat osr * (unat s1 + 1))"
    by (simp_all add: calc_def nxt_def unat_div_distrib os)
  have o0: "0 < unat osr" using o(1) by simp
  have "q < unat s1 + 1" using s1 by simp
  then have "unat nxt < unat baud" unfolding uc(2) q_def by (rule rate_below [OF o0 b(1)])
  then have un: "unat (baud - nxt) = unat baud - unat nxt" by (simp add: unat_minus_small)
  let ?t = "if baud - nxt < calc - baud then (baud - nxt, s1 + 1) else (calc - baud, s1)"
  have step: "lin_baud_step baud src osr (bd, osr0, sbr0) =
      Some (if fst ?t \<le> bd then (fst ?t, osr, snd ?t) else (bd, osr0, sbr0))"
  proof -
    have "unat (baud * osr) \<noteq> 0" unfolding po using b(1) o(1) by simp
    then have "baud * osr \<noteq> 0" by auto
    then show ?thesis
      by (simp add: lin_baud_step_def Let_def s1_def [symmetric] calc_def [symmetric] nxt_def [symmetric])
  qed
  have s1': "unat (s1 + 1) = unat s1 + 1" using s1 q by (simp add: unat_plus_small)
  have "unat (snd ?t) = baud_pick (unat baud) (unat src) (unat osr) \<and>
        unat (fst ?t) = baud_err (unat baud) (unat src) (unat osr) (unat (snd ?t))"
  proof (cases "q = 0")
    case True
    then have "q < unat s1" using s1 by simp
    then have c: "unat calc < unat baud" unfolding uc(1) q_def by (rule rate_below [OF o0 b(1)])
    then have "unat (calc - baud) = 4294967296 + unat calc - unat baud" by (simp add: unat_sub_if')
    then have "baud - nxt < calc - baud" unfolding word_less_nat_alt un using b(2) c by simp
    then have "?t = (baud - nxt, s1 + 1)" by simp
    then show ?thesis using True s1 s1' un uc(2) \<open>unat nxt < unat baud\<close>
      by (simp add: baud_pick_def baud_err_def q_def [symmetric] Let_def)
  next
    case False
    then have s1q: "unat s1 = q" using s1 by simp
    have "1 \<le> unat s1" "unat s1 \<le> q" using s1q False by simp_all
    then have c: "unat baud \<le> unat calc" unfolding uc(1) q_def by (rule rate_above [OF o0])
    then have ut: "unat (calc - baud) = unat calc - unat baud" by (simp add: unat_minus_small)
    have e1: "baud_err (unat baud) (unat src) (unat osr) q = unat calc - unat baud"
      using c uc(1) s1q by (auto simp: baud_err_def Let_def)
    have e2: "baud_err (unat baud) (unat src) (unat osr) (q + 1) = unat baud - unat nxt"
      using \<open>unat nxt < unat baud\<close> uc(2) s1q by (simp add: baud_err_def Let_def)
    have lt: "baud - nxt < calc - baud \<longleftrightarrow> unat baud - unat nxt < unat calc - unat baud"
      by (simp add: word_less_nat_alt un ut)
    show ?thesis
    proof (cases "baud - nxt < calc - baud")
      case True
      with False lt e1 e2 s1q s1' un show ?thesis by (simp add: baud_pick_def q_def [symmetric] Let_def)
    next
      case nlt: False
      with False lt e1 e2 s1q ut show ?thesis by (simp add: baud_pick_def q_def [symmetric] Let_def)
    qed
  qed
  then show ?thesis using step by blast
qed

subsection \<open>The loop\<close>

text \<open>What the loop has found after looking at the rates from 4 up to (not including) \<open>x\<close>.\<close>

definition baud_found :: "nat \<Rightarrow> nat \<Rightarrow> nat \<Rightarrow> u32 \<times> u32 \<times> u16 \<Rightarrow> bool" where
  "baud_found baud src x best \<longleftrightarrow>
     (case best of (D, osr, sbr) \<Rightarrow>
        4 \<le> unat osr \<and> unat osr < x \<and> 1 \<le> unat sbr \<and> unat D = baud_err baud src (unat osr) (unat sbr) \<and>
        (\<forall>x'. 4 \<le> x' \<and> x' < x \<longrightarrow> unat D \<le> baud_err baud src x' (baud_pick baud src x')))"

lemma baud_loop_found:
  assumes "0 < unat baud" "unat baud < 2 ^ 27" "unat src div (unat baud * 4) < 65535"
    and "4 \<le> unat osr" "unat osr \<le> 33"
    and "unat osr = 4 \<and> best = (baud, b0) \<or> baud_found (unat baud) (unat src) (unat osr) best"
  shows "\<exists>r. lin_baud_loop baud src osr best = Some r \<and> baud_found (unat baud) (unat src) 33 r"
  using assms(4-)
proof (induction "33 - unat osr" arbitrary: osr best)
  case 0
  then have "\<not> osr \<le> 32" "unat osr = 33" by (simp_all add: word_le_nat_alt)
  with 0 show ?case by (auto simp: lin_baud_loop.simps [of baud src osr])
next
  case (Suc k)
  have le: "unat osr \<le> 32" using Suc(2) by simp
  then have u1: "unat (osr + 1) = unat osr + 1" by (simp add: unat_plus_small)
  obtain bd o0 s0 where best: "best = (bd, o0, s0)" by (cases best)
  obtain D s where Ds: "lin_baud_step baud src osr best = Some (if D \<le> bd then (D, osr, s) else best)"
    "unat s = baud_pick (unat baud) (unat src) (unat osr)"
    "unat D = baud_err (unat baud) (unat src) (unat osr) (unat s)"
    using baud_step_pick [OF assms(1,2) Suc(3) le assms(3), of bd o0 s0] best by auto
  let ?b = "if D \<le> bd then (D, osr, s) else best"
  have "baud_found (unat baud) (unat src) (unat (osr + 1)) ?b"
  proof (cases "baud_found (unat baud) (unat src) (unat osr) best")
    case True
    then show ?thesis
      using Ds Suc(3) pick_pos [of "unat baud" "unat src" "unat osr"]
      by (auto simp: baud_found_def best u1 word_le_nat_alt less_Suc_eq intro: order_trans)
  next
    case False
    then have "unat osr = 4" "bd = baud" using Suc(5) best by auto
    moreover have "unat D \<le> unat baud" using err_le [of "unat osr" "unat baud" "unat src"] Ds assms(1) Suc(3) by simp
    moreover have x4: "x' = 4" if "4 \<le> x'" "x' < 5" for x' :: nat using that by simp
    ultimately show ?thesis
      using Ds pick_pos [of "unat baud" "unat src" "unat osr"]
      by (auto simp: baud_found_def u1 word_le_nat_alt dest!: x4)
  qed
  moreover have "k = 33 - unat (osr + 1)" using Suc(2) u1 by simp
  ultimately have "\<exists>r. lin_baud_loop baud src (osr + 1) ?b = Some r \<and> baud_found (unat baud) (unat src) 33 r"
    using Suc(1) [of "osr + 1" ?b] Suc(3) le u1 by simp
  moreover have "osr \<le> 32" using le by (simp add: word_le_nat_alt)
  ultimately show ?case using Ds(1) by (simp add: lin_baud_loop.simps [of baud src osr])
qed

lemma calculate_found:
  assumes "0 < unat baud" "unat baud < 2 ^ 27" "unat src div (unat baud * 4) < 65535"
  obtains D osr sbr where "baud_found (unat baud) (unat src) 33 (D, osr, sbr)"
    "LIN_LPUART_CalculateBaudRate baud src b0 =
       Some (if baud div 100 * 3 \<le> D then kStatus_Fail else kStatus_Success, osr, sbr)"
proof -
  obtain r where r: "lin_baud_loop baud src 4 (baud, b0) = Some r" "baud_found (unat baud) (unat src) 33 r"
    using baud_loop_found [OF assms, of 4 "(baud, b0)" b0] by auto
  obtain D osr sbr where d: "r = (D, osr, sbr)" by (cases r)
  have "baud \<noteq> 0" using assms(1) by auto
  moreover have "src div baud div 4 \<le> 0xFFFF"
    using assms(3) by (simp add: word_le_nat_alt unat_div_distrib div_mult2_eq)
  ultimately show ?thesis
    using that [of D osr sbr] r d by (simp add: LIN_LPUART_CalculateBaudRate_def)
qed

lemma fail_word:
  assumes "unat baud < 2 ^ 27"
  shows "baud div 100 * 3 \<le> D \<longleftrightarrow> unat baud div 100 * 3 \<le> unat (D :: u32)"
proof -
  have "unat baud div 100 * 3 \<le> unat baud" by simp
  then have "unat (baud div 100 * 3) = unat baud div 100 * 3"
    using assms by (simp add: unat_mult_small unat_div_distrib)
  then show ?thesis by (simp add: word_le_nat_alt)
qed

subsection \<open>Properties\<close>

text \<open>C17: the baud-rate search. For rates below \<open>2 ^ 27\<close> and clocks whose divider fits its 16 bits,
  the function passes its assertions and returns an oversampling rate from 4 to 32 and a divider of
  at least 1; it reports success exactly when the rate they give is off by less than the integer
  \<open>baud / 100 * 3\<close>, the three percent of the code (0 below 100 baud, where it always reports failure).
  If the clock is at least 32 times the baud rate, no other oversampling rate and divider are
  closer.\<close>

theorem baud_rate_search:
  assumes "0 < unat baud" "unat baud < 2 ^ 27" "unat src div (unat baud * 4) < 65535"
  shows "\<exists>st osr sbr. LIN_LPUART_CalculateBaudRate baud src b0 = Some (st, osr, sbr) \<and>
           4 \<le> unat osr \<and> unat osr \<le> 32 \<and> 1 \<le> unat sbr \<and>
           (st = kStatus_Success \<longleftrightarrow>
              baud_err (unat baud) (unat src) (unat osr) (unat sbr) < unat baud div 100 * 3) \<and>
           (st = kStatus_Success \<or> st = kStatus_Fail) \<and>
           (unat baud * 32 \<le> unat src \<longrightarrow>
              (\<forall>x s. 4 \<le> x \<and> x \<le> 32 \<and> 1 \<le> s \<longrightarrow>
                 baud_err (unat baud) (unat src) (unat osr) (unat sbr) \<le> baud_err (unat baud) (unat src) x s))"
proof -
  obtain D osr sbr where f: "baud_found (unat baud) (unat src) 33 (D, osr, sbr)"
    "LIN_LPUART_CalculateBaudRate baud src b0 =
       Some (if baud div 100 * 3 \<le> D then kStatus_Fail else kStatus_Success, osr, sbr)"
    by (rule calculate_found [OF assms])
  have ne: "kStatus_Fail \<noteq> kStatus_Success" by (simp add: status_defs)
  have opt: "unat D \<le> baud_err (unat baud) (unat src) x s"
    if "unat baud * 32 \<le> unat src" "4 \<le> x" "x \<le> 32" "1 \<le> s" for x s
  proof -
    have "unat baud * x \<le> unat baud * 32" using that(3) by (rule mult_le_mono2)
    then have "unat baud * x \<le> unat src" using that(1) by (rule order_trans)
    with that(2,4) assms(1) have "baud_err (unat baud) (unat src) x (baud_pick (unat baud) (unat src) x)
        \<le> baud_err (unat baud) (unat src) x s"
      by (intro pick_optimal) simp_all
    moreover have "unat D \<le> baud_err (unat baud) (unat src) x (baud_pick (unat baud) (unat src) x)"
      using f(1) that(2,3) unfolding baud_found_def prod.case by auto
    ultimately show ?thesis by simp
  qed
  have "unat D = baud_err (unat baud) (unat src) (unat osr) (unat sbr)" using f(1) by (simp add: baud_found_def)
  with f opt ne show ?thesis
    by (auto simp: baud_found_def fail_word [OF assms(2)] not_le)
qed

theorem baud_rate_search_witness:
  "\<exists>st osr sbr. LIN_LPUART_CalculateBaudRate 19200 48000000 (0, 0) = Some (st, osr, sbr) \<and>
     4 \<le> unat osr \<and> unat osr \<le> 32 \<and>
     (st = kStatus_Success \<longleftrightarrow> baud_err 19200 48000000 (unat osr) (unat sbr) < 576)"
  using baud_rate_search [of 19200 48000000 "(0, 0)"] by auto

text \<open>A clock slower than the baud rate times the oversampling rate. The difference of the first
  candidate wraps around and the candidate is dropped: 76032 Hz gives 19008 baud with
  oversampling rate 4 and divider 1, one percent off 19200, but the function reports failure.\<close>

lemma baud_rate_slow_clock:
  "LIN_LPUART_CalculateBaudRate 19200 76032 (0, 0) = Some (kStatus_Fail, 4, 2) \<and>
   baud_err 19200 76032 4 1 < 19200 div 100 * 3"
proof -
  have "LIN_LPUART_CalculateBaudRate 19200 76032 (0, 0) = Some (kStatus_Fail, 4, 2)"
    by code_simp
  then show ?thesis by (simp add: baud_err_def)
qed

end
