(* ===== verification/Flexcomm.thy ===== *)
theory Flexcomm
  imports Common
begin

text \<open>
  \<open>drivers/flexcomm/fsl_flexcomm.c\<close>: a FLEXCOMM is one serial engine that a driver switches to a
  USART, SPI, I2C or I2S. The driver selects the peripheral through the register PSELID and keeps,
  for every instance, the interrupt handler and the handle that the peripheral driver installed.

  The registers of the engine and of the selected peripheral are one device; the register names,
  masks, clock and reset calls are parameters. Handlers \<open>'f\<close> and handles \<open>'h\<close> are abstract
  pointers; a null handler is \<open>None\<close>.
\<close>

datatype flexcomm_periph =
    FLEXCOMM_PERIPH_NONE | FLEXCOMM_PERIPH_USART | FLEXCOMM_PERIPH_SPI | FLEXCOMM_PERIPH_I2C
  | FLEXCOMM_PERIPH_I2S_TX | FLEXCOMM_PERIPH_I2S_RX

text \<open>The enumerators as C values.\<close>

primrec periph_num :: "flexcomm_periph \<Rightarrow> nat" where
  "periph_num FLEXCOMM_PERIPH_NONE = 0"
| "periph_num FLEXCOMM_PERIPH_USART = 1"
| "periph_num FLEXCOMM_PERIPH_SPI = 2"
| "periph_num FLEXCOMM_PERIPH_I2C = 3"
| "periph_num FLEXCOMM_PERIPH_I2S_TX = 4"
| "periph_num FLEXCOMM_PERIPH_I2S_RX = 5"

record ('r, 'd) flexcomm_soc = "('r, 'd) mmio" +
  PSELID :: 'r
  PSELID_LOCK_MASK :: u32
  PSELID_PERSEL_MASK :: u32
  HAS_CLOCK_CONTROL :: bool
  HAS_RESET :: bool
  flexcomm_bases :: "u32 list"
  flexcomm_cmse :: bool
  CLOCK_EnableClock :: "nat \<Rightarrow> 'd \<Rightarrow> 'd"
  RESET_PeripheralReset :: "nat \<Rightarrow> 'd \<Rightarrow> 'd"

text \<open>The statics \<open>s_flexcommIrqHandler\<close> and \<open>s_flexcommHandle\<close>.\<close>

record ('f, 'h) flexcomm_irqs =
  s_flexcommIrqHandler :: "nat \<Rightarrow> 'f option"
  s_flexcommHandle :: "nat \<Rightarrow> 'h"

definition FLEXCOMM_PeripheralIsPresent ::
    "('r, 'd, 'm) flexcomm_soc_scheme \<Rightarrow> flexcomm_periph \<Rightarrow> 'd \<Rightarrow> bool \<times> 'd" where
  "FLEXCOMM_PeripheralIsPresent soc periph d =
     (if periph = FLEXCOMM_PERIPH_NONE then (True, d)
      else if periph_num periph \<le> periph_num FLEXCOMM_PERIPH_I2S_TX then
        let (v, d) = reg_read soc (PSELID soc) d in (0 < v AND push_bit (periph_num periph + 3) 1, d)
      else if periph = FLEXCOMM_PERIPH_I2S_RX then
        let (v, d) = reg_read soc (PSELID soc) d in (0 < v AND push_bit 7 1, d)
      else (False, d))"

definition FLEXCOMM_GetInstance :: "('r, 'd, 'm) flexcomm_soc_scheme \<Rightarrow> u32 \<Rightarrow> nat option" where
  "FLEXCOMM_GetInstance soc base = do {
     let i = find_base (flexcomm_cmse soc) (flexcomm_bases soc) base;
     c_assert (i < length (flexcomm_bases soc));
     Some i
   }"

definition FLEXCOMM_SetPeriph ::
    "('r, 'd, 'm) flexcomm_soc_scheme \<Rightarrow> flexcomm_periph \<Rightarrow> bool \<Rightarrow> 'd \<Rightarrow> status \<times> 'd" where
  "FLEXCOMM_SetPeriph soc periph lock d =
     (let (present, d) = FLEXCOMM_PeripheralIsPresent soc periph d
      in if \<not> present then (kStatus_OutOfRange, d)
         else
           let (v, d) = reg_read soc (PSELID soc) d;
               (other, d) = (if v AND PSELID_LOCK_MASK soc \<noteq> 0 then
                               let (w, d) = reg_read soc (PSELID soc) d
                               in (w AND PSELID_PERSEL_MASK soc \<noteq> of_nat (periph_num periph), d)
                             else (False, d))
           in if other then (kStatus_Fail, d)
              else if lock then
                (kStatus_Success,
                 reg_write soc (PSELID soc) (of_nat (periph_num periph) OR PSELID_LOCK_MASK soc) d)
              else (kStatus_Success, reg_write soc (PSELID soc) (of_nat (periph_num periph)) d))"

definition FLEXCOMM_Init ::
    "('r, 'd, 'm) flexcomm_soc_scheme \<Rightarrow> u32 \<Rightarrow> flexcomm_periph \<Rightarrow> 'd \<Rightarrow> (status \<times> 'd) option" where
  "FLEXCOMM_Init soc base periph d = do {
     idx \<leftarrow> FLEXCOMM_GetInstance soc base;
     let d = (if HAS_CLOCK_CONTROL soc then CLOCK_EnableClock soc idx d else d);
     let d = (if HAS_RESET soc then RESET_PeripheralReset soc idx d else d);
     Some (FLEXCOMM_SetPeriph soc periph False d)
   }"

definition FLEXCOMM_SetIRQHandler ::
    "('r, 'd, 'm) flexcomm_soc_scheme \<Rightarrow> u32 \<Rightarrow> 'f option \<Rightarrow> 'h \<Rightarrow> ('f, 'h) flexcomm_irqs
     \<Rightarrow> ('f, 'h) flexcomm_irqs option" where
  "FLEXCOMM_SetIRQHandler soc base handler flexcommHandle irqs = do {
     inst \<leftarrow> FLEXCOMM_GetInstance soc base;
     let irqs = irqs\<lparr>s_flexcommIrqHandler := (s_flexcommIrqHandler irqs)(inst := None)\<rparr>;
     let irqs = irqs\<lparr>s_flexcommHandle := (s_flexcommHandle irqs)(inst := flexcommHandle)\<rparr>;
     Some (irqs\<lparr>s_flexcommIrqHandler := (s_flexcommIrqHandler irqs)(inst := handler)\<rparr>)
   }"

text \<open>
  \<open>FLEXCOMM0_DriverIRQHandler\<close> and its copies for the other instances, with the base address of
  the instance as an argument. Calling a handler, with the base address and the handle of the
  instance, is the argument \<open>call\<close>.
\<close>

definition FLEXCOMM_DriverIRQHandler ::
    "('r, 'd, 'm) flexcomm_soc_scheme \<Rightarrow> ('f \<Rightarrow> u32 \<Rightarrow> 'h \<Rightarrow> 's \<Rightarrow> 's option) \<Rightarrow> ('f, 'h) flexcomm_irqs
     \<Rightarrow> u32 \<Rightarrow> 's \<Rightarrow> 's option" where
  "FLEXCOMM_DriverIRQHandler soc call irqs flexcomm s = do {
     inst \<leftarrow> FLEXCOMM_GetInstance soc flexcomm;
     c_assert (s_flexcommIrqHandler irqs inst \<noteq> None);
     call (the (s_flexcommIrqHandler irqs inst)) (flexcomm_bases soc ! inst) (s_flexcommHandle irqs inst) s
   }"

end
