(* ===== verification/Usart.thy ===== *)
theory Usart
  imports Flexcomm
begin

text \<open>
  \<open>drivers/flexcomm/usart/fsl_usart.c\<close> and the inline functions of \<open>fsl_usart.h\<close>: the USART of a
  FLEXCOMM, with blocking and interrupt-driven transfers and the receive ring buffer. This theory
  holds the data and every operation of the driver.

  The state of one instance is the device, the handle \<open>usart_handle_t\<close>, the RAM that the transfer
  and ring buffers live in, the interrupt mask of the core and the handler table of the FLEXCOMM
  driver. \<open>None\<close> is a failed assertion, a division by zero, an access through a null pointer or a
  loop that never ends. \<open>NDEBUG\<close> tells whether assertions are compiled out, in which case the
  argument checks that follow them decide. Callbacks are numbered; a callback may change the whole
  state of the instance.
\<close>

subsection \<open>Data\<close>

datatype usart_sync_mode = kUSART_SyncModeDisabled | kUSART_SyncModeSlave | kUSART_SyncModeMaster
datatype usart_parity_mode = kUSART_ParityDisabled | kUSART_ParityEven | kUSART_ParityOdd
datatype usart_stop_bit_count = kUSART_OneStopBit | kUSART_TwoStopBit
datatype usart_data_len = kUSART_7BitsPerChar | kUSART_8BitsPerChar
datatype usart_clock_polarity = kUSART_RxSampleOnFallingEdge | kUSART_RxSampleOnRisingEdge

primrec sync_num :: "usart_sync_mode \<Rightarrow> u32" where
  "sync_num kUSART_SyncModeDisabled = 0" | "sync_num kUSART_SyncModeSlave = 2" | "sync_num kUSART_SyncModeMaster = 3"

primrec parity_num :: "usart_parity_mode \<Rightarrow> u32" where
  "parity_num kUSART_ParityDisabled = 0" | "parity_num kUSART_ParityEven = 2" | "parity_num kUSART_ParityOdd = 3"

primrec stop_num :: "usart_stop_bit_count \<Rightarrow> u32" where
  "stop_num kUSART_OneStopBit = 0" | "stop_num kUSART_TwoStopBit = 1"

primrec data_len_num :: "usart_data_len \<Rightarrow> u32" where
  "data_len_num kUSART_7BitsPerChar = 0" | "data_len_num kUSART_8BitsPerChar = 1"

primrec polarity_num :: "usart_clock_polarity \<Rightarrow> u32" where
  "polarity_num kUSART_RxSampleOnFallingEdge = 0" | "polarity_num kUSART_RxSampleOnRisingEdge = 1"

definition bool_num :: "bool \<Rightarrow> u32" where
  "bool_num b = (if b then 1 else 0)"

record usart_rx_timeout_config =
  rt_enable :: bool
  resetCounterOnEmpty :: bool
  resetCounterOnReceive :: bool
  rt_counter :: u32
  rt_prescaler :: u8

text \<open>The watermark enumerators are the numbers 0 to 7.\<close>

record usart_config =
  baudRate_Bps :: u32
  parityMode :: usart_parity_mode
  stopBitCount :: usart_stop_bit_count
  bitCountPerChar :: usart_data_len
  loopback :: bool
  enableRx :: bool
  enableTx :: bool
  enableContinuousSCLK :: bool
  enableMode32k :: bool
  enableHardwareFlowControl :: bool
  cfg_txWatermark :: u32
  cfg_rxWatermark :: u32
  syncMode :: usart_sync_mode
  clockPolarity :: usart_clock_polarity
  rxTimeout :: usart_rx_timeout_config

record usart_transfer =
  xfer_data :: u32
  xfer_dataSize :: u32

datatype usart_tx_state = kUSART_TxIdle | kUSART_TxBusy
datatype usart_rx_state = kUSART_RxIdle | kUSART_RxBusy

record usart_handle =
  txData :: u32
  txDataSize :: u32
  txDataSizeAll :: u32
  rxData :: u32
  rxDataSize :: u32
  rxDataSizeAll :: u32
  rxRingBuffer :: u32
  rxRingBufferSize :: u32
  rxRingBufferHead :: u16
  rxRingBufferTail :: u16
  callback :: "nat option"
  userData :: u32
  txState :: usart_tx_state
  rxState :: usart_rx_state
  txWatermark :: u8
  rxWatermark :: u8

datatype usart_irq_handler = USART_Handler | Other_Handler nat

record 'd usart =
  u_dev :: 'd
  u_handle :: usart_handle
  u_ram :: mem
  u_primask :: u32
  u_irqs :: "(usart_irq_handler, u32) flexcomm_irqs"

definition kStatus_USART_TxBusy :: status where "kStatus_USART_TxBusy = MAKE_STATUS kStatusGroup_LPC_USART 0"
definition kStatus_USART_RxBusy :: status where "kStatus_USART_RxBusy = MAKE_STATUS kStatusGroup_LPC_USART 1"
definition kStatus_USART_TxIdle :: status where "kStatus_USART_TxIdle = MAKE_STATUS kStatusGroup_LPC_USART 2"
definition kStatus_USART_RxIdle :: status where "kStatus_USART_RxIdle = MAKE_STATUS kStatusGroup_LPC_USART 3"
definition kStatus_USART_TxError :: status where "kStatus_USART_TxError = MAKE_STATUS kStatusGroup_LPC_USART 7"
definition kStatus_USART_RxError :: status where "kStatus_USART_RxError = MAKE_STATUS kStatusGroup_LPC_USART 9"
definition kStatus_USART_RxRingBufferOverrun :: status where
  "kStatus_USART_RxRingBufferOverrun = MAKE_STATUS kStatusGroup_LPC_USART 8"
definition kStatus_USART_NoiseError :: status where "kStatus_USART_NoiseError = MAKE_STATUS kStatusGroup_LPC_USART 10"
definition kStatus_USART_FramingError :: status where
  "kStatus_USART_FramingError = MAKE_STATUS kStatusGroup_LPC_USART 11"
definition kStatus_USART_ParityError :: status where "kStatus_USART_ParityError = MAKE_STATUS kStatusGroup_LPC_USART 12"
definition kStatus_USART_BaudrateNotSupport :: status where
  "kStatus_USART_BaudrateNotSupport = MAKE_STATUS kStatusGroup_LPC_USART 13"
definition kStatus_USART_Timeout :: status where "kStatus_USART_Timeout = MAKE_STATUS kStatusGroup_LPC_USART 14"

lemmas usart_status_defs =
  kStatus_USART_TxBusy_def kStatus_USART_RxBusy_def kStatus_USART_TxIdle_def kStatus_USART_RxIdle_def
  kStatus_USART_TxError_def kStatus_USART_RxError_def kStatus_USART_RxRingBufferOverrun_def
  kStatus_USART_NoiseError_def kStatus_USART_FramingError_def kStatus_USART_ParityError_def
  kStatus_USART_BaudrateNotSupport_def kStatus_USART_Timeout_def

subsection \<open>Registers and parameters\<close>

datatype usart_reg =
    U_CFG | U_CTL | U_STAT | U_INTENSET | U_INTENCLR | U_BRG | U_OSR | U_INTSTAT | U_ADDR
  | U_FIFOCFG | U_FIFOSTAT | U_FIFOTRIG | U_FIFOINTENSET | U_FIFOINTENCLR | U_FIFOWR | U_FIFORD
  | U_FIFORXTIMEOUTCFG | U_PSELID

datatype usart_mask =
    CFG_ENABLE | CFG_SYNCEN | CFG_SYNCMST | CFG_MODE32K | CFG_DATALEN | CFG_PARITYSEL | CFG_AUTOADDR | CFG_CTSEN
  | CTL_ADDRDET | CTL_CC | CTL_CLRCCONRX
  | STAT_TXIDLE | STAT_PARITYERRINT | STAT_FRAMERRINT | STAT_RXNOISEINT | STAT_DELTACTS | STAT_DELTARXBRK
  | STAT_START | STAT_ABERR | INTSTAT_TXIDLE
  | INTENSET_TXIDLEEN | INTENSET_DELTACTSEN | INTENSET_DELTARXBRKEN | INTENSET_STARTEN | INTENSET_FRAMERREN
  | INTENSET_PARITYERREN | INTENSET_RXNOISEEN | INTENSET_ABERREN | INTENCLR_TXIDLECLR
  | FIFOCFG_EMPTYTX | FIFOCFG_ENABLETX | FIFOCFG_EMPTYRX | FIFOCFG_ENABLERX | FIFOCFG_DMATX | FIFOCFG_DMARX
  | FIFOTRIG_TXLVL | FIFOTRIG_TXLVLENA | FIFOTRIG_RXLVL | FIFOTRIG_RXLVLENA
  | FIFOSTAT_TXNOTFULL | FIFOSTAT_RXNOTEMPTY | FIFOSTAT_RXERR | FIFOSTAT_TXERR | FIFOSTAT_TXLVL | FIFOSTAT_RXLVL
  | FIFOSTAT_RXTIMEOUT
  | FIFOINTENSET_RXLVL | FIFOINTENSET_RXERR | FIFOINTENSET_TXLVL | FIFOINTENSET_TXERR | FIFOINTENSET_RXTIMEOUT
  | FIFOINTENCLR_RXLVL | FIFOINTENCLR_RXERR | FIFOINTENCLR_TXLVL | FIFOINTENCLR_TXERR

datatype usart_field =
    F_CFG_PARITYSEL | F_CFG_STOPLEN | F_CFG_DATALEN | F_CFG_LOOP | F_CFG_SYNCEN | F_CFG_SYNCMST | F_CFG_CLKPOL
  | F_CFG_MODE32K | F_CFG_CTSEN | F_FIFOTRIG_TXLVL | F_FIFOTRIG_RXLVL
  | F_RXTIMEOUT_COW | F_RXTIMEOUT_COE | F_RXTIMEOUT_EN | F_RXTIMEOUT_VALUE | F_RXTIMEOUT_PRESCALER

record 'd usart_soc = "(usart_reg, 'd) flexcomm_soc" +
  umask :: "usart_mask \<Rightarrow> u32"
  ufield :: "usart_field \<Rightarrow> u32 \<Rightarrow> u32"
  FIFOTRIG_TXLVL_SHIFT :: nat
  FIFOTRIG_RXLVL_SHIFT :: nat
  FIFOSTAT_TXLVL_SHIFT :: nat
  FIFOSTAT_RXLVL_SHIFT :: nat
  HAS_FIFORXTIMEOUTCFG :: bool
  UART_RETRY_TIMES :: u32
  NDEBUG :: bool
  usart_bases :: "u32 list"
  usart_cmse :: bool
  usart_EnableIRQ :: "nat \<Rightarrow> 'd \<Rightarrow> 'd"
  usart_invoke :: "nat \<Rightarrow> status \<Rightarrow> u32 \<Rightarrow> 'd usart \<Rightarrow> 'd usart option"

definition u_assert :: "'d usart_soc \<Rightarrow> bool \<Rightarrow> unit option" where
  "u_assert soc b = c_assert (NDEBUG soc \<or> b)"

lemma u_assert_True [simp]: "u_assert soc True = Some ()"
  by (simp add: u_assert_def)

lemma u_assert_bind_eq_Some [simp]:
  "(u_assert soc b \<bind> f = Some x) = ((NDEBUG soc \<or> b) \<and> f () = Some x)"
  by (simp add: u_assert_def)

definition on_udev :: "('d \<Rightarrow> 'd) \<Rightarrow> 'd usart \<Rightarrow> 'd usart" where
  "on_udev f s = s\<lparr>u_dev := f (u_dev s)\<rparr>"

definition on_handle :: "(usart_handle \<Rightarrow> usart_handle) \<Rightarrow> 'd usart \<Rightarrow> 'd usart" where
  "on_handle f s = s\<lparr>u_handle := f (u_handle s)\<rparr>"

text \<open>A volatile read from the state, and \<open>if (handle->callback != NULL) handle->callback(...)\<close>.\<close>

definition uread :: "'d usart_soc \<Rightarrow> usart_reg \<Rightarrow> 'd usart \<Rightarrow> u32 \<times> 'd usart" where
  "uread soc r s = (let (v, d) = reg_read soc r (u_dev s) in (v, s\<lparr>u_dev := d\<rparr>))"

definition usart_callback :: "'d usart_soc \<Rightarrow> status \<Rightarrow> 'd usart \<Rightarrow> 'd usart option" where
  "usart_callback soc status s =
     (case callback (u_handle s) of None \<Rightarrow> Some s
      | Some f \<Rightarrow> usart_invoke soc f status (userData (u_handle s)) s)"

text \<open>\<open>DisableGlobalIRQ\<close> and \<open>EnableGlobalIRQ\<close> on the state.\<close>

definition irq_disable :: "'d usart \<Rightarrow> u32 \<times> 'd usart" where
  "irq_disable s = (let (msk, p) = DisableGlobalIRQ (u_primask s) in (msk, s\<lparr>u_primask := p\<rparr>))"

definition irq_enable :: "u32 \<Rightarrow> 'd usart \<Rightarrow> 'd usart" where
  "irq_enable msk s = s\<lparr>u_primask := EnableGlobalIRQ msk (u_primask s)\<rparr>"

subsection \<open>Inline functions of the header\<close>

definition USART_FIFOTRIG_TXLVL_GET :: "'d usart_soc \<Rightarrow> 'd \<Rightarrow> u32 \<times> 'd" where
  "USART_FIFOTRIG_TXLVL_GET soc d =
     (let (v, d) = reg_read soc U_FIFOTRIG d
      in (drop_bit (FIFOTRIG_TXLVL_SHIFT soc) (v AND umask soc FIFOTRIG_TXLVL), d))"

definition USART_FIFOTRIG_RXLVL_GET :: "'d usart_soc \<Rightarrow> 'd \<Rightarrow> u32 \<times> 'd" where
  "USART_FIFOTRIG_RXLVL_GET soc d =
     (let (v, d) = reg_read soc U_FIFOTRIG d
      in (drop_bit (FIFOTRIG_RXLVL_SHIFT soc) (v AND umask soc FIFOTRIG_RXLVL), d))"

definition USART_SetMatchAddress :: "'d usart_soc \<Rightarrow> u8 \<Rightarrow> 'd \<Rightarrow> 'd" where
  "USART_SetMatchAddress soc address d = reg_write soc U_ADDR (ucast address) d"

definition USART_EnableMatchAddress :: "'d usart_soc \<Rightarrow> bool \<Rightarrow> 'd \<Rightarrow> 'd" where
  "USART_EnableMatchAddress soc match d =
     (if match then reg_set soc U_CTL (umask soc CTL_ADDRDET) (reg_set soc U_CFG (umask soc CFG_AUTOADDR) d)
      else reg_clear soc U_CTL (umask soc CTL_ADDRDET) (reg_clear soc U_CFG (umask soc CFG_AUTOADDR) d))"

definition kUSART_TxLevelInterruptEnable :: "'d usart_soc \<Rightarrow> u32" where
  "kUSART_TxLevelInterruptEnable soc = umask soc FIFOINTENSET_TXLVL"
definition kUSART_RxLevelInterruptEnable :: "'d usart_soc \<Rightarrow> u32" where
  "kUSART_RxLevelInterruptEnable soc = umask soc FIFOINTENSET_RXLVL"

definition kUSART_AllInterruptEnables :: "'d usart_soc \<Rightarrow> u32" where
  "kUSART_AllInterruptEnables soc =
     umask soc FIFOINTENSET_TXERR OR umask soc FIFOINTENSET_RXERR OR umask soc FIFOINTENSET_TXLVL OR
     umask soc FIFOINTENSET_RXLVL OR push_bit 16 (umask soc INTENSET_TXIDLEEN) OR
     push_bit 16 (umask soc INTENSET_DELTACTSEN) OR umask soc INTENSET_DELTARXBRKEN OR
     umask soc INTENSET_STARTEN OR umask soc INTENSET_FRAMERREN OR umask soc INTENSET_PARITYERREN OR
     umask soc INTENSET_RXNOISEEN OR
     (if HAS_FIFORXTIMEOUTCFG soc then umask soc FIFOINTENSET_RXTIMEOUT else 0) OR
     umask soc INTENSET_ABERREN"

definition kUSART_AllClearFlags :: "'d usart_soc \<Rightarrow> u32" where
  "kUSART_AllClearFlags soc =
     umask soc FIFOSTAT_TXERR OR umask soc FIFOSTAT_RXERR OR push_bit 16 (umask soc STAT_DELTACTS) OR
     umask soc STAT_DELTARXBRK OR umask soc STAT_START OR umask soc STAT_FRAMERRINT OR
     umask soc STAT_PARITYERRINT OR
     (if HAS_FIFORXTIMEOUTCFG soc then umask soc FIFOSTAT_RXTIMEOUT else 0) OR
     umask soc STAT_RXNOISEINT OR umask soc STAT_ABERR"

definition USART_GetStatusFlags :: "'d usart_soc \<Rightarrow> 'd \<Rightarrow> u32 \<times> 'd" where
  "USART_GetStatusFlags soc d =
     (let (fifostat, d) = reg_read soc U_FIFOSTAT d;
          (stat, d) = reg_read soc U_STAT d;
          (stat', d) = reg_read soc U_STAT d
      in ((fifostat AND 0xFF0000FF) OR push_bit 16 (stat AND 0xFF) OR (stat' AND 0xFFFF00), d))"

definition USART_ClearStatusFlags :: "'d usart_soc \<Rightarrow> u32 \<Rightarrow> 'd \<Rightarrow> 'd" where
  "USART_ClearStatusFlags soc msk d =
     (let msk = msk AND kUSART_AllClearFlags soc;
          d = reg_write soc U_STAT ((msk AND 0xFFFF00) OR drop_bit 16 (msk AND 0xFF0000)) d
      in reg_write soc U_FIFOSTAT (msk AND (umask soc FIFOSTAT_TXERR OR umask soc FIFOSTAT_RXERR)) d)"

definition USART_EnableInterrupts :: "'d usart_soc \<Rightarrow> u32 \<Rightarrow> 'd \<Rightarrow> 'd" where
  "USART_EnableInterrupts soc msk d =
     (let msk = msk AND kUSART_AllInterruptEnables soc;
          d = reg_write soc U_INTENSET ((msk AND 0x1FF00) OR drop_bit 16 (msk AND 0xFF0000)) d
      in reg_write soc U_FIFOINTENSET (msk AND 0xF00000F) d)"

definition USART_DisableInterrupts :: "'d usart_soc \<Rightarrow> u32 \<Rightarrow> 'd \<Rightarrow> 'd" where
  "USART_DisableInterrupts soc msk d =
     (let msk = msk AND kUSART_AllInterruptEnables soc;
          d = reg_write soc U_INTENCLR ((msk AND 0x1FF00) OR drop_bit 16 (msk AND 0xFF0000)) d
      in reg_write soc U_FIFOINTENCLR (msk AND 0xF) d)"

definition USART_GetEnabledInterrupts :: "'d usart_soc \<Rightarrow> 'd \<Rightarrow> u32 \<times> 'd" where
  "USART_GetEnabledInterrupts soc d =
     (let (a, d) = reg_read soc U_INTENSET d;
          (b, d) = reg_read soc U_INTENSET d;
          (c, d) = reg_read soc U_FIFOINTENSET d
      in ((a AND 0x1FF00) OR push_bit 16 (b AND 0xFF) OR (c AND 0xF), d))"

text \<open>The pattern \<open>if (enable) base->R |= m; else base->R &= ~m;\<close>.\<close>

definition reg_switch :: "'d usart_soc \<Rightarrow> usart_reg \<Rightarrow> usart_mask \<Rightarrow> bool \<Rightarrow> 'd \<Rightarrow> 'd" where
  "reg_switch soc r m enable d =
     (if enable then reg_set soc r (umask soc m) d else reg_clear soc r (umask soc m) d)"

definition USART_EnableTxDMA :: "'d usart_soc \<Rightarrow> bool \<Rightarrow> 'd usart \<Rightarrow> 'd usart" where
  "USART_EnableTxDMA soc enable s =
     (let (globalMask, s) = irq_disable s;
          s = on_udev (reg_switch soc U_FIFOCFG FIFOCFG_DMATX enable) s
      in irq_enable globalMask s)"

definition USART_EnableRxDMA :: "'d usart_soc \<Rightarrow> bool \<Rightarrow> 'd usart \<Rightarrow> 'd usart" where
  "USART_EnableRxDMA soc enable s =
     (let (globalMask, s) = irq_disable s;
          s = on_udev (reg_switch soc U_FIFOCFG FIFOCFG_DMARX enable) s
      in irq_enable globalMask s)"

definition USART_EnableCTS :: "'d usart_soc \<Rightarrow> bool \<Rightarrow> 'd \<Rightarrow> 'd" where
  "USART_EnableCTS soc enable d = reg_switch soc U_CFG CFG_CTSEN enable d"

definition USART_EnableContinuousSCLK :: "'d usart_soc \<Rightarrow> bool \<Rightarrow> 'd \<Rightarrow> 'd" where
  "USART_EnableContinuousSCLK soc enable d = reg_switch soc U_CTL CTL_CC enable d"

definition USART_EnableAutoClearSCLK :: "'d usart_soc \<Rightarrow> bool \<Rightarrow> 'd \<Rightarrow> 'd" where
  "USART_EnableAutoClearSCLK soc enable d = reg_switch soc U_CTL CTL_CLRCCONRX enable d"

definition USART_SetRxFifoWatermark :: "'d usart_soc \<Rightarrow> u8 \<Rightarrow> 'd \<Rightarrow> 'd option" where
  "USART_SetRxFifoWatermark soc water d = do {
     u_assert soc (ucast water \<le> drop_bit (FIFOTRIG_RXLVL_SHIFT soc) (umask soc FIFOTRIG_RXLVL));
     let (v, d) = reg_read soc U_FIFOTRIG d;
     Some (reg_write soc U_FIFOTRIG (v AND NOT (umask soc FIFOTRIG_RXLVL) OR ufield soc F_FIFOTRIG_RXLVL (ucast water)) d)
   }"

definition USART_SetTxFifoWatermark :: "'d usart_soc \<Rightarrow> u8 \<Rightarrow> 'd \<Rightarrow> 'd option" where
  "USART_SetTxFifoWatermark soc water d = do {
     u_assert soc (ucast water \<le> drop_bit (FIFOTRIG_TXLVL_SHIFT soc) (umask soc FIFOTRIG_TXLVL));
     let (v, d) = reg_read soc U_FIFOTRIG d;
     Some (reg_write soc U_FIFOTRIG (v AND NOT (umask soc FIFOTRIG_TXLVL) OR ufield soc F_FIFOTRIG_TXLVL (ucast water)) d)
   }"

definition USART_WriteByte :: "'d usart_soc \<Rightarrow> u8 \<Rightarrow> 'd \<Rightarrow> 'd" where
  "USART_WriteByte soc b d = reg_write soc U_FIFOWR (ucast b) d"

definition USART_ReadByte :: "'d usart_soc \<Rightarrow> 'd \<Rightarrow> u8 \<times> 'd" where
  "USART_ReadByte soc d = (let (v, d) = reg_read soc U_FIFORD d in (ucast v, d))"

definition USART_GetRxFifoCount :: "'d usart_soc \<Rightarrow> 'd \<Rightarrow> u8 \<times> 'd" where
  "USART_GetRxFifoCount soc d =
     (let (v, d) = reg_read soc U_FIFOSTAT d
      in (ucast (drop_bit (FIFOSTAT_RXLVL_SHIFT soc) (v AND umask soc FIFOSTAT_RXLVL)), d))"

definition USART_GetTxFifoCount :: "'d usart_soc \<Rightarrow> 'd \<Rightarrow> u8 \<times> 'd" where
  "USART_GetTxFifoCount soc d =
     (let (v, d) = reg_read soc U_FIFOSTAT d
      in (ucast (drop_bit (FIFOSTAT_TXLVL_SHIFT soc) (v AND umask soc FIFOSTAT_TXLVL)), d))"

subsection \<open>Ring buffer\<close>

definition USART_GetInstance :: "'d usart_soc \<Rightarrow> u32 \<Rightarrow> nat option" where
  "USART_GetInstance soc base = do {
     let i = find_base (usart_cmse soc) (usart_bases soc) base;
     c_assert (i < length (usart_bases soc));
     Some i
   }"

definition USART_TransferGetRxRingBufferLength :: "usart_handle \<Rightarrow> u32" where
  "USART_TransferGetRxRingBufferLength h =
     (if rxRingBufferHead h < rxRingBufferTail h
      then ucast (rxRingBufferHead h) + rxRingBufferSize h - ucast (rxRingBufferTail h)
      else ucast (rxRingBufferHead h) - ucast (rxRingBufferTail h))"

definition USART_TransferIsRxRingBufferFull :: "usart_handle \<Rightarrow> bool" where
  "USART_TransferIsRxRingBufferFull h =
     (USART_TransferGetRxRingBufferLength h = rxRingBufferSize h - 1)"

definition USART_TransferStartRingBuffer ::
    "'d usart_soc \<Rightarrow> u32 \<Rightarrow> u32 \<Rightarrow> 'd usart \<Rightarrow> 'd usart option" where
  "USART_TransferStartRingBuffer soc ringBuffer ringBufferSize s = do {
     u_assert soc (0 \<noteq> ringBuffer);
     let s = on_handle (\<lambda>h. h\<lparr>rxRingBuffer := ringBuffer, rxRingBufferSize := ringBufferSize,
                              rxRingBufferHead := 0, rxRingBufferTail := 0\<rparr>) s;
     Some (on_udev (reg_write soc U_FIFOINTENSET (umask soc FIFOINTENSET_RXLVL OR umask soc FIFOINTENSET_RXERR)) s)
   }"

definition USART_TransferStopRingBuffer :: "'d usart_soc \<Rightarrow> 'd usart \<Rightarrow> 'd usart" where
  "USART_TransferStopRingBuffer soc s =
     (let s = (if rxState (u_handle s) = kUSART_RxIdle then
                 on_udev (reg_write soc U_FIFOINTENCLR (umask soc FIFOINTENCLR_RXLVL OR umask soc FIFOINTENCLR_RXERR)) s
               else s)
      in on_handle (\<lambda>h. h\<lparr>rxRingBuffer := 0, rxRingBufferSize := 0, rxRingBufferHead := 0, rxRingBufferTail := 0\<rparr>) s)"

text \<open>
  Advancing the tail and the head by one, wrapping to 0 at the size (\<open>USART_TransferHandleIRQ\<close> and
  \<open>USART_TransferReceiveNonBlocking\<close>).
\<close>

definition ring_inc_tail :: "usart_handle \<Rightarrow> usart_handle" where
  "ring_inc_tail h =
     (if ucast (rxRingBufferTail h) + 1 = rxRingBufferSize h then h\<lparr>rxRingBufferTail := 0\<rparr>
      else h\<lparr>rxRingBufferTail := rxRingBufferTail h + 1\<rparr>)"

definition ring_inc_head :: "usart_handle \<Rightarrow> usart_handle" where
  "ring_inc_head h =
     (if ucast (rxRingBufferHead h) + 1 = rxRingBufferSize h then h\<lparr>rxRingBufferHead := 0\<rparr>
      else h\<lparr>rxRingBufferHead := rxRingBufferHead h + 1\<rparr>)"

subsection \<open>Configuration\<close>

definition USART_SetRxTimeoutConfig :: "'d usart_soc \<Rightarrow> usart_rx_timeout_config \<Rightarrow> 'd \<Rightarrow> 'd" where
  "USART_SetRxTimeoutConfig soc config d =
     (let d = reg_write soc U_FIFORXTIMEOUTCFG 0 d
      in reg_write soc U_FIFORXTIMEOUTCFG
           (ufield soc F_RXTIMEOUT_COW (if resetCounterOnReceive config then 0 else 1) OR
            ufield soc F_RXTIMEOUT_COE (if resetCounterOnEmpty config then 0 else 1) OR
            ufield soc F_RXTIMEOUT_EN (bool_num (rt_enable config)) OR
            ufield soc F_RXTIMEOUT_VALUE (rt_counter config) OR
            ufield soc F_RXTIMEOUT_PRESCALER (ucast (rt_prescaler config))) d)"

text \<open>
  The loop of \<open>USART_CalcTimeoutConfig\<close>; \<open>out\<close> is what \<open>*rxTimeoutPrescaler\<close> and
  \<open>*rxTimeoutcounter\<close> hold.
\<close>

function usart_timeout_loop :: "u32 \<Rightarrow> u32 \<Rightarrow> u32 \<Rightarrow> u32 \<Rightarrow> u8 \<times> u32 \<Rightarrow> (u8 \<times> u32) option" where
  "usart_timeout_loop target_us srcClock_Hz perscalar min_diff out =
     (if perscalar < 256 then do {
        counter \<leftarrow> c_div (target_us * (srcClock_Hz div 1000000)) (16 * (perscalar + 1));
        calculate_us \<leftarrow> c_div (16 * (perscalar + 1) * counter) (srcClock_Hz div 1000000);
        let us_diff = (if target_us < calculate_us then calculate_us - target_us else target_us - calculate_us);
        if us_diff = 0 then Some (ucast perscalar, counter)
        else if us_diff < min_diff then
          usart_timeout_loop target_us srcClock_Hz (perscalar + 1) us_diff (ucast perscalar, counter)
        else usart_timeout_loop target_us srcClock_Hz (perscalar + 1) min_diff out
      } else Some out)"
  by pat_completeness auto
termination
  by (relation "measure (\<lambda>(t, c, p, m, r). 256 - unat p)")
     (auto simp: word_less_nat_alt unat_plus_small)

declare usart_timeout_loop.simps [simp del]

definition USART_CalcTimeoutConfig :: "u32 \<Rightarrow> u8 \<times> u32 \<Rightarrow> u32 \<Rightarrow> (u8 \<times> u32) option" where
  "USART_CalcTimeoutConfig target_us out srcClock_Hz =
     usart_timeout_loop target_us srcClock_Hz 0 0xffffffff out"

text \<open>
  The search of \<open>USART_SetBaudRate\<close>: the best difference so far with its oversampling rate and
  divider. A wrapped product can make a divisor zero.
\<close>

definition baud_diff :: "u32 \<Rightarrow> u32 \<Rightarrow> u32" where
  "baud_diff wanted baudrate = (if wanted < baudrate then baudrate - wanted else wanted - baudrate)"

definition usart_baud_step :: "u32 \<Rightarrow> u32 \<Rightarrow> u32 \<Rightarrow> u32 \<times> u32 \<times> u32 \<Rightarrow> (u32 \<times> u32 \<times> u32) option" where
  "usart_baud_step baudrate_Bps srcClock_Hz osrval best = do {
     q \<leftarrow> c_div (srcClock_Hz * 10) ((osrval + 1) * baudrate_Bps);
     let brgval = (q - 5) div 10;
     if 0xFFFF < brgval then Some best
     else do {
       baudrate \<leftarrow> c_div srcClock_Hz ((osrval + 1) * (brgval + 1));
       let diff = baud_diff baudrate_Bps baudrate;
       Some (if diff < fst best then (diff, osrval, brgval) else best)
     }
   }"

function usart_baud_loop :: "u32 \<Rightarrow> u32 \<Rightarrow> u32 \<Rightarrow> u32 \<Rightarrow> u32 \<times> u32 \<times> u32 \<Rightarrow> (u32 \<times> u32 \<times> u32) option" where
  "usart_baud_loop baudrate_Bps srcClock_Hz allowed_error osrval best =
     (if 4 \<le> osrval then
        if osrval \<le> 8 \<and> fst best \<le> allowed_error then Some best
        else do {
          best \<leftarrow> usart_baud_step baudrate_Bps srcClock_Hz osrval best;
          usart_baud_loop baudrate_Bps srcClock_Hz allowed_error (osrval - 1) best
        }
      else Some best)"
  by pat_completeness auto
termination
  by (relation "measure (\<lambda>(b, c, e, osr, r). unat osr)")
     (auto simp: word_le_nat_alt unat_minus_small)

declare usart_baud_loop.simps [simp del]

definition USART_SetBaudRate :: "'d usart_soc \<Rightarrow> u32 \<Rightarrow> u32 \<Rightarrow> 'd \<Rightarrow> (status \<times> 'd) option" where
  "USART_SetBaudRate soc baudrate_Bps srcClock_Hz d = do {
     u_assert soc (\<not> (0 = baudrate_Bps \<or> 0 = srcClock_Hz));
     if 0 = baudrate_Bps \<or> 0 = srcClock_Hz then Some (kStatus_InvalidArgument, d)
     else do {
       let (cfg, d) = reg_read soc U_CFG d;
       if cfg AND umask soc CFG_SYNCEN \<noteq> 0 then do {
         let (cfg, d) = reg_read soc U_CFG d;
         if cfg AND umask soc CFG_SYNCMST \<noteq> 0 then
           Some (kStatus_Success, reg_write soc U_BRG (srcClock_Hz div baudrate_Bps - 1) d)
         else Some (kStatus_Success, d)
       } else do {
         let allowed_error = baudrate_Bps div 100 * 3;
         (_, best_osrval, best_brgval) \<leftarrow>
           usart_baud_loop baudrate_Bps srcClock_Hz allowed_error 0xf (- 1, 0xf, - 1);
         baudrate \<leftarrow> c_div srcClock_Hz ((best_osrval + 1) * (best_brgval + 1));
         let diff = baud_diff baudrate_Bps baudrate;
         if allowed_error < diff then Some (kStatus_USART_BaudrateNotSupport, d)
         else if 0xFFFF < best_brgval then Some (kStatus_USART_BaudrateNotSupport, d)
         else Some (kStatus_Success, reg_write soc U_BRG best_brgval (reg_write soc U_OSR best_osrval d))
       }
     }
   }"

text \<open>The divider of the 32 kHz mode, which \<open>USART_Init\<close> and \<open>USART_Enable32kMode\<close> share.\<close>

definition usart_32k_divider :: "'d usart_soc \<Rightarrow> u32 \<Rightarrow> 'd \<Rightarrow> (status \<times> 'd) option" where
  "usart_32k_divider soc baudRate d = do {
     r \<leftarrow> c_mod 9600 baudRate;
     if r = 0 then Some (kStatus_Success, reg_write soc U_BRG (9600 div baudRate - 1) d)
     else Some (kStatus_USART_BaudrateNotSupport, d)
   }"

definition usart_cfg_value :: "'d usart_soc \<Rightarrow> usart_config \<Rightarrow> u32" where
  "usart_cfg_value soc config =
     ufield soc F_CFG_PARITYSEL (parity_num (parityMode config)) OR
     ufield soc F_CFG_STOPLEN (stop_num (stopBitCount config)) OR
     ufield soc F_CFG_DATALEN (data_len_num (bitCountPerChar config)) OR
     ufield soc F_CFG_LOOP (bool_num (loopback config)) OR
     ufield soc F_CFG_SYNCEN (drop_bit 1 (sync_num (syncMode config))) OR
     ufield soc F_CFG_SYNCMST (sync_num (syncMode config)) OR
     ufield soc F_CFG_CLKPOL (polarity_num (clockPolarity config)) OR
     ufield soc F_CFG_MODE32K (bool_num (enableMode32k config)) OR
     ufield soc F_CFG_CTSEN (bool_num (enableHardwareFlowControl config)) OR umask soc CFG_ENABLE"

definition USART_Init ::
    "'d usart_soc \<Rightarrow> u32 \<Rightarrow> usart_config option \<Rightarrow> u32 \<Rightarrow> 'd \<Rightarrow> (status \<times> 'd) option" where
  "USART_Init soc base config srcClock_Hz d = do {
     u_assert soc (\<not> (0 = base \<or> config = None \<or> 0 = srcClock_Hz));
     if 0 = base \<or> config = None \<or> 0 = srcClock_Hz then Some (kStatus_InvalidArgument, d)
     else do {
       config \<leftarrow> config;
       (result, d) \<leftarrow> FLEXCOMM_Init soc base FLEXCOMM_PERIPH_USART d;
       if kStatus_Success \<noteq> result then Some (result, d)
       else do {
         let d = (if enableTx config then
                    let d = reg_set soc U_FIFOCFG (umask soc FIFOCFG_EMPTYTX OR umask soc FIFOCFG_ENABLETX) d;
                        d = reg_clear soc U_FIFOTRIG (umask soc FIFOTRIG_TXLVL) d;
                        d = reg_set soc U_FIFOTRIG (ufield soc F_FIFOTRIG_TXLVL (cfg_txWatermark config)) d
                    in reg_set soc U_FIFOTRIG (umask soc FIFOTRIG_TXLVLENA) d
                  else d);
         let d = (if enableRx config then
                    let d = reg_set soc U_FIFOCFG (umask soc FIFOCFG_EMPTYRX OR umask soc FIFOCFG_ENABLERX) d;
                        d = reg_clear soc U_FIFOTRIG (umask soc FIFOTRIG_RXLVL) d;
                        d = reg_set soc U_FIFOTRIG (ufield soc F_FIFOTRIG_RXLVL (cfg_rxWatermark config)) d
                    in reg_set soc U_FIFOTRIG (umask soc FIFOTRIG_RXLVLENA) d
                  else d);
         let d = (if HAS_FIFORXTIMEOUTCFG soc then USART_SetRxTimeoutConfig soc (rxTimeout config) d else d);
         let d = reg_write soc U_CFG (usart_cfg_value soc config) d;
         (result, d) \<leftarrow> (if enableMode32k config then usart_32k_divider soc (baudRate_Bps config) d
                         else USART_SetBaudRate soc (baudRate_Bps config) srcClock_Hz d);
         if kStatus_Success \<noteq> result then Some (result, d)
         else Some (kStatus_Success, USART_EnableContinuousSCLK soc (enableContinuousSCLK config) d)
       }
     }
   }"

text \<open>
  The wait loops \<open>while ((0U == (base->R & m)) && (--waitTimes != 0U))\<close>, or without the count when
  \<open>UART_RETRY_TIMES\<close> is 0. The result is the count that is left, 0 after a timeout.
\<close>

partial_function (option) usart_wait ::
    "'d usart_soc \<Rightarrow> usart_reg \<Rightarrow> usart_mask \<Rightarrow> u32 \<Rightarrow> 'd \<Rightarrow> (u32 \<times> 'd) option" where
  "usart_wait soc r m waitTimes d =
     (let (v, d) = reg_read soc r d
      in if 0 = v AND umask soc m then
           if UART_RETRY_TIMES soc \<noteq> 0 then
             if waitTimes - 1 \<noteq> 0 then usart_wait soc r m (waitTimes - 1) d else Some (0, d)
           else usart_wait soc r m waitTimes d
         else Some (waitTimes, d))"

definition USART_Deinit :: "'d usart_soc \<Rightarrow> 'd \<Rightarrow> 'd option" where
  "USART_Deinit soc d = do {
     let (cfg, d) = reg_read soc U_CFG d;
     (_, d) \<leftarrow> (if cfg AND umask soc CFG_ENABLE \<noteq> 0
               then usart_wait soc U_STAT STAT_TXIDLE (UART_RETRY_TIMES soc) d else Some (0, d));
     let d = reg_write soc U_FIFOINTENCLR (umask soc FIFOINTENCLR_TXERR OR umask soc FIFOINTENCLR_RXERR OR
                                           umask soc FIFOINTENCLR_TXLVL OR umask soc FIFOINTENCLR_RXLVL) d;
     let d = reg_clear soc U_FIFOCFG (umask soc FIFOCFG_DMATX OR umask soc FIFOCFG_DMARX) d;
     let d = reg_clear soc U_CFG (umask soc CFG_ENABLE) d;
     Some (if HAS_FIFORXTIMEOUTCFG soc then reg_write soc U_FIFORXTIMEOUTCFG 0 d else d)
   }"

text \<open>After \<open>memset\<close> and the assignments every member is set; without the feature there is no timeout member.\<close>

definition USART_GetDefaultConfig :: "'d usart_soc \<Rightarrow> usart_config" where
  "USART_GetDefaultConfig soc =
     \<lparr>baudRate_Bps = 115200, parityMode = kUSART_ParityDisabled, stopBitCount = kUSART_OneStopBit,
      bitCountPerChar = kUSART_8BitsPerChar, loopback = False, enableRx = False, enableTx = False,
      enableContinuousSCLK = False, enableMode32k = False, enableHardwareFlowControl = False,
      cfg_txWatermark = 0, cfg_rxWatermark = 0, syncMode = kUSART_SyncModeDisabled,
      clockPolarity = kUSART_RxSampleOnFallingEdge,
      rxTimeout = (if HAS_FIFORXTIMEOUTCFG soc
                   then \<lparr>rt_enable = False, resetCounterOnEmpty = True, resetCounterOnReceive = True,
                         rt_counter = 0, rt_prescaler = 0\<rparr>
                   else \<lparr>rt_enable = False, resetCounterOnEmpty = False, resetCounterOnReceive = False,
                         rt_counter = 0, rt_prescaler = 0\<rparr>)\<rparr>"

definition USART_Enable32kMode :: "'d usart_soc \<Rightarrow> u32 \<Rightarrow> bool \<Rightarrow> u32 \<Rightarrow> 'd \<Rightarrow> (status \<times> 'd) option" where
  "USART_Enable32kMode soc baudRate enable32k srcClock_Hz d = do {
     let d = reg_clear soc U_CFG (umask soc CFG_ENABLE) d;
     (result, d) \<leftarrow> (if enable32k then usart_32k_divider soc baudRate (reg_set soc U_CFG (umask soc CFG_MODE32K) d)
                     else USART_SetBaudRate soc baudRate srcClock_Hz (reg_clear soc U_CFG (umask soc CFG_MODE32K) d));
     if kStatus_Success \<noteq> result then Some (result, d)
     else Some (result, reg_set soc U_CFG (umask soc CFG_ENABLE) d)
   }"

definition USART_Enable9bitMode :: "'d usart_soc \<Rightarrow> bool \<Rightarrow> 'd \<Rightarrow> 'd" where
  "USART_Enable9bitMode soc enable d =
     (if enable then
        let (v, d) = reg_read soc U_CFG d;
            temp = v AND NOT (umask soc CFG_DATALEN OR umask soc CFG_PARITYSEL);
            temp = temp OR ufield soc F_CFG_DATALEN 2
        in reg_write soc U_CFG temp d
      else reg_set soc U_CFG (ufield soc F_CFG_DATALEN 1) (reg_clear soc U_CFG (umask soc CFG_DATALEN) d))"

definition USART_SendAddress :: "'d usart_soc \<Rightarrow> u8 \<Rightarrow> 'd \<Rightarrow> 'd" where
  "USART_SendAddress soc address d = reg_write soc U_FIFOWR (ucast address OR 0x100) d"

subsection \<open>Blocking transfers\<close>

text \<open>The loop of \<open>USART_WriteBlocking\<close> over the bytes that are left; the flag tells a timeout.\<close>

fun usart_write_loop :: "'d usart_soc \<Rightarrow> mem \<Rightarrow> u32 \<Rightarrow> nat \<Rightarrow> 'd \<Rightarrow> (bool \<times> 'd) option" where
  "usart_write_loop soc ram data 0 d = Some (True, d)"
| "usart_write_loop soc ram data (Suc len) d = do {
     (waitTimes, d) \<leftarrow> usart_wait soc U_FIFOSTAT FIFOSTAT_TXNOTFULL (UART_RETRY_TIMES soc) d;
     if UART_RETRY_TIMES soc \<noteq> 0 \<and> 0 = waitTimes then Some (False, d)
     else usart_write_loop soc ram (data + 1) len (reg_write soc U_FIFOWR (ucast (ram data)) d)
   }"

definition USART_WriteBlocking :: "'d usart_soc \<Rightarrow> u32 \<Rightarrow> u32 \<Rightarrow> mem \<Rightarrow> 'd \<Rightarrow> (status \<times> 'd) option" where
  "USART_WriteBlocking soc data len ram d = do {
     u_assert soc (0 \<noteq> data);
     if 0 = data then Some (kStatus_InvalidArgument, d)
     else do {
       let (v, d) = reg_read soc U_FIFOCFG d;
       if 0 = v AND umask soc FIFOCFG_ENABLETX then Some (kStatus_InvalidArgument, d)
       else do {
         (ok, d) \<leftarrow> usart_write_loop soc ram data (unat len) d;
         if \<not> ok then Some (kStatus_USART_Timeout, d)
         else do {
           (waitTimes, d) \<leftarrow> usart_wait soc U_STAT STAT_TXIDLE (UART_RETRY_TIMES soc) d;
           if UART_RETRY_TIMES soc \<noteq> 0 \<and> 0 = waitTimes then Some (kStatus_USART_Timeout, d)
           else Some (kStatus_Success, d)
         }
       }
     }
   }"

text \<open>The status that one iteration of \<open>USART_ReadBlocking\<close> reads off the flags.\<close>

definition usart_flag_status :: "'d usart_soc \<Rightarrow> u32 \<Rightarrow> status" where
  "usart_flag_status soc statusFlag =
     (let status = kStatus_Success;
          status = (if statusFlag AND umask soc STAT_PARITYERRINT \<noteq> 0 then kStatus_USART_ParityError else status);
          status = (if statusFlag AND umask soc STAT_FRAMERRINT \<noteq> 0 then kStatus_USART_FramingError else status)
      in if statusFlag AND umask soc STAT_RXNOISEINT \<noteq> 0 then kStatus_USART_NoiseError else status)"

fun usart_read_loop :: "'d usart_soc \<Rightarrow> u32 \<Rightarrow> nat \<Rightarrow> mem \<times> 'd \<Rightarrow> (status \<times> mem \<times> 'd) option" where
  "usart_read_loop soc data 0 (ram, d) = Some (kStatus_Success, ram, d)"
| "usart_read_loop soc data (Suc len) (ram, d) = do {
     (waitTimes, d) \<leftarrow> usart_wait soc U_FIFOSTAT FIFOSTAT_RXNOTEMPTY (UART_RETRY_TIMES soc) d;
     if UART_RETRY_TIMES soc \<noteq> 0 \<and> waitTimes = 0 then Some (kStatus_USART_Timeout, ram, d)
     else do {
       let (v, d) = reg_read soc U_FIFOSTAT d;
       if v AND umask soc FIFOSTAT_RXERR \<noteq> 0 then
         let d = reg_set soc U_FIFOCFG (umask soc FIFOCFG_EMPTYRX) d;
             d = reg_set soc U_FIFOSTAT (umask soc FIFOSTAT_RXERR) d
         in Some (kStatus_USART_RxError, ram, d)
       else do {
         let (statusFlag, d) = reg_read soc U_STAT d;
         let d = reg_set soc U_STAT statusFlag d;
         let status = usart_flag_status soc statusFlag;
         if kStatus_Success = status then do {
           let (b, d) = reg_read soc U_FIFORD d;
           usart_read_loop soc (data + 1) len (ram(data := ucast b), d)
         } else Some (status, ram, d)
       }
     }
   }"

definition USART_ReadBlocking :: "'d usart_soc \<Rightarrow> u32 \<Rightarrow> u32 \<Rightarrow> mem \<times> 'd \<Rightarrow> (status \<times> mem \<times> 'd) option" where
  "USART_ReadBlocking soc data len rd = do {
     let (ram, d) = rd;
     u_assert soc (0 \<noteq> data);
     if 0 = data then Some (kStatus_InvalidArgument, ram, d)
     else do {
       let (v, d) = reg_read soc U_FIFOCFG d;
       if v AND umask soc FIFOCFG_ENABLERX = 0 then Some (kStatus_Fail, ram, d)
       else usart_read_loop soc data (unat len) (ram, d)
     }
   }"

subsection \<open>Transactional interface\<close>

text \<open>\<open>base\<close> and \<open>handle\<close> are the addresses of the instance and of its handle.\<close>

definition USART_TransferCreateHandle ::
    "'d usart_soc \<Rightarrow> u32 \<Rightarrow> u32 \<Rightarrow> nat option \<Rightarrow> u32 \<Rightarrow> 'd usart \<Rightarrow> (status \<times> 'd usart) option" where
  "USART_TransferCreateHandle soc base handle cb ud s = do {
     u_assert soc (\<not> (0 = base \<or> 0 = handle));
     if 0 = base \<or> 0 = handle then Some (kStatus_InvalidArgument, s)
     else do {
       inst \<leftarrow> USART_GetInstance soc base;
       let (rxw, d) = USART_FIFOTRIG_RXLVL_GET soc (u_dev s);
       let (txw, d) = USART_FIFOTRIG_TXLVL_GET soc d;
       let s = s\<lparr>u_dev := d,
                 u_handle := \<lparr>txData = 0, txDataSize = 0, txDataSizeAll = 0, rxData = 0, rxDataSize = 0,
                   rxDataSizeAll = 0, rxRingBuffer = 0, rxRingBufferSize = 0, rxRingBufferHead = 0,
                   rxRingBufferTail = 0, callback = cb, userData = ud, txState = kUSART_TxIdle,
                   rxState = kUSART_RxIdle, txWatermark = ucast txw, rxWatermark = ucast rxw\<rparr>\<rparr>;
       irqs \<leftarrow> FLEXCOMM_SetIRQHandler soc base (Some USART_Handler) handle (u_irqs s);
       let s = s\<lparr>u_irqs := irqs\<rparr>;
       Some (kStatus_Success, on_udev (usart_EnableIRQ soc inst) s)
     }
   }"

text \<open>
  \<open>usartMask = USART_GetEnabledInterrupts(base); USART_DisableInterrupts(base, usartMask);\<close> and
  restoring the interrupt mask of the core, as both non-blocking calls do it.
\<close>

definition usart_mask_interrupts :: "'d usart_soc \<Rightarrow> u32 \<Rightarrow> 'd usart \<Rightarrow> u32 \<times> 'd usart" where
  "usart_mask_interrupts soc globalMask s =
     (let (usartMask, d) = USART_GetEnabledInterrupts soc (u_dev s);
          s = s\<lparr>u_dev := USART_DisableInterrupts soc usartMask d\<rparr>
      in (usartMask, irq_enable globalMask s))"

definition USART_TransferSendNonBlocking ::
    "'d usart_soc \<Rightarrow> usart_transfer option \<Rightarrow> 'd usart \<Rightarrow> (status \<times> 'd usart) option" where
  "USART_TransferSendNonBlocking soc xfer s = do {
     u_assert soc (xfer \<noteq> None);
     case xfer of None \<Rightarrow> Some (kStatus_InvalidArgument, s)
     | Some xfer \<Rightarrow> do {
       u_assert soc (\<not> (0 = xfer_dataSize xfer \<or> 0 = xfer_data xfer));
       if 0 = xfer_dataSize xfer \<or> 0 = xfer_data xfer then Some (kStatus_InvalidArgument, s)
       else do {
         let (globalMask, s) = irq_disable s;
         if kUSART_TxBusy = txState (u_handle s) then Some (kStatus_USART_TxBusy, irq_enable globalMask s)
         else do {
           let s = on_handle (\<lambda>h. h\<lparr>txState := kUSART_TxBusy\<rparr>) s;
           let (usartMask, s) = usart_mask_interrupts soc globalMask s;
           let s = on_handle (\<lambda>h. h\<lparr>txData := xfer_data xfer, txDataSize := xfer_dataSize xfer,
                                    txDataSizeAll := xfer_dataSize xfer\<rparr>) s;
           Some (kStatus_Success,
                 on_udev (USART_EnableInterrupts soc (usartMask OR kUSART_TxLevelInterruptEnable soc)) s)
         }
       }
     }
   }"

definition USART_TransferAbortSend :: "'d usart_soc \<Rightarrow> 'd usart \<Rightarrow> 'd usart" where
  "USART_TransferAbortSend soc s =
     (let s = on_udev (USART_DisableInterrupts soc (kUSART_TxLevelInterruptEnable soc)) s;
          s = on_udev (reg_set soc U_FIFOCFG (umask soc FIFOCFG_EMPTYTX)) s
      in on_handle (\<lambda>h. h\<lparr>txDataSize := 0, txState := kUSART_TxIdle\<rparr>) s)"

text \<open>The count is \<open>None\<close> where \<open>*count\<close> is not assigned.\<close>

definition USART_TransferGetSendCount :: "'d usart_soc \<Rightarrow> 'd usart \<Rightarrow> status \<times> u32 option \<times> 'd usart" where
  "USART_TransferGetSendCount soc s =
     (if kUSART_TxIdle = txState (u_handle s) then (kStatus_NoTransferInProgress, None, s)
      else
        let (v, s) = uread soc U_FIFOSTAT s
        in (kStatus_Success,
            Some (txDataSizeAll (u_handle s) - txDataSize (u_handle s) -
                  drop_bit (FIFOSTAT_TXLVL_SHIFT soc) (v AND umask soc FIFOSTAT_TXLVL)), s))"

text \<open>
  The copy loop of \<open>USART_TransferReceiveNonBlocking\<close>: one byte leaves the ring at its tail, and
  \<open>n\<close> bytes are copied to consecutive addresses.
\<close>

definition ring_pop :: "usart_handle \<times> mem \<Rightarrow> u8 \<times> usart_handle \<times> mem" where
  "ring_pop hm =
     (let (h, ram) = hm in (ram (rxRingBuffer h + ucast (rxRingBufferTail h)), ring_inc_tail h, ram))"

fun usart_ring_copy :: "u32 \<Rightarrow> nat \<Rightarrow> usart_handle \<times> mem \<Rightarrow> usart_handle \<times> mem" where
  "usart_ring_copy dst 0 hm = hm"
| "usart_ring_copy dst (Suc n) hm =
     (let (b, h, ram) = ring_pop hm in usart_ring_copy (dst + 1) n (h, ram(dst := b)))"

text \<open>The part that serves the request from the ring buffer; the result holds \<open>bytesCurrentReceived\<close>
  and \<open>bytesToReceive\<close>.\<close>

definition usart_receive_ring :: "usart_transfer \<Rightarrow> 'd usart \<Rightarrow> u32 \<times> u32 \<times> 'd usart" where
  "usart_receive_ring xfer s =
     (let bytesToReceive = xfer_dataSize xfer;
          bytesToCopy = USART_TransferGetRxRingBufferLength (u_handle s);
          (bytesCurrentReceived, bytesToReceive, s) =
            (if bytesToCopy \<noteq> 0 then
               let bytesToCopy = min bytesToReceive bytesToCopy;
                   (h, ram) = usart_ring_copy (xfer_data xfer) (unat bytesToCopy) (u_handle s, u_ram s)
               in (bytesToCopy, bytesToReceive - bytesToCopy, s\<lparr>u_handle := h, u_ram := ram\<rparr>)
             else (0, bytesToReceive, s));
          s = (if bytesToReceive \<noteq> 0 then
                 on_handle (\<lambda>h. h\<lparr>rxData := xfer_data xfer + bytesCurrentReceived, rxDataSize := bytesToReceive,
                                  rxDataSizeAll := xfer_dataSize xfer\<rparr>) s
               else on_handle (\<lambda>h. h\<lparr>rxState := kUSART_RxIdle\<rparr>) s)
      in (bytesCurrentReceived, bytesToReceive, s))"

text \<open>
  The part that accepts the request. The middle result is what is stored through \<open>receivedBytes\<close>
  when that pointer is not null; the store comes before the callback.
\<close>

definition usart_receive_start ::
    "'d usart_soc \<Rightarrow> u32 \<Rightarrow> usart_transfer \<Rightarrow> 'd usart \<Rightarrow> (status \<times> u32 option \<times> 'd usart) option" where
  "usart_receive_start soc globalMask xfer s = do {
     let s = on_handle (\<lambda>h. h\<lparr>rxState := kUSART_RxBusy\<rparr>) s;
     let (usartMask, s) = usart_mask_interrupts soc globalMask s;
     let (bytesCurrentReceived, bytesToReceive, s) =
       (if rxRingBuffer (u_handle s) \<noteq> 0 then usart_receive_ring xfer s
        else
          (0, xfer_dataSize xfer,
           on_udev (reg_write soc U_FIFOINTENSET (umask soc FIFOINTENSET_RXLVL))
             (on_handle (\<lambda>h. h\<lparr>rxData := xfer_data xfer + 0, rxDataSize := xfer_dataSize xfer,
                               rxDataSizeAll := xfer_dataSize xfer\<rparr>) s)));
     let s = on_udev (USART_EnableInterrupts soc usartMask) s;
     s \<leftarrow> (if rxRingBuffer (u_handle s) \<noteq> 0 \<and> bytesToReceive = 0
          then usart_callback soc kStatus_USART_RxIdle s else Some s);
     Some (kStatus_Success, Some bytesCurrentReceived, s)
   }"

text \<open>Where the function returns without storing to \<open>receivedBytes\<close>, the middle result is \<open>None\<close>.\<close>

definition USART_TransferReceiveNonBlocking ::
    "'d usart_soc \<Rightarrow> usart_transfer option \<Rightarrow> 'd usart \<Rightarrow> (status \<times> u32 option \<times> 'd usart) option" where
  "USART_TransferReceiveNonBlocking soc xfer s = do {
     u_assert soc (xfer \<noteq> None);
     case xfer of None \<Rightarrow> Some (kStatus_InvalidArgument, None, s)
     | Some xfer \<Rightarrow> do {
       u_assert soc (\<not> (0 = xfer_dataSize xfer \<or> 0 = xfer_data xfer));
       if 0 = xfer_dataSize xfer \<or> 0 = xfer_data xfer then Some (kStatus_InvalidArgument, None, s)
       else do {
         let (cfg, s) = uread soc U_CFG s;
         let s = (if cfg AND umask soc CFG_AUTOADDR \<noteq> 0
                  then on_udev (reg_set soc U_CTL (umask soc CTL_ADDRDET)) s else s);
         let (globalMask, s) = irq_disable s;
         if kUSART_RxBusy = rxState (u_handle s) then Some (kStatus_USART_RxBusy, None, irq_enable globalMask s)
         else usart_receive_start soc globalMask xfer s
       }
     }
   }"

definition USART_TransferAbortReceive :: "'d usart_soc \<Rightarrow> 'd usart \<Rightarrow> 'd usart" where
  "USART_TransferAbortReceive soc s =
     (let s = (if 0 = rxRingBuffer (u_handle s) then
                 on_udev (reg_set soc U_FIFOCFG (umask soc FIFOCFG_EMPTYRX))
                   (on_udev (USART_DisableInterrupts soc (kUSART_RxLevelInterruptEnable soc)) s)
               else s)
      in on_handle (\<lambda>h. h\<lparr>rxDataSize := 0, rxState := kUSART_RxIdle\<rparr>) s)"

definition USART_TransferGetReceiveCount :: "'d usart \<Rightarrow> status \<times> u32 option" where
  "USART_TransferGetReceiveCount s =
     (if kUSART_RxIdle = rxState (u_handle s) then (kStatus_NoTransferInProgress, None)
      else (kStatus_Success, Some (rxDataSizeAll (u_handle s) - rxDataSize (u_handle s))))"

subsection \<open>Interrupt handler\<close>

text \<open>One error check of \<open>USART_TransferHandleIRQ\<close>: clear the flag, empty the receive FIFO, call back.\<close>

definition usart_error_check ::
    "'d usart_soc \<Rightarrow> usart_reg \<Rightarrow> usart_mask \<Rightarrow> bool \<Rightarrow> status \<Rightarrow> 'd usart \<Rightarrow> 'd usart option" where
  "usart_error_check soc r m emptyRx status s = do {
     let (v, s) = uread soc r s;
     if v AND umask soc m \<noteq> 0 then do {
       let s = on_udev (reg_set soc r (umask soc m)) s;
       let s = (if emptyRx then on_udev (reg_set soc U_FIFOCFG (umask soc FIFOCFG_EMPTYRX)) s else s);
       usart_callback soc status s
     } else Some s
   }"

definition usart_errors :: "'d usart_soc \<Rightarrow> 'd usart \<Rightarrow> 'd usart option" where
  "usart_errors soc s = do {
     s \<leftarrow> usart_error_check soc U_FIFOSTAT FIFOSTAT_RXERR True kStatus_USART_RxError s;
     s \<leftarrow> usart_error_check soc U_FIFOSTAT FIFOSTAT_TXERR False kStatus_USART_TxError s;
     s \<leftarrow> usart_error_check soc U_STAT STAT_RXNOISEINT True kStatus_USART_NoiseError s;
     s \<leftarrow> usart_error_check soc U_STAT STAT_FRAMERRINT True kStatus_USART_FramingError s;
     usart_error_check soc U_STAT STAT_PARITYERRINT True kStatus_USART_ParityError s
   }"

text \<open>\<open>enabled && ((base->FIFOSTAT & m) != 0U)\<close>: the register is read only when \<open>enabled\<close>.\<close>

definition usart_poll :: "'d usart_soc \<Rightarrow> bool \<Rightarrow> usart_mask \<Rightarrow> 'd usart \<Rightarrow> bool \<times> 'd usart" where
  "usart_poll soc enabled m s =
     (if enabled then let (v, s) = uread soc U_FIFOSTAT s in (v AND umask soc m \<noteq> 0, s) else (False, s))"

definition usart_irq_cond :: "'d usart_soc \<Rightarrow> bool \<Rightarrow> bool \<Rightarrow> 'd usart \<Rightarrow> bool \<times> 'd usart" where
  "usart_irq_cond soc receiveEnabled sendEnabled s =
     (let (rx, s) = usart_poll soc receiveEnabled FIFOSTAT_RXNOTEMPTY s
      in if rx then (True, s) else usart_poll soc sendEnabled FIFOSTAT_TXNOTFULL s)"

text \<open>
  Storing a byte in the ring: the oldest byte makes room when the ring is full. The callback may
  have removed the ring; the store then goes through a null pointer.
\<close>

definition ring_make_room :: "usart_handle \<Rightarrow> usart_handle" where
  "ring_make_room h = (if USART_TransferIsRxRingBufferFull h then ring_inc_tail h else h)"

definition ring_store :: "u8 \<Rightarrow> usart_handle \<times> mem \<Rightarrow> usart_handle \<times> mem" where
  "ring_store b hm =
     (let (h, ram) = hm in (ring_inc_head h, ram(rxRingBuffer h + ucast (rxRingBufferHead h) := b)))"

definition usart_ring_receive :: "'d usart_soc \<Rightarrow> 'd usart \<Rightarrow> 'd usart option" where
  "usart_ring_receive soc s = do {
     s \<leftarrow> (if USART_TransferIsRxRingBufferFull (u_handle s)
          then usart_callback soc kStatus_USART_RxRingBufferOverrun s else Some s);
     let s = on_handle ring_make_room s;
     let (rxdata, s) = uread soc U_FIFORD s;
     c_assert (rxRingBuffer (u_handle s) \<noteq> 0);
     let (h, ram) = ring_store (ucast rxdata) (u_handle s, u_ram s);
     Some (s\<lparr>u_handle := h, u_ram := ram\<rparr>)
   }"

text \<open>Storing a byte in the buffer of the receive request; the flag is the new \<open>receiveEnabled\<close>.\<close>

definition usart_request_receive :: "'d usart_soc \<Rightarrow> 'd usart \<Rightarrow> (bool \<times> 'd usart) option" where
  "usart_request_receive soc s = do {
     let (rxdata, s) = uread soc U_FIFORD s;
     let s = s\<lparr>u_ram := (u_ram s)(rxData (u_handle s) := ucast rxdata)\<rparr>;
     let s = on_handle (\<lambda>h. h\<lparr>rxDataSize := rxDataSize h - 1, rxData := rxData h + 1\<rparr>) s;
     let receiveEnabled = (rxDataSize (u_handle s) \<noteq> 0 \<or> rxRingBuffer (u_handle s) \<noteq> 0);
     if 0 = rxDataSize (u_handle s) then do {
       let s = (if 0 = rxRingBuffer (u_handle s) then
                  on_udev (reg_write soc U_FIFOINTENCLR
                             (umask soc FIFOINTENCLR_RXLVL OR umask soc FIFOINTENSET_RXERR)) s
                else s);
       let s = on_handle (\<lambda>h. h\<lparr>rxState := kUSART_RxIdle\<rparr>) s;
       s \<leftarrow> usart_callback soc kStatus_USART_RxIdle s;
       Some (receiveEnabled, s)
     } else Some (receiveEnabled, s)
   }"

text \<open>The receive branch of the loop body; it returns \<open>receiveEnabled\<close>.\<close>

definition usart_receive_byte :: "'d usart_soc \<Rightarrow> bool \<Rightarrow> 'd usart \<Rightarrow> (bool \<times> 'd usart) option" where
  "usart_receive_byte soc receiveEnabled s = do {
     let s = on_udev (reg_clear soc U_CTL (umask soc CTL_ADDRDET)) s;
     if rxDataSize (u_handle s) \<noteq> 0 then usart_request_receive soc s
     else if rxRingBuffer (u_handle s) \<noteq> 0 then do {
       s \<leftarrow> usart_ring_receive soc s;
       Some (receiveEnabled, s)
     } else Some (receiveEnabled, s)
   }"

text \<open>The send branch of the loop body; it returns \<open>sendEnabled\<close>.\<close>

definition usart_send_byte :: "'d usart_soc \<Rightarrow> 'd usart \<Rightarrow> bool \<times> 'd usart" where
  "usart_send_byte soc s =
     (let s = on_udev (reg_write soc U_FIFOWR (ucast (u_ram s (txData (u_handle s))))) s;
          s = on_handle (\<lambda>h. h\<lparr>txDataSize := txDataSize h - 1, txData := txData h + 1\<rparr>) s;
          sendEnabled = (txDataSize (u_handle s) \<noteq> 0);
          s = (if \<not> sendEnabled then
                 on_udev (reg_write soc U_INTENSET (umask soc INTENSET_TXIDLEEN))
                   (on_udev (reg_write soc U_FIFOINTENCLR (umask soc FIFOINTENCLR_TXLVL)) s)
               else s)
      in (sendEnabled, s))"

definition usart_irq_body :: "'d usart_soc \<Rightarrow> bool \<Rightarrow> bool \<Rightarrow> 'd usart \<Rightarrow> (bool \<times> bool \<times> 'd usart) option" where
  "usart_irq_body soc receiveEnabled sendEnabled s = do {
     let (rx, s) = usart_poll soc receiveEnabled FIFOSTAT_RXNOTEMPTY s;
     (receiveEnabled, s) \<leftarrow> (if rx then usart_receive_byte soc receiveEnabled s else Some (receiveEnabled, s));
     let (tx, s) = usart_poll soc sendEnabled FIFOSTAT_TXNOTFULL s;
     let (sendEnabled, s) = (if tx then usart_send_byte soc s else (sendEnabled, s));
     Some (receiveEnabled, sendEnabled, s)
   }"

partial_function (option) usart_irq_loop :: "'d usart_soc \<Rightarrow> bool \<Rightarrow> bool \<Rightarrow> 'd usart \<Rightarrow> 'd usart option" where
  "usart_irq_loop soc receiveEnabled sendEnabled s =
     (let (cont, s) = usart_irq_cond soc receiveEnabled sendEnabled s
      in if cont then
           usart_irq_body soc receiveEnabled sendEnabled s \<bind> (\<lambda>x. usart_irq_loop soc (fst x) (fst (snd x)) (snd (snd x)))
         else Some s)"

text \<open>The end of the handler: transmitter idle, and the receive trigger level.\<close>

definition usart_tx_idle :: "'d usart_soc \<Rightarrow> 'd usart \<Rightarrow> 'd usart option" where
  "usart_tx_idle soc s = do {
     let (en, s) = uread soc U_INTENSET s;
     let (idle, s) = (if 0 \<noteq> en AND umask soc INTENSET_TXIDLEEN then
                        let (st, s) = uread soc U_INTSTAT s in (0 \<noteq> st AND umask soc INTSTAT_TXIDLE, s)
                      else (False, s));
     if idle then do {
       let s = on_handle (\<lambda>h. h\<lparr>txState := kUSART_TxIdle\<rparr>) s;
       let s = on_udev (reg_write soc U_INTENCLR (umask soc INTENCLR_TXIDLECLR)) s;
       usart_callback soc kStatus_USART_TxIdle s
     } else Some s
   }"

definition usart_set_rxlvl :: "'d usart_soc \<Rightarrow> u32 \<Rightarrow> 'd \<Rightarrow> 'd" where
  "usart_set_rxlvl soc lvl d =
     (let (v, d) = reg_read soc U_FIFOTRIG d
      in reg_write soc U_FIFOTRIG (v AND NOT (umask soc FIFOTRIG_RXLVL) OR ufield soc F_FIFOTRIG_RXLVL lvl) d)"

definition usart_rx_level :: "'d usart_soc \<Rightarrow> usart_handle \<Rightarrow> 'd \<Rightarrow> 'd" where
  "usart_rx_level soc h d =
     (if 0 = rxRingBuffer h then
        let tmpsize = rxDataSize h;
            d = (if tmpsize = 0 then
                   let (lvl, d) = USART_FIFOTRIG_RXLVL_GET soc d
                   in if lvl \<noteq> ucast (rxWatermark h) then usart_set_rxlvl soc (ucast (rxWatermark h)) d else d
                 else d)
        in if tmpsize \<noteq> 0 then
             let (lvl, d) = USART_FIFOTRIG_RXLVL_GET soc d
             in if tmpsize < lvl + 1 then usart_set_rxlvl soc (tmpsize - 1) d else d
           else d
      else d)"

definition USART_TransferHandleIRQ :: "'d usart_soc \<Rightarrow> 'd usart \<Rightarrow> 'd usart option" where
  "USART_TransferHandleIRQ soc s = do {
     let receiveEnabled = (rxDataSize (u_handle s) \<noteq> 0 \<or> rxRingBuffer (u_handle s) \<noteq> 0);
     let sendEnabled = (txDataSize (u_handle s) \<noteq> 0);
     s \<leftarrow> usart_errors soc s;
     s \<leftarrow> usart_irq_loop soc receiveEnabled sendEnabled s;
     s \<leftarrow> usart_tx_idle soc s;
     Some (on_udev (usart_rx_level soc (u_handle s)) s)
   }"

end
