(* ===== verification/Ring_Queue.thy ===== *)
theory Ring_Queue
  imports Prelude
begin

text \<open>
  Receive ring buffers, as the serial drivers keep them: a head and a tail index into an array that
  wrap at its size, one cell left free. The locale \<open>bounded_queue\<close> is the contract of a queue that
  drops its oldest element when it is full; what any number of stores and removals does is proved
  from it. The locale \<open>index_ring\<close> is the contract of the two indices and the array, and a
  \<open>bounded_queue\<close> follows from it. The drivers interpret them on their handles and RAM.
\<close>

subsection \<open>The contract\<close>

text \<open>\<open>valid\<close> tells which elements the queue can hold.\<close>

locale bounded_queue =
  fixes invar :: "'s \<Rightarrow> bool"
    and valid :: "'s \<Rightarrow> 'a \<Rightarrow> bool"
    and elems :: "'s \<Rightarrow> 'a list"
    and cap :: "'s \<Rightarrow> nat"
    and push :: "'a \<Rightarrow> 's \<Rightarrow> 's"
    and pop :: "'s \<Rightarrow> 'a \<times> 's"
  assumes bound: "invar s \<Longrightarrow> length (elems s) \<le> cap s"
    and push_invar: "invar s \<Longrightarrow> invar (push x s)"
    and push_cap: "invar s \<Longrightarrow> cap (push x s) = cap s"
    and push_valid: "invar s \<Longrightarrow> valid (push x s) = valid s"
    and push_elems: "invar s \<Longrightarrow> valid s x \<Longrightarrow> elems (push x s) = drop (Suc (length (elems s)) - cap s) (elems s @ [x])"
    and pop_invar: "invar s \<Longrightarrow> elems s \<noteq> [] \<Longrightarrow> invar (snd (pop s))"
    and pop_elems: "invar s \<Longrightarrow> elems s \<noteq> [] \<Longrightarrow> elems s = fst (pop s) # elems (snd (pop s))"
begin

lemma pushes_invar: "invar s \<Longrightarrow> invar (fold push xs s) \<and> cap (fold push xs s) = cap s"
  by (induction xs arbitrary: s) (simp_all add: push_invar push_cap)

lemma pushes_elems:
  "invar s \<Longrightarrow> list_all (valid s) xs \<Longrightarrow>
   elems (fold push xs s) = drop (length (elems s) + length xs - cap s) (elems s @ xs)"
proof (induction xs arbitrary: s)
  case Nil
  then show ?case using bound by simp
next
  case (Cons x xs)
  let ?k = "Suc (length (elems s)) - cap s"
  have len: "length (elems (push x s)) = Suc (length (elems s)) - ?k"
    using Cons.prems by (simp add: push_elems)
  have k: "?k \<le> Suc (length (elems s))" by simp
  have "elems (fold push (x # xs) s) = drop (length (elems (push x s)) + length xs - cap s) (elems (push x s) @ xs)"
    using Cons by (simp add: push_invar push_cap push_valid)
  also have "elems (push x s) @ xs = drop ?k (elems s @ x # xs)"
    using drop_append [of ?k "elems s @ [x]" xs] Cons.prems k by (simp add: push_elems del: drop_append)
  also have "drop (length (elems (push x s)) + length xs - cap s) (drop ?k (elems s @ x # xs)) =
             drop (length (elems s) + length (x # xs) - cap s) (elems s @ x # xs)"
  proof -
    have "length (elems (push x s)) + length xs - cap s + ?k = length (elems s) + length (x # xs) - cap s"
      using bound [OF Cons.prems(1)] bound [OF push_invar [OF Cons.prems(1)], of x] len
      by (simp add: push_cap [OF Cons.prems(1)])
    then show ?thesis by (simp only: drop_drop)
  qed
  finally show ?case .
qed

lemma pushes_keep_all:
  "invar s \<Longrightarrow> list_all (valid s) xs \<Longrightarrow> length (elems s) + length xs \<le> cap s \<Longrightarrow> elems (fold push xs s) = elems s @ xs"
  by (simp add: pushes_elems)

lemma pushes_keep_last:
  assumes "invar s" "list_all (valid s) xs" "cap s \<le> length xs"
  shows "elems (fold push xs s) = drop (length xs - cap s) xs"
  using assms by (simp add: pushes_elems)

primrec pop_list :: "nat \<Rightarrow> 's \<Rightarrow> 'a list \<times> 's" where
  "pop_list 0 s = ([], s)"
| "pop_list (Suc n) s = (let (x, s) = pop s; (xs, s) = pop_list n s in (x # xs, s))"

lemma pop_list_elems:
  "invar s \<Longrightarrow> n \<le> length (elems s) \<Longrightarrow>
   fst (pop_list n s) = take n (elems s) \<and> elems (snd (pop_list n s)) = drop n (elems s) \<and> invar (snd (pop_list n s))"
proof (induction n arbitrary: s)
  case (Suc n)
  then have ne: "elems s \<noteq> []" by auto
  note e = pop_elems [OF Suc.prems(1) ne]
  have "n \<le> length (elems (snd (pop s)))" using Suc.prems(2) by (subst (asm) e) simp
  from Suc.IH [OF pop_invar [OF Suc.prems(1) ne] this] show ?case
    by (subst (1 2) e) (simp add: case_prod_beta Let_def)
qed simp

end

subsection \<open>Indices that wrap\<close>

text \<open>The \<open>n\<close> elements from index \<open>t\<close> on, in a store \<open>f\<close> of \<open>sz\<close> cells.\<close>

definition cells :: "(nat \<Rightarrow> 'a) \<Rightarrow> nat \<Rightarrow> nat \<Rightarrow> nat \<Rightarrow> 'a list" where
  "cells f sz t n = map (\<lambda>i. f ((t + i) mod sz)) [0..<n]"

lemma length_cells [simp]: "length (cells f sz t n) = n"
  by (simp add: cells_def)

lemma cells_Suc: "cells f sz t (Suc n) = cells f sz t n @ [f ((t + n) mod sz)]"
  by (simp add: cells_def)

lemma cells_Cons: "cells f sz t (Suc n) = f (t mod sz) # cells f sz (Suc t mod sz) n"
proof -
  have "[0..<Suc n] = 0 # map Suc [0..<n]" by (simp add: upt_conv_Cons map_Suc_upt)
  then show ?thesis by (simp add: cells_def o_def mod_simps)
qed

lemma cells_update:
  assumes "n < sz"
  shows "cells (f((t + n) mod sz := b)) sz t n = cells f sz t n"
proof -
  have "(t + i) mod sz \<noteq> (t + n) mod sz" if "i < n" for i
  proof
    assume "(t + i) mod sz = (t + n) mod sz"
    then have "sz dvd (t + n) - (t + i)" using that by (metis add_le_cancel_left less_imp_le mod_eq_dvd_iff_nat)
    then have "sz dvd n - i" by simp
    with that assms show False by (meson diff_less dvd_imp_le leD less_imp_diff_less zero_less_diff less_le_trans)
  qed
  then show ?thesis by (simp add: cells_def)
qed

lemma cells_cong: "0 < sz \<Longrightarrow> (\<And>i. i < sz \<Longrightarrow> f i = g i) \<Longrightarrow> cells f sz t n = cells g sz t n"
  by (simp add: cells_def)

definition wrap_len :: "nat \<Rightarrow> nat \<Rightarrow> nat \<Rightarrow> nat" where
  "wrap_len sz h t = (if t \<le> h then h - t else h + sz - t)"

lemma wrap_len_less: "h < sz \<Longrightarrow> t < sz \<Longrightarrow> wrap_len sz h t < sz"
  by (auto simp: wrap_len_def)

lemma wrap_len_head: "h < sz \<Longrightarrow> t < sz \<Longrightarrow> (t + wrap_len sz h t) mod sz = h"
  by (auto simp: wrap_len_def)

lemma wrap_len_of: "n < sz \<Longrightarrow> t < sz \<Longrightarrow> wrap_len sz ((t + n) mod sz) t = n"
  by (cases "t + n < sz") (auto simp: wrap_len_def mod_if)

lemma Suc_mod_inc: "i < sz \<Longrightarrow> Suc i mod sz = (if Suc i = sz then 0 else Suc i)"
  by simp

lemma inc_index:
  assumes "unat (i :: u16) < unat (sz :: u32)" "unat sz \<le> 65536"
  shows "unat (if ucast i + 1 = sz then 0 else i + 1) = Suc (unat i) mod unat sz"
proof -
  have "unat (ucast i + 1 :: u32) = Suc (unat i)" using assms by (simp add: unat_plus_small)
  then have "(ucast i + 1 = sz) = (Suc (unat i) = unat sz)" by (simp add: word_unat_eq_iff)
  moreover have "unat (i + 1) = Suc (unat i)" if "Suc (unat i) \<noteq> unat sz"
    using that assms by (simp add: unat_plus_small)
  ultimately show ?thesis using assms(1) by (simp add: Suc_mod_inc)
qed

lemma index_distance:
  assumes "unat (h :: u16) < unat (sz :: u32)" "unat (t :: u16) < unat sz" "unat sz \<le> 65536"
  shows "unat (if h < t then ucast h + sz - ucast t else ucast h - ucast t) = wrap_len (unat sz) (unat h) (unat t)"
proof (cases "h < t")
  case True
  have "unat (ucast h + sz) = unat h + unat sz" using assms by (simp add: unat_plus_small)
  then show ?thesis using True assms by (simp add: wrap_len_def word_less_nat_alt unat_minus_small)
next
  case False
  then show ?thesis by (simp add: wrap_len_def word_less_nat_alt unat_minus_small)
qed

lemma distance_full:
  "unat (n :: u32) < unat sz \<Longrightarrow> n = sz - 1 \<longleftrightarrow> Suc (unat n) = unat sz"
  by (auto simp: word_unat_eq_iff unat_minus_small)

subsection \<open>Indices into an array\<close>

text \<open>
  \<open>put\<close> stores at the head and advances it, \<open>skip\<close> advances the tail, \<open>full\<close> is the test of the
  driver.
\<close>

locale index_ring =
  fixes ok :: "'s \<Rightarrow> bool"
    and valid :: "'s \<Rightarrow> 'a \<Rightarrow> bool"
    and size :: "'s \<Rightarrow> nat"
    and head :: "'s \<Rightarrow> nat"
    and tail :: "'s \<Rightarrow> nat"
    and cell :: "'s \<Rightarrow> nat \<Rightarrow> 'a"
    and full :: "'s \<Rightarrow> bool"
    and put :: "'a \<Rightarrow> 's \<Rightarrow> 's"
    and skip :: "'s \<Rightarrow> 's"
  assumes bounds: "ok s \<Longrightarrow> head s < size s" "ok s \<Longrightarrow> tail s < size s"
    and full_iff: "ok s \<Longrightarrow> full s \<longleftrightarrow> Suc (wrap_len (size s) (head s) (tail s)) = size s"
    and put_ok: "ok s \<Longrightarrow> ok (put x s)"
    and put_size: "ok s \<Longrightarrow> size (put x s) = size s"
    and put_tail: "ok s \<Longrightarrow> tail (put x s) = tail s"
    and put_head: "ok s \<Longrightarrow> head (put x s) = Suc (head s) mod size s"
    and put_cell: "ok s \<Longrightarrow> valid s x \<Longrightarrow> i < size s \<Longrightarrow> cell (put x s) i = (if i = head s then x else cell s i)"
    and put_valid: "ok s \<Longrightarrow> valid (put x s) = valid s"
    and skip_ok: "ok s \<Longrightarrow> ok (skip s)"
    and skip_valid: "ok s \<Longrightarrow> valid (skip s) = valid s"
    and skip_size: "ok s \<Longrightarrow> size (skip s) = size s"
    and skip_head: "ok s \<Longrightarrow> head (skip s) = head s"
    and skip_tail: "ok s \<Longrightarrow> tail (skip s) = Suc (tail s) mod size s"
    and skip_cell: "ok s \<Longrightarrow> i < size s \<Longrightarrow> cell (skip s) i = cell s i"
begin

definition len :: "'s \<Rightarrow> nat" where
  "len s = wrap_len (size s) (head s) (tail s)"

definition items :: "'s \<Rightarrow> 'a list" where
  "items s = cells (cell s) (size s) (tail s) (len s)"

definition room :: "'s \<Rightarrow> nat" where
  "room s = size s - 1"

definition push :: "'a \<Rightarrow> 's \<Rightarrow> 's" where
  "push x s = put x (if full s then skip s else s)"

definition pop :: "'s \<Rightarrow> 'a \<times> 's" where
  "pop s = (cell s (tail s), skip s)"

lemma length_items [simp]: "length (items s) = len s"
  by (simp add: items_def)

lemma len_less: "ok s \<Longrightarrow> len s < size s"
  by (simp add: len_def wrap_len_less bounds)

lemma head_eq: "ok s \<Longrightarrow> head s = (tail s + len s) mod size s"
  using wrap_len_head [OF bounds] by (simp add: len_def)

lemma skip_items:
  assumes "ok s" "len s = Suc n"
  shows "items s = cell s (tail s) # items (skip s)" "len (skip s) = n"
proof -
  have "head s = (Suc (tail s) mod size s + n) mod size s" using head_eq [OF assms(1)] assms(2) by (simp add: mod_simps)
  moreover have "n < size s" using len_less [OF assms(1)] assms(2) by simp
  ultimately show l: "len (skip s) = n"
    using assms(1) bounds [OF assms(1)] by (simp add: len_def skip_size skip_head skip_tail wrap_len_of)
  have "cells (cell (skip s)) (size s) (Suc (tail s) mod size s) n = cells (cell s) (size s) (Suc (tail s) mod size s) n"
    using bounds [OF assms(1)] skip_cell [OF assms(1)] by (intro cells_cong) auto
  then show "items s = cell s (tail s) # items (skip s)"
    using assms l bounds(2) [OF assms(1)] unfolding items_def by (simp add: cells_Cons skip_size skip_tail)
qed

lemma put_items:
  assumes "ok s" "valid s x" "Suc (len s) < size s"
  shows "items (put x s) = items s @ [x]" "len (put x s) = Suc (len s)"
proof -
  note b = bounds [OF assms(1)]
  have "Suc (head s) mod size s = (tail s + Suc (len s)) mod size s" by (simp add: head_eq [OF assms(1)] mod_Suc_eq)
  then show l: "len (put x s) = Suc (len s)"
    using assms wrap_len_of [OF assms(3) b(2)] by (simp add: len_def put_size put_head put_tail)
  have "cells (cell (put x s)) (size s) (tail s) (Suc (len s)) =
        cells ((cell s)(head s := x)) (size s) (tail s) (Suc (len s))"
    using b put_cell [OF assms(1,2)] by (intro cells_cong) auto
  also have "\<dots> = items s @ [x]"
    using assms by (simp add: cells_Suc head_eq [OF assms(1)] cells_update items_def)
  finally show "items (put x s) = items s @ [x]" using assms(1) l by (simp add: items_def put_size put_tail)
qed

lemma push_ok: "ok s \<Longrightarrow> ok (push x s)"
  by (simp add: push_def put_ok skip_ok)

lemma push_items:
  assumes "ok s" "valid s x"
  shows "items (push x s) = drop (Suc (length (items s)) - room s) (items s @ [x])"
proof -
  note f = full_iff [OF assms(1), folded len_def] and l = len_less [OF assms(1)]
  consider (space) "Suc (len s) < size s" | (one) "size s = 1" | (full) n where "len s = Suc n" "size s = Suc (Suc n)"
    using l by (cases "len s") force+
  then show ?thesis
  proof cases
    case space
    then show ?thesis using f put_items(1) [OF assms space] by (simp add: push_def room_def)
  next
    case one
    have "size (push x s) = 1"
      using one assms by (simp add: push_def put_size skip_size skip_ok)
    then have "len (push x s) = 0" using len_less [OF push_ok [OF assms(1), of x]] by simp
    then show ?thesis using one l by (simp add: room_def items_def cells_def)
  next
    case full
    note s = skip_items [OF assms(1) full(1)]
    have "Suc (len (skip s)) < size (skip s)" using full s(2) assms by (simp add: skip_size)
    from put_items(1) [OF skip_ok [OF assms(1)] _ this, of x] show ?thesis
      using full f s assms by (simp add: push_def room_def skip_valid)
  qed
qed

sublocale bounded_queue ok valid items room push pop
proof
  show "length (items s) \<le> room s" if "ok s" for s using len_less [OF that] by (simp add: room_def)
  show "ok (push x s)" if "ok s" for x s using that by (rule push_ok)
  show "room (push x s) = room s" if "ok s" for x s
    using that by (simp add: room_def push_def put_size skip_size skip_ok)
  show "valid (push x s) = valid s" if "ok s" for x s
    using that by (simp add: push_def put_valid skip_valid skip_ok)
  show "items (push x s) = drop (Suc (length (items s)) - room s) (items s @ [x])" if "ok s" "valid s x" for x s
    using that by (rule push_items)
  show "ok (snd (pop s))" if "ok s" for s using that by (simp add: pop_def skip_ok)
  show "items s = fst (pop s) # items (snd (pop s))" if "ok s" "items s \<noteq> []" for s
    using that skip_items(1) [OF that(1)] by (cases "len s") (simp_all add: pop_def flip: length_0_conv)
qed

end

end
