(* ===== verification/Usart_Ring.thy ===== *)
theory Usart_Ring
  imports Usart Ring_Queue
begin

text \<open>
  The receive ring buffer of the USART as a bounded queue: the interpretation \<open>uring\<close> discharges
  the contract of a ring for the head and tail indices, the length and full tests and the stores to
  RAM of the driver, and \<open>ring\<close> the contract of a queue that follows from it.
\<close>

subsection \<open>The ring of the driver\<close>

text \<open>A ring buffer is installed and its indices are in range; sizes above 65536 do not fit the indices.\<close>

definition ring_ok :: "usart_handle \<Rightarrow> bool" where
  "ring_ok h \<longleftrightarrow>
     rxRingBuffer h \<noteq> 0 \<and> 0 < rxRingBufferSize h \<and> rxRingBufferSize h \<le> 65536 \<and>
     ucast (rxRingBufferHead h) < rxRingBufferSize h \<and> ucast (rxRingBufferTail h) < rxRingBufferSize h"

abbreviation ring_size :: "usart_handle \<Rightarrow> nat" where "ring_size h \<equiv> unat (rxRingBufferSize h)"
abbreviation ring_head :: "usart_handle \<Rightarrow> nat" where "ring_head h \<equiv> unat (rxRingBufferHead h)"
abbreviation ring_tail :: "usart_handle \<Rightarrow> nat" where "ring_tail h \<equiv> unat (rxRingBufferTail h)"

definition ring_len :: "usart_handle \<Rightarrow> nat" where
  "ring_len h = wrap_len (ring_size h) (ring_head h) (ring_tail h)"

text \<open>What the ring holds, oldest byte first.\<close>

definition ring_bytes :: "usart_handle \<times> mem \<Rightarrow> u8 list" where
  "ring_bytes hm =
     (let (h, m) = hm in cells (\<lambda>i. m (rxRingBuffer h + of_nat i)) (ring_size h) (ring_tail h) (ring_len h))"

definition ring_cap :: "usart_handle \<times> mem \<Rightarrow> nat" where
  "ring_cap hm = ring_size (fst hm) - 1"

definition ring_push :: "u8 \<Rightarrow> usart_handle \<times> mem \<Rightarrow> usart_handle \<times> mem" where
  "ring_push b hm = ring_store b (ring_make_room (fst hm), snd hm)"

lemma ring_ok_bounds:
  assumes "ring_ok h"
  shows "0 < ring_size h" "ring_size h \<le> 65536" "ring_head h < ring_size h" "ring_tail h < ring_size h"
  using assms by (auto simp: ring_ok_def word_less_nat_alt word_le_nat_alt)

lemma ring_ok_iff:
  "ring_ok h \<longleftrightarrow> rxRingBuffer h \<noteq> 0 \<and> 0 < ring_size h \<and> ring_size h \<le> 65536 \<and>
     ring_head h < ring_size h \<and> ring_tail h < ring_size h"
  by (auto simp: ring_ok_def word_less_nat_alt word_le_nat_alt)

lemma ring_length_unat:
  assumes "ring_ok h"
  shows "unat (USART_TransferGetRxRingBufferLength h) = ring_len h"
  using index_distance [of "rxRingBufferHead h" "rxRingBufferSize h" "rxRingBufferTail h"] ring_ok_bounds [OF assms]
  by (simp add: USART_TransferGetRxRingBufferLength_def ring_len_def)

lemma ring_full_iff:
  assumes "ring_ok h"
  shows "USART_TransferIsRxRingBufferFull h \<longleftrightarrow> ring_len h = ring_size h - 1"
proof -
  have "unat (rxRingBufferSize h - 1) = ring_size h - 1"
    using ring_ok_bounds(1) [OF assms] by (simp add: unat_minus_small)
  then show ?thesis
    by (simp add: USART_TransferIsRxRingBufferFull_def word_unat_eq_iff ring_length_unat [OF assms])
qed

lemma ring_inc_simps [simp]:
  "rxRingBuffer (ring_inc_tail h) = rxRingBuffer h" "rxRingBufferSize (ring_inc_tail h) = rxRingBufferSize h"
  "rxRingBufferHead (ring_inc_tail h) = rxRingBufferHead h"
  "rxRingBuffer (ring_inc_head h) = rxRingBuffer h" "rxRingBufferSize (ring_inc_head h) = rxRingBufferSize h"
  "rxRingBufferTail (ring_inc_head h) = rxRingBufferTail h"
  by (simp_all add: ring_inc_tail_def ring_inc_head_def)

lemma ring_inc_tail_unat:
  assumes "ring_ok h"
  shows "ring_tail (ring_inc_tail h) = Suc (ring_tail h) mod ring_size h"
  using inc_index [OF ring_ok_bounds(4) [OF assms] ring_ok_bounds(2) [OF assms]]
  by (simp add: ring_inc_tail_def split: if_splits)

lemma ring_inc_head_unat:
  assumes "ring_ok h"
  shows "ring_head (ring_inc_head h) = Suc (ring_head h) mod ring_size h"
  using inc_index [OF ring_ok_bounds(3) [OF assms] ring_ok_bounds(2) [OF assms]]
  by (simp add: ring_inc_head_def split: if_splits)

lemma ring_inc_ok:
  assumes "ring_ok h"
  shows "ring_ok (ring_inc_tail h)" "ring_ok (ring_inc_head h)"
  using assms by (simp_all add: ring_ok_iff ring_inc_tail_unat ring_inc_head_unat)

lemma ring_len_less: "ring_ok h \<Longrightarrow> ring_len h < ring_size h"
  by (simp add: ring_len_def wrap_len_less ring_ok_bounds)

lemma length_ring_bytes [simp]: "length (ring_bytes (h, m)) = ring_len h"
  by (simp add: ring_bytes_def)

lemma ring_make_room_ok: "ring_ok h \<Longrightarrow> ring_ok (ring_make_room h)"
  by (simp add: ring_make_room_def ring_inc_ok)

lemma ring_make_room_simps [simp]:
  "rxRingBuffer (ring_make_room h) = rxRingBuffer h" "rxRingBufferSize (ring_make_room h) = rxRingBufferSize h"
  "rxRingBufferHead (ring_make_room h) = rxRingBufferHead h"
  by (simp_all add: ring_make_room_def)

lemma ring_push_fields [simp]:
  "rxRingBuffer (fst (ring_push b hm)) = rxRingBuffer (fst hm)"
  "rxRingBufferSize (fst (ring_push b hm)) = rxRingBufferSize (fst hm)"
  by (simp_all add: ring_push_def ring_store_def)

lemma ring_push_ok: "ring_ok (fst hm) \<Longrightarrow> ring_ok (fst (ring_push b hm))"
  by (simp add: ring_push_def ring_store_def ring_inc_ok ring_make_room_ok)

text \<open>The indices and the array of the driver, with its own length, full and wrap-around code.\<close>

interpretation uring: index_ring "\<lambda>hm. ring_ok (fst hm)" "\<lambda>_ _. True" "\<lambda>hm. ring_size (fst hm)" "\<lambda>hm. ring_head (fst hm)"
  "\<lambda>hm. ring_tail (fst hm)" "\<lambda>hm i. snd hm (rxRingBuffer (fst hm) + of_nat i)"
  "\<lambda>hm. USART_TransferIsRxRingBufferFull (fst hm)" ring_store "\<lambda>hm. (ring_inc_tail (fst hm), snd hm)"
proof (standard, goal_cases)
  case (3 s)
  with ring_len_less [OF 3] show ?case by (auto simp: ring_full_iff ring_len_def)
next
  case (8 s x i)
  note b = ring_ok_bounds [OF 8(1)]
  have "(rxRingBuffer (fst s) + of_nat i = rxRingBuffer (fst s) + ucast (rxRingBufferHead (fst s))) = (i = ring_head (fst s))"
    using 8(3) b of_nat_u32_eq_iff [of i "ring_head (fst s)"] by auto
  then show ?case by (simp add: ring_store_def case_prod_beta)
qed (simp_all add: ring_ok_bounds ring_store_def case_prod_beta ring_inc_ok ring_inc_head_unat ring_inc_tail_unat)

lemma uring_simps: "uring.items = ring_bytes" "uring.room = ring_cap" "uring.push = ring_push" "uring.pop = ring_pop"
  by (auto simp: fun_eq_iff uring.items_def uring.len_def uring.room_def uring.push_def uring.pop_def ring_bytes_def
        ring_len_def ring_cap_def ring_push_def ring_make_room_def ring_pop_def)

interpretation ring: bounded_queue "\<lambda>hm. ring_ok (fst hm)" "\<lambda>_ _. True" ring_bytes ring_cap ring_push ring_pop
  using uring.bounded_queue_axioms unfolding uring_simps .

lemma ring_pop_bytes:
  "ring_ok (fst hm) \<Longrightarrow> ring_bytes hm \<noteq> [] \<Longrightarrow> ring_bytes hm = fst (ring_pop hm) # ring_bytes (snd (ring_pop hm))"
  by (rule ring.pop_elems)

subsection \<open>Copying out of the ring\<close>

lemma ring_bytes_outside:
  assumes "0 < ring_size h" "\<And>j. j < ring_size h \<Longrightarrow> x \<noteq> rxRingBuffer h + of_nat j"
  shows "ring_bytes (h, m(x := b)) = ring_bytes (h, m)"
proof -
  have "(m(x := b)) (rxRingBuffer h + of_nat i) = m (rxRingBuffer h + of_nat i)" if "i < ring_size h" for i
    using assms(2) [OF that] by (metis fun_upd_other)
  then show ?thesis using assms(1) unfolding ring_bytes_def prod.case Let_def by (intro cells_cong)
qed

lemma ring_bytes_write:
  assumes "0 < ring_size h" "apart a (length bs) (rxRingBuffer h) (ring_size h)"
  shows "ring_bytes (h, mem_write m a bs) = ring_bytes (h, m)"
  using assms(2)
proof (induction bs arbitrary: a m)
  case (Cons b bs)
  then have "apart a (Suc (length bs)) (rxRingBuffer h) (ring_size h)" by simp
  then have "ring_bytes (h, m(a := b)) = ring_bytes (h, m)"
    using assms(1) by (intro ring_bytes_outside) (auto dest: apart_first)
  moreover have "apart (a + 1) (length bs) (rxRingBuffer h) (ring_size h)"
    using Cons.prems by (simp add: apart_next)
  ultimately show ?case unfolding mem_write.simps Cons.IH [OF \<open>apart (a + 1) _ _ _\<close>] by blast
qed simp

lemma usart_ring_copy:
  assumes "ring_ok h" "n \<le> ring_len h" "apart dst n (rxRingBuffer h) (ring_size h)"
  shows "\<exists>t. usart_ring_copy dst n (h, m) =
               (h\<lparr>rxRingBufferTail := t\<rparr>, mem_write m dst (take n (ring_bytes (h, m)))) \<and>
             ring_ok (h\<lparr>rxRingBufferTail := t\<rparr>) \<and>
             ring_bytes (h\<lparr>rxRingBufferTail := t\<rparr>, m) = drop n (ring_bytes (h, m))"
  using assms
proof (induction n arbitrary: dst h m)
  case 0
  then show ?case by (intro exI [of _ "rxRingBufferTail h"]) simp
next
  case (Suc n)
  let ?h = "ring_inc_tail h" and ?b = "m (rxRingBuffer h + ucast (rxRingBufferTail h))"
  have "ring_bytes (h, m) \<noteq> []" using Suc.prems(2) by (auto simp flip: length_0_conv)
  with Suc.prems(1) have e: "ring_bytes (h, m) = ?b # ring_bytes (?h, m)"
    using ring_pop_bytes [of "(h, m)"] by (simp add: ring_pop_def)
  have len: "n \<le> ring_len ?h" using Suc.prems(2) arg_cong [OF e, of length] by simp
  have m: "ring_bytes (?h, m(dst := ?b)) = ring_bytes (?h, m)"
    using ring_ok_bounds(1) [OF Suc.prems(1)] apart_first [OF Suc.prems(3)]
    by (intro ring_bytes_outside) simp_all
  have ap: "apart (dst + 1) n (rxRingBuffer ?h) (ring_size ?h)" using apart_next [OF Suc.prems(3)] by simp
  from Suc.IH [OF ring_inc_ok(1) [OF Suc.prems(1)] len ap, of "m(dst := ?b)"] obtain t where
    t: "usart_ring_copy (dst + 1) n (?h, m(dst := ?b)) =
          (?h\<lparr>rxRingBufferTail := t\<rparr>, mem_write (m(dst := ?b)) (dst + 1) (take n (ring_bytes (?h, m))))"
       "ring_ok (?h\<lparr>rxRingBufferTail := t\<rparr>)"
       "ring_bytes (?h\<lparr>rxRingBufferTail := t\<rparr>, m(dst := ?b)) = drop n (ring_bytes (?h, m))"
    unfolding m by blast
  have h: "?h\<lparr>rxRingBufferTail := t\<rparr> = h\<lparr>rxRingBufferTail := t\<rparr>" by (simp add: ring_inc_tail_def)
  have m': "ring_bytes (h\<lparr>rxRingBufferTail := t\<rparr>, m(dst := ?b)) = ring_bytes (h\<lparr>rxRingBufferTail := t\<rparr>, m)"
    using ring_ok_bounds(1) [OF Suc.prems(1)] apart_first [OF Suc.prems(3)]
    by (intro ring_bytes_outside) simp_all
  from t(2,3) have "ring_ok (h\<lparr>rxRingBufferTail := t\<rparr>)"
    "ring_bytes (h\<lparr>rxRingBufferTail := t\<rparr>, m) = drop (Suc n) (ring_bytes (h, m))"
    unfolding h m' by (simp_all add: e)
  moreover have "usart_ring_copy dst (Suc n) (h, m) =
      (h\<lparr>rxRingBufferTail := t\<rparr>, mem_write m dst (take (Suc n) (ring_bytes (h, m))))"
    using t(1) unfolding e h by (simp add: ring_pop_def)
  ultimately show ?case by blast
qed

end
