(* ===== verification/Usart_Transfer.thy ===== *)
theory Usart_Transfer
  imports Usart_Ring
begin

text \<open>
  What the interrupt-driven transfers of the USART deliver: a receive request served from the ring
  buffer, and the interrupt handler moving bytes between the FIFOs of the device, the buffers of
  the transfers and the ring. The device is described by its receive FIFO, the room of its
  transmit FIFO and the bytes written to it.
\<close>

subsection \<open>State updates\<close>

lemma on_udev_simps [simp]:
  "u_dev (on_udev f s) = f (u_dev s)" "u_handle (on_udev f s) = u_handle s" "u_ram (on_udev f s) = u_ram s"
  "u_primask (on_udev f s) = u_primask s" "u_irqs (on_udev f s) = u_irqs s"
  by (simp_all add: on_udev_def)

lemma on_handle_simps [simp]:
  "u_dev (on_handle g s) = u_dev s" "u_handle (on_handle g s) = g (u_handle s)" "u_ram (on_handle g s) = u_ram s"
  "u_primask (on_handle g s) = u_primask s" "u_irqs (on_handle g s) = u_irqs s"
  by (simp_all add: on_handle_def)

text \<open>Two states of an instance that differ in the device only.\<close>

definition same_but_dev :: "'d usart \<Rightarrow> 'd usart \<Rightarrow> bool" where
  "same_but_dev s s' \<longleftrightarrow>
     u_handle s' = u_handle s \<and> u_ram s' = u_ram s \<and> u_primask s' = u_primask s \<and> u_irqs s' = u_irqs s"

lemma same_but_dev_refl [simp]: "same_but_dev s s"
  by (simp add: same_but_dev_def)

lemma same_but_dev_trans: "same_but_dev s t \<Longrightarrow> same_but_dev t u \<Longrightarrow> same_but_dev s u"
  by (simp add: same_but_dev_def)

lemma same_but_dev_on_udev [simp]: "same_but_dev s (on_udev f s)"
  by (simp add: same_but_dev_def)

lemma same_but_dev_uread [simp]: "same_but_dev s (snd (uread soc r s))"
  by (simp add: same_but_dev_def uread_def case_prod_beta Let_def)

text \<open>Callbacks that only observe: they may use the device, and leave the handle and RAM alone.\<close>

definition usart_observer :: "'d usart_soc \<Rightarrow> bool" where
  "usart_observer soc \<longleftrightarrow> (\<forall>f st ud s. \<exists>s'. usart_invoke soc f st ud s = Some s' \<and> same_but_dev s s')"

lemma callback_observer:
  assumes "usart_observer soc"
  obtains s' where "usart_callback soc st s = Some s'" "same_but_dev s s'"
  using assms that by (cases "callback (u_handle s)") (auto simp: usart_callback_def usart_observer_def, metis)

subsection \<open>A device with FIFOs\<close>

text \<open>
  What the driver relies on: RXNOTEMPTY and TXNOTFULL tell the state of the FIFOs, reading FIFORD
  takes the oldest received byte, writing FIFOWR queues a byte, and no other access (nor a callback)
  touches the FIFOs; FIFOCFG is left out, since writing it can empty them. During the handler no
  further byte arrives and none leaves.
\<close>

record fifo_view =
  fv_rx :: "u8 list"
  fv_room :: nat
  fv_sent :: "u8 list"

definition fifo_device :: "'d usart_soc \<Rightarrow> ('d \<Rightarrow> fifo_view) \<Rightarrow> bool" where
  "fifo_device soc fifo \<longleftrightarrow>
     (\<forall>r d. r \<noteq> U_FIFORD \<longrightarrow> fifo (snd (reg_read soc r d)) = fifo d) \<and>
     (\<forall>r v d. r \<noteq> U_FIFOWR \<and> r \<noteq> U_FIFOCFG \<longrightarrow> fifo (reg_write soc r v d) = fifo d) \<and>
     (\<forall>d. (fst (reg_read soc U_FIFOSTAT d) AND umask soc FIFOSTAT_RXNOTEMPTY \<noteq> 0) = (fv_rx (fifo d) \<noteq> [])) \<and>
     (\<forall>d. (fst (reg_read soc U_FIFOSTAT d) AND umask soc FIFOSTAT_TXNOTFULL \<noteq> 0) = (0 < fv_room (fifo d))) \<and>
     (\<forall>d b bs. fv_rx (fifo d) = b # bs \<longrightarrow>
        ucast (fst (reg_read soc U_FIFORD d)) = b \<and> fifo (snd (reg_read soc U_FIFORD d)) = (fifo d)\<lparr>fv_rx := bs\<rparr>) \<and>
     (\<forall>d v. 0 < fv_room (fifo d) \<longrightarrow>
        fifo (reg_write soc U_FIFOWR v d) =
          (fifo d)\<lparr>fv_room := fv_room (fifo d) - 1, fv_sent := fv_sent (fifo d) @ [ucast v]\<rparr>) \<and>
     (\<forall>f st ud s s'. usart_invoke soc f st ud s = Some s' \<longrightarrow> fifo (u_dev s') = fifo (u_dev s))"

lemma fifo_read [simp]: "fifo_device soc fifo \<Longrightarrow> r \<noteq> U_FIFORD \<Longrightarrow> fifo (snd (reg_read soc r d)) = fifo d"
  unfolding fifo_device_def by blast

lemma fifo_write [simp]:
  "fifo_device soc fifo \<Longrightarrow> r \<noteq> U_FIFOWR \<Longrightarrow> r \<noteq> U_FIFOCFG \<Longrightarrow> fifo (reg_write soc r v d) = fifo d"
  unfolding fifo_device_def by blast

lemma fifo_flags:
  assumes "fifo_device soc fifo"
  shows "(fst (reg_read soc U_FIFOSTAT d) AND umask soc FIFOSTAT_RXNOTEMPTY = 0) = (fv_rx (fifo d) = [])"
    "(fst (reg_read soc U_FIFOSTAT d) AND umask soc FIFOSTAT_TXNOTFULL = 0) = (fv_room (fifo d) = 0)"
  using assms unfolding fifo_device_def by (blast, metis gr0I less_numeral_extra(3))

lemma fifo_set [simp]:
  "fifo_device soc fifo \<Longrightarrow> r \<notin> {U_FIFORD, U_FIFOWR, U_FIFOCFG} \<Longrightarrow> fifo (reg_set soc r m d) = fifo d"
  "fifo_device soc fifo \<Longrightarrow> r \<notin> {U_FIFORD, U_FIFOWR, U_FIFOCFG} \<Longrightarrow> fifo (reg_clear soc r m d) = fifo d"
  by (simp_all add: reg_set_def reg_clear_def case_prod_beta Let_def)

lemma fifo_pop:
  "fifo_device soc fifo \<Longrightarrow> fv_rx (fifo d) = b # bs \<Longrightarrow>
   ucast (fst (reg_read soc U_FIFORD d)) = b \<and> fifo (snd (reg_read soc U_FIFORD d)) = (fifo d)\<lparr>fv_rx := bs\<rparr>"
  unfolding fifo_device_def by blast

lemma fifo_send:
  "fifo_device soc fifo \<Longrightarrow> 0 < fv_room (fifo d) \<Longrightarrow> fifo (reg_write soc U_FIFOWR v d) =
     (fifo d)\<lparr>fv_room := fv_room (fifo d) - 1, fv_sent := fv_sent (fifo d) @ [ucast v]\<rparr>"
  unfolding fifo_device_def by blast

lemma fifo_invoke: "fifo_device soc fifo \<Longrightarrow> usart_invoke soc f st ud s = Some s' \<Longrightarrow> fifo (u_dev s') = fifo (u_dev s)"
  unfolding fifo_device_def by blast

lemma fifo_callback:
  "fifo_device soc fifo \<Longrightarrow> usart_callback soc st s = Some s' \<Longrightarrow> fifo (u_dev s') = fifo (u_dev s)"
  by (auto simp: usart_callback_def split: option.splits dest: fifo_invoke)

lemma fifo_interrupts [simp]:
  "fifo_device soc fifo \<Longrightarrow> fifo (USART_EnableInterrupts soc m d) = fifo d"
  "fifo_device soc fifo \<Longrightarrow> fifo (USART_DisableInterrupts soc m d) = fifo d"
  "fifo_device soc fifo \<Longrightarrow> fifo (snd (USART_GetEnabledInterrupts soc d)) = fifo d"
  by (simp_all add: USART_EnableInterrupts_def USART_DisableInterrupts_def USART_GetEnabledInterrupts_def
        case_prod_beta Let_def)

subsection \<open>Serving a receive request from the ring\<close>

lemma irq_mask_simps [simp]:
  "fst (irq_disable s) = u_primask s"
  "u_handle (snd (irq_disable s)) = u_handle s" "u_ram (snd (irq_disable s)) = u_ram s"
  "u_dev (snd (irq_disable s)) = u_dev s" "u_irqs (snd (irq_disable s)) = u_irqs s"
  "u_primask (irq_enable p s) = p" "u_handle (irq_enable p s) = u_handle s" "u_ram (irq_enable p s) = u_ram s"
  "u_dev (irq_enable p s) = u_dev s" "u_irqs (irq_enable p s) = u_irqs s"
  by (simp_all add: irq_disable_def irq_enable_def DisableGlobalIRQ_def EnableGlobalIRQ_def)

lemma usart_mask_interrupts_simps [simp]:
  "u_handle (snd (usart_mask_interrupts soc p s)) = u_handle s" "u_ram (snd (usart_mask_interrupts soc p s)) = u_ram s"
  "u_primask (snd (usart_mask_interrupts soc p s)) = p" "u_irqs (snd (usart_mask_interrupts soc p s)) = u_irqs s"
  by (simp_all add: usart_mask_interrupts_def case_prod_beta Let_def)

lemma uread_simps [simp]:
  "u_handle (snd (uread soc r s)) = u_handle s" "u_ram (snd (uread soc r s)) = u_ram s"
  "u_primask (snd (uread soc r s)) = u_primask s" "u_irqs (snd (uread soc r s)) = u_irqs s"
  "u_dev (snd (uread soc r s)) = snd (reg_read soc r (u_dev s))" "fst (uread soc r s) = fst (reg_read soc r (u_dev s))"
  by (simp_all add: uread_def case_prod_beta Let_def)

text \<open>The request after \<open>k\<close> of its bytes came from the ring.\<close>

definition request_left :: "usart_transfer \<Rightarrow> nat \<Rightarrow> usart_handle \<Rightarrow> usart_handle" where
  "request_left x k h =
     (if k < unat (xfer_dataSize x)
      then h\<lparr>rxState := kUSART_RxBusy, rxData := xfer_data x + of_nat k,
             rxDataSize := xfer_dataSize x - of_nat k, rxDataSizeAll := xfer_dataSize x\<rparr>
      else h\<lparr>rxState := kUSART_RxIdle\<rparr>)"

lemma receive_ring_step:
  assumes "ring_ok (u_handle s)" "rxState (u_handle s) = kUSART_RxBusy"
    "apart (xfer_data x) (unat (xfer_dataSize x)) (rxRingBuffer (u_handle s)) (ring_size (u_handle s))"
    "k = min (unat (xfer_dataSize x)) (ring_len (u_handle s))"
  shows "\<exists>t. usart_receive_ring x s =
           (of_nat k, xfer_dataSize x - of_nat k,
            s\<lparr>u_handle := request_left x k ((u_handle s)\<lparr>rxRingBufferTail := t\<rparr>),
              u_ram := mem_write (u_ram s) (xfer_data x) (take k (ring_bytes (u_handle s, u_ram s)))\<rparr>) \<and>
         ring_ok ((u_handle s)\<lparr>rxRingBufferTail := t\<rparr>) \<and>
         ring_bytes ((u_handle s)\<lparr>rxRingBufferTail := t\<rparr>, u_ram s) = drop k (ring_bytes (u_handle s, u_ram s))"
proof -
  let ?h = "u_handle s" and ?l = "USART_TransferGetRxRingBufferLength (u_handle s)" and ?n = "xfer_dataSize x"
  note l = ring_length_unat [OF assms(1)]
  have k: "unat (min ?n ?l) = k" using assms(4) l by (simp add: min_def word_le_nat_alt)
  then have kw: "min ?n ?l = of_nat k" by (metis ucast_id of_nat_unat)
  have "k \<le> ring_len ?h" "apart (xfer_data x) k (rxRingBuffer ?h) (ring_size ?h)"
    using assms(4) apart_mono [OF assms(3)] by simp_all
  from usart_ring_copy [OF assms(1) this] obtain t where
    t: "usart_ring_copy (xfer_data x) k (?h, u_ram s) =
          (?h\<lparr>rxRingBufferTail := t\<rparr>, mem_write (u_ram s) (xfer_data x) (take k (ring_bytes (?h, u_ram s))))"
       "ring_ok (?h\<lparr>rxRingBufferTail := t\<rparr>)"
       "ring_bytes (?h\<lparr>rxRingBufferTail := t\<rparr>, u_ram s) = drop k (ring_bytes (?h, u_ram s))" by blast
  have left: "(?n - of_nat k \<noteq> 0) = (k < unat ?n)"
  proof -
    have "(?n - of_nat k = 0) = (?n = min ?n ?l)" by (simp only: kw right_minus_eq)
    also have "\<dots> = (unat ?n = k)" unfolding k [symmetric] by (rule word_unat_eq_iff)
    finally show ?thesis using assms(4) by auto
  qed
  have ku: "unat (of_nat k :: u32) = k" using k kw by simp
  have busy: "rxState h = kUSART_RxBusy \<Longrightarrow> h\<lparr>rxState := kUSART_RxBusy\<rparr> = h" for h :: usart_handle
    by (cases h) simp
  show ?thesis
  proof (cases "?l = 0")
    case True
    then have "k = 0" using k by simp
    with t have "?h\<lparr>rxRingBufferTail := t\<rparr> = ?h" by simp
    with t True \<open>k = 0\<close> left assms(2) show ?thesis
      by (intro exI [of _ t]) (auto simp: usart_receive_ring_def Let_def request_left_def on_handle_def busy)
  next
    case False
    with t left assms(2) show ?thesis
      by (intro exI [of _ t]) (auto simp: usart_receive_ring_def Let_def kw ku request_left_def on_handle_def busy)
  qed
qed

lemma receive_ring_core:
  fixes s :: "'d usart" and x :: usart_transfer
  defines "h \<equiv> u_handle s" and "q \<equiv> ring_bytes (u_handle s, u_ram s)" and "n \<equiv> unat (xfer_dataSize x)"
    and "k \<equiv> min (unat (xfer_dataSize x)) (ring_len (u_handle s))"
  assumes "usart_observer soc" "ring_ok h" "rxState h = kUSART_RxIdle" "xfer_dataSize x \<noteq> 0" "xfer_data x \<noteq> 0"
    "apart (xfer_data x) n (rxRingBuffer h) (ring_size h)"
  shows "\<exists>s' t. USART_TransferReceiveNonBlocking soc (Some x) s = Some (kStatus_Success, Some (of_nat k), s') \<and>
           u_handle s' = request_left x k (h\<lparr>rxRingBufferTail := t\<rparr>) \<and>
           u_ram s' = mem_write (u_ram s) (xfer_data x) (take k q) \<and> u_primask s' = u_primask s \<and>
           ring_ok (h\<lparr>rxRingBufferTail := t\<rparr>) \<and> ring_bytes (h\<lparr>rxRingBufferTail := t\<rparr>, u_ram s) = drop k q \<and>
           (\<forall>fifo. fifo_device soc fifo \<longrightarrow> fifo (u_dev s') = fifo (u_dev s))"
proof -
  define s1 where "s1 = snd (uread soc U_CFG s)"
  define s2 where "s2 = (if fst (reg_read soc U_CFG (u_dev s)) AND umask soc CFG_AUTOADDR \<noteq> 0
                         then on_udev (reg_set soc U_CTL (umask soc CTL_ADDRDET)) s1 else s1)"
  define s3 where "s3 = usart_mask_interrupts soc (u_primask s)
                          (on_handle (\<lambda>h. h\<lparr>rxState := kUSART_RxBusy\<rparr>) (snd (irq_disable s2)))"
  have s2: "same_but_dev s s2" "\<And>fifo. fifo_device soc fifo \<Longrightarrow> fifo (u_dev s2) = fifo (u_dev s)"
    by (simp_all add: s2_def s1_def same_but_dev_def)
  then have s3: "u_handle (snd s3) = h\<lparr>rxState := kUSART_RxBusy\<rparr>" "u_ram (snd s3) = u_ram s"
    "u_primask (snd s3) = u_primask s" "\<And>fifo. fifo_device soc fifo \<Longrightarrow> fifo (u_dev (snd s3)) = fifo (u_dev s)"
    by (simp_all add: s3_def h_def same_but_dev_def, simp add: usart_mask_interrupts_def case_prod_beta Let_def)
  have ok: "ring_ok (h\<lparr>rxState := b\<rparr>) = ring_ok h" "ring_bytes (h\<lparr>rxState := b\<rparr>, m) = ring_bytes (h, m)"
    "ring_len (h\<lparr>rxState := b\<rparr>) = ring_len h" for h b m
    by (simp_all add: ring_ok_def ring_bytes_def ring_len_def)
  have "\<exists>t. usart_receive_ring x (snd s3) =
           (of_nat k, xfer_dataSize x - of_nat k,
            (snd s3)\<lparr>u_handle := request_left x k (h\<lparr>rxState := kUSART_RxBusy, rxRingBufferTail := t\<rparr>),
              u_ram := mem_write (u_ram s) (xfer_data x) (take k q)\<rparr>) \<and>
         ring_ok (h\<lparr>rxRingBufferTail := t\<rparr>) \<and> ring_bytes (h\<lparr>rxRingBufferTail := t\<rparr>, u_ram s) = drop k q"
    using receive_ring_step [of "snd s3" x k] assms s3 by (simp add: ok) (simp add: ring_ok_def ring_bytes_def ring_len_def)
  then obtain t where
    ring: "usart_receive_ring x (snd s3) =
           (of_nat k, xfer_dataSize x - of_nat k,
            (snd s3)\<lparr>u_handle := request_left x k (h\<lparr>rxState := kUSART_RxBusy, rxRingBufferTail := t\<rparr>),
              u_ram := mem_write (u_ram s) (xfer_data x) (take k q)\<rparr>)"
    and t: "ring_ok (h\<lparr>rxRingBufferTail := t\<rparr>)" "ring_bytes (h\<lparr>rxRingBufferTail := t\<rparr>, u_ram s) = drop k q"
    by blast
  define s4 where "s4 = on_udev (USART_EnableInterrupts soc (fst s3))
                          ((snd s3)\<lparr>u_handle := request_left x k (h\<lparr>rxRingBufferTail := t\<rparr>),
                             u_ram := mem_write (u_ram s) (xfer_data x) (take k q)\<rparr>)"
  have s4: "u_handle s4 = request_left x k (h\<lparr>rxRingBufferTail := t\<rparr>)" "u_primask s4 = u_primask s"
    "u_ram s4 = mem_write (u_ram s) (xfer_data x) (take k q)"
    "\<And>fifo. fifo_device soc fifo \<Longrightarrow> fifo (u_dev s4) = fifo (u_dev s)"
    using s3 by (simp_all add: s4_def)
  obtain s5 where s5: "(if xfer_dataSize x - of_nat k = 0 then usart_callback soc kStatus_USART_RxIdle s4
                        else Some s4) = Some s5"
    "same_but_dev s4 s5" "\<And>fifo. fifo_device soc fifo \<Longrightarrow> fifo (u_dev s5) = fifo (u_dev s4)"
    using callback_observer [OF assms(5), of kStatus_USART_RxIdle s4] fifo_callback
    by (metis same_but_dev_refl)
  have ne: "rxRingBuffer h \<noteq> 0" using assms(6) by (simp add: ring_ok_def)
  have left: "request_left x k (h'\<lparr>rxState := b, rxRingBufferTail := t\<rparr>) = request_left x k (h'\<lparr>rxRingBufferTail := t\<rparr>)"
    "rxRingBuffer (request_left x k h') = rxRingBuffer h'" for b h'
    by (simp_all add: request_left_def)
  have "USART_TransferReceiveNonBlocking soc (Some x) s = Some (kStatus_Success, Some (of_nat k), s5)"
    using assms(7-9) s2(1) s3(1) ring s5(1) [unfolded s4_def] ne
    unfolding USART_TransferReceiveNonBlocking_def usart_receive_start_def
    by (cases "xfer_dataSize x = of_nat k") (simp_all add: case_prod_beta Let_def s1_def [symmetric] s2_def [symmetric] s3_def [symmetric]
          same_but_dev_def h_def left split del: if_split)
  moreover have "\<forall>fifo. fifo_device soc fifo \<longrightarrow> fifo (u_dev s5) = fifo (u_dev s)"
    using s4(4) s5(3) by metis
  ultimately show ?thesis using s4(1-3) s5(2) t by (intro exI [of _ s5] exI [of _ t]) (simp add: same_but_dev_def)
qed

subsection \<open>The interrupt loop on an abstract state\<close>

text \<open>
  What the loop works on: the handle, RAM and the FIFOs. A received byte goes to the buffer of the
  receive request, or to the ring when there is no request; a byte to send is taken from the buffer
  of the send request.
\<close>

definition rx_on :: "usart_handle \<Rightarrow> bool" where
  "rx_on h \<longleftrightarrow> rxDataSize h \<noteq> 0 \<or> rxRingBuffer h \<noteq> 0"

definition tx_on :: "usart_handle \<Rightarrow> bool" where
  "tx_on h \<longleftrightarrow> txDataSize h \<noteq> 0"

definition rx_store :: "u8 \<Rightarrow> usart_handle \<times> mem \<Rightarrow> usart_handle \<times> mem" where
  "rx_store b hm =
     (let (h, m) = hm
      in if rxDataSize h \<noteq> 0 then
           (h\<lparr>rxDataSize := rxDataSize h - 1, rxData := rxData h + 1,
              rxState := (if rxDataSize h = 1 then kUSART_RxIdle else rxState h)\<rparr>, m(rxData h := b))
         else if rxRingBuffer h \<noteq> 0 then ring_push b hm else hm)"

definition tx_step :: "usart_handle \<Rightarrow> usart_handle" where
  "tx_step h = h\<lparr>txDataSize := txDataSize h - 1, txData := txData h + 1\<rparr>"

type_synonym usart_view = "(usart_handle \<times> mem) \<times> fifo_view"

definition uview :: "('d \<Rightarrow> fifo_view) \<Rightarrow> 'd usart \<Rightarrow> usart_view" where
  "uview fifo s = ((u_handle s, u_ram s), fifo (u_dev s))"

definition rx_can :: "usart_view \<Rightarrow> bool" where
  "rx_can v \<longleftrightarrow> rx_on (fst (fst v)) \<and> fv_rx (snd v) \<noteq> []"

definition tx_can :: "usart_view \<Rightarrow> bool" where
  "tx_can v \<longleftrightarrow> tx_on (fst (fst v)) \<and> 0 < fv_room (snd v)"

definition rx_view :: "usart_view \<Rightarrow> usart_view" where
  "rx_view v = (rx_store (hd (fv_rx (snd v))) (fst v), (snd v)\<lparr>fv_rx := tl (fv_rx (snd v))\<rparr>)"

definition tx_view :: "usart_view \<Rightarrow> usart_view" where
  "tx_view v =
     (let ((h, m), f) = v
      in ((tx_step h, m), f\<lparr>fv_room := fv_room f - 1, fv_sent := fv_sent f @ [m (txData h)]\<rparr>))"

definition irq_step :: "usart_view \<Rightarrow> usart_view" where
  "irq_step v = (let v = (if rx_can v then rx_view v else v) in if tx_can v then tx_view v else v)"

function irq_view :: "usart_view \<Rightarrow> usart_view" where
  "irq_view v = (if rx_can v \<or> tx_can v then irq_view (irq_step v) else v)"
  by pat_completeness auto

lemma rx_store_tx [simp]:
  "txData (fst (rx_store b hm)) = txData (fst hm)" "txDataSize (fst (rx_store b hm)) = txDataSize (fst hm)"
  "rxRingBuffer (fst (rx_store b hm)) = rxRingBuffer (fst hm)"
  "rxRingBufferSize (fst (rx_store b hm)) = rxRingBufferSize (fst hm)"
  by (cases hm; simp add: rx_store_def ring_push_def ring_store_def ring_inc_head_def ring_make_room_def ring_inc_tail_def)+

lemma view_measure:
  "rx_can v \<Longrightarrow> length (fv_rx (snd (rx_view v))) < length (fv_rx (snd v)) \<and> fv_room (snd (rx_view v)) = fv_room (snd v)"
  "tx_can v \<Longrightarrow> fv_room (snd (tx_view v)) < fv_room (snd v) \<and> fv_rx (snd (tx_view v)) = fv_rx (snd v)"
  by (auto simp: rx_can_def rx_view_def tx_can_def tx_view_def case_prod_beta Let_def)

termination irq_view
proof (relation "measure (\<lambda>v. length (fv_rx (snd v)) + fv_room (snd v))", goal_cases)
  case (2 v)
  have "tx_can (rx_view v) = tx_can v" if "rx_can v"
    using that view_measure(1) [OF that] by (simp add: tx_can_def tx_on_def rx_view_def)
  with 2 view_measure(1) [of v] view_measure(2) [of v] view_measure(2) [of "rx_view v"]
  show ?case by (auto simp: irq_step_def Let_def)
qed simp

declare irq_view.simps [simp del]

lemma usart_poll_fifo:
  assumes "fifo_device soc fifo"
  shows "uview fifo (snd (usart_poll soc en m s)) = uview fifo s" "u_primask (snd (usart_poll soc en m s)) = u_primask s"
    "fst (usart_poll soc en FIFOSTAT_RXNOTEMPTY s) = (en \<and> fv_rx (fifo (u_dev s)) \<noteq> [])"
    "fst (usart_poll soc en FIFOSTAT_TXNOTFULL s) = (en \<and> 0 < fv_room (fifo (u_dev s)))"
  using assms by (auto simp: usart_poll_def uview_def case_prod_beta Let_def fifo_flags)

lemma receive_ring_view:
  assumes "usart_observer soc" "fifo_device soc fifo" "fv_rx (fifo (u_dev s)) = b # bs" "rxRingBuffer (u_handle s) \<noteq> 0"
  shows "\<exists>s'. usart_ring_receive soc s = Some s' \<and> (u_handle s', u_ram s') = ring_push b (u_handle s, u_ram s) \<and>
              fifo (u_dev s') = (fifo (u_dev s))\<lparr>fv_rx := bs\<rparr> \<and> u_primask s' = u_primask s"
proof -
  obtain s1 where s1: "(if USART_TransferIsRxRingBufferFull (u_handle s)
                        then usart_callback soc kStatus_USART_RxRingBufferOverrun s else Some s) = Some s1"
    "same_but_dev s s1" "fifo (u_dev s1) = fifo (u_dev s)"
    using callback_observer [OF assms(1), of kStatus_USART_RxRingBufferOverrun s] fifo_callback [OF assms(2)]
    by (metis same_but_dev_refl)
  have "fv_rx (fifo (u_dev s1)) = b # bs" using s1(3) assms(3) by simp
  from fifo_pop [OF assms(2) this] s1 assms(4) show ?thesis
    by (auto simp: usart_ring_receive_def case_prod_beta Let_def ring_push_def same_but_dev_def split del: if_split)
qed

lemma receive_request_view:
  assumes "usart_observer soc" "fifo_device soc fifo" "fv_rx (fifo (u_dev s)) = b # bs" "rxDataSize (u_handle s) \<noteq> 0"
  shows "\<exists>s'. usart_request_receive soc s = Some (rx_on (u_handle s'), s') \<and>
              (u_handle s', u_ram s') = rx_store b (u_handle s, u_ram s) \<and>
              fifo (u_dev s') = (fifo (u_dev s))\<lparr>fv_rx := bs\<rparr> \<and> u_primask s' = u_primask s"
proof -
  let ?h = "u_handle s"
  define s1 where "s1 = on_handle (\<lambda>h. h\<lparr>rxDataSize := rxDataSize h - 1, rxData := rxData h + 1\<rparr>)
    ((snd (uread soc U_FIFORD s))\<lparr>u_ram := (u_ram s)(rxData ?h := b)\<rparr>)"
  have s1: "u_handle s1 = ?h\<lparr>rxDataSize := rxDataSize ?h - 1, rxData := rxData ?h + 1\<rparr>"
    "u_ram s1 = (u_ram s)(rxData ?h := b)" "u_primask s1 = u_primask s"
    "fifo (u_dev s1) = (fifo (u_dev s))\<lparr>fv_rx := bs\<rparr>"
    using fifo_pop [OF assms(2,3)] by (simp_all add: s1_def)
  have b: "ucast (fst (reg_read soc U_FIFORD (u_dev s))) = b" using fifo_pop [OF assms(2,3)] by blast
  show ?thesis
  proof (cases "rxDataSize ?h = 1")
    case False
    then show ?thesis using s1 assms(4)
      by (auto simp: usart_request_receive_def case_prod_beta b s1_def [symmetric] rx_on_def rx_store_def)
  next
    case True
    define s2 where "s2 = on_handle (\<lambda>h. h\<lparr>rxState := kUSART_RxIdle\<rparr>)
      (if 0 = rxRingBuffer (u_handle s1) then
         on_udev (reg_write soc U_FIFOINTENCLR (umask soc FIFOINTENCLR_RXLVL OR umask soc FIFOINTENSET_RXERR)) s1
       else s1)"
    obtain s3 where s3: "usart_callback soc kStatus_USART_RxIdle s2 = Some s3" "same_but_dev s2 s3"
      using callback_observer [OF assms(1)] by blast
    note f = fifo_callback [OF assms(2) s3(1)]
    have s2: "u_handle s2 = (u_handle s1)\<lparr>rxState := kUSART_RxIdle\<rparr>" "u_ram s2 = u_ram s1" "u_primask s2 = u_primask s1"
      "fifo (u_dev s2) = fifo (u_dev s1)"
      using assms(2) by (simp_all add: s2_def)
    have "usart_request_receive soc s = Some (rxRingBuffer ?h \<noteq> 0, s3)"
      using True s1(1) s3(1) unfolding s2_def usart_request_receive_def
      by (cases "rxRingBuffer ?h = 0") (simp_all add: case_prod_beta Let_def b s1_def [symmetric])
    then show ?thesis using s1 s2 s3(2) f True assms(4)
      by (auto simp: same_but_dev_def rx_on_def rx_store_def)
  qed
qed

lemma receive_byte_view:
  assumes "usart_observer soc" "fifo_device soc fifo" "rx_can (uview fifo s)"
  shows "\<exists>s'. usart_receive_byte soc True s = Some (rx_on (u_handle s'), s') \<and>
              uview fifo s' = rx_view (uview fifo s) \<and> u_primask s' = u_primask s"
proof -
  define s1 where "s1 = on_udev (reg_clear soc U_CTL (umask soc CTL_ADDRDET)) s"
  have s1: "u_handle s1 = u_handle s" "u_ram s1 = u_ram s" "u_primask s1 = u_primask s" "fifo (u_dev s1) = fifo (u_dev s)"
    using assms(2) by (simp_all add: s1_def)
  from assms(3) have on: "rx_on (u_handle s)" by (simp add: rx_can_def uview_def)
  from assms(3) obtain b bs where q: "fv_rx (fifo (u_dev s)) = b # bs"
    by (auto simp: rx_can_def uview_def neq_Nil_conv)
  show ?thesis
  proof (cases "rxDataSize (u_handle s) = 0")
    case True
    with on have ne: "rxRingBuffer (u_handle s) \<noteq> 0" by (simp add: rx_on_def)
    from receive_ring_view [OF assms(1,2), of s1 b bs] s1 q ne obtain s' where
      s': "usart_ring_receive soc s1 = Some s'" "(u_handle s', u_ram s') = ring_push b (u_handle s, u_ram s)"
        "fifo (u_dev s') = (fifo (u_dev s))\<lparr>fv_rx := bs\<rparr>" "u_primask s' = u_primask s" by auto
    have "rxRingBuffer (u_handle s') = rxRingBuffer (u_handle s)"
      by (metis s'(2) fst_conv ring_push_fields(1))
    with True ne s' s1(1) q show ?thesis
      by (simp add: usart_receive_byte_def s1_def [symmetric] rx_on_def uview_def rx_view_def rx_store_def Let_def)
  next
    case False
    then show ?thesis using receive_request_view [OF assms(1,2), of s1 b bs] s1 q
      by (simp add: usart_receive_byte_def s1_def [symmetric] uview_def rx_view_def rx_store_def Let_def)
  qed
qed

lemma send_byte_view:
  assumes "fifo_device soc fifo" "tx_can (uview fifo s)"
  shows "\<exists>s'. usart_send_byte soc s = (tx_on (u_handle s'), s') \<and>
              uview fifo s' = tx_view (uview fifo s) \<and> u_primask s' = u_primask s"
proof -
  have "0 < fv_room (fifo (u_dev s))" using assms(2) by (simp add: tx_can_def uview_def)
  note send = fifo_send [OF assms(1) this]
  show ?thesis
    by (simp add: usart_send_byte_def Let_def tx_on_def uview_def tx_view_def tx_step_def assms(1) send)
qed

lemma uview_handle: "uview fifo s = uview fifo s' \<Longrightarrow> u_handle s = u_handle s' \<and> fifo (u_dev s) = fifo (u_dev s')"
  by (simp add: uview_def)

lemma irq_cond_view:
  assumes "fifo_device soc fifo"
  shows "fst (usart_irq_cond soc (rx_on (u_handle s)) (tx_on (u_handle s)) s) =
           (rx_can (uview fifo s) \<or> tx_can (uview fifo s))"
    "uview fifo (snd (usart_irq_cond soc re se s)) = uview fifo s"
    "u_primask (snd (usart_irq_cond soc re se s)) = u_primask s"
  using usart_poll_fifo [OF assms] uview_handle [OF usart_poll_fifo(1) [OF assms]]
  by (auto simp: usart_irq_cond_def case_prod_beta Let_def rx_can_def tx_can_def uview_def)

lemma irq_body_view:
  assumes "usart_observer soc" "fifo_device soc fifo"
    "re = rx_on (u_handle s)" "se = tx_on (u_handle s)"
  shows "\<exists>s'. usart_irq_body soc re se s = Some (rx_on (u_handle s'), tx_on (u_handle s'), s') \<and>
              uview fifo s' = irq_step (uview fifo s) \<and> u_primask s' = u_primask s"
proof -
  note poll = usart_poll_fifo [OF assms(2)]
  define s1 where "s1 = snd (usart_poll soc re FIFOSTAT_RXNOTEMPTY s)"
  let ?v = "if rx_can (uview fifo s) then rx_view (uview fifo s) else uview fifo s"
  have s1: "uview fifo s1 = uview fifo s" "u_primask s1 = u_primask s" by (simp_all add: s1_def poll)
  note h1 = uview_handle [OF s1(1)]
  have rx: "fst (usart_poll soc re FIFOSTAT_RXNOTEMPTY s) = rx_can (uview fifo s)"
    by (simp add: poll assms(3) rx_can_def uview_def)
  obtain s2 where s2: "(if rx_can (uview fifo s) then usart_receive_byte soc re s1 else Some (re, s1)) =
      Some (rx_on (u_handle s2), s2)" "uview fifo s2 = ?v" "u_primask s2 = u_primask s"
  proof (cases "rx_can (uview fifo s)")
    case True
    then have "re" by (simp add: assms(3) rx_can_def uview_def)
    with True receive_byte_view [OF assms(1,2), of s1] s1 that show ?thesis by auto
  next
    case False
    with s1 h1 that [of s1] assms(3) show ?thesis by simp
  qed
  have tx2: "tx_on (u_handle s2) = se"
    using s2(2) by (cases "rx_can (uview fifo s)") (auto simp: uview_def rx_view_def tx_on_def assms(4) prod_eq_iff)
  define s3 where "s3 = snd (usart_poll soc se FIFOSTAT_TXNOTFULL s2)"
  have s3: "uview fifo s3 = ?v" "u_primask s3 = u_primask s" by (simp_all add: s3_def poll s2)
  have tx: "fst (usart_poll soc se FIFOSTAT_TXNOTFULL s2) = tx_can ?v"
    unfolding s2(2) [symmetric] tx2 [symmetric] by (simp add: poll tx_can_def uview_def)
  have h3: "u_handle s3 = u_handle s2" using uview_handle [OF trans [OF s3(1) s2(2) [symmetric]]] by blast
  obtain s4 where s4: "(if tx_can ?v then usart_send_byte soc s3 else (se, s3)) = (tx_on (u_handle s4), s4)"
    "uview fifo s4 = irq_step (uview fifo s)" "u_primask s4 = u_primask s" "rx_on (u_handle s4) = rx_on (u_handle s2)"
  proof (cases "tx_can ?v")
    case True
    with send_byte_view [OF assms(2), of s3] s3 obtain s4 where
      "usart_send_byte soc s3 = (tx_on (u_handle s4), s4)" "uview fifo s4 = tx_view ?v" "u_primask s4 = u_primask s"
      by auto
    moreover have "rx_on (u_handle s4) = rx_on (u_handle s2)"
      using calculation(2) s3(1) h3 by (auto simp: uview_def tx_view_def tx_step_def rx_on_def case_prod_beta Let_def prod_eq_iff)
    ultimately show ?thesis using True that by (simp add: irq_step_def Let_def)
  next
    case False
    with s3 h3 tx2 that [of s3] show ?thesis by (simp add: irq_step_def Let_def)
  qed
  have "usart_irq_body soc re se s = Some (rx_on (u_handle s2), tx_on (u_handle s4), s4)"
    using s2(1) s4(1) [unfolded s3_def]
    by (simp add: usart_irq_body_def case_prod_beta Let_def rx s1_def [symmetric] tx split del: if_split)
  with s4 show ?thesis by auto
qed

lemma irq_loop_view:
  assumes "usart_observer soc" "fifo_device soc fifo"
  shows "\<exists>s'. usart_irq_loop soc (rx_on (u_handle s)) (tx_on (u_handle s)) s = Some s' \<and>
              uview fifo s' = irq_view (uview fifo s) \<and> u_primask s' = u_primask s"
proof (induction "uview fifo s" arbitrary: s rule: irq_view.induct)
  case (1 s)
  let ?c = "usart_irq_cond soc (rx_on (u_handle s)) (tx_on (u_handle s)) s"
  note c = irq_cond_view [OF assms(2)]
  show ?case
  proof (cases "rx_can (uview fifo s) \<or> tx_can (uview fifo s)")
    case False
    then show ?thesis using c
      by (subst usart_irq_loop.simps) (auto simp: case_prod_beta Let_def irq_view.simps [of "uview fifo s"])
  next
    case True
    have h: "u_handle (snd ?c) = u_handle s" using uview_handle [OF c(2)] by blast
    from irq_body_view [OF assms, of "rx_on (u_handle s)" "snd ?c" "tx_on (u_handle s)"] h c(2,3) obtain s1 where
      s1: "usart_irq_body soc (rx_on (u_handle s)) (tx_on (u_handle s)) (snd ?c) =
             Some (rx_on (u_handle s1), tx_on (u_handle s1), s1)"
        "uview fifo s1 = irq_step (uview fifo s)" "u_primask s1 = u_primask s" by auto
    from "1.hyps" [OF True s1(2) [symmetric]] obtain s2 where
      "usart_irq_loop soc (rx_on (u_handle s1)) (tx_on (u_handle s1)) s1 = Some s2"
      "uview fifo s2 = irq_view (uview fifo s1)" "u_primask s2 = u_primask s1" by blast
    with s1 True c(1) show ?thesis
      by (subst usart_irq_loop.simps) (auto simp: case_prod_beta Let_def irq_view.simps [of "uview fifo s"])
  qed
qed

subsection \<open>What the loop transfers\<close>

text \<open>The bytes to send lie neither in the buffer that is being received nor in the ring.\<close>

definition bufs_apart :: "usart_handle \<Rightarrow> bool" where
  "bufs_apart h \<longleftrightarrow>
     apart (txData h) (unat (txDataSize h)) (rxData h) (unat (rxDataSize h)) \<and>
     (rxRingBuffer h \<noteq> 0 \<longrightarrow>
        ring_ok h \<and> apart (txData h) (unat (txDataSize h)) (rxRingBuffer h) (ring_size h))"

definition tx_adv :: "nat \<Rightarrow> usart_handle \<Rightarrow> usart_handle" where
  "tx_adv j h = h\<lparr>txData := txData h + of_nat j, txDataSize := txDataSize h - of_nat j\<rparr>"

definition rx_taken :: "usart_view \<Rightarrow> u8 list" where
  "rx_taken v =
     (let ((h, m), f) = v in if rxRingBuffer h \<noteq> 0 then fv_rx f else take (unat (rxDataSize h)) (fv_rx f))"

definition tx_count :: "usart_view \<Rightarrow> nat" where
  "tx_count v = min (unat (txDataSize (fst (fst v)))) (fv_room (snd v))"

definition irq_result :: "usart_view \<Rightarrow> usart_view" where
  "irq_result v =
     (let hm = fold rx_store (rx_taken v) (fst v); j = tx_count v; f = snd v
      in ((tx_adv j (fst hm), snd hm),
          f\<lparr>fv_rx := drop (length (rx_taken v)) (fv_rx f), fv_room := fv_room f - j,
            fv_sent := fv_sent f @ mem_bytes (snd (fst v)) (txData (fst (fst v))) j\<rparr>))"

lemma tx_adv_0 [simp]: "tx_adv 0 h = h"
  by (simp add: tx_adv_def)

lemma rx_store_tx_step: "rx_store b (tx_step h, m) = (tx_step (fst (rx_store b (h, m))), snd (rx_store b (h, m)))"
  by (simp add: rx_store_def tx_step_def ring_push_def ring_store_def ring_inc_head_def ring_make_room_def
        ring_inc_tail_def USART_TransferIsRxRingBufferFull_def USART_TransferGetRxRingBufferLength_def)

lemma fold_rx_store_tx_step:
  "fold rx_store bs (tx_step h, m) = (tx_step (fst (fold rx_store bs (h, m))), snd (fold rx_store bs (h, m)))"
proof (induction bs arbitrary: h m)
  case (Cons b bs)
  then show ?case by (cases "rx_store b (h, m)") (simp add: rx_store_tx_step)
qed simp

lemma rx_store_ram:
  assumes "bufs_apart h" "rx_on h" "k \<le> unat (txDataSize h)"
  shows "mem_bytes (snd (rx_store b (h, m))) (txData h) k = mem_bytes m (txData h) k"
proof (cases "rxDataSize h = 0")
  case True
  with assms(1,2) have ok: "ring_ok h" "apart (txData h) (unat (txDataSize h)) (rxRingBuffer h) (ring_size h)"
    by (auto simp: bufs_apart_def rx_on_def)
  have "txData h + of_nat i \<noteq> rxRingBuffer h + ucast (rxRingBufferHead h)" if "i < k" for i
    using apartD [OF ok(2), of i "ring_head h"] that assms(3) ring_ok_bounds(3) [OF ok(1)] by simp
  then show ?thesis using True assms(2)
    by (simp add: rx_store_def rx_on_def ring_push_def ring_store_def mem_bytes_outside)
next
  case False
  have "txData h + of_nat i \<noteq> rxData h" if "i < k" for i
    using apartD [of "txData h" "unat (txDataSize h)" "rxData h" "unat (rxDataSize h)" i 0] assms that False
    by (simp add: bufs_apart_def unat_gt_0)
  then show ?thesis using False by (simp add: rx_store_def mem_bytes_outside)
qed

lemma rx_store_size:
  "rxDataSize h \<noteq> 0 \<Longrightarrow> unat (rxDataSize (fst (rx_store b (h, m)))) = unat (rxDataSize h) - 1"
  by (simp add: rx_store_def unat_minus_small unat_gt_0 Suc_le_eq)

lemma apart_shrink:
  assumes "apart a n b (unat (k :: u32))" "k \<noteq> 0"
  shows "apart a n (b + 1) (unat (k - 1))"
proof -
  from assms(2) have "unat k = Suc (unat (k - 1))" by (simp add: unat_minus_small unat_gt_0 Suc_le_eq)
  with assms(1) show ?thesis by (metis apart_next apart_sym)
qed

lemma bufs_apart_rx: "bufs_apart h \<Longrightarrow> bufs_apart (fst (rx_store b (h, m)))"
proof (cases "rxDataSize h = 0")
  case True
  assume h: "bufs_apart h"
  have keep: "rxDataSize (fst (ring_push b (h, m))) = rxDataSize h" "rxData (fst (ring_push b (h, m))) = rxData h"
    "txDataSize (fst (ring_push b (h, m))) = txDataSize h" "txData (fst (ring_push b (h, m))) = txData h"
    by (simp_all add: ring_push_def ring_store_def ring_inc_head_def ring_make_room_def ring_inc_tail_def)
  show ?thesis using h True ring_push_ok [of "(h, m)" b] by (simp add: bufs_apart_def rx_store_def keep)
next
  case False
  assume "bufs_apart h"
  with False apart_shrink show ?thesis by (simp add: bufs_apart_def rx_store_def ring_ok_def)
qed

lemma bufs_apart_tx:
  assumes "bufs_apart h" "tx_on h"
  shows "bufs_apart (tx_step h)"
proof -
  from assms(2) have "txDataSize h \<noteq> 0" by (simp add: tx_on_def)
  then have "apart (txData h + 1) (unat (txDataSize h - 1)) b k" if "apart (txData h) (unat (txDataSize h)) b k" for b k
    using apart_shrink [OF apart_sym [OF that]] apart_sym by blast
  with assms show ?thesis by (simp add: bufs_apart_def tx_step_def ring_ok_def)
qed

lemma irq_result_rx:
  assumes "bufs_apart (fst (fst v))" "rx_can v"
  shows "irq_result (rx_view v) = irq_result v"
proof -
  obtain h m f where v: "v = ((h, m), f)" by (metis surj_pair)
  from assms(2) obtain b bs where q: "fv_rx f = b # bs" and on: "rx_on h"
    by (auto simp: v rx_can_def neq_Nil_conv)
  let ?hm = "rx_store b (h, m)"
  have w: "rx_view ((h, m), f) = (?hm, f\<lparr>fv_rx := bs\<rparr>)" by (simp add: rx_view_def q)
  have "rx_taken v = b # rx_taken (rx_view v)"
  proof (cases "rxRingBuffer h = 0")
    case True
    with on have "rxDataSize h \<noteq> 0" by (simp add: rx_on_def)
    moreover from this obtain n where "unat (rxDataSize h) = Suc n"
      by (metis unat_gt_0 gr0_conv_Suc)
    ultimately show ?thesis using True rx_store_size [of h b m] rx_store_tx(3) [of b "(h, m)"]
      by (simp add: w v q rx_taken_def case_prod_beta)
  next
    case False
    then show ?thesis using rx_store_tx(3) [of b "(h, m)"] by (simp add: w v q rx_taken_def case_prod_beta)
  qed
  moreover have "tx_count (rx_view v) = tx_count v" by (simp add: w v tx_count_def)
  moreover have "mem_bytes (snd ?hm) (txData h) (tx_count v) = mem_bytes m (txData h) (tx_count v)"
    using assms(1) on by (intro rx_store_ram) (simp_all add: v tx_count_def)
  ultimately show ?thesis by (simp add: irq_result_def w v q Let_def)
qed

lemma irq_result_tx:
  assumes "tx_can v"
  shows "irq_result (tx_view v) = irq_result v"
proof -
  obtain h m f where v: "v = ((h, m), f)" by (metis surj_pair)
  from assms have room: "0 < fv_room f" "txDataSize h \<noteq> 0" by (auto simp: v tx_can_def tx_on_def)
  then have n: "unat (txDataSize h) = Suc (unat (txDataSize h - 1))"
    by (simp add: unat_minus_small unat_gt_0 Suc_le_eq)
  have w: "tx_view ((h, m), f) = ((tx_step h, m), f\<lparr>fv_room := fv_room f - 1, fv_sent := fv_sent f @ [m (txData h)]\<rparr>)"
    by (simp add: tx_view_def)
  have j: "tx_count v = Suc (tx_count (tx_view v))"
    using room by (simp add: w v tx_count_def n tx_step_def)
  have "rx_taken (tx_view v) = rx_taken v" by (simp add: w v rx_taken_def tx_step_def)
  moreover have "tx_adv i (tx_step h') = tx_adv (Suc i) h'" for i h'
    by (simp add: tx_adv_def tx_step_def algebra_simps)
  moreover have "mem_bytes m (txData h) (tx_count v) = m (txData h) # mem_bytes m (txData (tx_step h)) (tx_count (tx_view v))"
    by (simp add: j mem_bytes_Cons tx_step_def)
  ultimately show ?thesis using j room
    by (simp add: irq_result_def w v Let_def fold_rx_store_tx_step)
qed

lemma irq_view_result: "bufs_apart (fst (fst v)) \<Longrightarrow> irq_view v = irq_result v"
proof (induction v rule: irq_view.induct)
  case (1 v)
  let ?w = "if rx_can v then rx_view v else v"
  have w: "bufs_apart (fst (fst ?w))" "irq_result ?w = irq_result v"
    using "1.prems" irq_result_rx [of v] bufs_apart_rx [of "fst (fst v)" _ "snd (fst v)"]
    by (auto simp: rx_view_def)
  have "irq_result (irq_step v) = irq_result v" "bufs_apart (fst (fst (irq_step v)))"
    using w irq_result_tx [of ?w] bufs_apart_tx [of "fst (fst ?w)"]
    by (auto simp: irq_step_def Let_def tx_can_def tx_view_def case_prod_beta)
  moreover have "irq_result v = v" if "\<not> (rx_can v \<or> tx_can v)"
  proof -
    obtain h m f where v: "v = ((h, m), f)" by (metis surj_pair)
    have "rx_taken v = []" "tx_count v = 0"
      using that by (auto simp: v rx_can_def rx_on_def rx_taken_def tx_can_def tx_on_def tx_count_def)
    then show ?thesis by (simp add: irq_result_def v)
  qed
  ultimately show ?case using "1.IH" by (simp add: irq_view.simps [of v])
qed

text \<open>The request takes the first bytes, the ring the rest.\<close>

definition rx_adv :: "nat \<Rightarrow> usart_handle \<Rightarrow> usart_handle" where
  "rx_adv k h =
     h\<lparr>rxData := rxData h + of_nat k, rxDataSize := rxDataSize h - of_nat k,
       rxState := (if 0 < k \<and> k = unat (rxDataSize h) then kUSART_RxIdle else rxState h)\<rparr>"

lemma fold_rx_request:
  "length bs \<le> unat (rxDataSize h) \<Longrightarrow>
   fold rx_store bs (h, m) = (rx_adv (length bs) h, mem_write m (rxData h) bs)"
proof (induction bs arbitrary: h m)
  case Nil
  then show ?case by (simp add: rx_adv_def)
next
  case (Cons b bs)
  then have ne: "rxDataSize h \<noteq> 0" by auto
  have one: "(rxDataSize h = 1) = (unat (rxDataSize h) = 1)" by (simp add: word_unat_eq_iff)
  have step: "rx_store b (h, m) = (rx_adv 1 h, m(rxData h := b))"
    using ne one by (auto simp: rx_store_def rx_adv_def)
  have sz: "unat (rxDataSize (rx_adv 1 h)) = unat (rxDataSize h) - 1"
    using ne by (simp add: rx_adv_def unat_minus_small unat_gt_0 Suc_le_eq)
  have adv: "rx_adv (length bs) (rx_adv 1 h) = rx_adv (Suc (length bs)) h"
    using Cons.prems sz by (auto simp: rx_adv_def algebra_simps)
  have "fold rx_store (b # bs) (h, m) = fold rx_store bs (rx_adv 1 h, m(rxData h := b))" by (simp add: step)
  also have "\<dots> = (rx_adv (length bs) (rx_adv 1 h), mem_write (m(rxData h := b)) (rxData (rx_adv 1 h)) bs)"
    using Cons.prems sz by (intro Cons.IH) simp
  also have "rxData (rx_adv 1 h) = rxData h + 1" by (simp add: rx_adv_def)
  finally show ?case by (simp only: adv length_Cons mem_write.simps)
qed

lemma ring_push_keeps [simp]:
  "rxDataSize (fst (ring_push b hm)) = rxDataSize (fst hm)" "rxData (fst (ring_push b hm)) = rxData (fst hm)"
  "txDataSize (fst (ring_push b hm)) = txDataSize (fst hm)" "rxState (fst (ring_push b hm)) = rxState (fst hm)"
  "txDataSizeAll (fst (ring_push b hm)) = txDataSizeAll (fst hm)" "rxDataSizeAll (fst (ring_push b hm)) = rxDataSizeAll (fst hm)"
  "txState (fst (ring_push b hm)) = txState (fst hm)"
  by (simp_all add: ring_push_def ring_store_def ring_inc_head_def ring_make_room_def ring_inc_tail_def)

lemma fold_ring_push_keeps [simp]:
  "rxDataSize (fst (fold ring_push bs hm)) = rxDataSize (fst hm)" "rxState (fst (fold ring_push bs hm)) = rxState (fst hm)"
  "rxRingBuffer (fst (fold ring_push bs hm)) = rxRingBuffer (fst hm)"
  "txDataSize (fst (fold ring_push bs hm)) = txDataSize (fst hm)"
  by (induction bs arbitrary: hm; simp)+

lemma fold_rx_ring:
  "rxDataSize (fst hm) = 0 \<Longrightarrow> rxRingBuffer (fst hm) \<noteq> 0 \<Longrightarrow> fold rx_store bs hm = fold ring_push bs hm"
proof (induction bs arbitrary: hm)
  case (Cons b bs)
  then have "rx_store b hm = ring_push b hm" by (cases hm) (simp add: rx_store_def)
  with Cons show ?case by simp
qed simp

lemma fold_ring_push_outside:
  assumes "ring_ok (fst hm)" "\<And>j. j < ring_size (fst hm) \<Longrightarrow> x \<noteq> rxRingBuffer (fst hm) + of_nat j"
  shows "snd (fold ring_push bs hm) x = snd hm x"
  using assms
proof (induction bs arbitrary: hm)
  case (Cons b bs)
  obtain h m where hm: "hm = (h, m)" by force
  have "x \<noteq> rxRingBuffer h + of_nat (ring_head h)"
    using Cons.prems(2) [of "ring_head h"] Cons.prems(1) ring_ok_bounds(3) [of h] by (simp add: hm)
  then have "snd (ring_push b hm) x = m x" by (simp add: hm ring_push_def ring_store_def)
  moreover have "snd (fold ring_push bs (ring_push b hm)) x = snd (ring_push b hm) x"
    using Cons.prems by (intro Cons.IH) (simp_all add: ring_push_ok)
  ultimately show ?case by (simp add: hm)
qed simp

subsection \<open>The whole handler\<close>

text \<open>No error flag of the device is set.\<close>

definition error_free :: "'d usart_soc \<Rightarrow> bool" where
  "error_free soc \<longleftrightarrow>
     (\<forall>d. fst (reg_read soc U_FIFOSTAT d) AND umask soc FIFOSTAT_RXERR = 0 \<and>
          fst (reg_read soc U_FIFOSTAT d) AND umask soc FIFOSTAT_TXERR = 0 \<and>
          fst (reg_read soc U_STAT d) AND umask soc STAT_RXNOISEINT = 0 \<and>
          fst (reg_read soc U_STAT d) AND umask soc STAT_FRAMERRINT = 0 \<and>
          fst (reg_read soc U_STAT d) AND umask soc STAT_PARITYERRINT = 0)"

lemma error_check_quiet:
  assumes "fifo_device soc fifo" "\<And>d. fst (reg_read soc r d) AND umask soc m = 0" "r \<noteq> U_FIFORD"
  shows "\<exists>s'. usart_error_check soc r m e st s = Some s' \<and> same_but_dev s s' \<and> fifo (u_dev s') = fifo (u_dev s)"
  using assms by (simp add: usart_error_check_def case_prod_beta Let_def)

lemma errors_quiet:
  assumes "fifo_device soc fifo" "error_free soc"
  shows "\<exists>s'. usart_errors soc s = Some s' \<and> same_but_dev s s' \<and> fifo (u_dev s') = fifo (u_dev s)"
proof -
  from assms(2) have e: "\<And>d. fst (reg_read soc U_FIFOSTAT d) AND umask soc FIFOSTAT_RXERR = 0"
    "\<And>d. fst (reg_read soc U_FIFOSTAT d) AND umask soc FIFOSTAT_TXERR = 0"
    "\<And>d. fst (reg_read soc U_STAT d) AND umask soc STAT_RXNOISEINT = 0"
    "\<And>d. fst (reg_read soc U_STAT d) AND umask soc STAT_FRAMERRINT = 0"
    "\<And>d. fst (reg_read soc U_STAT d) AND umask soc STAT_PARITYERRINT = 0"
    by (simp_all add: error_free_def)
  note q = error_check_quiet [OF assms(1)]
  obtain s1 where s1: "usart_error_check soc U_FIFOSTAT FIFOSTAT_RXERR True kStatus_USART_RxError s = Some s1"
    "same_but_dev s s1" "fifo (u_dev s1) = fifo (u_dev s)" using q [OF e(1)] by blast
  obtain s2 where s2: "usart_error_check soc U_FIFOSTAT FIFOSTAT_TXERR False kStatus_USART_TxError s1 = Some s2"
    "same_but_dev s1 s2" "fifo (u_dev s2) = fifo (u_dev s1)" using q [OF e(2)] by blast
  obtain s3 where s3: "usart_error_check soc U_STAT STAT_RXNOISEINT True kStatus_USART_NoiseError s2 = Some s3"
    "same_but_dev s2 s3" "fifo (u_dev s3) = fifo (u_dev s2)" using q [OF e(3)] by blast
  obtain s4 where s4: "usart_error_check soc U_STAT STAT_FRAMERRINT True kStatus_USART_FramingError s3 = Some s4"
    "same_but_dev s3 s4" "fifo (u_dev s4) = fifo (u_dev s3)" using q [OF e(4)] by blast
  obtain s5 where s5: "usart_error_check soc U_STAT STAT_PARITYERRINT True kStatus_USART_ParityError s4 = Some s5"
    "same_but_dev s4 s5" "fifo (u_dev s5) = fifo (u_dev s4)" using q [OF e(5)] by blast
  have "same_but_dev s s5" using s1 s2 s3 s4 s5 same_but_dev_trans by metis
  with s1 s2 s3 s4 s5 show ?thesis by (simp add: usart_errors_def)
qed

lemma tx_idle_effect:
  assumes "usart_observer soc" "fifo_device soc fifo"
  shows "\<exists>s' st. usart_tx_idle soc s = Some s' \<and> u_handle s' = (u_handle s)\<lparr>txState := st\<rparr> \<and> u_ram s' = u_ram s \<and>
           u_primask s' = u_primask s \<and> fifo (u_dev s') = fifo (u_dev s)"
proof -
  define s1 where "s1 = snd (uread soc U_INTENSET s)"
  define p where "p = (if 0 \<noteq> fst (uread soc U_INTENSET s) AND umask soc INTENSET_TXIDLEEN then
                        let (st, s) = uread soc U_INTSTAT s1 in (0 \<noteq> st AND umask soc INTSTAT_TXIDLE, s)
                      else (False, s1))"
  have p: "same_but_dev s (snd p)" "fifo (u_dev (snd p)) = fifo (u_dev s)"
    using assms(2) by (simp_all add: p_def s1_def same_but_dev_def case_prod_beta Let_def)
  define s2 where "s2 = on_udev (reg_write soc U_INTENCLR (umask soc INTENCLR_TXIDLECLR))
                          (on_handle (\<lambda>h. h\<lparr>txState := kUSART_TxIdle\<rparr>) (snd p))"
  obtain s3 where s3: "usart_callback soc kStatus_USART_TxIdle s2 = Some s3" "same_but_dev s2 s3"
    using callback_observer [OF assms(1)] by blast
  have unfolded: "usart_tx_idle soc s = (if fst p then usart_callback soc kStatus_USART_TxIdle s2 else Some (snd p))"
    by (cases "fst (reg_read soc U_INTENSET (u_dev s)) AND umask soc INTENSET_TXIDLEEN = 0")
       (simp_all add: usart_tx_idle_def p_def s1_def s2_def case_prod_beta Let_def)
  show ?thesis
  proof (cases "fst p")
    case True
    then show ?thesis using unfolded s3 p fifo_callback [OF assms(2) s3(1)] assms(2)
      by (intro exI [of _ s3] exI [of _ kUSART_TxIdle]) (simp add: same_but_dev_def s2_def)
  next
    case False
    then show ?thesis using unfolded p
      by (intro exI [of _ "snd p"] exI [of _ "txState (u_handle s)"]) (simp add: same_but_dev_def)
  qed
qed

lemma rx_level_fifo: "fifo_device soc fifo \<Longrightarrow> fifo (usart_rx_level soc h d) = fifo d"
  by (simp add: usart_rx_level_def usart_set_rxlvl_def USART_FIFOTRIG_RXLVL_GET_def case_prod_beta Let_def)

lemma irq_handler_view:
  assumes "usart_observer soc" "fifo_device soc fifo" "error_free soc" "bufs_apart (u_handle s)"
  shows "\<exists>s' st. USART_TransferHandleIRQ soc s = Some s' \<and>
           u_handle s' = (fst (fst (irq_result (uview fifo s))))\<lparr>txState := st\<rparr> \<and>
           u_ram s' = snd (fst (irq_result (uview fifo s))) \<and> fifo (u_dev s') = snd (irq_result (uview fifo s)) \<and>
           u_primask s' = u_primask s"
proof -
  from errors_quiet [OF assms(2,3)] obtain s1 where
    s1: "usart_errors soc s = Some s1" "same_but_dev s s1" "fifo (u_dev s1) = fifo (u_dev s)" by blast
  then have v: "uview fifo s1 = uview fifo s" "u_handle s1 = u_handle s" by (simp_all add: uview_def same_but_dev_def)
  from irq_loop_view [OF assms(1,2), of s1] v obtain s2 where
    s2: "usart_irq_loop soc (rx_on (u_handle s)) (tx_on (u_handle s)) s1 = Some s2"
      "uview fifo s2 = irq_view (uview fifo s)" "u_primask s2 = u_primask s1" by auto
  have r: "irq_view (uview fifo s) = irq_result (uview fifo s)"
    using assms(4) by (intro irq_view_result) (simp add: uview_def)
  from tx_idle_effect [OF assms(1,2), of s2] obtain s3 st where
    s3: "usart_tx_idle soc s2 = Some s3" "u_handle s3 = (u_handle s2)\<lparr>txState := st\<rparr>" "u_ram s3 = u_ram s2"
      "u_primask s3 = u_primask s2" "fifo (u_dev s3) = fifo (u_dev s2)" by blast
  have "USART_TransferHandleIRQ soc s = Some (on_udev (usart_rx_level soc (u_handle s3)) s3)"
    using s1(1) s2(1) s3(1) by (simp add: USART_TransferHandleIRQ_def rx_on_def tx_on_def)
  moreover have "u_handle s2 = fst (fst (irq_result (uview fifo s)))" "u_ram s2 = snd (fst (irq_result (uview fifo s)))"
    "fifo (u_dev s2) = snd (irq_result (uview fifo s))"
    using s2(2) unfolding r by (simp_all add: uview_def prod_eq_iff)
  ultimately show ?thesis using s1(2) s2(3) s3(2-5) assms(2)
    by (intro exI [of _ "on_udev (usart_rx_level soc (u_handle s3)) s3"] exI [of _ st])
       (simp add: rx_level_fifo same_but_dev_def)
qed

text \<open>What the handler leaves, with the request and the ring told apart.\<close>

lemma irq_result_fields:
  fixes h :: usart_handle and m :: mem and f :: fifo_view
  defines "q \<equiv> fv_rx f" and "r \<equiv> unat (rxDataSize h)" and "j \<equiv> min (unat (txDataSize h)) (fv_room f)"
    and "v \<equiv> irq_result ((h, m), f)"
  assumes "bufs_apart h" "rxRingBuffer h \<noteq> 0 \<longrightarrow> apart (rxData h) r (rxRingBuffer h) (ring_size h)"
  shows "unat (txDataSize (fst (fst v))) = unat (txDataSize h) - j"
    "unat (rxDataSize (fst (fst v))) = r - length q"
    "rxState (fst (fst v)) = (if 0 < r \<and> r \<le> length q then kUSART_RxIdle else rxState h)"
    "mem_bytes (snd (fst v)) (rxData h) (min r (length q)) = take r q"
    "fv_sent (snd v) = fv_sent f @ mem_bytes m (txData h) j"
    "rxRingBuffer h = 0 \<Longrightarrow> fv_rx (snd v) = drop r q"
    "rxRingBuffer h \<noteq> 0 \<Longrightarrow> fv_rx (snd v) = [] \<and> ring_ok (fst (fst v)) \<and>
       ring_bytes (fst v) = drop (length (ring_bytes (h, m) @ drop r q) - ring_cap (h, m)) (ring_bytes (h, m) @ drop r q)"
    "(\<And>i. i < r \<Longrightarrow> x \<noteq> rxData h + of_nat i) \<Longrightarrow>
     (\<And>i. rxRingBuffer h \<noteq> 0 \<Longrightarrow> i < ring_size h \<Longrightarrow> x \<noteq> rxRingBuffer h + of_nat i) \<Longrightarrow> snd (fst v) x = m x"
proof -
  let ?k = "min r (length q)" and ?m = "mem_write m (rxData h) (take r q)"
  let ?h = "rx_adv ?k h" and ?rest = "if rxRingBuffer h \<noteq> 0 then drop r q else []"
  have taken: "rx_taken ((h, m), f) = take r q @ ?rest"
    by (simp add: rx_taken_def q_def r_def)
  have k: "length (take r q) = ?k" by simp
  have req: "fold rx_store (take r q) (h, m) = (?h, ?m)"
    using fold_rx_request [of "take r q" h m] by (simp add: r_def k min.commute)
  have h: "rxRingBuffer ?h = rxRingBuffer h" "rxRingBufferSize ?h = rxRingBufferSize h" "ring_ok ?h = ring_ok h"
    "ring_bytes (?h, m') = ring_bytes (h, m')" "ring_cap (?h, m') = ring_cap (h, m')" "txDataSize ?h = txDataSize h" for m'
    by (simp_all add: rx_adv_def ring_ok_def ring_bytes_def ring_len_def ring_cap_def)
  have "unat (of_nat ?k :: u32) = ?k"
    using unsigned_less [of "rxDataSize h", where ?'a = nat]
    by (simp add: r_def unsigned_of_nat take_bit_nat_eq_self min_less_iff_disj)
  then have sz: "unat (rxDataSize ?h) = r - length q"
    by (simp add: rx_adv_def r_def unat_minus_small min_def)
  let ?hm = "fold ring_push ?rest (?h, ?m)"
  have "fold rx_store ?rest (?h, ?m) = ?hm"
  proof (cases "?rest = []")
    case False
    then have "rxRingBuffer h \<noteq> 0" "r < length q" by (auto split: if_splits)
    with sz h(1) show ?thesis by (intro fold_rx_ring) (simp_all add: unat_eq_zero)
  qed simp
  with req have v: "v = ((tx_adv j (fst ?hm), snd ?hm),
      f\<lparr>fv_rx := drop (length (take r q @ ?rest)) q, fv_room := fv_room f - j,
        fv_sent := fv_sent f @ mem_bytes m (txData h) j\<rparr>)"
    by (simp add: v_def irq_result_def taken Let_def tx_count_def j_def q_def)
  have jw: "unat (of_nat j :: u32) = j"
    using unsigned_less [of "txDataSize h", where ?'a = nat]
    by (simp add: j_def unsigned_of_nat take_bit_nat_eq_self min_less_iff_disj)
  show "unat (txDataSize (fst (fst v))) = unat (txDataSize h) - j"
    using jw h(6) by (simp add: v tx_adv_def unat_minus_small j_def)
  show "unat (rxDataSize (fst (fst v))) = r - length q"
    using sz by (simp add: v tx_adv_def)
  show "rxState (fst (fst v)) = (if 0 < r \<and> r \<le> length q then kUSART_RxIdle else rxState h)"
    by (auto simp: v tx_adv_def rx_adv_def r_def min_def)
  show "fv_sent (snd v) = fv_sent f @ mem_bytes m (txData h) j" by (simp add: v)
  show "fv_rx (snd v) = drop r q" if "rxRingBuffer h = 0" using that by (simp add: v min_def)
  have ok: "ring_ok h" "apart (rxData h) r (rxRingBuffer h) (ring_size h)" if "rxRingBuffer h \<noteq> 0"
    using that assms(5,6) by (auto simp: bufs_apart_def)
  show "mem_bytes (snd (fst v)) (rxData h) ?k = take r q"
  proof -
    have "snd ?hm (rxData h + of_nat i) = ?m (rxData h + of_nat i)" if "i < ?k" for i
    proof (cases "rxRingBuffer h = 0")
      case False
      show ?thesis using fold_ring_push_outside [of "(?h, ?m)" "rxData h + of_nat i"] ok [OF False] that
        by (simp add: h) (meson apartD min_less_iff_conj)
    qed simp
    then have "mem_bytes (snd ?hm) (rxData h) ?k = mem_bytes ?m (rxData h) (length (take r q))"
      by (intro nth_equalityI) (simp_all add: min.commute)
    also have "\<dots> = take r q"
      using unsigned_less [of "rxDataSize h", where ?'a = nat] by (intro mem_bytes_write) (simp add: r_def min_def)
    finally show ?thesis by (simp add: v)
  qed
  show "fv_rx (snd v) = [] \<and> ring_ok (fst (fst v)) \<and>
       ring_bytes (fst v) = drop (length (ring_bytes (h, m) @ drop r q) - ring_cap (h, m)) (ring_bytes (h, m) @ drop r q)"
    if ne: "rxRingBuffer h \<noteq> 0"
  proof -
    have "apart (rxData h) (length (take r q)) (rxRingBuffer h) (ring_size h)"
      using ok(2) [OF ne] by (rule apart_mono) simp_all
    then have "ring_bytes (?h, ?m) = ring_bytes (h, m)"
      using ring_bytes_write ring_ok_bounds(1) [OF ok(1) [OF ne]] h(4) by simp
    then have "ring_bytes ?hm = drop (length (ring_bytes (h, m)) + length (drop r q) - ring_cap (h, m)) (ring_bytes (h, m) @ drop r q)"
      using ring.pushes_elems [of "(?h, ?m)" "drop r q"] ok(1) [OF ne] ne by (simp add: h ring_cap_def list_all_iff)
    moreover have "ring_ok (fst ?hm)" using ring.pushes_invar [of "(?h, ?m)"] ok(1) [OF ne] by (simp add: h)
    moreover have "ring_ok (tx_adv j h') = ring_ok h'" "ring_bytes (tx_adv j h', m') = ring_bytes (h', m')" for h' m'
      by (simp_all add: tx_adv_def ring_ok_def ring_bytes_def ring_len_def)
    ultimately show ?thesis using ne by (simp add: v)
  qed
  show "snd (fst v) x = m x"
    if "\<And>i. i < r \<Longrightarrow> x \<noteq> rxData h + of_nat i"
      "\<And>i. rxRingBuffer h \<noteq> 0 \<Longrightarrow> i < ring_size h \<Longrightarrow> x \<noteq> rxRingBuffer h + of_nat i"
  proof -
    have "snd ?hm x = ?m x"
      using fold_ring_push_outside [of "(?h, ?m)" x] ok that(2) by (cases "rxRingBuffer h = 0") (simp_all add: h)
    also have "\<dots> = m x" using that(1) by (intro mem_write_outside) simp
    finally show ?thesis by (simp add: v)
  qed
qed

lemma irq_handler_fields:
  fixes s :: "'d usart" and fifo :: "'d \<Rightarrow> fifo_view"
  defines "h \<equiv> u_handle s" and "m \<equiv> u_ram s" and "q \<equiv> fv_rx (fifo (u_dev s))"
    and "r \<equiv> unat (rxDataSize (u_handle s))"
    and "j \<equiv> min (unat (txDataSize (u_handle s))) (fv_room (fifo (u_dev s)))"
  assumes "usart_observer soc" "fifo_device soc fifo" "error_free soc" "bufs_apart h"
    "rxRingBuffer h \<noteq> 0 \<longrightarrow> apart (rxData h) r (rxRingBuffer h) (ring_size h)"
  shows "\<exists>s'. USART_TransferHandleIRQ soc s = Some s' \<and>
    fv_sent (fifo (u_dev s')) = fv_sent (fifo (u_dev s)) @ mem_bytes m (txData h) j \<and>
    unat (txDataSize (u_handle s')) = unat (txDataSize h) - j \<and>
    mem_bytes (u_ram s') (rxData h) (min r (length q)) = take r q \<and>
    unat (rxDataSize (u_handle s')) = r - length q \<and>
    rxState (u_handle s') = (if 0 < r \<and> r \<le> length q then kUSART_RxIdle else rxState h) \<and>
    (rxRingBuffer h = 0 \<longrightarrow> fv_rx (fifo (u_dev s')) = drop r q) \<and>
    (rxRingBuffer h \<noteq> 0 \<longrightarrow> fv_rx (fifo (u_dev s')) = [] \<and> ring_ok (u_handle s') \<and>
       ring_bytes (u_handle s', u_ram s') =
         drop (length (ring_bytes (h, m) @ drop r q) - ring_cap (h, m)) (ring_bytes (h, m) @ drop r q)) \<and>
    (\<forall>x. (\<forall>i < r. x \<noteq> rxData h + of_nat i) \<and>
         (rxRingBuffer h \<noteq> 0 \<longrightarrow> (\<forall>i < ring_size h. x \<noteq> rxRingBuffer h + of_nat i)) \<longrightarrow> u_ram s' x = m x) \<and>
    u_primask s' = u_primask s"
proof -
  from irq_handler_view [OF assms(6-8), of s] assms(9) obtain s' st where
    s': "USART_TransferHandleIRQ soc s = Some s'"
      "u_handle s' = (fst (fst (irq_result (uview fifo s))))\<lparr>txState := st\<rparr>"
      "u_ram s' = snd (fst (irq_result (uview fifo s)))" "fifo (u_dev s') = snd (irq_result (uview fifo s))"
      "u_primask s' = u_primask s" unfolding h_def by blast
  have st: "ring_ok (h\<lparr>txState := st\<rparr>) = ring_ok h" "ring_bytes (h\<lparr>txState := st\<rparr>, m) = ring_bytes (h, m)" for h m
    by (simp_all add: ring_ok_def ring_bytes_def ring_len_def)
  have v: "uview fifo s = ((h, m), fifo (u_dev s))" by (simp add: uview_def h_def m_def)
  have ap: "rxRingBuffer h \<noteq> 0 \<longrightarrow> apart (rxData h) (unat (rxDataSize h)) (rxRingBuffer h) (ring_size h)"
    using assms(10) by (simp add: r_def h_def)
  note fields = irq_result_fields [where h = h and m = m and f = "fifo (u_dev s)", OF assms(9) ap, folded v]
  have defs: "unat (rxDataSize h) = r" "fv_rx (fifo (u_dev s)) = q"
    "min (unat (txDataSize h)) (fv_room (fifo (u_dev s))) = j"
    by (simp_all add: r_def q_def j_def h_def)
  have ring: "ring_bytes (u_handle s', u_ram s') = ring_bytes (fst (irq_result (uview fifo s)))"
    "ring_ok (u_handle s') = ring_ok (fst (fst (irq_result (uview fifo s))))"
    using s'(2,3) by (simp_all add: st)
  have 1: "fv_sent (fifo (u_dev s')) = fv_sent (fifo (u_dev s)) @ mem_bytes m (txData h) j"
    "unat (txDataSize (u_handle s')) = unat (txDataSize h) - j"
    "mem_bytes (u_ram s') (rxData h) (min r (length q)) = take r q"
    "unat (rxDataSize (u_handle s')) = r - length q"
    "rxState (u_handle s') = (if 0 < r \<and> r \<le> length q then kUSART_RxIdle else rxState h)"
    using fields(1-5) by (simp_all add: s' defs)
  have 2: "fv_rx (fifo (u_dev s')) = drop r q" if "rxRingBuffer h = 0"
    using fields(6) [OF that] by (simp only: s' defs)
  have 3: "fv_rx (fifo (u_dev s')) = [] \<and> ring_ok (u_handle s') \<and> ring_bytes (u_handle s', u_ram s') =
      drop (length (ring_bytes (h, m) @ drop r q) - ring_cap (h, m)) (ring_bytes (h, m) @ drop r q)" if "rxRingBuffer h \<noteq> 0"
    using fields(7) [OF that] by (simp only: ring s'(4) defs)
  have 4: "u_ram s' x = m x" if "\<forall>i < r. x \<noteq> rxData h + of_nat i"
    "rxRingBuffer h \<noteq> 0 \<longrightarrow> (\<forall>i < ring_size h. x \<noteq> rxRingBuffer h + of_nat i)" for x
    unfolding s'(3) by (rule fields(8)) (use that in \<open>auto simp: defs\<close>)
  show ?thesis using s'(1,5) 1 2 3 4 by blast
qed

end
