(* ===== verification/Usart_Stream.thy ===== *)
theory Usart_Stream
  imports Usart_Transfer
begin

text \<open>
  The properties of interrupt-driven USART transfers: what one run of the handler moves, and that
  a receive request delivers the received bytes in order whether they wait in the ring buffer, in
  the receive FIFO or in both.
\<close>

lemma receive_stream_core:
  fixes s :: "'d usart" and fifo :: "'d \<Rightarrow> fifo_view" and x :: usart_transfer
  defines "h \<equiv> u_handle s" and "n \<equiv> unat (xfer_dataSize x)"
    and "input \<equiv> ring_bytes (u_handle s, u_ram s) @ fv_rx (fifo (u_dev s))"
  assumes soc: "usart_observer soc" "fifo_device soc fifo" "error_free soc"
    and h: "ring_ok h" "rxState h = kUSART_RxIdle" "rxDataSize h = 0"
    and x: "xfer_dataSize x \<noteq> 0" "xfer_data x \<noteq> 0" "apart (xfer_data x) n (rxRingBuffer h) (ring_size h)"
    and tx: "apart (txData h) (unat (txDataSize h)) (xfer_data x) n"
      "apart (txData h) (unat (txDataSize h)) (rxRingBuffer h) (ring_size h)"
  shows "\<exists>s1 s2. USART_TransferReceiveNonBlocking soc (Some x) s =
             Some (kStatus_Success, Some (of_nat (min n (ring_len h))), s1) \<and>
           USART_TransferHandleIRQ soc s1 = Some s2 \<and>
           mem_bytes (u_ram s2) (xfer_data x) (min n (length input)) = take n input \<and>
           rxState (u_handle s2) = (if n \<le> length input then kUSART_RxIdle else kUSART_RxBusy) \<and>
           fv_rx (fifo (u_dev s2)) = [] \<and> ring_ok (u_handle s2) \<and>
           ring_bytes (u_handle s2, u_ram s2) =
             drop (length (drop n input) - ring_cap (h, u_ram s)) (drop n input)"
proof -
  let ?R = "ring_bytes (h, u_ram s)" and ?q = "fv_rx (fifo (u_dev s))" and ?l = "ring_len h"
  let ?k = "min n ?l" and ?m1 = "mem_write (u_ram s) (xfer_data x) (take (min n (ring_len h)) (ring_bytes (h, u_ram s)))"
  have input: "input = ?R @ ?q" by (simp add: input_def h_def)
  from receive_ring_core [OF soc(1) h(1,2) [unfolded h_def] x [unfolded h_def n_def]] obtain s1 t where
    s1: "USART_TransferReceiveNonBlocking soc (Some x) s = Some (kStatus_Success, Some (of_nat ?k), s1)"
      "u_handle s1 = request_left x ?k (h\<lparr>rxRingBufferTail := t\<rparr>)" "u_ram s1 = ?m1"
      "ring_ok (h\<lparr>rxRingBufferTail := t\<rparr>)" "ring_bytes (h\<lparr>rxRingBufferTail := t\<rparr>, u_ram s) = drop ?k ?R"
      "fifo (u_dev s1) = fifo (u_dev s)"
    unfolding h_def n_def using soc(2) by blast
  let ?h1 = "u_handle s1"
  have left: "ring_ok (request_left x k g) = ring_ok g" "ring_bytes (request_left x k g, m) = ring_bytes (g, m)"
    "rxRingBuffer (request_left x k g) = rxRingBuffer g" "rxRingBufferSize (request_left x k g) = rxRingBufferSize g"
    "txData (request_left x k g) = txData g" "txDataSize (request_left x k g) = txDataSize g" for k g m
    by (simp_all add: request_left_def ring_ok_def ring_bytes_def ring_len_def)
  note b = ring_ok_bounds [OF s1(4)]
  have ring1: "ring_ok ?h1" "ring_bytes (?h1, u_ram s1) = drop ?k ?R" "rxRingBuffer ?h1 = rxRingBuffer h"
    "ring_size ?h1 = ring_size h" "ring_cap (?h1, u_ram s1) = ring_cap (h, u_ram s)"
    "txData ?h1 = txData h" "txDataSize ?h1 = txDataSize h"
    using s1 ring_bytes_write [of "h\<lparr>rxRingBufferTail := t\<rparr>" "xfer_data x" "take ?k ?R" "u_ram s"] b(1)
      apart_mono [OF x(3)] by (simp_all add: left ring_cap_def)
  have n: "n < 2 ^ 32" using unsigned_less [of "xfer_dataSize x", where ?'a = nat] by (simp add: n_def)
  have r1: "unat (rxDataSize ?h1) = n - ?k"
  proof (cases "?k < n")
    case True
    have "unat (of_nat ?k :: u32) = ?k" using n by (simp add: unsigned_of_nat take_bit_nat_eq_self min_less_iff_disj)
    with True show ?thesis by (simp add: s1(2) request_left_def n_def unat_minus_small h(3))
  next
    case False
    then show ?thesis by (simp add: s1(2) request_left_def n_def h(3))
  qed
  have d1: "rxData ?h1 = xfer_data x + of_nat ?k" if "?k < n"
    using that unfolding s1(2) request_left_def n_def [symmetric] by (subst if_P) simp_all
  have ap: "apart a i (rxData ?h1) (unat (rxDataSize ?h1))" if "apart a i (xfer_data x) n" for a i
    using apart_drop [OF that, of ?k] d1 by (cases "?k < n") (simp_all add: r1)
  have "bufs_apart ?h1" using ap [OF tx(1)] tx(2) ring1 by (simp add: bufs_apart_def)
  moreover have "rxRingBuffer ?h1 \<noteq> 0 \<longrightarrow> apart (rxData ?h1) (unat (rxDataSize ?h1)) (rxRingBuffer ?h1) (ring_size ?h1)"
    using apart_sym [OF ap [OF apart_sym [OF x(3)]]] by (simp add: ring1)
  ultimately obtain s2 where s2: "USART_TransferHandleIRQ soc s1 = Some s2"
    "mem_bytes (u_ram s2) (rxData ?h1) (min (n - ?k) (length ?q)) = take (n - ?k) ?q"
    "rxState (u_handle s2) = (if 0 < n - ?k \<and> n - ?k \<le> length ?q then kUSART_RxIdle else rxState ?h1)"
    "fv_rx (fifo (u_dev s2)) = []" "ring_ok (u_handle s2)"
    "ring_bytes (u_handle s2, u_ram s2) =
       drop (length (drop ?k ?R @ drop (n - ?k) ?q) - ring_cap (h, u_ram s)) (drop ?k ?R @ drop (n - ?k) ?q)"
    "\<And>y. \<forall>i < n - ?k. y \<noteq> rxData ?h1 + of_nat i \<Longrightarrow> \<forall>i < ring_size h. y \<noteq> rxRingBuffer h + of_nat i \<Longrightarrow>
         u_ram s2 y = u_ram s1 y"
    using irq_handler_fields [OF soc, of s1] ring1 ring1(1) [unfolded ring_ok_def] r1 s1(6) by auto
  have l: "length ?R = ?l" by simp
  have mem: "mem_bytes (u_ram s2) (xfer_data x) ?k = take ?k ?R"
  proof -
    have "u_ram s2 (xfer_data x + of_nat i) = ?m1 (xfer_data x + of_nat i)" if "i < ?k" for i
      unfolding s1(3) [symmetric]
    proof (rule s2(7))
      show "\<forall>j < n - ?k. xfer_data x + of_nat i \<noteq> rxData ?h1 + of_nat j"
      proof (intro allI impI)
        fix j
        assume j: "j < n - ?k"
        then have "(of_nat i :: u32) \<noteq> of_nat (?k + j)" using that n by (subst of_nat_u32_eq_iff) auto
        then show "xfer_data x + of_nat i \<noteq> rxData ?h1 + of_nat j" using d1 j by (simp add: add.assoc)
      qed
      show "\<forall>j < ring_size h. xfer_data x + of_nat i \<noteq> rxRingBuffer h + of_nat j"
        using that apartD [OF x(3)] by simp
    qed
    then have "mem_bytes (u_ram s2) (xfer_data x) ?k = mem_bytes ?m1 (xfer_data x) ?k"
      by (rule mem_bytes_cong)
    also have "\<dots> = take ?k ?R"
    proof -
      have len: "length (take ?k ?R) = ?k" by (simp add: l)
      have "length (take ?k ?R) \<le> 2 ^ 32" unfolding len using n by simp
      from mem_bytes_write [OF this, of "u_ram s" "xfer_data x"] show ?thesis unfolding len .
    qed
    finally show ?thesis .
  qed
  have "mem_bytes (u_ram s2) (xfer_data x) (min n (length input)) = take n input \<and>
        rxState (u_handle s2) = (if n \<le> length input then kUSART_RxIdle else kUSART_RxBusy)"
  proof (cases "?l < n")
    case True
    then have k: "?k = ?l" by simp
    have "min n (length input) = ?l + min (n - ?l) (length ?q)" using True l by (auto simp: input min_def)
    then show ?thesis using True mem s2(2,3) d1 l
      by (auto simp: k input mem_bytes_append s1(2) request_left_def n_def [symmetric])
  next
    case False
    then show ?thesis using mem s2(3) l by (simp add: input s1(2) request_left_def n_def [symmetric] min_def)
  qed
  moreover have "drop n input = drop ?k ?R @ drop (n - ?k) ?q" using l by (simp add: input min_def)
  ultimately show ?thesis using s1(1) s2(1,4,5,6) by metis
qed

subsection \<open>A concrete device\<close>

text \<open>Its state is the FIFOs; bit 0 of FIFOSTAT is RXNOTEMPTY, bit 1 TXNOTFULL, the other flags are never set.\<close>

primrec example_read :: "usart_reg \<Rightarrow> fifo_view \<Rightarrow> u32 \<times> fifo_view" where
  "example_read U_FIFORD d = (case fv_rx d of [] \<Rightarrow> (0, d) | b # bs \<Rightarrow> (ucast b, d\<lparr>fv_rx := bs\<rparr>))"
| "example_read U_FIFOSTAT d = ((if fv_rx d = [] then 0 else 1) + (if fv_room d = 0 then 0 else 2), d)"
| "example_read U_CFG d = (0, d)" | "example_read U_CTL d = (0, d)" | "example_read U_STAT d = (0, d)"
| "example_read U_INTENSET d = (0, d)" | "example_read U_INTENCLR d = (0, d)" | "example_read U_BRG d = (0, d)"
| "example_read U_OSR d = (0, d)" | "example_read U_INTSTAT d = (0, d)" | "example_read U_ADDR d = (0, d)"
| "example_read U_FIFOCFG d = (0, d)" | "example_read U_FIFOTRIG d = (0, d)" | "example_read U_FIFOINTENSET d = (0, d)"
| "example_read U_FIFOINTENCLR d = (0, d)" | "example_read U_FIFOWR d = (0, d)"
| "example_read U_FIFORXTIMEOUTCFG d = (0, d)" | "example_read U_PSELID d = (0, d)"

definition example_write :: "usart_reg \<Rightarrow> u32 \<Rightarrow> fifo_view \<Rightarrow> fifo_view" where
  "example_write r v d =
     (if r = U_FIFOWR \<and> 0 < fv_room d then d\<lparr>fv_room := fv_room d - 1, fv_sent := fv_sent d @ [ucast v]\<rparr> else d)"

definition usart_example :: "fifo_view usart_soc" where
  "usart_example =
     \<lparr>reg_read = example_read, reg_write = example_write, PSELID = U_PSELID, PSELID_LOCK_MASK = 8,
      PSELID_PERSEL_MASK = 7, HAS_CLOCK_CONTROL = False, HAS_RESET = False, flexcomm_bases = [0x1000],
      flexcomm_cmse = False, CLOCK_EnableClock = \<lambda>i d. d, RESET_PeripheralReset = \<lambda>i d. d,
      umask = (\<lambda>m. if m = FIFOSTAT_RXNOTEMPTY then 1 else if m = FIFOSTAT_TXNOTFULL then 2 else 4),
      ufield = \<lambda>f v. v, FIFOTRIG_TXLVL_SHIFT = 8, FIFOTRIG_RXLVL_SHIFT = 16, FIFOSTAT_TXLVL_SHIFT = 8,
      FIFOSTAT_RXLVL_SHIFT = 16, HAS_FIFORXTIMEOUTCFG = False, UART_RETRY_TIMES = 0, NDEBUG = False,
      usart_bases = [0x1000], usart_cmse = False, usart_EnableIRQ = \<lambda>i d. d, usart_invoke = \<lambda>f st ud s. Some s\<rparr>"

lemma usart_example_observer: "usart_observer usart_example"
  by (simp add: usart_observer_def usart_example_def)

lemma usart_example_fifo: "fifo_device usart_example (\<lambda>d. d)"
proof -
  have "snd (example_read r d) = d" if "r \<noteq> U_FIFORD" for r d
    using that by (cases r) simp_all
  then show ?thesis
    by (auto simp: fifo_device_def usart_example_def example_write_def)
qed

lemma usart_example_error_free: "error_free usart_example"
  by (auto simp: error_free_def usart_example_def)

text \<open>A receive request for two bytes, a ring of four cells that holds one byte, two bytes to send.\<close>

definition example_handle :: usart_handle where
  "example_handle =
     \<lparr>txData = 0x300, txDataSize = 2, txDataSizeAll = 2, rxData = 0x200, rxDataSize = 2, rxDataSizeAll = 2,
      rxRingBuffer = 0x100, rxRingBufferSize = 4, rxRingBufferHead = 1, rxRingBufferTail = 0, callback = None,
      userData = 0, txState = kUSART_TxBusy, rxState = kUSART_RxBusy, txWatermark = 0, rxWatermark = 0\<rparr>"

definition example_state :: "usart_handle \<Rightarrow> fifo_view usart" where
  "example_state h =
     \<lparr>u_dev = \<lparr>fv_rx = [11, 12, 13, 14, 15], fv_room = 1, fv_sent = []\<rparr>, u_handle = h, u_ram = \<lambda>a. ucast a,
      u_primask = 0, u_irqs = \<lparr>s_flexcommIrqHandler = \<lambda>i. None, s_flexcommHandle = \<lambda>i. 0\<rparr>\<rparr>"

lemma example_apart:
  "apart 0x200 2 0x100 4" "apart 0x300 2 0x200 2" "apart 0x300 2 0x100 4"
  by (rule apart_sym, rule apart_ranges, simp_all)+

lemma example_ring: "ring_ok example_handle" "bufs_apart example_handle"
  using example_apart by (simp_all add: ring_ok_def bufs_apart_def example_handle_def)

subsection \<open>Properties\<close>

text \<open>C3: One run of the interrupt handler on an error-free device, with the send buffer apart from the
  receive buffer and the ring: it returns; it queues the next bytes of the send buffer in order,
  as many as the transmit FIFO has room for; the bytes of the receive FIFO go, in order, first to
  the receive request and then to the ring, which keeps the newest ones; a completed request
  becomes idle; no other RAM is written and the interrupt mask is kept.\<close>
theorem irq_transfers:
  fixes s :: "'d usart" and fifo :: "'d \<Rightarrow> fifo_view"
  defines "h \<equiv> u_handle s" and "m \<equiv> u_ram s" and "q \<equiv> fv_rx (fifo (u_dev s))"
    and "r \<equiv> unat (rxDataSize (u_handle s))"
    and "j \<equiv> min (unat (txDataSize (u_handle s))) (fv_room (fifo (u_dev s)))"
  assumes "usart_observer soc" "fifo_device soc fifo" "error_free soc" "bufs_apart h"
    "rxRingBuffer h \<noteq> 0 \<longrightarrow> apart (rxData h) r (rxRingBuffer h) (ring_size h)"
  shows "\<exists>s'. USART_TransferHandleIRQ soc s = Some s' \<and>
    fv_sent (fifo (u_dev s')) = fv_sent (fifo (u_dev s)) @ mem_bytes m (txData h) j \<and>
    unat (txDataSize (u_handle s')) = unat (txDataSize h) - j \<and>
    mem_bytes (u_ram s') (rxData h) (min r (length q)) = take r q \<and>
    unat (rxDataSize (u_handle s')) = r - length q \<and>
    rxState (u_handle s') = (if 0 < r \<and> r \<le> length q then kUSART_RxIdle else rxState h) \<and>
    (rxRingBuffer h = 0 \<longrightarrow> fv_rx (fifo (u_dev s')) = drop r q) \<and>
    (rxRingBuffer h \<noteq> 0 \<longrightarrow> fv_rx (fifo (u_dev s')) = [] \<and> ring_ok (u_handle s') \<and>
       ring_bytes (u_handle s', u_ram s') =
         drop (length (ring_bytes (h, m) @ drop r q) - ring_cap (h, m)) (ring_bytes (h, m) @ drop r q)) \<and>
    (\<forall>x. (\<forall>i < r. x \<noteq> rxData h + of_nat i) \<and>
         (rxRingBuffer h \<noteq> 0 \<longrightarrow> (\<forall>i < ring_size h. x \<noteq> rxRingBuffer h + of_nat i)) \<longrightarrow> u_ram s' x = m x) \<and>
    u_primask s' = u_primask s"
  using irq_handler_fields [OF assms(6-8), of s] assms(9,10) unfolding h_def m_def q_def r_def j_def by blast

theorem irq_transfers_witness:
  "\<exists>s'. USART_TransferHandleIRQ usart_example (example_state example_handle) = Some s' \<and>
     fv_sent (u_dev s') = [0] \<and> mem_bytes (u_ram s') 0x200 2 = [11, 12] \<and> rxState (u_handle s') = kUSART_RxIdle \<and>
     ring_bytes (u_handle s', u_ram s') = [13, 14, 15]"
proof -
  let ?s = "example_state example_handle"
  have h: "u_handle ?s = example_handle" by (simp add: example_state_def)
  have data: "fv_rx (u_dev ?s) = [11, 12, 13, 14, 15]" "fv_room (u_dev ?s) = 1" "fv_sent (u_dev ?s) = []"
    "unat (rxDataSize example_handle) = 2" "unat (txDataSize example_handle) = 2"
    "rxData example_handle = 0x200" "rxRingBuffer example_handle \<noteq> 0" "rxRingBuffer example_handle = 0x100"
    "ring_size example_handle = 4" "mem_bytes (u_ram ?s) (txData example_handle) (Suc 0) = [0]"
    "ring_bytes (example_handle, u_ram ?s) = [0]" "ring_cap (example_handle, u_ram ?s) = 3"
    by (code_simp+)
  show ?thesis
    using irq_transfers [OF usart_example_observer usart_example_fifo usart_example_error_free, of ?s] example_ring(2) example_apart(1)
    unfolding h data by (auto simp: data simp flip: numeral_2_eq_2)
qed

text \<open>C11: A receive request over the ring buffer, followed by a run of the handler: the request gets the
  first bytes of what the ring held followed by what waits in the FIFO, in order and without a
  gap; it is complete exactly when enough bytes were there; what is left over is in the ring, cut
  to the newest bytes when it does not fit.\<close>
theorem receive_stream:
  fixes s :: "'d usart" and fifo :: "'d \<Rightarrow> fifo_view" and x :: usart_transfer
  defines "h \<equiv> u_handle s" and "n \<equiv> unat (xfer_dataSize x)"
    and "input \<equiv> ring_bytes (u_handle s, u_ram s) @ fv_rx (fifo (u_dev s))"
  assumes "usart_observer soc" "fifo_device soc fifo" "error_free soc"
    "ring_ok h" "rxState h = kUSART_RxIdle" "rxDataSize h = 0"
    "xfer_dataSize x \<noteq> 0" "xfer_data x \<noteq> 0" "apart (xfer_data x) n (rxRingBuffer h) (ring_size h)"
    "apart (txData h) (unat (txDataSize h)) (xfer_data x) n"
    "apart (txData h) (unat (txDataSize h)) (rxRingBuffer h) (ring_size h)"
  shows "\<exists>s1 s2. USART_TransferReceiveNonBlocking soc (Some x) s =
             Some (kStatus_Success, Some (of_nat (min n (ring_len h))), s1) \<and>
           USART_TransferHandleIRQ soc s1 = Some s2 \<and>
           mem_bytes (u_ram s2) (xfer_data x) (min n (length input)) = take n input \<and>
           rxState (u_handle s2) = (if n \<le> length input then kUSART_RxIdle else kUSART_RxBusy) \<and>
           fv_rx (fifo (u_dev s2)) = [] \<and> ring_ok (u_handle s2) \<and>
           ring_bytes (u_handle s2, u_ram s2) =
             drop (length (drop n input) - ring_cap (h, u_ram s)) (drop n input)"
  using receive_stream_core [OF assms(4-6), of s x] assms(7-14) unfolding h_def n_def input_def by blast

theorem receive_stream_witness:
  "\<exists>s1 s2. USART_TransferReceiveNonBlocking usart_example (Some \<lparr>xfer_data = 0x200, xfer_dataSize = 2\<rparr>)
      (example_state (example_handle\<lparr>rxState := kUSART_RxIdle, rxDataSize := 0\<rparr>)) =
        Some (kStatus_Success, Some 1, s1) \<and>
     USART_TransferHandleIRQ usart_example s1 = Some s2 \<and> mem_bytes (u_ram s2) 0x200 2 = [0, 11] \<and>
     rxState (u_handle s2) = kUSART_RxIdle \<and> ring_bytes (u_handle s2, u_ram s2) = [13, 14, 15]"
proof -
  let ?h = "example_handle\<lparr>rxState := kUSART_RxIdle, rxDataSize := 0\<rparr>" and ?x = "\<lparr>xfer_data = 0x200, xfer_dataSize = 2\<rparr>"
  let ?s = "example_state ?h"
  have h: "u_handle ?s = ?h" by (simp add: example_state_def)
  have data: "ring_bytes (?h, u_ram ?s) = [0]" "fv_rx (u_dev ?s) = [11, 12, 13, 14, 15]" "ring_cap (?h, u_ram ?s) = 3"
    "ring_len ?h = Suc 0" "unat (xfer_dataSize ?x) = 2" "xfer_data ?x = 0x200" "rxRingBuffer ?h = 0x100" "ring_size ?h = 4"
    "txData ?h = 0x300" "unat (txDataSize ?h) = 2"
    by (code_simp+)
  have ok: "ring_ok ?h" "rxState ?h = kUSART_RxIdle" "rxDataSize ?h = 0" "xfer_dataSize ?x \<noteq> 0" "(0x200 :: u32) \<noteq> 0"
    by (simp_all add: ring_ok_def example_handle_def)
  show ?thesis
    using receive_stream [OF usart_example_observer usart_example_fifo usart_example_error_free, of ?s ?x] ok example_apart
    unfolding h data by (auto simp: data simp flip: numeral_2_eq_2)
qed

end
