(* ===== verification/Usart_Inv.thy ===== *)
theory Usart_Inv
  imports Usart_Stream
begin

text \<open>
  The life of a USART handle: a step relation over the API and the interrupt handler, and the
  invariant that every reachable handle satisfies, whatever the device does; and how creating a
  handle connects it to the interrupt dispatch of the FLEXCOMM.
\<close>

definition usart_wf :: "usart_handle \<Rightarrow> bool" where
  "usart_wf h \<longleftrightarrow>
     (rxDataSize h \<noteq> 0) = (rxState h = kUSART_RxBusy) \<and>
     txDataSize h \<le> txDataSizeAll h \<and> rxDataSize h \<le> rxDataSizeAll h \<and>
     (rxRingBuffer h = 0 \<or> ring_ok h)"

text \<open>What a callback must not do: leave an inconsistent handle, or abort a send that is under way.\<close>

definition callback_ok :: "'d usart_soc \<Rightarrow> bool" where
  "callback_ok soc \<longleftrightarrow>
     (\<forall>f st ud s s'. usart_wf (u_handle s) \<and> usart_invoke soc f st ud s = Some s' \<longrightarrow>
        usart_wf (u_handle s') \<and> (txDataSize (u_handle s) \<noteq> 0 \<longrightarrow> txDataSize (u_handle s') \<noteq> 0))"

inductive usart_reach :: "'d usart_soc \<Rightarrow> 'd usart \<Rightarrow> bool" for soc where
  create: "USART_TransferCreateHandle soc base handle cb ud s = Some (kStatus_Success, s') \<Longrightarrow> usart_reach soc s'"
| send: "usart_reach soc s \<Longrightarrow> USART_TransferSendNonBlocking soc xfer s = Some (st, s') \<Longrightarrow> usart_reach soc s'"
| abort_send: "usart_reach soc s \<Longrightarrow> usart_reach soc (USART_TransferAbortSend soc s)"
| send_count: "usart_reach soc s \<Longrightarrow> USART_TransferGetSendCount soc s = (st, n, s') \<Longrightarrow> usart_reach soc s'"
| receive: "usart_reach soc s \<Longrightarrow> USART_TransferReceiveNonBlocking soc xfer s = Some (st, n, s') \<Longrightarrow> usart_reach soc s'"
| abort_receive: "usart_reach soc s \<Longrightarrow> usart_reach soc (USART_TransferAbortReceive soc s)"
| start_ring: "usart_reach soc s \<Longrightarrow> 0 < sz \<Longrightarrow> sz \<le> 65536 \<Longrightarrow>
    USART_TransferStartRingBuffer soc buf sz s = Some s' \<Longrightarrow> usart_reach soc s'"
| stop_ring: "usart_reach soc s \<Longrightarrow> usart_reach soc (USART_TransferStopRingBuffer soc s)"
| irq: "usart_reach soc s \<Longrightarrow> USART_TransferHandleIRQ soc s = Some s' \<Longrightarrow> usart_reach soc s'"
| environment: "usart_reach soc s \<Longrightarrow> u_handle s' = u_handle s \<Longrightarrow> usart_reach soc s'"

lemma callback_keeps:
  assumes "callback_ok soc" "usart_wf (u_handle s)" "usart_callback soc st s = Some s'"
  shows "usart_wf (u_handle s')" "txDataSize (u_handle s) \<noteq> 0 \<Longrightarrow> txDataSize (u_handle s') \<noteq> 0"
  using assms by (auto simp: usart_callback_def callback_ok_def split: option.splits; blast)+

lemma wf_rx_step:
  assumes "usart_wf h" "rxDataSize h \<noteq> 0"
  shows "usart_wf (h\<lparr>rxDataSize := rxDataSize h - 1, rxData := a,
                     rxState := (if rxDataSize h = 1 then kUSART_RxIdle else rxState h)\<rparr>)"
proof -
  have "rxDataSize h - 1 \<le> rxDataSize h" using assms(2) by (simp add: word_le_nat_alt unat_minus_small unat_gt_0 Suc_le_eq)
  then have "rxDataSize h - 1 \<le> rxDataSizeAll h" using assms(1) by (auto simp: usart_wf_def intro: order_trans)
  with assms show ?thesis by (auto simp: usart_wf_def ring_ok_def)
qed

lemma wf_tx_step:
  assumes "usart_wf h" "txDataSize h \<noteq> 0"
  shows "usart_wf (h\<lparr>txDataSize := txDataSize h - 1, txData := a\<rparr>)"
proof -
  have "txDataSize h - 1 \<le> txDataSize h" using assms(2) by (simp add: word_le_nat_alt unat_minus_small unat_gt_0 Suc_le_eq)
  then have "txDataSize h - 1 \<le> txDataSizeAll h" using assms(1) by (auto simp: usart_wf_def intro: order_trans)
  with assms show ?thesis by (auto simp: usart_wf_def ring_ok_def)
qed

lemma wf_ring_push: "usart_wf h \<Longrightarrow> rxRingBuffer h \<noteq> 0 \<Longrightarrow> usart_wf (fst (ring_push b (h, m)))"
  using ring_push_ok [of "(h, m)" b] by (simp add: usart_wf_def)

lemma wf_tx_state [simp]: "usart_wf (h\<lparr>txState := st\<rparr>) = usart_wf h"
  by (simp add: usart_wf_def ring_ok_def)

text \<open>The error checks and the loop: \<open>sendEnabled\<close> stays true only while bytes are left to send.\<close>

lemma error_check_keeps:
  assumes "callback_ok soc" "usart_wf (u_handle s)" "usart_error_check soc r m e st s = Some s'"
  shows "usart_wf (u_handle s') \<and> (txDataSize (u_handle s) \<noteq> 0 \<longrightarrow> txDataSize (u_handle s') \<noteq> 0)"
proof -
  obtain s1 where "u_handle s1 = u_handle s" "s' = s1 \<or> usart_callback soc st s1 = Some s'"
    using assms(3) by (simp add: usart_error_check_def case_prod_beta Let_def split: if_splits)
      (metis on_udev_simps(2) uread_simps(1))+
  with callback_keeps [OF assms(1), of s1] assms(2) show ?thesis by auto
qed

lemma errors_keep:
  assumes "callback_ok soc" "usart_wf (u_handle s)" "usart_errors soc s = Some s'"
  shows "usart_wf (u_handle s') \<and> (txDataSize (u_handle s) \<noteq> 0 \<longrightarrow> txDataSize (u_handle s') \<noteq> 0)"
  using assms(2,3) error_check_keeps [OF assms(1)]
  by (auto simp: usart_errors_def bind_eq_Some_conv; blast)

lemma ring_receive_keeps:
  assumes "callback_ok soc" "usart_wf (u_handle s)" "usart_ring_receive soc s = Some s'"
  shows "usart_wf (u_handle s') \<and> (txDataSize (u_handle s) \<noteq> 0 \<longrightarrow> txDataSize (u_handle s') \<noteq> 0)"
proof -
  obtain s1 b where s1: "s1 = s \<or> usart_callback soc kStatus_USART_RxRingBufferOverrun s = Some s1"
    "rxRingBuffer (u_handle s1) \<noteq> 0" "u_handle s' = fst (ring_push b (u_handle s1, u_ram s1))"
    using assms(3)
    by (auto simp: usart_ring_receive_def case_prod_beta Let_def bind_eq_Some_conv ring_push_def split: if_splits)
       (auto simp: ring_store_def)
  then have "usart_wf (u_handle s1)" "txDataSize (u_handle s) \<noteq> 0 \<longrightarrow> txDataSize (u_handle s1) \<noteq> 0"
    using callback_keeps [OF assms(1,2)] assms(2) by auto
  with s1(2,3) wf_ring_push show ?thesis by simp
qed

lemma request_receive_keeps:
  assumes "callback_ok soc" "usart_wf (u_handle s)" "rxDataSize (u_handle s) \<noteq> 0"
    "usart_request_receive soc s = Some (re, s')"
  shows "usart_wf (u_handle s') \<and> (txDataSize (u_handle s) \<noteq> 0 \<longrightarrow> txDataSize (u_handle s') \<noteq> 0)"
proof -
  let ?h = "u_handle s"
  obtain s1 where s1: "u_handle s1 = ?h\<lparr>rxDataSize := rxDataSize ?h - 1, rxData := rxData ?h + 1,
      rxState := (if rxDataSize ?h = 1 then kUSART_RxIdle else rxState ?h)\<rparr>"
    "s' = s1 \<or> usart_callback soc kStatus_USART_RxIdle s1 = Some s'"
  proof (cases "rxDataSize ?h = 1")
    case True
    then show ?thesis using assms(4)
      by (cases "rxRingBuffer ?h = 0")
         (auto simp: usart_request_receive_def case_prod_beta Let_def bind_eq_Some_conv intro!: that [rotated, OF disjI2])
  next
    case False
    then show ?thesis using assms(4) that [of s']
      by (auto simp: usart_request_receive_def case_prod_beta Let_def)
  qed
  have "usart_wf (u_handle s1)" unfolding s1(1) by (rule wf_rx_step [OF assms(2,3)])
  with s1 callback_keeps [OF assms(1), of s1] show ?thesis by auto
qed

lemma receive_byte_keeps:
  assumes "callback_ok soc" "usart_wf (u_handle s)" "usart_receive_byte soc re s = Some (re', s')"
  shows "usart_wf (u_handle s') \<and> (txDataSize (u_handle s) \<noteq> 0 \<longrightarrow> txDataSize (u_handle s') \<noteq> 0)"
proof -
  let ?s = "on_udev (reg_clear soc U_CTL (umask soc CTL_ADDRDET)) s"
  show ?thesis using assms request_receive_keeps [OF assms(1), of ?s re' s'] ring_receive_keeps [OF assms(1), of ?s s']
    by (auto simp: usart_receive_byte_def Let_def bind_eq_Some_conv split: if_splits)
qed

lemma poll_handle [simp]: "u_handle (snd (usart_poll soc en m s)) = u_handle s"
  by (simp add: usart_poll_def case_prod_beta Let_def)

lemma cond_handle [simp]: "u_handle (snd (usart_irq_cond soc re se s)) = u_handle s"
  by (simp add: usart_irq_cond_def case_prod_beta Let_def)

lemma poll_disabled [simp]: "fst (usart_poll soc False m s) = False"
  by (simp add: usart_poll_def)

lemma send_byte_keeps:
  assumes "usart_wf (u_handle s)" "txDataSize (u_handle s) \<noteq> 0"
  shows "usart_wf (u_handle (snd (usart_send_byte soc s)))"
    "fst (usart_send_byte soc s) \<Longrightarrow> txDataSize (u_handle (snd (usart_send_byte soc s))) \<noteq> 0"
  using wf_tx_step [OF assms, of "txData (u_handle s) + 1"]
  by (cases "txDataSize (u_handle s) = 1"; simp add: usart_send_byte_def Let_def)+

lemma irq_body_keeps:
  assumes "callback_ok soc" "usart_wf (u_handle s)" "se \<longrightarrow> txDataSize (u_handle s) \<noteq> 0"
    "usart_irq_body soc re se s = Some (re', se', s')"
  shows "usart_wf (u_handle s') \<and> (se' \<longrightarrow> txDataSize (u_handle s') \<noteq> 0)"
proof -
  let ?p = "usart_poll soc re FIFOSTAT_RXNOTEMPTY s"
  define F where "F s1 = (if fst (usart_poll soc se FIFOSTAT_TXNOTFULL s1)
                  then usart_send_byte soc (snd (usart_poll soc se FIFOSTAT_TXNOTFULL s1))
                  else (se, snd (usart_poll soc se FIFOSTAT_TXNOTFULL s1)))" for s1
  have "usart_irq_body soc re se s =
          (if fst ?p then usart_receive_byte soc re (snd ?p) else Some (re, snd ?p)) \<bind> (\<lambda>x. Some (fst x, F (snd x)))"
    by (simp add: usart_irq_body_def F_def case_prod_unfold Let_def)
  with assms(4) obtain s1 where
    s1: "(if fst ?p then usart_receive_byte soc re (snd ?p) else Some (re, snd ?p)) = Some (re', s1)" "F s1 = (se', s')"
    by (auto simp: bind_eq_Some_conv split del: if_split)
  have 1: "usart_wf (u_handle s1) \<and> (se \<longrightarrow> txDataSize (u_handle s1) \<noteq> 0)"
    using s1(1) receive_byte_keeps [OF assms(1), of "snd ?p" re re' s1] assms(2,3) by (auto split: if_splits)
  show ?thesis
  proof (cases "fst (usart_poll soc se FIFOSTAT_TXNOTFULL s1)")
    case True
    then have "se" by (cases se) simp_all
    with 1 s1(2) True send_byte_keeps [of "snd (usart_poll soc se FIFOSTAT_TXNOTFULL s1)" soc] show ?thesis
      by (auto simp: F_def)
  next
    case False
    with s1(2) 1 show ?thesis by (auto simp: F_def)
  qed
qed

lemma irq_loop_keeps:
  "usart_irq_loop soc re se s = Some s' \<Longrightarrow> callback_ok soc \<Longrightarrow> usart_wf (u_handle s) \<Longrightarrow>
   (se \<longrightarrow> txDataSize (u_handle s) \<noteq> 0) \<Longrightarrow> usart_wf (u_handle s')"
proof (induction soc re se s s' rule: usart_irq_loop.raw_induct [rotated, consumes 1])
  case (1 loop soc re se s s')
  show ?case
  proof (cases "fst (usart_irq_cond soc re se s)")
    case False
    with 1 show ?thesis by (auto simp: case_prod_beta Let_def)
  next
    case True
    with "1.hyps" obtain re' se' s1 where
      b: "usart_irq_body soc re se (snd (usart_irq_cond soc re se s)) = Some (re', se', s1)" "loop soc re' se' s1 = Some s'"
      by (auto simp: case_prod_beta Let_def bind_eq_Some_conv)
    from irq_body_keeps [OF "1.prems"(1) _ _ b(1)] 1 b(2) show ?thesis by auto
  qed
qed

lemma tx_idle_cases:
  assumes "usart_tx_idle soc s = Some s'"
  obtains s1 where "u_handle s1 = u_handle s \<or> u_handle s1 = (u_handle s)\<lparr>txState := kUSART_TxIdle\<rparr>"
    "s' = s1 \<or> usart_callback soc kStatus_USART_TxIdle s1 = Some s'"
proof -
  define p where "p = (if 0 \<noteq> fst (uread soc U_INTENSET s) AND umask soc INTENSET_TXIDLEEN then
                        let (st, s) = uread soc U_INTSTAT (snd (uread soc U_INTENSET s)) in (0 \<noteq> st AND umask soc INTSTAT_TXIDLE, s)
                      else (False, snd (uread soc U_INTENSET s)))"
  let ?s2 = "on_udev (reg_write soc U_INTENCLR (umask soc INTENCLR_TXIDLECLR))
               (on_handle (\<lambda>h. h\<lparr>txState := kUSART_TxIdle\<rparr>) (snd p))"
  have h: "u_handle (snd p) = u_handle s" by (simp add: p_def case_prod_beta Let_def)
  have "usart_tx_idle soc s = (if fst p then usart_callback soc kStatus_USART_TxIdle ?s2 else Some (snd p))"
    unfolding usart_tx_idle_def p_def
    by (cases "fst (reg_read soc U_INTENSET (u_dev s)) AND umask soc INTENSET_TXIDLEEN = 0")
       (simp_all add: case_prod_beta Let_def)
  with assms h that [of "snd p"] that [of ?s2] show ?thesis by (auto split: if_splits)
qed

lemma irq_keeps:
  assumes "callback_ok soc" "usart_wf (u_handle s)" "USART_TransferHandleIRQ soc s = Some s'"
  shows "usart_wf (u_handle s')"
proof -
  obtain s1 s2 s3 where s: "usart_errors soc s = Some s1"
    "usart_irq_loop soc (rxDataSize (u_handle s) \<noteq> 0 \<or> rxRingBuffer (u_handle s) \<noteq> 0) (txDataSize (u_handle s) \<noteq> 0) s1 = Some s2"
    "usart_tx_idle soc s2 = Some s3" "u_handle s' = u_handle s3"
    using assms(3) by (auto simp: USART_TransferHandleIRQ_def Let_def bind_eq_Some_conv)
  from errors_keep [OF assms(1,2) s(1)] have "usart_wf (u_handle s2)" using irq_loop_keeps [OF s(2) assms(1)] by blast
  then obtain s4 where "usart_wf (u_handle s4)" "s3 = s4 \<or> usart_callback soc kStatus_USART_TxIdle s4 = Some s3"
    using tx_idle_cases [OF s(3)] by (metis wf_tx_state)
  with callback_keeps(1) [OF assms(1), of s4] s(4) show ?thesis by auto
qed

lemma send_keeps: "usart_wf (u_handle s) \<Longrightarrow> USART_TransferSendNonBlocking soc xfer s = Some (st, s') \<Longrightarrow> usart_wf (u_handle s')"
  by (auto simp: USART_TransferSendNonBlocking_def case_prod_beta Let_def usart_wf_def ring_ok_def split: option.splits if_splits)

lemma wf_request_left:
  assumes "txDataSize h \<le> txDataSizeAll h" "rxDataSize h = 0" "ring_ok (h\<lparr>rxRingBufferTail := t\<rparr>)"
  shows "usart_wf (request_left x k (h\<lparr>rxRingBufferTail := t\<rparr>))"
proof (cases "k < unat (xfer_dataSize x)")
  case True
  have "unat (of_nat k :: u32) = k"
    using True unsigned_less [of "xfer_dataSize x", where ?'a = nat] by (simp add: unsigned_of_nat take_bit_nat_eq_self)
  then have "unat (xfer_dataSize x - of_nat k) = unat (xfer_dataSize x) - k" using True by (simp add: unat_minus_small)
  then have "xfer_dataSize x - of_nat k \<noteq> 0" "xfer_dataSize x - of_nat k \<le> xfer_dataSize x"
    using True by (auto simp: word_le_nat_alt)
  with True assms show ?thesis by (simp add: usart_wf_def request_left_def ring_ok_def)
next
  case False
  with assms show ?thesis by (simp add: usart_wf_def request_left_def ring_ok_def)
qed

lemma ring_copy_handle:
  "ring_ok h \<Longrightarrow> \<exists>t. fst (usart_ring_copy dst n (h, m)) = h\<lparr>rxRingBufferTail := t\<rparr> \<and> ring_ok (h\<lparr>rxRingBufferTail := t\<rparr>)"
proof (induction n arbitrary: dst h m)
  case 0
  then show ?case by (intro exI [of _ "rxRingBufferTail h"]) simp
next
  case (Suc n)
  let ?h = "ring_inc_tail h"
  from Suc.IH [OF ring_inc_ok(1) [OF Suc.prems]] obtain t where
    "fst (usart_ring_copy (dst + 1) n (?h, m(dst := m (rxRingBuffer h + ucast (rxRingBufferTail h))))) = ?h\<lparr>rxRingBufferTail := t\<rparr>"
    "ring_ok (?h\<lparr>rxRingBufferTail := t\<rparr>)" by blast
  moreover have "?h\<lparr>rxRingBufferTail := t\<rparr> = h\<lparr>rxRingBufferTail := t\<rparr>" by (simp add: ring_inc_tail_def)
  ultimately show ?case by (intro exI [of _ t]) (simp add: ring_pop_def)
qed

lemma receive_ring_keeps:
  assumes "ring_ok (u_handle s)" "rxDataSize (u_handle s) = 0" "txDataSize (u_handle s) \<le> txDataSizeAll (u_handle s)"
    "rxState (u_handle s) = kUSART_RxBusy"
  shows "usart_wf (u_handle (snd (snd (usart_receive_ring x s))))"
proof -
  let ?h = "u_handle s" and ?n = "xfer_dataSize x" and ?l = "USART_TransferGetRxRingBufferLength (u_handle s)"
  obtain t where t: "fst (usart_ring_copy (xfer_data x) (unat (min ?n ?l)) (?h, u_ram s)) = ?h\<lparr>rxRingBufferTail := t\<rparr>"
    "ring_ok (?h\<lparr>rxRingBufferTail := t\<rparr>)" using ring_copy_handle [OF assms(1)] by blast
  let ?k = "min ?n ?l"
  have left: "(?n - ?k \<noteq> 0) = (unat ?k < unat ?n)" by (auto simp: min_def word_le_nat_alt)
  have busy: "rxState h = kUSART_RxBusy \<Longrightarrow> h\<lparr>rxState := kUSART_RxBusy\<rparr> = h" for h :: usart_handle
    by (cases h) simp
  have "\<exists>k t. u_handle (snd (snd (usart_receive_ring x s))) = request_left x k (?h\<lparr>rxRingBufferTail := t\<rparr>) \<and>
          ring_ok (?h\<lparr>rxRingBufferTail := t\<rparr>)"
  proof (cases "?l = 0")
    case True
    then show ?thesis using assms(1,4)
      by (intro exI [of _ 0] exI [of _ "rxRingBufferTail ?h"])
         (simp add: usart_receive_ring_def Let_def request_left_def busy unat_gt_0)
  next
    case False
    then show ?thesis using t left assms(4)
      by (intro exI [of _ "unat ?k"] exI [of _ t])
         (simp add: usart_receive_ring_def Let_def case_prod_beta request_left_def busy)
  qed
  then show ?thesis using wf_request_left [OF assms(3,2)] by auto
qed

lemma receive_start_keeps:
  assumes "callback_ok soc" "usart_wf (u_handle s)" "rxState (u_handle s) = kUSART_RxIdle" "xfer_dataSize x \<noteq> 0"
    "usart_receive_start soc p x s = Some (st, n, s')"
  shows "usart_wf (u_handle s')"
proof -
  let ?h = "u_handle s"
  define s1 where "s1 = usart_mask_interrupts soc p (on_handle (\<lambda>h. h\<lparr>rxState := kUSART_RxBusy\<rparr>) s)"
  define s2 where "s2 = (if rxRingBuffer (u_handle (snd s1)) \<noteq> 0 then usart_receive_ring x (snd s1)
      else (0, xfer_dataSize x,
            on_udev (reg_write soc U_FIFOINTENSET (umask soc FIFOINTENSET_RXLVL))
             (on_handle (\<lambda>h. h\<lparr>rxData := xfer_data x + 0, rxDataSize := xfer_dataSize x,
                               rxDataSizeAll := xfer_dataSize x\<rparr>) (snd s1))))"
  define s3 where "s3 = on_udev (USART_EnableInterrupts soc (fst s1)) (snd (snd s2))"
  have h1: "u_handle (snd s1) = ?h\<lparr>rxState := kUSART_RxBusy\<rparr>" by (simp add: s1_def)
  have wf: "usart_wf (u_handle s3)"
  proof (cases "rxRingBuffer ?h = 0")
    case True
    then show ?thesis using assms(2,4) by (simp add: s3_def s2_def h1 usart_wf_def)
  next
    case False
    then show ?thesis using assms(2,3) receive_ring_keeps [of "snd s1" x]
      by (auto simp: s3_def s2_def h1 usart_wf_def ring_ok_def)
  qed
  have "usart_receive_start soc p x s =
      (if rxRingBuffer (u_handle s3) \<noteq> 0 \<and> fst (snd s2) = 0 then usart_callback soc kStatus_USART_RxIdle s3 else Some s3)
      \<bind> (\<lambda>s. Some (kStatus_Success, Some (fst s2), s))"
    unfolding usart_receive_start_def Let_def case_prod_beta s1_def s2_def s3_def by (rule refl)
  with assms(5) have "(if rxRingBuffer (u_handle s3) \<noteq> 0 \<and> fst (snd s2) = 0
      then usart_callback soc kStatus_USART_RxIdle s3 else Some s3) = Some s'"
    by (auto simp: bind_eq_Some_conv split del: if_split)
  with wf callback_keeps(1) [OF assms(1)] show ?thesis by (auto split: if_splits)
qed

lemma receive_keeps:
  assumes "callback_ok soc" "usart_wf (u_handle s)" "USART_TransferReceiveNonBlocking soc xfer s = Some (st, n, s')"
  shows "usart_wf (u_handle s')"
proof -
  have "rxState h = kUSART_RxIdle" if "kUSART_RxBusy \<noteq> rxState h" for h using that by (cases "rxState h") simp_all
  then have start: "usart_wf (u_handle s')" if "usart_receive_start soc p x s1 = Some (st, n, s')" "xfer_dataSize x \<noteq> 0"
    "kUSART_RxBusy \<noteq> rxState (u_handle s)" "u_handle s1 = u_handle s" for p x s1
    using receive_start_keeps [OF assms(1) _ _ that(2,1)] assms(2) that(3,4) by metis
  show ?thesis using assms(2,3)
    by (auto simp: USART_TransferReceiveNonBlocking_def case_prod_beta Let_def dest: start
          split: option.splits if_splits)
qed

lemma reach_wf_core:
  assumes "callback_ok soc" "usart_reach soc s"
  shows "usart_wf (u_handle s)"
  using assms(2)
proof (induction rule: usart_reach.induct)
  case (create base handle cb ud s s')
  then show ?case
    by (auto simp: USART_TransferCreateHandle_def case_prod_beta Let_def bind_eq_Some_conv usart_wf_def status_defs split: if_splits)
next
  case (send s xfer st s')
  then show ?case using send_keeps by blast
next
  case (abort_send s)
  then show ?case by (auto simp: USART_TransferAbortSend_def Let_def usart_wf_def ring_ok_def)
next
  case (send_count s st n s')
  then show ?case by (auto simp: USART_TransferGetSendCount_def case_prod_beta Let_def split: if_splits)
next
  case (receive s xfer st n s')
  then show ?case using receive_keeps [OF assms(1)] by blast
next
  case (abort_receive s)
  then show ?case by (auto simp: USART_TransferAbortReceive_def Let_def usart_wf_def ring_ok_def)
next
  case (start_ring s sz buf s')
  then show ?case
    by (auto simp: USART_TransferStartRingBuffer_def Let_def usart_wf_def ring_ok_def)
next
  case (stop_ring s)
  then show ?case by (simp add: USART_TransferStopRingBuffer_def Let_def usart_wf_def)
next
  case (irq s s')
  then show ?case using irq_keeps [OF assms(1)] by blast
next
  case (environment s s')
  then show ?case by simp
qed

subsection \<open>Properties\<close>

text \<open>C12: Every handle that the API calls, the interrupt handler and well-behaved callbacks can produce, on
  any device, is well-formed: a receive is busy exactly while bytes are missing, the remaining
  counts never exceed the size of their transfer (so the counts reported by GetSendCount and
  GetReceiveCount do not wrap), and an installed ring buffer has its head and tail inside it.\<close>
theorem usart_reachable_wf:
  assumes "callback_ok soc" "usart_reach soc s"
  shows "usart_wf (u_handle s)"
  using assms by (rule reach_wf_core)

theorem usart_reachable_wf_witness:
  "\<exists>s' s2. USART_TransferCreateHandle usart_example 0x1000 0x2000 None 0 (example_state example_handle) = Some (kStatus_Success, s') \<and>
     USART_TransferSendNonBlocking usart_example (Some \<lparr>xfer_data = 0x300, xfer_dataSize = 3\<rparr>) s' = Some (kStatus_Success, s2) \<and>
     txDataSize (u_handle s2) = 3 \<and> usart_wf (u_handle s2)"
proof -
  have cb: "callback_ok usart_example"
    unfolding callback_ok_def by (simp add: usart_example_def)
  obtain s' where s': "USART_TransferCreateHandle usart_example 0x1000 0x2000 None 0 (example_state example_handle) =
      Some (kStatus_Success, s')" "txState (u_handle s') = kUSART_TxIdle"
    by (simp add: USART_TransferCreateHandle_def USART_GetInstance_def FLEXCOMM_SetIRQHandler_def FLEXCOMM_GetInstance_def
          usart_example_def case_prod_beta Let_def)
  then obtain s2 where s2: "USART_TransferSendNonBlocking usart_example (Some \<lparr>xfer_data = 0x300, xfer_dataSize = 3\<rparr>) s' =
      Some (kStatus_Success, s2)" "txDataSize (u_handle s2) = 3"
    by (simp add: USART_TransferSendNonBlocking_def case_prod_beta Let_def)
  have "usart_reach usart_example s2" using s' s2 by (blast intro: usart_reach.create usart_reach.send)
  from usart_reachable_wf [OF cb this] s' s2 show ?thesis by blast
qed

text \<open>
  A device that reports a receive error until a byte has been sent, and a callback that aborts the
  send when an error is reported.
\<close>

definition error_read :: "usart_reg \<Rightarrow> fifo_view \<Rightarrow> u32 \<times> fifo_view" where
  "error_read r d =
     (let (v, d) = example_read r d in (if r = U_FIFOSTAT \<and> fv_sent d = [] then v OR 8 else v, d))"

definition usart_abort_example :: "fifo_view usart_soc" where
  "usart_abort_example = usart_example
     \<lparr>reg_read := error_read,
      umask := (\<lambda>m. if m = FIFOSTAT_RXNOTEMPTY then 1 else if m = FIFOSTAT_TXNOTFULL then 2
                    else if m = FIFOSTAT_RXERR then 8 else 4),
      usart_invoke := (\<lambda>f st ud s. if st = kStatus_USART_RxError then Some (USART_TransferAbortSend usart_example s)
                                   else Some s)\<rparr>"

lemmas irq_loop_unfolds =
  usart_irq_cond_def usart_irq_body_def usart_poll_def usart_send_byte_def uread_def on_udev_def on_handle_def
  case_prod_beta Let_def error_read_def example_write_def

text \<open>
  The handler decides whether to send before it runs the error callbacks and does not look again. On a
  two-byte send whose error callback aborts it, one more byte of the aborted transfer is sent and the
  remaining count wraps to \<open>0xFFFFFFFF\<close>, with the transmitter reported idle.
\<close>

lemma abort_in_error_callback:
  "\<exists>s'. USART_TransferHandleIRQ usart_abort_example
          (example_state (example_handle\<lparr>callback := Some 0, rxDataSize := 0, rxRingBuffer := 0, rxState := kUSART_RxIdle\<rparr>)) =
        Some s' \<and>
        fv_sent (u_dev s') = [0] \<and> txDataSize (u_handle s') = 0xFFFFFFFF \<and> txState (u_handle s') = kUSART_TxIdle"
  apply (simp add: USART_TransferHandleIRQ_def usart_errors_def usart_error_check_def usart_callback_def irq_loop_unfolds
      usart_abort_example_def example_state_def example_handle_def usart_example_def reg_set_def
      usart_status_defs status_defs USART_TransferAbortSend_def USART_DisableInterrupts_def)
  apply (subst usart_irq_loop.simps)
  apply (simp add: irq_loop_unfolds)
  apply (subst usart_irq_loop.simps)
  apply (simp add: irq_loop_unfolds usart_tx_idle_def usart_rx_level_def USART_FIFOTRIG_RXLVL_GET_def)
  done

text \<open>C32: Creating a handle connects it to the interrupt dispatch: afterwards the interrupt of that
  FLEXCOMM instance runs the USART handler on this handle, with the base address of the table
  that is the same peripheral, and the interrupts of all other instances reach what they
  reached before.\<close>
theorem create_handle_dispatch:
  assumes "USART_TransferCreateHandle soc base handle cb ud s = Some (kStatus_Success, s')"
  shows "(\<exists>b \<in> set (flexcomm_bases soc).
            MSDK_REG_SECURE_ADDR (flexcomm_cmse soc) b = MSDK_REG_SECURE_ADDR (flexcomm_cmse soc) base \<and>
            (\<forall>(call :: usart_irq_handler \<Rightarrow> u32 \<Rightarrow> u32 \<Rightarrow> 's \<Rightarrow> 's option) t.
               FLEXCOMM_DriverIRQHandler soc call (u_irqs s') base t = call USART_Handler b handle t)) \<and>
         (\<forall>flexcomm (call :: usart_irq_handler \<Rightarrow> u32 \<Rightarrow> u32 \<Rightarrow> 's \<Rightarrow> 's option) t.
            FLEXCOMM_GetInstance soc flexcomm \<noteq> FLEXCOMM_GetInstance soc base \<longrightarrow>
            FLEXCOMM_DriverIRQHandler soc call (u_irqs s') flexcomm t = FLEXCOMM_DriverIRQHandler soc call (u_irqs s) flexcomm t)"
proof -
  let ?i = "find_base (flexcomm_cmse soc) (flexcomm_bases soc) base"
  have i: "?i < length (flexcomm_bases soc)" "FLEXCOMM_GetInstance soc base = Some ?i"
    "s_flexcommIrqHandler (u_irqs s') = (s_flexcommIrqHandler (u_irqs s))(?i := Some USART_Handler)"
    "s_flexcommHandle (u_irqs s') = (s_flexcommHandle (u_irqs s))(?i := handle)"
    using assms by (auto simp: USART_TransferCreateHandle_def FLEXCOMM_SetIRQHandler_def FLEXCOMM_GetInstance_def
        case_prod_beta Let_def bind_eq_Some_conv status_defs split: if_splits)
  have "FLEXCOMM_DriverIRQHandler soc call (u_irqs s') base t = call USART_Handler (flexcomm_bases soc ! ?i) handle t"
    for call :: "usart_irq_handler \<Rightarrow> u32 \<Rightarrow> u32 \<Rightarrow> 's \<Rightarrow> 's option" and t
    using i by (simp add: FLEXCOMM_DriverIRQHandler_def)
  moreover have "FLEXCOMM_DriverIRQHandler soc call (u_irqs s') flexcomm t = FLEXCOMM_DriverIRQHandler soc call (u_irqs s) flexcomm t"
    if "FLEXCOMM_GetInstance soc flexcomm \<noteq> FLEXCOMM_GetInstance soc base"
    for flexcomm and call :: "usart_irq_handler \<Rightarrow> u32 \<Rightarrow> u32 \<Rightarrow> 's \<Rightarrow> 's option" and t
    using that i(2-4) by (cases "FLEXCOMM_GetInstance soc flexcomm") (simp_all add: FLEXCOMM_DriverIRQHandler_def)
  ultimately show ?thesis using find_base_hit [OF i(1)] nth_mem [OF i(1)] by blast
qed

text \<open>Two instances; the first one gets the USART, the second one has the handler 7.\<close>

theorem create_handle_dispatch_witness:
  "\<exists>s'. USART_TransferCreateHandle (usart_example\<lparr>flexcomm_bases := [0x1000, 0x5000]\<rparr>) 0x1000 0x2000 None 0
           (example_state example_handle\<lparr>u_irqs := \<lparr>s_flexcommIrqHandler = \<lambda>i. Some (Other_Handler 7), s_flexcommHandle = \<lambda>i. 0\<rparr>\<rparr>) =
           Some (kStatus_Success, s') \<and>
     FLEXCOMM_DriverIRQHandler (usart_example\<lparr>flexcomm_bases := [0x1000, 0x5000]\<rparr>) (\<lambda>f b h t. Some [(f, h)]) (u_irqs s') 0x1000 [] =
       Some [(USART_Handler, 0x2000)] \<and>
     FLEXCOMM_DriverIRQHandler (usart_example\<lparr>flexcomm_bases := [0x1000, 0x5000]\<rparr>) (\<lambda>f b h t. Some [(f, h)]) (u_irqs s') 0x5000 [] =
       Some [(Other_Handler 7, 0)]"
proof -
  let ?soc = "usart_example\<lparr>flexcomm_bases := [0x1000, 0x5000]\<rparr>"
    and ?q = "\<lparr>s_flexcommIrqHandler = \<lambda>i. Some (Other_Handler 7), s_flexcommHandle = \<lambda>i. 0\<rparr> :: (usart_irq_handler, u32) flexcomm_irqs"
  let ?s = "example_state example_handle\<lparr>u_irqs := ?q\<rparr>"
  obtain s' where s': "USART_TransferCreateHandle ?soc 0x1000 0x2000 None 0 ?s = Some (kStatus_Success, s')"
    by (simp add: USART_TransferCreateHandle_def USART_GetInstance_def FLEXCOMM_SetIRQHandler_def FLEXCOMM_GetInstance_def
          usart_example_def case_prod_beta Let_def)
  have i: "FLEXCOMM_GetInstance ?soc 0x1000 = Some 0" "FLEXCOMM_GetInstance ?soc 0x5000 = Some (Suc 0)"
    by (simp_all add: FLEXCOMM_GetInstance_def MSDK_REG_SECURE_ADDR_def usart_example_def)
  have "FLEXCOMM_DriverIRQHandler ?soc (\<lambda>f b h t. Some [(f, h)]) ?q 0x5000 [] = Some [(Other_Handler 7, 0)]"
    using i(2) by (simp add: FLEXCOMM_DriverIRQHandler_def)
  moreover note create_handle_dispatch [OF s', where ?'s = "(usart_irq_handler \<times> u32) list"]
  moreover have "u_irqs ?s = ?q" by simp
  ultimately have "FLEXCOMM_DriverIRQHandler ?soc (\<lambda>f b h t. Some [(f, h)]) (u_irqs s') 0x1000 [] = Some [(USART_Handler, 0x2000)] \<and>
      FLEXCOMM_DriverIRQHandler ?soc (\<lambda>f b h t. Some [(f, h)]) (u_irqs s') 0x5000 [] = Some [(Other_Handler 7, 0)]"
    using i by (metis nat.distinct(1) option.inject)
  with s' show ?thesis by blast
qed

end
