(* ===== verification/Usart_Blocking.thy ===== *)
theory Usart_Blocking
  imports Usart_Stream
begin

text \<open>
  The blocking transfers of the USART (\<open>USART_WriteBlocking\<close>, \<open>USART_ReadBlocking\<close>) when
  \<open>UART_RETRY_TIMES\<close> bounds their wait loops: they return, and what they moved when they do.
\<close>

subsection \<open>Waiting for a flag\<close>

lemma usart_wait_returns:
  assumes "UART_RETRY_TIMES soc \<noteq> 0" "w \<noteq> 0"
  shows "\<exists>w' d'. usart_wait soc r m w d = Some (w', d')"
  using assms(2)
proof (induction "unat w" arbitrary: w d rule: less_induct)
  case less
  show ?case
  proof (cases "fst (reg_read soc r d) AND umask soc m = 0 \<and> w - 1 \<noteq> 0")
    case True
    have "unat (w - 1) < unat w" using less.prems by (simp add: unat_minus_small unat_gt_0 Suc_le_eq)
    with less.hyps True assms(1) show ?thesis
      by (subst usart_wait.simps) (auto simp: case_prod_beta Let_def)
  next
    case False
    then show ?thesis using assms(1) by (subst usart_wait.simps) (auto simp: case_prod_beta Let_def)
  qed
qed

lemma usart_wait_keeps:
  assumes "usart_wait soc r m w d = Some (w', d')" "\<And>d. P d \<Longrightarrow> P (snd (reg_read soc r d))" "P d"
  shows "P d'"
proof -
  have "usart_wait soc r m w d = Some x \<Longrightarrow> P d \<Longrightarrow> (\<And>d. P d \<Longrightarrow> P (snd (reg_read soc r d))) \<Longrightarrow> P (snd x)" for x
  proof (induction soc r m w d x rule: usart_wait.raw_induct [rotated, consumes 1])
    case (1 loop soc r m w d x)
    then show ?case by (auto simp: case_prod_beta Let_def split: if_splits)
  qed
  with assms show ?thesis by force
qed

lemma usart_wait_set:
  "fst (reg_read soc r d) AND umask soc m \<noteq> 0 \<Longrightarrow> usart_wait soc r m w d = Some (w, snd (reg_read soc r d))"
  by (subst usart_wait.simps) (simp add: case_prod_beta Let_def)

lemma usart_wait_timeout:
  assumes "UART_RETRY_TIMES soc \<noteq> 0" "w \<noteq> 0" "P d"
    "\<And>d. P d \<Longrightarrow> fst (reg_read soc r d) AND umask soc m = 0 \<and> P (snd (reg_read soc r d))"
  shows "\<exists>d'. usart_wait soc r m w d = Some (0, d') \<and> P d'"
  using assms(2,3)
proof (induction "unat w" arbitrary: w d rule: less_induct)
  case less
  have "unat (w - 1) < unat w" using less.prems by (simp add: unat_minus_small unat_gt_0 Suc_le_eq)
  with less assms(1,4) show ?case by (subst usart_wait.simps) (auto simp: case_prod_beta Let_def)
qed

subsection \<open>Blocking transfers\<close>

text \<open>The bytes written to FIFOWR so far.\<close>

definition write_log :: "'d usart_soc \<Rightarrow> ('d \<Rightarrow> u8 list) \<Rightarrow> bool" where
  "write_log soc log \<longleftrightarrow>
     (\<forall>r d. log (snd (reg_read soc r d)) = log d) \<and>
     (\<forall>v d. log (reg_write soc U_FIFOWR v d) = log d @ [ucast v])"

lemma write_logD:
  "write_log soc log \<Longrightarrow> log (snd (reg_read soc r d)) = log d"
  "write_log soc log \<Longrightarrow> log (reg_write soc U_FIFOWR v d) = log d @ [ucast v]"
  by (simp_all add: write_log_def)

lemma wait_log:
  assumes "write_log soc log" "usart_wait soc r m w d = Some (w', d')"
  shows "log d' = log d"
  using usart_wait_keeps [OF assms(2), of "\<lambda>x. log x = log d"] write_logD(1) [OF assms(1)] by simp

lemma write_loop_log:
  assumes "write_log soc log" "UART_RETRY_TIMES soc \<noteq> 0"
  shows "\<exists>ok d' k. usart_write_loop soc ram data n d = Some (ok, d') \<and> k \<le> n \<and> (ok \<longrightarrow> k = n) \<and>
           log d' = log d @ mem_bytes ram data k"
proof (induction n arbitrary: data d)
  case (Suc n)
  obtain w d1 where w: "usart_wait soc U_FIFOSTAT FIFOSTAT_TXNOTFULL (UART_RETRY_TIMES soc) d = Some (w, d1)"
    using usart_wait_returns [OF assms(2,2)] by blast
  note log1 = wait_log [OF assms(1) w]
  show ?case
  proof (cases "w = 0")
    case True
    then show ?thesis using w log1 assms(2) by (intro exI [of _ False] exI [of _ d1] exI [of _ 0]) simp
  next
    case False
    let ?d = "reg_write soc U_FIFOWR (ucast (ram data)) d1"
    from Suc.IH [of "data + 1" ?d] obtain ok d' k where
      "usart_write_loop soc ram (data + 1) n ?d = Some (ok, d')" "k \<le> n" "ok \<longrightarrow> k = n"
      "log d' = log ?d @ mem_bytes ram (data + 1) k" by blast
    then show ?thesis using w False log1 write_logD(2) [OF assms(1)]
      by (intro exI [of _ ok] exI [of _ d'] exI [of _ "Suc k"]) (simp add: mem_bytes_Cons)
  qed
qed auto

lemma write_blocking_core:
  assumes "write_log soc log" "UART_RETRY_TIMES soc \<noteq> 0" "data \<noteq> 0"
  shows "\<exists>st d' k. USART_WriteBlocking soc data len ram d = Some (st, d') \<and> k \<le> unat len \<and>
           log d' = log d @ mem_bytes ram data k \<and>
           (st = kStatus_Success \<and> k = unat len \<or> st = kStatus_USART_Timeout \<or> st = kStatus_InvalidArgument \<and> k = 0)"
proof -
  let ?d1 = "snd (reg_read soc U_FIFOCFG d)"
  obtain ok d2 k where l: "usart_write_loop soc ram data (unat len) ?d1 = Some (ok, d2)" "k \<le> unat len"
    "ok \<longrightarrow> k = unat len" "log d2 = log d @ mem_bytes ram data k"
    using write_loop_log [OF assms(1,2), of ram data "unat len" ?d1] write_logD(1) [OF assms(1)] by auto
  obtain w d3 where w: "usart_wait soc U_STAT STAT_TXIDLE (UART_RETRY_TIMES soc) d2 = Some (w, d3)"
    using usart_wait_returns [OF assms(2,2)] by blast
  note log3 = wait_log [OF assms(1) w]
  consider "0 = fst (reg_read soc U_FIFOCFG d) AND umask soc FIFOCFG_ENABLETX" | "0 \<noteq> fst (reg_read soc U_FIFOCFG d) AND umask soc FIFOCFG_ENABLETX" "\<not> ok"
    | "0 \<noteq> fst (reg_read soc U_FIFOCFG d) AND umask soc FIFOCFG_ENABLETX" ok by blast
  then show ?thesis
  proof cases
    case 1
    then show ?thesis using assms(3) write_logD(1) [OF assms(1)]
      by (intro exI [of _ kStatus_InvalidArgument] exI [of _ ?d1] exI [of _ 0])
         (simp add: USART_WriteBlocking_def case_prod_beta)
  next
    case 2
    then show ?thesis using assms(3) l
      by (intro exI [of _ kStatus_USART_Timeout] exI [of _ d2] exI [of _ k])
         (simp add: USART_WriteBlocking_def case_prod_beta)
  next
    case 3
    then show ?thesis using assms(2,3) l w log3
      by (intro exI [of _ "if w = 0 then kStatus_USART_Timeout else kStatus_Success"] exI [of _ d3] exI [of _ k])
         (simp add: USART_WriteBlocking_def case_prod_beta)
  qed
qed

text \<open>The read loop on a device without errors.\<close>

lemma flag_status_ok: "error_free soc \<Longrightarrow> usart_flag_status soc (fst (reg_read soc U_STAT d)) = kStatus_Success"
  by (simp add: error_free_def usart_flag_status_def)

lemma read_loop_fifo:
  assumes "fifo_device soc fifo" "error_free soc" "UART_RETRY_TIMES soc \<noteq> 0"
  shows "\<exists>d'. usart_read_loop soc data n (ram, d) =
             Some (if n \<le> length (fv_rx (fifo d)) then kStatus_Success else kStatus_USART_Timeout,
                   mem_write ram data (take n (fv_rx (fifo d))), d') \<and>
           fv_rx (fifo d') = drop n (fv_rx (fifo d))"
proof (induction n arbitrary: data ram d)
  case (Suc n)
  show ?case
  proof (cases "fv_rx (fifo d)")
    case Nil
    have "\<exists>d'. usart_wait soc U_FIFOSTAT FIFOSTAT_RXNOTEMPTY (UART_RETRY_TIMES soc) d = Some (0, d') \<and> fv_rx (fifo d') = []"
      using assms(1,3) Nil fifo_flags(1) [OF assms(1)] by (intro usart_wait_timeout) auto
    then show ?thesis using Nil assms(3) by auto
  next
    case (Cons b bs)
    define d1 where "d1 = snd (reg_read soc U_FIFOSTAT (snd (reg_read soc U_FIFOSTAT d)))"
    define d2 where "d2 = reg_set soc U_STAT (fst (reg_read soc U_STAT d1)) (snd (reg_read soc U_STAT d1))"
    have w: "usart_wait soc U_FIFOSTAT FIFOSTAT_RXNOTEMPTY (UART_RETRY_TIMES soc) d =
        Some (UART_RETRY_TIMES soc, snd (reg_read soc U_FIFOSTAT d))"
      using fifo_flags(1) [OF assms(1), of d] Cons by (intro usart_wait_set) simp
    have f: "fifo d2 = fifo d" using assms(1) by (simp add: d2_def d1_def)
    note pop = fifo_pop [OF assms(1), of d2 b bs]
    have e: "fst (reg_read soc U_FIFOSTAT d) AND umask soc FIFOSTAT_RXERR = 0" for d
      using assms(2) by (simp add: error_free_def)
    have step: "usart_read_loop soc data (Suc n) (ram, d) =
        usart_read_loop soc (data + 1) n (ram(data := b), snd (reg_read soc U_FIFORD d2))"
      using w pop f Cons assms(3) flag_status_ok [OF assms(2)]
      by (simp add: case_prod_beta Let_def e d1_def [symmetric] d2_def [symmetric])
    have rest: "fv_rx (fifo (snd (reg_read soc U_FIFORD d2))) = bs" using pop f Cons by simp
    show ?thesis using Suc.IH [of "data + 1" "ram(data := b)" "snd (reg_read soc U_FIFORD d2)"]
      unfolding step rest Cons take_Suc_Cons drop_Suc_Cons mem_write.simps length_Cons Suc_le_mono .
  qed
qed auto

lemma read_blocking_core:
  assumes "fifo_device soc fifo" "error_free soc" "UART_RETRY_TIMES soc \<noteq> 0" "data \<noteq> 0"
  shows "\<exists>d'. USART_ReadBlocking soc data len (ram, d) =
             (if fst (reg_read soc U_FIFOCFG d) AND umask soc FIFOCFG_ENABLERX = 0 then Some (kStatus_Fail, ram, d')
              else Some (if unat len \<le> length (fv_rx (fifo d)) then kStatus_Success else kStatus_USART_Timeout,
                         mem_write ram data (take (unat len) (fv_rx (fifo d))), d')) \<and>
           fv_rx (fifo d') =
             (if fst (reg_read soc U_FIFOCFG d) AND umask soc FIFOCFG_ENABLERX = 0 then fv_rx (fifo d)
              else drop (unat len) (fv_rx (fifo d)))"
proof (cases "fst (reg_read soc U_FIFOCFG d) AND umask soc FIFOCFG_ENABLERX = 0")
  case True
  then show ?thesis using assms by (simp add: USART_ReadBlocking_def case_prod_beta)
next
  case False
  from read_loop_fifo [OF assms(1-3), of data "unat len" ram "snd (reg_read soc U_FIFOCFG d)"] assms(1)
  obtain d' where "usart_read_loop soc data (unat len) (ram, snd (reg_read soc U_FIFOCFG d)) =
      Some (if unat len \<le> length (fv_rx (fifo d)) then kStatus_Success else kStatus_USART_Timeout,
            mem_write ram data (take (unat len) (fv_rx (fifo d))), d')"
    "fv_rx (fifo d') = drop (unat len) (fv_rx (fifo d))" by auto
  then show ?thesis using False assms(4) by (intro exI [of _ d']) (simp add: USART_ReadBlocking_def case_prod_beta)
qed

subsection \<open>A concrete device\<close>

declare usart_wait.simps [code]

text \<open>Both FIFOs are enabled, the transmitter is always idle and takes every byte.\<close>

definition blocking_example :: "fifo_view usart_soc" where
  "blocking_example =
     usart_example\<lparr>UART_RETRY_TIMES := 3, umask := (umask usart_example)(STAT_TXIDLE := 8),
       reg_read := \<lambda>r d. if r = U_FIFOCFG then (4, d) else if r = U_STAT then (8, d) else example_read r d,
       reg_write := \<lambda>r v d. if r = U_FIFOWR then d\<lparr>fv_room := fv_room d - 1, fv_sent := fv_sent d @ [ucast v]\<rparr> else d\<rparr>"

lemma example_read_only: "r \<noteq> U_FIFORD \<Longrightarrow> snd (example_read r d) = d"
  by (cases r) simp_all

lemma example_read_sent: "fv_sent (snd (example_read r d)) = fv_sent d"
  by (cases r) (simp_all split: list.split)

lemma blocking_example_ok:
  "write_log blocking_example fv_sent" "fifo_device blocking_example (\<lambda>d. d)" "error_free blocking_example"
  "UART_RETRY_TIMES blocking_example = 3"
  by (auto simp: write_log_def fifo_device_def error_free_def blocking_example_def usart_example_def
      example_read_only example_read_sent)

subsection \<open>Properties\<close>

text \<open>C29: \<open>USART_WriteBlocking\<close> with a retry bound always returns, whatever the device does: the
  bytes it has written to FIFOWR are the first bytes of the buffer in order and once each, all of
  them when it reports success; otherwise it reports a timeout, or that the transmit FIFO is not
  enabled, and then nothing was written.\<close>
theorem write_blocking:
  assumes "write_log soc log" "UART_RETRY_TIMES soc \<noteq> 0" "data \<noteq> 0"
  shows "\<exists>st d' k. USART_WriteBlocking soc data len ram d = Some (st, d') \<and> k \<le> unat len \<and>
           log d' = log d @ mem_bytes ram data k \<and>
           (st = kStatus_Success \<and> k = unat len \<or> st = kStatus_USART_Timeout \<or> st = kStatus_InvalidArgument \<and> k = 0)"
  using assms by (rule write_blocking_core)

theorem write_blocking_witness:
  "\<exists>d'. USART_WriteBlocking blocking_example 0x300 2 (\<lambda>a. ucast a + 7) \<lparr>fv_rx = [], fv_room = 4, fv_sent = [5]\<rparr> =
           Some (kStatus_Success, d') \<and> fv_sent d' = [5, 7, 8]"
proof -
  let ?d = "\<lparr>fv_rx = [], fv_room = 4, fv_sent = [5]\<rparr> :: fifo_view" and ?m = "\<lambda>a. ucast a + 7 :: u8"
  have "map_option fst (USART_WriteBlocking blocking_example 0x300 2 ?m ?d) = Some kStatus_Success" by code_simp
  moreover have "kStatus_Success \<noteq> kStatus_USART_Timeout" "kStatus_Success \<noteq> kStatus_InvalidArgument" by code_simp+
  moreover have "mem_bytes ?m 0x300 (unat (2 :: u32)) = [7, 8]" by code_simp
  ultimately show ?thesis
    using write_blocking [OF blocking_example_ok(1), where data = "0x300" and len = 2 and ram = ?m and d = ?d] by (auto simp: blocking_example_ok(4))
qed

text \<open>C30: \<open>USART_ReadBlocking\<close> with a retry bound on an error-free device always returns: the bytes
  that waited in the receive FIFO are stored at the buffer in order, no more than asked for, and
  no other byte of RAM changes; it reports success exactly when enough bytes were there and a
  timeout otherwise, after storing the ones there were; when the receive FIFO is not enabled it
  fails and reads nothing.\<close>
theorem read_blocking:
  assumes "fifo_device soc fifo" "error_free soc" "UART_RETRY_TIMES soc \<noteq> 0" "data \<noteq> 0"
  shows "\<exists>d'. USART_ReadBlocking soc data len (ram, d) =
             (if fst (reg_read soc U_FIFOCFG d) AND umask soc FIFOCFG_ENABLERX = 0 then Some (kStatus_Fail, ram, d')
              else Some (if unat len \<le> length (fv_rx (fifo d)) then kStatus_Success else kStatus_USART_Timeout,
                         mem_write ram data (take (unat len) (fv_rx (fifo d))), d')) \<and>
           fv_rx (fifo d') =
             (if fst (reg_read soc U_FIFOCFG d) AND umask soc FIFOCFG_ENABLERX = 0 then fv_rx (fifo d)
              else drop (unat len) (fv_rx (fifo d)))"
  using assms by (rule read_blocking_core)

theorem read_blocking_witness:
  "\<exists>d'. USART_ReadBlocking blocking_example 0x200 3 (\<lambda>a. 0, \<lparr>fv_rx = [11, 12], fv_room = 0, fv_sent = []\<rparr>) =
           Some (kStatus_USART_Timeout, mem_write (\<lambda>a. 0) 0x200 [11, 12], d') \<and> fv_rx d' = []"
proof -
  let ?d = "\<lparr>fv_rx = [11, 12], fv_room = 0, fv_sent = []\<rparr> :: fifo_view"
  have "fst (reg_read blocking_example U_FIFOCFG ?d) AND umask blocking_example FIFOCFG_ENABLERX = 4"
    by (simp add: blocking_example_def usart_example_def)
  then show ?thesis
    using read_blocking [OF blocking_example_ok(2,3), where data = "0x200" and len = 3 and ram = "\<lambda>a. 0" and d = ?d] by (simp add: blocking_example_ok(4))
qed

end
