(* ===== verification/Usart_Baud.thy ===== *)
theory Usart_Baud
  imports Usart_Stream
begin

text \<open>
  The baud-rate search of \<open>USART_SetBaudRate\<close> against the dividers it ranges over, and the
  connection of a handle to the interrupt dispatch of the FLEXCOMM.
\<close>

subsection \<open>Reference\<close>

text \<open>The divider of an oversampling rate: the rounded quotient, when it fits the 16-bit register.\<close>

definition usart_divider :: "nat \<Rightarrow> nat \<Rightarrow> nat \<Rightarrow> nat option" where
  "usart_divider baud src osr =
     (let q = 10 * src div ((osr + 1) * baud)
      in if 5 \<le> q \<and> (q - 5) div 10 \<le> 65535 then Some ((q - 5) div 10) else None)"

text \<open>How far the rate of an oversampling rate and a divider is from the wanted one.\<close>

definition usart_rate_error :: "nat \<Rightarrow> nat \<Rightarrow> nat \<Rightarrow> nat \<Rightarrow> nat" where
  "usart_rate_error baud src osr brg =
     (let r = src div ((osr + 1) * (brg + 1)) in if baud < r then r - baud else baud - r)"

definition usart_choice :: "nat \<Rightarrow> nat \<Rightarrow> nat \<Rightarrow> nat \<Rightarrow> bool" where
  "usart_choice baud src osr brg \<longleftrightarrow> 4 \<le> osr \<and> osr \<le> 15 \<and> usart_divider baud src osr = Some brg"

lemma choice_bounds: "usart_choice baud src osr brg \<Longrightarrow> osr \<le> 15 \<and> brg \<le> 65535"
  by (auto simp: usart_choice_def usart_divider_def Let_def split: if_splits)

lemma choice_unique: "usart_choice baud src osr brg \<Longrightarrow> usart_choice baud src osr brg' \<Longrightarrow> brg' = brg"
  by (simp add: usart_choice_def)

lemma rate_error_less:
  assumes "16 * baud < 2 ^ 32" "10 * src < 2 ^ 32"
  shows "usart_rate_error baud src osr brg < 2 ^ 29"
proof -
  have "src div ((osr + 1) * (brg + 1)) \<le> src" by (rule div_le_dividend)
  moreover have "r \<le> src \<Longrightarrow> (if baud < r then r - baud else baud - r) < 2 ^ 29" for r using assms by auto
  ultimately show ?thesis unfolding usart_rate_error_def Let_def by blast
qed

subsection \<open>The words of one iteration\<close>

lemma baud_diff_unat:
  "unat (baud_diff wanted rate) = (if unat wanted < unat rate then unat rate - unat wanted else unat wanted - unat rate)"
  by (simp add: baud_diff_def word_less_nat_alt unat_minus_small)

lemma choice_product:
  assumes "unat osr \<le> 15" "unat brg \<le> 65535"
  shows "unat ((osr + 1) * (brg + 1) :: u32) = (unat osr + 1) * (unat brg + 1)" "(osr + 1) * (brg + 1) \<noteq> (0 :: u32)"
proof -
  have "(unat osr + 1) * (unat brg + 1) \<le> 16 * 65536" using assms by (intro mult_le_mono) simp_all
  moreover have "unat (osr + 1) = unat osr + 1" "unat (brg + 1) = unat brg + 1" using assms by (simp_all add: unat_plus_small)
  ultimately show "unat ((osr + 1) * (brg + 1)) = (unat osr + 1) * (unat brg + 1)" by (simp add: unat_mult_small)
  then show "(osr + 1) * (brg + 1) \<noteq> 0" by (metis add_is_0 mult_is_0 one_neq_zero unsigned_0)
qed

lemma rate_error_word:
  assumes "unat osr \<le> 15" "unat brg \<le> 65535"
  shows "unat (baud_diff baud (src div ((osr + 1) * (brg + 1)))) =
           usart_rate_error (unat baud) (unat src) (unat osr) (unat brg)"
  by (simp add: baud_diff_unat unat_div_distrib choice_product(1) [OF assms] usart_rate_error_def Let_def)

lemma divider_word:
  fixes baud src osr :: u32
  assumes "0 < unat baud" "16 * unat baud < 2 ^ 32" "10 * unat src < 2 ^ 32" "unat osr \<le> 15"
  defines "brg \<equiv> (src * 10 div ((osr + 1) * baud) - 5) div 10"
  shows "(osr + 1) * baud \<noteq> 0"
    "usart_divider (unat baud) (unat src) (unat osr) = (if 0xFFFF < brg then None else Some (unat brg))"
proof -
  have "(unat osr + 1) * unat baud \<le> 16 * unat baud" using assms(4) by (intro mult_le_mono1) simp
  then have "(unat osr + 1) * unat baud < 2 ^ 32" using assms(2) by (rule le_less_trans)
  moreover have "unat (osr + 1) = unat osr + 1" using assms(4) by (simp add: unat_plus_small)
  ultimately have p: "unat ((osr + 1) * baud) = (unat osr + 1) * unat baud"
    using unat_mult_small [of "osr + 1" baud] by simp
  then show "(osr + 1) * baud \<noteq> 0"
    using assms(1) by (metis add_is_0 mult_is_0 neq0_conv one_neq_zero unsigned_0)
  define q where "q = src * 10 div ((osr + 1) * baud)"
  have q: "unat q = 10 * unat src div ((unat osr + 1) * unat baud)"
    using assms(3) unfolding q_def unat_div_distrib p by (simp add: unat_mult_small mult.commute)
  show "usart_divider (unat baud) (unat src) (unat osr) = (if 0xFFFF < brg then None else Some (unat brg))"
  proof (cases "5 \<le> unat q")
    case True
    then have "unat brg = (unat q - 5) div 10"
      by (simp add: brg_def q_def [symmetric] unat_div_distrib unat_minus_small)
    with True show ?thesis unfolding usart_divider_def q [symmetric] Let_def by (simp add: word_less_nat_alt not_less)
  next
    case False
    then have "q \<in> {0, 1, 2, 3, 4}" by (simp add: word_unat_eq_iff) arith
    then have "0xFFFF < brg" unfolding brg_def q_def [symmetric] by (elim insertE) simp_all
    with False show ?thesis unfolding usart_divider_def q [symmetric] Let_def by simp
  qed
qed

text \<open>One iteration keeps the better of the choice so far and the one of its oversampling rate.\<close>

lemma baud_step_choice:
  assumes "0 < unat baud" "16 * unat baud < 2 ^ 32" "10 * unat src < 2 ^ 32" "4 \<le> unat osr" "unat osr \<le> 15"
  obtains "\<nexists>k. usart_choice (unat baud) (unat src) (unat osr) k" "usart_baud_step baud src osr best = Some best"
  | brg D where "usart_choice (unat baud) (unat src) (unat osr) (unat brg)"
      "unat D = usart_rate_error (unat baud) (unat src) (unat osr) (unat brg)"
      "usart_baud_step baud src osr best = Some (if D < fst best then (D, osr, brg) else best)"
proof -
  define brg where "brg = (src * 10 div ((osr + 1) * baud) - 5) div 10"
  note d = divider_word [OF assms(1-3,5), folded brg_def]
  have step: "usart_baud_step baud src osr best =
      (if 0xFFFF < brg then Some best
       else do {
         baudrate \<leftarrow> c_div src ((osr + 1) * (brg + 1));
         Some (if baud_diff baud baudrate < fst best then (baud_diff baud baudrate, osr, brg) else best) })"
    using d(1) by (simp add: usart_baud_step_def c_div_def brg_def Let_def)
  show ?thesis
  proof (cases "0xFFFF < brg")
    case True
    then show ?thesis using that(1) d(2) step by (simp add: usart_choice_def)
  next
    case False
    then have b: "unat brg \<le> 65535" by (simp add: word_less_nat_alt)
    show ?thesis
    proof (rule that(2))
      show "usart_choice (unat baud) (unat src) (unat osr) (unat brg)"
        using False d(2) assms(4,5) by (simp add: usart_choice_def)
      show "unat (baud_diff baud (src div ((osr + 1) * (brg + 1)))) =
          usart_rate_error (unat baud) (unat src) (unat osr) (unat brg)"
        using assms(5) b by (rule rate_error_word)
      show "usart_baud_step baud src osr best =
          Some (if baud_diff baud (src div ((osr + 1) * (brg + 1))) < fst best
                then (baud_diff baud (src div ((osr + 1) * (brg + 1))), osr, brg) else best)"
        using False choice_product(2) [OF assms(5) b] unfolding step by (simp add: c_div_def)
    qed
  qed
qed

subsection \<open>The loop\<close>

text \<open>
  What the loop knows of its best choice when the oversampling rates above \<open>n\<close> are done: nothing
  fitted yet, or the choice is one of them and none of them is better.
\<close>

definition best_above :: "nat \<Rightarrow> nat \<Rightarrow> nat \<Rightarrow> u32 \<times> u32 \<times> u32 \<Rightarrow> bool" where
  "best_above baud src n best \<longleftrightarrow>
     best = (- 1, 0xf, - 1) \<and> (\<forall>o' k. usart_choice baud src o' k \<longrightarrow> o' \<le> n) \<or>
     (\<exists>D osr brg. best = (D, osr, brg) \<and> usart_choice baud src (unat osr) (unat brg) \<and>
        unat D = usart_rate_error baud src (unat osr) (unat brg) \<and>
        (\<forall>o' k. usart_choice baud src o' k \<and> n < o' \<longrightarrow> unat D \<le> usart_rate_error baud src o' k))"

lemma best_aboveI:
  assumes "usart_choice baud src (unat osr) (unat brg)" "unat D = usart_rate_error baud src (unat osr) (unat brg)"
    "\<And>o' k. usart_choice baud src o' k \<Longrightarrow> n < o' \<Longrightarrow> unat D \<le> usart_rate_error baud src o' k"
  shows "best_above baud src n (D, osr, brg)"
  using assms unfolding best_above_def by blast

lemma best_aboveE:
  assumes "best_above baud src n best"
  obtains "best = (- 1, 0xf, - 1)" "\<And>o' k. usart_choice baud src o' k \<Longrightarrow> o' \<le> n"
  | D osr brg where "best = (D, osr, brg)" "usart_choice baud src (unat osr) (unat brg)"
      "unat D = usart_rate_error baud src (unat osr) (unat brg)"
      "\<And>o' k. usart_choice baud src o' k \<Longrightarrow> n < o' \<Longrightarrow> unat D \<le> usart_rate_error baud src o' k"
  using assms unfolding best_above_def by blast

lemma best_above_skip:
  assumes "best_above baud src n best" "\<And>k. \<not> usart_choice baud src n k"
  shows "best_above baud src (n - 1) best"
  using assms(1)
proof (cases rule: best_aboveE)
  case 1
  have "o' \<le> n - 1" if "usart_choice baud src o' k" for o' k
    using 1(2) [OF that] that assms(2) by (cases "o' = n") auto
  with 1(1) show ?thesis unfolding best_above_def by blast
next
  case (2 D osr brg)
  have "n < o'" if "usart_choice baud src o' k" "n - 1 < o'" for o' k
    using that assms(2) by (cases "o' = n") auto
  then show ?thesis unfolding 2(1) by (intro best_aboveI 2(2-4))
qed

lemma best_above_try:
  assumes best: "best_above baud src (unat osr) best"
    and c: "usart_choice baud src (unat osr) (unat brg)" "unat D = usart_rate_error baud src (unat osr) (unat brg)"
    and D: "unat D < 2 ^ 29"
  shows "best_above baud src (unat osr - 1) (if D < fst best then (D, osr, brg) else best)"
  using best
proof (cases rule: best_aboveE)
  case 1
  have "D < fst best" using D by (simp add: 1(1) word_less_nat_alt unsigned_minus_1_eq_mask mask_eq_exp_minus_1)
  moreover have "unat D \<le> usart_rate_error baud src o' k" if "usart_choice baud src o' k" "unat osr - 1 < o'" for o' k
  proof -
    have "o' = unat osr" using 1(2) [OF that(1)] that(2) by simp
    with that(1) choice_unique [OF c(1)] c(2) show ?thesis by simp
  qed
  ultimately show ?thesis using best_aboveI [OF c] by simp
next
  case (2 D0 o0 b0)
  have "unat (min D D0) \<le> usart_rate_error baud src o' k" if "usart_choice baud src o' k" "unat osr - 1 < o'" for o' k
  proof (cases "o' = unat osr")
    case True
    with that(1) choice_unique [OF c(1)] c(2) show ?thesis by (simp add: min_def word_le_nat_alt)
  next
    case False
    then have "unat D0 \<le> usart_rate_error baud src o' k" using that by (intro 2(4)) auto
    then show ?thesis by (simp add: min_def word_le_nat_alt)
  qed
  moreover have "min D D0 = (if D < D0 then D else D0)" by auto
  ultimately show ?thesis using best_aboveI [OF c] best_aboveI [OF 2(2,3)] by (cases "D < D0") (simp_all add: 2(1))
qed

lemma best_above_step:
  assumes sz: "0 < unat baud" "16 * unat baud < 2 ^ 32" "10 * unat src < 2 ^ 32" and osr: "4 \<le> unat osr" "unat osr \<le> 15"
    and best: "best_above (unat baud) (unat src) (unat osr) best"
  obtains best' where "usart_baud_step baud src osr best = Some best'"
    "best_above (unat baud) (unat src) (unat osr - 1) best'"
  using sz osr
proof (cases rule: baud_step_choice [where best = best])
  case 1
  with best_above_skip [OF best] show ?thesis by (intro that) auto
next
  case (2 brg D)
  have "unat D < 2 ^ 29" unfolding 2(2) using sz(2,3) by (rule rate_error_less)
  with best_above_try [OF best 2(1,2)] 2(3) show ?thesis by (intro that)
qed

lemma best_above_mono: "best_above baud src n best \<Longrightarrow> n \<le> n' \<Longrightarrow> best_above baud src n' best"
  by (erule best_aboveE) (auto simp: best_above_def intro: order_trans)

lemma baud_loop_best:
  assumes sz: "0 < unat baud" "16 * unat baud < 2 ^ 32" "10 * unat src < 2 ^ 32"
    and "unat osr \<le> 15" "3 \<le> unat osr" "best_above (unat baud) (unat src) (unat osr) best"
  shows "\<exists>best'. usart_baud_loop baud src allowed osr best = Some best' \<and>
           (best_above (unat baud) (unat src) 3 best' \<or>
            fst best' \<le> allowed \<and> best_above (unat baud) (unat src) 8 best')"
  using assms(4-)
proof (induction "unat osr" arbitrary: osr best rule: less_induct)
  case less
  have "unat osr = 3 \<or> 4 \<le> unat osr" using less.prems(2) by linarith
  then consider "unat osr = 3" "\<not> 4 \<le> osr" | "4 \<le> osr" "osr \<le> 8 \<and> fst best \<le> allowed"
    | "4 \<le> osr" "\<not> (osr \<le> 8 \<and> fst best \<le> allowed)"
    by (auto simp: word_le_nat_alt)
  then show ?case
  proof cases
    case 1
    then show ?thesis using less.prems(3) by (subst usart_baud_loop.simps) simp
  next
    case 2
    then have "best_above (unat baud) (unat src) 8 best"
      using best_above_mono [OF less.prems(3)] by (simp add: word_le_nat_alt)
    then show ?thesis using 2 by (subst usart_baud_loop.simps) auto
  next
    case 3
    then have o: "4 \<le> unat osr" by (simp add: word_le_nat_alt)
    obtain best' where b: "usart_baud_step baud src osr best = Some best'"
      "best_above (unat baud) (unat src) (unat osr - 1) best'"
      using best_above_step [OF sz o less.prems(1,3)] .
    have "usart_baud_loop baud src allowed osr best = usart_baud_loop baud src allowed (osr - 1) best'"
      using 3 b(1) by (subst usart_baud_loop.simps) auto
    moreover have "unat (osr - 1) = unat osr - 1" using o by (simp add: unat_minus_small)
    ultimately show ?thesis using less.hyps [of "osr - 1" best'] less.prems(1) o b(2) by simp
  qed
qed

subsection \<open>\<open>USART_SetBaudRate\<close>\<close>

lemma set_baud_rate_search:
  assumes "baud \<noteq> 0" "src \<noteq> 0" "fst (reg_read soc U_CFG d) AND umask soc CFG_SYNCEN = 0"
    "usart_baud_loop baud src (baud div 100 * 3) 15 (- 1, 15, - 1) = Some (D, osr, brg)"
  shows "USART_SetBaudRate soc baud src d = do {
      baudrate \<leftarrow> c_div src ((osr + 1) * (brg + 1));
      if baud div 100 * 3 < baud_diff baud baudrate \<or> 0xFFFF < brg
      then Some (kStatus_USART_BaudrateNotSupport, snd (reg_read soc U_CFG d))
      else Some (kStatus_Success, reg_write soc U_BRG brg (reg_write soc U_OSR osr (snd (reg_read soc U_CFG d)))) }"
proof (cases "(osr + 1) * (brg + 1) = 0")
  case True
  then show ?thesis using assms by (simp add: USART_SetBaudRate_def case_prod_beta Let_def c_div_def)
next
  case False
  then show ?thesis using assms by (simp add: USART_SetBaudRate_def case_prod_beta Let_def c_div_def)
qed

lemma set_baud_rate_choice:
  assumes "baud \<noteq> 0" "src \<noteq> 0" "fst (reg_read soc U_CFG d) AND umask soc CFG_SYNCEN = 0"
    "usart_baud_loop baud src (baud div 100 * 3) 15 (- 1, 15, - 1) = Some (D, osr, brg)"
    "usart_choice (unat baud) (unat src) (unat osr) (unat brg)"
  shows "USART_SetBaudRate soc baud src d =
      (if unat (baud div 100 * 3) < usart_rate_error (unat baud) (unat src) (unat osr) (unat brg)
       then Some (kStatus_USART_BaudrateNotSupport, snd (reg_read soc U_CFG d))
       else Some (kStatus_Success, reg_write soc U_BRG brg (reg_write soc U_OSR osr (snd (reg_read soc U_CFG d)))))"
proof -
  have b: "unat osr \<le> 15" "unat brg \<le> 65535" using choice_bounds [OF assms(5)] by simp_all
  then have "\<not> 0xFFFF < brg" by (simp add: word_less_nat_alt)
  then show ?thesis
    unfolding set_baud_rate_search [OF assms(1-4)] rate_error_word [OF b, symmetric] word_less_nat_alt [symmetric]
    using choice_product(2) [OF b] by (simp add: c_div_def)
qed

lemma best_above_3:
  assumes "best_above baud src 3 best"
  obtains "best = (- 1, 0xf, - 1)" "\<And>o' k. \<not> usart_choice baud src o' k"
  | D osr brg where "best = (D, osr, brg)" "usart_choice baud src (unat osr) (unat brg)"
      "unat D = usart_rate_error baud src (unat osr) (unat brg)"
      "\<And>o' k. usart_choice baud src o' k \<Longrightarrow> unat D \<le> usart_rate_error baud src o' k"
proof -
  have low: "3 < o'" if "usart_choice baud src o' k" for o' k using that by (simp add: usart_choice_def)
  from assms show ?thesis
  proof (cases rule: best_aboveE)
    case 1
    with low that(1) show ?thesis by (meson leD)
  next
    case (2 D osr brg)
    with low show ?thesis by (intro that(2)) blast+
  qed
qed

lemma set_baud_rate_core:
  fixes baud src :: u32
  assumes sz: "0 < unat baud" "src \<noteq> 0" "16 * unat baud < 2 ^ 32" "10 * unat src < 2 ^ 32"
    and cfg: "fst (reg_read soc U_CFG d) AND umask soc CFG_SYNCEN = 0"
  defines "C \<equiv> usart_choice (unat baud) (unat src)" and "E \<equiv> usart_rate_error (unat baud) (unat src)"
    and "d1 \<equiv> snd (reg_read soc U_CFG d)" and "limit \<equiv> 3 * (unat baud div 100)"
  shows "if \<nexists>osr brg. C osr brg then USART_SetBaudRate soc baud src d = None
         else if \<nexists>osr brg. C osr brg \<and> E osr brg \<le> limit
         then USART_SetBaudRate soc baud src d = Some (kStatus_USART_BaudrateNotSupport, d1)
         else \<exists>osr brg. C osr brg \<and> E osr brg \<le> limit \<and>
                (\<forall>osr' brg'. C osr' brg' \<and> 8 < osr' \<longrightarrow> E osr brg \<le> E osr' brg') \<and>
                USART_SetBaudRate soc baud src d =
                  Some (kStatus_Success, reg_write soc U_BRG (of_nat brg) (reg_write soc U_OSR (of_nat osr) d1))"
proof -
  let ?a = "baud div 100 * 3" and ?none = "(- 1, 0xf, - 1) :: u32 \<times> u32 \<times> u32"
  have "unat (baud div 100) = unat baud div 100" by (simp add: unat_div_distrib)
  then have lim: "unat ?a = limit" using sz(3) by (simp add: limit_def unat_mult_small)
  have "best_above (unat baud) (unat src) (unat (15 :: u32)) ?none"
    unfolding best_above_def using choice_bounds by simp
  from baud_loop_best [OF sz(1,3,4) _ _ this, of ?a] obtain best where
    l: "usart_baud_loop baud src ?a 15 ?none = Some best"
      "best_above (unat baud) (unat src) 3 best \<or> fst best \<le> ?a \<and> best_above (unat baud) (unat src) 8 best" by auto
  have nz: "baud \<noteq> 0" using sz(1) by auto
  have m1: "unat (- 1 :: u32) = 2 ^ 32 - 1" by (simp add: unsigned_minus_1_eq_mask mask_eq_exp_minus_1)
  have success: "\<exists>osr brg. C osr brg \<and> E osr brg \<le> limit \<and>
                (\<forall>osr' brg'. C osr' brg' \<and> 8 < osr' \<longrightarrow> E osr brg \<le> E osr' brg') \<and>
                USART_SetBaudRate soc baud src d =
                  Some (kStatus_Success, reg_write soc U_BRG (of_nat brg) (reg_write soc U_OSR (of_nat osr) d1))"
    if "best_above (unat baud) (unat src) 8 best" "fst best \<le> ?a"
    using that(1)
  proof (cases rule: best_aboveE)
    case 1
    then show ?thesis using that(2) lim sz(3) by (simp add: word_le_nat_alt m1 limit_def)
  next
    case (2 D osr brg)
    have "E (unat osr) (unat brg) \<le> limit" using that(2) 2(1,3) lim by (simp add: word_le_nat_alt E_def)
    then have "USART_SetBaudRate soc baud src d =
        Some (kStatus_Success, reg_write soc U_BRG (of_nat (unat brg)) (reg_write soc U_OSR (of_nat (unat osr)) d1))"
      using set_baud_rate_choice [OF nz sz(2) cfg l(1) [unfolded 2(1)] 2(2)] by (simp add: lim E_def d1_def)
    moreover have "C (unat osr) (unat brg)" "\<forall>osr' brg'. C osr' brg' \<and> 8 < osr' \<longrightarrow> E (unat osr) (unat brg) \<le> E osr' brg'"
      using 2(2-4) by (simp_all add: C_def E_def)
    ultimately show ?thesis using \<open>E (unat osr) (unat brg) \<le> limit\<close> by blast
  qed
  show ?thesis
  proof (cases "fst best \<le> ?a")
    case True
    then have "best_above (unat baud) (unat src) 8 best" using l(2) best_above_mono [of _ _ 3 best 8] by auto
    from success [OF this True] show ?thesis by (subst if_not_P, blast, subst if_not_P) blast+
  next
    case False
    then have "best_above (unat baud) (unat src) 3 best" using l(2) by blast
    then show ?thesis
    proof (cases rule: best_above_3)
      case 1
      then show ?thesis using set_baud_rate_search [OF nz sz(2) cfg l(1) [unfolded 1(1)]] unfolding C_def by (simp add: c_div_def)
    next
      case (2 D osr brg)
      have big: "limit < E (unat osr) (unat brg)" using False 2(1,3) lim by (simp add: word_le_nat_alt E_def)
      then have "\<not> E o' k \<le> limit" if "C o' k" for o' k using 2(3) 2(4) [of o' k] that by (simp add: C_def E_def)
      then have "\<nexists>osr brg. C osr brg \<and> E osr brg \<le> limit" by blast
      moreover have "C (unat osr) (unat brg)" using 2(2) by (simp add: C_def)
      moreover have "USART_SetBaudRate soc baud src d = Some (kStatus_USART_BaudrateNotSupport, d1)"
        using set_baud_rate_choice [OF nz sz(2) cfg l(1) [unfolded 2(1)] 2(2)] big by (simp add: lim E_def d1_def)
      ultimately show ?thesis by auto
    qed
  qed
qed

text \<open>C31: The baud-rate search of the asynchronous mode, for rates and clocks whose products fit 32 bits.
  When some oversampling rate from 5 to 16 has a divider that fits its register and is off by at most
  the integer \<open>3 * (baud / 100)\<close>, the three percent of the code, the call succeeds and programs such a pair, the closest one among the oversampling rates
  above 9. When dividers fit and none is close enough, it reports that the rate is not supported
  and changes no register. When no divider fits at all it does not return: the code divides by
  zero.\<close>
theorem usart_baud_search:
  fixes baud src :: u32
  assumes "baud \<noteq> 0" "src \<noteq> 0" "16 * unat baud < 2 ^ 32" "10 * unat src < 2 ^ 32"
    "fst (reg_read soc U_CFG d) AND umask soc CFG_SYNCEN = 0"
  defines "C \<equiv> usart_choice (unat baud) (unat src)" and "E \<equiv> usart_rate_error (unat baud) (unat src)"
    and "d1 \<equiv> snd (reg_read soc U_CFG d)" and "limit \<equiv> 3 * (unat baud div 100)"
  shows "if \<nexists>osr brg. C osr brg then USART_SetBaudRate soc baud src d = None
         else if \<nexists>osr brg. C osr brg \<and> E osr brg \<le> limit
         then USART_SetBaudRate soc baud src d = Some (kStatus_USART_BaudrateNotSupport, d1)
         else \<exists>osr brg. C osr brg \<and> E osr brg \<le> limit \<and>
                (\<forall>osr' brg'. C osr' brg' \<and> 8 < osr' \<longrightarrow> E osr brg \<le> E osr' brg') \<and>
                USART_SetBaudRate soc baud src d =
                  Some (kStatus_Success, reg_write soc U_BRG (of_nat brg) (reg_write soc U_OSR (of_nat osr) d1))"
  unfolding C_def E_def d1_def limit_def
  using assms(1) by (intro set_baud_rate_core assms(2-5)) (simp add: unat_gt_0)

text \<open>115200 baud from 12 MHz is supported; a clock of 32 kHz has no divider.\<close>

theorem usart_baud_search_witness:
  "(\<exists>osr brg. usart_choice 115200 12000000 osr brg \<and> usart_rate_error 115200 12000000 osr brg \<le> 3456 \<and>
      USART_SetBaudRate usart_example 115200 12000000 \<lparr>fv_rx = [], fv_room = 0, fv_sent = []\<rparr> =
        Some (kStatus_Success, \<lparr>fv_rx = [], fv_room = 0, fv_sent = []\<rparr>)) \<and>
   USART_SetBaudRate usart_example 115200 32000 \<lparr>fv_rx = [], fv_room = 0, fv_sent = []\<rparr> = None"
proof -
  let ?d = "\<lparr>fv_rx = [], fv_room = 0, fv_sent = []\<rparr>"
  have dev: "fst (reg_read usart_example U_CFG ?d) AND umask usart_example CFG_SYNCEN = 0"
    "snd (reg_read usart_example U_CFG ?d) = ?d" "reg_write usart_example r v ?d = ?d" for r v
    by (simp_all add: usart_example_def example_write_def)
  have c: "usart_choice 115200 12000000 12 7" "usart_rate_error 115200 12000000 12 7 \<le> 3456"
    by (simp_all add: usart_choice_def usart_divider_def usart_rate_error_def)
  have none: "\<nexists>osr brg. usart_choice 115200 32000 osr brg"
  proof -
    have "\<not> 5 \<le> 320000 div ((osr + 1) * 115200)" if "4 \<le> osr" for osr :: nat
    proof -
      have "320000 div ((osr + 1) * 115200) \<le> 320000 div (5 * 115200)" using that by (intro div_le_mono2) simp_all
      then show ?thesis by simp
    qed
    then show ?thesis by (auto simp: usart_choice_def usart_divider_def Let_def)
  qed
  have u: "unat (115200 :: u32) = 115200" "unat (12000000 :: u32) = 12000000" "unat (32000 :: u32) = 32000"
    "3 * ((115200 :: nat) div 100) = 3456" by simp_all
  have "\<exists>osr brg. usart_choice 115200 12000000 osr brg \<and> usart_rate_error 115200 12000000 osr brg \<le> 3456 \<and>
      USART_SetBaudRate usart_example 115200 12000000 ?d = Some (kStatus_Success, ?d)"
    using usart_baud_search [of 115200 12000000 usart_example ?d] c unfolding u dev(2,3)
    by (auto simp: dev(1) split: if_splits)
  moreover have "USART_SetBaudRate usart_example 115200 32000 ?d = None"
    using usart_baud_search [of 115200 32000 usart_example ?d] none unfolding u by (simp add: dev(1))
  ultimately show ?thesis by blast
qed

end
