(* ===== verification/Sdk_Memory.thy ===== *)
theory Sdk_Memory
  imports Common
begin

text \<open>
  \<open>drivers/common/fsl_common.c\<close>: aligned allocation. \<open>SDK_Malloc\<close> takes a larger block from
  \<open>malloc\<close>, aligns a pointer inside it and stores, in the four bytes in front of the pointer, a
  magic number and the distance to the start of the block, from which \<open>SDK_Free\<close> recovers it.

  The heap is the list of live blocks with their sizes. Where \<open>malloc\<close> places a block is the
  argument \<open>alloc\<close>, 0 being failure; freeing an address that is not the start of a live block is
  undefined in C and is the value \<open>None\<close>. \<open>size_t\<close> and \<open>uintptr_t\<close> have 32 bits, memory is little
  endian.
\<close>

subsection \<open>The C heap\<close>

record sdk_heap =
  blocks :: "(u32 \<times> u32) list"
  hram :: mem

definition c_malloc :: "(u32 \<Rightarrow> (u32 \<times> u32) list \<Rightarrow> u32) \<Rightarrow> u32 \<Rightarrow> sdk_heap \<Rightarrow> u32 \<times> sdk_heap" where
  "c_malloc alloc n s =
     (let p = alloc n (blocks s) in (p, if p = 0 then s else s\<lparr>blocks := (p, n) # blocks s\<rparr>))"

definition c_free :: "u32 \<Rightarrow> sdk_heap \<Rightarrow> sdk_heap option" where
  "c_free p s =
     (if p = 0 then Some s
      else if p \<in> fst ` set (blocks s) then Some (s\<lparr>blocks := filter (\<lambda>b. fst b \<noteq> p) (blocks s)\<rparr>)
      else None)"

text \<open>What \<open>malloc\<close> promises of a block it returns.\<close>

definition malloc_ok :: "(u32 \<Rightarrow> (u32 \<times> u32) list \<Rightarrow> u32) \<Rightarrow> bool" where
  "malloc_ok alloc \<longleftrightarrow>
     (\<forall>n bs. alloc n bs \<noteq> 0 \<longrightarrow> unat (alloc n bs) + unat n \<le> 2 ^ 32 \<and>
        (\<forall>(q, k) \<in> set bs. unat q + unat k \<le> unat (alloc n bs) \<or> unat (alloc n bs) + unat n \<le> unat q))"

subsection \<open>The functions\<close>

definition SDK_MEM_MAGIC_NUMBER :: u16 where "SDK_MEM_MAGIC_NUMBER = 12345"

definition SDK_SIZEALIGN :: "u32 \<Rightarrow> u32 \<Rightarrow> u32" where
  "SDK_SIZEALIGN var alignbytes = (var + (alignbytes - 1)) AND NOT (alignbytes - 1)"

definition write_u16 :: "mem \<Rightarrow> u32 \<Rightarrow> u16 \<Rightarrow> mem" where
  "write_u16 m a v = m(a := ucast v, a + 1 := ucast (drop_bit 8 v))"

definition read_u16 :: "mem \<Rightarrow> u32 \<Rightarrow> u16" where
  "read_u16 m a = ucast (m a) OR push_bit 8 (ucast (m (a + 1)))"

definition SDK_Malloc ::
    "(u32 \<Rightarrow> (u32 \<times> u32) list \<Rightarrow> u32) \<Rightarrow> u32 \<Rightarrow> u32 \<Rightarrow> sdk_heap \<Rightarrow> u32 \<times> sdk_heap" where
  "SDK_Malloc alloc sz alignbytes s =
     (if alignbytes = 0 \<or> - 1 \<le> alignbytes then (0, s)
      else
        let alignedsize = SDK_SIZEALIGN sz alignbytes
        in if alignedsize < sz then (0, s)
           else if - 1 - alignbytes - 4 < alignedsize then (0, s)
           else
             let (p_addr, s) = c_malloc alloc (alignedsize + (alignbytes + 4)) s
             in if p_addr = 0 then (0, s)
                else
                  let p_align_addr = SDK_SIZEALIGN (p_addr + 4) alignbytes;
                      p_cb = p_align_addr - 4;
                      ram = write_u16 (hram s) p_cb SDK_MEM_MAGIC_NUMBER;
                      ram = write_u16 ram (p_cb + 2) (ucast (p_align_addr - p_addr))
                  in (p_align_addr, s\<lparr>hram := ram\<rparr>))"

definition SDK_Free :: "u32 \<Rightarrow> sdk_heap \<Rightarrow> sdk_heap option" where
  "SDK_Free ptr s =
     (let p_cb = ptr - 4
      in if read_u16 (hram s) p_cb \<noteq> SDK_MEM_MAGIC_NUMBER then Some s
         else c_free (ptr - ucast (read_u16 (hram s) (p_cb + 2))) s)"

subsection \<open>Alignment\<close>

lemma and_not_mask: "(x :: 'a::len word) AND NOT (mask k) = push_bit k (drop_bit k x)"
  by (rule bit_word_eqI) (auto simp: bit_simps)

lemma unat_mask: "k < 32 \<Longrightarrow> unat (mask k :: u32) = 2 ^ k - 1"
proof -
  assume k: "k < 32"
  have "unat (mask k :: u32) = take_bit k (mask 32)"
    unfolding take_bit_minus_one_eq_mask [symmetric] unsigned_take_bit_eq unsigned_minus_1_eq_mask by simp
  then show "unat (mask k :: u32) = 2 ^ k - 1" using k unfolding take_bit_of_mask by (simp add: min_def mask_eq_exp_minus_1)
qed

lemma unat_pow2: "k < 32 \<Longrightarrow> unat (2 ^ k :: u32) = 2 ^ k"
proof -
  assume k: "k < 32"
  then have "(2 :: nat) ^ k < 2 ^ 32" by (intro power_strict_increasing) simp_all
  moreover have "2 ^ k = (mask k + 1 :: u32)" by (simp add: mask_eq_exp_minus_1)
  ultimately show "unat (2 ^ k :: u32) = 2 ^ k" using unat_mask [OF k] by (simp add: unat_plus_small)
qed

lemma sizealign_unat:
  assumes "k < 32" "unat x + 2 ^ k \<le> 2 ^ 32"
  shows "unat (SDK_SIZEALIGN x (2 ^ k)) = (unat x + 2 ^ k - 1) div 2 ^ k * 2 ^ k"
proof -
  have m: "2 ^ k - 1 = (mask k :: u32)" by (simp add: mask_eq_exp_minus_1)
  note um = unat_mask [OF assms(1)]
  have u: "unat (x + mask k) = unat x + 2 ^ k - 1"
    using assms(2) by (subst unat_plus_small) (auto simp: um)
  have le: "unat (x + mask k) div 2 ^ k * 2 ^ k < 2 ^ 32"
    using le_less_trans [OF div_times_less_eq_dividend unsigned_less [of "x + mask k", where ?'a = nat]] by simp
  have "unat (push_bit k (drop_bit k (x + mask k))) = take_bit 32 (push_bit k (drop_bit k (unat (x + mask k))))"
    using unsigned_less [of "x + mask k", where ?'a = nat]
    by (simp only: unsigned_push_bit_eq unsigned_drop_bit_eq) (simp add: take_bit_nat_eq_self)
  then show ?thesis unfolding SDK_SIZEALIGN_def m and_not_mask u [symmetric]
    using le by (simp add: push_bit_eq_mult drop_bit_eq_div take_bit_eq_mod)
qed

lemma round_up:
  fixes x a :: nat
  assumes "0 < a"
  shows "x \<le> (x + a - 1) div a * a" "(x + a - 1) div a * a < x + a" "a dvd (x + a - 1) div a * a"
proof -
  have "(x + a - 1) div a * a + (x + a - 1) mod a = x + a - 1" by simp
  moreover have "(x + a - 1) mod a < a" using assms by simp
  ultimately show "x \<le> (x + a - 1) div a * a" "(x + a - 1) div a * a < x + a" by linarith+
qed simp

lemma sizealign_wrap:
  assumes "k < 32" "2 ^ 32 < unat x + 2 ^ k"
  shows "SDK_SIZEALIGN x (2 ^ k) < x"
proof -
  have m: "2 ^ k - 1 = (mask k :: u32)" by (simp add: mask_eq_exp_minus_1)
  note um = unat_mask [OF assms(1)]
  have "(2 :: nat) ^ k \<le> 2 ^ 31" using assms(1) by (intro power_increasing) simp_all
  then have "unat (x + mask k) = unat x + (2 ^ k - 1) - 2 ^ 32"
    using assms(2) unsigned_less [of x, where ?'a = nat] by (simp add: unat_word_ariths um mod_if)
  then have "unat (x + mask k) < unat x" using assms(2) \<open>(2 :: nat) ^ k \<le> 2 ^ 31\<close> by simp
  moreover have "unat (push_bit k (drop_bit k (x + mask k))) \<le> unat (x + mask k)"
    unfolding and_not_mask [symmetric] using word_and_le1 by (simp add: word_le_nat_alt [symmetric] word_and_le2)
  ultimately show ?thesis unfolding SDK_SIZEALIGN_def m and_not_mask by (simp add: word_less_nat_alt)
qed

subsection \<open>The header\<close>

lemma read_write_u16 [simp]: "read_u16 (write_u16 m a v) a = v"
proof -
  have "a + 1 \<noteq> a" by simp
  then show ?thesis
    unfolding read_u16_def write_u16_def by simp (rule bit_word_eqI, auto simp: bit_simps)
qed

lemma read_u16_other: "x \<noteq> a \<Longrightarrow> x \<noteq> a + 1 \<Longrightarrow> x + 1 \<noteq> a \<Longrightarrow> read_u16 (write_u16 m a v) x = read_u16 m x"
  by (simp add: read_u16_def write_u16_def)

lemma read_u16_cong: "m a = m' a \<Longrightarrow> m (a + 1) = m' (a + 1) \<Longrightarrow> read_u16 m a = read_u16 m' a"
  by (simp add: read_u16_def)

subsection \<open>Allocation and release\<close>

text \<open>The memory after the header of \<open>p\<close> was written with distance \<open>off\<close>.\<close>

definition put_header :: "mem \<Rightarrow> u32 \<Rightarrow> u16 \<Rightarrow> mem" where
  "put_header m p off = write_u16 (write_u16 m (p - 4) SDK_MEM_MAGIC_NUMBER) (p - 4 + 2) off"

lemma put_header_read:
  "read_u16 (put_header m p off) (p - 4) = SDK_MEM_MAGIC_NUMBER" "read_u16 (put_header m p off) (p - 4 + 2) = off"
  by (simp_all add: put_header_def read_u16_other)

lemma put_header_outside: "x \<notin> {p - 4, p - 3, p - 2, p - 1} \<Longrightarrow> put_header m p off x = m x"
  by (simp add: put_header_def write_u16_def)

lemma SDK_Malloc_cases:
  assumes "k \<le> 15" "malloc_ok alloc"
  obtains "SDK_Malloc alloc sz (2 ^ k) s = (0, s)"
  | q n where "q \<noteq> 0" "q = alloc n (blocks s)" "unat n = unat (SDK_SIZEALIGN sz (2 ^ k)) + 2 ^ k + 4"
      "unat sz \<le> unat (SDK_SIZEALIGN sz (2 ^ k))"
      "SDK_Malloc alloc sz (2 ^ k) s =
         (SDK_SIZEALIGN (q + 4) (2 ^ k),
          s\<lparr>blocks := (q, n) # blocks s,
            hram := put_header (hram s) (SDK_SIZEALIGN (q + 4) (2 ^ k)) (ucast (SDK_SIZEALIGN (q + 4) (2 ^ k) - q))\<rparr>)"
proof -
  let ?a = "SDK_SIZEALIGN sz (2 ^ k)" and ?n = "SDK_SIZEALIGN sz (2 ^ k) + (2 ^ k + 4)"
  let ?q = "alloc ?n (blocks s)"
  have k: "(2 :: nat) ^ k \<le> 2 ^ 15" using assms(1) by (intro power_increasing) simp_all
  then have a: "unat (2 ^ k :: u32) = 2 ^ k" using unat_pow2 [of k] assms(1) by simp
  then have c: "(2 ^ k :: u32) \<noteq> 0" "\<not> - 1 \<le> (2 ^ k :: u32)"
    using k assms(1) by (auto simp: word_le_nat_alt unsigned_minus_1_eq_mask mask_eq_exp_minus_1)
  show ?thesis
  proof (cases "?a < sz \<or> - 1 - 2 ^ k - 4 < ?a \<or> ?q = 0")
    case True
    then show ?thesis using c by (intro that(1)) (auto simp: SDK_Malloc_def Let_def c_malloc_def)
  next
    case False
    have "unat (- 1 - 2 ^ k - 4 :: u32) = 2 ^ 32 - 1 - 2 ^ k - 4" using k a
      by (simp add: unat_minus_small unsigned_minus_1_eq_mask mask_eq_exp_minus_1)
    with False have "unat ?a \<le> 2 ^ 32 - 1 - 2 ^ k - 4" "unat sz \<le> unat ?a" by (simp_all add: word_less_nat_alt not_less)
    moreover have "x \<le> 2 ^ 32 - 1 - c - 4 \<Longrightarrow> c \<le> 2 ^ 15 \<Longrightarrow> x + c + 4 < 2 ^ 32" for x c :: nat by simp
    ultimately have "unat ?a + 2 ^ k + 4 < 2 ^ 32" "unat sz \<le> unat ?a" using k by blast+
    then have "unat ?n = unat ?a + 2 ^ k + 4" "unat sz \<le> unat ?a" using a by (simp_all add: unat_plus_small)
    then show ?thesis using False c
      by (intro that(2) [of ?q ?n]) (simp_all add: SDK_Malloc_def Let_def c_malloc_def put_header_def)
  qed
qed

lemma malloc_block:
  assumes "k \<le> 15" "unat q + (a + 2 ^ k + 4) \<le> 2 ^ 32"
  defines "p \<equiv> SDK_SIZEALIGN (q + 4) (2 ^ k)"
  shows "2 ^ k dvd unat p" "unat q + 4 \<le> unat p" "unat p < unat q + 4 + 2 ^ k"
    "unat (ucast (p - q) :: u16) = unat p - unat q"
proof -
  have "0 < (2 :: nat) ^ k" by simp
  then have "unat q + 4 < 2 ^ 32" using assms(2) by linarith
  then have q: "unat (q + 4) = unat q + 4" by (simp add: unat_plus_small)
  have p: "unat p = (unat (q + 4) + 2 ^ k - 1) div 2 ^ k * 2 ^ k"
    unfolding p_def using assms(1,2) q by (intro sizealign_unat) simp_all
  note r = round_up [of "2 ^ k" "unat (q + 4)"]
  show "2 ^ k dvd unat p" unfolding p by (rule r(3)) simp
  show le: "unat q + 4 \<le> unat p" "unat p < unat q + 4 + 2 ^ k" using r(1,2) unfolding p q by simp_all
  have "(2 :: nat) ^ k \<le> 2 ^ 15" using assms(1) by (intro power_increasing) simp_all
  then have "unat (p - q) < 2 ^ 16" "unat (p - q) = unat p - unat q" using le by (simp_all add: unat_minus_small)
  then show "unat (ucast (p - q) :: u16) = unat p - unat q" by (simp add: unat_ucast_small)
qed

lemma malloc_free_core:
  assumes k: "k \<le> 15" and alloc: "malloc_ok alloc" "\<forall>(q, n) \<in> set (blocks s). n \<noteq> 0"
    and call: "SDK_Malloc alloc sz (2 ^ k) s = (p, s')" "p \<noteq> 0"
  shows "\<exists>q n. blocks s' = (q, n) # blocks s \<and> 2 ^ k dvd unat p \<and>
           unat q + 4 \<le> unat p \<and> unat p + unat sz \<le> unat q + unat n \<and> unat q + unat n \<le> 2 ^ 32 \<and>
           (\<forall>(q', n') \<in> set (blocks s). unat q' + unat n' \<le> unat q \<or> unat q + unat n \<le> unat q') \<and>
           (\<forall>x. x \<notin> {p - 4, p - 3, p - 2, p - 1} \<longrightarrow> hram s' x = hram s x) \<and>
           (\<forall>m. (\<forall>x \<in> {p - 4, p - 3, p - 2, p - 1}. m x = hram s' x) \<longrightarrow>
              SDK_Free p (s'\<lparr>hram := m\<rparr>) = Some (s\<lparr>hram := m\<rparr>))"
  using k alloc(1)
proof (cases rule: SDK_Malloc_cases [where sz = sz and s = s])
  case 1
  with call show ?thesis by simp
next
  case (2 q n)
  have p: "p = SDK_SIZEALIGN (q + 4) (2 ^ k)" and b: "blocks s' = (q, n) # blocks s"
    and m: "hram s' = put_header (hram s) p (ucast (p - q))" and s': "s'\<lparr>hram := m, blocks := x\<rparr> = s\<lparr>hram := m, blocks := x\<rparr>" for m x
    using 2(5) call(1) by auto
  from alloc(1) 2(1,2) have fit: "unat q + unat n \<le> 2 ^ 32"
    "\<forall>(q', n') \<in> set (blocks s). unat q' + unat n' \<le> unat q \<or> unat q + unat n \<le> unat q'"
    unfolding malloc_ok_def by blast+
  note blk = malloc_block [OF k fit(1) [unfolded 2(3)], folded p]
  have "q \<notin> fst ` set (blocks s)"
  proof
    assume "q \<in> fst ` set (blocks s)"
    then obtain n' where "(q, n') \<in> set (blocks s)" by auto
    with fit(2) alloc(2) have "unat n' = 0 \<or> unat n = 0" "n' \<noteq> 0" by fastforce+
    then show False using 2(3) by (simp add: unat_eq_0)
  qed
  then have rest: "filter (\<lambda>b. fst b \<noteq> q) (blocks s) = blocks s" by (force intro: filter_True)
  have free: "SDK_Free p (s'\<lparr>hram := m\<rparr>) = Some (s\<lparr>hram := m\<rparr>)"
    if "\<forall>x \<in> {p - 4, p - 3, p - 2, p - 1}. m x = hram s' x" for m
  proof -
    have "read_u16 m (p - 4) = SDK_MEM_MAGIC_NUMBER" "read_u16 m (p - 4 + 2) = ucast (p - q)"
      using that put_header_read [of "hram s" p "ucast (p - q)"]
      by (simp_all add: read_u16_def m [symmetric])
    moreover have "(ucast (ucast (p - q) :: u16) :: u32) = p - q"
      using blk(2,4) by (simp add: word_unat_eq_iff unat_minus_small)
    ultimately show ?thesis using 2(1) by (simp add: SDK_Free_def Let_def c_free_def b rest s')
  qed
  have "unat p + unat sz \<le> unat q + unat n" using blk(3) 2(3,4) by simp
  then show ?thesis using b blk(1,2) fit free put_header_outside [of _ p "hram s" "ucast (p - q)"]
    unfolding m by blast
qed

subsection \<open>Properties\<close>

text \<open>C33: \<open>SDK_Malloc\<close> and \<open>SDK_Free\<close> for alignments that are powers of two up to 32768. A failed allocation
  changes nothing. A successful one returns an aligned pointer with \<open>sz\<close> bytes behind it and its
  header in front of it, all inside one new block that overlaps no live block, and writes only the
  header; as long as the header is kept, whatever else is stored in memory, \<open>SDK_Free\<close> of the pointer
  releases exactly that block.\<close>
theorem malloc_free:
  assumes "k \<le> 15" "malloc_ok alloc" "\<forall>(q, n) \<in> set (blocks s). n \<noteq> 0" "SDK_Malloc alloc sz (2 ^ k) s = (p, s')"
  shows "if p = 0 then s' = s
         else \<exists>q n. blocks s' = (q, n) # blocks s \<and> 2 ^ k dvd unat p \<and>
           unat q + 4 \<le> unat p \<and> unat p + unat sz \<le> unat q + unat n \<and> unat q + unat n \<le> 2 ^ 32 \<and>
           (\<forall>(q', n') \<in> set (blocks s). unat q' + unat n' \<le> unat q \<or> unat q + unat n \<le> unat q') \<and>
           (\<forall>x. x \<notin> {p - 4, p - 3, p - 2, p - 1} \<longrightarrow> hram s' x = hram s x) \<and>
           (\<forall>m. (\<forall>x \<in> {p - 4, p - 3, p - 2, p - 1}. m x = hram s' x) \<longrightarrow>
              SDK_Free p (s'\<lparr>hram := m\<rparr>) = Some (s\<lparr>hram := m\<rparr>))"
proof (cases "p = 0")
  case True
  from assms(1,2) show ?thesis
  proof (cases rule: SDK_Malloc_cases [where sz = sz and s = s])
    case 1
    with assms(4) True show ?thesis by simp
  next
    case (2 q n)
    with assms(2) have "unat q + unat n \<le> 2 ^ 32" unfolding malloc_ok_def by blast
    from malloc_block(2) [OF assms(1) this [unfolded 2(3)]] 2(5) assms(4) True show ?thesis by auto
  qed
next
  case False
  then show ?thesis using malloc_free_core [OF assms] by simp
qed

text \<open>An allocator with one free area; five bytes aligned to 16.\<close>

definition one_block :: "u32 \<Rightarrow> (u32 \<times> u32) list \<Rightarrow> u32" where
  "one_block n bs = (if bs = [] \<and> n \<le> 0x1000 then 0x20000 else 0)"

lemma one_block_ok: "malloc_ok one_block"
  by (auto simp: malloc_ok_def one_block_def word_le_nat_alt)

theorem malloc_free_witness:
  "\<exists>s'. SDK_Malloc one_block 5 16 \<lparr>blocks = [], hram = \<lambda>a. 0\<rparr> = (0x20010, s') \<and> blocks s' = [(0x20000, 36)] \<and>
     SDK_Free 0x20010 (s'\<lparr>hram := (hram s')(0x20010 := 7)\<rparr>) = Some \<lparr>blocks = [], hram = (hram s')(0x20010 := 7)\<rparr>"
proof -
  let ?s = "\<lparr>blocks = [], hram = \<lambda>a. 0\<rparr>"
  have "fst (SDK_Malloc one_block 5 (2 ^ 4) ?s) = 0x20010" "blocks (snd (SDK_Malloc one_block 5 (2 ^ 4) ?s)) = [(0x20000, 36)]"
    by code_simp+
  then obtain s' where c: "SDK_Malloc one_block 5 (2 ^ 4) ?s = (0x20010, s')" "blocks s' = [(0x20000, 36)]"
    by (cases "SDK_Malloc one_block 5 (2 ^ 4) ?s") simp
  have "\<forall>m. (\<forall>x \<in> {0x20010 - 4, 0x20010 - 3, 0x20010 - 2, 0x20010 - 1}. m x = hram s' x) \<longrightarrow>
      SDK_Free 0x20010 (s'\<lparr>hram := m\<rparr>) = Some (?s\<lparr>hram := m\<rparr>)"
    using malloc_free [OF _ one_block_ok _ c(1)] by auto
  from this [THEN spec, of "(hram s')(0x20010 := 7)"] have
    "SDK_Free 0x20010 (s'\<lparr>hram := (hram s')(0x20010 := 7)\<rparr>) = Some (?s\<lparr>hram := (hram s')(0x20010 := 7)\<rparr>)" by simp
  then show ?thesis using c by simp
qed

text \<open>
  With an alignment of 65536 the distance need not fit its 16 bits: for a block at 0x10000 it is
  stored as 0, and freeing the pointer passes an address to \<open>free\<close> that is no block.
\<close>

lemma malloc_large_alignment:
  "case SDK_Malloc (\<lambda>n bs. 0x10000) 5 0x10000 \<lparr>blocks = [], hram = \<lambda>a. 0\<rparr> of
     (p, s') \<Rightarrow> p = 0x20000 \<and> blocks s' = [(0x10000, 0x20004)] \<and> SDK_Free p s' = None"
  by code_simp

end
