(* ===== verification/Lpuart.thy ===== *)
theory Lpuart
  imports Sdk_Memory
begin

text \<open>
  \<open>drivers/lpuart/fsl_lpuart.c\<close> and the inline functions of \<open>fsl_lpuart.h\<close>, register level:
  configuration, baud rate, interrupt enables, status flags and blocking transfers. The
  transactional interface and the interrupt handler are in \<open>Lpuart_Irq\<close>.

  The state of one instance is the device, the handle \<open>lpuart_handle_t\<close>, the RAM that the transfer
  and ring buffers live in, the interrupt mask of the core and the tables \<open>s_lpuartHandle\<close> and
  \<open>s_lpuartIsr\<close> of all instances. \<open>None\<close> is a failed assertion, a division by zero, a call or an
  access through a null pointer, or a loop that never ends. Callbacks are numbered; a callback may
  change the whole state of the instance. Conditional compilation on a feature of the device is a
  test of \<open>lp_has\<close>.
\<close>

subsection \<open>Data\<close>

datatype lpuart_parity_mode = kLPUART_ParityDisabled | kLPUART_ParityEven | kLPUART_ParityOdd
datatype lpuart_data_bits = kLPUART_EightDataBits | kLPUART_SevenDataBits
datatype lpuart_stop_bit_count = kLPUART_OneStopBit | kLPUART_TwoStopBit
datatype lpuart_transmit_cts_source = kLPUART_CtsSourcePin | kLPUART_CtsSourceMatchResult
datatype lpuart_transmit_cts_config = kLPUART_CtsSampleAtStart | kLPUART_CtsSampleAtIdle
datatype lpuart_idle_type_select = kLPUART_IdleTypeStartBit | kLPUART_IdleTypeStopBit
datatype lpuart_idle_config =
    kLPUART_IdleCharacter1 | kLPUART_IdleCharacter2 | kLPUART_IdleCharacter4 | kLPUART_IdleCharacter8
  | kLPUART_IdleCharacter16 | kLPUART_IdleCharacter32 | kLPUART_IdleCharacter64 | kLPUART_IdleCharacter128

primrec lp_parity_num :: "lpuart_parity_mode \<Rightarrow> u32" where
  "lp_parity_num kLPUART_ParityDisabled = 0" | "lp_parity_num kLPUART_ParityEven = 2"
| "lp_parity_num kLPUART_ParityOdd = 3"

primrec lp_stop_num :: "lpuart_stop_bit_count \<Rightarrow> u32" where
  "lp_stop_num kLPUART_OneStopBit = 0" | "lp_stop_num kLPUART_TwoStopBit = 1"

primrec lp_cts_source_num :: "lpuart_transmit_cts_source \<Rightarrow> u32" where
  "lp_cts_source_num kLPUART_CtsSourcePin = 0" | "lp_cts_source_num kLPUART_CtsSourceMatchResult = 1"

primrec lp_cts_config_num :: "lpuart_transmit_cts_config \<Rightarrow> u32" where
  "lp_cts_config_num kLPUART_CtsSampleAtStart = 0" | "lp_cts_config_num kLPUART_CtsSampleAtIdle = 1"

primrec lp_idle_type_num :: "lpuart_idle_type_select \<Rightarrow> u32" where
  "lp_idle_type_num kLPUART_IdleTypeStartBit = 0" | "lp_idle_type_num kLPUART_IdleTypeStopBit = 1"

primrec lp_idle_config_num :: "lpuart_idle_config \<Rightarrow> u32" where
  "lp_idle_config_num kLPUART_IdleCharacter1 = 0" | "lp_idle_config_num kLPUART_IdleCharacter2 = 1"
| "lp_idle_config_num kLPUART_IdleCharacter4 = 2" | "lp_idle_config_num kLPUART_IdleCharacter8 = 3"
| "lp_idle_config_num kLPUART_IdleCharacter16 = 4" | "lp_idle_config_num kLPUART_IdleCharacter32 = 5"
| "lp_idle_config_num kLPUART_IdleCharacter64 = 6" | "lp_idle_config_num kLPUART_IdleCharacter128 = 7"

text \<open>Members that a device without the feature lacks are there and unused.\<close>

record lpuart_config =
  baudRate_Bps :: u32
  parityMode :: lpuart_parity_mode
  dataBitsCount :: lpuart_data_bits
  isMsb :: bool
  stopBitCount :: lpuart_stop_bit_count
  txFifoWatermark :: u8
  rxFifoWatermark :: u8
  enableRxRTS :: bool
  enableTxCTS :: bool
  txCtsSource :: lpuart_transmit_cts_source
  txCtsConfig :: lpuart_transmit_cts_config
  rtsWatermark :: u8
  rxIdleType :: lpuart_idle_type_select
  rxIdleConfig :: lpuart_idle_config
  enableTx :: bool
  enableRx :: bool
  swapTxdRxd :: bool

text \<open>The pointers to bytes and to half-words share their storage (unions); so do the ones of a transfer.\<close>

record lpuart_transfer =
  xfer_data :: u32
  xfer_dataSize :: u32

datatype lpuart_tx_state = kLPUART_TxIdle | kLPUART_TxBusy
datatype lpuart_rx_state = kLPUART_RxIdle | kLPUART_RxBusy

record lpuart_handle =
  txData :: u32
  txDataSize :: u32
  txDataSizeAll :: u32
  rxData :: u32
  rxDataSize :: u32
  rxDataSizeAll :: u32
  rxRingBuffer :: u32
  rxRingBufferSize :: u32
  rxRingBufferHead :: u16
  rxRingBufferTail :: u16
  callback :: "nat option"
  userData :: u32
  txState :: lpuart_tx_state
  rxState :: lpuart_rx_state
  isSevenDataBits :: bool
  is16bitData :: bool

datatype lpuart_isr = Isr_Null | Isr_TransferHandleIRQ | Isr_Other nat

record 'd lpuart =
  lp_dev :: 'd
  lp_handle :: lpuart_handle
  lp_ram :: mem
  lp_primask :: u32
  s_lpuartHandle :: "u32 list"
  s_lpuartIsr :: "lpuart_isr list"

definition kStatus_LPUART_TxBusy :: status where "kStatus_LPUART_TxBusy = MAKE_STATUS kStatusGroup_LPUART 0"
definition kStatus_LPUART_RxBusy :: status where "kStatus_LPUART_RxBusy = MAKE_STATUS kStatusGroup_LPUART 1"
definition kStatus_LPUART_TxIdle :: status where "kStatus_LPUART_TxIdle = MAKE_STATUS kStatusGroup_LPUART 2"
definition kStatus_LPUART_RxIdle :: status where "kStatus_LPUART_RxIdle = MAKE_STATUS kStatusGroup_LPUART 3"
definition kStatus_LPUART_FlagCannotClearManually :: status where
  "kStatus_LPUART_FlagCannotClearManually = MAKE_STATUS kStatusGroup_LPUART 6"
definition kStatus_LPUART_RxRingBufferOverrun :: status where
  "kStatus_LPUART_RxRingBufferOverrun = MAKE_STATUS kStatusGroup_LPUART 8"
definition kStatus_LPUART_RxHardwareOverrun :: status where
  "kStatus_LPUART_RxHardwareOverrun = MAKE_STATUS kStatusGroup_LPUART 9"
definition kStatus_LPUART_NoiseError :: status where "kStatus_LPUART_NoiseError = MAKE_STATUS kStatusGroup_LPUART 10"
definition kStatus_LPUART_FramingError :: status where "kStatus_LPUART_FramingError = MAKE_STATUS kStatusGroup_LPUART 11"
definition kStatus_LPUART_ParityError :: status where "kStatus_LPUART_ParityError = MAKE_STATUS kStatusGroup_LPUART 12"
definition kStatus_LPUART_BaudrateNotSupport :: status where
  "kStatus_LPUART_BaudrateNotSupport = MAKE_STATUS kStatusGroup_LPUART 13"
definition kStatus_LPUART_IdleLineDetected :: status where
  "kStatus_LPUART_IdleLineDetected = MAKE_STATUS kStatusGroup_LPUART 14"
definition kStatus_LPUART_Timeout :: status where "kStatus_LPUART_Timeout = MAKE_STATUS kStatusGroup_LPUART 15"

lemmas lpuart_status_defs =
  kStatus_LPUART_TxBusy_def kStatus_LPUART_RxBusy_def kStatus_LPUART_TxIdle_def kStatus_LPUART_RxIdle_def
  kStatus_LPUART_FlagCannotClearManually_def kStatus_LPUART_RxRingBufferOverrun_def kStatus_LPUART_RxHardwareOverrun_def
  kStatus_LPUART_NoiseError_def kStatus_LPUART_FramingError_def kStatus_LPUART_ParityError_def
  kStatus_LPUART_BaudrateNotSupport_def kStatus_LPUART_IdleLineDetected_def kStatus_LPUART_Timeout_def status_defs

subsection \<open>Registers and parameters\<close>

datatype lpuart_reg = P_BAUD | P_STAT | P_CTRL | P_DATA | P_MATCH | P_MODIR | P_FIFO | P_WATER | P_GLOBAL

datatype lpuart_mask =
    M_BAUD_LBKDIE | M_BAUD_RXEDGIE | M_BAUD_BOTHEDGE | M_BAUD_OSR | M_BAUD_SBR | M_BAUD_M10 | M_BAUD_SBNS
  | M_BAUD_MAEN1 | M_BAUD_MAEN2 | M_BAUD_TDMAE | M_BAUD_RDMAE
  | M_FIFO_TXOF | M_FIFO_RXUF | M_FIFO_TXOFE | M_FIFO_RXUFE | M_FIFO_TXEMPT | M_FIFO_RXEMPT | M_FIFO_TXFE
  | M_FIFO_RXFE | M_FIFO_TXFLUSH | M_FIFO_RXFLUSH
  | M_CTRL_TE | M_CTRL_RE | M_CTRL_M | M_CTRL_M7 | M_CTRL_PE | M_CTRL_PT | M_CTRL_ILT | M_CTRL_IDLECFG | M_CTRL_SWAP
  | M_CTRL_TIE | M_CTRL_TCIE | M_CTRL_RIE | M_CTRL_ILIE | M_CTRL_ORIE | M_CTRL_NEIE | M_CTRL_FEIE | M_CTRL_PEIE
  | M_CTRL_MA1IE | M_CTRL_MA2IE
  | M_STAT_LBKDIF | M_STAT_RXEDGIF | M_STAT_IDLE | M_STAT_OR | M_STAT_NF | M_STAT_FE | M_STAT_PF | M_STAT_MA1F
  | M_STAT_MA2F | M_STAT_TDRE | M_STAT_TC | M_STAT_RDRF | M_STAT_RAF | M_STAT_MSBF
  | M_WATER_TXCOUNT | M_WATER_RXCOUNT | M_WATER_TXWATER | M_WATER_RXWATER
  | M_MODIR_RXRTSE | M_MODIR_TXCTSE | M_MODIR_RTSWATER | M_GLOBAL_RST

datatype lpuart_field =
    V_BAUD_OSR | V_BAUD_SBR | V_BAUD_SBNS | V_CTRL_IDLECFG | V_CTRL_ILT | V_MODIR_TXCTSC | V_MODIR_TXCTSSRC
  | V_MODIR_RTSWATER | V_WATER_RXWATER | V_WATER_TXWATER

datatype lpuart_feature =
    HAS_FIFO | HAS_7BIT_DATA_SUPPORT | HAS_10BIT_DATA_SUPPORT | HAS_LIN_BREAK_DETECT | HAS_ADDRESS_MATCHING
  | HAS_MODEM_SUPPORT | HAS_MODIR_RTSWATER | HAS_STOP_BIT_CONFIG_SUPPORT | HAS_CTRL_SWAP | HAS_GLOBAL
  | HAS_CLOCK_CONTROL | HAS_PERIPH_CLOCKS | HAS_RESETS_ARRAY | HAS_SEPARATE_RX_TX_IRQ | HAS_RX_IRQS | HAS_TX_IRQS
  | HAS_RX_TX_IRQS

datatype lpuart_irq = LpRxIrq | LpTxIrq | LpRxTxIrq

record 'd lpuart_soc = "(lpuart_reg, 'd) mmio" +
  lp_mask :: "lpuart_mask \<Rightarrow> u32"
  lp_field :: "lpuart_field \<Rightarrow> u32 \<Rightarrow> u32"
  lp_has :: "lpuart_feature \<Rightarrow> bool"
  WATER_TXCOUNT_SHIFT :: nat
  WATER_TXWATER_SHIFT :: nat
  WATER_RXCOUNT_SHIFT :: nat
  DATA_R8T8_SHIFT :: nat
  FIFO_SIZEn :: int
  RETRY_TIMES :: u32
  lpuart_bases :: "u32 list"
  lpuart_cmse :: bool
  lp_EnableClock :: "bool \<Rightarrow> nat \<Rightarrow> 'd \<Rightarrow> 'd"
  lp_DisableClock :: "bool \<Rightarrow> nat \<Rightarrow> 'd \<Rightarrow> 'd"
  lp_ReleaseReset :: "nat \<Rightarrow> 'd \<Rightarrow> 'd"
  lp_EnableIRQ :: "lpuart_irq \<Rightarrow> nat \<Rightarrow> 'd \<Rightarrow> 'd"
  lp_invoke :: "nat \<Rightarrow> status \<Rightarrow> u32 \<Rightarrow> 'd lpuart \<Rightarrow> 'd lpuart option"

definition on_lpdev :: "('d \<Rightarrow> 'd) \<Rightarrow> 'd lpuart \<Rightarrow> 'd lpuart" where
  "on_lpdev f s = s\<lparr>lp_dev := f (lp_dev s)\<rparr>"

definition on_lph :: "(lpuart_handle \<Rightarrow> lpuart_handle) \<Rightarrow> 'd lpuart \<Rightarrow> 'd lpuart" where
  "on_lph f s = s\<lparr>lp_handle := f (lp_handle s)\<rparr>"

text \<open>
  A read-modify-write of a register between \<open>DisableGlobalIRQ\<close> and \<open>EnableGlobalIRQ\<close>.
\<close>

definition lp_atomic :: "('d \<Rightarrow> 'd) \<Rightarrow> 'd lpuart \<Rightarrow> 'd lpuart" where
  "lp_atomic f s =
     (let (irqMask, p) = DisableGlobalIRQ (lp_primask s);
          s = on_lpdev f (s\<lparr>lp_primask := p\<rparr>)
      in s\<lparr>lp_primask := EnableGlobalIRQ irqMask (lp_primask s)\<rparr>)"

text \<open>The pattern \<open>if (b) base->R |= m; else base->R &= ~m;\<close>.\<close>

definition lp_switch :: "'d lpuart_soc \<Rightarrow> lpuart_reg \<Rightarrow> lpuart_mask \<Rightarrow> bool \<Rightarrow> 'd \<Rightarrow> 'd" where
  "lp_switch soc r m b d = (if b then reg_set soc r (lp_mask soc m) d else reg_clear soc r (lp_mask soc m) d)"

text \<open>\<open>#if\<close> on a feature around a mask.\<close>

definition lp_opt :: "'d lpuart_soc \<Rightarrow> lpuart_feature \<Rightarrow> u32 \<Rightarrow> u32" where
  "lp_opt soc ft m = (if lp_has soc ft then m else 0)"

subsection \<open>Inline functions of the header\<close>

definition LPUART_SoftwareReset :: "'d lpuart_soc \<Rightarrow> 'd \<Rightarrow> 'd" where
  "LPUART_SoftwareReset soc d =
     reg_clear soc P_GLOBAL (lp_mask soc M_GLOBAL_RST) (reg_set soc P_GLOBAL (lp_mask soc M_GLOBAL_RST) d)"

definition LPUART_SetMatchAddress :: "'d lpuart_soc \<Rightarrow> u16 \<Rightarrow> u16 \<Rightarrow> 'd \<Rightarrow> 'd" where
  "LPUART_SetMatchAddress soc address1 address2 d =
     reg_write soc P_MATCH (push_bit 16 (ucast address2) OR ucast address1 OR 0x1000100) d"

definition LPUART_EnableMatchAddress :: "'d lpuart_soc \<Rightarrow> bool \<Rightarrow> bool \<Rightarrow> 'd \<Rightarrow> 'd" where
  "LPUART_EnableMatchAddress soc match1 match2 d =
     lp_switch soc P_BAUD M_BAUD_MAEN2 match2 (lp_switch soc P_BAUD M_BAUD_MAEN1 match1 d)"

definition lp_fifo_assert :: "'d lpuart_soc \<Rightarrow> u8 \<Rightarrow> unit option" where
  "lp_fifo_assert soc water = do {
     c_assert (0 < FIFO_SIZEn soc);
     c_assert (water < word_of_int (FIFO_SIZEn soc))
   }"

definition LPUART_SetRxFifoWatermark :: "'d lpuart_soc \<Rightarrow> u8 \<Rightarrow> 'd \<Rightarrow> 'd option" where
  "LPUART_SetRxFifoWatermark soc water d = do {
     lp_fifo_assert soc water;
     let (v, d) = reg_read soc P_WATER d;
     Some (reg_write soc P_WATER
       (v AND NOT (lp_mask soc M_WATER_RXWATER) OR lp_field soc V_WATER_RXWATER (ucast water)) d)
   }"

definition LPUART_SetTxFifoWatermark :: "'d lpuart_soc \<Rightarrow> u8 \<Rightarrow> 'd \<Rightarrow> 'd option" where
  "LPUART_SetTxFifoWatermark soc water d = do {
     lp_fifo_assert soc water;
     let (v, d) = reg_read soc P_WATER d;
     Some (reg_write soc P_WATER
       (v AND NOT (lp_mask soc M_WATER_TXWATER) OR lp_field soc V_WATER_TXWATER (ucast water)) d)
   }"

definition LPUART_TransferEnable16Bit :: "bool \<Rightarrow> 'd lpuart \<Rightarrow> 'd lpuart" where
  "LPUART_TransferEnable16Bit enable s = on_lph (\<lambda>h. h\<lparr>is16bitData := enable\<rparr>) s"

definition LPUART_EnableTxDMA :: "'d lpuart_soc \<Rightarrow> bool \<Rightarrow> 'd \<Rightarrow> 'd" where
  "LPUART_EnableTxDMA soc enable d = lp_switch soc P_BAUD M_BAUD_TDMAE enable d"

definition LPUART_EnableRxDMA :: "'d lpuart_soc \<Rightarrow> bool \<Rightarrow> 'd \<Rightarrow> 'd" where
  "LPUART_EnableRxDMA soc enable d = lp_switch soc P_BAUD M_BAUD_RDMAE enable d"

text \<open>The sums of the interrupt enable and flag enumerators.\<close>

definition kLPUART_AllInterruptEnable :: "'d lpuart_soc \<Rightarrow> u32" where
  "kLPUART_AllInterruptEnable soc =
     drop_bit 8 (lp_mask soc M_BAUD_RXEDGIE) OR lp_mask soc M_CTRL_TIE OR lp_mask soc M_CTRL_TCIE OR
     lp_mask soc M_CTRL_RIE OR lp_mask soc M_CTRL_ILIE OR lp_mask soc M_CTRL_ORIE OR lp_mask soc M_CTRL_NEIE OR
     lp_mask soc M_CTRL_FEIE OR lp_mask soc M_CTRL_PEIE OR
     lp_opt soc HAS_LIN_BREAK_DETECT (drop_bit 8 (lp_mask soc M_BAUD_LBKDIE)) OR
     lp_opt soc HAS_ADDRESS_MATCHING (lp_mask soc M_CTRL_MA1IE OR lp_mask soc M_CTRL_MA2IE) OR
     lp_opt soc HAS_FIFO (lp_mask soc M_FIFO_TXOFE OR lp_mask soc M_FIFO_RXUFE)"

definition kLPUART_AllClearFlags :: "'d lpuart_soc \<Rightarrow> u32" where
  "kLPUART_AllClearFlags soc =
     lp_mask soc M_STAT_RXEDGIF OR lp_mask soc M_STAT_IDLE OR lp_mask soc M_STAT_OR OR lp_mask soc M_STAT_NF OR
     lp_mask soc M_STAT_FE OR lp_mask soc M_STAT_PF OR
     lp_opt soc HAS_ADDRESS_MATCHING (lp_mask soc M_STAT_MA1F OR lp_mask soc M_STAT_MA2F) OR
     lp_opt soc HAS_FIFO (drop_bit 16 (lp_mask soc M_FIFO_TXOF) OR drop_bit 16 (lp_mask soc M_FIFO_RXUF)) OR
     lp_opt soc HAS_LIN_BREAK_DETECT (lp_mask soc M_STAT_LBKDIF)"

definition kLPUART_AllFlags :: "'d lpuart_soc \<Rightarrow> u32" where
  "kLPUART_AllFlags soc =
     lp_mask soc M_STAT_RXEDGIF OR lp_mask soc M_STAT_IDLE OR lp_mask soc M_STAT_OR OR lp_mask soc M_STAT_TDRE OR
     lp_mask soc M_STAT_TC OR lp_mask soc M_STAT_RDRF OR lp_mask soc M_STAT_RAF OR lp_mask soc M_STAT_NF OR
     lp_mask soc M_STAT_FE OR lp_mask soc M_STAT_PF OR
     lp_opt soc HAS_ADDRESS_MATCHING (lp_mask soc M_STAT_MA1F OR lp_mask soc M_STAT_MA2F) OR
     lp_opt soc HAS_FIFO
       (drop_bit 16 (lp_mask soc M_FIFO_TXOF) OR drop_bit 16 (lp_mask soc M_FIFO_RXUF) OR
        drop_bit 16 (lp_mask soc M_FIFO_TXEMPT) OR drop_bit 16 (lp_mask soc M_FIFO_RXEMPT)) OR
     lp_opt soc HAS_LIN_BREAK_DETECT (lp_mask soc M_STAT_LBKDIF)"

definition LPUART_GetInstance :: "'d lpuart_soc \<Rightarrow> u32 \<Rightarrow> nat option" where
  "LPUART_GetInstance soc base = do {
     let i = find_base (lpuart_cmse soc) (lpuart_bases soc) base;
     c_assert (i < length (lpuart_bases soc));
     Some i
   }"

subsection \<open>Baud rate\<close>

text \<open>
  One iteration of the search of \<open>LPUART_Init\<close> and \<open>LPUART_SetBaudRate\<close>; \<open>best\<close> is \<open>baudDiff\<close>,
  \<open>osr\<close> and \<open>sbr\<close>. The divider is computed in 64 bits.
\<close>

definition lp_sbr :: "'d lpuart_soc \<Rightarrow> u64 \<Rightarrow> u64" where
  "lp_sbr soc sbrTemp =
     (if sbrTemp = 0 then 1
      else if ucast (lp_mask soc M_BAUD_SBR) < sbrTemp then ucast (lp_mask soc M_BAUD_SBR) else sbrTemp)"

definition lp_baud_step :: "'d lpuart_soc \<Rightarrow> u32 \<Rightarrow> u32 \<Rightarrow> u8 \<Rightarrow> u32 \<times> u8 \<times> u16 \<Rightarrow> (u32 \<times> u8 \<times> u16) option" where
  "lp_baud_step soc baudRate srcClock_Hz osrTemp best = do {
     q \<leftarrow> c_div (ucast srcClock_Hz * 2 :: u64) (ucast baudRate * ucast osrTemp);
     let sbrTemp = lp_sbr soc ((q + 1) div 2);
     calculatedBaud \<leftarrow> c_div srcClock_Hz (ucast osrTemp * ucast sbrTemp);
     let tempDiff = (if baudRate < calculatedBaud then calculatedBaud - baudRate else baudRate - calculatedBaud);
     Some (if tempDiff \<le> fst best then (tempDiff, osrTemp, ucast sbrTemp) else best)
   }"

function lp_baud_loop :: "'d lpuart_soc \<Rightarrow> u32 \<Rightarrow> u32 \<Rightarrow> u8 \<Rightarrow> u32 \<times> u8 \<times> u16 \<Rightarrow> (u32 \<times> u8 \<times> u16) option" where
  "lp_baud_loop soc baudRate srcClock_Hz osrTemp best =
     (if osrTemp \<le> 32 then do {
        best \<leftarrow> lp_baud_step soc baudRate srcClock_Hz osrTemp best;
        lp_baud_loop soc baudRate srcClock_Hz (osrTemp + 1) best
      } else Some best)"
  by pat_completeness auto
termination
  by (relation "measure (\<lambda>(_, _, _, osr, _). 256 - unat osr)") (auto simp: word_le_nat_alt unat_plus_small)

declare lp_baud_loop.simps [simp del]

definition lp_baud_search :: "'d lpuart_soc \<Rightarrow> u32 \<Rightarrow> u32 \<Rightarrow> (u32 \<times> u8 \<times> u16) option" where
  "lp_baud_search soc baudRate srcClock_Hz = lp_baud_loop soc baudRate srcClock_Hz 4 (baudRate, 0, 0)"

text \<open>Writing the rate: from \<open>temp = base->BAUD\<close> to \<open>base->BAUD = temp | LPUART_BAUD_SBR(sbr)\<close>.\<close>

definition lp_write_baud :: "'d lpuart_soc \<Rightarrow> u8 \<Rightarrow> u16 \<Rightarrow> 'd \<Rightarrow> 'd" where
  "lp_write_baud soc osr sbr d =
     (let (temp, d) = reg_read soc P_BAUD d;
          temp = (if 3 < osr \<and> osr < 8 then temp OR lp_mask soc M_BAUD_BOTHEDGE else temp);
          temp = temp AND NOT (lp_mask soc M_BAUD_OSR);
          temp = temp OR lp_field soc V_BAUD_OSR (ucast osr - 1);
          temp = temp AND NOT (lp_mask soc M_BAUD_SBR)
      in reg_write soc P_BAUD (temp OR lp_field soc V_BAUD_SBR (ucast sbr)) d)"

definition LPUART_SetBaudRate :: "'d lpuart_soc \<Rightarrow> u32 \<Rightarrow> u32 \<Rightarrow> 'd \<Rightarrow> (status \<times> 'd) option" where
  "LPUART_SetBaudRate soc baudRate srcClock_Hz d = do {
     c_assert (0 < baudRate);
     (baudDiff, osr, sbr) \<leftarrow> lp_baud_search soc baudRate srcClock_Hz;
     if baudDiff < baudRate div 100 * 3 then do {
       let (oldCtrl, d) = reg_read soc P_CTRL d;
       let d = reg_clear soc P_CTRL (lp_mask soc M_CTRL_TE OR lp_mask soc M_CTRL_RE) d;
       let d = lp_write_baud soc osr sbr d;
       Some (kStatus_Success, reg_write soc P_CTRL oldCtrl d)
     } else Some (kStatus_LPUART_BaudrateNotSupport, d)
   }"

subsection \<open>Configuration\<close>

text \<open>The flags that \<open>LPUART_Init\<close> and \<open>LPUART_Deinit\<close> clear.\<close>

definition lp_flags_to_clear :: "'d lpuart_soc \<Rightarrow> u32" where
  "lp_flags_to_clear soc =
     lp_mask soc M_STAT_RXEDGIF OR lp_mask soc M_STAT_IDLE OR lp_mask soc M_STAT_OR OR lp_mask soc M_STAT_NF OR
     lp_mask soc M_STAT_FE OR lp_mask soc M_STAT_PF OR lp_opt soc HAS_LIN_BREAK_DETECT (lp_mask soc M_STAT_LBKDIF) OR
     lp_opt soc HAS_ADDRESS_MATCHING (lp_mask soc M_STAT_MA1F OR lp_mask soc M_STAT_MA2F)"

text \<open>The value of CTRL that \<open>LPUART_Init\<close> computes from the old one for bit count, parity and pins.\<close>

definition lp_ctrl_value :: "'d lpuart_soc \<Rightarrow> lpuart_config \<Rightarrow> u32 \<Rightarrow> u32" where
  "lp_ctrl_value soc config ctrl =
     (let temp = ctrl AND NOT (lp_mask soc M_CTRL_PE OR lp_mask soc M_CTRL_PT OR lp_mask soc M_CTRL_M OR
                               lp_mask soc M_CTRL_ILT OR lp_mask soc M_CTRL_IDLECFG);
          temp = temp OR (lp_parity_num (parityMode config) OR
                          lp_field soc V_CTRL_IDLECFG (lp_idle_config_num (rxIdleConfig config)) OR
                          lp_field soc V_CTRL_ILT (lp_idle_type_num (rxIdleType config)));
          temp = (if lp_has soc HAS_7BIT_DATA_SUPPORT \<and> kLPUART_SevenDataBits = dataBitsCount config then
                    if kLPUART_ParityDisabled \<noteq> parityMode config then temp AND NOT (lp_mask soc M_CTRL_M7)
                    else temp OR lp_mask soc M_CTRL_M7
                  else if kLPUART_ParityDisabled \<noteq> parityMode config then temp OR lp_mask soc M_CTRL_M else temp)
      in if lp_has soc HAS_CTRL_SWAP then
           if swapTxdRxd config then temp OR lp_mask soc M_CTRL_SWAP else temp AND NOT (lp_mask soc M_CTRL_SWAP)
         else temp)"

definition lp_init_clocks :: "'d lpuart_soc \<Rightarrow> u32 \<Rightarrow> 'd \<Rightarrow> 'd option" where
  "lp_init_clocks soc base d = do {
     d \<leftarrow> (if lp_has soc HAS_CLOCK_CONTROL then do {
             inst \<leftarrow> LPUART_GetInstance soc base;
             let d = lp_EnableClock soc False inst d;
             Some (if lp_has soc HAS_PERIPH_CLOCKS then lp_EnableClock soc True inst d else d)
           } else Some d);
     if lp_has soc HAS_RESETS_ARRAY then do {
       inst \<leftarrow> LPUART_GetInstance soc base;
       Some (lp_ReleaseReset soc inst d)
     } else Some d
   }"

definition lp_init_fifo :: "'d lpuart_soc \<Rightarrow> lpuart_config \<Rightarrow> 'd \<Rightarrow> 'd" where
  "lp_init_fifo soc config d =
     (let d = reg_write soc P_WATER (push_bit 16 (ucast (rxFifoWatermark config)) OR ucast (txFifoWatermark config)) d;
          d = reg_set soc P_FIFO (lp_mask soc M_FIFO_TXFE OR lp_mask soc M_FIFO_RXFE) d
      in reg_set soc P_FIFO (lp_mask soc M_FIFO_TXFLUSH OR lp_mask soc M_FIFO_RXFLUSH) d)"

definition lp_init_modem :: "'d lpuart_soc \<Rightarrow> lpuart_config \<Rightarrow> 'd \<Rightarrow> 'd" where
  "lp_init_modem soc config d =
     (let d = reg_set soc P_MODIR (lp_field soc V_MODIR_TXCTSC (lp_cts_config_num (txCtsConfig config)) OR
                                   lp_field soc V_MODIR_TXCTSSRC (lp_cts_source_num (txCtsSource config))) d;
          d = (if enableRxRTS config then reg_set soc P_MODIR (lp_mask soc M_MODIR_RXRTSE) d else d);
          d = (if enableTxCTS config then reg_set soc P_MODIR (lp_mask soc M_MODIR_TXCTSE) d else d)
      in if lp_has soc HAS_MODIR_RTSWATER then
           reg_set soc P_MODIR (lp_field soc V_MODIR_RTSWATER (ucast (rtsWatermark config)))
             (reg_clear soc P_MODIR (lp_mask soc M_MODIR_RTSWATER) d)
         else d)"

text \<open>The part of \<open>LPUART_Init\<close> after an acceptable rate is found.\<close>

definition lp_init_device :: "'d lpuart_soc \<Rightarrow> u32 \<Rightarrow> lpuart_config \<Rightarrow> u8 \<Rightarrow> u16 \<Rightarrow> 'd \<Rightarrow> 'd option" where
  "lp_init_device soc base config osr sbr d = do {
     d \<leftarrow> lp_init_clocks soc base d;
     let d = (if lp_has soc HAS_GLOBAL then LPUART_SoftwareReset soc d
              else reg_clear soc P_CTRL (lp_mask soc M_CTRL_TE OR lp_mask soc M_CTRL_RE) d);
     let d = lp_write_baud soc osr sbr d;
     let d = reg_clear soc P_BAUD (lp_mask soc M_BAUD_M10) d;
     let (ctrl, d) = reg_read soc P_CTRL d;
     let d = reg_write soc P_CTRL (lp_ctrl_value soc config ctrl) d;
     let d = (if lp_has soc HAS_STOP_BIT_CONFIG_SUPPORT then
                let (v, d) = reg_read soc P_BAUD d
                in reg_write soc P_BAUD (v AND NOT (lp_mask soc M_BAUD_SBNS) OR
                                         lp_field soc V_BAUD_SBNS (lp_stop_num (stopBitCount config))) d
              else d);
     let d = (if lp_has soc HAS_FIFO then lp_init_fifo soc config d else d);
     let temp = lp_flags_to_clear soc;
     let d = (if lp_has soc HAS_MODEM_SUPPORT then lp_init_modem soc config d else d);
     let temp = (if isMsb config then temp OR lp_mask soc M_STAT_MSBF else temp AND NOT (lp_mask soc M_STAT_MSBF));
     let d = reg_set soc P_STAT temp d;
     let (ctrl, d) = reg_read soc P_CTRL d;
     let ctrl = (if enableTx config then ctrl OR lp_mask soc M_CTRL_TE else ctrl);
     let ctrl = (if enableRx config then ctrl OR lp_mask soc M_CTRL_RE else ctrl);
     Some (reg_write soc P_CTRL ctrl d)
   }"

definition LPUART_Init :: "'d lpuart_soc \<Rightarrow> u32 \<Rightarrow> lpuart_config \<Rightarrow> u32 \<Rightarrow> 'd \<Rightarrow> (status \<times> 'd) option" where
  "LPUART_Init soc base config srcClock_Hz d = do {
     c_assert (0 < baudRate_Bps config);
     (if lp_has soc HAS_FIFO then do {
        lp_fifo_assert soc (txFifoWatermark config);
        lp_fifo_assert soc (rxFifoWatermark config)
      } else Some ());
     (baudDiff, osr, sbr) \<leftarrow> lp_baud_search soc (baudRate_Bps config) srcClock_Hz;
     if baudRate_Bps config div 100 * 3 < baudDiff then Some (kStatus_LPUART_BaudrateNotSupport, d)
     else do {
       d \<leftarrow> lp_init_device soc base config osr sbr d;
       Some (kStatus_Success, d)
     }
   }"

text \<open>
  The wait loops: \<open>ready\<close> is the negated condition. With \<open>UART_RETRY_TIMES\<close> not 0 the loop counts
  down; the result is the count that is left, 0 after a timeout. Otherwise it waits for ever.
\<close>

partial_function (option) lp_wait ::
    "'d lpuart_soc \<Rightarrow> ('d \<Rightarrow> bool \<times> 'd) \<Rightarrow> u32 \<Rightarrow> 'd \<Rightarrow> (u32 \<times> 'd) option" where
  "lp_wait soc ready waitTimes d =
     (let (ok, d) = ready d
      in if ok then Some (waitTimes, d)
         else if RETRY_TIMES soc \<noteq> 0 then
           if waitTimes - 1 \<noteq> 0 then lp_wait soc ready (waitTimes - 1) d else Some (0, d)
         else lp_wait soc ready waitTimes d)"

definition lp_flag :: "'d lpuart_soc \<Rightarrow> lpuart_mask \<Rightarrow> 'd \<Rightarrow> bool \<times> 'd" where
  "lp_flag soc m d = (let (v, d) = reg_read soc P_STAT d in (0 \<noteq> v AND lp_mask soc m, d))"

definition lp_tx_fifo_empty :: "'d lpuart_soc \<Rightarrow> 'd \<Rightarrow> bool \<times> 'd" where
  "lp_tx_fifo_empty soc d =
     (let (v, d) = reg_read soc P_WATER d
      in (0 = drop_bit (WATER_TXWATER_SHIFT soc) (v AND lp_mask soc M_WATER_TXCOUNT), d))"

definition LPUART_Deinit :: "'d lpuart_soc \<Rightarrow> u32 \<Rightarrow> 'd \<Rightarrow> (status \<times> 'd) option" where
  "LPUART_Deinit soc base d = do {
     (waitTimes, d) \<leftarrow> (if lp_has soc HAS_FIFO then lp_wait soc (lp_tx_fifo_empty soc) (RETRY_TIMES soc) d
                       else Some (1, d));
     if RETRY_TIMES soc \<noteq> 0 \<and> waitTimes = 0 then Some (kStatus_LPUART_Timeout, d)
     else do {
       (waitTimes, d) \<leftarrow> lp_wait soc (lp_flag soc M_STAT_TC) (RETRY_TIMES soc) d;
       if RETRY_TIMES soc \<noteq> 0 \<and> waitTimes = 0 then Some (kStatus_LPUART_Timeout, d)
       else do {
         let d = reg_set soc P_STAT (lp_flags_to_clear soc) d;
         let d = reg_write soc P_CTRL 0 d;
         if lp_has soc HAS_CLOCK_CONTROL then do {
           inst \<leftarrow> LPUART_GetInstance soc base;
           let d = lp_DisableClock soc False inst d;
           Some (kStatus_Success, if lp_has soc HAS_PERIPH_CLOCKS then lp_DisableClock soc True inst d else d)
         } else Some (kStatus_Success, d)
       }
     }
   }"

definition LPUART_GetDefaultConfig :: lpuart_config where
  "LPUART_GetDefaultConfig =
     \<lparr>baudRate_Bps = 115200, parityMode = kLPUART_ParityDisabled, dataBitsCount = kLPUART_EightDataBits, isMsb = False,
      stopBitCount = kLPUART_OneStopBit, txFifoWatermark = 0, rxFifoWatermark = 0, enableRxRTS = False,
      enableTxCTS = False, txCtsSource = kLPUART_CtsSourcePin, txCtsConfig = kLPUART_CtsSampleAtStart, rtsWatermark = 0,
      rxIdleType = kLPUART_IdleTypeStartBit, rxIdleConfig = kLPUART_IdleCharacter1, enableTx = False, enableRx = False,
      swapTxdRxd = False\<rparr>"

definition LPUART_Enable9bitMode :: "'d lpuart_soc \<Rightarrow> bool \<Rightarrow> 'd \<Rightarrow> 'd" where
  "LPUART_Enable9bitMode soc enable d =
     (let d = (if enable then
                 let (v, d) = reg_read soc P_CTRL d;
                     temp = v AND NOT (lp_mask soc M_CTRL_PE OR lp_mask soc M_CTRL_M)
                 in reg_write soc P_CTRL (temp OR lp_mask soc M_CTRL_M) d
               else reg_clear soc P_CTRL (lp_mask soc M_CTRL_M) d);
          d = (if lp_has soc HAS_7BIT_DATA_SUPPORT then reg_clear soc P_CTRL (lp_mask soc M_CTRL_M7) d else d)
      in if lp_has soc HAS_10BIT_DATA_SUPPORT then reg_clear soc P_BAUD (lp_mask soc M_BAUD_M10) d else d)"

definition LPUART_SendAddress :: "'d lpuart_soc \<Rightarrow> u8 \<Rightarrow> 'd \<Rightarrow> 'd" where
  "LPUART_SendAddress soc address d =
     (let (v, d) = reg_read soc P_DATA d;
          temp = v AND 0xFFFFFC00
      in reg_write soc P_DATA (temp OR (ucast address OR push_bit (DATA_R8T8_SHIFT soc) 1)) d)"

subsection \<open>Interrupts and status\<close>

text \<open>
  How \<open>LPUART_EnableInterrupts\<close> and \<open>LPUART_DisableInterrupts\<close> take the mask apart: the bits for
  BAUD, and what is left of the mask for FIFO and CTRL.
\<close>

definition lp_split_mask :: "'d lpuart_soc \<Rightarrow> u32 \<Rightarrow> u32 \<times> u32" where
  "lp_split_mask soc msk =
     (let msk = msk AND kLPUART_AllInterruptEnable soc;
          baudRegMask = 0;
          (baudRegMask, msk) =
            (if lp_has soc HAS_LIN_BREAK_DETECT
             then (baudRegMask OR (push_bit 8 msk AND lp_mask soc M_BAUD_LBKDIE),
                   msk AND NOT (drop_bit 8 (lp_mask soc M_BAUD_LBKDIE)))
             else (baudRegMask, msk));
          baudRegMask = baudRegMask OR (push_bit 8 msk AND lp_mask soc M_BAUD_RXEDGIE)
      in (baudRegMask, msk AND NOT (drop_bit 8 (lp_mask soc M_BAUD_RXEDGIE))))"

definition LPUART_EnableInterrupts :: "'d lpuart_soc \<Rightarrow> u32 \<Rightarrow> 'd lpuart \<Rightarrow> 'd lpuart" where
  "LPUART_EnableInterrupts soc msk s =
     (let (baudRegMask, msk) = lp_split_mask soc msk;
          s = lp_atomic (reg_set soc P_BAUD baudRegMask) s;
          (msk, s) =
            (if lp_has soc HAS_FIFO then
               (msk AND NOT (lp_mask soc M_FIFO_TXOFE OR lp_mask soc M_FIFO_RXUFE),
                lp_atomic (\<lambda>d. let (v, d) = reg_read soc P_FIFO d
                     in reg_write soc P_FIFO (v AND NOT (lp_mask soc M_FIFO_TXOF OR lp_mask soc M_FIFO_RXUF) OR
                                              (msk AND (lp_mask soc M_FIFO_TXOFE OR lp_mask soc M_FIFO_RXUFE))) d) s)
             else (msk, s))
      in lp_atomic (reg_set soc P_CTRL msk) s)"

definition LPUART_DisableInterrupts :: "'d lpuart_soc \<Rightarrow> u32 \<Rightarrow> 'd lpuart \<Rightarrow> 'd lpuart" where
  "LPUART_DisableInterrupts soc msk s =
     (let (baudRegMask, msk) = lp_split_mask soc msk;
          s = lp_atomic (reg_clear soc P_BAUD baudRegMask) s;
          (msk, s) =
            (if lp_has soc HAS_FIFO then
               (msk AND NOT (lp_mask soc M_FIFO_TXOFE OR lp_mask soc M_FIFO_RXUFE),
                lp_atomic (\<lambda>d. let (v, d) = reg_read soc P_FIFO d
                     in reg_write soc P_FIFO (v AND NOT (lp_mask soc M_FIFO_TXOF OR lp_mask soc M_FIFO_RXUF) AND
                                              NOT (msk AND (lp_mask soc M_FIFO_TXOFE OR lp_mask soc M_FIFO_RXUFE))) d) s)
             else (msk, s))
      in lp_atomic (reg_clear soc P_CTRL msk) s)"

definition LPUART_GetEnabledInterrupts :: "'d lpuart_soc \<Rightarrow> 'd \<Rightarrow> u32 \<times> 'd" where
  "LPUART_GetEnabledInterrupts soc d =
     (let (ctrl, d) = reg_read soc P_CTRL d;
          temp = ctrl AND kLPUART_AllInterruptEnable soc;
          (baud, d) = reg_read soc P_BAUD d;
          temp = temp AND NOT (drop_bit 8 (lp_mask soc M_BAUD_RXEDGIE)) OR
                 drop_bit 8 (baud AND lp_mask soc M_BAUD_RXEDGIE);
          (temp, d) =
            (if lp_has soc HAS_LIN_BREAK_DETECT then
               let (baud, d) = reg_read soc P_BAUD d
               in (temp AND NOT (drop_bit 8 (lp_mask soc M_BAUD_LBKDIE)) OR
                   drop_bit 8 (baud AND lp_mask soc M_BAUD_LBKDIE), d)
             else (temp, d))
      in if lp_has soc HAS_FIFO then
           let (fifo, d) = reg_read soc P_FIFO d
           in (temp AND NOT (lp_mask soc M_FIFO_TXOFE OR lp_mask soc M_FIFO_RXUFE) OR
               (fifo AND (lp_mask soc M_FIFO_TXOFE OR lp_mask soc M_FIFO_RXUFE)), d)
         else (temp, d))"

definition LPUART_GetStatusFlags :: "'d lpuart_soc \<Rightarrow> 'd \<Rightarrow> u32 \<times> 'd" where
  "LPUART_GetStatusFlags soc d =
     (let (temp, d) = reg_read soc P_STAT d;
          (temp, d) =
            (if lp_has soc HAS_FIFO then
               let (fifo, d) = reg_read soc P_FIFO d
               in (temp OR drop_bit 16 (fifo AND (lp_mask soc M_FIFO_TXEMPT OR lp_mask soc M_FIFO_RXEMPT OR
                                                  lp_mask soc M_FIFO_TXOF OR lp_mask soc M_FIFO_RXUF)), d)
             else (temp, d))
      in (temp AND kLPUART_AllFlags soc, d))"

definition LPUART_ClearStatusFlags :: "'d lpuart_soc \<Rightarrow> u32 \<Rightarrow> 'd \<Rightarrow> status \<times> 'd" where
  "LPUART_ClearStatusFlags soc msk d =
     (let msk = msk AND kLPUART_AllClearFlags soc;
          d = (if lp_has soc HAS_FIFO \<and>
                  msk AND (drop_bit 16 (lp_mask soc M_FIFO_TXOF) OR drop_bit 16 (lp_mask soc M_FIFO_RXUF)) \<noteq> 0 then
                 let (temp, d) = reg_read soc P_FIFO d;
                     temp = temp AND NOT (lp_mask soc M_FIFO_TXFLUSH OR lp_mask soc M_FIFO_RXFLUSH OR
                                          lp_mask soc M_FIFO_TXOF OR lp_mask soc M_FIFO_RXUF);
                     temp = temp OR (push_bit 16 msk AND (lp_mask soc M_FIFO_TXOF OR lp_mask soc M_FIFO_RXUF))
                 in reg_write soc P_FIFO temp d
               else d);
          (temp, d) = reg_read soc P_STAT d;
          d = reg_write soc P_STAT (temp AND 0x3E000000 OR msk) d;
          (flags, d) = LPUART_GetStatusFlags soc d
      in (if 0 \<noteq> msk AND flags then kStatus_LPUART_FlagCannotClearManually else kStatus_Success, d))"

subsection \<open>Blocking transfers\<close>

text \<open>
  The loops of \<open>LPUART_WriteBlocking\<close> and \<open>LPUART_WriteBlocking16bit\<close> over the units that are left
  (one byte each, or two when \<open>wide\<close>); the flag tells a timeout.
\<close>

fun lp_write_loop :: "'d lpuart_soc \<Rightarrow> bool \<Rightarrow> mem \<Rightarrow> u32 \<Rightarrow> nat \<Rightarrow> 'd \<Rightarrow> (bool \<times> 'd) option" where
  "lp_write_loop soc wide ram data 0 d = Some (True, d)"
| "lp_write_loop soc wide ram data (Suc len) d = do {
     (waitTimes, d) \<leftarrow> lp_wait soc (lp_flag soc M_STAT_TDRE) (RETRY_TIMES soc) d;
     if RETRY_TIMES soc \<noteq> 0 \<and> 0 = waitTimes then Some (False, d)
     else if wide then lp_write_loop soc wide ram (data + 2) len (reg_write soc P_DATA (ucast (read_u16 ram data)) d)
     else lp_write_loop soc wide ram (data + 1) len (reg_write soc P_DATA (ucast (ram data)) d)
   }"

definition lp_write_blocking :: "'d lpuart_soc \<Rightarrow> bool \<Rightarrow> u32 \<Rightarrow> u32 \<Rightarrow> mem \<Rightarrow> 'd \<Rightarrow> (status \<times> 'd) option" where
  "lp_write_blocking soc wide data len ram d = do {
     c_assert (0 \<noteq> data);
     (ok, d) \<leftarrow> lp_write_loop soc wide ram data (unat len) d;
     if \<not> ok then Some (kStatus_LPUART_Timeout, d)
     else do {
       (waitTimes, d) \<leftarrow> lp_wait soc (lp_flag soc M_STAT_TC) (RETRY_TIMES soc) d;
       if RETRY_TIMES soc \<noteq> 0 \<and> 0 = waitTimes then Some (kStatus_LPUART_Timeout, d)
       else Some (kStatus_Success, d)
     }
   }"

definition LPUART_WriteBlocking :: "'d lpuart_soc \<Rightarrow> u32 \<Rightarrow> u32 \<Rightarrow> mem \<Rightarrow> 'd \<Rightarrow> (status \<times> 'd) option" where
  "LPUART_WriteBlocking soc data len ram d = lp_write_blocking soc False data len ram d"

definition LPUART_WriteBlocking16bit :: "'d lpuart_soc \<Rightarrow> u32 \<Rightarrow> u32 \<Rightarrow> mem \<Rightarrow> 'd \<Rightarrow> (status \<times> 'd) option" where
  "LPUART_WriteBlocking16bit soc data len ram d = lp_write_blocking soc True data len ram d"

text \<open>One error flag in the loop of \<open>LPUART_WaitForReadData\<close>: clear it and take the status from that.\<close>

definition lp_clear_error :: "'d lpuart_soc \<Rightarrow> u32 \<Rightarrow> lpuart_mask \<Rightarrow> status \<Rightarrow> status \<times> 'd \<Rightarrow> status \<times> 'd" where
  "lp_clear_error soc statusFlag m err sd =
     (if 0 \<noteq> statusFlag AND lp_mask soc m then
        let (st, d) = LPUART_ClearStatusFlags soc (lp_mask soc m) (snd sd)
        in (if kStatus_Success = st then err else kStatus_LPUART_FlagCannotClearManually, d)
      else sd)"

definition lp_read_errors :: "'d lpuart_soc \<Rightarrow> 'd \<Rightarrow> status \<times> 'd" where
  "lp_read_errors soc d =
     (let (statusFlag, d) = LPUART_GetStatusFlags soc d
      in if 0 \<noteq> statusFlag AND lp_mask soc M_STAT_OR then
           lp_clear_error soc statusFlag M_STAT_OR kStatus_LPUART_RxHardwareOverrun (kStatus_Success, d)
         else
           lp_clear_error soc statusFlag M_STAT_NF kStatus_LPUART_NoiseError
             (lp_clear_error soc statusFlag M_STAT_FE kStatus_LPUART_FramingError
               (lp_clear_error soc statusFlag M_STAT_PF kStatus_LPUART_ParityError (kStatus_Success, d))))"

definition lp_data_ready :: "'d lpuart_soc \<Rightarrow> 'd \<Rightarrow> bool \<times> 'd" where
  "lp_data_ready soc d =
     (if lp_has soc HAS_FIFO then
        let (v, d) = reg_read soc P_WATER d
        in (0 \<noteq> drop_bit (WATER_RXCOUNT_SHIFT soc) (v AND lp_mask soc M_WATER_RXCOUNT), d)
      else lp_flag soc M_STAT_RDRF d)"

partial_function (option) lp_wait_read :: "'d lpuart_soc \<Rightarrow> u32 \<Rightarrow> 'd \<Rightarrow> (status \<times> 'd) option" where
  "lp_wait_read soc waitTimes d =
     (let (ready, d) = lp_data_ready soc d
      in if ready then Some (kStatus_Success, d)
         else
           let waitTimes = (if RETRY_TIMES soc \<noteq> 0 then waitTimes - 1 else waitTimes)
           in if RETRY_TIMES soc \<noteq> 0 \<and> 0 = waitTimes then Some (kStatus_LPUART_Timeout, d)
              else
                let (status, d) = lp_read_errors soc d
                in if kStatus_Success \<noteq> status then Some (status, d) else lp_wait_read soc waitTimes d)"

definition LPUART_WaitForReadData :: "'d lpuart_soc \<Rightarrow> 'd \<Rightarrow> (status \<times> 'd) option" where
  "LPUART_WaitForReadData soc d = lp_wait_read soc (RETRY_TIMES soc) d"

text \<open>Whether frames have seven data bits, read off CTRL on devices that support it.\<close>

definition lp_seven_bits :: "'d lpuart_soc \<Rightarrow> 'd \<Rightarrow> bool \<times> 'd" where
  "lp_seven_bits soc d =
     (if lp_has soc HAS_7BIT_DATA_SUPPORT then
        let (ctrl, d) = reg_read soc P_CTRL d
        in (ctrl AND lp_mask soc M_CTRL_M7 \<noteq> 0 \<or>
            (ctrl AND lp_mask soc M_CTRL_M = 0 \<and> ctrl AND lp_mask soc M_CTRL_PE \<noteq> 0), d)
      else (False, d))"

fun lp_read_loop :: "'d lpuart_soc \<Rightarrow> bool \<Rightarrow> u32 \<Rightarrow> nat \<Rightarrow> mem \<times> 'd \<Rightarrow> (status \<times> mem \<times> 'd) option" where
  "lp_read_loop soc seven data 0 (ram, d) = Some (kStatus_Success, ram, d)"
| "lp_read_loop soc seven data (Suc len) (ram, d) = do {
     (status, d) \<leftarrow> LPUART_WaitForReadData soc d;
     if kStatus_Success = status then do {
       let (v, d) = reg_read soc P_DATA d;
       lp_read_loop soc seven (data + 1) len (ram(data := ucast (if seven then v AND 0x7F else v)), d)
     } else Some (status, ram, d)
   }"

definition LPUART_ReadBlocking :: "'d lpuart_soc \<Rightarrow> u32 \<Rightarrow> u32 \<Rightarrow> mem \<times> 'd \<Rightarrow> (status \<times> mem \<times> 'd) option" where
  "LPUART_ReadBlocking soc data len rd = do {
     c_assert (0 \<noteq> data);
     let (ram, d) = rd;
     let (seven, d) = lp_seven_bits soc d;
     lp_read_loop soc seven data (unat len) (ram, d)
   }"

fun lp_read_loop16 :: "'d lpuart_soc \<Rightarrow> u32 \<Rightarrow> nat \<Rightarrow> mem \<times> 'd \<Rightarrow> (status \<times> mem \<times> 'd) option" where
  "lp_read_loop16 soc data 0 (ram, d) = Some (kStatus_Success, ram, d)"
| "lp_read_loop16 soc data (Suc len) (ram, d) = do {
     (status, d) \<leftarrow> LPUART_WaitForReadData soc d;
     if kStatus_Success = status then do {
       let (v, d) = reg_read soc P_DATA d;
       lp_read_loop16 soc (data + 2) len (write_u16 ram data (ucast (v AND 0x3FF)), d)
     } else Some (status, ram, d)
   }"

definition LPUART_ReadBlocking16bit :: "'d lpuart_soc \<Rightarrow> u32 \<Rightarrow> u32 \<Rightarrow> mem \<times> 'd \<Rightarrow> (status \<times> mem \<times> 'd) option" where
  "LPUART_ReadBlocking16bit soc data len rd = do {
     c_assert (0 \<noteq> data);
     lp_read_loop16 soc data (unat len) rd
   }"

subsection \<open>Direct access to the transmitter and receiver\<close>

definition LPUART_EnableTx :: "'d lpuart_soc \<Rightarrow> bool \<Rightarrow> 'd \<Rightarrow> 'd" where
  "LPUART_EnableTx soc enable d = lp_switch soc P_CTRL M_CTRL_TE enable d"

definition LPUART_EnableRx :: "'d lpuart_soc \<Rightarrow> bool \<Rightarrow> 'd \<Rightarrow> 'd" where
  "LPUART_EnableRx soc enable d = lp_switch soc P_CTRL M_CTRL_RE enable d"

definition LPUART_WriteByte :: "'d lpuart_soc \<Rightarrow> u8 \<Rightarrow> 'd \<Rightarrow> 'd" where
  "LPUART_WriteByte soc data d = reg_write soc P_DATA (ucast data) d"

definition LPUART_ReadByte :: "'d lpuart_soc \<Rightarrow> 'd \<Rightarrow> u8 \<times> 'd" where
  "LPUART_ReadByte soc d =
     (let (seven, d) = lp_seven_bits soc d;
          (v, d) = reg_read soc P_DATA d
      in (ucast (if seven then v AND 0x7F else v), d))"

definition LPUART_GetRxFifoCount :: "'d lpuart_soc \<Rightarrow> 'd \<Rightarrow> u8 \<times> 'd" where
  "LPUART_GetRxFifoCount soc d =
     (let (v, d) = reg_read soc P_WATER d
      in (ucast (drop_bit (WATER_RXCOUNT_SHIFT soc) (v AND lp_mask soc M_WATER_RXCOUNT)), d))"

definition LPUART_GetTxFifoCount :: "'d lpuart_soc \<Rightarrow> 'd \<Rightarrow> u8 \<times> 'd" where
  "LPUART_GetTxFifoCount soc d =
     (let (v, d) = reg_read soc P_WATER d
      in (ucast (drop_bit (WATER_TXCOUNT_SHIFT soc) (v AND lp_mask soc M_WATER_TXCOUNT)), d))"

end
