(* ===== verification/Lpuart_Irq.thy ===== *)
theory Lpuart_Irq
  imports Lpuart
begin

text \<open>
  \<open>drivers/lpuart/fsl_lpuart.c\<close>, transactional interface: the handle, the receive ring buffer, the
  non-blocking transfers and the interrupt handler. In 16-bit mode (\<open>is16bitData\<close>) the units of a
  transfer and of the ring are half-words, otherwise bytes.
\<close>

subsection \<open>State access\<close>

text \<open>A volatile read from the state, and \<open>if (handle->callback != NULL) handle->callback(...)\<close>.\<close>

definition lpread :: "'d lpuart_soc \<Rightarrow> lpuart_reg \<Rightarrow> 'd lpuart \<Rightarrow> u32 \<times> 'd lpuart" where
  "lpread soc r s = (let (v, d) = reg_read soc r (lp_dev s) in (v, s\<lparr>lp_dev := d\<rparr>))"

definition lp_callback :: "'d lpuart_soc \<Rightarrow> status \<Rightarrow> 'd lpuart \<Rightarrow> 'd lpuart option" where
  "lp_callback soc status s =
     (case callback (lp_handle s) of None \<Rightarrow> Some s
      | Some f \<Rightarrow> lp_invoke soc f status (userData (lp_handle s)) s)"

definition lp_rx_count :: "'d lpuart_soc \<Rightarrow> 'd lpuart \<Rightarrow> u8 \<times> 'd lpuart" where
  "lp_rx_count soc s =
     (let (v, s) = lpread soc P_WATER s
      in (ucast (drop_bit (WATER_RXCOUNT_SHIFT soc) (v AND lp_mask soc M_WATER_RXCOUNT)), s))"

definition lp_tx_count :: "'d lpuart_soc \<Rightarrow> 'd lpuart \<Rightarrow> u32 \<times> 'd lpuart" where
  "lp_tx_count soc s =
     (let (v, s) = lpread soc P_WATER s
      in (drop_bit (WATER_TXCOUNT_SHIFT soc) (v AND lp_mask soc M_WATER_TXCOUNT), s))"

text \<open>The interrupts of the receiver.\<close>

definition lp_rx_ints :: "'d lpuart_soc \<Rightarrow> u32" where
  "lp_rx_ints soc = lp_mask soc M_CTRL_RIE OR lp_mask soc M_CTRL_ORIE"

definition lp_rx_idle_ints :: "'d lpuart_soc \<Rightarrow> u32" where
  "lp_rx_idle_ints soc = lp_mask soc M_CTRL_RIE OR lp_mask soc M_CTRL_ILIE OR lp_mask soc M_CTRL_ORIE"

subsection \<open>Units of a transfer\<close>

text \<open>\<open>p[i]\<close> for a pointer to bytes or to half-words: its address, a load and a store.\<close>

definition lp_at :: "bool \<Rightarrow> u32 \<Rightarrow> u32 \<Rightarrow> u32" where
  "lp_at wide p i = (if wide then p + 2 * i else p + i)"

definition lp_load :: "bool \<Rightarrow> mem \<Rightarrow> u32 \<Rightarrow> u16" where
  "lp_load wide ram a = (if wide then read_u16 ram a else ucast (ram a))"

definition lp_store :: "bool \<Rightarrow> mem \<Rightarrow> u32 \<Rightarrow> u16 \<Rightarrow> mem" where
  "lp_store wide ram a v = (if wide then write_u16 ram a v else ram(a := ucast v))"

fun lp_write_bytes :: "'d lpuart_soc \<Rightarrow> mem \<Rightarrow> u32 \<Rightarrow> nat \<Rightarrow> 'd \<Rightarrow> 'd" where
  "lp_write_bytes soc ram data 0 d = d"
| "lp_write_bytes soc ram data (Suc n) d =
     lp_write_bytes soc ram (data + 1) n (reg_write soc P_DATA (ucast (ram data)) d)"

definition LPUART_WriteNonBlocking :: "'d lpuart_soc \<Rightarrow> u32 \<Rightarrow> u32 \<Rightarrow> mem \<Rightarrow> 'd \<Rightarrow> 'd option" where
  "LPUART_WriteNonBlocking soc data len ram d = do {
     c_assert (0 \<noteq> data);
     Some (lp_write_bytes soc ram data (unat len) d)
   }"

fun lp_write_halfs :: "'d lpuart_soc \<Rightarrow> mem \<Rightarrow> u32 \<Rightarrow> nat \<Rightarrow> 'd \<Rightarrow> 'd" where
  "lp_write_halfs soc ram data 0 d = d"
| "lp_write_halfs soc ram data (Suc n) d =
     lp_write_halfs soc ram (data + 2) n (reg_write soc P_DATA (ucast (read_u16 ram data)) d)"

definition LPUART_WriteNonBlocking16bit :: "'d lpuart_soc \<Rightarrow> u32 \<Rightarrow> u32 \<Rightarrow> mem \<Rightarrow> 'd \<Rightarrow> 'd option" where
  "LPUART_WriteNonBlocking16bit soc data len ram d = do {
     c_assert (0 \<noteq> data);
     Some (lp_write_halfs soc ram data (unat len) d)
   }"

fun lp_read_bytes :: "'d lpuart_soc \<Rightarrow> bool \<Rightarrow> u32 \<Rightarrow> nat \<Rightarrow> mem \<times> 'd \<Rightarrow> mem \<times> 'd" where
  "lp_read_bytes soc seven data 0 rd = rd"
| "lp_read_bytes soc seven data (Suc n) rd =
     (let (v, d) = reg_read soc P_DATA (snd rd)
      in lp_read_bytes soc seven (data + 1) n ((fst rd)(data := ucast (if seven then v AND 0x7F else v)), d))"

definition LPUART_ReadNonBlocking :: "'d lpuart_soc \<Rightarrow> u32 \<Rightarrow> u32 \<Rightarrow> mem \<times> 'd \<Rightarrow> (mem \<times> 'd) option" where
  "LPUART_ReadNonBlocking soc data len rd = do {
     c_assert (0 \<noteq> data);
     let (ram, d) = rd;
     let (seven, d) = lp_seven_bits soc d;
     Some (lp_read_bytes soc seven data (unat len) (ram, d))
   }"

fun lp_read_halfs :: "'d lpuart_soc \<Rightarrow> u32 \<Rightarrow> nat \<Rightarrow> mem \<times> 'd \<Rightarrow> mem \<times> 'd" where
  "lp_read_halfs soc data 0 rd = rd"
| "lp_read_halfs soc data (Suc n) rd =
     (let (v, d) = reg_read soc P_DATA (snd rd)
      in lp_read_halfs soc (data + 2) n (write_u16 (fst rd) data (ucast (v AND 0x3FF)), d))"

definition LPUART_ReadNonBlocking16bit :: "'d lpuart_soc \<Rightarrow> u32 \<Rightarrow> u32 \<Rightarrow> mem \<times> 'd \<Rightarrow> (mem \<times> 'd) option" where
  "LPUART_ReadNonBlocking16bit soc data len rd = do {
     c_assert (0 \<noteq> data);
     Some (lp_read_halfs soc data (unat len) rd)
   }"

subsection \<open>Handle and ring buffer\<close>

definition LPUART_TransferGetRxRingBufferLength :: "lpuart_handle \<Rightarrow> u32" where
  "LPUART_TransferGetRxRingBufferLength h =
     (if rxRingBufferHead h < rxRingBufferTail h
      then ucast (rxRingBufferHead h) + rxRingBufferSize h - ucast (rxRingBufferTail h)
      else ucast (rxRingBufferHead h) - ucast (rxRingBufferTail h))"

definition LPUART_TransferIsRxRingBufferFull :: "lpuart_handle \<Rightarrow> bool" where
  "LPUART_TransferIsRxRingBufferFull h =
     (LPUART_TransferGetRxRingBufferLength h = rxRingBufferSize h - 1)"

definition lp_inc_tail :: "lpuart_handle \<Rightarrow> lpuart_handle" where
  "lp_inc_tail h =
     (if ucast (rxRingBufferTail h) + 1 = rxRingBufferSize h then h\<lparr>rxRingBufferTail := 0\<rparr>
      else h\<lparr>rxRingBufferTail := rxRingBufferTail h + 1\<rparr>)"

definition lp_inc_head :: "lpuart_handle \<Rightarrow> lpuart_handle" where
  "lp_inc_head h =
     (if ucast (rxRingBufferHead h) + 1 = rxRingBufferSize h then h\<lparr>rxRingBufferHead := 0\<rparr>
      else h\<lparr>rxRingBufferHead := rxRingBufferHead h + 1\<rparr>)"

text \<open>
  \<open>base\<close> and \<open>handle\<close> are the addresses of the instance and of its handle. The format of the frames
  is read before the handle is zeroed.
\<close>

definition LPUART_TransferCreateHandle ::
    "'d lpuart_soc \<Rightarrow> u32 \<Rightarrow> u32 \<Rightarrow> nat option \<Rightarrow> u32 \<Rightarrow> 'd lpuart \<Rightarrow> 'd lpuart option" where
  "LPUART_TransferCreateHandle soc base handle cb ud s = do {
     c_assert (0 \<noteq> handle);
     let (seven, d) = lp_seven_bits soc (lp_dev s);
     let s = s\<lparr>lp_dev := d,
               lp_handle := \<lparr>txData = 0, txDataSize = 0, txDataSizeAll = 0, rxData = 0, rxDataSize = 0, rxDataSizeAll = 0,
                             rxRingBuffer = 0, rxRingBufferSize = 0, rxRingBufferHead = 0, rxRingBufferTail = 0,
                             callback = cb, userData = ud, txState = kLPUART_TxIdle, rxState = kLPUART_RxIdle,
                             isSevenDataBits = seven, is16bitData = False\<rparr>\<rparr>;
     inst \<leftarrow> LPUART_GetInstance soc base;
     let s = s\<lparr>s_lpuartHandle := (s_lpuartHandle s)[inst := handle]\<rparr>;
     let s = s\<lparr>s_lpuartIsr := (s_lpuartIsr s)[inst := Isr_TransferHandleIRQ]\<rparr>;
     Some (on_lpdev (\<lambda>d.
       if lp_has soc HAS_SEPARATE_RX_TX_IRQ then
         let d = (if lp_has soc HAS_RX_IRQS then lp_EnableIRQ soc LpRxIrq inst d else d)
         in if lp_has soc HAS_TX_IRQS then lp_EnableIRQ soc LpTxIrq inst d else d
       else if lp_has soc HAS_RX_TX_IRQS then lp_EnableIRQ soc LpRxTxIrq inst d else d) s)
   }"

definition LPUART_TransferStartRingBuffer ::
    "'d lpuart_soc \<Rightarrow> u32 \<Rightarrow> u32 \<Rightarrow> 'd lpuart \<Rightarrow> 'd lpuart option" where
  "LPUART_TransferStartRingBuffer soc ringBuffer ringBufferSize s = do {
     c_assert (0 \<noteq> ringBuffer);
     let s = on_lph (\<lambda>h. h\<lparr>rxRingBuffer := ringBuffer,
                           rxRingBufferSize := (if \<not> is16bitData h then ringBufferSize else ringBufferSize div 2),
                           rxRingBufferHead := 0, rxRingBufferTail := 0\<rparr>) s;
     Some (lp_atomic (reg_set soc P_CTRL (lp_rx_ints soc)) s)
   }"

definition LPUART_TransferStopRingBuffer :: "'d lpuart_soc \<Rightarrow> 'd lpuart \<Rightarrow> 'd lpuart" where
  "LPUART_TransferStopRingBuffer soc s =
     (let s = (if rxState (lp_handle s) = kLPUART_RxIdle then lp_atomic (reg_clear soc P_CTRL (lp_rx_ints soc)) s else s)
      in on_lph (\<lambda>h. h\<lparr>rxRingBuffer := 0, rxRingBufferSize := 0, rxRingBufferHead := 0, rxRingBufferTail := 0\<rparr>) s)"

subsection \<open>Non-blocking transfers\<close>

definition LPUART_TransferSendNonBlocking ::
    "'d lpuart_soc \<Rightarrow> lpuart_transfer \<Rightarrow> 'd lpuart \<Rightarrow> (status \<times> 'd lpuart) option" where
  "LPUART_TransferSendNonBlocking soc xfer s = do {
     c_assert (0 \<noteq> xfer_data xfer);
     c_assert (0 \<noteq> xfer_dataSize xfer);
     if kLPUART_TxBusy = txState (lp_handle s) then Some (kStatus_LPUART_TxBusy, s)
     else do {
       let s = on_lph (\<lambda>h. h\<lparr>txData := xfer_data xfer, txDataSize := xfer_dataSize xfer,
                             txDataSizeAll := xfer_dataSize xfer, txState := kLPUART_TxBusy\<rparr>) s;
       Some (kStatus_Success, lp_atomic (reg_set soc P_CTRL (lp_mask soc M_CTRL_TIE)) s)
     }
   }"

definition LPUART_TransferAbortSend :: "'d lpuart_soc \<Rightarrow> 'd lpuart \<Rightarrow> 'd lpuart" where
  "LPUART_TransferAbortSend soc s =
     (let s = lp_atomic (reg_clear soc P_CTRL (lp_mask soc M_CTRL_TIE OR lp_mask soc M_CTRL_TCIE)) s
      in on_lph (\<lambda>h. h\<lparr>txDataSize := 0, txState := kLPUART_TxIdle\<rparr>) s)"

text \<open>The middle result is what is stored through \<open>count\<close>, if anything.\<close>

definition LPUART_TransferGetSendCount :: "'d lpuart_soc \<Rightarrow> 'd lpuart \<Rightarrow> status \<times> u32 option \<times> 'd lpuart" where
  "LPUART_TransferGetSendCount soc s =
     (let tmptxDataSize = txDataSize (lp_handle s)
      in if kLPUART_TxIdle = txState (lp_handle s) then (kStatus_NoTransferInProgress, None, s)
         else if lp_has soc HAS_FIFO then
           let (n, s) = lp_tx_count soc s
           in (kStatus_Success, Some (txDataSizeAll (lp_handle s) - tmptxDataSize - n), s)
         else
           let (v, s) = lpread soc P_STAT s
           in (kStatus_Success,
               Some (if v AND lp_mask soc M_STAT_TDRE \<noteq> 0 then txDataSizeAll (lp_handle s) - tmptxDataSize
                     else txDataSizeAll (lp_handle s) - tmptxDataSize - 1), s))"

text \<open>
  The copy loop of \<open>LPUART_TransferReceiveNonBlocking\<close>: one unit leaves the ring at its tail for
  \<open>xfer->rxData[i]\<close> or \<open>xfer->rxData16[i]\<close>.
\<close>

definition lp_ring_pop :: "lpuart_handle \<times> mem \<Rightarrow> u16 \<times> lpuart_handle \<times> mem" where
  "lp_ring_pop hm =
     (let (h, ram) = hm
      in (lp_load (is16bitData h) ram (lp_at (is16bitData h) (rxRingBuffer h) (ucast (rxRingBufferTail h))),
          lp_inc_tail h, ram))"

fun lp_ring_copy :: "u32 \<Rightarrow> u32 \<Rightarrow> nat \<Rightarrow> lpuart_handle \<times> mem \<Rightarrow> lpuart_handle \<times> mem" where
  "lp_ring_copy dst i 0 hm = hm"
| "lp_ring_copy dst i (Suc n) hm =
     (let (v, h, ram) = lp_ring_pop hm
      in lp_ring_copy dst (i + 1) n (h, lp_store (is16bitData h) ram (lp_at (is16bitData h) dst i) v))"

text \<open>The request that is saved in the handle: \<open>n\<close> units from \<open>&xfer->rxData[got]\<close> on.\<close>

definition lp_save_request :: "lpuart_transfer \<Rightarrow> u32 \<Rightarrow> u32 \<Rightarrow> lpuart_handle \<Rightarrow> lpuart_handle" where
  "lp_save_request xfer got n h =
     h\<lparr>rxData := lp_at (is16bitData h) (xfer_data xfer) got, rxDataSize := n,
       rxDataSizeAll := xfer_dataSize xfer, rxState := kLPUART_RxBusy\<rparr>"

definition lp_receive_ring ::
    "'d lpuart_soc \<Rightarrow> lpuart_transfer \<Rightarrow> 'd lpuart \<Rightarrow> (u32 \<times> 'd lpuart) option" where
  "lp_receive_ring soc xfer s = do {
     let s = lp_atomic (reg_clear soc P_CTRL (lp_rx_ints soc)) s;
     let bytesToReceive = xfer_dataSize xfer;
     let bytesToCopy = LPUART_TransferGetRxRingBufferLength (lp_handle s);
     let (bytesCurrentReceived, bytesToReceive, s) =
       (if 0 \<noteq> bytesToCopy then
          let bytesToCopy = min bytesToReceive bytesToCopy;
              (h, ram) = lp_ring_copy (xfer_data xfer) 0 (unat bytesToCopy) (lp_handle s, lp_ram s)
          in (bytesToCopy, bytesToReceive - bytesToCopy, s\<lparr>lp_handle := h, lp_ram := ram\<rparr>)
        else (0, bytesToReceive, s));
     let s = (if 0 \<noteq> bytesToReceive then on_lph (lp_save_request xfer bytesCurrentReceived bytesToReceive) s else s);
     let s = lp_atomic (reg_set soc P_CTRL (lp_rx_ints soc)) s;
     s \<leftarrow> (if 0 = bytesToReceive then lp_callback soc kStatus_LPUART_RxIdle s else Some s);
     Some (bytesCurrentReceived, s)
   }"

text \<open>The middle result is what is stored through \<open>receivedBytes\<close> when that pointer is not null.\<close>

definition LPUART_TransferReceiveNonBlocking ::
    "'d lpuart_soc \<Rightarrow> lpuart_transfer \<Rightarrow> 'd lpuart \<Rightarrow> (status \<times> u32 option \<times> 'd lpuart) option" where
  "LPUART_TransferReceiveNonBlocking soc xfer s = do {
     c_assert (0 \<noteq> xfer_data xfer);
     c_assert (0 \<noteq> xfer_dataSize xfer);
     if kLPUART_RxBusy = rxState (lp_handle s) then Some (kStatus_LPUART_RxBusy, None, s)
     else if 0 \<noteq> rxRingBuffer (lp_handle s) then do {
       (bytesCurrentReceived, s) \<leftarrow> lp_receive_ring soc xfer s;
       Some (kStatus_Success, Some bytesCurrentReceived, s)
     } else do {
       let s = on_lph (lp_save_request xfer 0 (xfer_dataSize xfer)) s;
       Some (kStatus_Success, Some 0, lp_atomic (reg_set soc P_CTRL (lp_rx_idle_ints soc)) s)
     }
   }"

definition LPUART_TransferAbortReceive :: "'d lpuart_soc \<Rightarrow> 'd lpuart \<Rightarrow> 'd lpuart" where
  "LPUART_TransferAbortReceive soc s =
     (let s = (if 0 = rxRingBuffer (lp_handle s) then lp_atomic (reg_clear soc P_CTRL (lp_rx_idle_ints soc)) s else s)
      in on_lph (\<lambda>h. h\<lparr>rxDataSize := 0, rxState := kLPUART_RxIdle\<rparr>) s)"

definition LPUART_TransferGetReceiveCount :: "'d lpuart \<Rightarrow> status \<times> u32 option" where
  "LPUART_TransferGetReceiveCount s =
     (if kLPUART_RxIdle = rxState (lp_handle s) then (kStatus_NoTransferInProgress, None)
      else (kStatus_Success, Some (rxDataSizeAll (lp_handle s) - rxDataSize (lp_handle s))))"

subsection \<open>Interrupt handler\<close>

text \<open>
  The body of the loops that fill the buffer of the receive request, shared by
  \<open>LPUART_TransferHandleIDLEReady\<close> and \<open>LPUART_TransferHandleReceiveDataFull\<close>: \<open>tempCount\<close> units
  from the device, and the callback when the request is complete.
\<close>

definition lp_request_body :: "'d lpuart_soc \<Rightarrow> u8 \<Rightarrow> 'd lpuart \<Rightarrow> 'd lpuart option" where
  "lp_request_body soc tempCount s = do {
     let h = lp_handle s;
     (ram, d) \<leftarrow> (if \<not> is16bitData h then LPUART_ReadNonBlocking soc (rxData h) (ucast tempCount) (lp_ram s, lp_dev s)
                 else LPUART_ReadNonBlocking16bit soc (rxData h) (ucast tempCount) (lp_ram s, lp_dev s));
     let s = s\<lparr>lp_ram := ram, lp_dev := d\<rparr>;
     let s = on_lph (\<lambda>h. h\<lparr>rxData := lp_at (is16bitData h) (rxData h) (ucast tempCount),
                           rxDataSize := rxDataSize h - ucast tempCount\<rparr>) s;
     if 0 = rxDataSize (lp_handle s) then
       lp_callback soc kStatus_LPUART_RxIdle (on_lph (\<lambda>h. h\<lparr>rxState := kLPUART_RxIdle\<rparr>) s)
     else Some s
   }"

definition lp_temp_count :: "'d lpuart_soc \<Rightarrow> u32 \<Rightarrow> u8 \<Rightarrow> u8" where
  "lp_temp_count soc n count = (if lp_has soc HAS_FIFO then ucast (min n (ucast count)) else 1)"

lemma temp_count_decreases:
  assumes "n \<noteq> 0" "count \<noteq> 0"
  shows "unat (count - lp_temp_count soc n count) < unat count"
proof -
  have "unat count < 256" using unat_u8_le [of count] by simp
  then have "unat (ucast (min n (ucast count)) :: u8) = min (unat n) (unat count)"
    by (subst unat_ucast_small) (auto simp: min_def word_le_nat_alt)
  moreover have "unat n \<noteq> 0" "unat count \<noteq> 0" using assms by (simp_all add: unat_eq_zero)
  ultimately have "unat (lp_temp_count soc n count) \<le> unat count" "unat (lp_temp_count soc n count) \<noteq> 0"
    by (auto simp: lp_temp_count_def)
  moreover have "0 < unat count" using assms(2) by (simp add: unat_gt_0)
  ultimately show ?thesis by (simp add: unat_minus_small)
qed

text \<open>The loop returns what is left of \<open>count\<close>.\<close>

function lp_request_loop :: "'d lpuart_soc \<Rightarrow> u8 \<Rightarrow> 'd lpuart \<Rightarrow> (u8 \<times> 'd lpuart) option" where
  "lp_request_loop soc count s =
     (if 0 \<noteq> rxDataSize (lp_handle s) \<and> 0 \<noteq> count then do {
        let tempCount = lp_temp_count soc (rxDataSize (lp_handle s)) count;
        s \<leftarrow> lp_request_body soc tempCount s;
        lp_request_loop soc (count - tempCount) s
      } else Some (count, s))"
  by pat_completeness auto
termination
  by (relation "measure (\<lambda>(_, count, _). unat count)") (auto simp: temp_count_decreases)

declare lp_request_loop.simps [simp del]

definition LPUART_TransferHandleIDLEReady :: "'d lpuart_soc \<Rightarrow> 'd lpuart \<Rightarrow> 'd lpuart option" where
  "LPUART_TransferHandleIDLEReady soc s = do {
     (_, s) \<leftarrow> (if lp_has soc HAS_FIFO then let (count, s) = lp_rx_count soc s in lp_request_loop soc count s
               else Some (0, s));
     let (v, s) = lpread soc P_STAT s;
     let s = on_lpdev (reg_write soc P_STAT (v AND 0x3FE00000 OR lp_mask soc M_STAT_IDLE)) s;
     if 0 = rxDataSize (lp_handle s) then Some (lp_atomic (reg_clear soc P_CTRL (lp_rx_idle_ints soc)) s)
     else lp_callback soc kStatus_LPUART_IdleLineDetected s
   }"

text \<open>
  Storing one unit in the ring: the overrun callback, room made by dropping the oldest unit, the
  store at the head. The callback may have removed the ring; the store then goes through a null
  pointer.
\<close>

definition lp_make_room :: "lpuart_handle \<Rightarrow> lpuart_handle" where
  "lp_make_room h = (if LPUART_TransferIsRxRingBufferFull h then lp_inc_tail h else h)"

text \<open>\<open>isSevenDataBits\<close> is set only on devices that support seven data bits.\<close>

definition lp_ring_value :: "lpuart_handle \<Rightarrow> u32 \<Rightarrow> u16" where
  "lp_ring_value h tpmData =
     (if isSevenDataBits h then ucast (tpmData AND 0x7F)
      else if \<not> is16bitData h then ucast (ucast tpmData :: u8) else ucast (tpmData AND 0x3FF))"

definition lp_ring_store :: "u16 \<Rightarrow> lpuart_handle \<times> mem \<Rightarrow> lpuart_handle \<times> mem" where
  "lp_ring_store v hm =
     (let (h, ram) = hm; wide = (is16bitData h \<and> \<not> isSevenDataBits h)
      in (lp_inc_head h, lp_store wide ram (lp_at wide (rxRingBuffer h) (ucast (rxRingBufferHead h))) v))"

definition lp_ring_receive :: "'d lpuart_soc \<Rightarrow> 'd lpuart \<Rightarrow> 'd lpuart option" where
  "lp_ring_receive soc s = do {
     s \<leftarrow> (if LPUART_TransferIsRxRingBufferFull (lp_handle s)
          then lp_callback soc kStatus_LPUART_RxRingBufferOverrun s else Some s);
     let s = on_lph lp_make_room s;
     let (tpmData, s) = lpread soc P_DATA s;
     c_assert (rxRingBuffer (lp_handle s) \<noteq> 0);
     let (h, ram) = lp_ring_store (lp_ring_value (lp_handle s) tpmData) (lp_handle s, lp_ram s);
     Some (s\<lparr>lp_handle := h, lp_ram := ram\<rparr>)
   }"

fun lp_ring_loop :: "'d lpuart_soc \<Rightarrow> nat \<Rightarrow> 'd lpuart \<Rightarrow> 'd lpuart option" where
  "lp_ring_loop soc 0 s = Some s"
| "lp_ring_loop soc (Suc count) s = do {
     s \<leftarrow> lp_ring_receive soc s;
     lp_ring_loop soc count s
   }"

definition LPUART_TransferHandleReceiveDataFull :: "'d lpuart_soc \<Rightarrow> 'd lpuart \<Rightarrow> 'd lpuart option" where
  "LPUART_TransferHandleReceiveDataFull soc s = do {
     let (count, s) = (if lp_has soc HAS_FIFO then lp_rx_count soc s else (1, s));
     (count, s) \<leftarrow> lp_request_loop soc count s;
     if 0 \<noteq> rxRingBuffer (lp_handle s) then lp_ring_loop soc (unat count) s
     else if 0 = rxDataSize (lp_handle s) then Some (lp_atomic (reg_clear soc P_CTRL (lp_rx_idle_ints soc)) s)
     else Some s
   }"

definition lp_send_body :: "'d lpuart_soc \<Rightarrow> u8 \<Rightarrow> 'd lpuart \<Rightarrow> 'd lpuart option" where
  "lp_send_body soc tempCount s = do {
     let h = lp_handle s;
     d \<leftarrow> (if \<not> is16bitData h then LPUART_WriteNonBlocking soc (txData h) (ucast tempCount) (lp_ram s) (lp_dev s)
          else LPUART_WriteNonBlocking16bit soc (txData h) (ucast tempCount) (lp_ram s) (lp_dev s));
     let s = s\<lparr>lp_dev := d\<rparr>;
     let s = on_lph (\<lambda>h. h\<lparr>txData := lp_at (is16bitData h) (txData h) (ucast tempCount),
                           txDataSize := txDataSize h - ucast tempCount\<rparr>) s;
     Some (if 0 = txDataSize (lp_handle s) then
             lp_atomic (\<lambda>d. let (v, d) = reg_read soc P_CTRL d
                            in reg_write soc P_CTRL (v AND NOT (lp_mask soc M_CTRL_TIE) OR lp_mask soc M_CTRL_TCIE) d) s
           else s)
   }"

function lp_send_loop :: "'d lpuart_soc \<Rightarrow> u8 \<Rightarrow> 'd lpuart \<Rightarrow> 'd lpuart option" where
  "lp_send_loop soc count s =
     (if 0 \<noteq> txDataSize (lp_handle s) \<and> 0 \<noteq> count then do {
        let tempCount = lp_temp_count soc (txDataSize (lp_handle s)) count;
        s \<leftarrow> lp_send_body soc tempCount s;
        lp_send_loop soc (count - tempCount) s
      } else Some s)"
  by pat_completeness auto
termination
  by (relation "measure (\<lambda>(_, count, _). unat count)") (auto simp: temp_count_decreases)

declare lp_send_loop.simps [simp del]

definition LPUART_TransferHandleSendDataEmpty :: "'d lpuart_soc \<Rightarrow> 'd lpuart \<Rightarrow> 'd lpuart option" where
  "LPUART_TransferHandleSendDataEmpty soc s = do {
     (count, s) \<leftarrow> (if lp_has soc HAS_FIFO then do {
                      c_assert (0 < FIFO_SIZEn soc);
                      let (n, s) = lp_tx_count soc s;
                      Some (word_of_int (FIFO_SIZEn soc) - ucast n, s)
                    } else Some (1, s));
     lp_send_loop soc count s
   }"

definition LPUART_TransferHandleTransmissionComplete :: "'d lpuart_soc \<Rightarrow> 'd lpuart \<Rightarrow> 'd lpuart option" where
  "LPUART_TransferHandleTransmissionComplete soc s =
     (let s = on_lph (\<lambda>h. h\<lparr>txState := kLPUART_TxIdle\<rparr>) s;
          s = lp_atomic (reg_clear soc P_CTRL (lp_mask soc M_CTRL_TCIE)) s
      in lp_callback soc kStatus_LPUART_TxIdle s)"

text \<open>\<open>irqHandle\<close> is the handle's address.\<close>

definition LPUART_TransferHandleIRQ :: "'d lpuart_soc \<Rightarrow> u32 \<Rightarrow> 'd lpuart \<Rightarrow> 'd lpuart option" where
  "LPUART_TransferHandleIRQ soc irqHandle s = do {
     c_assert (0 \<noteq> irqHandle);
     let (status, d) = LPUART_GetStatusFlags soc (lp_dev s);
     let (enabledInterrupts, d) = LPUART_GetEnabledInterrupts soc d;
     let s = s\<lparr>lp_dev := d\<rparr>;
     s \<leftarrow> (if lp_mask soc M_STAT_OR = lp_mask soc M_STAT_OR AND status then do {
            let (v, s) = lpread soc P_STAT s;
            let s = on_lpdev (reg_write soc P_STAT (v AND 0x3FE00000 OR lp_mask soc M_STAT_OR)) s;
            lp_callback soc kStatus_LPUART_RxHardwareOverrun s
          } else Some s);
     s \<leftarrow> (if 0 \<noteq> lp_mask soc M_STAT_IDLE AND status \<and> 0 \<noteq> lp_mask soc M_CTRL_ILIE AND enabledInterrupts
          then LPUART_TransferHandleIDLEReady soc s else Some s);
     s \<leftarrow> (if 0 \<noteq> lp_mask soc M_STAT_RDRF AND status \<and> 0 \<noteq> lp_mask soc M_CTRL_RIE AND enabledInterrupts
          then LPUART_TransferHandleReceiveDataFull soc s else Some s);
     s \<leftarrow> (if 0 \<noteq> lp_mask soc M_STAT_TDRE AND status \<and> 0 \<noteq> lp_mask soc M_CTRL_TIE AND enabledInterrupts
          then LPUART_TransferHandleSendDataEmpty soc s else Some s);
     if 0 \<noteq> lp_mask soc M_STAT_TC AND status \<and> 0 \<noteq> lp_mask soc M_CTRL_TCIE AND enabledInterrupts
     then LPUART_TransferHandleTransmissionComplete soc s else Some s
   }"

text \<open>
  \<open>LPUART_DriverIRQHandler\<close>, and the handlers of the vector table, which have the instance fixed.
  Calling a service routine, with the base address and the handle of the instance, is the argument
  \<open>call\<close>; the call of a null pointer is \<open>None\<close>.
\<close>

definition LPUART_DriverIRQHandler ::
    "'d lpuart_soc \<Rightarrow> (lpuart_isr \<Rightarrow> u32 \<Rightarrow> u32 \<Rightarrow> 'd lpuart \<Rightarrow> 'd lpuart option) \<Rightarrow> nat \<Rightarrow> 'd lpuart
     \<Rightarrow> 'd lpuart option" where
  "LPUART_DriverIRQHandler soc call inst s =
     (if inst < length (lpuart_bases soc) then do {
        c_assert (s_lpuartIsr s ! inst \<noteq> Isr_Null);
        call (s_lpuartIsr s ! inst) (lpuart_bases soc ! inst) (s_lpuartHandle s ! inst) s
      } else Some s)"

text \<open>
  The handler of an interrupt that instances 0 and 1 share: each is served when it has a handle.
\<close>

definition lp_call_registered ::
    "(lpuart_isr \<Rightarrow> u32 \<Rightarrow> u32 \<Rightarrow> 'd lpuart \<Rightarrow> 'd lpuart option) \<Rightarrow> 'd lpuart_soc \<Rightarrow> nat \<Rightarrow> 'd lpuart
     \<Rightarrow> 'd lpuart option" where
  "lp_call_registered call soc inst s =
     (if 0 \<noteq> s_lpuartHandle s ! inst then do {
        c_assert (s_lpuartIsr s ! inst \<noteq> Isr_Null);
        call (s_lpuartIsr s ! inst) (lpuart_bases soc ! inst) (s_lpuartHandle s ! inst) s
      } else Some s)"

definition LPUART0_LPUART1_DriverIRQHandler ::
    "'d lpuart_soc \<Rightarrow> (lpuart_isr \<Rightarrow> u32 \<Rightarrow> u32 \<Rightarrow> 'd lpuart \<Rightarrow> 'd lpuart option) \<Rightarrow> 'd lpuart
     \<Rightarrow> 'd lpuart option" where
  "LPUART0_LPUART1_DriverIRQHandler soc call s = do {
     s \<leftarrow> lp_call_registered call soc 0 s;
     lp_call_registered call soc 1 s
   }"

end
