(* ===== verification/Lpuart_Ring.thy ===== *)
theory Lpuart_Ring
  imports Lpuart_Irq Ring_Queue
begin

text \<open>
  The receive ring buffer of the LPUART as a bounded queue of units, bytes or half-words: the
  interpretation \<open>lpring\<close> discharges the contract of a ring for the handle and RAM of the driver.
\<close>

subsection \<open>Loads and stores of units\<close>

definition unit_bytes :: "bool \<Rightarrow> u16 \<Rightarrow> u8 list" where
  "unit_bytes wide v = (if wide then [ucast v, ucast (drop_bit 8 v)] else [ucast v])"

definition unit_size :: "bool \<Rightarrow> nat" where
  "unit_size wide = (if wide then 2 else 1)"

definition unit_valid :: "bool \<Rightarrow> u16 \<Rightarrow> bool" where
  "unit_valid wide v \<longleftrightarrow> wide \<or> v < 256"

lemma length_unit_bytes [simp]: "length (unit_bytes wide v) = unit_size wide"
  by (simp add: unit_bytes_def unit_size_def)

lemma unit_size_pos [simp]: "0 < unit_size wide"
  by (simp add: unit_size_def)

lemma lp_store_write: "lp_store wide m a v = mem_write m a (unit_bytes wide v)"
  by (simp add: lp_store_def unit_bytes_def write_u16_def)

lemma lp_at_of_nat: "lp_at wide p (of_nat i) = p + of_nat (unit_size wide * i)"
  by (simp add: lp_at_def unit_size_def)

lemma lp_at_ucast: "lp_at wide p (ucast (i :: 'a::len word)) = lp_at wide p (of_nat (unat i))"
  by simp

lemma narrow_unit: "v < 256 \<Longrightarrow> (ucast (ucast (v :: u16) :: u8) :: u16) = v"
  by (simp add: word_unat_eq_iff word_less_nat_alt unat_ucast_small)

lemma load_store: "unit_valid wide v \<Longrightarrow> lp_load wide (lp_store wide m a v) a = v"
  by (auto simp: lp_load_def lp_store_def unit_valid_def narrow_unit)

lemma load_cong:
  assumes "\<And>i. i < unit_size wide \<Longrightarrow> m (a + of_nat i) = m' (a + of_nat i)"
  shows "lp_load wide m a = lp_load wide m' a"
  using assms [of 0] assms [of 1] read_u16_cong [of m a m']
  by (cases wide) (simp_all add: lp_load_def unit_size_def)

lemma load_write_apart:
  "apart a (unit_size wide) b (length bs) \<Longrightarrow> lp_load wide (mem_write m b bs) a = lp_load wide m a"
  by (intro load_cong mem_write_outside) (auto dest: apartD)

lemma units_apart:
  assumes "i \<noteq> j" "i < 65536" "j < 65536"
  shows "apart (lp_at wide p (of_nat i)) (unit_size wide) (lp_at wide p (of_nat j)) (unit_size wide)"
  unfolding apart_def lp_at_of_nat
proof (intro allI impI)
  fix x y
  assume xy: "x < unit_size wide" "y < unit_size wide"
  have "unit_size wide * i + x \<noteq> unit_size wide * j + y" using assms(1) xy by (auto simp: unit_size_def split: if_splits)
  moreover have "unit_size wide * i + x < 2 ^ 32" "unit_size wide * j + y < 2 ^ 32"
    using assms(2,3) xy by (auto simp: unit_size_def split: if_splits)
  ultimately have "(of_nat (unit_size wide * i + x) :: u32) \<noteq> of_nat (unit_size wide * j + y)"
    by (simp only: of_nat_u32_eq_iff not_False_eq_True)
  then show "p + of_nat (unit_size wide * i) + of_nat x \<noteq> p + of_nat (unit_size wide * j) + of_nat y"
    by (simp add: add.assoc)
qed

subsection \<open>The ring of the driver\<close>

text \<open>
  A ring buffer is installed, its indices are in range, and seven data bits are not combined with
  the 16-bit mode (the ring would be written by bytes and read by half-words). Sizes above 65536 do
  not fit the indices.
\<close>

definition lpring_ok :: "lpuart_handle \<Rightarrow> bool" where
  "lpring_ok h \<longleftrightarrow>
     rxRingBuffer h \<noteq> 0 \<and> rxRingBufferSize h \<le> 65536 \<and> \<not> (isSevenDataBits h \<and> is16bitData h) \<and>
     ucast (rxRingBufferHead h) < rxRingBufferSize h \<and> ucast (rxRingBufferTail h) < rxRingBufferSize h"

abbreviation lpring_size :: "lpuart_handle \<Rightarrow> nat" where "lpring_size h \<equiv> unat (rxRingBufferSize h)"
abbreviation lpring_head :: "lpuart_handle \<Rightarrow> nat" where "lpring_head h \<equiv> unat (rxRingBufferHead h)"
abbreviation lpring_tail :: "lpuart_handle \<Rightarrow> nat" where "lpring_tail h \<equiv> unat (rxRingBufferTail h)"

definition lpring_len :: "lpuart_handle \<Rightarrow> nat" where
  "lpring_len h = wrap_len (lpring_size h) (lpring_head h) (lpring_tail h)"

definition lpring_cell :: "lpuart_handle \<times> mem \<Rightarrow> nat \<Rightarrow> u16" where
  "lpring_cell hm i = lp_load (is16bitData (fst hm)) (snd hm) (lp_at (is16bitData (fst hm)) (rxRingBuffer (fst hm)) (of_nat i))"

text \<open>What the ring holds, oldest unit first.\<close>

definition lpring_units :: "lpuart_handle \<times> mem \<Rightarrow> u16 list" where
  "lpring_units hm = cells (lpring_cell hm) (lpring_size (fst hm)) (lpring_tail (fst hm)) (lpring_len (fst hm))"

definition lpring_cap :: "lpuart_handle \<times> mem \<Rightarrow> nat" where
  "lpring_cap hm = lpring_size (fst hm) - 1"

definition lpring_push :: "u16 \<Rightarrow> lpuart_handle \<times> mem \<Rightarrow> lpuart_handle \<times> mem" where
  "lpring_push v hm = lp_ring_store v (lp_make_room (fst hm), snd hm)"

lemma lpring_ok_bounds:
  assumes "lpring_ok h"
  shows "0 < lpring_size h" "lpring_size h \<le> 65536" "lpring_head h < lpring_size h" "lpring_tail h < lpring_size h"
    "is16bitData h \<Longrightarrow> \<not> isSevenDataBits h" "rxRingBuffer h \<noteq> 0"
  using assms by (auto simp: lpring_ok_def word_less_nat_alt word_le_nat_alt)

lemma lpring_ok_iff:
  "lpring_ok h \<longleftrightarrow> rxRingBuffer h \<noteq> 0 \<and> lpring_size h \<le> 65536 \<and> \<not> (isSevenDataBits h \<and> is16bitData h) \<and>
     lpring_head h < lpring_size h \<and> lpring_tail h < lpring_size h"
  by (auto simp: lpring_ok_def word_less_nat_alt word_le_nat_alt)

lemma lpring_length_unat:
  assumes "lpring_ok h"
  shows "unat (LPUART_TransferGetRxRingBufferLength h) = lpring_len h"
  using index_distance [of "rxRingBufferHead h" "rxRingBufferSize h" "rxRingBufferTail h"] lpring_ok_bounds [OF assms]
  by (simp add: LPUART_TransferGetRxRingBufferLength_def lpring_len_def)

lemma lpring_len_less: "lpring_ok h \<Longrightarrow> lpring_len h < lpring_size h"
  by (simp add: lpring_len_def wrap_len_less lpring_ok_bounds)

lemma lpring_full_iff:
  assumes "lpring_ok h"
  shows "LPUART_TransferIsRxRingBufferFull h \<longleftrightarrow> Suc (lpring_len h) = lpring_size h"
  using distance_full [of "LPUART_TransferGetRxRingBufferLength h" "rxRingBufferSize h"] lpring_len_less [OF assms]
  by (simp add: LPUART_TransferIsRxRingBufferFull_def lpring_length_unat [OF assms])

lemma lp_inc_simps [simp]:
  "rxRingBuffer (lp_inc_tail h) = rxRingBuffer h" "rxRingBufferSize (lp_inc_tail h) = rxRingBufferSize h"
  "rxRingBufferHead (lp_inc_tail h) = rxRingBufferHead h" "is16bitData (lp_inc_tail h) = is16bitData h"
  "isSevenDataBits (lp_inc_tail h) = isSevenDataBits h"
  "rxRingBuffer (lp_inc_head h) = rxRingBuffer h" "rxRingBufferSize (lp_inc_head h) = rxRingBufferSize h"
  "rxRingBufferTail (lp_inc_head h) = rxRingBufferTail h" "is16bitData (lp_inc_head h) = is16bitData h"
  "isSevenDataBits (lp_inc_head h) = isSevenDataBits h"
  by (simp_all add: lp_inc_tail_def lp_inc_head_def)

lemma lp_inc_unat:
  assumes "lpring_ok h"
  shows "lpring_tail (lp_inc_tail h) = Suc (lpring_tail h) mod lpring_size h"
    "lpring_head (lp_inc_head h) = Suc (lpring_head h) mod lpring_size h"
  using inc_index [of "rxRingBufferTail h" "rxRingBufferSize h"] inc_index [of "rxRingBufferHead h" "rxRingBufferSize h"]
    lpring_ok_bounds [OF assms]
  by (simp_all add: lp_inc_tail_def lp_inc_head_def split: if_splits)

lemma lp_inc_ok:
  assumes "lpring_ok h"
  shows "lpring_ok (lp_inc_tail h)" "lpring_ok (lp_inc_head h)"
  using assms lpring_ok_bounds(1) [OF assms] by (simp_all add: lpring_ok_iff lp_inc_unat)

interpretation lpindex: index_ring "\<lambda>hm. lpring_ok (fst hm)" "\<lambda>hm. unit_valid (is16bitData (fst hm))"
  "\<lambda>hm. lpring_size (fst hm)" "\<lambda>hm. lpring_head (fst hm)" "\<lambda>hm. lpring_tail (fst hm)" lpring_cell
  "\<lambda>hm. LPUART_TransferIsRxRingBufferFull (fst hm)" lp_ring_store "\<lambda>hm. (lp_inc_tail (fst hm), snd hm)"
proof (standard, goal_cases)
  case (8 s x i)
  note b = lpring_ok_bounds [OF 8(1)]
  let ?w = "is16bitData (fst s)" and ?p = "rxRingBuffer (fst s)"
  have "lp_load ?w (lp_store ?w (snd s) (lp_at ?w ?p (of_nat (lpring_head (fst s)))) x) (lp_at ?w ?p (of_nat i)) =
        lp_load ?w (snd s) (lp_at ?w ?p (of_nat i))" if "i \<noteq> lpring_head (fst s)"
    unfolding lp_store_write length_unit_bytes using that 8(3) b units_apart [of i "lpring_head (fst s)" ?w ?p]
    by (intro load_write_apart) simp
  moreover have "(?w \<and> \<not> isSevenDataBits (fst s)) = ?w" using b(5) by auto
  ultimately show ?case using 8(2) load_store [of ?w x "snd s"]
    by (auto simp: lpring_cell_def lp_ring_store_def case_prod_beta Let_def)
qed (simp_all add: lpring_ok_bounds lpring_full_iff lpring_len_def lp_ring_store_def case_prod_beta Let_def lp_inc_ok lp_inc_unat
       lpring_cell_def)

lemma lpindex_simps:
  "lpindex.items = lpring_units" "lpindex.room = lpring_cap" "lpindex.push = lpring_push" "lpindex.pop = lp_ring_pop"
  by (auto simp: fun_eq_iff lpindex.items_def lpindex.len_def lpindex.room_def lpindex.push_def lpindex.pop_def
        lpring_units_def lpring_len_def lpring_cap_def lpring_push_def lp_make_room_def lp_ring_pop_def lpring_cell_def)

interpretation lpring: bounded_queue "\<lambda>hm. lpring_ok (fst hm)" "\<lambda>hm. unit_valid (is16bitData (fst hm))"
  lpring_units lpring_cap lpring_push lp_ring_pop
  using lpindex.bounded_queue_axioms unfolding lpindex_simps .

lemma length_lpring_units [simp]: "length (lpring_units hm) = lpring_len (fst hm)"
  by (simp add: lpring_units_def)

end
