(* ===== verification/Lpuart_Transfer.thy ===== *)
theory Lpuart_Transfer
  imports Lpuart_Ring
begin

text \<open>
  What the interrupt handler of the LPUART moves: units from the receive FIFO to the buffer of the
  receive request and to the ring, and units of the send request to the transmit FIFO. The handler
  is related to a specification on the handle, RAM and the FIFOs.
\<close>

subsection \<open>State updates\<close>

lemma on_lpdev_simps [simp]:
  "lp_dev (on_lpdev f s) = f (lp_dev s)" "lp_handle (on_lpdev f s) = lp_handle s" "lp_ram (on_lpdev f s) = lp_ram s"
  "lp_primask (on_lpdev f s) = lp_primask s" "s_lpuartHandle (on_lpdev f s) = s_lpuartHandle s"
  "s_lpuartIsr (on_lpdev f s) = s_lpuartIsr s"
  by (simp_all add: on_lpdev_def)

lemma on_lph_simps [simp]:
  "lp_dev (on_lph f s) = lp_dev s" "lp_handle (on_lph f s) = f (lp_handle s)" "lp_ram (on_lph f s) = lp_ram s"
  "lp_primask (on_lph f s) = lp_primask s" "s_lpuartHandle (on_lph f s) = s_lpuartHandle s"
  "s_lpuartIsr (on_lph f s) = s_lpuartIsr s"
  by (simp_all add: on_lph_def)

lemma lp_atomic_simps [simp]:
  "lp_dev (lp_atomic f s) = f (lp_dev s)" "lp_handle (lp_atomic f s) = lp_handle s" "lp_ram (lp_atomic f s) = lp_ram s"
  "lp_primask (lp_atomic f s) = lp_primask s" "s_lpuartHandle (lp_atomic f s) = s_lpuartHandle s"
  "s_lpuartIsr (lp_atomic f s) = s_lpuartIsr s"
  by (simp_all add: lp_atomic_def DisableGlobalIRQ_def EnableGlobalIRQ_def)

lemma lpread_simps [simp]:
  "fst (lpread soc r s) = fst (reg_read soc r (lp_dev s))" "lp_dev (snd (lpread soc r s)) = snd (reg_read soc r (lp_dev s))"
  "lp_handle (snd (lpread soc r s)) = lp_handle s" "lp_ram (snd (lpread soc r s)) = lp_ram s"
  by (simp_all add: lpread_def case_prod_beta Let_def)

text \<open>Callbacks that only observe: they may use the device, and leave the handle and RAM alone.\<close>

definition lp_observer :: "'d lpuart_soc \<Rightarrow> bool" where
  "lp_observer soc \<longleftrightarrow>
     (\<forall>f st ud s. \<exists>s'. lp_invoke soc f st ud s = Some s' \<and> lp_handle s' = lp_handle s \<and> lp_ram s' = lp_ram s)"

subsection \<open>A device with FIFOs\<close>

text \<open>
  What the driver relies on: WATER counts the units in the FIFOs (devices without a FIFO hold one
  unit), reading DATA takes the oldest received unit, writing DATA queues one, changing the
  interrupt enables in CTRL, clearing flags in STAT and callbacks touch neither the FIFOs nor the
  frame format. During the handler no further unit arrives and none leaves.
\<close>

record lp_fifo =
  lf_rx :: "u32 list"
  lf_seven :: bool
  lf_level :: nat
  lf_sent :: "u32 list"

definition lp_tx_cap :: "'d lpuart_soc \<Rightarrow> nat" where
  "lp_tx_cap soc = (if lp_has soc HAS_FIFO then nat (FIFO_SIZEn soc) else 1)"

definition lp_format :: "'d lpuart_soc \<Rightarrow> u32" where
  "lp_format soc = lp_mask soc M_CTRL_M7 OR lp_mask soc M_CTRL_M OR lp_mask soc M_CTRL_PE"

definition lp_int_bits :: "'d lpuart_soc \<Rightarrow> u32" where
  "lp_int_bits soc = lp_rx_idle_ints soc OR lp_mask soc M_CTRL_TIE OR lp_mask soc M_CTRL_TCIE"

definition lp_fifo_device :: "'d lpuart_soc \<Rightarrow> ('d \<Rightarrow> lp_fifo) \<Rightarrow> bool" where
  "lp_fifo_device soc fifo \<longleftrightarrow>
     lp_int_bits soc AND lp_format soc = 0 \<and>
     (lp_has soc HAS_FIFO \<longrightarrow> 0 < FIFO_SIZEn soc \<and> FIFO_SIZEn soc < 256) \<and>
     (\<forall>d. length (lf_rx (fifo d)) < 256 \<and> lf_level (fifo d) \<le> lp_tx_cap soc) \<and>
     (\<forall>d. fst (lp_seven_bits soc d) = lf_seven (fifo d)) \<and>
     (\<forall>r d. r \<noteq> P_DATA \<longrightarrow> fifo (snd (reg_read soc r d)) = fifo d) \<and>
     (\<forall>v d. fifo (reg_write soc P_STAT v d) = fifo d) \<and>
     (\<forall>f d. (\<forall>v. f v AND lp_format soc = v AND lp_format soc) \<longrightarrow>
        fifo (reg_write soc P_CTRL (f (fst (reg_read soc P_CTRL d))) (snd (reg_read soc P_CTRL d))) = fifo d) \<and>
     (\<forall>d. lp_has soc HAS_FIFO \<longrightarrow>
        drop_bit (WATER_RXCOUNT_SHIFT soc) (fst (reg_read soc P_WATER d) AND lp_mask soc M_WATER_RXCOUNT) =
          of_nat (length (lf_rx (fifo d))) \<and>
        drop_bit (WATER_TXCOUNT_SHIFT soc) (fst (reg_read soc P_WATER d) AND lp_mask soc M_WATER_TXCOUNT) =
          of_nat (lf_level (fifo d))) \<and>
     (\<forall>d w ws. lf_rx (fifo d) = w # ws \<longrightarrow>
        fst (reg_read soc P_DATA d) = w \<and> fifo (snd (reg_read soc P_DATA d)) = (fifo d)\<lparr>lf_rx := ws\<rparr>) \<and>
     (\<forall>d v. lf_level (fifo d) < lp_tx_cap soc \<longrightarrow>
        fifo (reg_write soc P_DATA v d) =
          (fifo d)\<lparr>lf_level := Suc (lf_level (fifo d)), lf_sent := lf_sent (fifo d) @ [v]\<rparr>) \<and>
     (\<forall>f st ud s s'. lp_invoke soc f st ud s = Some s' \<longrightarrow> fifo (lp_dev s') = fifo (lp_dev s))"

lemma lf_bounds:
  "lp_fifo_device soc fifo \<Longrightarrow> length (lf_rx (fifo d)) < 256" "lp_fifo_device soc fifo \<Longrightarrow> lf_level (fifo d) \<le> lp_tx_cap soc"
  unfolding lp_fifo_device_def by blast+

lemma lf_seven: "lp_fifo_device soc fifo \<Longrightarrow> fst (lp_seven_bits soc d) = lf_seven (fifo d)"
  unfolding lp_fifo_device_def by blast

lemma lf_read [simp]: "lp_fifo_device soc fifo \<Longrightarrow> r \<noteq> P_DATA \<Longrightarrow> fifo (snd (reg_read soc r d)) = fifo d"
  unfolding lp_fifo_device_def by blast

lemma lf_write_stat [simp]: "lp_fifo_device soc fifo \<Longrightarrow> fifo (reg_write soc P_STAT v d) = fifo d"
  unfolding lp_fifo_device_def by blast

lemma lf_write_ctrl:
  "lp_fifo_device soc fifo \<Longrightarrow> (\<And>v. f v AND lp_format soc = v AND lp_format soc) \<Longrightarrow>
   fifo (reg_write soc P_CTRL (f (fst (reg_read soc P_CTRL d))) (snd (reg_read soc P_CTRL d))) = fifo d"
  unfolding lp_fifo_device_def by blast

lemma lf_counts:
  "lp_fifo_device soc fifo \<Longrightarrow> lp_has soc HAS_FIFO \<Longrightarrow>
   drop_bit (WATER_RXCOUNT_SHIFT soc) (fst (reg_read soc P_WATER d) AND lp_mask soc M_WATER_RXCOUNT) =
     of_nat (length (lf_rx (fifo d)))"
  "lp_fifo_device soc fifo \<Longrightarrow> lp_has soc HAS_FIFO \<Longrightarrow>
   drop_bit (WATER_TXCOUNT_SHIFT soc) (fst (reg_read soc P_WATER d) AND lp_mask soc M_WATER_TXCOUNT) =
     of_nat (lf_level (fifo d))"
  unfolding lp_fifo_device_def by blast+

lemma lf_pop:
  "lp_fifo_device soc fifo \<Longrightarrow> lf_rx (fifo d) = w # ws \<Longrightarrow>
   fst (reg_read soc P_DATA d) = w \<and> fifo (snd (reg_read soc P_DATA d)) = (fifo d)\<lparr>lf_rx := ws\<rparr>"
  unfolding lp_fifo_device_def by blast

lemma lf_send:
  "lp_fifo_device soc fifo \<Longrightarrow> lf_level (fifo d) < lp_tx_cap soc \<Longrightarrow> fifo (reg_write soc P_DATA v d) =
     (fifo d)\<lparr>lf_level := Suc (lf_level (fifo d)), lf_sent := lf_sent (fifo d) @ [v]\<rparr>"
  unfolding lp_fifo_device_def by blast

lemma lf_size: "lp_fifo_device soc fifo \<Longrightarrow> lp_has soc HAS_FIFO \<Longrightarrow> 0 < FIFO_SIZEn soc \<and> FIFO_SIZEn soc < 256"
  unfolding lp_fifo_device_def by blast

lemma lf_seven_read [simp]: "lp_fifo_device soc fifo \<Longrightarrow> fifo (snd (lp_seven_bits soc d)) = fifo d"
  by (simp add: lp_seven_bits_def case_prod_beta Let_def)

lemma lf_disjoint:
  assumes "lp_fifo_device soc fifo" "m AND NOT (lp_int_bits soc) = 0"
  shows "m AND lp_format soc = 0"
proof -
  have d: "lp_int_bits soc AND lp_format soc = 0" using assms(1) unfolding lp_fifo_device_def by blast
  show ?thesis
  proof (rule bit_word_eqI)
    fix n
    assume "n < LENGTH(32)"
    then show "bit (m AND lp_format soc) n = bit (0 :: u32) n"
      using arg_cong [OF assms(2), of "\<lambda>w. bit w n"] arg_cong [OF d, of "\<lambda>w. bit w n"] by (auto simp: bit_simps)
  qed
qed

lemma lf_clear [simp]:
  assumes "lp_fifo_device soc fifo" "m AND NOT (lp_int_bits soc) = 0"
  shows "fifo (reg_clear soc P_CTRL m d) = fifo d"
proof -
  have "(v AND NOT m) AND lp_format soc = v AND lp_format soc" for v
  proof (rule bit_word_eqI)
    fix n
    assume "n < LENGTH(32)"
    then show "bit ((v AND NOT m) AND lp_format soc) n = bit (v AND lp_format soc) n"
      using arg_cong [OF lf_disjoint [OF assms], of "\<lambda>w. bit w n"] by (auto simp: bit_simps)
  qed
  from lf_write_ctrl [OF assms(1), of "\<lambda>v. v AND NOT m"] this show ?thesis
    by (simp add: reg_clear_def case_prod_beta Let_def)
qed

lemma lp_int_masks [simp]:
  "lp_rx_idle_ints soc AND NOT (lp_int_bits soc) = 0" "lp_mask soc M_CTRL_TIE AND NOT (lp_int_bits soc) = 0"
  "lp_mask soc M_CTRL_TCIE AND NOT (lp_int_bits soc) = 0"
  by (rule bit_word_eqI; auto simp: lp_int_bits_def bit_simps)+

text \<open>The exchange of TIE for TCIE at the end of a send request.\<close>

lemma lf_tie_tcie:
  assumes "lp_fifo_device soc fifo"
  shows "fifo (let (v, d) = reg_read soc P_CTRL d
               in reg_write soc P_CTRL (v AND NOT (lp_mask soc M_CTRL_TIE) OR lp_mask soc M_CTRL_TCIE) d) = fifo d"
proof -
  note z = lf_disjoint [OF assms lp_int_masks(2)] lf_disjoint [OF assms lp_int_masks(3)]
  have "(v AND NOT (lp_mask soc M_CTRL_TIE) OR lp_mask soc M_CTRL_TCIE) AND lp_format soc = v AND lp_format soc" for v
  proof (rule bit_word_eqI)
    fix n
    assume "n < LENGTH(32)"
    then show "bit ((v AND NOT (lp_mask soc M_CTRL_TIE) OR lp_mask soc M_CTRL_TCIE) AND lp_format soc) n =
          bit (v AND lp_format soc) n"
      using arg_cong [OF z(1), of "\<lambda>w. bit w n"] arg_cong [OF z(2), of "\<lambda>w. bit w n"] by (auto simp: bit_simps)
  qed
  from lf_write_ctrl [OF assms, of "\<lambda>v. v AND NOT (lp_mask soc M_CTRL_TIE) OR lp_mask soc M_CTRL_TCIE"] this show ?thesis
    by (simp add: case_prod_beta Let_def)
qed

text \<open>The part of the state that the specification is about.\<close>

type_synonym lp_view = "(lpuart_handle \<times> mem) \<times> lp_fifo"

definition lpview :: "('d \<Rightarrow> lp_fifo) \<Rightarrow> 'd lpuart \<Rightarrow> lp_view" where
  "lpview fifo s = ((lp_handle s, lp_ram s), fifo (lp_dev s))"

lemma lp_callback_view:
  assumes "lp_observer soc" "lp_fifo_device soc fifo"
  obtains s' where "lp_callback soc st s = Some s'" "lpview fifo s' = lpview fifo s"
proof (cases "callback (lp_handle s)")
  case None
  then show ?thesis using that [of s] by (simp add: lp_callback_def)
next
  case (Some f)
  then obtain s' where s': "lp_invoke soc f st (userData (lp_handle s)) s = Some s'" "lp_handle s' = lp_handle s"
    "lp_ram s' = lp_ram s" using assms(1) unfolding lp_observer_def by blast
  moreover have "fifo (lp_dev s') = fifo (lp_dev s)" using assms(2) s'(1) unfolding lp_fifo_device_def by blast
  ultimately show ?thesis using that [of s'] Some by (simp add: lp_callback_def lpview_def)
qed

subsection \<open>Specification of the handler\<close>

text \<open>The unit that a word read from DATA is stored as.\<close>

definition lp_unit :: "bool \<Rightarrow> bool \<Rightarrow> u32 \<Rightarrow> u16" where
  "lp_unit wide seven v =
     (if wide then ucast (v AND 0x3FF) else ucast (ucast (if seven then v AND 0x7F else v) :: u8))"

text \<open>The bytes that a sequence of words is stored as.\<close>

definition lp_image :: "bool \<Rightarrow> bool \<Rightarrow> u32 list \<Rightarrow> u8 list" where
  "lp_image wide seven ws = concat (map (\<lambda>w. unit_bytes wide (lp_unit wide seven w)) ws)"

lemma lp_image_simps [simp]:
  "lp_image wide seven [] = []"
  "lp_image wide seven (w # ws) = unit_bytes wide (lp_unit wide seven w) @ lp_image wide seven ws"
  by (simp_all add: lp_image_def)

lemma length_lp_image [simp]: "length (lp_image wide seven ws) = unit_size wide * length ws"
  by (induction ws) simp_all

text \<open>Fill the buffer of the receive request from the receive FIFO.\<close>

definition lp_take :: "lp_view \<Rightarrow> lp_view" where
  "lp_take v =
     (let ((h, m), f) = v; wide = is16bitData h; r = unat (rxDataSize h); k = min r (length (lf_rx f))
      in if k = 0 then v
         else ((h\<lparr>rxData := lp_at wide (rxData h) (of_nat k), rxDataSize := rxDataSize h - of_nat k,
                  rxState := (if k = r then kLPUART_RxIdle else rxState h)\<rparr>,
                mem_write m (rxData h) (lp_image wide (lf_seven f) (take k (lf_rx f)))),
               f\<lparr>lf_rx := drop k (lf_rx f)\<rparr>))"

text \<open>Store what is left of the receive FIFO in the ring.\<close>

definition lp_queue :: "lp_view \<Rightarrow> lp_view" where
  "lp_queue v = (let (hm, f) = v in (fold lpring_push (map (lp_ring_value (fst hm)) (lf_rx f)) hm, f\<lparr>lf_rx := []\<rparr>))"

definition lp_receive :: "lp_view \<Rightarrow> lp_view" where
  "lp_receive v = (let v = lp_take v in if rxRingBuffer (fst (fst v)) \<noteq> 0 then lp_queue v else v)"

text \<open>Send units of the send request while the transmit FIFO has room.\<close>

definition lp_emit :: "nat \<Rightarrow> lp_view \<Rightarrow> lp_view" where
  "lp_emit cap v =
     (let ((h, m), f) = v; wide = is16bitData h; k = min (unat (txDataSize h)) (cap - lf_level f)
      in ((h\<lparr>txData := lp_at wide (txData h) (of_nat k), txDataSize := txDataSize h - of_nat k\<rparr>, m),
          f\<lparr>lf_level := lf_level f + k,
            lf_sent := lf_sent f @ map (\<lambda>i. ucast (lp_load wide m (lp_at wide (txData h) (of_nat i)))) [0..<k]\<rparr>))"

subsection \<open>Reading units\<close>

lemma store_unit:
  "m(a := ucast (if seven then w AND 0x7F else w)) = mem_write m a (unit_bytes False (lp_unit False seven w))"
  "write_u16 m a (ucast (w AND 0x3FF)) = mem_write m a (unit_bytes True (lp_unit True seven w))"
proof -
  have "(ucast (ucast (b :: u8) :: u16) :: u8) = b" for b by (rule bit_word_eqI) (auto simp: bit_simps)
  then show "m(a := ucast (if seven then w AND 0x7F else w)) = mem_write m a (unit_bytes False (lp_unit False seven w))"
    by (simp add: unit_bytes_def lp_unit_def)
qed (simp add: unit_bytes_def lp_unit_def write_u16_def)

lemma read_bytes_units:
  assumes "lp_fifo_device soc fifo" "n \<le> length (lf_rx (fifo d))"
  shows "\<exists>d'. lp_read_bytes soc seven a n (m, d) =
           (mem_write m a (lp_image False seven (take n (lf_rx (fifo d)))), d') \<and>
           fifo d' = (fifo d)\<lparr>lf_rx := drop n (lf_rx (fifo d))\<rparr>"
  using assms(2)
proof (induction n arbitrary: a m d)
  case (Suc n)
  then obtain w ws where w: "lf_rx (fifo d) = w # ws" by (cases "lf_rx (fifo d)") auto
  define d1 where "d1 = snd (reg_read soc P_DATA d)"
  define m1 where "m1 = mem_write m a (unit_bytes False (lp_unit False seven w))"
  have p: "reg_read soc P_DATA d = (w, d1)" "fifo d1 = (fifo d)\<lparr>lf_rx := ws\<rparr>"
    using lf_pop [OF assms(1) w] by (auto simp: d1_def prod_eq_iff)
  from Suc.IH [of d1 "a + 1" m1] Suc.prems w p(2) obtain d' where
    d': "lp_read_bytes soc seven (a + 1) n (m1, d1) =
           (mem_write m1 (a + 1) (lp_image False seven (take n ws)), d')"
       "fifo d' = (fifo d)\<lparr>lf_rx := drop n ws\<rparr>" by auto
  have "lp_read_bytes soc seven a (Suc n) (m, d) = lp_read_bytes soc seven (a + 1) n (m1, d1)"
    by (simp only: lp_read_bytes.simps fst_conv snd_conv p(1) Let_def prod.case store_unit(1) m1_def)
  with d' w show ?case by (simp add: mem_write_append m1_def unit_size_def)
qed simp

lemma read_halfs_units:
  assumes "lp_fifo_device soc fifo" "n \<le> length (lf_rx (fifo d))"
  shows "\<exists>d'. lp_read_halfs soc a n (m, d) =
           (mem_write m a (lp_image True seven (take n (lf_rx (fifo d)))), d') \<and>
           fifo d' = (fifo d)\<lparr>lf_rx := drop n (lf_rx (fifo d))\<rparr>"
  using assms(2)
proof (induction n arbitrary: a m d)
  case (Suc n)
  then obtain w ws where w: "lf_rx (fifo d) = w # ws" by (cases "lf_rx (fifo d)") auto
  define d1 where "d1 = snd (reg_read soc P_DATA d)"
  define m1 where "m1 = mem_write m a (unit_bytes True (lp_unit True seven w))"
  have p: "reg_read soc P_DATA d = (w, d1)" "fifo d1 = (fifo d)\<lparr>lf_rx := ws\<rparr>"
    using lf_pop [OF assms(1) w] by (auto simp: d1_def prod_eq_iff)
  from Suc.IH [of d1 "a + 2" m1] Suc.prems w p(2) obtain d' where
    d': "lp_read_halfs soc (a + 2) n (m1, d1) =
           (mem_write m1 (a + 2) (lp_image True seven (take n ws)), d')"
       "fifo d' = (fifo d)\<lparr>lf_rx := drop n ws\<rparr>" by auto
  have "lp_read_halfs soc a (Suc n) (m, d) = lp_read_halfs soc (a + 2) n (m1, d1)"
    by (simp only: lp_read_halfs.simps fst_conv snd_conv p(1) Let_def prod.case store_unit(2) [where seven = seven] m1_def)
  with d' w show ?case by (simp add: mem_write_append m1_def unit_size_def)
qed simp

lemma request_body_view:
  assumes "lp_observer soc" "lp_fifo_device soc fifo" "rxData (lp_handle s) \<noteq> 0"
    "unat t = min (unat (rxDataSize (lp_handle s))) (length (lf_rx (fifo (lp_dev s))))" "t \<noteq> 0"
  shows "\<exists>s'. lp_request_body soc t s = Some s' \<and> lpview fifo s' = lp_take (lpview fifo s)"
proof -
  let ?h = "lp_handle s" and ?f = "fifo (lp_dev s)" and ?k = "unat t"
  let ?bs = "lp_image (is16bitData ?h) (lf_seven ?f) (take ?k (lf_rx ?f))"
  have le: "?k \<le> length (lf_rx ?f)" using assms(4) by simp
  have k0: "?k \<noteq> 0" using assms(5) unfolding unat_eq_zero .
  have rd: "\<exists>d'. (if \<not> is16bitData ?h then LPUART_ReadNonBlocking soc (rxData ?h) (ucast t) (lp_ram s, lp_dev s)
          else LPUART_ReadNonBlocking16bit soc (rxData ?h) (ucast t) (lp_ram s, lp_dev s)) =
          Some (mem_write (lp_ram s) (rxData ?h) ?bs, d') \<and> fifo d' = ?f\<lparr>lf_rx := drop ?k (lf_rx ?f)\<rparr>"
  proof (cases "is16bitData ?h")
    case True
    with read_halfs_units [OF assms(2) le, of "rxData ?h" "lp_ram s" "lf_seven ?f"] assms(3) show ?thesis
      by (simp add: LPUART_ReadNonBlocking16bit_def)
  next
    case False
    with read_bytes_units [OF assms(2), of ?k "snd (lp_seven_bits soc (lp_dev s))" "lf_seven ?f" "rxData ?h" "lp_ram s"]
      assms(2,3) le lf_seven [OF assms(2), of "lp_dev s"] show ?thesis
      by (simp add: LPUART_ReadNonBlocking_def case_prod_beta Let_def)
  qed
  then obtain d' where d': "(if \<not> is16bitData ?h then LPUART_ReadNonBlocking soc (rxData ?h) (ucast t) (lp_ram s, lp_dev s)
          else LPUART_ReadNonBlocking16bit soc (rxData ?h) (ucast t) (lp_ram s, lp_dev s)) =
          Some (mem_write (lp_ram s) (rxData ?h) ?bs, d')" "fifo d' = ?f\<lparr>lf_rx := drop ?k (lf_rx ?f)\<rparr>" by blast
  let ?s1 = "on_lph (\<lambda>h. h\<lparr>rxData := lp_at (is16bitData h) (rxData h) (ucast t), rxDataSize := rxDataSize h - ucast t\<rparr>)
               (s\<lparr>lp_ram := mem_write (lp_ram s) (rxData ?h) ?bs, lp_dev := d'\<rparr>)"
  have "(0 = rxDataSize ?h - ucast t) = (ucast t = rxDataSize ?h)" by auto
  also have "\<dots> = (?k = unat (rxDataSize ?h))" by (simp add: word_unat_eq_iff)
  finally have z: "(0 = rxDataSize (lp_handle ?s1)) = (?k = unat (rxDataSize ?h))" by simp
  have body: "lp_request_body soc t s =
      (if ?k = unat (rxDataSize ?h) then lp_callback soc kStatus_LPUART_RxIdle (on_lph (\<lambda>h. h\<lparr>rxState := kLPUART_RxIdle\<rparr>) ?s1)
       else Some ?s1)"
    unfolding lp_request_body_def Let_def d'(1) using z by simp
  have tk: "lp_take (lpview fifo s) =
      ((?h\<lparr>rxData := lp_at (is16bitData ?h) (rxData ?h) (ucast t), rxDataSize := rxDataSize ?h - ucast t,
          rxState := (if ?k = unat (rxDataSize ?h) then kLPUART_RxIdle else rxState ?h)\<rparr>,
        mem_write (lp_ram s) (rxData ?h) ?bs), ?f\<lparr>lf_rx := drop ?k (lf_rx ?f)\<rparr>)"
    unfolding lp_take_def lpview_def Let_def prod.case assms(4) [symmetric] by (simp only: k0 if_False of_nat_unat)
  show ?thesis
  proof (cases "?k = unat (rxDataSize ?h)")
    case True
    obtain s' where "lp_callback soc kStatus_LPUART_RxIdle (on_lph (\<lambda>h. h\<lparr>rxState := kLPUART_RxIdle\<rparr>) ?s1) = Some s'"
      "lpview fifo s' = lpview fifo (on_lph (\<lambda>h. h\<lparr>rxState := kLPUART_RxIdle\<rparr>) ?s1)"
      by (rule lp_callback_view [OF assms(1,2)])
    with True body d'(2) show ?thesis unfolding tk by (simp add: lpview_def)
  next
    case False
    with body d'(2) show ?thesis unfolding tk by (simp add: lpview_def)
  qed
qed

text \<open>A receive request that will be served has a buffer.\<close>

definition lp_request_ok :: "lp_view \<Rightarrow> bool" where
  "lp_request_ok v \<longleftrightarrow> (rxDataSize (fst (fst v)) \<noteq> 0 \<and> lf_rx (snd v) \<noteq> [] \<longrightarrow> rxData (fst (fst v)) \<noteq> 0)"

lemma lp_take_idle:
  "rxDataSize (fst (fst v)) = 0 \<or> lf_rx (snd v) = [] \<Longrightarrow> lp_take v = v"
  by (cases v) (auto simp: lp_take_def Let_def)

lemma lp_take_done: "rxDataSize (fst (fst (lp_take v))) = 0 \<or> lf_rx (snd (lp_take v)) = []"
proof -
  obtain h m f where v: "v = ((h, m), f)" by (metis prod.collapse)
  show ?thesis
  proof (cases "unat (rxDataSize h) \<le> length (lf_rx f)")
    case True
    then have "min (unat (rxDataSize h)) (length (lf_rx f)) = unat (rxDataSize h)" by simp
    then show ?thesis by (simp add: v lp_take_def Let_def unat_eq_zero)
  qed (simp add: v lp_take_def Let_def)
qed

lemma lp_take_ring [simp]:
  "rxRingBuffer (fst (fst (lp_take v))) = rxRingBuffer (fst (fst v))"
  by (cases v) (auto simp: lp_take_def Let_def)

lemma temp_count_unat:
  assumes "lp_has soc HAS_FIFO \<or> unat c = 1" "n \<noteq> 0" "c \<noteq> 0"
  shows "unat (lp_temp_count soc n c) = min (unat n) (unat c)"
proof (cases "lp_has soc HAS_FIFO")
  case True
  have "unat c < 256" using unat_u8_le [of c] by simp
  then show ?thesis using True by (simp add: lp_temp_count_def) (subst unat_ucast_small; auto simp: min_def word_le_nat_alt)
next
  case False
  moreover have "unat n \<noteq> 0" using assms(2) by (simp add: unat_eq_zero)
  ultimately show ?thesis using assms(1) by (simp add: lp_temp_count_def)
qed

lemma request_loop_view:
  assumes "lp_observer soc" "lp_fifo_device soc fifo" "lp_request_ok (lpview fifo s)"
    "unat c = length (lf_rx (fifo (lp_dev s)))" "lp_has soc HAS_FIFO \<or> unat c = 1"
  shows "\<exists>s'. lp_request_loop soc c s = Some (of_nat (length (lf_rx (fifo (lp_dev s')))), s') \<and>
           lpview fifo s' = lp_take (lpview fifo s)"
proof (cases "rxDataSize (lp_handle s) = 0 \<or> c = 0")
  case True
  then have "lp_take (lpview fifo s) = lpview fifo s"
    using assms(4) by (intro lp_take_idle) (auto simp: lpview_def)
  moreover have "of_nat (length (lf_rx (fifo (lp_dev s)))) = c" unfolding assms(4) [symmetric] by simp
  moreover have "lp_request_loop soc c s = Some (c, s)" using True by (auto simp: lp_request_loop.simps [of soc c s])
  ultimately show ?thesis by (intro exI [of _ s]) simp
next
  case False
  let ?t = "lp_temp_count soc (rxDataSize (lp_handle s)) c"
  have t: "unat ?t = min (unat (rxDataSize (lp_handle s))) (unat c)" using temp_count_unat [OF assms(5)] False by blast
  then have t0: "?t \<noteq> 0" using False by (metis min_def unat_eq_zero)
  have "unat c \<noteq> 0" using False by (simp add: unat_eq_zero)
  then have "rxData (lp_handle s) \<noteq> 0" using False assms(3,4) by (auto simp: lp_request_ok_def lpview_def)
  from request_body_view [OF assms(1,2) this t [unfolded assms(4)] t0] obtain s' where
    s': "lp_request_body soc ?t s = Some s'" "lpview fifo s' = lp_take (lpview fifo s)" by blast
  have left: "c - ?t = of_nat (length (lf_rx (fifo (lp_dev s'))))"
  proof -
    have "lf_rx (fifo (lp_dev s')) = drop (unat ?t) (lf_rx (fifo (lp_dev s)))"
      using arg_cong [OF s'(2), of "\<lambda>v. lf_rx (snd v)"] t by (auto simp: lpview_def lp_take_def Let_def assms(4))
    then have "length (lf_rx (fifo (lp_dev s'))) = unat c - unat ?t" by (simp add: assms(4))
    also have "\<dots> = unat (c - ?t)" using t by (simp add: unat_minus_small)
    finally show ?thesis by simp
  qed
  have "rxDataSize (lp_handle s') = 0 \<or> c - ?t = 0"
    using lp_take_done [of "lpview fifo s", folded s'(2)] left by (auto simp: lpview_def)
  then have "lp_request_loop soc (c - ?t) s' = Some (c - ?t, s')" by (auto simp: lp_request_loop.simps [of soc "c - ?t" s'])
  then have "lp_request_loop soc c s = Some (c - ?t, s')" using False s'(1) by (simp add: lp_request_loop.simps [of soc c s])
  with s'(2) left show ?thesis by auto
qed

subsection \<open>The parts of the handler\<close>

lemma lp_make_room_simps [simp]:
  "rxRingBuffer (lp_make_room h) = rxRingBuffer h" "isSevenDataBits (lp_make_room h) = isSevenDataBits h"
  "is16bitData (lp_make_room h) = is16bitData h" "rxRingBufferSize (lp_make_room h) = rxRingBufferSize h"
  "lp_ring_value (lp_make_room h) = lp_ring_value h"
  by (auto simp: lp_make_room_def lp_ring_value_def fun_eq_iff)

lemma lpring_push_simps [simp]:
  "rxRingBuffer (fst (lpring_push x hm)) = rxRingBuffer (fst hm)"
  "rxRingBufferSize (fst (lpring_push x hm)) = rxRingBufferSize (fst hm)"
  "is16bitData (fst (lpring_push x hm)) = is16bitData (fst hm)"
  "lp_ring_value (fst (lpring_push x hm)) = lp_ring_value (fst hm)"
  by (auto simp: lpring_push_def lp_ring_store_def lp_ring_value_def fun_eq_iff case_prod_beta Let_def)

lemma ring_receive_view:
  assumes "lp_observer soc" "lp_fifo_device soc fifo" "lf_rx (fifo (lp_dev s)) = w # ws" "rxRingBuffer (lp_handle s) \<noteq> 0"
  shows "\<exists>s'. lp_ring_receive soc s = Some s' \<and>
           lpview fifo s' = (lpring_push (lp_ring_value (lp_handle s) w) (lp_handle s, lp_ram s), (fifo (lp_dev s))\<lparr>lf_rx := ws\<rparr>)"
proof -
  obtain s0 where "lp_callback soc kStatus_LPUART_RxRingBufferOverrun s = Some s0" "lpview fifo s0 = lpview fifo s"
    by (rule lp_callback_view [OF assms(1,2)])
  then obtain s1 where s1: "(if LPUART_TransferIsRxRingBufferFull (lp_handle s)
        then lp_callback soc kStatus_LPUART_RxRingBufferOverrun s else Some s) = Some s1" "lpview fifo s1 = lpview fifo s"
    by (cases "LPUART_TransferIsRxRingBufferFull (lp_handle s)") auto
  then have v: "lp_handle s1 = lp_handle s" "lp_ram s1 = lp_ram s" "fifo (lp_dev s1) = fifo (lp_dev s)"
    by (simp_all add: lpview_def)
  let ?s2 = "on_lph lp_make_room s1"
  have p: "fst (reg_read soc P_DATA (lp_dev s1)) = w" "fifo (snd (reg_read soc P_DATA (lp_dev s1))) = (fifo (lp_dev s))\<lparr>lf_rx := ws\<rparr>"
    using lf_pop [OF assms(2), of "lp_dev s1" w ws] assms(3) v(3) by auto
  show ?thesis
    unfolding lp_ring_receive_def s1(1) using assms(4) v p
    by (simp add: case_prod_beta Let_def lpview_def lpring_push_def)
qed

lemma ring_loop_view:
  assumes "lp_observer soc" "lp_fifo_device soc fifo" "rxRingBuffer (lp_handle s) \<noteq> 0"
  shows "\<exists>s'. lp_ring_loop soc (length (lf_rx (fifo (lp_dev s)))) s = Some s' \<and> lpview fifo s' = lp_queue (lpview fifo s)"
  using assms(3)
proof (induction "lf_rx (fifo (lp_dev s))" arbitrary: s)
  case Nil
  then have "(fifo (lp_dev s))\<lparr>lf_rx := []\<rparr> = fifo (lp_dev s)" by simp
  with Nil show ?case by (simp add: lp_queue_def lpview_def flip: Nil(1))
next
  case (Cons w ws)
  from ring_receive_view [OF assms(1,2) Cons(2) [symmetric] Cons(3)] obtain s1 where
    s1: "lp_ring_receive soc s = Some s1"
      "lpview fifo s1 = (lpring_push (lp_ring_value (lp_handle s) w) (lp_handle s, lp_ram s), (fifo (lp_dev s))\<lparr>lf_rx := ws\<rparr>)"
    by blast
  then have h: "lp_handle s1 = fst (lpring_push (lp_ring_value (lp_handle s) w) (lp_handle s, lp_ram s))"
    "lf_rx (fifo (lp_dev s1)) = ws" by (auto simp: lpview_def prod_eq_iff)
  from Cons(1) [of s1] h Cons(3) obtain s' where
    s': "lp_ring_loop soc (length ws) s1 = Some s'" "lpview fifo s' = lp_queue (lpview fifo s1)" by auto
  have "lp_queue (lpview fifo s1) = lp_queue (lpview fifo s)"
    unfolding s1(2) by (simp add: lp_queue_def lpview_def flip: Cons(2))
  with s' s1(1) show ?case by (simp flip: Cons(2))
qed

lemma rx_count_view:
  assumes "lp_fifo_device soc fifo" "lp_has soc HAS_FIFO"
  shows "unat (fst (lp_rx_count soc s)) = length (lf_rx (fifo (lp_dev s)))" "lpview fifo (snd (lp_rx_count soc s)) = lpview fifo s"
proof -
  have "unat (ucast (of_nat (length (lf_rx (fifo (lp_dev s)))) :: u32) :: u8) = length (lf_rx (fifo (lp_dev s)))"
    using lf_bounds(1) [OF assms(1), of "lp_dev s"] by (simp add: unsigned_ucast_eq unsigned_of_nat take_bit_nat_eq_self)
  then show "unat (fst (lp_rx_count soc s)) = length (lf_rx (fifo (lp_dev s)))"
    using lf_counts(1) [OF assms, of "lp_dev s"] by (simp add: lp_rx_count_def case_prod_beta Let_def)
  show "lpview fifo (snd (lp_rx_count soc s)) = lpview fifo s"
    using assms(1) by (simp add: lp_rx_count_def case_prod_beta Let_def lpview_def)
qed

end
