(* ===== verification/Lpuart_Stream.thy ===== *)
theory Lpuart_Stream
  imports Lpuart_Transfer
begin

text \<open>
  The interrupt handler of the LPUART against its specification, and what follows for the bytes
  that a receive request and the ring buffer get.
\<close>

subsection \<open>Receiving\<close>

lemma lp_take_ok: "lp_request_ok (lp_take v)"
  using lp_take_done [of v] by (auto simp: lp_request_ok_def)

lemma handle_receive_view:
  assumes "lp_observer soc" "lp_fifo_device soc fifo" "lp_request_ok (lpview fifo s)"
    "lp_has soc HAS_FIFO \<or> length (lf_rx (fifo (lp_dev s))) = 1"
  shows "\<exists>s'. LPUART_TransferHandleReceiveDataFull soc s = Some s' \<and> lpview fifo s' = lp_receive (lpview fifo s)"
proof -
  define cs where "cs = (if lp_has soc HAS_FIFO then lp_rx_count soc s else (1, s))"
  have cs: "unat (fst cs) = length (lf_rx (fifo (lp_dev (snd cs))))" "lpview fifo (snd cs) = lpview fifo s"
    "lp_has soc HAS_FIFO \<or> unat (fst cs) = 1"
    using assms(4) rx_count_view [OF assms(2), of s] by (auto simp: cs_def lpview_def)
  from request_loop_view [OF assms(1,2) _ cs(1,3)] assms(3) cs(2) obtain s1 where
    s1: "lp_request_loop soc (fst cs) (snd cs) = Some (of_nat (length (lf_rx (fifo (lp_dev s1)))), s1)"
      "lpview fifo s1 = lp_take (lpview fifo s)" by auto
  have h: "LPUART_TransferHandleReceiveDataFull soc s =
      (if 0 \<noteq> rxRingBuffer (lp_handle s1) then lp_ring_loop soc (length (lf_rx (fifo (lp_dev s1)))) s1
       else if 0 = rxDataSize (lp_handle s1) then Some (lp_atomic (reg_clear soc P_CTRL (lp_rx_idle_ints soc)) s1)
       else Some s1)"
  proof -
    have "unat (of_nat (length (lf_rx (fifo (lp_dev s1)))) :: u8) = length (lf_rx (fifo (lp_dev s1)))"
      using lf_bounds(1) [OF assms(2), of "lp_dev s1"] by (simp add: unsigned_of_nat take_bit_nat_eq_self)
    then show ?thesis
      unfolding LPUART_TransferHandleReceiveDataFull_def cs_def [symmetric] case_prod_beta Let_def s1(1) by simp
  qed
  have r: "lp_receive (lpview fifo s) =
      (if rxRingBuffer (lp_handle s1) \<noteq> 0 then lp_queue (lpview fifo s1) else lpview fifo s1)"
    unfolding lp_receive_def Let_def s1(2) [symmetric] by (simp add: lpview_def)
  show ?thesis
  proof (cases "rxRingBuffer (lp_handle s1) = 0")
    case True
    then show ?thesis unfolding h r using assms(2) by (auto simp: lpview_def)
  next
    case False
    then show ?thesis unfolding h r using ring_loop_view [OF assms(1,2) False] by simp
  qed
qed

lemma handle_idle_view:
  assumes "lp_observer soc" "lp_fifo_device soc fifo" "lp_request_ok (lpview fifo s)"
  shows "\<exists>s'. LPUART_TransferHandleIDLEReady soc s = Some s' \<and>
           lpview fifo s' = (if lp_has soc HAS_FIFO then lp_take (lpview fifo s) else lpview fifo s)"
proof -
  let ?v = "if lp_has soc HAS_FIFO then lp_take (lpview fifo s) else lpview fifo s"
  obtain c s1 where s1: "(if lp_has soc HAS_FIFO then let (count, s) = lp_rx_count soc s in lp_request_loop soc count s
               else Some (0, s)) = Some (c, s1)" "lpview fifo s1 = ?v"
    using request_loop_view [OF assms(1,2), of "snd (lp_rx_count soc s)" "fst (lp_rx_count soc s)"] assms(3)
      rx_count_view [OF assms(2), of s] by (cases "lp_has soc HAS_FIFO") (auto simp: case_prod_beta lpview_def)
  define s2 where "s2 = on_lpdev (reg_write soc P_STAT (fst (lpread soc P_STAT s1) AND 0x3FE00000 OR lp_mask soc M_STAT_IDLE))
                          (snd (lpread soc P_STAT s1))"
  have v2: "lpview fifo s2 = ?v" unfolding s1(2) [symmetric] using assms(2) by (simp add: s2_def lpview_def)
  have h: "LPUART_TransferHandleIDLEReady soc s =
      (if 0 = rxDataSize (lp_handle s2) then Some (lp_atomic (reg_clear soc P_CTRL (lp_rx_idle_ints soc)) s2)
       else lp_callback soc kStatus_LPUART_IdleLineDetected s2)"
    unfolding LPUART_TransferHandleIDLEReady_def s1(1) by (simp add: case_prod_beta Let_def s2_def)
  obtain s3 where "lp_callback soc kStatus_LPUART_IdleLineDetected s2 = Some s3" "lpview fifo s3 = lpview fifo s2"
    by (rule lp_callback_view [OF assms(1,2)])
  with h v2 assms(2) show ?thesis by (cases "rxDataSize (lp_handle s2) = 0") (auto simp: lpview_def)
qed

subsection \<open>Sending\<close>

lemma upt_Suc_Cons: "map f [0..<Suc n] = f 0 # map (\<lambda>i. f (Suc i)) [0..<n]"
  by (simp add: upt_conv_Cons map_Suc_upt [symmetric] del: upt_Suc)

lemma lp_at_Suc: "lp_at wide a (of_nat (Suc i)) = lp_at wide (a + of_nat (unit_size wide)) (of_nat i)"
  by (simp add: lp_at_def unit_size_def algebra_simps)

definition lp_sent :: "bool \<Rightarrow> mem \<Rightarrow> u32 \<Rightarrow> nat \<Rightarrow> u32 list" where
  "lp_sent wide m a n = map (\<lambda>i. ucast (lp_load wide m (lp_at wide a (of_nat i)))) [0..<n]"

lemma lp_sent_simps [simp]:
  "lp_sent wide m a 0 = []"
  "lp_sent wide m a (Suc n) = ucast (lp_load wide m a) # lp_sent wide m (a + of_nat (unit_size wide)) n"
  unfolding lp_sent_def by (simp, simp only: upt_Suc_Cons lp_at_Suc) (simp add: lp_at_def)

lemma write_bytes_fifo:
  assumes "lp_fifo_device soc fifo" "lf_level (fifo d) + n \<le> lp_tx_cap soc"
  shows "fifo (lp_write_bytes soc m a n d) =
           (fifo d)\<lparr>lf_level := lf_level (fifo d) + n, lf_sent := lf_sent (fifo d) @ lp_sent False m a n\<rparr>"
  using assms(2)
proof (induction n arbitrary: a d)
  case (Suc n)
  have "(ucast (ucast (b :: u8) :: u16) :: u32) = ucast b" for b by (simp add: word_unat_eq_iff)
  then show ?case using Suc lf_send [OF assms(1), of d "ucast (m a)"] by (simp add: lp_load_def unit_size_def)
qed simp

lemma write_halfs_fifo:
  assumes "lp_fifo_device soc fifo" "lf_level (fifo d) + n \<le> lp_tx_cap soc"
  shows "fifo (lp_write_halfs soc m a n d) =
           (fifo d)\<lparr>lf_level := lf_level (fifo d) + n, lf_sent := lf_sent (fifo d) @ lp_sent True m a n\<rparr>"
  using assms(2)
proof (induction n arbitrary: a d)
  case (Suc n)
  then show ?case using lf_send [OF assms(1), of d "ucast (read_u16 m a)"] by (simp add: lp_load_def unit_size_def)
qed simp

lemma emit_unfold:
  "lp_emit cap ((h, m), f) =
     (let k = min (unat (txDataSize h)) (cap - lf_level f)
      in ((h\<lparr>txData := lp_at (is16bitData h) (txData h) (of_nat k), txDataSize := txDataSize h - of_nat k\<rparr>, m),
          f\<lparr>lf_level := lf_level f + k, lf_sent := lf_sent f @ lp_sent (is16bitData h) m (txData h) k\<rparr>))"
  by (simp add: lp_emit_def lp_sent_def Let_def)

lemma send_body_view:
  assumes "lp_fifo_device soc fifo" "txData (lp_handle s) \<noteq> 0"
    "unat t = min (unat (txDataSize (lp_handle s))) (lp_tx_cap soc - lf_level (fifo (lp_dev s)))"
  shows "\<exists>s'. lp_send_body soc t s = Some s' \<and> lpview fifo s' = lp_emit (lp_tx_cap soc) (lpview fifo s)"
proof -
  let ?h = "lp_handle s" and ?f = "fifo (lp_dev s)" and ?k = "unat t"
  have le: "lf_level ?f + ?k \<le> lp_tx_cap soc" using lf_bounds(2) [OF assms(1), of "lp_dev s"] assms(3) by simp
  obtain d' where d': "(if \<not> is16bitData ?h then LPUART_WriteNonBlocking soc (txData ?h) (ucast t) (lp_ram s) (lp_dev s)
          else LPUART_WriteNonBlocking16bit soc (txData ?h) (ucast t) (lp_ram s) (lp_dev s)) = Some d'"
      "fifo d' = ?f\<lparr>lf_level := lf_level ?f + ?k,
                     lf_sent := lf_sent ?f @ lp_sent (is16bitData ?h) (lp_ram s) (txData ?h) ?k\<rparr>"
    using assms(2) write_bytes_fifo [OF assms(1) le] write_halfs_fifo [OF assms(1) le]
    by (cases "is16bitData ?h") (auto simp: LPUART_WriteNonBlocking_def LPUART_WriteNonBlocking16bit_def)
  define s1 where "s1 = on_lph (\<lambda>h. h\<lparr>txData := lp_at (is16bitData h) (txData h) (ucast t),
                           txDataSize := txDataSize h - ucast t\<rparr>) (s\<lparr>lp_dev := d'\<rparr>)"
  have "lpview fifo s1 = lp_emit (lp_tx_cap soc) (lpview fifo s)"
    unfolding lpview_def emit_unfold Let_def assms(3) [symmetric] by (simp add: s1_def d'(2))
  moreover have "lp_send_body soc t s =
      Some (if 0 = txDataSize (lp_handle s1) then
             lp_atomic (\<lambda>d. let (v, d) = reg_read soc P_CTRL d
                            in reg_write soc P_CTRL (v AND NOT (lp_mask soc M_CTRL_TIE) OR lp_mask soc M_CTRL_TCIE) d) s1
           else s1)"
    unfolding lp_send_body_def Let_def [of "lp_handle s"] d'(1) by (simp add: s1_def Let_def)
  ultimately show ?thesis using lf_tie_tcie [OF assms(1), of "lp_dev s1"] by (simp add: lpview_def)
qed

lemma emit_idle:
  "txDataSize (fst (fst v)) = 0 \<or> cap \<le> lf_level (snd v) \<Longrightarrow> lp_emit cap v = v"
  by (cases v) (auto simp: emit_unfold Let_def lp_at_def)

lemma handle_send_view:
  assumes "lp_fifo_device soc fifo" "txDataSize (lp_handle s) \<noteq> 0 \<longrightarrow> txData (lp_handle s) \<noteq> 0"
    "lp_has soc HAS_FIFO \<or> lf_level (fifo (lp_dev s)) = 0"
  shows "\<exists>s'. LPUART_TransferHandleSendDataEmpty soc s = Some s' \<and>
           lpview fifo s' = lp_emit (lp_tx_cap soc) (lpview fifo s)"
proof -
  let ?f = "fifo (lp_dev s)" and ?cap = "lp_tx_cap soc"
  obtain c s1 where s1: "(if lp_has soc HAS_FIFO then do {
                      c_assert (0 < FIFO_SIZEn soc);
                      let (n, s) = lp_tx_count soc s;
                      Some (word_of_int (FIFO_SIZEn soc) - ucast n, s)
                    } else Some (1, s)) = Some (c, s1)"
    "unat (c :: u8) = ?cap - lf_level ?f" "lpview fifo s1 = lpview fifo s"
  proof (cases "lp_has soc HAS_FIFO")
    case True
    note sz = lf_size [OF assms(1) True]
    have cap: "?cap = nat (FIFO_SIZEn soc)" "?cap < 256" using True sz by (auto simp: lp_tx_cap_def)
    have lv: "lf_level ?f \<le> ?cap" by (rule lf_bounds [OF assms(1)])
    have "unat (word_of_int (FIFO_SIZEn soc) :: u8) = ?cap"
      using sz cap by (simp add: unsigned_of_int take_bit_int_eq_self)
    moreover have "unat (ucast (of_nat (lf_level ?f) :: u32) :: u8) = lf_level ?f"
      using cap(2) lv by (simp add: unsigned_ucast_eq unsigned_of_nat take_bit_nat_eq_self)
    ultimately have u: "unat (word_of_int (FIFO_SIZEn soc) - ucast (fst (lp_tx_count soc s)) :: u8) = ?cap - lf_level ?f"
      using lv lf_counts(2) [OF assms(1) True, of "lp_dev s"]
      by (simp add: lp_tx_count_def case_prod_beta Let_def unat_minus_small)
    show ?thesis
      by (rule that [of "word_of_int (FIFO_SIZEn soc) - ucast (fst (lp_tx_count soc s))" "snd (lp_tx_count soc s)"])
         (use True sz u assms(1) in \<open>simp_all add: case_prod_beta lp_tx_count_def Let_def lpview_def\<close>)
  next
    case False
    then show ?thesis using that [of 1 s] assms(3) by (simp add: lp_tx_cap_def)
  qed
  have h: "LPUART_TransferHandleSendDataEmpty soc s = lp_send_loop soc c s1"
    unfolding LPUART_TransferHandleSendDataEmpty_def s1(1) by simp
  have e: "lp_handle s1 = lp_handle s" "lp_ram s1 = lp_ram s" "fifo (lp_dev s1) = ?f" using s1(3) by (simp_all add: lpview_def)
  show ?thesis
  proof (cases "txDataSize (lp_handle s) = 0 \<or> c = 0")
    case True
    then have "lp_emit ?cap (lpview fifo s) = lpview fifo s" using s1(2) by (intro emit_idle) (auto simp: lpview_def)
    moreover have "lp_send_loop soc c s1 = Some s1" using True e by (auto simp: lp_send_loop.simps [of soc c s1])
    ultimately show ?thesis using h s1(3) by simp
  next
    case False
    let ?t = "lp_temp_count soc (txDataSize (lp_handle s)) c"
    have "lp_has soc HAS_FIFO \<or> unat c = 1" using s1(2) assms(3) by (auto simp: lp_tx_cap_def)
    then have t: "unat ?t = min (unat (txDataSize (lp_handle s))) (unat c)" using temp_count_unat False by blast
    have "unat ?t = min (unat (txDataSize (lp_handle s1))) (?cap - lf_level (fifo (lp_dev s1)))" using t s1(2) e by simp
    from send_body_view [OF assms(1) _ this] False assms(2) e obtain s' where
      s': "lp_send_body soc ?t s1 = Some s'" "lpview fifo s' = lp_emit ?cap (lpview fifo s)" unfolding s1(3) by auto
    have "txDataSize (lp_handle s') = 0 \<or> c - ?t = 0"
    proof (cases "unat (txDataSize (lp_handle s)) \<le> unat c")
      case True
      then have "min (unat (txDataSize (lp_handle s))) (?cap - lf_level ?f) = unat (txDataSize (lp_handle s))"
        using s1(2) by simp
      then show ?thesis using arg_cong [OF s'(2), of "\<lambda>v. txDataSize (fst (fst v))"]
        by (simp add: lpview_def emit_unfold Let_def)
    next
      case F: False
      then have "?t = c" using t by (simp add: word_unat_eq_iff)
      then show ?thesis by simp
    qed
    then have "lp_send_loop soc (c - ?t) s' = Some s'" by (auto simp: lp_send_loop.simps [of soc "c - ?t" s'])
    then have "lp_send_loop soc c s1 = Some s'" using False s'(1) e by (simp add: lp_send_loop.simps [of soc c s1])
    with h s'(2) show ?thesis by simp
  qed
qed

subsection \<open>The handler\<close>

lemma lp_take_keeps [simp]:
  "txData (fst (fst (lp_take v))) = txData (fst (fst v))" "txDataSize (fst (fst (lp_take v))) = txDataSize (fst (fst v))"
  "is16bitData (fst (fst (lp_take v))) = is16bitData (fst (fst v))"
  "isSevenDataBits (fst (fst (lp_take v))) = isSevenDataBits (fst (fst v))"
  "rxRingBufferSize (fst (fst (lp_take v))) = rxRingBufferSize (fst (fst v))"
  "rxRingBufferHead (fst (fst (lp_take v))) = rxRingBufferHead (fst (fst v))"
  "rxRingBufferTail (fst (fst (lp_take v))) = rxRingBufferTail (fst (fst v))"
  "lf_level (snd (lp_take v)) = lf_level (snd v)" "lf_sent (snd (lp_take v)) = lf_sent (snd v)"
  "lf_seven (snd (lp_take v)) = lf_seven (snd v)"
  by (simp_all add: lp_take_def Let_def case_prod_beta)

lemma lpring_push_keeps [simp]:
  "txData (fst (lpring_push x hm)) = txData (fst hm)" "txDataSize (fst (lpring_push x hm)) = txDataSize (fst hm)"
  "rxData (fst (lpring_push x hm)) = rxData (fst hm)" "rxDataSize (fst (lpring_push x hm)) = rxDataSize (fst hm)"
  "rxState (fst (lpring_push x hm)) = rxState (fst hm)" "txState (fst (lpring_push x hm)) = txState (fst hm)"
  by (simp_all add: lpring_push_def lp_ring_store_def lp_make_room_def lp_inc_head_def lp_inc_tail_def Let_def case_prod_beta)

lemma pushes_keep [simp]:
  "txData (fst (fold lpring_push xs hm)) = txData (fst hm)" "txDataSize (fst (fold lpring_push xs hm)) = txDataSize (fst hm)"
  "rxData (fst (fold lpring_push xs hm)) = rxData (fst hm)" "rxDataSize (fst (fold lpring_push xs hm)) = rxDataSize (fst hm)"
  "rxState (fst (fold lpring_push xs hm)) = rxState (fst hm)" "txState (fst (fold lpring_push xs hm)) = txState (fst hm)"
  "rxRingBuffer (fst (fold lpring_push xs hm)) = rxRingBuffer (fst hm)"
  "rxRingBufferSize (fst (fold lpring_push xs hm)) = rxRingBufferSize (fst hm)"
  "is16bitData (fst (fold lpring_push xs hm)) = is16bitData (fst hm)"
  by (induction xs arbitrary: hm) simp_all

lemma lp_receive_keeps [simp]:
  "txData (fst (fst (lp_receive v))) = txData (fst (fst v))" "txDataSize (fst (fst (lp_receive v))) = txDataSize (fst (fst v))"
  "lf_level (snd (lp_receive v)) = lf_level (snd v)"
  by (simp_all add: lp_receive_def lp_queue_def Let_def case_prod_beta)

text \<open>Whether a flag is set and its interrupt enabled, as the handler reads them at its start.\<close>

definition lp_asks :: "'d lpuart_soc \<Rightarrow> lpuart_mask \<Rightarrow> lpuart_mask \<Rightarrow> 'd lpuart \<Rightarrow> bool" where
  "lp_asks soc flag enable s =
     (let (status, d) = LPUART_GetStatusFlags soc (lp_dev s)
      in 0 \<noteq> lp_mask soc flag AND status \<and> 0 \<noteq> lp_mask soc enable AND fst (LPUART_GetEnabledInterrupts soc d))"

definition lp_irq_spec :: "'d lpuart_soc \<Rightarrow> 'd lpuart \<Rightarrow> lp_view \<Rightarrow> lp_view" where
  "lp_irq_spec soc s v =
     (let v = (if lp_asks soc M_STAT_IDLE M_CTRL_ILIE s \<and> lp_has soc HAS_FIFO then lp_take v else v);
          v = (if lp_asks soc M_STAT_RDRF M_CTRL_RIE s then lp_receive v else v);
          v = (if lp_asks soc M_STAT_TDRE M_CTRL_TIE s then lp_emit (lp_tx_cap soc) v else v)
      in if lp_asks soc M_STAT_TC M_CTRL_TCIE s
         then (((fst (fst v))\<lparr>txState := kLPUART_TxIdle\<rparr>, snd (fst v)), snd v) else v)"

text \<open>Devices without FIFO hold one unit when the flags ask for service; requests have buffers.\<close>

definition lp_irq_ready :: "'d lpuart_soc \<Rightarrow> 'd lpuart \<Rightarrow> lp_view \<Rightarrow> bool" where
  "lp_irq_ready soc s v \<longleftrightarrow>
     lp_request_ok v \<and> (txDataSize (fst (fst v)) \<noteq> 0 \<longrightarrow> txData (fst (fst v)) \<noteq> 0) \<and>
     (lp_has soc HAS_FIFO \<or>
      (lp_asks soc M_STAT_RDRF M_CTRL_RIE s \<longrightarrow> length (lf_rx (snd v)) = 1) \<and>
      (lp_asks soc M_STAT_TDRE M_CTRL_TIE s \<longrightarrow> lf_level (snd v) = 0))"

lemma flags_fifo [simp]:
  "lp_fifo_device soc fifo \<Longrightarrow> fifo (snd (LPUART_GetStatusFlags soc d)) = fifo d"
  "lp_fifo_device soc fifo \<Longrightarrow> fifo (snd (LPUART_GetEnabledInterrupts soc d)) = fifo d"
  by (simp_all add: LPUART_GetStatusFlags_def LPUART_GetEnabledInterrupts_def case_prod_beta Let_def)

lemma transmission_complete_view:
  assumes "lp_observer soc" "lp_fifo_device soc fifo"
  shows "\<exists>s'. LPUART_TransferHandleTransmissionComplete soc s = Some s' \<and>
           lpview fifo s' = (((lp_handle s)\<lparr>txState := kLPUART_TxIdle\<rparr>, lp_ram s), fifo (lp_dev s))"
proof -
  let ?s = "lp_atomic (reg_clear soc P_CTRL (lp_mask soc M_CTRL_TCIE)) (on_lph (\<lambda>h. h\<lparr>txState := kLPUART_TxIdle\<rparr>) s)"
  obtain s' where "lp_callback soc kStatus_LPUART_TxIdle ?s = Some s'" "lpview fifo s' = lpview fifo ?s"
    by (rule lp_callback_view [OF assms])
  then show ?thesis using assms(2) by (simp add: LPUART_TransferHandleTransmissionComplete_def Let_def lpview_def)
qed

lemma irq_refines:
  assumes "lp_observer soc" "lp_fifo_device soc fifo" "irqHandle \<noteq> 0" "lp_irq_ready soc s (lpview fifo s)"
  shows "\<exists>s'. LPUART_TransferHandleIRQ soc irqHandle s = Some s' \<and> lpview fifo s' = lp_irq_spec soc s (lpview fifo s)"
proof -
  define st where "st = LPUART_GetStatusFlags soc (lp_dev s)"
  define en where "en = LPUART_GetEnabledInterrupts soc (snd st)"
  define s0 where "s0 = s\<lparr>lp_dev := snd en\<rparr>"
  have asks: "(0 \<noteq> lp_mask soc f AND fst st \<and> 0 \<noteq> lp_mask soc e AND fst en) = lp_asks soc f e s" for f e
    by (simp add: lp_asks_def st_def en_def case_prod_beta)
  let ?idle = "lp_asks soc M_STAT_IDLE M_CTRL_ILIE s" and ?rx = "lp_asks soc M_STAT_RDRF M_CTRL_RIE s"
    and ?tx = "lp_asks soc M_STAT_TDRE M_CTRL_TIE s" and ?tc = "lp_asks soc M_STAT_TC M_CTRL_TCIE s" and ?v = "lpview fifo s"
  have v0: "lpview fifo s0 = ?v" using assms(2) by (simp add: s0_def en_def st_def lpview_def)
  define ovr where "ovr = on_lpdev (reg_write soc P_STAT (fst (lpread soc P_STAT s0) AND 0x3FE00000 OR lp_mask soc M_STAT_OR))
                            (snd (lpread soc P_STAT s0))"
  obtain s00 where "lp_callback soc kStatus_LPUART_RxHardwareOverrun ovr = Some s00" "lpview fifo s00 = lpview fifo ovr"
    by (rule lp_callback_view [OF assms(1,2)])
  moreover have "lpview fifo ovr = ?v" unfolding v0 [symmetric] using assms(2) by (simp add: ovr_def lpview_def)
  ultimately obtain s1 where s1: "(if lp_mask soc M_STAT_OR = lp_mask soc M_STAT_OR AND fst st
      then lp_callback soc kStatus_LPUART_RxHardwareOverrun ovr else Some s0) = Some s1" "lpview fifo s1 = ?v"
    using v0 by (cases "lp_mask soc M_STAT_OR = lp_mask soc M_STAT_OR AND fst st") auto
  define v1 where "v1 = (if ?idle \<and> lp_has soc HAS_FIFO then lp_take ?v else ?v)"
  obtain s2 where s2: "(if ?idle then LPUART_TransferHandleIDLEReady soc s1 else Some s1) = Some s2" "lpview fifo s2 = v1"
    using handle_idle_view [OF assms(1,2), of s1, unfolded s1(2)] s1(2) assms(4) by (cases ?idle) (auto simp: v1_def lp_irq_ready_def)
  have ok1: "lp_request_ok v1" using assms(4) by (simp add: v1_def lp_irq_ready_def lp_take_ok)
  define v2 where "v2 = (if ?rx then lp_receive v1 else v1)"
  have f2: "fifo (lp_dev s2) = snd v1" unfolding s2(2) [symmetric] by (simp add: lpview_def)
  have rx1: "lp_has soc HAS_FIFO \<or> length (lf_rx (fifo (lp_dev s2))) = 1" if "?rx"
    using that assms(4) unfolding f2 lp_irq_ready_def by (cases "lp_has soc HAS_FIFO") (simp_all add: v1_def)
  obtain s3 where s3: "(if ?rx then LPUART_TransferHandleReceiveDataFull soc s2 else Some s2) = Some s3" "lpview fifo s3 = v2"
    using handle_receive_view [OF assms(1,2), of s2, unfolded s2(2)] s2(2) ok1 rx1 by (cases ?rx) (auto simp: v2_def)
  define v3 where "v3 = (if ?tx then lp_emit (lp_tx_cap soc) v2 else v2)"
  have tx: "txDataSize (fst (fst v2)) \<noteq> 0 \<longrightarrow> txData (fst (fst v2)) \<noteq> 0" "lf_level (snd v2) = lf_level (snd ?v)"
    using assms(4) by (simp_all add: v2_def v1_def lp_irq_ready_def)
  have h2: "lp_handle s3 = fst (fst v2)" "fifo (lp_dev s3) = snd v2" unfolding s3(2) [symmetric] by (simp_all add: lpview_def)
  obtain s4 where s4: "(if ?tx then LPUART_TransferHandleSendDataEmpty soc s3 else Some s3) = Some s4" "lpview fifo s4 = v3"
    using handle_send_view [OF assms(2), of s3, unfolded s3(2)] h2 tx assms(4) s3(2) by (cases ?tx) (auto simp: v3_def lp_irq_ready_def)
  obtain s5 where s5: "(if ?tc then LPUART_TransferHandleTransmissionComplete soc s4 else Some s4) = Some s5"
    "lpview fifo s5 = (if ?tc then (((fst (fst v3))\<lparr>txState := kLPUART_TxIdle\<rparr>, snd (fst v3)), snd v3) else v3)"
    using transmission_complete_view [OF assms(1,2), of s4] s4(2) by (cases ?tc) (auto simp: lpview_def)
  have "LPUART_TransferHandleIRQ soc irqHandle s = Some s5"
    unfolding LPUART_TransferHandleIRQ_def st_def [symmetric] case_prod_beta Let_def en_def [symmetric] s0_def [symmetric]
      asks ovr_def [symmetric] using assms(3) s1(1) s2(1) s3(1) s4(1) s5(1) by (simp split del: if_split)
  moreover have "lpview fifo s5 = lp_irq_spec soc s ?v"
    unfolding s5(2) lp_irq_spec_def v3_def v2_def v1_def Let_def by (rule refl)
  ultimately show ?thesis by blast
qed

subsection \<open>What is received\<close>

lemma ring_value_unit:
  assumes "\<not> (isSevenDataBits h \<and> is16bitData h)"
  shows "lp_ring_value h = lp_unit (is16bitData h) (isSevenDataBits h)"
proof
  fix w :: u32
  have t: "w AND 0x7F = take_bit 7 w" by (simp add: take_bit_eq_mask mask_eq_exp_minus_1)
  have "(ucast (w AND 0x7F) :: u16) = ucast (ucast (w AND 0x7F) :: u8)"
    unfolding t by (rule bit_word_eqI) (auto simp: bit_simps)
  with assms show "lp_ring_value h w = lp_unit (is16bitData h) (isSevenDataBits h) w"
    by (auto simp: lp_ring_value_def lp_unit_def)
qed

lemma unit_is_valid: "unit_valid wide (lp_unit wide seven w)"
  using unat_u8_le [of "ucast (if seven then w AND 0x7F else w)"]
  by (auto simp: unit_valid_def lp_unit_def word_less_nat_alt)

lemma ring_units_write:
  assumes "lpring_ok h" "apart a (length bs) (rxRingBuffer h) (unit_size (is16bitData h) * lpring_size h)"
  shows "lpring_units (h, mem_write m a bs) = lpring_units (h, m)"
proof -
  let ?w = "is16bitData h" and ?p = "rxRingBuffer h"
  have "lpring_cell (h, mem_write m a bs) i = lpring_cell (h, m) i" if "i < lpring_size h" for i
  proof -
    have "apart (lp_at ?w ?p (of_nat i)) (unit_size ?w) a (length bs)"
      unfolding apart_def lp_at_of_nat
    proof (intro allI impI)
      fix x y
      assume "x < unit_size ?w" "y < length bs"
      moreover have "unit_size ?w * i + x < unit_size ?w * lpring_size h"
        using that \<open>x < unit_size ?w\<close> by (auto simp: unit_size_def)
      ultimately have "a + of_nat y \<noteq> ?p + of_nat (unit_size ?w * i + x)" by (intro apartD [OF assms(2)])
      then show "?p + of_nat (unit_size ?w * i) + of_nat x \<noteq> a + of_nat y" by (simp add: add.assoc)
    qed
    from load_write_apart [OF this] show ?thesis by (simp add: lpring_cell_def)
  qed
  then show ?thesis using lpring_ok_bounds(1) [OF assms(1)] unfolding lpring_units_def by (auto intro: cells_cong)
qed

lemma push_outside:
  assumes "lpring_ok (fst hm)" "\<forall>i < unit_size (is16bitData (fst hm)) * lpring_size (fst hm). y \<noteq> rxRingBuffer (fst hm) + of_nat i"
  shows "snd (lpring_push x hm) y = snd hm y"
proof -
  let ?h = "lp_make_room (fst hm)"
  let ?w = "is16bitData (fst hm) \<and> \<not> isSevenDataBits (fst hm)"
  have w: "?w = is16bitData (fst hm)" using lpring_ok_bounds(5) [OF assms(1)] by auto
  have hd: "rxRingBufferHead ?h = rxRingBufferHead (fst hm)" by (simp add: lp_make_room_def)
  have "snd (lpring_push x hm) y =
        mem_write (snd hm) (lp_at ?w (rxRingBuffer (fst hm)) (of_nat (lpring_head (fst hm)))) (unit_bytes ?w x) y"
    by (simp add: lpring_push_def lp_ring_store_def Let_def case_prod_beta lp_store_write hd)
  also have "\<dots> = snd hm y"
    unfolding w
  proof (rule mem_write_outside)
    fix i
    assume i: "i < length (unit_bytes (is16bitData (fst hm)) x)"
    have "unit_size (is16bitData (fst hm)) * lpring_head (fst hm) + i < unit_size (is16bitData (fst hm)) * lpring_size (fst hm)"
      using lpring_ok_bounds(3) [OF assms(1)] i by (auto simp: unit_size_def)
    with assms(2) have "y \<noteq> rxRingBuffer (fst hm) + of_nat (unit_size (is16bitData (fst hm)) * lpring_head (fst hm) + i)"
      by blast
    then show "y \<noteq> lp_at (is16bitData (fst hm)) (rxRingBuffer (fst hm)) (of_nat (lpring_head (fst hm))) + of_nat i"
      unfolding lp_at_of_nat of_nat_add add.assoc .
  qed
  finally show ?thesis .
qed

lemma pushes_outside:
  assumes "lpring_ok (fst hm)" "\<forall>i < unit_size (is16bitData (fst hm)) * lpring_size (fst hm). y \<noteq> rxRingBuffer (fst hm) + of_nat i"
  shows "snd (fold lpring_push xs hm) y = snd hm y"
  using assms
proof (induction xs arbitrary: hm)
  case (Cons x xs)
  then show ?case using push_outside [OF Cons.prems] lpring.push_invar [OF Cons.prems(1)] by simp
qed simp

text \<open>The buffers: the request and the ring do not overlap, and the frame format is the one of the handle.\<close>

definition lp_buffers_ok :: "lp_view \<Rightarrow> bool" where
  "lp_buffers_ok v \<longleftrightarrow>
     (let h = fst (fst v); n = unit_size (is16bitData h) * unat (rxDataSize h)
      in n \<le> 2 ^ 32 \<and> isSevenDataBits h = lf_seven (snd v) \<and>
         (rxRingBuffer h \<noteq> 0 \<longrightarrow>
            lpring_ok h \<and> apart (rxData h) n (rxRingBuffer h) (unit_size (is16bitData h) * lpring_size h)))"

lemma take_content:
  fixes v :: lp_view
  defines "h \<equiv> fst (fst v)" and "q \<equiv> lf_rx (snd v)" and "r \<equiv> unat (rxDataSize (fst (fst v)))"
  assumes "lp_buffers_ok v"
  shows "snd (fst (lp_take v)) = mem_write (snd (fst v)) (rxData h) (lp_image (is16bitData h) (isSevenDataBits h) (take r q))"
    "unat (rxDataSize (fst (fst (lp_take v)))) = r - length q"
    "rxState (fst (fst (lp_take v))) = (if 0 < r \<and> r \<le> length q then kLPUART_RxIdle else rxState h)"
    "lf_rx (snd (lp_take v)) = drop r q"
    "rxRingBuffer h \<noteq> 0 \<Longrightarrow> lpring_units (fst (lp_take v)) = lpring_units (fst v)"
proof -
  obtain m f where v: "v = ((h, m), f)" unfolding h_def by (metis prod.collapse)
  let ?k = "min r (length q)"
  have q: "q = lf_rx f" and r: "r = unat (rxDataSize h)" by (simp_all add: q_def r_def v)
  have seven: "lf_seven f = isSevenDataBits h" using assms(4) by (simp add: lp_buffers_ok_def v Let_def)
  have tk: "lp_take v = (if ?k = 0 then v else
      ((h\<lparr>rxData := lp_at (is16bitData h) (rxData h) (of_nat ?k), rxDataSize := rxDataSize h - of_nat ?k,
           rxState := (if ?k = r then kLPUART_RxIdle else rxState h)\<rparr>,
         mem_write m (rxData h) (lp_image (is16bitData h) (isSevenDataBits h) (take ?k q))), f\<lparr>lf_rx := drop ?k q\<rparr>))"
    unfolding v lp_take_def Let_def prod.case q r seven by (rule refl)
  have kr: "take ?k q = take r q" "drop ?k q = drop r q" by (auto simp: min_def)
  have "r < 2 ^ 32" unfolding r using unsigned_less [of "rxDataSize h", where ?'a = nat] by simp
  then have uk: "unat (of_nat ?k :: u32) = ?k" by (simp add: unsigned_of_nat take_bit_nat_eq_self min_less_iff_disj)
  show mem: "snd (fst (lp_take v)) = mem_write (snd (fst v)) (rxData h) (lp_image (is16bitData h) (isSevenDataBits h) (take r q))"
    unfolding tk by (cases "?k = 0") (auto simp: v kr min_def split: if_splits)
  have "unat (rxDataSize h - of_nat ?k) = r - ?k" by (simp add: unat_minus_small uk flip: r)
  then show "unat (rxDataSize (fst (fst (lp_take v)))) = r - length q"
    unfolding tk by (cases "?k = 0") (auto simp: v min_def r split: if_splits)
  show "rxState (fst (fst (lp_take v))) = (if 0 < r \<and> r \<le> length q then kLPUART_RxIdle else rxState h)"
    unfolding tk by (cases "?k = 0") (auto simp: v min_def)
  show "lf_rx (snd (lp_take v)) = drop r q"
    unfolding tk by (cases "?k = 0") (auto simp: v kr q min_def split: if_splits)
  show "lpring_units (fst (lp_take v)) = lpring_units (fst v)" if "rxRingBuffer h \<noteq> 0"
  proof -
    have ok: "lpring_ok h" "apart (rxData h) (unit_size (is16bitData h) * r) (rxRingBuffer h) (unit_size (is16bitData h) * lpring_size h)"
      using assms(4) that by (simp_all add: lp_buffers_ok_def v Let_def r)
    have "lpring_units (fst (lp_take v)) = lpring_units (h, snd (fst (lp_take v)))"
      by (simp add: lpring_units_def lpring_len_def lpring_cell_def [abs_def] v)
    also have "\<dots> = lpring_units (h, m)"
      unfolding mem by (simp add: v) (rule ring_units_write [OF ok(1)], rule apart_mono [OF ok(2)], simp_all)
    finally show ?thesis by (simp add: v)
  qed
qed

lemma receive_content:
  fixes v :: lp_view
  defines "h \<equiv> fst (fst v)" and "q \<equiv> lf_rx (snd v)" and "r \<equiv> unat (rxDataSize (fst (fst v)))"
    and "img \<equiv> lp_image (is16bitData (fst (fst v))) (isSevenDataBits (fst (fst v)))"
    and "input \<equiv> lpring_units (fst v) @ map (lp_unit (is16bitData (fst (fst v))) (isSevenDataBits (fst (fst v))))
                    (drop (unat (rxDataSize (fst (fst v)))) (lf_rx (snd v)))"
  assumes ok: "lp_buffers_ok v"
  shows "mem_bytes (snd (fst (lp_receive v))) (rxData h) (unit_size (is16bitData h) * min r (length q)) = img (take r q)"
    "unat (rxDataSize (fst (fst (lp_receive v)))) = r - length q"
    "rxState (fst (fst (lp_receive v))) = (if 0 < r \<and> r \<le> length q then kLPUART_RxIdle else rxState h)"
    "rxRingBuffer h = 0 \<Longrightarrow> lf_rx (snd (lp_receive v)) = drop r q"
    "rxRingBuffer h \<noteq> 0 \<Longrightarrow> lf_rx (snd (lp_receive v)) = [] \<and> lpring_ok (fst (fst (lp_receive v))) \<and>
       lpring_units (fst (lp_receive v)) = drop (length input - lpring_cap (fst v)) input"
proof -
  note t = take_content [OF ok, folded h_def q_def r_def]
  let ?w = "is16bitData h" and ?v1 = "lp_take v"
  have len: "length (img (take r q)) = unit_size ?w * min r (length q)" by (simp add: img_def h_def min.commute)
  have le: "unit_size ?w * min r (length q) \<le> unit_size ?w * r" by simp
  have big: "unit_size ?w * r \<le> 2 ^ 32" using ok by (simp add: lp_buffers_ok_def Let_def h_def r_def)
  have m1: "mem_bytes (snd (fst ?v1)) (rxData h) (unit_size ?w * min r (length q)) = img (take r q)"
    using mem_bytes_write [of "img (take r q)" "snd (fst v)" "rxData h"] order_trans [OF le big]
    unfolding t(1) len by (simp add: img_def h_def)
  have rec: "lp_receive v = (if rxRingBuffer h \<noteq> 0 then lp_queue ?v1 else ?v1)" by (simp add: lp_receive_def Let_def h_def)
  define us where "us = map (lp_ring_value (fst (fst ?v1))) (lf_rx (snd ?v1))"
  have que: "lp_queue ?v1 = (fold lpring_push us (fst ?v1), (snd ?v1)\<lparr>lf_rx := []\<rparr>)"
    by (simp add: lp_queue_def us_def case_prod_beta Let_def)
  have ring: "lpring_ok (fst (fst ?v1))"
    "apart (rxData h) (unit_size ?w * r) (rxRingBuffer h) (unit_size ?w * lpring_size h)"
    "us = map (lp_unit ?w (isSevenDataBits h)) (drop r q)" if "rxRingBuffer h \<noteq> 0"
  proof -
    have b: "lpring_ok h" "apart (rxData h) (unit_size ?w * r) (rxRingBuffer h) (unit_size ?w * lpring_size h)"
      using ok that by (simp_all add: lp_buffers_ok_def Let_def h_def r_def)
    then show "lpring_ok (fst (fst ?v1))" "apart (rxData h) (unit_size ?w * r) (rxRingBuffer h) (unit_size ?w * lpring_size h)"
      by (simp_all add: lpring_ok_def h_def)
    have "lp_ring_value (fst (fst ?v1)) = lp_ring_value h" by (simp add: fun_eq_iff lp_ring_value_def h_def)
    also have "\<dots> = lp_unit ?w (isSevenDataBits h)" using lpring_ok_bounds(5) [OF b(1)] by (intro ring_value_unit) auto
    finally show "us = map (lp_unit ?w (isSevenDataBits h)) (drop r q)" by (simp add: us_def t(4))
  qed
  show "mem_bytes (snd (fst (lp_receive v))) (rxData h) (unit_size ?w * min r (length q)) = img (take r q)"
  proof (cases "rxRingBuffer h = 0")
    case False
    have "snd (fst (lp_receive v)) (rxData h + of_nat i) = snd (fst ?v1) (rxData h + of_nat i)"
      if "i < unit_size ?w * min r (length q)" for i
    proof -
      have "\<forall>j < unit_size (is16bitData (fst (fst ?v1))) * lpring_size (fst (fst ?v1)).
              rxData h + of_nat i \<noteq> rxRingBuffer (fst (fst ?v1)) + of_nat j"
        using apartD [OF ring(2) [OF False] less_le_trans [OF that le]] by (simp add: h_def)
      from pushes_outside [OF ring(1) [OF False] this] show ?thesis by (simp add: rec False que)
    qed
    then have "mem_bytes (snd (fst (lp_receive v))) (rxData h) (unit_size ?w * min r (length q)) =
               mem_bytes (snd (fst ?v1)) (rxData h) (unit_size ?w * min r (length q))" by (rule mem_bytes_cong)
    with m1 show ?thesis by simp
  qed (use m1 rec in simp)
  show "unat (rxDataSize (fst (fst (lp_receive v)))) = r - length q" using t(2) by (simp add: rec que)
  show "rxState (fst (fst (lp_receive v))) = (if 0 < r \<and> r \<le> length q then kLPUART_RxIdle else rxState h)"
    using t(3) by (simp add: rec que)
  show "lf_rx (snd (lp_receive v)) = drop r q" if "rxRingBuffer h = 0" using that t(4) by (simp add: rec)
  show "lf_rx (snd (lp_receive v)) = [] \<and> lpring_ok (fst (fst (lp_receive v))) \<and>
       lpring_units (fst (lp_receive v)) = drop (length input - lpring_cap (fst v)) input" if ne: "rxRingBuffer h \<noteq> 0"
  proof -
    have val: "list_all (unit_valid (is16bitData (fst (fst ?v1)))) us"
      unfolding ring(3) [OF ne] by (simp add: list_all_iff unit_is_valid h_def)
    have cap: "lpring_cap (fst ?v1) = lpring_cap (fst v)" by (simp add: lpring_cap_def)
    have inp: "input = lpring_units (fst v) @ us" unfolding ring(3) [OF ne] by (simp add: input_def h_def r_def q_def)
    show ?thesis
      using lpring.pushes_elems [OF ring(1) [OF ne] val] lpring.pushes_invar [OF ring(1) [OF ne], of us] ne
      unfolding t(5) [OF ne] cap inp by (simp add: rec que)
  qed
qed

text \<open>Filling the request twice is filling it once, and sending does not touch what was received.\<close>

lemma receive_take: "lp_receive (lp_take v) = lp_receive v"
proof -
  have "lp_take (lp_take v) = lp_take v" using lp_take_done [of v] by (rule lp_take_idle)
  then show ?thesis by (simp add: lp_receive_def)
qed

lemma emit_keeps [simp]:
  "snd (fst (lp_emit cap v)) = snd (fst v)" "rxState (fst (fst (lp_emit cap v))) = rxState (fst (fst v))"
  "rxDataSize (fst (fst (lp_emit cap v))) = rxDataSize (fst (fst v))" "lf_rx (snd (lp_emit cap v)) = lf_rx (snd v)"
  "lpring_ok (fst (fst (lp_emit cap v))) = lpring_ok (fst (fst v))" "lpring_units (fst (lp_emit cap v)) = lpring_units (fst v)"
  by (cases "fst v"; cases v; simp add: emit_unfold Let_def lpring_ok_def lpring_units_def lpring_len_def lpring_cell_def [abs_def])+

lemma spec_received:
  assumes "lp_asks soc M_STAT_RDRF M_CTRL_RIE s"
  shows "snd (fst (lp_irq_spec soc s v)) = snd (fst (lp_receive v))"
    "rxState (fst (fst (lp_irq_spec soc s v))) = rxState (fst (fst (lp_receive v)))"
    "rxDataSize (fst (fst (lp_irq_spec soc s v))) = rxDataSize (fst (fst (lp_receive v)))"
    "lf_rx (snd (lp_irq_spec soc s v)) = lf_rx (snd (lp_receive v))"
    "lpring_ok (fst (fst (lp_irq_spec soc s v))) = lpring_ok (fst (fst (lp_receive v)))"
    "lpring_units (fst (lp_irq_spec soc s v)) = lpring_units (fst (lp_receive v))"
proof -
  have tc: "lpring_ok (h\<lparr>txState := x\<rparr>) = lpring_ok h" "lpring_units ((fst hm)\<lparr>txState := x\<rparr>, snd hm) = lpring_units hm"
    for h x hm by (simp_all add: lpring_ok_def lpring_units_def lpring_len_def lpring_cell_def [abs_def])
  define v3 where "v3 = (if lp_asks soc M_STAT_TDRE M_CTRL_TIE s then lp_emit (lp_tx_cap soc) (lp_receive v) else lp_receive v)"
  have "lp_receive (if b then lp_take v else v) = lp_receive v" for b by (simp add: receive_take)
  then have spec: "lp_irq_spec soc s v = (if lp_asks soc M_STAT_TC M_CTRL_TCIE s
      then (((fst (fst v3))\<lparr>txState := kLPUART_TxIdle\<rparr>, snd (fst v3)), snd v3) else v3)"
    using assms by (simp add: lp_irq_spec_def Let_def v3_def)
  show "snd (fst (lp_irq_spec soc s v)) = snd (fst (lp_receive v))"
    "rxState (fst (fst (lp_irq_spec soc s v))) = rxState (fst (fst (lp_receive v)))"
    "rxDataSize (fst (fst (lp_irq_spec soc s v))) = rxDataSize (fst (fst (lp_receive v)))"
    "lf_rx (snd (lp_irq_spec soc s v)) = lf_rx (snd (lp_receive v))"
    "lpring_ok (fst (fst (lp_irq_spec soc s v))) = lpring_ok (fst (fst (lp_receive v)))"
    "lpring_units (fst (lp_irq_spec soc s v)) = lpring_units (fst (lp_receive v))"
    unfolding spec by (simp_all add: tc) (simp_all add: v3_def)
qed

subsection \<open>A concrete device\<close>

text \<open>
  FIFOs of four units; the receive and transmit flags are always set and their interrupts enabled.
\<close>

fun model_mask :: "lpuart_mask \<Rightarrow> u32" where
  "model_mask M_CTRL_TIE = 0x800000" | "model_mask M_CTRL_TCIE = 0x400000" | "model_mask M_CTRL_RIE = 0x200000"
| "model_mask M_CTRL_ILIE = 0x100000" | "model_mask M_CTRL_ORIE = 0x8000000" | "model_mask M_STAT_TDRE = 0x800000"
| "model_mask M_STAT_TC = 0x400000" | "model_mask M_STAT_RDRF = 0x200000" | "model_mask M_STAT_IDLE = 0x100000"
| "model_mask M_STAT_OR = 0x80000" | "model_mask M_WATER_TXCOUNT = 0xFF00" | "model_mask M_WATER_RXCOUNT = 0xFF000000"
| "model_mask _ = 0"

definition model_fifo :: "lp_fifo \<Rightarrow> lp_fifo" where
  "model_fifo d = d\<lparr>lf_rx := take 4 (lf_rx d), lf_seven := False, lf_level := min (lf_level d) 4\<rparr>"

fun model_read :: "lpuart_reg \<Rightarrow> lp_fifo \<Rightarrow> u32 \<times> lp_fifo" where
  "model_read P_DATA d = (case lf_rx d of [] \<Rightarrow> (0, d) | w # ws \<Rightarrow> (w, d\<lparr>lf_rx := take 3 ws\<rparr>))"
| "model_read P_WATER d =
     (push_bit 24 (of_nat (min (length (lf_rx d)) 4)) OR push_bit 8 (of_nat (min (lf_level d) 4)), d)"
| "model_read P_STAT d = (0xA00000, d)"
| "model_read P_CTRL d = (0xA00000, d)"
| "model_read _ d = (0, d)"

fun model_write :: "lpuart_reg \<Rightarrow> u32 \<Rightarrow> lp_fifo \<Rightarrow> lp_fifo" where
  "model_write P_DATA v d = (if lf_level d < 4 then d\<lparr>lf_level := Suc (lf_level d), lf_sent := lf_sent d @ [v]\<rparr> else d)"
| "model_write _ v d = d"

definition lp_model :: "lp_fifo lpuart_soc" where
  "lp_model =
     \<lparr>reg_read = model_read, reg_write = model_write, lp_mask = model_mask, lp_field = \<lambda>_ x. x,
      lp_has = \<lambda>ft. ft = HAS_FIFO, WATER_TXCOUNT_SHIFT = 8, WATER_TXWATER_SHIFT = 0, WATER_RXCOUNT_SHIFT = 24,
      DATA_R8T8_SHIFT = 8, FIFO_SIZEn = 4, RETRY_TIMES = 0, lpuart_bases = [0x40000000], lpuart_cmse = False,
      lp_EnableClock = \<lambda>_ _ d. d, lp_DisableClock = \<lambda>_ _ d. d, lp_ReleaseReset = \<lambda>_ d. d, lp_EnableIRQ = \<lambda>_ _ d. d,
      lp_invoke = \<lambda>_ _ _ s. Some s\<rparr>"

lemma model_counts:
  assumes "n \<le> 4" "k \<le> 4"
  shows "drop_bit 24 ((push_bit 24 (of_nat n) OR push_bit 8 (of_nat k)) AND 0xFF000000 :: u32) = of_nat n"
    "drop_bit 8 ((push_bit 24 (of_nat n) OR push_bit 8 (of_nat k)) AND 0xFF00 :: u32) = of_nat k"
proof -
  have "n \<in> {0, 1, 2, 3, 4}" "k \<in> {0, 1, 2, 3, 4}" using assms by auto
  then show "drop_bit 24 ((push_bit 24 (of_nat n) OR push_bit 8 (of_nat k)) AND 0xFF000000 :: u32) = of_nat n"
    "drop_bit 8 ((push_bit 24 (of_nat n) OR push_bit 8 (of_nat k)) AND 0xFF00 :: u32) = of_nat k"
    by (auto simp: push_bit_eq_mult drop_bit_eq_div)
qed

lemma model_observer: "lp_observer lp_model"
  by (simp add: lp_observer_def lp_model_def)

lemma model_device: "lp_fifo_device lp_model model_fifo"
  unfolding lp_fifo_device_def
proof (intro conjI allI impI, goal_cases)
  case (6 d)
  show ?case by (simp add: lp_seven_bits_def lp_model_def model_fifo_def)
next
  case (7 r d)
  then show ?case by (cases r) (simp_all add: lp_model_def)
next
  case (10 d)
  show ?case using model_counts(1) [of "min (length (lf_rx d)) 4" "min (lf_level d) 4"]
    by (simp add: lp_model_def model_fifo_def)
next
  case (11 d)
  show ?case using model_counts(2) [of "min (length (lf_rx d)) 4" "min (lf_level d) 4"]
    by (simp add: lp_model_def model_fifo_def)
next
  case (12 d w ws)
  then show ?case by (cases "lf_rx d") (auto simp: lp_model_def model_fifo_def)
next
  case (13 d w ws)
  then show ?case by (cases "lf_rx d") (auto simp: lp_model_def model_fifo_def numeral_eq_Suc)
qed (auto simp: lp_model_def model_fifo_def lp_tx_cap_def lp_int_bits_def lp_rx_idle_ints_def lp_format_def)

definition model_handle :: lpuart_handle where
  "model_handle =
     \<lparr>txData = 0x300, txDataSize = 1, txDataSizeAll = 1, rxData = 0x200, rxDataSize = 2, rxDataSizeAll = 2,
      rxRingBuffer = 0x100, rxRingBufferSize = 4, rxRingBufferHead = 0, rxRingBufferTail = 0, callback = None, userData = 0,
      txState = kLPUART_TxBusy, rxState = kLPUART_RxBusy, isSevenDataBits = False, is16bitData = False\<rparr>"

definition model_state :: "lp_fifo lpuart" where
  "model_state =
     \<lparr>lp_dev = \<lparr>lf_rx = [0x41, 0x42, 0x43], lf_seven = False, lf_level = 0, lf_sent = []\<rparr>, lp_handle = model_handle,
      lp_ram = \<lambda>_. 0x55, lp_primask = 0, s_lpuartHandle = [1], s_lpuartIsr = [Isr_TransferHandleIRQ]\<rparr>"

lemma model_view:
  "lpview model_fifo model_state =
     ((model_handle, \<lambda>_. 0x55), \<lparr>lf_rx = [0x41, 0x42, 0x43], lf_seven = False, lf_level = 0, lf_sent = []\<rparr>)"
  by (simp add: lpview_def model_state_def model_fifo_def)

lemma model_asks: "lp_asks lp_model M_STAT_RDRF M_CTRL_RIE model_state" "lp_asks lp_model M_STAT_TDRE M_CTRL_TIE model_state"
  by (simp_all add: lp_asks_def lp_model_def model_state_def LPUART_GetStatusFlags_def LPUART_GetEnabledInterrupts_def
        kLPUART_AllFlags_def kLPUART_AllInterruptEnable_def lp_opt_def)

lemma model_ready:
  "lp_irq_ready lp_model model_state (lpview model_fifo model_state)" "lp_buffers_ok (lpview model_fifo model_state)"
proof -
  show "lp_irq_ready lp_model model_state (lpview model_fifo model_state)"
    by (simp add: model_view lp_irq_ready_def lp_request_ok_def model_handle_def) (simp add: lp_model_def)
  have "apart 0x200 2 0x100 4" by (rule apart_sym, rule apart_ranges) simp_all
  then show "lp_buffers_ok (lpview model_fifo model_state)"
    by (simp add: model_view lp_buffers_ok_def Let_def model_handle_def lpring_ok_def unit_size_def)
qed

subsection \<open>Properties\<close>

text \<open>C4: the interrupt handler of the LPUART implements its specification. Whatever flags are set and
  interrupts enabled, in 7-, 8- and 16-bit mode, with or without FIFOs, a run with observing
  callbacks returns; on the handle, RAM and the FIFOs of the device it has exactly the effect of the
  requested parts of the specification, in the order idle line, receive, send, transmission complete.\<close>

theorem lpuart_irq_refines:
  assumes "lp_observer soc" "lp_fifo_device soc fifo" "irqHandle \<noteq> 0" "lp_irq_ready soc s (lpview fifo s)"
  shows "\<exists>s'. LPUART_TransferHandleIRQ soc irqHandle s = Some s' \<and> lpview fifo s' = lp_irq_spec soc s (lpview fifo s)"
  by (rule irq_refines [OF assms])

theorem lpuart_irq_refines_witness:
  "\<exists>s'. LPUART_TransferHandleIRQ lp_model 1 model_state = Some s' \<and>
     lpview model_fifo s' = lp_irq_spec lp_model model_state (lpview model_fifo model_state)"
  by (rule lpuart_irq_refines [OF model_observer model_device _ model_ready(1)]) simp

text \<open>C9: what the LPUART receives. When the handler finds the receive interrupt, the first units of
  the receive FIFO fill the buffer of the request, in order and in the layout of the mode; the
  request is complete exactly when its last unit arrived. Without a ring the other units stay in the
  FIFO; with a ring they are appended to it, the oldest units being dropped when it is full, and the
  FIFO is empty.\<close>

theorem lpuart_receive:
  fixes s :: "'d lpuart" and fifo :: "'d \<Rightarrow> lp_fifo"
  defines "h \<equiv> lp_handle s" and "q \<equiv> lf_rx (fifo (lp_dev s))" and "r \<equiv> unat (rxDataSize (lp_handle s))"
    and "wide \<equiv> is16bitData (lp_handle s)" and "seven \<equiv> isSevenDataBits (lp_handle s)"
    and "ring \<equiv> lpring_units (lp_handle s, lp_ram s)"
  assumes soc: "lp_observer soc" "lp_fifo_device soc fifo" "irqHandle \<noteq> 0" "lp_irq_ready soc s (lpview fifo s)"
    and buf: "lp_buffers_ok (lpview fifo s)" and ask: "lp_asks soc M_STAT_RDRF M_CTRL_RIE s"
  shows "\<exists>s'. LPUART_TransferHandleIRQ soc irqHandle s = Some s' \<and>
           mem_bytes (lp_ram s') (rxData h) (unit_size wide * min r (length q)) = lp_image wide seven (take r q) \<and>
           unat (rxDataSize (lp_handle s')) = r - length q \<and>
           rxState (lp_handle s') = (if 0 < r \<and> r \<le> length q then kLPUART_RxIdle else rxState h) \<and>
           (rxRingBuffer h = 0 \<longrightarrow> lf_rx (fifo (lp_dev s')) = drop r q) \<and>
           (rxRingBuffer h \<noteq> 0 \<longrightarrow> lf_rx (fifo (lp_dev s')) = [] \<and> lpring_ok (lp_handle s') \<and>
              (let input = ring @ map (lp_unit wide seven) (drop r q)
               in lpring_units (lp_handle s', lp_ram s') = drop (length input - (lpring_size h - 1)) input))"
proof -
  obtain s' where s': "LPUART_TransferHandleIRQ soc irqHandle s = Some s'" "lpview fifo s' = lp_irq_spec soc s (lpview fifo s)"
    using irq_refines [OF soc] by blast
  note c = receive_content [OF buf] and p = spec_received [OF ask, of "lpview fifo s", folded s'(2)]
  have v: "fst (fst (lpview fifo x)) = lp_handle x" "snd (fst (lpview fifo x)) = lp_ram x"
    "fst (lpview fifo x) = (lp_handle x, lp_ram x)" "snd (lpview fifo x) = fifo (lp_dev x)" for x
    by (simp_all add: lpview_def)
  show ?thesis
    using s'(1) c [folded p, unfolded v] unfolding h_def q_def r_def wide_def seven_def ring_def Let_def lpring_cap_def
    by auto
qed

theorem lpuart_receive_witness:
  "\<exists>s'. LPUART_TransferHandleIRQ lp_model 1 model_state = Some s' \<and>
     mem_bytes (lp_ram s') 0x200 2 = [0x41, 0x42] \<and> rxState (lp_handle s') = kLPUART_RxIdle \<and>
     lpring_units (lp_handle s', lp_ram s') = [0x43]"
proof -
  have e: "lpring_units (model_handle, m) = []" for m
    by (simp add: lpring_units_def lpring_len_def model_handle_def wrap_len_def cells_def)
  have h: "rxData model_handle = 0x200" "unat (rxDataSize model_handle) = 2" "\<not> is16bitData model_handle"
    "\<not> isSevenDataBits model_handle" "rxRingBuffer model_handle \<noteq> 0" "lpring_size model_handle = 4"
    by (simp_all add: model_handle_def)
  have m: "lp_handle model_state = model_handle" "lf_rx (model_fifo (lp_dev model_state)) = [0x41, 0x42, 0x43]"
    by (simp_all add: model_state_def model_fifo_def)
  have "(1 :: u32) \<noteq> 0" by simp
  from lpuart_receive [OF model_observer model_device this model_ready model_asks(1)] obtain s' where
    s': "LPUART_TransferHandleIRQ lp_model 1 model_state = Some s'"
      "mem_bytes (lp_ram s') 0x200 2 = lp_image False False [0x41, 0x42]" "rxState (lp_handle s') = kLPUART_RxIdle"
      "lpring_units (lp_handle s', lp_ram s') = [lp_unit False False 0x43]"
    unfolding m by (auto simp: h e Let_def unit_size_def numeral_2_eq_2)
  moreover have "lp_image False False [0x41, 0x42] = [0x41, 0x42]" "lp_unit False False 0x43 = 0x43"
    by (simp_all add: unit_bytes_def lp_unit_def)
  ultimately show ?thesis by auto
qed

end
