(* ===== verification/Lpuart_Inv.thy ===== *)
theory Lpuart_Inv
  imports Lpuart_Stream
begin

text \<open>
  The life of an LPUART handle: a step relation over the transactional interface and the interrupt
  handler, the invariant that every reachable handle satisfies whatever the device does, and how
  creating a handle connects it to the interrupt dispatch.
\<close>

definition lp_wf :: "lpuart_handle \<Rightarrow> bool" where
  "lp_wf h \<longleftrightarrow>
     (rxDataSize h \<noteq> 0) = (rxState h = kLPUART_RxBusy) \<and>
     txDataSize h \<le> txDataSizeAll h \<and> rxDataSize h \<le> rxDataSizeAll h \<and>
     (rxRingBuffer h = 0 \<or> lpring_ok h)"

text \<open>What a callback must not do: leave an inconsistent handle.\<close>

definition lp_callback_ok :: "'d lpuart_soc \<Rightarrow> bool" where
  "lp_callback_ok soc \<longleftrightarrow>
     (\<forall>f st ud s s'. lp_wf (lp_handle s) \<and> lp_invoke soc f st ud s = Some s' \<longrightarrow> lp_wf (lp_handle s'))"

text \<open>
  The steps. A ring must have at least one unit and at most 65536; the 16-bit mode is switched while
  no ring is installed, and is not combined with seven data bits when a ring is.
\<close>

inductive lpuart_reach :: "'d lpuart_soc \<Rightarrow> 'd lpuart \<Rightarrow> bool" for soc where
  create: "LPUART_TransferCreateHandle soc base handle cb ud s = Some s' \<Longrightarrow> lpuart_reach soc s'"
| wide: "lpuart_reach soc s \<Longrightarrow> rxRingBuffer (lp_handle s) = 0 \<Longrightarrow> lpuart_reach soc (LPUART_TransferEnable16Bit b s)"
| send: "lpuart_reach soc s \<Longrightarrow> LPUART_TransferSendNonBlocking soc xfer s = Some (st, s') \<Longrightarrow> lpuart_reach soc s'"
| abort_send: "lpuart_reach soc s \<Longrightarrow> lpuart_reach soc (LPUART_TransferAbortSend soc s)"
| send_count: "lpuart_reach soc s \<Longrightarrow> LPUART_TransferGetSendCount soc s = (st, n, s') \<Longrightarrow> lpuart_reach soc s'"
| receive: "lpuart_reach soc s \<Longrightarrow> LPUART_TransferReceiveNonBlocking soc xfer s = Some (st, n, s') \<Longrightarrow> lpuart_reach soc s'"
| abort_receive: "lpuart_reach soc s \<Longrightarrow> lpuart_reach soc (LPUART_TransferAbortReceive soc s)"
| start_ring: "lpuart_reach soc s \<Longrightarrow> unit_size (is16bitData (lp_handle s)) \<le> unat sz \<Longrightarrow>
    unat sz \<le> 65536 * unit_size (is16bitData (lp_handle s)) \<Longrightarrow>
    \<not> (isSevenDataBits (lp_handle s) \<and> is16bitData (lp_handle s)) \<Longrightarrow>
    LPUART_TransferStartRingBuffer soc buf sz s = Some s' \<Longrightarrow> lpuart_reach soc s'"
| stop_ring: "lpuart_reach soc s \<Longrightarrow> lpuart_reach soc (LPUART_TransferStopRingBuffer soc s)"
| irq: "lpuart_reach soc s \<Longrightarrow> LPUART_TransferHandleIRQ soc irqHandle s = Some s' \<Longrightarrow> lpuart_reach soc s'"
| environment: "lpuart_reach soc s \<Longrightarrow> lp_handle s' = lp_handle s \<Longrightarrow> lpuart_reach soc s'"

lemma lp_callback_keeps:
  "lp_callback_ok soc \<Longrightarrow> lp_wf (lp_handle s) \<Longrightarrow> lp_callback soc st s = Some s' \<Longrightarrow> lp_wf (lp_handle s')"
  unfolding lp_callback_ok_def lp_callback_def by (auto split: option.splits; blast)

subsection \<open>The interrupt handler\<close>

lemma temp_count_le:
  assumes "n \<noteq> 0"
  shows "ucast (lp_temp_count soc n c) \<le> n"
proof (cases "lp_has soc HAS_FIFO")
  case True
  have "unat c < 256" using unat_u8_le [of c] by simp
  then have "unat (ucast (min n (ucast c)) :: u8) = min (unat n) (unat c)"
    by (subst unat_ucast_small) (auto simp: min_def word_le_nat_alt)
  then show ?thesis using True by (simp add: lp_temp_count_def word_le_nat_alt)
next
  case False
  have "0 < unat n" using assms by (simp add: unat_gt_0)
  then show ?thesis using False by (simp add: lp_temp_count_def word_le_nat_alt Suc_le_eq)
qed

lemma minus_le: "t \<le> n \<Longrightarrow> n \<le> m \<Longrightarrow> n - t \<le> (m :: u32)"
  by (simp add: word_le_nat_alt unat_minus_small)

lemma wf_rx_done: "lp_wf h \<Longrightarrow> lp_wf (h\<lparr>rxData := a, rxDataSize := 0, rxState := kLPUART_RxIdle\<rparr>)"
  by (auto simp: lp_wf_def lpring_ok_def)

lemma wf_rx_progress:
  assumes "lp_wf h" "t \<le> rxDataSize h" "rxDataSize h \<noteq> 0" "rxDataSize h - t \<noteq> 0"
  shows "lp_wf (h\<lparr>rxData := a, rxDataSize := rxDataSize h - t\<rparr>)"
  using assms minus_le [OF assms(2)] by (auto simp: lp_wf_def lpring_ok_def)

lemma request_body_keeps:
  assumes "lp_callback_ok soc" "lp_wf (lp_handle s)" "rxDataSize (lp_handle s) \<noteq> 0" "ucast t \<le> rxDataSize (lp_handle s)"
    "lp_request_body soc t s = Some s'"
  shows "lp_wf (lp_handle s')"
proof -
  let ?h = "lp_handle s" and ?a = "lp_at (is16bitData (lp_handle s)) (rxData (lp_handle s)) (ucast t)"
  let ?z = "rxDataSize ?h - ucast t"
  obtain ram d where rd: "(if \<not> is16bitData ?h then LPUART_ReadNonBlocking soc (rxData ?h) (ucast t) (lp_ram s, lp_dev s)
      else LPUART_ReadNonBlocking16bit soc (rxData ?h) (ucast t) (lp_ram s, lp_dev s)) = Some (ram, d)"
    using assms(5) unfolding lp_request_body_def Let_def by (auto simp: bind_eq_Some_conv simp del: if_split)
  let ?s1 = "on_lph (\<lambda>h. h\<lparr>rxData := lp_at (is16bitData h) (rxData h) (ucast t), rxDataSize := rxDataSize h - ucast t\<rparr>)
      (s\<lparr>lp_ram := ram, lp_dev := d\<rparr>)"
  have h1: "lp_handle ?s1 = ?h\<lparr>rxData := ?a, rxDataSize := ?z\<rparr>" by simp
  have e: "lp_request_body soc t s = (if 0 = rxDataSize (lp_handle ?s1)
      then lp_callback soc kStatus_LPUART_RxIdle (on_lph (\<lambda>h. h\<lparr>rxState := kLPUART_RxIdle\<rparr>) ?s1) else Some ?s1)"
    unfolding lp_request_body_def Let_def rd by (simp only: Option.bind.bind_lunit prod.case)
  show ?thesis
  proof (cases "?z = 0")
    case True
    then have "lp_callback soc kStatus_LPUART_RxIdle (on_lph (\<lambda>h. h\<lparr>rxState := kLPUART_RxIdle\<rparr>) ?s1) = Some s'"
      using assms(5) unfolding e by simp
    then show ?thesis
    proof (rule lp_callback_keeps [OF assms(1), rotated])
      show "lp_wf (lp_handle (on_lph (\<lambda>h. h\<lparr>rxState := kLPUART_RxIdle\<rparr>) ?s1))"
        using wf_rx_done [OF assms(2), of ?a] by (subst on_lph_simps(2)) (simp only: h1 True)
    qed
  next
    case False
    then have "s' = ?s1" using assms(5) unfolding e by simp
    with wf_rx_progress [OF assms(2,4,3) False, of ?a] show ?thesis by (simp only: h1)
  qed
qed

lemma request_loop_keeps:
  assumes "lp_callback_ok soc"
  shows "lp_wf (lp_handle s) \<Longrightarrow> lp_request_loop soc c s = Some (c', s') \<Longrightarrow> lp_wf (lp_handle s')"
  using assms
proof (induction soc c s arbitrary: c' s' rule: lp_request_loop.induct)
  case (1 soc c s)
  show ?case
  proof (cases "0 \<noteq> rxDataSize (lp_handle s) \<and> 0 \<noteq> c")
    case True
    let ?t = "lp_temp_count soc (rxDataSize (lp_handle s)) c"
    from "1.prems"(2) True obtain s1 where
      s1: "lp_request_body soc ?t s = Some s1" "lp_request_loop soc (c - ?t) s1 = Some (c', s')"
      by (auto simp: lp_request_loop.simps [of soc c s] Let_def bind_eq_Some_conv)
    have "lp_wf (lp_handle s1)"
      using request_body_keeps [OF "1.prems"(3,1) _ _ s1(1)] temp_count_le True by metis
    with "1.IH" [OF True refl, of s1] s1 "1.prems"(3) show ?thesis by blast
  next
    case False
    with "1.prems" show ?thesis by (auto simp: lp_request_loop.simps [of soc c s])
  qed
qed

lemma idle_keeps:
  assumes "lp_callback_ok soc" "lp_wf (lp_handle s)" "LPUART_TransferHandleIDLEReady soc s = Some s'"
  shows "lp_wf (lp_handle s')"
proof -
  obtain c s1 where s1: "(if lp_has soc HAS_FIFO then let (count, s) = lp_rx_count soc s in lp_request_loop soc count s
               else Some (0, s)) = Some (c, s1)"
    using assms(3) by (auto simp: LPUART_TransferHandleIDLEReady_def bind_eq_Some_conv simp del: if_split)
  have "lp_handle (snd (lp_rx_count soc s)) = lp_handle s" by (simp add: lp_rx_count_def case_prod_beta Let_def)
  then have "lp_wf (lp_handle s1)"
    using s1 assms(2) request_loop_keeps [OF assms(1), of "snd (lp_rx_count soc s)"]
    by (auto simp: case_prod_beta split: if_splits)
  then show ?thesis
    using assms(3) lp_callback_keeps [OF assms(1)] unfolding LPUART_TransferHandleIDLEReady_def s1
    by (auto simp: case_prod_beta Let_def split: if_splits) (metis lpread_simps(3) on_lpdev_simps(2))
qed

lemma wf_ring_indices:
  assumes "lp_wf h" "rxRingBuffer h \<noteq> 0 \<Longrightarrow> lpring_ok (h\<lparr>rxRingBufferHead := a, rxRingBufferTail := b\<rparr>)"
  shows "lp_wf (h\<lparr>rxRingBufferHead := a, rxRingBufferTail := b\<rparr>)"
  using assms by (auto simp: lp_wf_def)

lemma lp_inc_eq:
  "lp_inc_tail h = h\<lparr>rxRingBufferHead := rxRingBufferHead h, rxRingBufferTail := rxRingBufferTail (lp_inc_tail h)\<rparr>"
  "lp_inc_head h = h\<lparr>rxRingBufferHead := rxRingBufferHead (lp_inc_head h), rxRingBufferTail := rxRingBufferTail h\<rparr>"
  by (simp_all add: lp_inc_tail_def lp_inc_head_def)

lemma inc_keeps:
  assumes "lp_wf h" "rxRingBuffer h \<noteq> 0"
  shows "lp_wf (lp_inc_tail h)" "lp_wf (lp_inc_head h)"
proof -
  have "lpring_ok h" using assms by (simp add: lp_wf_def)
  then show "lp_wf (lp_inc_tail h)" "lp_wf (lp_inc_head h)"
    using wf_ring_indices [OF assms(1)] lp_inc_ok lp_inc_eq by metis+
qed

lemma lpring_receive_keeps:
  assumes "lp_callback_ok soc" "lp_wf (lp_handle s)" "lp_ring_receive soc s = Some s'"
  shows "lp_wf (lp_handle s')"
proof -
  obtain s1 where s1: "(if LPUART_TransferIsRxRingBufferFull (lp_handle s)
          then lp_callback soc kStatus_LPUART_RxRingBufferOverrun s else Some s) = Some s1"
    using assms(3) unfolding lp_ring_receive_def by (auto simp: bind_eq_Some_conv simp del: if_split)
  have w: "lp_wf (lp_handle s1)" using s1 assms(2) lp_callback_keeps [OF assms(1)] by (auto split: if_splits)
  have r: "rxRingBuffer (lp_make_room (lp_handle s1)) = rxRingBuffer (lp_handle s1)" by (simp add: lp_make_room_def)
  have "rxRingBuffer (lp_handle s1) \<noteq> 0" "lp_handle s' = lp_inc_head (lp_make_room (lp_handle s1))"
    using assms(3) r unfolding lp_ring_receive_def s1
    by (auto simp: case_prod_beta Let_def c_assert_def lp_ring_store_def split: if_splits)
  with w r inc_keeps show ?thesis by (simp add: lp_make_room_def)
qed

lemma ring_loop_keeps:
  assumes "lp_callback_ok soc"
  shows "lp_wf (lp_handle s) \<Longrightarrow> lp_ring_loop soc n s = Some s' \<Longrightarrow> lp_wf (lp_handle s')"
  using lpring_receive_keeps [OF assms] by (induction n arbitrary: s) (auto simp: bind_eq_Some_conv)

lemma receive_full_keeps:
  assumes "lp_callback_ok soc" "lp_wf (lp_handle s)" "LPUART_TransferHandleReceiveDataFull soc s = Some s'"
  shows "lp_wf (lp_handle s')"
proof -
  let ?c = "if lp_has soc HAS_FIFO then lp_rx_count soc s else (1, s)"
  obtain c s1 where s1: "lp_request_loop soc (fst ?c) (snd ?c) = Some (c, s1)"
    using assms(3) unfolding LPUART_TransferHandleReceiveDataFull_def case_prod_beta Let_def
    by (auto simp: bind_eq_Some_conv simp del: if_split)
  have "lp_handle (snd ?c) = lp_handle s" by (simp add: lp_rx_count_def case_prod_beta Let_def)
  then have "lp_wf (lp_handle s1)" using request_loop_keeps [OF assms(1) _ s1] assms(2) by simp
  then show ?thesis using assms(3) ring_loop_keeps [OF assms(1)]
    unfolding LPUART_TransferHandleReceiveDataFull_def case_prod_beta Let_def s1 by (auto split: if_splits)
qed

lemma wf_tx_progress:
  "lp_wf h \<Longrightarrow> t \<le> txDataSize h \<Longrightarrow> lp_wf (h\<lparr>txData := a, txDataSize := txDataSize h - t\<rparr>)"
  using minus_le [of t "txDataSize h"] by (auto simp: lp_wf_def lpring_ok_def)

lemma send_body_keeps:
  assumes "lp_wf (lp_handle s)" "ucast t \<le> txDataSize (lp_handle s)" "lp_send_body soc t s = Some s'"
  shows "lp_wf (lp_handle s')"
  using assms(3) wf_tx_progress [OF assms(1,2)]
  unfolding lp_send_body_def Let_def by (auto simp: bind_eq_Some_conv split: if_splits)

lemma send_loop_keeps:
  "lp_wf (lp_handle s) \<Longrightarrow> lp_send_loop soc c s = Some s' \<Longrightarrow> lp_wf (lp_handle s')"
proof (induction soc c s rule: lp_send_loop.induct)
  case (1 soc c s)
  show ?case
  proof (cases "0 \<noteq> txDataSize (lp_handle s) \<and> 0 \<noteq> c")
    case True
    let ?t = "lp_temp_count soc (txDataSize (lp_handle s)) c"
    from "1.prems"(2) True obtain s1 where
      s1: "lp_send_body soc ?t s = Some s1" "lp_send_loop soc (c - ?t) s1 = Some s'"
      by (auto simp: lp_send_loop.simps [of soc c s] Let_def bind_eq_Some_conv)
    have "lp_wf (lp_handle s1)"
      using send_body_keeps [OF "1.prems"(1) _ s1(1)] temp_count_le True by metis
    with "1.IH" [OF True refl, of s1] s1 show ?thesis by blast
  next
    case False
    with "1.prems" show ?thesis by (auto simp: lp_send_loop.simps [of soc c s])
  qed
qed

lemma send_empty_keeps:
  assumes "lp_wf (lp_handle s)" "LPUART_TransferHandleSendDataEmpty soc s = Some s'"
  shows "lp_wf (lp_handle s')"
proof -
  have "lp_handle (snd (lp_tx_count soc s)) = lp_handle s" by (simp add: lp_tx_count_def case_prod_beta Let_def)
  moreover have "\<exists>c. lp_send_loop soc c (snd (lp_tx_count soc s)) = Some s' \<or> lp_send_loop soc c s = Some s'"
    using assms(2) unfolding LPUART_TransferHandleSendDataEmpty_def
    by (auto simp: case_prod_beta Let_def split: if_splits)
  ultimately show ?thesis using assms(1) send_loop_keeps by metis
qed

lemma complete_keeps:
  assumes "lp_callback_ok soc" "lp_wf (lp_handle s)" "LPUART_TransferHandleTransmissionComplete soc s = Some s'"
  shows "lp_wf (lp_handle s')"
  using assms(3) unfolding LPUART_TransferHandleTransmissionComplete_def Let_def
  by (rule lp_callback_keeps [OF assms(1), rotated]) (use assms(2) in \<open>simp add: lp_wf_def lpring_ok_def\<close>)

lemma lpuart_irq_keeps:
  assumes "lp_callback_ok soc" "lp_wf (lp_handle s)" "LPUART_TransferHandleIRQ soc h s = Some s'"
  shows "lp_wf (lp_handle s')"
proof -
  let ?W = "pred_option (\<lambda>s :: 'a lpuart. lp_wf (lp_handle s))"
  have opt: "?W (if c then m else Some a)" if "lp_wf (lp_handle a)" "?W m" for c m a
    using that by simp
  have bind: "?W (m \<bind> f)" if "?W m" "\<And>x. lp_wf (lp_handle x) \<Longrightarrow> ?W (f x)" for m f
    using that by (cases m) simp_all
  have asserted: "?W (c_assert b \<bind> f)" if "?W (f ())" for b f
    using that by (simp add: c_assert_def)
  note keeps = lp_callback_keeps [OF assms(1)] idle_keeps [OF assms(1)] receive_full_keeps [OF assms(1)]
    send_empty_keeps complete_keeps [OF assms(1)]
  have "?W (LPUART_TransferHandleIRQ soc h s)"
    unfolding LPUART_TransferHandleIRQ_def Let_def case_prod_beta
    by (intro asserted bind opt) (use assms(2) in \<open>auto simp: option.pred_set elim: keeps [rotated]\<close>)
  then show ?thesis using assms(3) by simp
qed

subsection \<open>The transactional interface\<close>

lemma ring_copy_keeps:
  "lp_wf (fst hm) \<Longrightarrow> rxRingBuffer (fst hm) \<noteq> 0 \<Longrightarrow> lp_wf (fst (lp_ring_copy dst i n hm))"
proof (induction n arbitrary: i hm)
  case (Suc n)
  let ?v = "fst (lp_ring_pop hm)" and ?h = "lp_inc_tail (fst hm)"
  have "lp_ring_copy dst i (Suc n) hm =
      lp_ring_copy dst (i + 1) n (?h, lp_store (is16bitData ?h) (snd hm) (lp_at (is16bitData ?h) dst i) ?v)"
    by (simp add: lp_ring_pop_def case_prod_beta Let_def)
  with Suc inc_keeps(1) show ?case by simp
qed simp

lemma save_keeps:
  assumes "lp_wf h" "n \<noteq> 0" "n \<le> xfer_dataSize xfer"
  shows "lp_wf (lp_save_request xfer got n h)"
  using assms by (auto simp: lp_save_request_def lp_wf_def lpring_ok_def)

lemma receive_ring_keeps_lp:
  assumes "lp_callback_ok soc" "lp_wf (lp_handle s)" "rxRingBuffer (lp_handle s) \<noteq> 0"
    "lp_receive_ring soc xfer s = Some (k, s')"
  shows "lp_wf (lp_handle s')"
proof -
  define s1 where "s1 = lp_atomic (reg_clear soc P_CTRL (lp_rx_ints soc)) s"
  define l where "l = LPUART_TransferGetRxRingBufferLength (lp_handle s1)"
  define c where "c = min (xfer_dataSize xfer) l"
  define hm where "hm = lp_ring_copy (xfer_data xfer) 0 (unat c) (lp_handle s1, lp_ram s1)"
  define r where "r = (if 0 \<noteq> l then (c, xfer_dataSize xfer - c, s1\<lparr>lp_handle := fst hm, lp_ram := snd hm\<rparr>)
                       else (0, xfer_dataSize xfer, s1))"
  define s2 where "s2 = (if 0 \<noteq> fst (snd r) then on_lph (lp_save_request xfer (fst r) (fst (snd r))) (snd (snd r)) else snd (snd r))"
  define s3 where "s3 = lp_atomic (reg_set soc P_CTRL (lp_rx_ints soc)) s2"
  have e: "(if 0 = fst (snd r) then lp_callback soc kStatus_LPUART_RxIdle s3 else Some s3) = Some s'"
    using assms(4) unfolding lp_receive_ring_def Let_def case_prod_beta
    by (auto simp: bind_eq_Some_conv s1_def l_def c_def hm_def r_def s2_def s3_def simp del: if_split)
  have h1: "lp_handle s1 = lp_handle s" by (simp add: s1_def)
  have "lp_wf (fst hm)" using ring_copy_keeps [of "(lp_handle s1, lp_ram s1)"] assms(2,3) h1 by (simp add: hm_def)
  then have "lp_wf (lp_handle (snd (snd r)))" using assms(2) h1 by (simp add: r_def)
  moreover have "fst (snd r) \<le> xfer_dataSize xfer" using minus_le [of c "xfer_dataSize xfer"] by (simp add: r_def c_def)
  ultimately have "lp_wf (lp_handle s3)" using save_keeps by (simp add: s3_def s2_def)
  with e lp_callback_keeps [OF assms(1)] show ?thesis by (auto split: if_splits)
qed

lemma receive_keeps_lp:
  assumes "lp_callback_ok soc" "lp_wf (lp_handle s)" "LPUART_TransferReceiveNonBlocking soc xfer s = Some (st, n, s')"
  shows "lp_wf (lp_handle s')"
  using assms(2,3) receive_ring_keeps_lp [OF assms(1,2)] save_keeps [OF assms(2), of "xfer_dataSize xfer" xfer 0]
  unfolding LPUART_TransferReceiveNonBlocking_def Let_def
  by (auto simp: bind_eq_Some_conv split: if_splits)

lemma lpuart_reach_wf_core:
  assumes "lp_callback_ok soc" "lpuart_reach soc s"
  shows "lp_wf (lp_handle s)"
  using assms(2)
proof (induction rule: lpuart_reach.induct)
  case (create base handle cb ud s s')
  then show ?case
    by (auto simp: LPUART_TransferCreateHandle_def case_prod_beta Let_def bind_eq_Some_conv lp_wf_def)
next
  case (wide s b)
  then show ?case by (simp add: LPUART_TransferEnable16Bit_def lp_wf_def)
next
  case (send s xfer st s')
  then show ?case
    by (auto simp: LPUART_TransferSendNonBlocking_def Let_def lp_wf_def lpring_ok_def split: if_splits)
next
  case (abort_send s)
  then show ?case by (auto simp: LPUART_TransferAbortSend_def Let_def lp_wf_def lpring_ok_def)
next
  case (send_count s st n s')
  then show ?case
    by (auto simp: LPUART_TransferGetSendCount_def lp_tx_count_def case_prod_beta Let_def split: if_splits)
next
  case (receive s xfer st n s')
  then show ?case using receive_keeps_lp [OF assms(1)] by blast
next
  case (abort_receive s)
  then show ?case by (auto simp: LPUART_TransferAbortReceive_def Let_def lp_wf_def lpring_ok_def)
next
  case (start_ring s sz buf s')
  then show ?case
    by (auto simp: LPUART_TransferStartRingBuffer_def Let_def lp_wf_def lpring_ok_iff unit_size_def unat_div)
next
  case (stop_ring s)
  then show ?case by (auto simp: LPUART_TransferStopRingBuffer_def Let_def lp_wf_def)
next
  case (irq s h s')
  then show ?case using lpuart_irq_keeps [OF assms(1)] by blast
next
  case (environment s s')
  then show ?case by simp
qed

text \<open>
  Creating a handle connects it to the interrupt dispatch: the interrupt of its instance runs the
  handler of the driver on it, with the base address of the table that is the same peripheral.
\<close>

lemma lpuart_dispatch:
  assumes "LPUART_TransferCreateHandle soc base handle cb ud s = Some s'"
    "length (s_lpuartIsr s) = length (lpuart_bases soc)" "length (s_lpuartHandle s) = length (lpuart_bases soc)"
  shows "\<exists>i. LPUART_GetInstance soc base = Some i \<and>
     MSDK_REG_SECURE_ADDR (lpuart_cmse soc) (lpuart_bases soc ! i) = MSDK_REG_SECURE_ADDR (lpuart_cmse soc) base \<and>
     LPUART_DriverIRQHandler soc call i s' = call Isr_TransferHandleIRQ (lpuart_bases soc ! i) handle s' \<and>
     (\<forall>j. j \<noteq> i \<longrightarrow> s_lpuartIsr s' ! j = s_lpuartIsr s ! j \<and> s_lpuartHandle s' ! j = s_lpuartHandle s ! j)"
proof -
  let ?i = "find_base (lpuart_cmse soc) (lpuart_bases soc) base"
  have i: "LPUART_GetInstance soc base = Some ?i" "?i < length (lpuart_bases soc)"
    "s_lpuartIsr s' = (s_lpuartIsr s)[?i := Isr_TransferHandleIRQ]" "s_lpuartHandle s' = (s_lpuartHandle s)[?i := handle]"
    using assms(1) by (auto simp: LPUART_TransferCreateHandle_def LPUART_GetInstance_def Let_def case_prod_beta)
  then show ?thesis using find_base_hit [OF i(2)] assms(2,3)
    by (intro exI [of _ ?i]) (simp add: LPUART_DriverIRQHandler_def)
qed

subsection \<open>Property\<close>

text \<open>C10: every LPUART handle that the API calls, the interrupt handler and well-behaved callbacks can
  produce, on any device, is well-formed: a receive is busy exactly while units are missing, the
  remaining counts never exceed the size of their transfer, and an installed ring buffer has its
  head and tail inside it, through overruns and transfers that take units out of the ring.\<close>
theorem lpuart_reachable_wf:
  assumes "lp_callback_ok soc" "lpuart_reach soc s"
  shows "lp_wf (lp_handle s)"
  using assms by (rule lpuart_reach_wf_core)

theorem lpuart_reachable_wf_witness:
  "\<exists>s1 s2 st n s3. LPUART_TransferCreateHandle lp_model 0x40000000 1 None 0 model_state = Some s1 \<and>
     LPUART_TransferStartRingBuffer lp_model 0x100 4 s1 = Some s2 \<and>
     LPUART_TransferReceiveNonBlocking lp_model \<lparr>xfer_data = 0x200, xfer_dataSize = 2\<rparr> s2 = Some (st, n, s3) \<and>
     rxDataSize (lp_handle s3) = 2 \<and> lp_wf (lp_handle s3)"
proof -
  have cb: "lp_callback_ok lp_model" by (simp add: lp_callback_ok_def lp_model_def)
  obtain s1 where s1: "LPUART_TransferCreateHandle lp_model 0x40000000 1 None 0 model_state = Some s1"
    "\<not> is16bitData (lp_handle s1)" "rxState (lp_handle s1) = kLPUART_RxIdle"
    by (simp add: LPUART_TransferCreateHandle_def LPUART_GetInstance_def lp_model_def case_prod_beta Let_def)
  then obtain s2 where s2: "LPUART_TransferStartRingBuffer lp_model 0x100 4 s1 = Some s2"
    "rxRingBuffer (lp_handle s2) = 0x100" "rxRingBufferHead (lp_handle s2) = 0" "rxRingBufferTail (lp_handle s2) = 0"
    "rxState (lp_handle s2) = kLPUART_RxIdle"
    by (simp add: LPUART_TransferStartRingBuffer_def)
  then obtain st n s3 where s3:
    "LPUART_TransferReceiveNonBlocking lp_model \<lparr>xfer_data = 0x200, xfer_dataSize = 2\<rparr> s2 = Some (st, n, s3)"
    "rxDataSize (lp_handle s3) = 2"
    by (simp add: LPUART_TransferReceiveNonBlocking_def lp_receive_ring_def LPUART_TransferGetRxRingBufferLength_def
          lp_save_request_def Let_def)
  have "lpuart_reach lp_model s2"
    using s2(1) s1 by (auto intro!: lpuart_reach.start_ring [OF lpuart_reach.create [OF s1(1)], of 4 "0x100"] simp: unit_size_def)
  then have "lpuart_reach lp_model s3" using s3(1) by (rule lpuart_reach.receive)
  from lpuart_reachable_wf [OF cb this] s1 s2 s3 show ?thesis by blast
qed

end
