(* ===== verification/Lpuart_Baud.thy ===== *)
theory Lpuart_Baud
  imports Lpuart
begin

text \<open>
  The baud rate of the LPUART: what the search over oversampling rates finds, and what
  \<open>LPUART_SetBaudRate\<close> leaves in the registers.
\<close>

subsection \<open>The search\<close>

text \<open>The rounded and clamped divider for an oversampling rate, and the error of a choice.\<close>

definition lp_divider :: "nat \<Rightarrow> nat \<Rightarrow> nat \<Rightarrow> nat" where
  "lp_divider baud src os = (let s = (src * 2 div (baud * os) + 1) div 2 in if s = 0 then 1 else min s 8191)"

definition lp_rate_error :: "nat \<Rightarrow> nat \<Rightarrow> nat \<Rightarrow> nat \<Rightarrow> nat" where
  "lp_rate_error baud src os s = (let v = src div (os * s) in if baud < v then v - baud else baud - v)"

abbreviation lp_error_at :: "nat \<Rightarrow> nat \<Rightarrow> nat \<Rightarrow> nat" where
  "lp_error_at baud src os \<equiv> lp_rate_error baud src os (lp_divider baud src os)"

lemma divider_range: "1 \<le> lp_divider baud src os" "lp_divider baud src os \<le> 8191"
  by (simp_all add: lp_divider_def Let_def)

lemma sbr_word:
  assumes "lp_mask soc M_BAUD_SBR = 0x1FFF" "0 < unat baud" "4 \<le> unat os" "unat os \<le> 32"
  shows "c_div (ucast src * 2 :: u64) (ucast (baud :: u32) * ucast (os :: u8)) =
           Some (ucast (src :: u32) * 2 div (ucast baud * ucast os))"
    "unat (lp_sbr soc ((ucast src * 2 div (ucast baud * ucast os) + 1) div 2)) = lp_divider (unat baud) (unat src) (unat os)"
proof -
  have b: "unat src < 2 ^ 32" "unat baud < 2 ^ 32"
    using unsigned_less [of src, where ?'a = nat] unsigned_less [of baud, where ?'a = nat] by simp_all
  have p: "unat (ucast baud * ucast os :: u64) = unat baud * unat os"
  proof -
    have "unat baud * unat os \<le> 2 ^ 32 * 32" using b(2) assms(4) by (intro mult_le_mono) simp_all
    then show ?thesis by (simp add: unat_mult_small)
  qed
  have m: "unat (ucast src * 2 :: u64) = unat src * 2" using b(1) by (simp add: unat_mult_small)
  have "0 < unat baud * unat os" using assms(2,3) by simp
  then have "(ucast baud * ucast os :: u64) \<noteq> 0" using p by auto
  then show "c_div (ucast src * 2 :: u64) (ucast baud * ucast os) = Some (ucast src * 2 div (ucast baud * ucast os))"
    by (simp add: c_div_def)
  define q :: u64 where "q = ucast src * 2 div (ucast baud * ucast os)"
  have q: "unat q = unat src * 2 div (unat baud * unat os)" by (simp add: q_def unat_div_distrib p m)
  also have "\<dots> \<le> unat src * 2" by (rule div_le_dividend)
  finally have "unat q < 2 ^ 33" using b(1) by simp
  then have "unat (q + 1) = unat q + 1" by (simp add: unat_plus_small)
  then have h: "unat ((q + 1) div 2) = (unat src * 2 div (unat baud * unat os) + 1) div 2" using q by (simp add: unat_div_distrib)
  have "unat (lp_sbr soc ((q + 1) div 2)) =
      (if unat ((q + 1) div 2) = 0 then 1 else if 8191 < unat ((q + 1) div 2) then 8191 else unat ((q + 1) div 2))"
    by (simp add: lp_sbr_def assms(1) word_less_nat_alt word_unat_eq_iff del: unat_eq_zero)
  then show "unat (lp_sbr soc ((q + 1) div 2)) = lp_divider (unat baud) (unat src) (unat os)"
    unfolding h by (auto simp: lp_divider_def Let_def)
qed

lemma baud_step_error:
  assumes "lp_mask soc M_BAUD_SBR = 0x1FFF" "0 < unat baud" "4 \<le> unat os" "unat os \<le> 32"
  shows "\<exists>D s. lp_baud_step soc baud src os best = Some (if D \<le> fst best then (D, os, s) else best) \<and>
           unat s = lp_divider (unat baud) (unat src) (unat os) \<and> unat D = lp_error_at (unat baud) (unat src) (unat os)"
proof -
  let ?s = "lp_sbr soc ((ucast src * 2 div (ucast baud * ucast os) + 1) div 2)"
  let ?k = "lp_divider (unat baud) (unat src) (unat os)"
  note w = sbr_word [OF assms, of src]
  have s32: "unat (ucast ?s :: u32) = ?k" "unat (ucast ?s :: u16) = ?k"
    using divider_range(2) [of "unat baud" "unat src" "unat os"] w(2) by (simp_all add: unat_ucast_small)
  have "unat os * ?k \<le> 32 * 8191" using assms(4) divider_range(2) by (rule mult_le_mono)
  then have p: "unat (ucast os * ucast ?s :: u32) = unat os * ?k" by (simp add: unat_mult_small s32)
  have "0 < unat os * ?k" using assms(3) divider_range(1) [of "unat baud" "unat src" "unat os"] by simp
  then have nz: "(ucast os * ucast ?s :: u32) \<noteq> 0" using p by auto
  define c where "c = src div (ucast os * ucast ?s)"
  have c: "unat c = unat src div (unat os * ?k)" by (simp add: c_def unat_div_distrib p)
  define D where "D = (if baud < c then c - baud else baud - c)"
  have "unat D = lp_error_at (unat baud) (unat src) (unat os)"
    by (auto simp: D_def lp_rate_error_def Let_def c word_less_nat_alt unat_minus_small)
  moreover have w2: "c_div src (ucast os * ucast ?s) = Some c" using nz by (simp add: c_div_def c_def)
  have "lp_baud_step soc baud src os best = Some (if D \<le> fst best then (D, os, ucast ?s) else best)"
    unfolding lp_baud_step_def w(1) bind.bind_lunit Let_def w2 D_def by (rule refl)
  ultimately show ?thesis using s32(2) by blast
qed

text \<open>
  What the loop has found among the rates from 4 up to (not including) \<open>x\<close>: nothing within 100
  percent, or the best choice, the highest oversampling rate among equals.
\<close>

definition lp_found :: "nat \<Rightarrow> nat \<Rightarrow> nat \<Rightarrow> u32 \<times> u8 \<times> u16 \<Rightarrow> bool" where
  "lp_found baud src x best \<longleftrightarrow>
     (case best of (D, osr, sbr) \<Rightarrow>
        (unat D = baud \<and> osr = 0 \<and> sbr = 0 \<and> (\<forall>x'. 4 \<le> x' \<and> x' < x \<longrightarrow> baud < lp_error_at baud src x')) \<or>
        (4 \<le> unat osr \<and> unat osr < x \<and> unat sbr = lp_divider baud src (unat osr) \<and>
         unat D = lp_error_at baud src (unat osr) \<and> unat D \<le> baud \<and>
         (\<forall>x'. 4 \<le> x' \<and> x' < x \<longrightarrow> unat D \<le> lp_error_at baud src x' \<and> (unat osr < x' \<longrightarrow> unat D < lp_error_at baud src x'))))"

lemma found_step:
  assumes "lp_found baud src x (D0, o0, s0)" "4 \<le> x" "unat os = x" "unat s = lp_divider baud src x" "unat D = lp_error_at baud src x"
  shows "lp_found baud src (Suc x) (if D \<le> D0 then (D, os, s) else (D0, o0, s0))"
proof (cases "D \<le> D0")
  case True
  then have le: "unat D \<le> unat D0" by (simp add: word_le_nat_alt)
  have "unat D \<le> baud \<and> (\<forall>x'. 4 \<le> x' \<and> x' < x \<longrightarrow> unat D \<le> lp_error_at baud src x')"
    using assms(1) le unfolding lp_found_def prod.case by (meson order_trans less_imp_le order.strict_implies_order)
  then show ?thesis using True assms(2-5) by (auto simp: lp_found_def less_Suc_eq)
next
  case False
  then have "unat D0 < lp_error_at baud src x" using assms(5) by (simp add: word_le_nat_alt)
  then show ?thesis using False assms(1) by (auto simp: lp_found_def less_Suc_eq)
qed

lemma lp_loop_found:
  assumes "lp_mask soc M_BAUD_SBR = 0x1FFF" "0 < unat baud" "4 \<le> unat os" "unat os \<le> 33"
    "lp_found (unat baud) (unat src) (unat os) best"
  shows "\<exists>r. lp_baud_loop soc baud src os best = Some r \<and> lp_found (unat baud) (unat src) 33 r"
  using assms(3-)
proof (induction "33 - unat os" arbitrary: os best)
  case 0
  then have "\<not> os \<le> 32" "unat os = 33" by (simp_all add: word_le_nat_alt)
  with 0 show ?case by (auto simp: lp_baud_loop.simps [of soc baud src os])
next
  case (Suc k)
  have le: "unat os \<le> 32" using Suc(2) by simp
  then have u1: "unat (os + 1) = Suc (unat os)" by (simp add: unat_plus_small)
  obtain D0 o0 s0 where best: "best = (D0, o0, s0)" by (cases best)
  obtain D s where Ds: "lp_baud_step soc baud src os best = Some (if D \<le> D0 then (D, os, s) else best)"
    "unat s = lp_divider (unat baud) (unat src) (unat os)" "unat D = lp_error_at (unat baud) (unat src) (unat os)"
    using baud_step_error [OF assms(1,2) Suc(3) le, of src best] best by auto
  let ?b = "if D \<le> D0 then (D, os, s) else best"
  have "lp_found (unat baud) (unat src) (unat (os + 1)) ?b"
    unfolding u1 best using found_step [OF Suc(5) [unfolded best] Suc(3) refl Ds(2,3)] .
  then have "\<exists>r. lp_baud_loop soc baud src (os + 1) ?b = Some r \<and> lp_found (unat baud) (unat src) 33 r"
    using Suc(1) [of "os + 1" ?b] Suc(2,3) le u1 by simp
  moreover have "os \<le> 32" using le by (simp add: word_le_nat_alt)
  ultimately show ?case using Ds(1) by (simp add: lp_baud_loop.simps [of soc baud src os])
qed

lemma baud_search_found:
  assumes "lp_mask soc M_BAUD_SBR = 0x1FFF" "0 < unat baud"
  shows "\<exists>r. lp_baud_search soc baud src = Some r \<and> lp_found (unat baud) (unat src) 33 r"
  unfolding lp_baud_search_def using assms by (intro lp_loop_found) (simp_all add: lp_found_def)

subsection \<open>The registers\<close>

text \<open>The fields of BAUD as the reference manual lays them out.\<close>

definition lp_baud_layout :: "'d lpuart_soc \<Rightarrow> bool" where
  "lp_baud_layout soc \<longleftrightarrow>
     lp_mask soc M_BAUD_SBR = 0x1FFF \<and> lp_field soc V_BAUD_SBR = (\<lambda>v. v AND 0x1FFF) \<and>
     lp_mask soc M_BAUD_OSR = 0x1F000000 \<and> lp_field soc V_BAUD_OSR = (\<lambda>v. push_bit 24 v AND 0x1F000000) \<and>
     lp_mask soc M_BAUD_BOTHEDGE = 0x20000"

definition baud_osr :: "u32 \<Rightarrow> nat" where
  "baud_osr w = unat (drop_bit 24 (w AND 0x1F000000)) + 1"

definition baud_sbr :: "u32 \<Rightarrow> nat" where
  "baud_sbr w = unat (w AND 0x1FFF)"

lemma mask_numerals:
  "(0x1FFF :: u32) = mask 13" "(0x1F000000 :: u32) = push_bit 24 (mask 5)" "(0x20000 :: u32) = push_bit 17 1"
  by (simp_all add: mask_eq_exp_minus_1 push_bit_eq_mult)

lemma baud_fields:
  fixes t :: u32
  assumes "1 \<le> unat (osr :: u8)" "unat osr \<le> 32" "unat (sbr :: u16) \<le> 8191"
  defines "w \<equiv> ((t AND NOT 0x1F000000) OR (push_bit 24 (ucast osr - 1) AND 0x1F000000)) AND NOT 0x1FFF OR (ucast sbr AND 0x1FFF)"
  shows "baud_osr w = unat osr" "baud_sbr w = unat sbr" "w AND NOT 0x1F001FFF = t AND NOT 0x1F001FFF"
proof -
  have o1: "unat (ucast osr - 1 :: u32) = unat osr - 1" using assms(1) by (simp add: unat_minus_small)
  have "take_bit 5 (unat osr - 1) = unat osr - 1" using assms(2) by (intro take_bit_nat_eq_self) simp
  then have o2: "unat (take_bit 5 (ucast osr - 1 :: u32)) = unat osr - 1" by (simp only: unsigned_take_bit_eq o1)
  have "drop_bit 24 (w AND 0x1F000000) = take_bit 5 (ucast osr - 1 :: u32)"
    unfolding w_def mask_numerals by (rule bit_word_eqI) (auto simp: bit_simps)
  then show "baud_osr w = unat osr" using o2 assms(1) by (simp add: baud_osr_def)
  have "w AND 0x1FFF = take_bit 13 (ucast sbr :: u32)"
    unfolding w_def mask_numerals by (rule bit_word_eqI) (auto simp: bit_simps)
  moreover have "unat (take_bit 13 (ucast sbr :: u32)) = unat sbr"
    using assms(3) by (simp add: unsigned_take_bit_eq take_bit_nat_eq_self)
  ultimately show "baud_sbr w = unat sbr" by (simp add: baud_sbr_def)
  have n: "(0x1F001FFF :: u32) = push_bit 24 (mask 5) OR mask 13" by (simp add: mask_eq_exp_minus_1 push_bit_eq_mult)
  show "w AND NOT 0x1F001FFF = t AND NOT 0x1F001FFF"
    unfolding w_def n mask_numerals by (rule bit_word_eqI) (auto simp: bit_simps)
qed

lemma write_baud_value:
  assumes "ram_like soc M view" "M P_BAUD = - 1" "lp_baud_layout soc" "4 \<le> unat osr" "unat osr \<le> 32" "unat sbr \<le> 8191"
  shows "view (lp_write_baud soc osr sbr d) = (view d)(P_BAUD := view (lp_write_baud soc osr sbr d) P_BAUD)"
    "baud_osr (view (lp_write_baud soc osr sbr d) P_BAUD) = unat osr"
    "baud_sbr (view (lp_write_baud soc osr sbr d) P_BAUD) = unat sbr"
    "view (lp_write_baud soc osr sbr d) P_BAUD AND NOT 0x1F001FFF =
       (if unat osr < 8 then view d P_BAUD OR 0x20000 else view d P_BAUD) AND NOT 0x1F001FFF"
proof -
  let ?t = "if unat osr < 8 then view d P_BAUD OR 0x20000 else view d P_BAUD"
  let ?w = "((?t AND NOT 0x1F000000) OR (push_bit 24 (ucast osr - 1) AND 0x1F000000)) AND NOT 0x1FFF OR (ucast sbr AND 0x1FFF)"
  have t: "(3 < osr \<and> osr < 8) = (unat osr < 8)" using assms(4) by (simp add: word_less_nat_alt)
  have w: "view (lp_write_baud soc osr sbr d) = (view d)(P_BAUD := ?w)"
    using assms(1-3) unfolding lp_baud_layout_def lp_write_baud_def t by (simp add: io_ram Let_def fun_eq_iff)
  have "1 \<le> unat osr" using assms(4) by simp
  note f = baud_fields [OF this assms(5,6), of ?t]
  show "view (lp_write_baud soc osr sbr d) = (view d)(P_BAUD := view (lp_write_baud soc osr sbr d) P_BAUD)"
    "baud_osr (view (lp_write_baud soc osr sbr d) P_BAUD) = unat osr"
    "baud_sbr (view (lp_write_baud soc osr sbr d) P_BAUD) = unat sbr"
    "view (lp_write_baud soc osr sbr d) P_BAUD AND NOT 0x1F001FFF = ?t AND NOT 0x1F001FFF"
    unfolding w using f by simp_all
qed

lemma low_percent: "unat (baud div 100 * 3 :: u32) = unat baud div 100 * 3"
proof -
  have "unat baud div 100 * 3 \<le> unat baud" by simp
  moreover have "unat baud < 2 ^ 32" using unsigned_less [of baud, where ?'a = nat] by simp
  ultimately show ?thesis by (simp add: unat_mult_small unat_div_distrib)
qed

text \<open>C38: setting the baud rate of an LPUART. For every rate other than 0 and every clock the function
  returns. It succeeds exactly when some oversampling rate from 4 to 32, with its rounded divider, is
  off by less than the bound the code computes, the integer \<open>baud / 100 * 3\<close>; this is at most three
  percent, and 0 below 100 baud, so that every rate below 100 is refused, even one the clock gives
  exactly. On success BAUD holds the oversampling rate and divider with the smallest error (the
  highest such oversampling rate), sampling on both edges is switched on below 8, the other bits of
  BAUD are as before and so are the bits of every other register that hold what is written to
  them, CTRL included. Otherwise the device is not touched.\<close>

theorem lpuart_set_baud_rate:
  fixes view :: "'d \<Rightarrow> lpuart_reg \<Rightarrow> u32" and baud src :: u32
  assumes "ram_like soc M view" "M P_BAUD = - 1 \<and> M P_CTRL = - 1" "lp_baud_layout soc" "0 < baud"
  defines "err \<equiv> lp_error_at (unat baud) (unat src)" and "allowed \<equiv> unat baud div 100 * 3"
  shows "\<exists>st d'. LPUART_SetBaudRate soc baud src d = Some (st, d') \<and>
           (st = kStatus_Success \<longleftrightarrow> (\<exists>x. 4 \<le> x \<and> x \<le> 32 \<and> err x < allowed)) \<and>
           (unat baud < 100 \<longrightarrow> st \<noteq> kStatus_Success) \<and>
           (st \<noteq> kStatus_Success \<longrightarrow> st = kStatus_LPUART_BaudrateNotSupport \<and> d' = d) \<and>
           (st = kStatus_Success \<longrightarrow>
              (\<exists>os. baud_osr (view d' P_BAUD) = os \<and> 4 \<le> os \<and> os \<le> 32 \<and>
                 baud_sbr (view d' P_BAUD) = lp_divider (unat baud) (unat src) os \<and>
                 (\<forall>x. 4 \<le> x \<and> x \<le> 32 \<longrightarrow> err os \<le> err x \<and> (os < x \<longrightarrow> err os < err x)) \<and>
                 view d' P_BAUD AND NOT 0x1F001FFF =
                   (if os < 8 then view d P_BAUD OR 0x20000 else view d P_BAUD) AND NOT 0x1F001FFF \<and>
                 (\<forall>r. r \<noteq> P_BAUD \<longrightarrow> view d' r = view d r)))"
proof -
  have mask: "lp_mask soc M_BAUD_SBR = 0x1FFF" using assms(3) by (simp add: lp_baud_layout_def)
  have b0: "0 < unat baud" using assms(4) by (simp add: word_less_nat_alt)
  obtain D osr sbr where s: "lp_baud_search soc baud src = Some (D, osr, sbr)" "lp_found (unat baud) (unat src) 33 (D, osr, sbr)"
    using baud_search_found [OF mask b0, of src] by auto
  have ok: "(D < baud div 100 * 3) = (unat D < allowed)" by (simp add: word_less_nat_alt low_percent allowed_def)
  have R: "M P_BAUD = - 1" "M P_CTRL = - 1" using assms(2) by simp_all
  have al: "allowed \<le> unat baud" by (simp add: allowed_def)
  have ne: "kStatus_LPUART_BaudrateNotSupport \<noteq> kStatus_Success" by (simp add: lpuart_status_defs)
  show ?thesis
  proof (cases "unat D < allowed")
    case True
    then have f: "4 \<le> unat osr" "unat osr \<le> 32" "unat sbr = lp_divider (unat baud) (unat src) (unat osr)"
      "unat D = err (unat osr)" "\<And>x. 4 \<le> x \<Longrightarrow> x \<le> 32 \<Longrightarrow> err (unat osr) \<le> err x \<and> (unat osr < x \<longrightarrow> err (unat osr) < err x)"
      using s(2) al unfolding lp_found_def prod.case err_def by auto
    let ?d1 = "reg_clear soc P_CTRL (lp_mask soc M_CTRL_TE OR lp_mask soc M_CTRL_RE) d"
    let ?d' = "reg_write soc P_CTRL (view d P_CTRL) (lp_write_baud soc osr sbr ?d1)"
    have sb: "unat sbr \<le> 8191" using f(3) divider_range(2) by simp
    note w = write_baud_value [OF assms(1) R(1) assms(3) f(1,2) sb, of ?d1]
    have v: "view ?d' P_BAUD = view (lp_write_baud soc osr sbr ?d1) P_BAUD" "view ?d1 P_BAUD = view d P_BAUD"
      using assms(1) R by (simp_all add: io_ram)
    have "view ?d' r = view d r" if "r \<noteq> P_BAUD" for r
    proof -
      have "view (lp_write_baud soc osr sbr ?d1) r = view ?d1 r" using fun_cong [OF w(1), of r] that by simp
      then show ?thesis using assms(1) R by (simp add: io_ram)
    qed
    moreover have "LPUART_SetBaudRate soc baud src d = Some (kStatus_Success, ?d')"
      using assms(1,4) R True ok by (simp add: LPUART_SetBaudRate_def s(1) io_ram)
    moreover have "\<exists>x. 4 \<le> x \<and> x \<le> 32 \<and> err x < allowed" using f(1,2,4) True by auto
    moreover have "\<not> unat baud < 100" using True by (auto simp: allowed_def)
    ultimately show ?thesis using w(2-4) f v
      by (intro exI [of _ kStatus_Success] exI [of _ ?d'] conjI) auto
  next
    case False
    then have "LPUART_SetBaudRate soc baud src d = Some (kStatus_LPUART_BaudrateNotSupport, d)"
      using assms(4) ok by (simp add: LPUART_SetBaudRate_def s(1))
    moreover have "\<not> (\<exists>x. 4 \<le> x \<and> x \<le> 32 \<and> err x < allowed)"
      using s(2) False al unfolding lp_found_def prod.case err_def by (auto simp: not_less; fastforce)
    ultimately show ?thesis using ne by blast
  qed
qed

text \<open>
  A register file with the masks of the reference manual, in which the overflow flags of FIFO are
  cleared by writing 1 to them; \<open>lp_plain\<close> are the bits that hold what is written.
\<close>

fun lp_manual_mask :: "lpuart_mask \<Rightarrow> u32" where
  "lp_manual_mask M_BAUD_SBR = 0x1FFF" | "lp_manual_mask M_BAUD_OSR = 0x1F000000" | "lp_manual_mask M_BAUD_BOTHEDGE = 0x20000"
| "lp_manual_mask M_BAUD_RXEDGIE = 2 ^ 14" | "lp_manual_mask M_BAUD_LBKDIE = 2 ^ 15" | "lp_manual_mask M_BAUD_M10 = 2 ^ 29"
| "lp_manual_mask M_FIFO_RXUFE = 2 ^ 8" | "lp_manual_mask M_FIFO_TXOFE = 2 ^ 9" | "lp_manual_mask M_FIFO_RXUF = 2 ^ 16"
| "lp_manual_mask M_FIFO_TXOF = 2 ^ 17" | "lp_manual_mask M_CTRL_RE = 2 ^ 18" | "lp_manual_mask M_CTRL_TE = 2 ^ 19"
| "lp_manual_mask M_CTRL_ILIE = 2 ^ 20" | "lp_manual_mask M_CTRL_RIE = 2 ^ 21" | "lp_manual_mask M_CTRL_TCIE = 2 ^ 22"
| "lp_manual_mask M_CTRL_TIE = 2 ^ 23" | "lp_manual_mask M_CTRL_PEIE = 2 ^ 24" | "lp_manual_mask M_CTRL_FEIE = 2 ^ 25"
| "lp_manual_mask M_CTRL_NEIE = 2 ^ 26" | "lp_manual_mask M_CTRL_ORIE = 2 ^ 27" | "lp_manual_mask M_CTRL_MA1IE = 2 ^ 15"
| "lp_manual_mask M_CTRL_MA2IE = 2 ^ 14" | "lp_manual_mask _ = 0"

fun lp_manual_field :: "lpuart_field \<Rightarrow> u32 \<Rightarrow> u32" where
  "lp_manual_field V_BAUD_OSR = (\<lambda>v. push_bit 24 v AND 0x1F000000)"
| "lp_manual_field V_BAUD_SBR = (\<lambda>v. v AND 0x1FFF)"
| "lp_manual_field _ = (\<lambda>v. v)"

definition lp_regs :: "(lpuart_feature \<Rightarrow> bool) \<Rightarrow> (lpuart_reg \<Rightarrow> u32) lpuart_soc" where
  "lp_regs has =
     \<lparr>reg_read = \<lambda>r d. (d r, d),
      reg_write = \<lambda>r v d. d(r := if r = P_FIFO then (v AND NOT 0x30000) OR (d r AND NOT v AND 0x30000) else v),
      lp_mask = lp_manual_mask, lp_field = lp_manual_field,
      lp_has = has, WATER_TXCOUNT_SHIFT = 8, WATER_TXWATER_SHIFT = 0, WATER_RXCOUNT_SHIFT = 24, DATA_R8T8_SHIFT = 8,
      FIFO_SIZEn = 4, RETRY_TIMES = 0, lpuart_bases = [0x40000000], lpuart_cmse = False, lp_EnableClock = \<lambda>_ _ d. d,
      lp_DisableClock = \<lambda>_ _ d. d, lp_ReleaseReset = \<lambda>_ d. d, lp_EnableIRQ = \<lambda>_ _ d. d, lp_invoke = \<lambda>_ _ _ s. Some s\<rparr>"

definition lp_plain :: "lpuart_reg \<Rightarrow> u32" where
  "lp_plain r = (if r = P_BAUD \<or> r = P_CTRL then - 1 else if r = P_FIFO then 0x300 else 0)"

lemma lp_regs_ok: "ram_like (lp_regs has) lp_plain (\<lambda>d r. d r AND lp_plain r)" "lp_baud_layout (lp_regs has)"
proof -
  have "((v AND NOT 0x30000) OR (x AND NOT v AND 0x30000)) AND 0x300 = v AND 0x300" for v x :: u32
    by (simp add: bit.conj_disj_distrib2 and.assoc)
  then show "ram_like (lp_regs has) lp_plain (\<lambda>d r. d r AND lp_plain r)"
    by (simp add: ram_like_def lp_regs_def lp_plain_def fun_eq_iff)
qed (simp add: lp_baud_layout_def lp_regs_def fun_eq_iff)

theorem lpuart_set_baud_rate_witness:
  "\<exists>d'. LPUART_SetBaudRate (lp_regs (\<lambda>_. False)) 115200 24000000 (\<lambda>_. 0) = Some (kStatus_Success, d') \<and>
     4 \<le> baud_osr (d' P_BAUD) \<and> lp_error_at 115200 24000000 (baud_osr (d' P_BAUD)) \<le> lp_error_at 115200 24000000 16"
proof -
  have p: "lp_plain P_BAUD = - 1 \<and> lp_plain P_CTRL = - 1" "(0 :: u32) < 115200" by (simp_all add: lp_plain_def)
  from lpuart_set_baud_rate [OF lp_regs_ok(1) p(1) lp_regs_ok(2) p(2), of "\<lambda>_. False" 24000000 "\<lambda>_. 0"] obtain st d' where
    t: "LPUART_SetBaudRate (lp_regs (\<lambda>_. False)) 115200 24000000 (\<lambda>_. 0) = Some (st, d')"
      "st = kStatus_Success \<longleftrightarrow> (\<exists>x. 4 \<le> x \<and> x \<le> 32 \<and> lp_error_at 115200 24000000 x < 115200 div 100 * 3)"
      "st = kStatus_Success \<Longrightarrow> 4 \<le> baud_osr (d' P_BAUD) \<and>
         (\<forall>x. 4 \<le> x \<and> x \<le> 32 \<longrightarrow> lp_error_at 115200 24000000 (baud_osr (d' P_BAUD)) \<le> lp_error_at 115200 24000000 x)"
    using p(1) by auto
  have "lp_error_at 115200 24000000 16 < 115200 div 100 * 3" by (simp add: lp_rate_error_def lp_divider_def Let_def)
  then have "st = kStatus_Success" unfolding t(2) by (intro exI [of _ 16]) simp
  with t(1,3) show ?thesis by auto
qed

subsection \<open>Rates below 100\<close>

text \<open>
  For rates below 100 the allowed error is 0. \<open>LPUART_SetBaudRate\<close> asks for less than that and
  rejects every such rate, even one that the clock gives exactly; \<open>LPUART_Init\<close> accepts those.
\<close>

lemma set_baud_rate_low:
  assumes "lp_mask soc M_BAUD_SBR = 0x1FFF" "0 < baud" "baud < 100"
  shows "LPUART_SetBaudRate soc baud src d = Some (kStatus_LPUART_BaudrateNotSupport, d)"
proof -
  have "0 < unat baud" using assms(2) by (simp add: word_less_nat_alt)
  then obtain D osr sbr where "lp_baud_search soc baud src = Some (D, osr, sbr)"
    using baud_search_found [OF assms(1), of baud src] by auto
  moreover have "unat baud div 100 = 0" using assms(3) by (simp add: word_less_nat_alt)
  then have "baud div 100 = 0" by (simp add: word_unat_eq_iff unat_div_distrib)
  ultimately show ?thesis using assms(2) by (simp add: LPUART_SetBaudRate_def)
qed

lemma init_accepts_low:
  "\<exists>d'. LPUART_Init (lp_regs (\<lambda>_. False)) 0x40000000 (LPUART_GetDefaultConfig\<lparr>baudRate_Bps := 50\<rparr>) 13105600 d =
     Some (kStatus_Success, d')"
proof -
  have "lp_baud_search (lp_regs (\<lambda>_. False)) 50 13105600 = Some (0, 32, 8191)" by code_simp
  then show ?thesis
    by (simp add: LPUART_Init_def lp_init_device_def lp_init_clocks_def LPUART_GetDefaultConfig_def case_prod_beta Let_def)
       (simp add: lp_regs_def)
qed

end
