(* ===== verification/Lpuart_Config.thy ===== *)
theory Lpuart_Config
  imports Lpuart_Baud Lpuart_Transfer
begin

text \<open>
  The interrupt enables of the LPUART, which are spread over CTRL, BAUD and FIFO, as one set of
  bits; and what the idle-line handler does to a ring buffer.
\<close>

subsection \<open>Interrupt enables\<close>

text \<open>The bit numbers in the comments of \<open>_lpuart_interrupt_enable\<close>.\<close>

definition lp_int_layout :: "'d lpuart_soc \<Rightarrow> bool" where
  "lp_int_layout soc \<longleftrightarrow>
     lp_mask soc M_BAUD_LBKDIE = 2 ^ 15 \<and> lp_mask soc M_BAUD_RXEDGIE = 2 ^ 14 \<and> lp_mask soc M_CTRL_TIE = 2 ^ 23 \<and>
     lp_mask soc M_CTRL_TCIE = 2 ^ 22 \<and> lp_mask soc M_CTRL_RIE = 2 ^ 21 \<and> lp_mask soc M_CTRL_ILIE = 2 ^ 20 \<and>
     lp_mask soc M_CTRL_ORIE = 2 ^ 27 \<and> lp_mask soc M_CTRL_NEIE = 2 ^ 26 \<and> lp_mask soc M_CTRL_FEIE = 2 ^ 25 \<and>
     lp_mask soc M_CTRL_PEIE = 2 ^ 24 \<and> lp_mask soc M_CTRL_MA1IE = 2 ^ 15 \<and> lp_mask soc M_CTRL_MA2IE = 2 ^ 14 \<and>
     lp_mask soc M_FIFO_TXOFE = 2 ^ 9 \<and> lp_mask soc M_FIFO_RXUFE = 2 ^ 8 \<and> lp_mask soc M_FIFO_TXOF = 2 ^ 17 \<and>
     lp_mask soc M_FIFO_RXUF = 2 ^ 16"

definition lp_ctrl_ints :: "'d lpuart_soc \<Rightarrow> nat set" where
  "lp_ctrl_ints soc = {20, 21, 22, 23, 24, 25, 26, 27} \<union> (if lp_has soc HAS_ADDRESS_MATCHING then {14, 15} else {})"

lemma layout_bits:
  assumes "lp_int_layout soc"
  shows "bit (lp_mask soc M_BAUD_LBKDIE) n = (n = 15)" "bit (lp_mask soc M_BAUD_RXEDGIE) n = (n = 14)"
    "bit (lp_mask soc M_CTRL_TIE) n = (n = 23)" "bit (lp_mask soc M_CTRL_TCIE) n = (n = 22)"
    "bit (lp_mask soc M_CTRL_RIE) n = (n = 21)" "bit (lp_mask soc M_CTRL_ILIE) n = (n = 20)"
    "bit (lp_mask soc M_CTRL_ORIE) n = (n = 27)" "bit (lp_mask soc M_CTRL_NEIE) n = (n = 26)"
    "bit (lp_mask soc M_CTRL_FEIE) n = (n = 25)" "bit (lp_mask soc M_CTRL_PEIE) n = (n = 24)"
    "bit (lp_mask soc M_CTRL_MA1IE) n = (n = 15)" "bit (lp_mask soc M_CTRL_MA2IE) n = (n = 14)"
    "bit (lp_mask soc M_FIFO_TXOFE) n = (n = 9)" "bit (lp_mask soc M_FIFO_RXUFE) n = (n = 8)"
    "bit (lp_mask soc M_FIFO_TXOF) n = (n = 17)" "bit (lp_mask soc M_FIFO_RXUF) n = (n = 16)"
proof -
  have e: "bit w n = (n = k)" if "w = 2 ^ k" "k < 32" for w :: u32 and k using that by (auto simp: bit_simps)
  note l = assms [unfolded lp_int_layout_def]
  show "bit (lp_mask soc M_BAUD_LBKDIE) n = (n = 15)" "bit (lp_mask soc M_BAUD_RXEDGIE) n = (n = 14)"
    "bit (lp_mask soc M_CTRL_TIE) n = (n = 23)" "bit (lp_mask soc M_CTRL_TCIE) n = (n = 22)"
    "bit (lp_mask soc M_CTRL_RIE) n = (n = 21)" "bit (lp_mask soc M_CTRL_ILIE) n = (n = 20)"
    "bit (lp_mask soc M_CTRL_ORIE) n = (n = 27)" "bit (lp_mask soc M_CTRL_NEIE) n = (n = 26)"
    "bit (lp_mask soc M_CTRL_FEIE) n = (n = 25)" "bit (lp_mask soc M_CTRL_PEIE) n = (n = 24)"
    "bit (lp_mask soc M_CTRL_MA1IE) n = (n = 15)" "bit (lp_mask soc M_CTRL_MA2IE) n = (n = 14)"
    "bit (lp_mask soc M_FIFO_TXOFE) n = (n = 9)" "bit (lp_mask soc M_FIFO_RXUFE) n = (n = 8)"
    "bit (lp_mask soc M_FIFO_TXOF) n = (n = 17)" "bit (lp_mask soc M_FIFO_RXUF) n = (n = 16)"
    by (rule e, use l in blast, simp)+
qed

lemma all_interrupts_bit:
  assumes "lp_int_layout soc"
  shows "bit (kLPUART_AllInterruptEnable soc) n \<longleftrightarrow>
     n \<in> lp_ctrl_ints soc \<or> n = 6 \<or> (lp_has soc HAS_LIN_BREAK_DETECT \<and> n = 7) \<or> (lp_has soc HAS_FIFO \<and> (n = 8 \<or> n = 9))"
  unfolding kLPUART_AllInterruptEnable_def lp_ctrl_ints_def lp_opt_def
  by (auto simp: bit_simps layout_bits [OF assms])

lemma ctrl_ints_range: "n \<in> lp_ctrl_ints soc \<Longrightarrow> n < 32 \<and> n \<noteq> 6 \<and> n \<noteq> 7 \<and> n \<noteq> 8 \<and> n \<noteq> 9"
  by (auto simp: lp_ctrl_ints_def split: if_splits)

text \<open>Where the enable bit of an interrupt is kept.\<close>

definition lp_enabled_bit :: "'d lpuart_soc \<Rightarrow> (lpuart_reg \<Rightarrow> u32) \<Rightarrow> nat \<Rightarrow> bool" where
  "lp_enabled_bit soc regs n =
     (if n = 6 then bit (regs P_BAUD) 14
      else if n = 7 then lp_has soc HAS_LIN_BREAK_DETECT \<and> bit (regs P_BAUD) 15
      else if n = 8 \<or> n = 9 then lp_has soc HAS_FIFO \<and> bit (regs P_FIFO) n
      else n \<in> lp_ctrl_ints soc \<and> bit (regs P_CTRL) n)"

text \<open>
  The enable bits are plain register bits: all of BAUD and CTRL, and of FIFO at least the two enables.
  Nothing is said about the flags of FIFO, which are cleared by writing 1.
\<close>

definition lp_fifo_ints :: "'d lpuart_soc \<Rightarrow> u32" where
  "lp_fifo_ints soc = lp_mask soc M_FIFO_TXOFE OR lp_mask soc M_FIFO_RXUFE"

definition lp_fifo_flags :: "'d lpuart_soc \<Rightarrow> u32" where
  "lp_fifo_flags soc = lp_mask soc M_FIFO_TXOF OR lp_mask soc M_FIFO_RXUF"

definition lp_enables_plain :: "'d lpuart_soc \<Rightarrow> (lpuart_reg \<Rightarrow> u32) \<Rightarrow> ('d \<Rightarrow> lpuart_reg \<Rightarrow> u32) \<Rightarrow> bool" where
  "lp_enables_plain soc M view \<longleftrightarrow>
     ram_like soc M view \<and> M P_BAUD = - 1 \<and> M P_CTRL = - 1 \<and> M P_FIFO AND lp_fifo_ints soc = lp_fifo_ints soc"

lemma lp_enables_plainD:
  assumes "lp_enables_plain soc M view"
  shows "ram_like soc M view" "M P_BAUD = - 1" "M P_CTRL = - 1"
  using assms by (simp_all add: lp_enables_plain_def)

lemma fifo_bits:
  assumes "lp_enables_plain soc M view" "lp_int_layout soc"
  shows "bit (M P_FIFO) 8" "bit (M P_FIFO) 9" "M P_FIFO \<noteq> 0"
    and "n = 8 \<or> n = 9 \<Longrightarrow> bit (fst (reg_read soc P_FIFO d)) n = bit (view d P_FIFO) n"
    and "snd (reg_read soc P_FIFO d) = d"
proof -
  have "bit (M P_FIFO AND lp_fifo_ints soc) n = bit (lp_fifo_ints soc) n" for n
    using assms(1) by (simp add: lp_enables_plain_def)
  then have m: "n = 8 \<or> n = 9 \<Longrightarrow> bit (M P_FIFO) n" for n
    by (auto simp: lp_fifo_ints_def bit_simps layout_bits [OF assms(2)])
  then show "bit (M P_FIFO) 8" "bit (M P_FIFO) 9" by simp_all
  then show nz: "M P_FIFO \<noteq> 0" by auto
  note r = ram_like_bits [OF lp_enables_plainD(1) [OF assms(1)] nz]
  show "snd (reg_read soc P_FIFO d) = d" by (rule r(1))
  show "n = 8 \<or> n = 9 \<Longrightarrow> bit (fst (reg_read soc P_FIFO d)) n = bit (view d P_FIFO) n"
    using r(2) [of d] m [of n] by (metis bit_and_iff)
qed

lemma enabled_interrupts_bit:
  assumes "lp_enables_plain soc M view" "lp_int_layout soc"
  shows "bit (fst (LPUART_GetEnabledInterrupts soc d)) n = lp_enabled_bit soc (view d) n"
  unfolding LPUART_GetEnabledInterrupts_def lp_enabled_bit_def
  using ctrl_ints_range [of n soc]
  by (cases "lp_has soc HAS_LIN_BREAK_DETECT"; cases "lp_has soc HAS_FIFO")
     (auto simp: ram_like_read [OF lp_enables_plainD(1) [OF assms(1)]] lp_enables_plainD(2,3) [OF assms(1)] bit_simps
       all_interrupts_bit [OF assms(2)] layout_bits [OF assms(2)] fifo_bits [OF assms] case_prod_beta)

lemma split_mask_bits:
  assumes "lp_int_layout soc"
  shows "bit (fst (lp_split_mask soc m)) 14 = bit m 6"
    "bit (fst (lp_split_mask soc m)) 15 = (lp_has soc HAS_LIN_BREAK_DETECT \<and> bit m 7)"
    "bit (snd (lp_split_mask soc m)) n =
       (bit m n \<and> (n \<in> lp_ctrl_ints soc \<or> (lp_has soc HAS_FIFO \<and> (n = 8 \<or> n = 9))))"
  using ctrl_ints_range [of n soc] ctrl_ints_range [of 6 soc] ctrl_ints_range [of 7 soc]
  by (auto simp: lp_split_mask_def Let_def bit_simps all_interrupts_bit [OF assms] layout_bits [OF assms])

lemma enable_registers:
  assumes "lp_enables_plain soc M view" "lp_int_layout soc"
  shows "view (lp_dev (LPUART_EnableInterrupts soc m s)) = (view (lp_dev s))
     (P_BAUD := view (lp_dev s) P_BAUD OR fst (lp_split_mask soc m),
      P_FIFO := (if lp_has soc HAS_FIFO
                 then (view (lp_dev s) P_FIFO AND NOT (lp_fifo_flags soc)) OR ((snd (lp_split_mask soc m) AND lp_fifo_ints soc) AND M P_FIFO)
                 else view (lp_dev s) P_FIFO),
      P_CTRL := view (lp_dev s) P_CTRL OR
                (if lp_has soc HAS_FIFO then snd (lp_split_mask soc m) AND NOT (lp_fifo_ints soc) else snd (lp_split_mask soc m)))"
    "view (lp_dev (LPUART_DisableInterrupts soc m s)) = (view (lp_dev s))
     (P_BAUD := view (lp_dev s) P_BAUD AND NOT (fst (lp_split_mask soc m)),
      P_FIFO := (if lp_has soc HAS_FIFO
                 then view (lp_dev s) P_FIFO AND NOT (lp_fifo_flags soc) AND NOT (snd (lp_split_mask soc m) AND lp_fifo_ints soc)
                 else view (lp_dev s) P_FIFO),
      P_CTRL := view (lp_dev s) P_CTRL AND NOT
                (if lp_has soc HAS_FIFO then snd (lp_split_mask soc m) AND NOT (lp_fifo_ints soc) else snd (lp_split_mask soc m)))"
proof -
  note p = lp_enables_plainD [OF assms(1)]
  note nz = fifo_bits(3) [OF assms]
  have e: "view (reg_write soc P_FIFO (fst (reg_read soc P_FIFO d) AND NOT y OR z) d) =
      (view d)(P_FIFO := (view d P_FIFO AND NOT y) OR (z AND M P_FIFO))"
    "view (reg_write soc P_FIFO (fst (reg_read soc P_FIFO d) AND NOT y AND NOT z) d) =
      (view d)(P_FIFO := view d P_FIFO AND NOT y AND NOT z)" for y z d
    unfolding ram_like_bits(3) [OF p(1) nz] ram_like_bits(2) [OF p(1) nz, symmetric]
    by (auto simp: fun_eq_iff bit_eq_iff bit_simps)
  show "view (lp_dev (LPUART_EnableInterrupts soc m s)) = (view (lp_dev s))
     (P_BAUD := view (lp_dev s) P_BAUD OR fst (lp_split_mask soc m),
      P_FIFO := (if lp_has soc HAS_FIFO
                 then (view (lp_dev s) P_FIFO AND NOT (lp_fifo_flags soc)) OR ((snd (lp_split_mask soc m) AND lp_fifo_ints soc) AND M P_FIFO)
                 else view (lp_dev s) P_FIFO),
      P_CTRL := view (lp_dev s) P_CTRL OR
                (if lp_has soc HAS_FIFO then snd (lp_split_mask soc m) AND NOT (lp_fifo_ints soc) else snd (lp_split_mask soc m)))"
    unfolding LPUART_EnableInterrupts_def lp_fifo_ints_def [symmetric] lp_fifo_flags_def [symmetric]
    by (auto simp: case_prod_beta Let_def ram_like_set [OF p(1)] p(2,3) fifo_bits(5) [OF assms] e fun_eq_iff
        simp del: bit.de_Morgan_conj bit.de_Morgan_disj)
  show "view (lp_dev (LPUART_DisableInterrupts soc m s)) = (view (lp_dev s))
     (P_BAUD := view (lp_dev s) P_BAUD AND NOT (fst (lp_split_mask soc m)),
      P_FIFO := (if lp_has soc HAS_FIFO
                 then view (lp_dev s) P_FIFO AND NOT (lp_fifo_flags soc) AND NOT (snd (lp_split_mask soc m) AND lp_fifo_ints soc)
                 else view (lp_dev s) P_FIFO),
      P_CTRL := view (lp_dev s) P_CTRL AND NOT
                (if lp_has soc HAS_FIFO then snd (lp_split_mask soc m) AND NOT (lp_fifo_ints soc) else snd (lp_split_mask soc m)))"
    unfolding LPUART_DisableInterrupts_def lp_fifo_ints_def [symmetric] lp_fifo_flags_def [symmetric]
    by (auto simp: case_prod_beta Let_def ram_like_clear [OF p(1)] p(2,3) fifo_bits(5) [OF assms] e fun_eq_iff
        simp del: bit.de_Morgan_conj bit.de_Morgan_disj)
qed

lemma interrupt_switch_keeps [simp]:
  "lp_handle (LPUART_EnableInterrupts soc m s) = lp_handle s" "lp_handle (LPUART_DisableInterrupts soc m s) = lp_handle s"
  "lp_primask (LPUART_EnableInterrupts soc m s) = lp_primask s" "lp_primask (LPUART_DisableInterrupts soc m s) = lp_primask s"
  by (simp_all add: LPUART_EnableInterrupts_def LPUART_DisableInterrupts_def case_prod_beta Let_def)

text \<open>C39: the interrupt enables of the LPUART behave as one set, although they are kept in three
  registers and depend on the features of the device. After \<open>LPUART_EnableInterrupts\<close> exactly the
  interrupts of the mask are enabled besides the old ones, after \<open>LPUART_DisableInterrupts\<close> exactly
  the old ones outside the mask, bits that are not interrupt enables are ignored and stay as they
  are in CTRL, and the interrupt mask of the core is restored. BAUD, CTRL and the two enable bits of
  FIFO are taken to hold what is written to them; the flags of FIFO may be of any kind.\<close>

theorem lpuart_interrupt_enables:
  assumes "lp_enables_plain soc M view" "lp_int_layout soc"
  shows "fst (LPUART_GetEnabledInterrupts soc (lp_dev (LPUART_EnableInterrupts soc m s))) =
           fst (LPUART_GetEnabledInterrupts soc (lp_dev s)) OR (m AND kLPUART_AllInterruptEnable soc) \<and>
         fst (LPUART_GetEnabledInterrupts soc (lp_dev (LPUART_DisableInterrupts soc m s))) =
           fst (LPUART_GetEnabledInterrupts soc (lp_dev s)) AND NOT m \<and>
         view (lp_dev (LPUART_EnableInterrupts soc m s)) P_CTRL AND NOT (kLPUART_AllInterruptEnable soc) =
           view (lp_dev s) P_CTRL AND NOT (kLPUART_AllInterruptEnable soc) \<and>
         view (lp_dev (LPUART_DisableInterrupts soc m s)) P_CTRL AND NOT (kLPUART_AllInterruptEnable soc) =
           view (lp_dev s) P_CTRL AND NOT (kLPUART_AllInterruptEnable soc) \<and>
         lp_primask (LPUART_EnableInterrupts soc m s) = lp_primask s \<and>
         lp_primask (LPUART_DisableInterrupts soc m s) = lp_primask s"
proof (intro conjI)
  note r = enable_registers [OF assms]
  note b = bit_simps all_interrupts_bit [OF assms(2)] layout_bits [OF assms(2)] split_mask_bits [OF assms(2)]
    enabled_interrupts_bit [OF assms] lp_enabled_bit_def lp_fifo_ints_def lp_fifo_flags_def fifo_bits(1,2) [OF assms]
  show "fst (LPUART_GetEnabledInterrupts soc (lp_dev (LPUART_EnableInterrupts soc m s))) =
           fst (LPUART_GetEnabledInterrupts soc (lp_dev s)) OR (m AND kLPUART_AllInterruptEnable soc)"
    by (rule bit_word_eqI) (use ctrl_ints_range in \<open>auto simp: b r\<close>)
  show "fst (LPUART_GetEnabledInterrupts soc (lp_dev (LPUART_DisableInterrupts soc m s))) =
           fst (LPUART_GetEnabledInterrupts soc (lp_dev s)) AND NOT m"
    by (rule bit_word_eqI) (use ctrl_ints_range in \<open>auto simp: b r\<close>)
  show "view (lp_dev (LPUART_EnableInterrupts soc m s)) P_CTRL AND NOT (kLPUART_AllInterruptEnable soc) =
           view (lp_dev s) P_CTRL AND NOT (kLPUART_AllInterruptEnable soc)"
    by (rule bit_word_eqI) (auto simp: b r)
  show "view (lp_dev (LPUART_DisableInterrupts soc m s)) P_CTRL AND NOT (kLPUART_AllInterruptEnable soc) =
           view (lp_dev s) P_CTRL AND NOT (kLPUART_AllInterruptEnable soc)"
    by (rule bit_word_eqI) (auto simp: b r)
qed simp_all

definition lp_regs_state :: "(lpuart_reg \<Rightarrow> u32) lpuart" where
  "lp_regs_state =
     \<lparr>lp_dev = \<lambda>_. 0,
      lp_handle = \<lparr>txData = 0, txDataSize = 0, txDataSizeAll = 0, rxData = 0, rxDataSize = 0, rxDataSizeAll = 0,
                   rxRingBuffer = 0, rxRingBufferSize = 0, rxRingBufferHead = 0, rxRingBufferTail = 0, callback = None,
                   userData = 0, txState = kLPUART_TxIdle, rxState = kLPUART_RxIdle, isSevenDataBits = False,
                   is16bitData = False\<rparr>,
      lp_ram = \<lambda>_. 0, lp_primask = 0, s_lpuartHandle = [1], s_lpuartIsr = [Isr_TransferHandleIRQ]\<rparr>"

theorem lpuart_interrupt_enables_witness:
  "fst (LPUART_GetEnabledInterrupts (lp_regs (\<lambda>_. True))
     (lp_dev (LPUART_EnableInterrupts (lp_regs (\<lambda>_. True)) 0x200240 lp_regs_state))) = 0x200240"
proof -
  let ?soc = "lp_regs (\<lambda>_. True)"
  have l: "lp_int_layout ?soc" by (simp add: lp_int_layout_def lp_regs_def)
  have "fst (LPUART_GetEnabledInterrupts ?soc (lp_dev lp_regs_state)) = 0"
    by (simp add: LPUART_GetEnabledInterrupts_def lp_regs_def lp_regs_state_def)
  moreover have "0x200240 AND kLPUART_AllInterruptEnable ?soc = 0x200240"
    by (simp add: kLPUART_AllInterruptEnable_def lp_opt_def lp_regs_def)
  moreover have "lp_enables_plain ?soc lp_plain (\<lambda>d r. d r AND lp_plain r)"
    using lp_regs_ok(1) by (simp add: lp_enables_plain_def lp_plain_def lp_fifo_ints_def lp_regs_def)
  ultimately show ?thesis using lpuart_interrupt_enables [OF _ l, of lp_plain "\<lambda>d r. d r AND lp_plain r" "0x200240" lp_regs_state] by simp
qed

subsection \<open>Idle line and ring buffer\<close>

text \<open>
  Without a pending request the idle-line handler switches the receive interrupt off, whether or
  not a ring buffer is installed. The idle interrupt is on in that state when a request was made
  before the ring was installed: neither installing the ring nor completing the request through the
  ring branch of the receive handler switches it off.
\<close>

lemma idle_stops_ring:
  assumes "ram_like soc M view" "M P_CTRL = - 1" "M P_WATER = - 1" "M P_STAT \<noteq> 0" "rxDataSize (lp_handle s) = 0"
  shows "\<exists>s'. LPUART_TransferHandleIDLEReady soc s = Some s' \<and> lp_handle s' = lp_handle s \<and>
           view (lp_dev s') P_CTRL = view (lp_dev s) P_CTRL AND NOT (lp_rx_idle_ints soc)"
proof -
  have c: "lp_handle (snd (lp_rx_count soc s)) = lp_handle s" "lp_dev (snd (lp_rx_count soc s)) = lp_dev s"
    using assms(1,3) by (simp_all add: lp_rx_count_def case_prod_beta Let_def io_ram)
  define s1 where "s1 = (if lp_has soc HAS_FIFO then snd (lp_rx_count soc s) else s)"
  have s1: "lp_handle s1 = lp_handle s" "lp_dev s1 = lp_dev s" using c by (simp_all add: s1_def)
  have "lp_request_loop soc n (snd (lp_rx_count soc s)) = Some (n, snd (lp_rx_count soc s))" for n
    using assms(5) c by (simp add: lp_request_loop.simps [of soc n])
  then have "\<exists>n. (if lp_has soc HAS_FIFO then let (count, s) = lp_rx_count soc s in lp_request_loop soc count s
               else Some (0, s)) = Some (n, s1)" by (cases "lp_rx_count soc s") (simp add: s1_def)
  then obtain n where n: "(if lp_has soc HAS_FIFO then let (count, s) = lp_rx_count soc s in lp_request_loop soc count s
               else Some (0, s)) = Some (n, s1)" by blast
  show ?thesis
    unfolding LPUART_TransferHandleIDLEReady_def n using assms s1
    by (simp add: case_prod_beta Let_def io_ram ram_like_bits [OF assms(1,4)])
qed

lemma request_then_ring:
  assumes "ram_like soc M view" "M P_CTRL = - 1" "rxState (lp_handle s) = kLPUART_RxIdle" "rxRingBuffer (lp_handle s) = 0"
    "xfer_data x \<noteq> 0" "xfer_dataSize x \<noteq> 0" "buf \<noteq> 0"
  shows "\<exists>s1 s2. LPUART_TransferReceiveNonBlocking soc x s = Some (kStatus_Success, Some 0, s1) \<and>
           LPUART_TransferStartRingBuffer soc buf n s1 = Some s2 \<and> rxRingBuffer (lp_handle s2) = buf \<and>
           lp_mask soc M_CTRL_ILIE AND NOT (view (lp_dev s2) P_CTRL) = 0"
proof -
  have "m AND NOT ((v OR (a OR m OR b)) OR c) = 0" for m v a b c :: u32 by (rule bit_word_eqI) (auto simp: bit_simps)
  then show ?thesis using assms
    by (simp add: LPUART_TransferReceiveNonBlocking_def LPUART_TransferStartRingBuffer_def io_ram lp_rx_idle_ints_def Let_def)
qed

subsection \<open>Bit order\<close>

text \<open>
  \<open>LPUART_Init\<close> sets bits of STAT by \<open>|=\<close> only: where no software reset comes first, the bit
  MSBF that is set for the most significant bit first stays set when the configuration asks for the
  least significant bit first.
\<close>

lemma init_sets_stat_bits:
  assumes "ram_like soc M view" "M P_STAT \<noteq> 0" "\<And>r. r \<noteq> P_STAT \<Longrightarrow> M r = - 1"
    "LPUART_Init soc base config src d = Some (kStatus_Success, d')"
    "\<not> lp_has soc HAS_CLOCK_CONTROL" "\<not> lp_has soc HAS_RESETS_ARRAY" "\<not> lp_has soc HAS_GLOBAL"
  shows "view d P_STAT AND NOT (view d' P_STAT) = 0"
proof -
  obtain osr sbr where i: "lp_init_device soc base config osr sbr d = Some d'"
    using assms(4) by (auto simp: LPUART_Init_def bind_eq_Some_conv lpuart_status_defs split: if_splits prod.splits)
  have b: "view (lp_write_baud soc osr sbr e) P_STAT = view e P_STAT" for e
    using assms(1,3) by (simp add: lp_write_baud_def io_ram Let_def)
  have f: "view (lp_init_fifo soc config e) P_STAT = view e P_STAT" "view (lp_init_modem soc config e) P_STAT = view e P_STAT" for e
    using assms(1,3) by (simp_all add: lp_init_fifo_def lp_init_modem_def io_ram Let_def)
  have st: "view (reg_set soc P_STAT t e) P_STAT = view e P_STAT OR (t AND M P_STAT)" for e t
    using ram_like_bits [OF assms(1,2), where d = e] by (simp add: reg_set_def case_prod_beta bit.conj_disj_distrib2)
  have "\<exists>t. view d' P_STAT = view d P_STAT OR t"
    using i assms(1,3,5-) ram_like_bits(1) [OF assms(1,2)]
    by (auto simp: lp_init_device_def lp_init_clocks_def io_ram Let_def case_prod_beta b f st)
  then obtain t where "view d' P_STAT = view d P_STAT OR t" by blast
  then show ?thesis by (simp, intro bit_word_eqI) (auto simp: bit_simps)
qed

end
