(* ===== verification/Sdk_Arm.thy ===== *)
theory Sdk_Arm
  imports Common "HOL-Library.Signed_Division"
begin

text \<open>
  \<open>drivers/common/fsl_common_arm.c\<close> and the interrupt functions of \<open>fsl_common_arm.h\<close>: enabling
  interrupts, the vector table in RAM, wake-up interrupts, delays and the measurement of critical
  sections.

  The core peripherals are one device; the functions of CMSIS and of the interrupt steering driver
  are parameters. An interrupt number is an \<open>int\<close>, negative for the exceptions of the core.
\<close>

datatype arm_reg = DCB_DEMCR | DWT_CTRL | DWT_CYCCNT | SCB_VTOR | STARTERSET nat | STARTERCLR nat

text \<open>Which cycles an iteration of the delay loop takes depends on the core.\<close>

datatype arm_core = Cortex_A53_A55 | Cortex_M7 | Other_Core

record 'd arm_soc = "(arm_reg, 'd) mmio" +
  NotAvail_IRQn :: int
  NUMBER_OF_LEVEL1_INT_VECTORS :: int
  IRQSTEER_EXT_INT_MAX_NUM :: int
  IRQSTEER_IRQ_START_INDEX :: int
  IRQSTEER_EnableInterrupt :: "int \<Rightarrow> int \<Rightarrow> 'd \<Rightarrow> 'd"
  IRQSTEER_DisableInterrupt :: "int \<Rightarrow> int \<Rightarrow> 'd \<Rightarrow> 'd"
  NVIC_EnableIRQ :: "int \<Rightarrow> 'd \<Rightarrow> 'd"
  NVIC_DisableIRQ :: "int \<Rightarrow> 'd \<Rightarrow> 'd"
  NVIC_SetPriority :: "int \<Rightarrow> u8 \<Rightarrow> 'd \<Rightarrow> 'd"
  NVIC_ClearPendingIRQ :: "int \<Rightarrow> 'd \<Rightarrow> 'd"
  TRCENA_Msk :: u32
  NOCYCCNT_Msk :: u32
  CYCCNTENA_Msk :: u32
  SDK_DELAY_USE_DWT :: bool
  core :: arm_core
  VECTOR_RAM :: u32
  VECTOR_TABLE :: "nat \<Rightarrow> u32"
  RAM_VECTOR_TABLE_SIZE :: u32
  CRITICAL_SECTION_MAX_ID :: u32
  CRITICAL_SECTION_INVALID_ID :: u32
  CRITICAL_SECTION_DEBUG :: bool
  timestamp :: "nat \<Rightarrow> 'd \<Rightarrow> u32 \<times> 'd"

subsection \<open>Interrupt numbers\<close>

text \<open>
  A feature number of 0 stands for a macro that is not defined: all interrupts are then level 1,
  or there is no interrupt steering.
\<close>

definition above_level1 :: "'d arm_soc \<Rightarrow> int \<Rightarrow> bool" where
  "above_level1 soc irq \<longleftrightarrow> 0 < NUMBER_OF_LEVEL1_INT_VECTORS soc \<and> NUMBER_OF_LEVEL1_INT_VECTORS soc \<le> irq"

definition has_irqsteer :: "'d arm_soc \<Rightarrow> bool" where
  "has_irqsteer soc \<longleftrightarrow> 0 < IRQSTEER_EXT_INT_MAX_NUM soc \<and> 0 < IRQSTEER_IRQ_START_INDEX soc"

definition EnableIRQ :: "'d arm_soc \<Rightarrow> int \<Rightarrow> 'd \<Rightarrow> status \<times> 'd" where
  "EnableIRQ soc irq d =
     (if NotAvail_IRQn soc = irq then (kStatus_Fail, d)
      else if above_level1 soc irq then
        if has_irqsteer soc then
          let irqsteerInstIdx = (irq + 1 - IRQSTEER_IRQ_START_INDEX soc) sdiv IRQSTEER_EXT_INT_MAX_NUM soc
          in (kStatus_Success, IRQSTEER_EnableInterrupt soc irqsteerInstIdx irq d)
        else (kStatus_Fail, d)
      else (kStatus_Success, NVIC_EnableIRQ soc irq d))"

definition DisableIRQ :: "'d arm_soc \<Rightarrow> int \<Rightarrow> 'd \<Rightarrow> status \<times> 'd" where
  "DisableIRQ soc irq d =
     (if NotAvail_IRQn soc = irq then (kStatus_Fail, d)
      else if above_level1 soc irq then
        if has_irqsteer soc then
          let irqsteerInstIdx = (irq - IRQSTEER_IRQ_START_INDEX soc) sdiv IRQSTEER_EXT_INT_MAX_NUM soc
          in (kStatus_Success, IRQSTEER_DisableInterrupt soc irqsteerInstIdx irq d)
        else (kStatus_Fail, d)
      else (kStatus_Success, NVIC_DisableIRQ soc irq d))"

definition EnableIRQWithPriority :: "'d arm_soc \<Rightarrow> int \<Rightarrow> u8 \<Rightarrow> 'd \<Rightarrow> status \<times> 'd" where
  "EnableIRQWithPriority soc irq priNum d =
     (if NotAvail_IRQn soc = irq then (kStatus_Fail, d)
      else if above_level1 soc irq then (kStatus_Fail, d)
      else (kStatus_Success, NVIC_EnableIRQ soc irq (NVIC_SetPriority soc irq priNum d)))"

definition IRQ_SetPriority :: "'d arm_soc \<Rightarrow> int \<Rightarrow> u8 \<Rightarrow> 'd \<Rightarrow> status \<times> 'd" where
  "IRQ_SetPriority soc irq priNum d =
     (if NotAvail_IRQn soc = irq then (kStatus_Fail, d)
      else if above_level1 soc irq then (kStatus_Fail, d)
      else (kStatus_Success, NVIC_SetPriority soc irq priNum d))"

definition IRQ_ClearPendingIRQ :: "'d arm_soc \<Rightarrow> int \<Rightarrow> 'd \<Rightarrow> status \<times> 'd" where
  "IRQ_ClearPendingIRQ soc irq d =
     (if NotAvail_IRQn soc = irq then (kStatus_Fail, d)
      else if above_level1 soc irq then (kStatus_Fail, d)
      else (kStatus_Success, NVIC_ClearPendingIRQ soc irq d))"

subsection \<open>State\<close>

record critical_section_measurement =
  cs_id :: u32
  startTime :: u32
  dur_max :: "u32 \<Rightarrow> u32"
  execution_times :: "u32 \<Rightarrow> u32"
  getTimestamp :: "nat option"

record 'd arm =
  a_dev :: 'd
  a_primask :: u32
  vector_ram :: "nat \<Rightarrow> u32"
  crit :: critical_section_measurement

definition on_arm :: "('d \<Rightarrow> 'd) \<Rightarrow> 'd arm \<Rightarrow> 'd arm" where
  "on_arm f s = s\<lparr>a_dev := f (a_dev s)\<rparr>"

subsection \<open>Vector table\<close>

definition MSDK_INVALID_IRQ_HANDLER :: u32 where "MSDK_INVALID_IRQ_HANDLER = - 1"

text \<open>The copy of the table from ROM, entry by entry.\<close>

fun copy_vectors :: "(nat \<Rightarrow> u32) \<Rightarrow> nat \<Rightarrow> nat \<Rightarrow> (nat \<Rightarrow> u32) \<Rightarrow> nat \<Rightarrow> u32" where
  "copy_vectors rom n 0 v = v"
| "copy_vectors rom n (Suc k) v = copy_vectors rom (n + 1) k (v(n := rom n))"

text \<open>An index beyond the table in RAM is an access outside the array.\<close>

definition InstallIRQHandler :: "'d arm_soc \<Rightarrow> int \<Rightarrow> u32 \<Rightarrow> 'd arm \<Rightarrow> (u32 \<times> 'd arm) option" where
  "InstallIRQHandler soc irq irqHandler s =
     (if irq + 16 < 0 then Some (MSDK_INVALID_IRQ_HANDLER, s)
      else do {
        let (irqMaskValue, p) = DisableGlobalIRQ (a_primask s);
        let s = s\<lparr>a_primask := p\<rparr>;
        let (vtor, d) = reg_read soc SCB_VTOR (a_dev s);
        let s = s\<lparr>a_dev := d\<rparr>;
        let s = (if vtor \<noteq> VECTOR_RAM soc then
                   on_arm (reg_write soc SCB_VTOR (VECTOR_RAM soc))
                     (s\<lparr>vector_ram := copy_vectors (VECTOR_TABLE soc) 0 (unat (RAM_VECTOR_TABLE_SIZE soc div 4)) (vector_ram s)\<rparr>)
                 else s);
        let i = nat (irq + 16);
        c_assert (i < unat (RAM_VECTOR_TABLE_SIZE soc div 4));
        let ret = vector_ram s i;
        let s = s\<lparr>vector_ram := (vector_ram s)(i := irqHandler)\<rparr>;
        Some (ret, s\<lparr>a_primask := EnableGlobalIRQ irqMaskValue (a_primask s)\<rparr>)
      })"

subsection \<open>Wake-up interrupts\<close>

function starter_index :: "u32 \<Rightarrow> u32 \<Rightarrow> u32 \<times> u32" where
  "starter_index index intNumber =
     (if 32 \<le> intNumber then starter_index (index + 1) (intNumber - 32) else (index, intNumber))"
  by pat_completeness auto
termination
  by (relation "measure (\<lambda>(i, n). unat n)") (auto simp: word_le_nat_alt unat_minus_small)

declare starter_index.simps [simp del]

definition EnableDeepSleepIRQ :: "'d arm_soc \<Rightarrow> int \<Rightarrow> 'd \<Rightarrow> 'd" where
  "EnableDeepSleepIRQ soc irq d =
     (let (index, intNumber) = starter_index 0 (word_of_int irq);
          d = reg_write soc (STARTERSET (unat index)) (push_bit (unat intNumber) 1) d
      in snd (EnableIRQ soc irq d))"

definition DisableDeepSleepIRQ :: "'d arm_soc \<Rightarrow> int \<Rightarrow> 'd \<Rightarrow> 'd" where
  "DisableDeepSleepIRQ soc irq d =
     (let d = snd (DisableIRQ soc irq d);
          (index, intNumber) = starter_index 0 (word_of_int irq)
      in reg_write soc (STARTERCLR (unat index)) (push_bit (unat intNumber) 1) d)"

subsection \<open>Delays\<close>

definition MSDK_EnableCpuCycleCounter :: "'d arm_soc \<Rightarrow> 'd \<Rightarrow> 'd option" where
  "MSDK_EnableCpuCycleCounter soc d = do {
     let (demcr, d) = reg_read soc DCB_DEMCR d;
     let d = (if TRCENA_Msk soc \<noteq> TRCENA_Msk soc AND demcr then reg_set soc DCB_DEMCR (TRCENA_Msk soc) d else d);
     let (ctrl, d) = reg_read soc DWT_CTRL d;
     c_assert (NOCYCCNT_Msk soc \<noteq> ctrl AND NOCYCCNT_Msk soc);
     let (ctrl, d) = reg_read soc DWT_CTRL d;
     Some (if CYCCNTENA_Msk soc \<noteq> CYCCNTENA_Msk soc AND ctrl then reg_set soc DWT_CTRL (CYCCNTENA_Msk soc) d else d)
   }"

definition MSDK_GetCpuCycleCount :: "'d arm_soc \<Rightarrow> 'd \<Rightarrow> u32 \<times> 'd" where
  "MSDK_GetCpuCycleCount soc d = reg_read soc DWT_CYCCNT d"

lemma unat_pred: "r \<noteq> 0 \<Longrightarrow> unat (r - 1) < unat (r :: 'w::len word)"
  by (simp add: unat_minus_small unat_gt_0 Suc_le_eq)

text \<open>
  The number of times that the loop of \<open>DelayLoop\<close> (decrement, compare, branch) runs; its register
  has 64 bits on ARMv8-A and 32 bits elsewhere.
\<close>

function DelayLoop :: "'w::len word \<Rightarrow> nat" where
  "DelayLoop count = (let r0 = count - 1 in if r0 \<noteq> 0 then Suc (DelayLoop r0) else 1)"
  by pat_completeness auto
termination
  by (relation "measure (\<lambda>r. unat (r - 1))") (auto simp only: wf_measure in_measure intro: unat_pred)

declare DelayLoop.simps [simp del]

definition USEC_TO_COUNT :: "u32 \<Rightarrow> u32 \<Rightarrow> 64 word" where
  "USEC_TO_COUNT us clockFreqInHz = ucast us * ucast clockFreqInHz div 1000000"

text \<open>\<open>while (cond(MSDK_GetCpuCycleCount())) {}\<close>\<close>

partial_function (option) cycle_wait :: "'d arm_soc \<Rightarrow> (u32 \<Rightarrow> bool) \<Rightarrow> 'd \<Rightarrow> 'd option" where
  "cycle_wait soc cond d =
     (let (cyc, d) = MSDK_GetCpuCycleCount soc d in if cond cyc then cycle_wait soc cond d else Some d)"

definition dwt_delay :: "'d arm_soc \<Rightarrow> 64 word \<Rightarrow> 'd \<Rightarrow> 'd option" where
  "dwt_delay soc count d = do {
     d \<leftarrow> MSDK_EnableCpuCycleCounter soc d;
     let (cyc, d) = MSDK_GetCpuCycleCount soc d;
     let count = count + ucast cyc;
     (count, d) \<leftarrow> (if 0xFFFFFFFF < count then do {
                     let count = count - 0xFFFFFFFF;
                     d \<leftarrow> cycle_wait soc (\<lambda>cyc. count < ucast cyc) d;
                     Some (count, d)
                   } else Some (count, d));
     cycle_wait soc (\<lambda>cyc. ucast cyc < count) d
   }"

text \<open>The result has the number of iterations of the delay loop.\<close>

definition SDK_DelayAtLeastUs :: "'d arm_soc \<Rightarrow> u32 \<Rightarrow> u32 \<Rightarrow> 'd \<Rightarrow> (nat \<times> 'd) option" where
  "SDK_DelayAtLeastUs soc delayTime_us coreClock_Hz d =
     (if 0 < delayTime_us then do {
        let count = USEC_TO_COUNT delayTime_us coreClock_Hz;
        c_assert (count \<le> 0xFFFFFFFF);
        if SDK_DELAY_USE_DWT soc then do {
          d \<leftarrow> dwt_delay soc count d;
          Some (0, d)
        } else do {
          Some (case core soc of
                  Cortex_A53_A55 \<Rightarrow> DelayLoop (ucast (ucast (count div 2) :: u32) :: 64 word)
                | Cortex_M7 \<Rightarrow> DelayLoop (ucast (count div 3 * 2) :: u32)
                | Other_Core \<Rightarrow> DelayLoop (ucast (count div 4) :: u32), d)
        }
      } else Some (0, d))"

subsection \<open>Critical sections\<close>

definition InitCriticalSectionMeasurementContext :: "nat option \<Rightarrow> 'd arm \<Rightarrow> 'd arm option" where
  "InitCriticalSectionMeasurementContext func s = do {
     c_assert (func \<noteq> None);
     Some (s\<lparr>crit := \<lparr>cs_id = 0, startTime = 0, dur_max = \<lambda>i. 0, execution_times = \<lambda>i. 0, getTimestamp = func\<rparr>\<rparr>)
   }"

definition DisableGlobalIRQEx :: "'d arm_soc \<Rightarrow> u32 \<Rightarrow> 'd arm \<Rightarrow> (u32 \<times> 'd arm) option" where
  "DisableGlobalIRQEx soc i s = do {
     let (primask, p) = DisableGlobalIRQ (a_primask s);
     let s = s\<lparr>a_primask := p\<rparr>;
     if primask \<noteq> 0 then do {
       c_assert (CRITICAL_SECTION_DEBUG soc \<longrightarrow>
         i \<noteq> CRITICAL_SECTION_INVALID_ID soc \<and> i < CRITICAL_SECTION_MAX_ID soc \<and>
         cs_id (crit s) = CRITICAL_SECTION_INVALID_ID soc);
       case getTimestamp (crit s) of None \<Rightarrow> Some (primask, s)
       | Some f \<Rightarrow> do {
           let (t, d) = timestamp soc f (a_dev s);
           Some (primask, s\<lparr>a_dev := d, crit := (crit s)\<lparr>cs_id := i, startTime := t\<rparr>\<rparr>)
         }
     } else Some (primask, s)
   }"

text \<open>An id beyond the arrays is an access outside them.\<close>

definition EnableGlobalIRQEx :: "'d arm_soc \<Rightarrow> u32 \<Rightarrow> 'd arm \<Rightarrow> 'd arm option" where
  "EnableGlobalIRQEx soc primask s = do {
     s \<leftarrow> (if primask \<noteq> 0 then do {
             c_assert (CRITICAL_SECTION_DEBUG soc \<longrightarrow>
               cs_id (crit s) \<noteq> CRITICAL_SECTION_INVALID_ID soc \<and> cs_id (crit s) < CRITICAL_SECTION_MAX_ID soc);
             s \<leftarrow> (case getTimestamp (crit s) of None \<Rightarrow> Some s
                   | Some f \<Rightarrow> do {
                       let (t, d) = timestamp soc f (a_dev s);
                       let c = crit s;
                       let dur = t - startTime c;
                       let i = cs_id c;
                       c_assert (i < CRITICAL_SECTION_MAX_ID soc);
                       let c = (if dur_max c i < dur then c\<lparr>dur_max := (dur_max c)(i := dur)\<rparr> else c);
                       let c = c\<lparr>execution_times := (execution_times c)(i := execution_times c i + 1)\<rparr>;
                       Some (s\<lparr>a_dev := d, crit := c\<rparr>)
                     });
             Some (if CRITICAL_SECTION_DEBUG soc
                   then s\<lparr>crit := (crit s)\<lparr>cs_id := CRITICAL_SECTION_INVALID_ID soc\<rparr>\<rparr> else s)
           } else Some s);
     Some (s\<lparr>a_primask := EnableGlobalIRQ primask (a_primask s)\<rparr>)
   }"

end
