(* ===== verification/Sdk_Delay.thy ===== *)
theory Sdk_Delay
  imports Sdk_Arm
begin

text \<open>
  Timing of \<open>SDK_DelayAtLeastUs\<close>: with the cycle counter it never returns early, and it returns in
  time when the counter is polled often enough; the cases in which it does not.
\<close>

subsection \<open>The cycle counter\<close>

text \<open>
  \<open>time\<close> counts the cycles of the core without wrapping. The cycle counter runs once the trace unit is
  enabled (TRCENA in DEMCR) and then the counter itself (CYCCNTENA in \<open>DWT_CTRL\<close>), whether software has
  just set these bits or reads that they are set. A read of the running counter returns the count
  modulo \<open>2 ^ 32\<close>, takes at least one cycle and leaves it running; of a stopped one nothing is known.
\<close>

definition cycle_counter :: "'d arm_soc \<Rightarrow> ('d \<Rightarrow> bool) \<Rightarrow> ('d \<Rightarrow> bool) \<Rightarrow> ('d \<Rightarrow> nat) \<Rightarrow> bool" where
  "cycle_counter soc traced running time \<longleftrightarrow>
     (\<forall>d. TRCENA_Msk soc AND fst (reg_read soc DCB_DEMCR d) = TRCENA_Msk soc \<longrightarrow> traced (snd (reg_read soc DCB_DEMCR d))) \<and>
     (\<forall>v d. TRCENA_Msk soc AND v = TRCENA_Msk soc \<longrightarrow> traced (reg_write soc DCB_DEMCR v d)) \<and>
     (\<forall>d. traced d \<longrightarrow> traced (snd (reg_read soc DWT_CTRL d))) \<and>
     (\<forall>d. traced d \<and> CYCCNTENA_Msk soc AND fst (reg_read soc DWT_CTRL d) = CYCCNTENA_Msk soc \<longrightarrow>
          running (snd (reg_read soc DWT_CTRL d))) \<and>
     (\<forall>v d. traced d \<and> CYCCNTENA_Msk soc AND v = CYCCNTENA_Msk soc \<longrightarrow> running (reg_write soc DWT_CTRL v d)) \<and>
     (\<forall>d. running d \<longrightarrow> fst (reg_read soc DWT_CYCCNT d) = of_nat (time d) \<and>
          time d < time (snd (reg_read soc DWT_CYCCNT d)) \<and> running (snd (reg_read soc DWT_CYCCNT d)))"

lemma enable_runs:
  assumes "cycle_counter soc traced running time" "MSDK_EnableCpuCycleCounter soc d = Some d0"
  shows "running d0"
proof -
  have m: "x AND (v OR x) = x" for x v :: u32 by (auto simp: bit_eq_iff bit_simps)
  define d1 where "d1 = (let (demcr, d) = reg_read soc DCB_DEMCR d
    in if TRCENA_Msk soc \<noteq> TRCENA_Msk soc AND demcr then reg_set soc DCB_DEMCR (TRCENA_Msk soc) d else d)"
  have t1: "traced d1"
    using assms(1) unfolding cycle_counter_def d1_def by (auto simp: reg_set_def case_prod_beta m)
  define d2 where "d2 = snd (reg_read soc DWT_CTRL d1)"
  have t2: "traced d2" using assms(1) t1 unfolding cycle_counter_def d2_def by blast
  then have t3: "traced (snd (reg_read soc DWT_CTRL d2))" using assms(1) unfolding cycle_counter_def by blast
  have "d0 = (let (ctrl, d) = reg_read soc DWT_CTRL d2
    in if CYCCNTENA_Msk soc \<noteq> CYCCNTENA_Msk soc AND ctrl then reg_set soc DWT_CTRL (CYCCNTENA_Msk soc) d else d)"
    using assms(2) unfolding MSDK_EnableCpuCycleCounter_def d2_def d1_def by (simp add: case_prod_beta Let_def)
  moreover have "traced (snd (reg_read soc DWT_CTRL e)) \<Longrightarrow> running (reg_set soc DWT_CTRL (CYCCNTENA_Msk soc) e)" for e
    using assms(1) unfolding cycle_counter_def by (simp add: reg_set_def case_prod_beta m)
  moreover have "traced (snd (reg_read soc DWT_CTRL (snd (reg_read soc DWT_CTRL d2))))"
    using assms(1) t3 unfolding cycle_counter_def by blast
  ultimately show ?thesis using assms(1) t2 unfolding cycle_counter_def by (auto simp: case_prod_beta Let_def split: if_splits)
qed

text \<open>A poll of the counter takes at most \<open>K\<close> cycles.\<close>

definition polled_within :: "'d arm_soc \<Rightarrow> ('d \<Rightarrow> nat) \<Rightarrow> nat \<Rightarrow> bool" where
  "polled_within soc time K \<longleftrightarrow> (\<forall>d. time (snd (reg_read soc DWT_CYCCNT d)) \<le> time d + K)"

lemma counter_read:
  assumes "cycle_counter soc traced running time" "running d"
  obtains d' where "MSDK_GetCpuCycleCount soc d = (of_nat (time d), d')" "time d < time d'" "running d'"
    "polled_within soc time K \<longrightarrow> time d' \<le> time d + K"
  using assms unfolding cycle_counter_def polled_within_def MSDK_GetCpuCycleCount_def by (metis prod.collapse)

lemma cycle_wait_exit:
  assumes "cycle_counter soc traced running time" "cycle_wait soc cond d = Some d'" "running d"
    "I d" "\<And>d. I d \<Longrightarrow> I (snd (reg_read soc DWT_CYCCNT d))"
  shows "\<exists>e. I e \<and> time d \<le> time e \<and> time e < time d' \<and> running d' \<and> \<not> cond (of_nat (time e))"
proof -
  have "cycle_wait soc cond d = Some d' \<Longrightarrow> cycle_counter soc traced running time \<Longrightarrow> running d \<Longrightarrow> I d \<Longrightarrow>
      (\<And>d. I d \<Longrightarrow> I (snd (reg_read soc DWT_CYCCNT d))) \<Longrightarrow>
      \<exists>e. I e \<and> time d \<le> time e \<and> time e < time d' \<and> running d' \<and> \<not> cond (of_nat (time e))"
  proof (induction soc cond d d' rule: cycle_wait.raw_induct [rotated, consumes 1])
    case (1 loop soc cond d d')
    obtain d1 where d1: "MSDK_GetCpuCycleCount soc d = (of_nat (time d), d1)" "time d < time d1" "running d1"
      using counter_read [OF 1(3,4)] by metis
    have I1: "I d1" using 1(6) [OF 1(5)] d1(1) by (simp add: MSDK_GetCpuCycleCount_def)
    show ?case
    proof (cases "cond (of_nat (time d))")
      case True
      with 1(2) d1 have "loop soc cond d1 = Some d'" by simp
      from 1(1) [OF this 1(3) d1(3) I1 1(6)] d1(2) show ?thesis by (meson less_imp_le less_le_trans)
    next
      case False
      with 1(2,5) d1 show ?thesis by auto
    qed
  qed
  with assms show ?thesis by blast
qed

lemma cycle_wait_returns:
  assumes "cycle_counter soc traced running time" "polled_within soc time K" "running d" "time d < A + K"
    "\<And>x. A \<le> x \<Longrightarrow> x < A + K \<Longrightarrow> \<not> cond (of_nat x)"
  shows "\<exists>d'. cycle_wait soc cond d = Some d' \<and> running d' \<and> time d' < A + 2 * K"
  using assms(3,4)
proof (induction "A + K - time d" arbitrary: d rule: less_induct)
  case less
  obtain d1 where d1: "MSDK_GetCpuCycleCount soc d = (of_nat (time d), d1)" "time d < time d1" "running d1" "time d1 \<le> time d + K"
    using counter_read [OF assms(1) less.prems(1)] assms(2) by metis
  show ?case
  proof (cases "cond (of_nat (time d))")
    case True
    then have "time d < A" using assms(5) [of "time d"] less.prems by force
    then have "time d1 < A + K" using d1(4) by simp
    moreover have "A + K - time d1 < A + K - time d" using d1(2) less.prems by simp
    ultimately show ?thesis using less.hyps [of d1] True d1(1,3) by (subst cycle_wait.simps) simp
  next
    case False
    then show ?thesis using d1 less.prems by (subst cycle_wait.simps) simp
  qed
qed

subsection \<open>Reading the target\<close>

lemma usec_count: "unat (USEC_TO_COUNT us hz) = unat us * unat hz div 1000000"
proof -
  have "unat us < 2 ^ 32" "unat hz < 2 ^ 32"
    using unsigned_less [of us, where ?'a = nat] unsigned_less [of hz, where ?'a = nat] by simp_all
  then have "unat us * unat hz < 2 ^ 32 * 2 ^ 32" by (intro mult_strict_mono) simp_all
  then have "unat us * unat hz < 2 ^ 64" by simp
  then have "unat (ucast us * ucast hz :: 64 word) = unat us * unat hz"
    using unat_mult_small [of "ucast us :: 64 word" "ucast hz"] by simp
  then show ?thesis unfolding USEC_TO_COUNT_def unat_div_distrib by simp
qed

lemma unat_of_nat_u32: "unat (of_nat n :: u32) = n mod 2 ^ 32"
  by (simp add: unsigned_of_nat take_bit_eq_mod)

lemma later_value:
  fixes t0 t M :: nat
  assumes "t0 \<le> t" "t < t0 + M"
  shows "t mod M = (if t0 mod M + (t - t0) < M then t0 mod M + (t - t0) else t0 mod M + (t - t0) - M)"
proof -
  have "t mod M = (t0 mod M + (t - t0)) mod M" using mod_add_left_eq [of t0 M "t - t0"] assms(1) by simp
  moreover have "t0 mod M + (t - t0) < M + M" using assms by (intro add_strict_mono) auto
  ultimately show ?thesis by (simp add: le_mod_geq not_less)
qed

subsection \<open>The delay\<close>

text \<open>
  The value the loops wait for: the count added to the counter, folded as the code does it, and
  whether the counter has to wrap first.
\<close>

definition delay_wraps :: "nat \<Rightarrow> nat \<Rightarrow> bool" where
  "delay_wraps t0 count \<longleftrightarrow> 2 ^ 32 \<le> t0 mod 2 ^ 32 + count"

definition delay_target :: "nat \<Rightarrow> nat \<Rightarrow> nat" where
  "delay_target t0 count =
     (if delay_wraps t0 count then t0 mod 2 ^ 32 + count - (2 ^ 32 - 1) else t0 mod 2 ^ 32 + count)"

lemma dwt_delay_loops:
  assumes "cycle_counter soc traced running time" "unat count < 2 ^ 32" "MSDK_EnableCpuCycleCounter soc d = Some d0"
    "MSDK_GetCpuCycleCount soc d0 = (of_nat (time d0), d1)"
  shows "dwt_delay soc count d =
     (if delay_wraps (time d0) (unat count)
      then cycle_wait soc (\<lambda>cyc. delay_target (time d0) (unat count) < unat cyc) d1 \<bind>
           cycle_wait soc (\<lambda>cyc. unat cyc < delay_target (time d0) (unat count))
      else cycle_wait soc (\<lambda>cyc. unat cyc < delay_target (time d0) (unat count)) d1)"
proof -
  let ?c = "count + ucast (of_nat (time d0) :: u32)"
  have m: "time d0 mod 2 ^ 32 < 2 ^ 32" by simp
  then have c: "unat ?c = time d0 mod 2 ^ 32 + unat count"
    using assms(2) by (simp add: unat_plus_small unat_of_nat_u32)
  have w: "0xFFFFFFFF < ?c \<longleftrightarrow> delay_wraps (time d0) (unat count)"
    by (simp add: word_less_nat_alt c delay_wraps_def) linarith
  show ?thesis
  proof (cases "delay_wraps (time d0) (unat count)")
    case True
    then have "unat (?c - 0xFFFFFFFF) = delay_target (time d0) (unat count)"
      by (simp add: unat_minus_small c delay_target_def delay_wraps_def)
    with True w assms(3,4) show ?thesis
      by (simp add: dwt_delay_def word_less_nat_alt Let_def cong: bind_option_cong)
  next
    case False
    with w assms(3,4) c show ?thesis
      by (simp add: dwt_delay_def word_less_nat_alt Let_def delay_target_def)
  qed
qed

lemma exit_value:
  assumes "cycle_counter soc traced running time" "running d" "cycle_wait soc cond d = Some d'"
  obtains t where "time d \<le> t" "t < time d'" "running d'" "\<not> cond (of_nat t)"
  using cycle_wait_exit [OF assms(1,3,2), of "\<lambda>d. True"] by blast

lemma dwt_delay_late:
  assumes cc: "cycle_counter soc traced running time" and n: "unat count < 2 ^ 32"
    and en: "MSDK_EnableCpuCycleCounter soc d = Some d0" and delay: "dwt_delay soc count d = Some d'"
  shows "time d0 + unat count \<le> time d'"
proof -
  define M :: nat where "M = 2 ^ 32"
  let ?t0 = "time d0" and ?n = "unat count" and ?T = "delay_target (time d0) (unat count)"
  obtain d1 where d1: "MSDK_GetCpuCycleCount soc d0 = (of_nat ?t0, d1)" "?t0 < time d1" "running d1"
    using counter_read [OF cc enable_runs [OF cc en]] by metis
  note delay = delay [unfolded dwt_delay_loops [OF cc n en d1(1)]]
  have c: "?t0 mod M < M" by (simp add: M_def)
  have val: "unat (of_nat t :: u32) =
      (if ?t0 mod M + (t - ?t0) < M then ?t0 mod M + (t - ?t0) else ?t0 mod M + (t - ?t0) - M)"
    if "?t0 \<le> t" "t < ?t0 + ?n" for t
    using later_value [of ?t0 t M] that n unfolding unat_of_nat_u32 M_def by simp
  show ?thesis
  proof (cases "delay_wraps ?t0 ?n")
    case False
    then have T: "?T = ?t0 mod M + ?n" "?t0 mod M + ?n < M" by (simp_all add: delay_target_def delay_wraps_def M_def)
    from delay False have "cycle_wait soc (\<lambda>cyc. unat cyc < ?T) d1 = Some d'" by simp
    from exit_value [OF cc d1(3) this] obtain t where t: "time d1 \<le> t" "t < time d'" "\<not> unat (of_nat t :: u32) < ?T" by metis
    from t(1) d1(2) obtain j where "t = ?t0 + j" by (metis le_iff_add less_imp_le order_trans)
    then have "?t0 + ?n \<le> t" using val [of t] t(3) T by (cases "t < ?t0 + ?n") auto
    with t(2) show ?thesis by simp
  next
    case True
    then have T: "?T = ?t0 mod M + ?n + 1 - M" "M \<le> ?t0 mod M + ?n" by (simp_all add: delay_target_def delay_wraps_def M_def)
    from delay True obtain d2 where d2: "cycle_wait soc (\<lambda>cyc. ?T < unat cyc) d1 = Some d2"
      "cycle_wait soc (\<lambda>cyc. unat cyc < ?T) d2 = Some d'" by (auto simp: bind_eq_Some_conv)
    obtain t where t: "time d1 \<le> t" "t < time d2" "\<not> ?T < unat (of_nat t :: u32)" "running d2"
      using exit_value [OF cc d1(3) d2(1)] by metis
    obtain u where u: "time d2 \<le> u" "u < time d'" "\<not> unat (of_nat u :: u32) < ?T"
      using exit_value [OF cc t(4) d2(2)] by metis
    have "?t0 + ?n \<le> u"
    proof (rule ccontr)
      assume "\<not> ?t0 + ?n \<le> u"
      then have tu: "t < ?t0 + ?n" "u < ?t0 + ?n" "?t0 < t" "t < u" using t u d1(2) by simp_all
      have "M \<le> ?t0 mod M + (t - ?t0)" using val [of t] tu t(3) T n by (auto simp: M_def split: if_splits)
      then show False using val [of u] tu u(3) T by (auto split: if_splits)
    qed
    with u(2) show ?thesis by simp
  qed
qed

lemma dwt_delay_returns:
  assumes cc: "cycle_counter soc traced running time" "polled_within soc time K" and n: "unat count < 2 ^ 32"
    and en: "MSDK_EnableCpuCycleCounter soc d = Some d0"
    and K: "delay_target (time d0) (unat count) + K < 2 ^ 32"
      "delay_wraps (time d0) (unat count) \<longrightarrow> K \<le> delay_target (time d0) (unat count)"
  shows "\<exists>d'. dwt_delay soc count d = Some d' \<and> time d' \<le> time d0 + unat count + 2 * K"
proof -
  define M :: nat where "M = 2 ^ 32"
  let ?t0 = "time d0" and ?n = "unat count" and ?T = "delay_target (time d0) (unat count)"
  obtain d1 where d1: "MSDK_GetCpuCycleCount soc d0 = (of_nat ?t0, d1)" "?t0 < time d1" "time d1 \<le> ?t0 + K" "running d1"
    using counter_read [OF cc(1) enable_runs [OF cc(1) en]] cc(2) by metis
  have c: "?t0 mod M < M" by (simp add: M_def)
  show ?thesis
  proof (cases "delay_wraps ?t0 ?n")
    case False
    then have T: "?T = ?t0 mod M + ?n" by (simp add: delay_target_def M_def)
    have "\<not> unat (of_nat x :: u32) < ?T" if "?t0 + ?n + 1 \<le> x" "x < ?t0 + ?n + 1 + K" for x
    proof -
      from that(1) obtain j where "x = ?t0 + ?n + 1 + j" by (auto simp: le_iff_add)
      then show ?thesis
        using later_value [of ?t0 x M] that(2) K(1) T unfolding unat_of_nat_u32 M_def [symmetric] by simp
    qed
    moreover have "time d1 < ?t0 + ?n + 1 + K" using d1(3) by simp
    ultimately obtain d' where "cycle_wait soc (\<lambda>cyc. unat cyc < ?T) d1 = Some d'" "time d' < ?t0 + ?n + 1 + 2 * K"
      using cycle_wait_returns [OF cc d1(4), of "?t0 + ?n + 1" "\<lambda>cyc. unat cyc < ?T"] by blast
    with False dwt_delay_loops [OF cc(1) n en d1(1)] show ?thesis by simp
  next
    case True
    define A where "A = ?t0 - ?t0 mod M + M"
    have T: "?T = ?t0 mod M + ?n + 1 - M" "M \<le> ?t0 mod M + ?n" "K \<le> ?T"
      using True K(2) by (simp_all add: delay_target_def delay_wraps_def M_def)
    have val: "unat (of_nat (A + j) :: u32) = j" if "j < M" for j
    proof -
      have "A = M * (?t0 div M + 1)" by (simp add: A_def minus_mod_eq_mult_div)
      then have "(A + j) mod M = j mod M" by (simp only: mod_mult_self4)
      with that show ?thesis unfolding unat_of_nat_u32 M_def [symmetric] by simp
    qed
    have A: "A + ?T = ?t0 + ?n + 1" "?t0 < A" using T(1,2) c by (simp_all add: A_def)
    have "\<not> ?T < unat (of_nat x :: u32)" if "A \<le> x" "x < A + K" for x
      using val [of "x - A"] that T(3) K(1) by (simp add: M_def)
    moreover have "time d1 < A + K" using d1(3) A(2) by simp
    ultimately obtain d2 where d2: "cycle_wait soc (\<lambda>cyc. ?T < unat cyc) d1 = Some d2" "time d2 < A + 2 * K" "running d2"
      using cycle_wait_returns [OF cc d1(4), of A "\<lambda>cyc. ?T < unat cyc"] by blast
    have "\<not> unat (of_nat x :: u32) < ?T" if "A + ?T \<le> x" "x < A + ?T + K" for x
      using val [of "x - A"] that K(1) by (simp add: M_def)
    moreover have "time d2 < A + ?T + K" using d2(2) T(3) by simp
    ultimately obtain d' where "cycle_wait soc (\<lambda>cyc. unat cyc < ?T) d2 = Some d'" "time d' < A + ?T + 2 * K"
      using cycle_wait_returns [OF cc d2(3), of "A + ?T" "\<lambda>cyc. unat cyc < ?T"] by blast
    with True d2(1) A(1) dwt_delay_loops [OF cc(1) n en d1(1)] show ?thesis by simp
  qed
qed

lemma delay_dwt:
  assumes "SDK_DELAY_USE_DWT soc" "0 < us"
  shows "SDK_DelayAtLeastUs soc us hz d =
     (if unat us * unat hz div 1000000 < 2 ^ 32 then map_option (Pair 0) (dwt_delay soc (USEC_TO_COUNT us hz) d) else None)"
proof -
  have "USEC_TO_COUNT us hz \<le> 0xFFFFFFFF \<longleftrightarrow> unat us * unat hz div 1000000 < 2 ^ 32"
    by (simp add: word_le_nat_alt usec_count) linarith
  then show ?thesis using assms
    by (auto simp: SDK_DelayAtLeastUs_def Let_def map_option_case c_assert_def split: option.split)
qed

subsection \<open>A concrete core\<close>

text \<open>Its state is the cycle count; a read of the counter takes \<open>k\<close> cycles, the trace is enabled.\<close>

definition arm_example :: "nat \<Rightarrow> nat arm_soc" where
  "arm_example k =
     \<lparr>reg_read = \<lambda>r t. if r = DWT_CYCCNT then (of_nat t, t + k) else (1, t), reg_write = \<lambda>r v t. t,
      NotAvail_IRQn = - 128, NUMBER_OF_LEVEL1_INT_VECTORS = 64, IRQSTEER_EXT_INT_MAX_NUM = 32,
      IRQSTEER_IRQ_START_INDEX = 64, IRQSTEER_EnableInterrupt = \<lambda>i irq t. nat i,
      IRQSTEER_DisableInterrupt = \<lambda>i irq t. nat i, NVIC_EnableIRQ = \<lambda>i t. t, NVIC_DisableIRQ = \<lambda>i t. t,
      NVIC_SetPriority = \<lambda>i p t. t, NVIC_ClearPendingIRQ = \<lambda>i t. t, TRCENA_Msk = 1, NOCYCCNT_Msk = 2,
      CYCCNTENA_Msk = 1, SDK_DELAY_USE_DWT = True, core = Other_Core, VECTOR_RAM = 0x20000000,
      VECTOR_TABLE = \<lambda>i. of_nat i, RAM_VECTOR_TABLE_SIZE = 0x140, CRITICAL_SECTION_MAX_ID = 255,
      CRITICAL_SECTION_INVALID_ID = 0, CRITICAL_SECTION_DEBUG = False, timestamp = \<lambda>f t. (of_nat t, t + 1)\<rparr>"

lemma arm_example_counter:
  "0 < k \<Longrightarrow> cycle_counter (arm_example k) (\<lambda>_. True) (\<lambda>_. True) (\<lambda>t. t)" "polled_within (arm_example k) (\<lambda>t. t) k"
  by (simp_all add: cycle_counter_def polled_within_def arm_example_def)

lemma arm_example_enable: "MSDK_EnableCpuCycleCounter (arm_example k) t = Some t"
  by (simp add: MSDK_EnableCpuCycleCounter_def arm_example_def)

subsection \<open>Properties\<close>

text \<open>C34: \<open>SDK_DelayAtLeastUs\<close> with the cycle counter, which may be stopped when the call begins. A request
  of more than \<open>2 ^ 32 - 1\<close> cycles fails its assertion. When the call returns, at least the requested
  number of cycles has passed since the counter was enabled, also when the 32-bit counter wraps on
  the way. When the counter is polled every \<open>K\<close> cycles and the value waited for is not within \<open>K\<close> of the
  wrap, the call does return, at most \<open>2 * K\<close> cycles late.\<close>
theorem delay_at_least:
  fixes us hz :: u32
  defines "n \<equiv> unat us * unat hz div 1000000"
  assumes "cycle_counter soc traced running time" "SDK_DELAY_USE_DWT soc" "0 < us"
    "MSDK_EnableCpuCycleCounter soc d = Some d0"
  shows "(2 ^ 32 \<le> n \<longrightarrow> SDK_DelayAtLeastUs soc us hz d = None) \<and>
         (\<forall>m d'. SDK_DelayAtLeastUs soc us hz d = Some (m, d') \<longrightarrow> time d0 + n \<le> time d') \<and>
         (\<forall>K. polled_within soc time K \<and> n < 2 ^ 32 \<and> delay_target (time d0) n + K < 2 ^ 32 \<and>
            (delay_wraps (time d0) n \<longrightarrow> K \<le> delay_target (time d0) n) \<longrightarrow>
            (\<exists>d'. SDK_DelayAtLeastUs soc us hz d = Some (0, d') \<and> time d' \<le> time d0 + n + 2 * K))"
  using dwt_delay_late [OF assms(2) _ assms(5), of "USEC_TO_COUNT us hz"]
    dwt_delay_returns [OF assms(2) _ _ assms(5), of _ "USEC_TO_COUNT us hz"]
  unfolding n_def delay_dwt [OF assms(3,4)] usec_count by (auto split: if_splits)

text \<open>
  A core whose trace unit and counter are off: the state is the count with the two enable bits, and
  the counter stands still unless both are set. The delay is 10 us at 100 MHz, from 500 cycles before
  the wrap of the counter.
\<close>

definition arm_stopped :: "(nat \<times> bool \<times> bool) arm_soc" where
  "arm_stopped =
     \<lparr>reg_read = \<lambda>r (t, tr, en). (if r = DWT_CYCCNT then of_nat t else if r = DCB_DEMCR then of_bool tr
        else if r = DWT_CTRL then of_bool en else 0, (if r = DWT_CYCCNT \<and> tr \<and> en then t + 5 else t, tr, en)),
      reg_write = \<lambda>r v (t, tr, en). (t, if r = DCB_DEMCR then odd v else tr, if r = DWT_CTRL then odd v else en),
      NotAvail_IRQn = - 128, NUMBER_OF_LEVEL1_INT_VECTORS = 64, IRQSTEER_EXT_INT_MAX_NUM = 32,
      IRQSTEER_IRQ_START_INDEX = 64, IRQSTEER_EnableInterrupt = \<lambda>i irq t. t,
      IRQSTEER_DisableInterrupt = \<lambda>i irq t. t, NVIC_EnableIRQ = \<lambda>i t. t, NVIC_DisableIRQ = \<lambda>i t. t,
      NVIC_SetPriority = \<lambda>i p t. t, NVIC_ClearPendingIRQ = \<lambda>i t. t, TRCENA_Msk = 1, NOCYCCNT_Msk = 2,
      CYCCNTENA_Msk = 1, SDK_DELAY_USE_DWT = True, core = Other_Core, VECTOR_RAM = 0x20000000,
      VECTOR_TABLE = \<lambda>i. of_nat i, RAM_VECTOR_TABLE_SIZE = 0x140, CRITICAL_SECTION_MAX_ID = 255,
      CRITICAL_SECTION_INVALID_ID = 0, CRITICAL_SECTION_DEBUG = False, timestamp = \<lambda>f t. (0, t)\<rparr>"

lemma arm_stopped_counter:
  "cycle_counter arm_stopped (\<lambda>(t, tr, en). tr) (\<lambda>(t, tr, en). tr \<and> en) fst" "polled_within arm_stopped fst 5"
proof -
  have "odd v" if "1 AND v = 1" for v :: u32 using that by (metis and_one_eq one_and_eq odd_iff_mod_2_eq_one)
  then show "cycle_counter arm_stopped (\<lambda>(t, tr, en). tr) (\<lambda>(t, tr, en). tr \<and> en) fst"
    by (auto simp: cycle_counter_def arm_stopped_def split: if_splits)
qed (simp add: polled_within_def arm_stopped_def case_prod_beta)

theorem delay_at_least_witness:
  "\<exists>t. SDK_DelayAtLeastUs arm_stopped 10 100000000 (4294966796, False, False) = Some (0, t) \<and>
     4294967796 \<le> fst t \<and> fst t \<le> 4294967806"
proof -
  have d: "delay_wraps 4294966796 1000" "delay_target 4294966796 1000 = 501"
    by (simp_all add: delay_wraps_def delay_target_def)
  have n: "unat (10 :: u32) * unat (100000000 :: u32) div 1000000 = 1000" by simp
  have e: "MSDK_EnableCpuCycleCounter arm_stopped (4294966796, False, False) = Some (4294966796, True, True)"
    by (simp add: MSDK_EnableCpuCycleCounter_def arm_stopped_def reg_set_def)
  have "SDK_DELAY_USE_DWT arm_stopped" "(0 :: u32) < 10" by (simp_all add: arm_stopped_def)
  note p = delay_at_least [OF arm_stopped_counter(1) this e, of "100000000", unfolded n]
  have K: "polled_within arm_stopped fst 5 \<and> (1000 :: nat) < 2 ^ 32 \<and>
      delay_target (fst (4294966796 :: nat, True, True)) 1000 + 5 < 2 ^ 32 \<and>
      (delay_wraps (fst (4294966796 :: nat, True, True)) 1000 \<longrightarrow>
       5 \<le> delay_target (fst (4294966796 :: nat, True, True)) 1000)"
    using arm_stopped_counter(2) d by simp
  from mp [OF spec [OF p [THEN conjunct2, THEN conjunct2], of 5] K] obtain t where
    t: "SDK_DelayAtLeastUs arm_stopped 10 100000000 (4294966796, False, False) = Some (0, t)"
      "fst t \<le> fst (4294966796 :: nat, True, True) + 1000 + 2 * 5" by blast
  from p [THEN conjunct2, THEN conjunct1, THEN spec, THEN spec, THEN mp, OF t(1)]
  have "fst (4294966796 :: nat, True, True) + 1000 \<le> fst t" .
  with t show ?thesis by (intro exI [of _ t]) simp
qed

subsection \<open>Delays that take too long\<close>

text \<open>
  When the value waited for is just below the wrap, polling can step over it: the counter at
  0xFFFFFFE6, a delay of 25 cycles and a poll every two cycles never end.
\<close>

lemma delay_missed: "SDK_DelayAtLeastUs (arm_example 2) 1 25000000 0xFFFFFFE6 = None"
proof (rule ccontr)
  have cc: "cycle_counter (arm_example 2) (\<lambda>_. True) (\<lambda>_. True) (\<lambda>t. t)" by (rule arm_example_counter) simp
  have c: "unat (USEC_TO_COUNT 1 25000000) = 25" by (simp add: usec_count)
  have d: "\<not> delay_wraps 0xFFFFFFE6 25" "delay_target 0xFFFFFFE6 25 = 0xFFFFFFFF"
    by (simp_all add: delay_wraps_def delay_target_def)
  have r: "MSDK_GetCpuCycleCount (arm_example 2) 0xFFFFFFE6 = (of_nat 0xFFFFFFE6, 0xFFFFFFE8)"
    by (simp add: MSDK_GetCpuCycleCount_def arm_example_def)
  have "SDK_DELAY_USE_DWT (arm_example 2)" "(0 :: u32) < 1" by (simp_all add: arm_example_def)
  note delay_dwt [OF this, of 25000000 "0xFFFFFFE6"]
  moreover assume "SDK_DelayAtLeastUs (arm_example 2) 1 25000000 0xFFFFFFE6 \<noteq> None"
  ultimately obtain t where "dwt_delay (arm_example 2) (USEC_TO_COUNT 1 25000000) 0xFFFFFFE6 = Some t"
    by (auto split: if_splits)
  moreover note dwt_delay_loops [OF cc _ arm_example_enable r, of "USEC_TO_COUNT 1 25000000"]
  ultimately have "cycle_wait (arm_example 2) (\<lambda>cyc. unat cyc < 0xFFFFFFFF) 0xFFFFFFE8 = Some t"
    by (simp add: c d)
  from cycle_wait_exit [OF cc this TrueI, of even] obtain e where e: "even e" "\<not> unat (of_nat e :: u32) < 0xFFFFFFFF"
    by (auto simp: arm_example_def)
  have "even (e mod 2 ^ 32)" using e(1) by (simp add: dvd_mod)
  moreover have "e mod 2 ^ 32 < 2 ^ 32" by simp
  ultimately show False using e(2) unfolding unat_of_nat_u32 by (cases "e mod 2 ^ 32 = 2 ^ 32 - 1") auto
qed

text \<open>
  Without the cycle counter, a delay shorter than one iteration of the software loop becomes a
  count of 0, and the loop, which decrements before it tests, runs through all 32-bit values.
\<close>

lemma DelayLoop_iterations: "DelayLoop (count :: 'w::len word) = unat (count - 1) + 1"
proof (induction count rule: DelayLoop.induct)
  case (1 count)
  show ?case
  proof (cases "count - 1 = 0")
    case False
    have "unat (r - 1) + 1 = unat r" if "r \<noteq> 0" for r :: "'w word"
      using that unat_pred [OF that] by (simp add: unat_minus_small unat_gt_0 Suc_le_eq)
    then have "unat (count - 1 - 1) + 1 = unat (count - 1)" using False by blast
    with 1 [OF refl False] False show ?thesis by (subst DelayLoop.simps) (simp add: Let_def)
  qed (subst DelayLoop.simps, simp)
qed

lemma delay_loop_short:
  "SDK_DelayAtLeastUs (arm_example 1\<lparr>SDK_DELAY_USE_DWT := False\<rparr>) 1 3000000 t = Some (2 ^ 32, t)"
proof -
  have "USEC_TO_COUNT 1 3000000 = 3" by code_simp
  moreover have "DelayLoop (0 :: u32) = 2 ^ 32" unfolding DelayLoop_iterations
    by (simp add: unsigned_minus_1_eq_mask mask_eq_exp_minus_1)
  ultimately show ?thesis by (simp add: SDK_DelayAtLeastUs_def arm_example_def)
qed

text \<open>
  \<open>EnableIRQ\<close> and \<open>DisableIRQ\<close> compute the steering instance of an interrupt differently: for the
  last interrupt of an instance they address different instances.
\<close>

lemma irqsteer_instance_mismatch:
  "snd (EnableIRQ (arm_example 1) 95 t) = 1" "snd (DisableIRQ (arm_example 1) 95 t) = 0"
  by (simp_all add: EnableIRQ_def DisableIRQ_def arm_example_def above_level1_def has_irqsteer_def signed_divide_int_def)

text \<open>A critical section that is entered with interrupts enabled (mask 0) is not measured.\<close>

lemma critical_section_unmeasured:
  assumes "a_primask s = 0"
  shows "DisableGlobalIRQEx soc i s = Some (0, s\<lparr>a_primask := 1\<rparr>)"
    "EnableGlobalIRQEx soc 0 (s\<lparr>a_primask := 1\<rparr>) = Some s"
  using assms by (simp_all add: DisableGlobalIRQEx_def EnableGlobalIRQEx_def DisableGlobalIRQ_def EnableGlobalIRQ_def)

end
