(* ===== verification/Sdk_Atomic.thy ===== *)
theory Sdk_Atomic
  imports Sdk_Memory
begin

text \<open>
  The atomic local operations of \<open>drivers/common/fsl_common_arm.h\<close> on a variable that interrupt
  handlers change too. With load- and store-exclusive instructions they retry until the store
  succeeds; without them they mask interrupts.

  The functions for one, two and four bytes differ only in the width of the variable, which is
  the type \<open>'w\<close> here. The exclusive instructions on the variable are parameters; what happens
  between two instructions is part of them.
\<close>

subsection \<open>The functions\<close>

record ('v, 'd) exclusive =
  LDREX :: "'d \<Rightarrow> 'v \<times> 'd"
  STREX :: "'v \<Rightarrow> 'd \<Rightarrow> u32 \<times> 'd"
  CLREX :: "'d \<Rightarrow> 'd"

partial_function (option) SDK_ATOMIC_LOCAL_OPS ::
    "('w::len word, 'd) exclusive \<Rightarrow> ('w word \<Rightarrow> 'w word) \<Rightarrow> 'd \<Rightarrow> 'd option" where
  "SDK_ATOMIC_LOCAL_OPS mon ops d =
     (let (s_val, d) = LDREX mon d;
          s_val = ops s_val;
          (failed, d) = STREX mon s_val d
      in if 0 \<noteq> failed then SDK_ATOMIC_LOCAL_OPS mon ops d else Some d)"

definition SDK_AtomicLocalAdd :: "('w::len word, 'd) exclusive \<Rightarrow> 'w word \<Rightarrow> 'd \<Rightarrow> 'd option" where
  "SDK_AtomicLocalAdd mon val d = SDK_ATOMIC_LOCAL_OPS mon (\<lambda>s_val. s_val + val) d"

definition SDK_AtomicLocalSub :: "('w::len word, 'd) exclusive \<Rightarrow> 'w word \<Rightarrow> 'd \<Rightarrow> 'd option" where
  "SDK_AtomicLocalSub mon val d = SDK_ATOMIC_LOCAL_OPS mon (\<lambda>s_val. s_val - val) d"

definition SDK_AtomicLocalSet :: "('w::len word, 'd) exclusive \<Rightarrow> 'w word \<Rightarrow> 'd \<Rightarrow> 'd option" where
  "SDK_AtomicLocalSet mon bits d = SDK_ATOMIC_LOCAL_OPS mon (\<lambda>s_val. s_val OR bits) d"

definition SDK_AtomicLocalClear :: "('w::len word, 'd) exclusive \<Rightarrow> 'w word \<Rightarrow> 'd \<Rightarrow> 'd option" where
  "SDK_AtomicLocalClear mon bits d = SDK_ATOMIC_LOCAL_OPS mon (\<lambda>s_val. s_val AND NOT bits) d"

definition SDK_AtomicLocalToggle :: "('w::len word, 'd) exclusive \<Rightarrow> 'w word \<Rightarrow> 'd \<Rightarrow> 'd option" where
  "SDK_AtomicLocalToggle mon bits d = SDK_ATOMIC_LOCAL_OPS mon (\<lambda>s_val. s_val XOR bits) d"

definition SDK_AtomicLocalClearAndSet :: "('w::len word, 'd) exclusive \<Rightarrow> 'w word \<Rightarrow> 'w word \<Rightarrow> 'd \<Rightarrow> 'd option" where
  "SDK_AtomicLocalClearAndSet mon clearBits setBits d =
     SDK_ATOMIC_LOCAL_OPS mon (\<lambda>s_val. (s_val AND NOT clearBits) OR setBits) d"

partial_function (option) SDK_AtomicLocalCompareAndSet ::
    "('w::len word, 'd) exclusive \<Rightarrow> 'w word \<Rightarrow> 'w word \<Rightarrow> 'd \<Rightarrow> (bool \<times> 'd) option" where
  "SDK_AtomicLocalCompareAndSet mon expected newValue d =
     (let (s_actual, d) = LDREX mon d
      in if s_actual \<noteq> expected then Some (False, CLREX mon d)
         else let (failed, d) = STREX mon newValue d
              in if failed \<noteq> 0 then SDK_AtomicLocalCompareAndSet mon expected newValue d else Some (True, d))"

partial_function (option) SDK_AtomicLocalTestAndSet ::
    "('w::len word, 'd) exclusive \<Rightarrow> 'w word \<Rightarrow> 'd \<Rightarrow> ('w word \<times> 'd) option" where
  "SDK_AtomicLocalTestAndSet mon newValue d =
     (let (s_old, d) = LDREX mon d;
          (failed, d) = STREX mon newValue d
      in if failed \<noteq> 0 then SDK_AtomicLocalTestAndSet mon newValue d else Some (s_old, d))"

text \<open>The variants for cores without exclusive instructions, on memory and the interrupt mask.\<close>

definition read_u32 :: "mem \<Rightarrow> u32 \<Rightarrow> u32" where
  "read_u32 m a = ucast (read_u16 m a) OR push_bit 16 (ucast (read_u16 m (a + 2)))"

definition write_u32 :: "mem \<Rightarrow> u32 \<Rightarrow> u32 \<Rightarrow> mem" where
  "write_u32 m a v = write_u16 (write_u16 m a (ucast v)) (a + 2) (ucast (drop_bit 16 v))"

definition masked_AtomicLocalCompareAndSet :: "u32 \<Rightarrow> u32 \<Rightarrow> u32 \<Rightarrow> mem \<times> u32 \<Rightarrow> bool \<times> mem \<times> u32" where
  "masked_AtomicLocalCompareAndSet addr expected newValue s =
     (let (m, primask) = s;
          (s_atomicOldInt, primask) = DisableGlobalIRQ primask;
          s_actual = read_u32 m addr
      in if s_actual = expected then (True, write_u32 m addr newValue, EnableGlobalIRQ s_atomicOldInt primask)
         else (False, m, EnableGlobalIRQ s_atomicOldInt primask))"

definition masked_AtomicTestAndSet :: "u32 \<Rightarrow> u32 \<Rightarrow> mem \<times> u32 \<Rightarrow> u32 \<times> mem \<times> u32" where
  "masked_AtomicTestAndSet addr newValue s =
     (let (m, primask) = s;
          (s_atomicOldInt, primask) = DisableGlobalIRQ primask;
          oldValue = read_u32 m addr
      in (oldValue, write_u32 m addr newValue, EnableGlobalIRQ s_atomicOldInt primask))"

subsection \<open>The history of a variable\<close>

text \<open>
  \<open>hist\<close> lists the values the variable has had, the present one last, each marked with whether
  this code wrote it. The exclusive monitor: a load returns the present value, and a store that
  follows it succeeds only if no other write came between; it is then the next value. Other
  writes may come before a load and after a store.
\<close>

type_synonym 'w history = "(bool \<times> 'w word) list"

definition others :: "'w::len history \<Rightarrow> bool" where
  "others h \<longleftrightarrow> (\<forall>e \<in> set h. \<not> fst e)"

definition exclusive_monitor :: "('w::len word, 'd) exclusive \<Rightarrow> ('d \<Rightarrow> 'w history) \<Rightarrow> bool" where
  "exclusive_monitor mon hist \<longleftrightarrow>
     (\<forall>d. hist d \<noteq> []) \<and>
     (\<forall>d v d1. LDREX mon d = (v, d1) \<longrightarrow>
        (\<exists>xs. others xs \<and> hist d1 = hist d @ xs \<and> v = snd (last (hist d1))) \<and>
        (\<forall>w r d2. STREX mon w d1 = (r, d2) \<longrightarrow>
           (\<exists>ys. others ys \<and> hist d2 = hist d1 @ (if r = 0 then [(True, w)] else []) @ ys))) \<and>
     (\<forall>d. \<exists>ys. others ys \<and> hist (CLREX mon d) = hist d @ ys)"

text \<open>A store fails only so often in a row.\<close>

definition retries_end :: "('w::len word, 'd) exclusive \<Rightarrow> ('d \<Rightarrow> nat) \<Rightarrow> bool" where
  "retries_end mon budget \<longleftrightarrow>
     (\<forall>d v d1 w r d2. LDREX mon d = (v, d1) \<and> STREX mon w d1 = (r, d2) \<and> r \<noteq> 0 \<longrightarrow> budget d2 < budget d)"

text \<open>One write by this code, of the value \<open>w\<close> onto the value \<open>v\<close>, with nothing between.\<close>

definition written_once :: "'w::len word \<Rightarrow> 'w word \<Rightarrow> 'w history \<Rightarrow> 'w history \<Rightarrow> bool" where
  "written_once v w h h' \<longleftrightarrow>
     (\<exists>xs ys. others xs \<and> others ys \<and> v = snd (last (h @ xs)) \<and> h' = h @ xs @ [(True, w)] @ ys)"

lemma others_append [simp]: "others (xs @ ys) \<longleftrightarrow> others xs \<and> others ys"
  by (auto simp: others_def)

lemma written_onceI:
  "others xs \<Longrightarrow> others ys \<Longrightarrow> written_once (snd (last (h @ xs))) w h (h @ xs @ [(True, w)] @ ys)"
  unfolding written_once_def by blast

text \<open>Writes of others in front of the write are part of it.\<close>

lemma written_once_before: "others zs \<Longrightarrow> written_once v w (h @ zs) h' \<Longrightarrow> written_once v w h h'"
  unfolding written_once_def by (metis append.assoc others_append)

lemma monitor_step:
  assumes "exclusive_monitor mon hist" "LDREX mon d = (v, d1)" "STREX mon w d1 = (r, d2)"
  obtains "r = 0" "written_once v w (hist d) (hist d2)"
  | zs where "r \<noteq> 0" "others zs" "hist d2 = hist d @ zs"
proof -
  from assms obtain xs ys where "others xs" "hist d1 = hist d @ xs" "v = snd (last (hist d1))" "others ys"
    "hist d2 = hist d1 @ (if r = 0 then [(True, w)] else []) @ ys"
    unfolding exclusive_monitor_def by blast
  then show ?thesis using that(1) that(2) [of "xs @ ys"] written_onceI [of xs ys "hist d" w] by (cases "r = 0") simp_all
qed

subsection \<open>The loops\<close>

lemma atomic_ops_once:
  assumes "SDK_ATOMIC_LOCAL_OPS mon f d = Some d'" "exclusive_monitor mon hist"
  shows "\<exists>v. written_once v (f v) (hist d) (hist d')"
  using assms
proof (induction mon f d d' rule: SDK_ATOMIC_LOCAL_OPS.raw_induct [rotated, consumes 1])
  case (1 loop mon f d d')
  note ih = 1(1) and step = 1(2) and mon = 1(3)
  obtain v d1 r d2 where l: "LDREX mon d = (v, d1)" "STREX mon (f v) d1 = (r, d2)" by (metis surj_pair)
  from mon l show ?case
  proof (cases rule: monitor_step)
    case 1
    with step l show ?thesis by auto
  next
    case (2 zs)
    with step l have "loop mon f d2 = Some d'" by simp
    from ih [OF this mon] 2 show ?thesis by (auto intro: written_once_before)
  qed
qed

lemma compare_and_set_once:
  assumes "SDK_AtomicLocalCompareAndSet mon expected new d = Some (b, d')" "exclusive_monitor mon hist"
  shows "if b then written_once expected new (hist d) (hist d')
         else \<exists>xs ys. others xs \<and> others ys \<and> hist d' = hist d @ xs @ ys \<and> snd (last (hist d @ xs)) \<noteq> expected"
proof -
  have "SDK_AtomicLocalCompareAndSet mon expected new d = Some p \<Longrightarrow> exclusive_monitor mon hist \<Longrightarrow>
      if fst p then written_once expected new (hist d) (hist (snd p))
      else \<exists>xs ys. others xs \<and> others ys \<and> hist (snd p) = hist d @ xs @ ys \<and> snd (last (hist d @ xs)) \<noteq> expected" for p
  proof (induction mon expected new d p rule: SDK_AtomicLocalCompareAndSet.raw_induct [rotated, consumes 1])
    case (1 loop mon expected new d p)
    note ih = 1(1) and step = 1(2) and mon = 1(3)
    obtain v d1 r d2 where l: "LDREX mon d = (v, d1)" "STREX mon new d1 = (r, d2)" by (metis surj_pair)
    show ?case
    proof (cases "v = expected")
      case False
      from 1(3) l(1) obtain xs where xs: "others xs" "hist d1 = hist d @ xs" "v = snd (last (hist d @ xs))"
        unfolding exclusive_monitor_def by metis
      moreover from 1(3) obtain ys where "others ys" "hist (CLREX mon d1) = hist d1 @ ys"
        unfolding exclusive_monitor_def by blast
      moreover have "p = (False, CLREX mon d1)" using 1(2) l(1) False by simp
      ultimately show ?thesis using False by (simp, blast)
    next
      case True
      from mon l show ?thesis
      proof (cases rule: monitor_step)
        case 1
        with True step l show ?thesis by auto
      next
        case (2 zs)
        with step l True have "loop mon expected new d2 = Some p" by simp
        note ih = ih [OF this mon]
        show ?thesis
        proof (cases "fst p")
          case True
          with ih 2 written_once_before show ?thesis by auto
        next
          case False
          with ih obtain xs ys where "others xs" "others ys" "hist (snd p) = hist d2 @ xs @ ys" "snd (last (hist d2 @ xs)) \<noteq> expected"
            by auto
          then have "others (zs @ xs) \<and> others ys \<and> hist (snd p) = hist d @ (zs @ xs) @ ys \<and> snd (last (hist d @ (zs @ xs))) \<noteq> expected"
            using 2 by simp
          with False show ?thesis unfolding if_not_P [OF False] by blast
        qed
      qed
    qed
  qed
  from this [OF assms] show ?thesis unfolding fst_conv snd_conv .
qed

lemma test_and_set_once:
  assumes "SDK_AtomicLocalTestAndSet mon new d = Some (v, d')" "exclusive_monitor mon hist"
  shows "written_once v new (hist d) (hist d')"
proof -
  have "SDK_AtomicLocalTestAndSet mon new d = Some p \<Longrightarrow> exclusive_monitor mon hist \<Longrightarrow>
      written_once (fst p) new (hist d) (hist (snd p))" for p
  proof (induction mon new d p rule: SDK_AtomicLocalTestAndSet.raw_induct [rotated, consumes 1])
    case (1 loop mon new d p)
    note ih = 1(1) and step = 1(2) and mon = 1(3)
    obtain v d1 r d2 where l: "LDREX mon d = (v, d1)" "STREX mon new d1 = (r, d2)" by (metis surj_pair)
    from mon l show ?case
    proof (cases rule: monitor_step)
      case 1
      with step l show ?thesis by auto
    next
      case (2 zs)
      with step l have "loop mon new d2 = Some p" by simp
      from ih [OF this mon] 2 show ?thesis by (auto intro: written_once_before)
    qed
  qed
  from this [OF assms] show ?thesis by simp
qed

lemma retry_induct:
  assumes "retries_end mon budget"
    "\<And>d v d1 w r d2. LDREX mon d = (v, d1) \<Longrightarrow> STREX mon (g v) d1 = (r, d2) \<Longrightarrow> (r \<noteq> 0 \<Longrightarrow> P d2) \<Longrightarrow> P d"
  shows "P d"
proof (induction "budget d" arbitrary: d rule: less_induct)
  case less
  obtain v d1 r d2 where l: "LDREX mon d = (v, d1)" "STREX mon (g v) d1 = (r, d2)" by (metis surj_pair)
  have "P d2" if "r \<noteq> 0"
    using that assms(1) l less unfolding retries_end_def by blast
  with assms(2) l show ?case by blast
qed

lemma atomic_ops_returns:
  assumes "retries_end mon budget"
  shows "\<exists>d'. SDK_ATOMIC_LOCAL_OPS mon f d = Some d'"
  by (rule retry_induct [OF assms, of f]) (subst SDK_ATOMIC_LOCAL_OPS.simps, auto)

lemma compare_and_set_returns:
  assumes "retries_end mon budget"
  shows "\<exists>b d'. SDK_AtomicLocalCompareAndSet mon expected new d = Some (b, d')"
  by (rule retry_induct [OF assms, of "\<lambda>v. new"]) (subst SDK_AtomicLocalCompareAndSet.simps, auto)

lemma test_and_set_returns:
  assumes "retries_end mon budget"
  shows "\<exists>v d'. SDK_AtomicLocalTestAndSet mon new d = Some (v, d')"
  by (rule retry_induct [OF assms, of "\<lambda>v. new"]) (subst SDK_AtomicLocalTestAndSet.simps, auto)

subsection \<open>Properties\<close>

text \<open>What an atomic operation promises: it returns, and its one write applies \<open>f\<close>.\<close>

definition atomic_op :: "('d \<Rightarrow> 'w::len history) \<Rightarrow> ('d \<Rightarrow> 'd option) \<Rightarrow> ('w word \<Rightarrow> 'w word) \<Rightarrow> bool" where
  "atomic_op hist op f \<longleftrightarrow> (\<forall>d. \<exists>d' v. op d = Some d' \<and> written_once v (f v) (hist d) (hist d'))"

lemma atomic_ops_atomic:
  assumes "exclusive_monitor mon hist" "retries_end mon budget"
  shows "atomic_op hist (SDK_ATOMIC_LOCAL_OPS mon f) f"
  unfolding atomic_op_def using atomic_ops_once [OF _ assms(1)] atomic_ops_returns [OF assms(2)] by metis

text \<open>C35: The atomic operations on a variable that interrupt handlers write as well, on a core whose
  exclusive stores fail only finitely often in a row: every operation returns, has written the
  variable exactly once, and what it wrote is its function of the value that was there
  immediately before, so that no update is lost. Compare-and-set writes exactly when it reports
  success, and then onto the expected value; a failure saw another value. Test-and-set
  returns the value that it replaced.\<close>
theorem atomic_updates:
  fixes mon :: "('w::len word, 'd) exclusive"
  assumes "exclusive_monitor mon hist" "retries_end mon budget"
  shows "atomic_op hist (SDK_AtomicLocalAdd mon val) (\<lambda>v. v + val) \<and>
    atomic_op hist (SDK_AtomicLocalSub mon val) (\<lambda>v. v - val) \<and>
    atomic_op hist (SDK_AtomicLocalSet mon val) (\<lambda>v. v OR val) \<and>
    atomic_op hist (SDK_AtomicLocalClear mon val) (\<lambda>v. v AND NOT val) \<and>
    atomic_op hist (SDK_AtomicLocalToggle mon val) (\<lambda>v. v XOR val) \<and>
    atomic_op hist (SDK_AtomicLocalClearAndSet mon val val') (\<lambda>v. (v AND NOT val) OR val') \<and>
    (\<exists>b d'. SDK_AtomicLocalCompareAndSet mon expected val d = Some (b, d') \<and>
       (if b then written_once expected val (hist d) (hist d')
        else \<exists>xs ys. others xs \<and> others ys \<and> hist d' = hist d @ xs @ ys \<and> snd (last (hist d @ xs)) \<noteq> expected)) \<and>
    (\<exists>v d'. SDK_AtomicLocalTestAndSet mon val d = Some (v, d') \<and> written_once v val (hist d) (hist d'))"
proof -
  note ops = atomic_ops_atomic [OF assms]
  obtain b d' where cas: "SDK_AtomicLocalCompareAndSet mon expected val d = Some (b, d')"
    using compare_and_set_returns [OF assms(2)] by blast
  obtain v d2 where tas: "SDK_AtomicLocalTestAndSet mon val d = Some (v, d2)"
    using test_and_set_returns [OF assms(2)] by blast
  show ?thesis
    unfolding SDK_AtomicLocalAdd_def SDK_AtomicLocalSub_def SDK_AtomicLocalSet_def SDK_AtomicLocalClear_def
      SDK_AtomicLocalToggle_def SDK_AtomicLocalClearAndSet_def
    using compare_and_set_once [OF cas assms(1)] cas test_and_set_once [OF tas assms(1)] tas
    by (intro conjI ops) blast+
qed

text \<open>
  A variable of one byte, initially 0, that an interrupt sets to 99 during each of the next \<open>n\<close>
  attempts.
\<close>

definition example_monitor :: "(u8, 8 history \<times> nat) exclusive" where
  "example_monitor =
     \<lparr>LDREX = \<lambda>d. (snd (last ((False, 0) # fst d)), d),
      STREX = \<lambda>w d. if snd d = 0 then (0, fst d @ [(True, w)], 0) else (1, fst d @ [(False, 99)], snd d - 1),
      CLREX = \<lambda>d. d\<rparr>"

lemma example_monitor_ok:
  "exclusive_monitor example_monitor (\<lambda>d. (False, 0) # fst d)" "retries_end example_monitor snd"
  by (auto simp: exclusive_monitor_def retries_end_def example_monitor_def others_def)

theorem atomic_updates_witness:
  "\<exists>d' v. SDK_AtomicLocalAdd example_monitor 5 ([], 2) = Some d' \<and> written_once v (v + 5) [(False, 0)] ((False, 0) # fst d')"
  using atomic_updates [OF example_monitor_ok, of 5 0 0 "([], 2)"] unfolding atomic_op_def by fastforce

text \<open>
  Without exclusive instructions, compare-and-set treats every variable as one of four bytes: on
  a one-byte variable it writes its three neighbours too.
\<close>

lemma masked_byte_neighbours:
  "case masked_AtomicLocalCompareAndSet 0x100 0 7 ((\<lambda>a. 0), 0) of (b, m, primask) \<Rightarrow> b \<and> primask = 0 \<and> mem_bytes m 0x100 4 = [7, 0, 0, 0]"
  "case masked_AtomicLocalCompareAndSet 0x100 1 7 ((\<lambda>a. if a = 0x100 then 1 else 5), 0) of (b, m, primask) \<Rightarrow> \<not> b"
  "case masked_AtomicTestAndSet 0x100 7 ((\<lambda>a. 5), 0) of (v, m, primask) \<Rightarrow> mem_bytes m 0x100 4 = [7, 0, 0, 0]"
  by code_simp+

end
