(* ===== verification/Ostimer.thy ===== *)
theory Ostimer
  imports Common
begin

text \<open>
  \<open>drivers/ostimer/fsl_ostimer.c\<close> and the inline functions of \<open>fsl_ostimer.h\<close>: the event timer,
  whose counter and match registers are Gray coded on most devices. The definitions, the
  conversions against the reflected binary code, and reading the two halves of the running
  counter.
\<close>

type_synonym u64 = "64 word"

subsection \<open>Data\<close>

datatype ostimer_reg =
    OSEVENT_CTRL | MATCH_L | MATCH_H | EVTIMERL | EVTIMERH | CAPTURE_L | CAPTURE_H
  | CODE_GRAY_LSB | CODE_GRAY_MSB | CODE_BIN_LSB | CODE_BIN_MSB

text \<open>Clock, reset and interrupt calls are parameters; \<open>os_invoke\<close> runs a callback.\<close>

record 'd ostimer_soc = "(ostimer_reg, 'd) mmio" +
  OSTIMER_INTENA_MASK :: u32
  OSTIMER_INTRFLAG_MASK :: u32
  MATCH_WR_RDY_MASK :: "u32 option"
  HAS_CODE_GRAY :: bool
  HAS_BINARY_ENCODED_COUNTER :: bool
  os_clock_control :: bool
  os_32k_clock :: bool
  os_resets :: bool
  ostimer_bases :: "u32 list"
  ostimer_cmse :: bool
  os_EnableIRQ :: "nat \<Rightarrow> 'd \<Rightarrow> 'd"
  os_DisableIRQ :: "nat \<Rightarrow> 'd \<Rightarrow> 'd"
  CLOCK_EnableOstimer32kClock :: "'d \<Rightarrow> 'd"
  os_EnableClock :: "nat \<Rightarrow> 'd \<Rightarrow> 'd"
  os_DisableClock :: "nat \<Rightarrow> 'd \<Rightarrow> 'd"
  os_EnableSysctlClock :: "'d \<Rightarrow> 'd"
  os_DisableSysctlClock :: "'d \<Rightarrow> 'd"
  RESET_ReleasePeripheralReset :: "nat \<Rightarrow> 'd \<Rightarrow> 'd"

text \<open>The device with the statics \<open>s_ostimerHandle\<close> and \<open>s_ostimerIsr\<close> (set or null).\<close>

record 'd ostimer =
  os_dev :: 'd
  s_ostimerHandle :: "nat \<Rightarrow> nat option"
  s_ostimerIsr :: bool

definition on_os :: "('d \<Rightarrow> 'd) \<Rightarrow> 'd ostimer \<Rightarrow> 'd ostimer" where
  "on_os f s = s\<lparr>os_dev := f (os_dev s)\<rparr>"

subsection \<open>The driver\<close>

definition OSTIMER_GetInstance :: "'d ostimer_soc \<Rightarrow> u32 \<Rightarrow> nat option" where
  "OSTIMER_GetInstance soc base = do {
     let i = find_base (ostimer_cmse soc) (ostimer_bases soc) base;
     c_assert (i < length (ostimer_bases soc));
     Some i
   }"

definition OSTIMER_DecimalToGray :: "u64 \<Rightarrow> u64" where
  "OSTIMER_DecimalToGray dec = dec XOR drop_bit 1 dec"

definition OSTIMER_GrayToDecimalbyCodeGray :: "'d ostimer_soc \<Rightarrow> u64 \<Rightarrow> 'd \<Rightarrow> u64 \<times> 'd" where
  "OSTIMER_GrayToDecimalbyCodeGray soc gray d =
     (let d = reg_write soc CODE_GRAY_LSB (ucast (gray AND 0xFFFFFFFF)) d;
          d = reg_write soc CODE_GRAY_MSB (ucast (drop_bit 32 gray AND 0x3FF)) d;
          (msb, d) = reg_read soc CODE_BIN_MSB d;
          decOut = push_bit 32 (ucast msb AND 0x3FF);
          (lsb, d) = reg_read soc CODE_BIN_LSB d
      in (decOut OR ucast lsb, d))"

text \<open>One line of the software conversion, \<open>gray ^= gray >> n\<close>.\<close>

definition xor_shift :: "nat \<Rightarrow> u64 \<Rightarrow> u64" where
  "xor_shift n gray = gray XOR drop_bit n gray"

definition gray_to_decimal :: "u64 \<Rightarrow> u64" where
  "gray_to_decimal gray =
     (let gray = xor_shift 32 gray;
          gray = xor_shift 16 gray;
          gray = xor_shift 8 gray;
          gray = xor_shift 4 gray;
          gray = xor_shift 2 gray;
          gray = xor_shift 1 gray
      in gray)"

definition OSTIMER_GrayToDecimal :: "'d ostimer_soc \<Rightarrow> u64 \<Rightarrow> 'd \<Rightarrow> u64 \<times> 'd" where
  "OSTIMER_GrayToDecimal soc gray d =
     (if HAS_CODE_GRAY soc then OSTIMER_GrayToDecimalbyCodeGray soc gray d else (gray_to_decimal gray, d))"

definition OSTIMER_EnableInterrupt :: "'d ostimer_soc \<Rightarrow> u32 \<Rightarrow> bool \<Rightarrow> 'd \<Rightarrow> 'd option" where
  "OSTIMER_EnableInterrupt soc base enable d = do {
     c_assert (base \<noteq> 0);
     inst \<leftarrow> OSTIMER_GetInstance soc base;
     Some (if enable then reg_set soc OSEVENT_CTRL (OSTIMER_INTENA_MASK soc) (os_EnableIRQ soc inst d)
           else reg_clear soc OSEVENT_CTRL (OSTIMER_INTENA_MASK soc) (os_DisableIRQ soc inst d))
   }"

definition OSTIMER_Init :: "'d ostimer_soc \<Rightarrow> u32 \<Rightarrow> 'd \<Rightarrow> 'd option" where
  "OSTIMER_Init soc base d = do {
     c_assert (base \<noteq> 0);
     inst \<leftarrow> OSTIMER_GetInstance soc base;
     let d = (if os_clock_control soc then
                let d = (if os_32k_clock soc then CLOCK_EnableOstimer32kClock soc d else d);
                    d = os_EnableClock soc inst d
                in if HAS_CODE_GRAY soc then os_EnableSysctlClock soc d else d
              else d);
     Some (if os_resets soc then RESET_ReleasePeripheralReset soc inst d else d)
   }"

definition OSTIMER_Deinit :: "'d ostimer_soc \<Rightarrow> u32 \<Rightarrow> 'd \<Rightarrow> 'd option" where
  "OSTIMER_Deinit soc base d =
     (if os_clock_control soc then do {
        d \<leftarrow> OSTIMER_EnableInterrupt soc base False d;
        inst \<leftarrow> OSTIMER_GetInstance soc base;
        let d = os_DisableClock soc inst d;
        Some (if HAS_CODE_GRAY soc then os_DisableSysctlClock soc d else d)
      } else Some d)"

definition OSTIMER_GetStatusFlags :: "'d ostimer_soc \<Rightarrow> 'd \<Rightarrow> u32 \<times> 'd" where
  "OSTIMER_GetStatusFlags soc d = (let (v, d) = reg_read soc OSEVENT_CTRL d in (v AND OSTIMER_INTRFLAG_MASK soc, d))"

definition OSTIMER_ClearStatusFlags :: "'d ostimer_soc \<Rightarrow> u32 \<Rightarrow> 'd \<Rightarrow> 'd" where
  "OSTIMER_ClearStatusFlags soc m d = reg_set soc OSEVENT_CTRL m d"

text \<open>\<open>while (0U != (base->OSEVENT_CTRL & OSTIMER_OSEVENT_CTRL_MATCH_WR_RDY_MASK)) {}\<close>\<close>

partial_function (option) match_ready :: "'d ostimer_soc \<Rightarrow> u32 \<Rightarrow> 'd \<Rightarrow> 'd option" where
  "match_ready soc m d =
     (let (v, d) = reg_read soc OSEVENT_CTRL d in if 0 \<noteq> v AND m then match_ready soc m d else Some d)"

definition OSTIMER_SetMatchRegister :: "'d ostimer_soc \<Rightarrow> u64 \<Rightarrow> 'd \<Rightarrow> 'd option" where
  "OSTIMER_SetMatchRegister soc value d = do {
     d \<leftarrow> (case MATCH_WR_RDY_MASK soc of None \<Rightarrow> Some d | Some m \<Rightarrow> match_ready soc m d);
     let d = reg_write soc MATCH_L (ucast (value AND 0xFFFFFFFF)) d;
     Some (reg_write soc MATCH_H (ucast (drop_bit 32 value)) d)
   }"

text \<open>A 64-bit value from two registers, the low half read first.\<close>

definition read_halves :: "'d ostimer_soc \<Rightarrow> ostimer_reg \<Rightarrow> ostimer_reg \<Rightarrow> 'd \<Rightarrow> u64 \<times> 'd" where
  "read_halves soc lo hi d =
     (let (l, d) = reg_read soc lo d;
          tmp = ucast l;
          (h, d) = reg_read soc hi d
      in (tmp OR push_bit 32 (ucast h), d))"

definition OSTIMER_GetMatchRegister :: "'d ostimer_soc \<Rightarrow> 'd \<Rightarrow> u64 \<times> 'd" where
  "OSTIMER_GetMatchRegister soc d = read_halves soc MATCH_L MATCH_H d"

definition OSTIMER_GetMatchValue :: "'d ostimer_soc \<Rightarrow> 'd \<Rightarrow> u64 \<times> 'd" where
  "OSTIMER_GetMatchValue soc d =
     (let (value, d) = OSTIMER_GetMatchRegister soc d in OSTIMER_GrayToDecimal soc value d)"

definition OSTIMER_EnableMatchInterrupt :: "'d ostimer_soc \<Rightarrow> 'd \<Rightarrow> 'd" where
  "OSTIMER_EnableMatchInterrupt soc d = reg_set soc OSEVENT_CTRL (OSTIMER_INTENA_MASK soc) d"

definition OSTIMER_DisableMatchInterrupt :: "'d ostimer_soc \<Rightarrow> 'd \<Rightarrow> 'd" where
  "OSTIMER_DisableMatchInterrupt soc d = reg_clear soc OSEVENT_CTRL (OSTIMER_INTENA_MASK soc) d"

definition OSTIMER_SetMatchRawValue ::
    "'d ostimer_soc \<Rightarrow> u32 \<Rightarrow> u64 \<Rightarrow> nat option \<Rightarrow> 'd ostimer \<Rightarrow> (status \<times> 'd ostimer) option" where
  "OSTIMER_SetMatchRawValue soc base count cb s = do {
     inst \<leftarrow> OSTIMER_GetInstance soc base;
     d \<leftarrow> OSTIMER_EnableInterrupt soc base False (os_dev s);
     let s = s\<lparr>os_dev := d, s_ostimerIsr := True, s_ostimerHandle := (s_ostimerHandle s)(inst := cb)\<rparr>;
     d \<leftarrow> OSTIMER_SetMatchRegister soc count (os_dev s);
     d \<leftarrow> OSTIMER_EnableInterrupt soc base True d;
     Some (kStatus_Success, s\<lparr>os_dev := d\<rparr>)
   }"

definition OSTIMER_SetMatchValue ::
    "'d ostimer_soc \<Rightarrow> u32 \<Rightarrow> u64 \<Rightarrow> nat option \<Rightarrow> 'd ostimer \<Rightarrow> (status \<times> 'd ostimer) option" where
  "OSTIMER_SetMatchValue soc base count cb s =
     (if HAS_BINARY_ENCODED_COUNTER soc then OSTIMER_SetMatchRawValue soc base count cb s
      else OSTIMER_SetMatchRawValue soc base (OSTIMER_DecimalToGray count) cb s)"

definition OSTIMER_GetCurrentTimerRawValue :: "'d ostimer_soc \<Rightarrow> 'd \<Rightarrow> u64 \<times> 'd" where
  "OSTIMER_GetCurrentTimerRawValue soc d = read_halves soc EVTIMERL EVTIMERH d"

definition OSTIMER_GetCurrentTimerValue :: "'d ostimer_soc \<Rightarrow> 'd \<Rightarrow> u64 \<times> 'd" where
  "OSTIMER_GetCurrentTimerValue soc d =
     (let (tmp, d) = OSTIMER_GetCurrentTimerRawValue soc d
      in if HAS_BINARY_ENCODED_COUNTER soc then (tmp, d) else OSTIMER_GrayToDecimal soc tmp d)"

definition OSTIMER_GetCaptureRawValue :: "'d ostimer_soc \<Rightarrow> 'd \<Rightarrow> u64 \<times> 'd" where
  "OSTIMER_GetCaptureRawValue soc d = read_halves soc CAPTURE_L CAPTURE_H d"

definition OSTIMER_GetCaptureValue :: "'d ostimer_soc \<Rightarrow> 'd \<Rightarrow> u64 \<times> 'd" where
  "OSTIMER_GetCaptureValue soc d =
     (let (tmp, d) = OSTIMER_GetCaptureRawValue soc d
      in if HAS_BINARY_ENCODED_COUNTER soc then (tmp, d) else OSTIMER_GrayToDecimal soc tmp d)"

text \<open>Running the callback \<open>cb\<close> is the argument \<open>invoke\<close>.\<close>

definition OSTIMER_HandleIRQ ::
    "'d ostimer_soc \<Rightarrow> (nat \<Rightarrow> 'd ostimer \<Rightarrow> 'd ostimer option) \<Rightarrow> u32 \<Rightarrow> nat option \<Rightarrow> 'd ostimer \<Rightarrow> 'd ostimer option" where
  "OSTIMER_HandleIRQ soc invoke base cb s = do {
     d \<leftarrow> OSTIMER_EnableInterrupt soc base False (os_dev s);
     let s = s\<lparr>os_dev := d\<rparr>;
     case cb of None \<Rightarrow> Some s | Some f \<Rightarrow> invoke f s
   }"

definition OS_EVENT_DriverIRQHandler ::
    "'d ostimer_soc \<Rightarrow> (nat \<Rightarrow> 'd ostimer \<Rightarrow> 'd ostimer option) \<Rightarrow> 'd ostimer \<Rightarrow> 'd ostimer option" where
  "OS_EVENT_DriverIRQHandler soc invoke s = do {
     c_assert (s_ostimerIsr s);
     OSTIMER_HandleIRQ soc invoke (ostimer_bases soc ! 0) (s_ostimerHandle s 0) s
   }"

subsection \<open>The code\<close>

lemma bit_xor_shift: "bit (xor_shift n g) i \<longleftrightarrow> bit g i \<noteq> bit g (i + n)"
  by (auto simp: xor_shift_def bit_simps add.commute dest: bit_imp_le_length)

lemma xor_shift_eqI: "(\<And>i. bit (xor_shift n g) i = bit w i) \<Longrightarrow> xor_shift n g = w"
  by (simp add: bit_eq_iff)

lemma xor_shift_commute: "xor_shift m (xor_shift n g) = xor_shift n (xor_shift m g)"
  by (rule xor_shift_eqI) (auto simp: bit_xor_shift ac_simps)

lemma xor_shift_square: "xor_shift n (xor_shift n g) = xor_shift (n + n) g"
  by (rule xor_shift_eqI) (auto simp: bit_xor_shift ac_simps)

lemma xor_shift_64: "xor_shift 64 g = g"
  by (rule xor_shift_eqI) (auto simp: bit_xor_shift dest: bit_imp_le_length)

lemma encode_xor_shift: "OSTIMER_DecimalToGray x = xor_shift 1 x"
  by (simp add: OSTIMER_DecimalToGray_def xor_shift_def)

lemmas xor_shift_squares =
  xor_shift_square [of 1, unfolded one_add_one] xor_shift_square [of 2, simplified] xor_shift_square [of 4, simplified]
  xor_shift_square [of 8, simplified] xor_shift_square [of 16, simplified] xor_shift_square [of 32, simplified]

lemma decode_encode: "gray_to_decimal (OSTIMER_DecimalToGray x) = x"
  unfolding encode_xor_shift gray_to_decimal_def Let_def
  by (simp only: xor_shift_commute [of 32 1] xor_shift_commute [of 16 1] xor_shift_commute [of 8 1]
      xor_shift_commute [of 4 1] xor_shift_commute [of 2 1] xor_shift_squares xor_shift_64)

lemma encode_decode: "OSTIMER_DecimalToGray (gray_to_decimal g) = g"
  unfolding encode_xor_shift gray_to_decimal_def Let_def by (simp only: xor_shift_squares xor_shift_64)

text \<open>Bit \<open>n\<close> of the count is the parity of the code from bit \<open>n\<close> on.\<close>

lemma parity_telescope:
  assumes "n \<le> 64"
  shows "bit (x :: u64) n \<longleftrightarrow> odd (card {k. n \<le> k \<and> k < 64 \<and> bit x k \<noteq> bit x (Suc k)})"
  using assms
proof (induction rule: inc_induct)
  case base
  have "{k. 64 \<le> k \<and> k < 64 \<and> bit x k \<noteq> bit x (Suc k)} = {}" by auto
  then show ?case by (simp only: card.empty) (auto dest: bit_imp_le_length)
next
  case (step n)
  let ?S = "{k. Suc n \<le> k \<and> k < 64 \<and> bit x k \<noteq> bit x (Suc k)}"
  have "{k. n \<le> k \<and> k < 64 \<and> bit x k \<noteq> bit x (Suc k)} = (if bit x n \<noteq> bit x (Suc n) then insert n ?S else ?S)"
    using step.hyps by (auto simp: le_less Suc_le_eq)
  moreover have "finite ?S" "n \<notin> ?S" by auto
  ultimately show ?case using step.IH by auto
qed

lemma decode_parity: "bit (gray_to_decimal g) n \<longleftrightarrow> odd (card {k. n \<le> k \<and> bit g k})"
proof (cases "n \<le> 64")
  case True
  have "bit g k \<longleftrightarrow> k < 64 \<and> bit (gray_to_decimal g) k \<noteq> bit (gray_to_decimal g) (Suc k)" for k
    using encode_decode [of g] bit_xor_shift [of 1 "gray_to_decimal g" k] bit_imp_le_length [of g k]
    by (auto simp: encode_xor_shift)
  then show ?thesis using parity_telescope [OF True, of "gray_to_decimal g"] by simp
next
  case False
  then have "{k. n \<le> k \<and> bit g k} = {}" by (auto dest: bit_imp_le_length)
  then show ?thesis using False by (simp only: card.empty) (auto dest: bit_imp_le_length)
qed

text \<open>Counting up changes one bit of the code.\<close>

lemma xor_Suc_mask: "\<exists>k. n XOR Suc n = mask (Suc k)" for n :: nat
proof (induction n rule: less_induct)
  case (less n)
  have rec: "n XOR Suc n = 1 + 2 * (n div 2 XOR Suc n div 2)" by (subst xor_nat_rec) simp
  show ?case
  proof (cases "even n")
    case True
    then have "n XOR Suc n = mask (Suc 0)" using rec by simp
    then show ?thesis by blast
  next
    case False
    then have "n div 2 < n" "Suc n div 2 = Suc (n div 2)" by (auto elim: oddE)
    with less [of "n div 2"] rec obtain k where "n XOR Suc n = 1 + 2 * mask (Suc k)" by auto
    moreover have "1 + 2 * (a - 1) = 2 * a - 1" if "1 \<le> a" for a :: nat using that by simp
    ultimately have "n XOR Suc n = mask (Suc (Suc k))" by (simp add: mask_eq_exp_minus_1)
    then show ?thesis by blast
  qed
qed

lemma encode_xor: "OSTIMER_DecimalToGray x XOR OSTIMER_DecimalToGray y = OSTIMER_DecimalToGray (x XOR y)"
  by (rule bit_word_eqI) (auto simp: OSTIMER_DecimalToGray_def bit_simps)

lemma encode_succ: "\<exists>k < 64. OSTIMER_DecimalToGray x XOR OSTIMER_DecimalToGray (x + 1) = push_bit k 1"
proof -
  obtain k where "unat x XOR Suc (unat x) = mask (Suc k)" using xor_Suc_mask by blast
  then have "(of_nat (unat x) XOR of_nat (Suc (unat x)) :: u64) = of_nat (mask (Suc k))" by (metis of_nat_xor_eq)
  then have m: "x XOR (x + 1) = mask (Suc k)" by (simp add: of_nat_mask_eq add.commute)
  have "OSTIMER_DecimalToGray (mask (Suc k)) = push_bit (min k 63) 1"
    by (rule bit_word_eqI) (auto simp: OSTIMER_DecimalToGray_def bit_simps min_def)
  then show ?thesis unfolding encode_xor m by (intro exI [of _ "min k 63"]) simp
qed

subsection \<open>Reading a running counter\<close>

text \<open>
  A free-running counter of \<open>w\<close> bits (the OS event timer has 42): the two halves hold the code of
  \<open>cnt\<close>, and reading the low half lets at most one tick pass; the count wraps at \<open>2 ^ w\<close>.
\<close>

definition gray_counter :: "'d ostimer_soc \<Rightarrow> nat \<Rightarrow> ('d \<Rightarrow> u64) \<Rightarrow> bool" where
  "gray_counter soc w cnt \<longleftrightarrow> 0 < w \<and> w \<le> 64 \<and>
     (\<forall>d. cnt d = take_bit w (cnt d) \<and>
          fst (reg_read soc EVTIMERL d) = ucast (OSTIMER_DecimalToGray (cnt d)) \<and>
          fst (reg_read soc EVTIMERH d) = ucast (drop_bit 32 (OSTIMER_DecimalToGray (cnt d))) \<and>
          cnt (snd (reg_read soc EVTIMERL d)) \<in> {cnt d, take_bit w (cnt d + 1)})"

text \<open>The codes of successive counts differ in one bit, also where a counter of \<open>w\<close> bits wraps.\<close>

lemma encode_tick:
  assumes "0 < w" "w \<le> 64" "x = take_bit w x"
  shows "\<exists>k. OSTIMER_DecimalToGray x XOR OSTIMER_DecimalToGray (take_bit w (x + 1)) = push_bit k 1"
proof (cases "x = mask w")
  case True
  have "(mask w :: u64) + 1 = push_bit w 1" by (simp add: mask_eq_exp_minus_1 push_bit_eq_mult)
  then have "take_bit w (mask w + 1 :: u64) = 0" by (simp only: take_bit_push_bit) simp
  moreover have "OSTIMER_DecimalToGray (mask w) = push_bit (w - 1) 1"
    using assms(1,2) by (intro bit_word_eqI) (auto simp: OSTIMER_DecimalToGray_def bit_simps)
  moreover have "OSTIMER_DecimalToGray 0 = 0" by (simp add: OSTIMER_DecimalToGray_def)
  ultimately show ?thesis using True by auto
next
  case False
  have lt: "unat x < 2 ^ w" using assms(3) by (metis take_bit_nat_less_exp unsigned_take_bit_eq)
  have "unat x \<noteq> mask w"
  proof
    assume "unat x = mask w"
    then have "of_nat (unat x) = (of_nat (mask w) :: u64)" by simp
    then show False using False by (simp add: of_nat_mask_eq)
  qed
  with lt have "unat x + 1 < 2 ^ w" by (simp add: mask_eq_exp_minus_1)
  moreover have "(2 :: nat) ^ w \<le> 2 ^ 64" using assms(2) by (intro power_increasing) simp_all
  ultimately have "unat (x + 1) < 2 ^ w" by (simp add: unat_plus_small)
  then have "take_bit w (x + 1) = x + 1" by (simp add: word_unat_eq_iff unsigned_take_bit_eq take_bit_nat_eq_self)
  then show ?thesis using encode_succ [of x] by auto
qed

lemma halves_same: "ucast (ucast g :: u32) OR push_bit 32 (ucast (ucast (drop_bit 32 g) :: u32)) = (g :: u64)"
  by (rule bit_word_eqI) (auto simp: bit_simps)

lemma halves_one_bit:
  fixes g g' :: u64
  assumes "g XOR g' = push_bit k 1"
  shows "ucast (ucast g :: u32) OR push_bit 32 (ucast (ucast (drop_bit 32 g') :: u32)) = (if k < 32 then g else g')"
proof -
  have eq: "bit g i = bit g' i" if "i \<noteq> k" for i
    using arg_cong [OF assms, of "\<lambda>w. bit w i"] that by (auto simp: bit_simps)
  show ?thesis
  proof (rule bit_word_eqI)
    fix n
    assume "n < LENGTH(64)"
    then show "bit (ucast (ucast g :: u32) OR push_bit 32 (ucast (ucast (drop_bit 32 g') :: u32)) :: u64) n =
        bit (if k < 32 then g else g') n"
      using eq [of n] by (cases "n < 32") (auto simp: bit_simps)
  qed
qed

lemma current_value_core:
  assumes "gray_counter soc w cnt" "\<not> HAS_CODE_GRAY soc" "\<not> HAS_BINARY_ENCODED_COUNTER soc"
  shows "fst (OSTIMER_GetCurrentTimerValue soc d) \<in> {cnt d, take_bit w (cnt d + 1)}"
proof -
  define c' where "c' = cnt (snd (reg_read soc EVTIMERL d))"
  have c': "c' \<in> {cnt d, take_bit w (cnt d + 1)}" using assms(1) by (simp add: gray_counter_def c'_def)
  have v: "fst (OSTIMER_GetCurrentTimerValue soc d) =
      gray_to_decimal (ucast (ucast (OSTIMER_DecimalToGray (cnt d)) :: u32) OR
        push_bit 32 (ucast (ucast (drop_bit 32 (OSTIMER_DecimalToGray c')) :: u32)))"
    using assms by (simp add: OSTIMER_GetCurrentTimerValue_def OSTIMER_GetCurrentTimerRawValue_def read_halves_def
        OSTIMER_GrayToDecimal_def case_prod_beta Let_def gray_counter_def c'_def)
  show ?thesis
  proof (cases "c' = cnt d")
    case True
    then show ?thesis by (simp add: v halves_same decode_encode)
  next
    case False
    obtain k where k: "OSTIMER_DecimalToGray (cnt d) XOR OSTIMER_DecimalToGray c' = push_bit k 1"
      using encode_tick [of w "cnt d"] assms(1) c' False by (auto simp: gray_counter_def)
    show ?thesis unfolding v halves_one_bit [OF k] using c' by (simp add: decode_encode)
  qed
qed

subsection \<open>Setting a match\<close>

lemma match_ready_exit: "0 = fst (reg_read soc OSEVENT_CTRL d) AND m \<Longrightarrow> match_ready soc m d = Some (snd (reg_read soc OSEVENT_CTRL d))"
  by (subst match_ready.simps) (simp add: case_prod_beta)

lemma set_match_core:
  fixes s :: "'d ostimer"
  assumes ram: "ram_like soc M view" "M MATCH_L = - 1" "M MATCH_H = - 1" "M OSEVENT_CTRL = - 1" and irq: "\<And>i d. view (os_EnableIRQ soc i d) = view d" "\<And>i d. view (os_DisableIRQ soc i d) = view d"
    and gray: "\<not> HAS_CODE_GRAY soc" "\<not> HAS_BINARY_ENCODED_COUNTER soc"
    and inst: "base \<noteq> 0" "OSTIMER_GetInstance soc base = Some i"
    and ready: "\<And>m. MATCH_WR_RDY_MASK soc = Some m \<Longrightarrow> view (os_dev s) OSEVENT_CTRL AND m = 0"
  shows "\<exists>s'. OSTIMER_SetMatchValue soc base count cb s = Some (kStatus_Success, s') \<and>
           s_ostimerHandle s' = (s_ostimerHandle s)(i := cb) \<and> s_ostimerIsr s' \<and>
           fst (OSTIMER_GetMatchValue soc (os_dev s')) = count \<and>
           view (os_dev s') OSEVENT_CTRL = view (os_dev s) OSEVENT_CTRL OR OSTIMER_INTENA_MASK soc"
proof -
  let ?m = "OSTIMER_INTENA_MASK soc" and ?g = "OSTIMER_DecimalToGray count"
  define d1 where "d1 = reg_clear soc OSEVENT_CTRL ?m (os_DisableIRQ soc i (os_dev s))"
  have v1: "view d1 OSEVENT_CTRL = view (os_dev s) OSEVENT_CTRL AND NOT ?m"
    using irq by (simp add: d1_def ram_like_clear [OF ram(1)] ram(2-))
  have "(view (os_dev s) OSEVENT_CTRL AND NOT ?m) AND m = 0" if "MATCH_WR_RDY_MASK soc = Some m" for m
    using ready [OF that] by (simp add: and.assoc and.left_commute [of _ "NOT ?m"])
  then have w: "(case MATCH_WR_RDY_MASK soc of None \<Rightarrow> Some d1 | Some m \<Rightarrow> match_ready soc m d1) = Some d1"
    using match_ready_exit [of soc d1] by (auto simp: ram_like_read [OF ram(1)] ram(2-) v1 split: option.split)
  define d2 where "d2 = reg_write soc MATCH_H (ucast (drop_bit 32 ?g)) (reg_write soc MATCH_L (ucast (?g AND 0xFFFFFFFF)) d1)"
  have smr: "OSTIMER_SetMatchRegister soc ?g d1 = Some d2" using w by (simp add: OSTIMER_SetMatchRegister_def d2_def)
  define d3 where "d3 = reg_set soc OSEVENT_CTRL ?m (os_EnableIRQ soc i d2)"
  have "view d3 OSEVENT_CTRL = view (os_dev s) OSEVENT_CTRL OR ?m"
    using v1 irq by (simp add: d3_def d2_def ram_like_set [OF ram(1)] ram(2-) ram_like_write [OF ram(1)] ram(2-) bit_eq_iff bit_simps) blast
  moreover have "view d3 MATCH_L = ucast (?g AND 0xFFFFFFFF)" "view d3 MATCH_H = ucast (drop_bit 32 ?g)"
    using irq by (simp_all add: d3_def d2_def ram_like_set [OF ram(1)] ram(2-) ram_like_write [OF ram(1)] ram(2-))
  moreover have "ucast (ucast (?g AND 0xFFFFFFFF) :: u32) OR push_bit 32 (ucast (ucast (drop_bit 32 ?g) :: u32)) = ?g"
  proof -
    have "(ucast (?g AND 0xFFFFFFFF) :: u32) = ucast (?g AND mask 32)" by (simp add: mask_eq_exp_minus_1)
    also have "\<dots> = ucast ?g" by (rule bit_word_eqI) (simp add: bit_simps)
    finally show ?thesis by (simp add: halves_same)
  qed
  ultimately show ?thesis using smr gray inst
    by (simp add: OSTIMER_SetMatchValue_def OSTIMER_SetMatchRawValue_def OSTIMER_EnableInterrupt_def
        OSTIMER_GetMatchValue_def OSTIMER_GetMatchRegister_def OSTIMER_GrayToDecimal_def read_halves_def ram_like_read [OF ram(1)] ram(2-)
        decode_encode d1_def [symmetric] d3_def [symmetric] Let_def)
qed

subsection \<open>Properties\<close>

text \<open>C36: The conversions of the counter code. Bit \<open>n\<close> of the decoded value is the parity of the
  bits of the code from \<open>n\<close> upwards, which is the decoding of the reflected binary code; the six
  shifted additions of the driver compute it for all 64-bit values. Encoding and decoding are
  inverse to each other, and the codes of two successive counts differ in exactly one bit, also
  when the count wraps.\<close>
theorem gray_code_correct:
  "(bit (gray_to_decimal g) n \<longleftrightarrow> odd (card {k. n \<le> k \<and> bit g k})) \<and>
   gray_to_decimal (OSTIMER_DecimalToGray x) = x \<and> OSTIMER_DecimalToGray (gray_to_decimal g) = g \<and>
   (\<exists>k < 64. OSTIMER_DecimalToGray x XOR OSTIMER_DecimalToGray (x + 1) = push_bit k 1)"
  using decode_parity decode_encode encode_decode encode_succ by simp

text \<open>Setting a match on a Gray-coded timer whose registers hold what is written to them and that is
  ready for a new match value: the call succeeds, the match value that is read back is the count
  that was set, the callback of the instance is installed and the match interrupt is enabled.\<close>
lemma set_match_round_trip:
  fixes s :: "'d ostimer"
  assumes "ram_like soc M view" "M MATCH_L = - 1" "M MATCH_H = - 1" "M OSEVENT_CTRL = - 1"
    "\<And>i d. view (os_EnableIRQ soc i d) = view d" "\<And>i d. view (os_DisableIRQ soc i d) = view d"
    "\<not> HAS_CODE_GRAY soc" "\<not> HAS_BINARY_ENCODED_COUNTER soc" "base \<noteq> 0" "OSTIMER_GetInstance soc base = Some i"
    "\<And>m. MATCH_WR_RDY_MASK soc = Some m \<Longrightarrow> view (os_dev s) OSEVENT_CTRL AND m = 0"
  shows "\<exists>s'. OSTIMER_SetMatchValue soc base count cb s = Some (kStatus_Success, s') \<and>
           s_ostimerHandle s' = (s_ostimerHandle s)(i := cb) \<and> s_ostimerIsr s' \<and>
           fst (OSTIMER_GetMatchValue soc (os_dev s')) = count \<and>
           view (os_dev s') OSEVENT_CTRL = view (os_dev s) OSEVENT_CTRL OR OSTIMER_INTENA_MASK soc"
  using assms by (rule set_match_core)

definition ostimer_ram :: "(ostimer_reg \<Rightarrow> u32) ostimer_soc" where
  "ostimer_ram =
     \<lparr>reg_read = \<lambda>r d. (d r, d), reg_write = \<lambda>r v d. d(r := v),
      OSTIMER_INTENA_MASK = 2, OSTIMER_INTRFLAG_MASK = 1, MATCH_WR_RDY_MASK = Some 4, HAS_CODE_GRAY = False,
      HAS_BINARY_ENCODED_COUNTER = False, os_clock_control = False, os_32k_clock = False, os_resets = False,
      ostimer_bases = [0x1000], ostimer_cmse = False, os_EnableIRQ = \<lambda>i d. d, os_DisableIRQ = \<lambda>i d. d,
      CLOCK_EnableOstimer32kClock = \<lambda>d. d, os_EnableClock = \<lambda>i d. d, os_DisableClock = \<lambda>i d. d,
      os_EnableSysctlClock = \<lambda>d. d, os_DisableSysctlClock = \<lambda>d. d, RESET_ReleasePeripheralReset = \<lambda>i d. d\<rparr>"

lemma set_match_round_trip_example:
  "\<exists>s'. OSTIMER_SetMatchValue ostimer_ram 0x1000 0x123456789 (Some 7)
           \<lparr>os_dev = \<lambda>r. 0, s_ostimerHandle = \<lambda>i. None, s_ostimerIsr = False\<rparr> = Some (kStatus_Success, s') \<and>
     s_ostimerHandle s' 0 = Some 7 \<and> fst (OSTIMER_GetMatchValue ostimer_ram (os_dev s')) = 0x123456789 \<and>
     os_dev s' OSEVENT_CTRL = 2"
proof -
  have "ram_like ostimer_ram (\<lambda>_. - 1) (\<lambda>d. d)" by (simp add: ram_like_def ostimer_ram_def fun_eq_iff)
  moreover have "OSTIMER_GetInstance ostimer_ram 0x1000 = Some 0"
    by (simp add: OSTIMER_GetInstance_def ostimer_ram_def)
  moreover have "\<not> HAS_CODE_GRAY ostimer_ram" "\<not> HAS_BINARY_ENCODED_COUNTER ostimer_ram" "OSTIMER_INTENA_MASK ostimer_ram = 2"
    "os_EnableIRQ ostimer_ram i d = d" "os_DisableIRQ ostimer_ram i d = d" for i d
    by (simp_all add: ostimer_ram_def)
  ultimately show ?thesis
    using set_match_round_trip [of ostimer_ram "\<lambda>_. - 1" "\<lambda>d. d" "0x1000" 0
        "\<lparr>os_dev = \<lambda>r. 0, s_ostimerHandle = \<lambda>i. None, s_ostimerIsr = False\<rparr>" "0x123456789" "Some 7"] by fastforce
qed

text \<open>C37: Reading the running, Gray-coded counter of \<open>w\<close> bits in two halves: when at most one tick falls
  between the two register reads, the value is the count at the first read or the next one (0 after
  the last), although the halves may belong to different counts.\<close>
theorem current_value_consistent:
  assumes "gray_counter soc w cnt" "\<not> HAS_CODE_GRAY soc" "\<not> HAS_BINARY_ENCODED_COUNTER soc"
  shows "fst (OSTIMER_GetCurrentTimerValue soc d) \<in> {cnt d, take_bit w (cnt d + 1)}"
  using assms by (rule current_value_core)

text \<open>A counter that ticks at every read, Gray coded or binary.\<close>

definition ostimer_example :: "bool \<Rightarrow> u64 ostimer_soc" where
  "ostimer_example binary =
     \<lparr>reg_read = \<lambda>r c. let v = (if binary then c else OSTIMER_DecimalToGray c) in
        if r = EVTIMERL then (ucast v, c + 1) else if r = EVTIMERH then (ucast (drop_bit 32 v), c + 1)
        else if r = MATCH_L then (ucast c, c) else if r = MATCH_H then (ucast (drop_bit 32 c), c) else (0, c),
      reg_write = \<lambda>r v c. if r = MATCH_L then (c AND NOT 0xFFFFFFFF) OR ucast v
        else if r = MATCH_H then (c AND 0xFFFFFFFF) OR push_bit 32 (ucast v) else c,
      OSTIMER_INTENA_MASK = 2, OSTIMER_INTRFLAG_MASK = 1, MATCH_WR_RDY_MASK = Some 4, HAS_CODE_GRAY = False,
      HAS_BINARY_ENCODED_COUNTER = binary, os_clock_control = False, os_32k_clock = False, os_resets = False,
      ostimer_bases = [0x1000], ostimer_cmse = False, os_EnableIRQ = \<lambda>i d. d, os_DisableIRQ = \<lambda>i d. d,
      CLOCK_EnableOstimer32kClock = \<lambda>d. d, os_EnableClock = \<lambda>i d. d, os_DisableClock = \<lambda>i d. d,
      os_EnableSysctlClock = \<lambda>d. d, os_DisableSysctlClock = \<lambda>d. d, RESET_ReleasePeripheralReset = \<lambda>i d. d\<rparr>"

text \<open>The same with the 42 bits of the OS event timer.\<close>

definition ostimer_42 :: "u64 ostimer_soc" where
  "ostimer_42 = (ostimer_example False)\<lparr>reg_read := \<lambda>r c.
     let v = OSTIMER_DecimalToGray (take_bit 42 c)
     in (if r = EVTIMERL then ucast v else if r = EVTIMERH then ucast (drop_bit 32 v) else 0,
         take_bit 42 (take_bit 42 c + 1))\<rparr>"

theorem current_value_consistent_witness:
  "fst (OSTIMER_GetCurrentTimerValue ostimer_42 0xFFFFFFFF) \<in> {0xFFFFFFFF, 0x100000000} \<and>
   gray_counter ostimer_42 42 (take_bit 42)"
proof -
  have g: "gray_counter ostimer_42 42 (take_bit 42)"
    unfolding gray_counter_def ostimer_42_def by (simp add: Let_def)
  have "\<not> HAS_CODE_GRAY ostimer_42" "\<not> HAS_BINARY_ENCODED_COUNTER ostimer_42"
    by (simp_all add: ostimer_42_def ostimer_example_def)
  moreover have "take_bit 42 (0xFFFFFFFF :: u64) = 0xFFFFFFFF" "take_bit 42 (0x100000000 :: u64) = 0x100000000" by code_simp+
  ultimately show ?thesis using g current_value_consistent [OF g, of "0xFFFFFFFF"] by simp
qed

text \<open>With a binary counter the halves can belong to different counts: the value is off by \<open>2 ^ 32\<close>.\<close>

lemma current_value_torn: "fst (OSTIMER_GetCurrentTimerValue (ostimer_example True) 0xFFFFFFFF) = 0x1FFFFFFFF"
  by code_simp

text \<open>With a binary counter \<open>OSTIMER_GetMatchValue\<close> still decodes what \<open>OSTIMER_SetMatchValue\<close> stored in binary.\<close>

lemma match_value_decoded: "fst (OSTIMER_GetMatchValue (ostimer_example True) 3) = 2"
  by code_simp

end
