(* ===== verification/I2c.thy ===== *)
theory I2c
  imports Flexcomm
begin

text \<open>
  \<open>drivers/flexcomm/i2c/fsl_i2c.c\<close> and the inline functions of \<open>fsl_i2c.h\<close>, master side:
  configuration, bit rate, polling transfers, and the non-blocking transfers with the state machine
  that the interrupt handler runs. The slave side is in \<open>I2c_Slave\<close>.

  The state of a master is the device, the handle \<open>i2c_master_handle_t\<close>, the RAM that the buffers
  live in and the handler table of the FLEXCOMM driver. \<open>None\<close> is a failed assertion, a division by
  zero, an access through a null pointer or outside an array, or a loop that never ends.
\<close>

subsection \<open>Data\<close>

definition kStatusGroup_FLEXCOMM_I2C :: int where "kStatusGroup_FLEXCOMM_I2C = 26"

definition kStatus_I2C_Busy :: status where "kStatus_I2C_Busy = MAKE_STATUS kStatusGroup_FLEXCOMM_I2C 0"
definition kStatus_I2C_Nak :: status where "kStatus_I2C_Nak = MAKE_STATUS kStatusGroup_FLEXCOMM_I2C 2"
definition kStatus_I2C_InvalidParameter :: status where
  "kStatus_I2C_InvalidParameter = MAKE_STATUS kStatusGroup_FLEXCOMM_I2C 3"
definition kStatus_I2C_ArbitrationLost :: status where
  "kStatus_I2C_ArbitrationLost = MAKE_STATUS kStatusGroup_FLEXCOMM_I2C 5"
definition kStatus_I2C_StartStopError :: status where
  "kStatus_I2C_StartStopError = MAKE_STATUS kStatusGroup_FLEXCOMM_I2C 8"
definition kStatus_I2C_UnexpectedState :: status where
  "kStatus_I2C_UnexpectedState = MAKE_STATUS kStatusGroup_FLEXCOMM_I2C 9"
definition kStatus_I2C_Timeout :: status where "kStatus_I2C_Timeout = MAKE_STATUS kStatusGroup_FLEXCOMM_I2C 10"
definition kStatus_I2C_Addr_Nak :: status where "kStatus_I2C_Addr_Nak = MAKE_STATUS kStatusGroup_FLEXCOMM_I2C 11"
definition kStatus_I2C_EventTimeout :: status where
  "kStatus_I2C_EventTimeout = MAKE_STATUS kStatusGroup_FLEXCOMM_I2C 12"
definition kStatus_I2C_SclLowTimeout :: status where
  "kStatus_I2C_SclLowTimeout = MAKE_STATUS kStatusGroup_FLEXCOMM_I2C 13"

lemmas i2c_status_defs =
  kStatusGroup_FLEXCOMM_I2C_def kStatus_I2C_Busy_def kStatus_I2C_Nak_def kStatus_I2C_InvalidParameter_def
  kStatus_I2C_ArbitrationLost_def kStatus_I2C_StartStopError_def kStatus_I2C_UnexpectedState_def kStatus_I2C_Timeout_def
  kStatus_I2C_Addr_Nak_def kStatus_I2C_EventTimeout_def kStatus_I2C_SclLowTimeout_def status_defs

datatype i2c_direction = kI2C_Write | kI2C_Read

primrec i2c_direction_num :: "i2c_direction \<Rightarrow> u32" where
  "i2c_direction_num kI2C_Write = 0" | "i2c_direction_num kI2C_Read = 1"

record i2c_master_config =
  enableMaster :: bool
  baudRate_Bps :: u32
  enableTimeout :: bool
  timeout_Ms :: u8

definition kI2C_TransferNoStartFlag :: u32 where "kI2C_TransferNoStartFlag = 1"
definition kI2C_TransferNoStopFlag :: u32 where "kI2C_TransferNoStopFlag = 4"

datatype i2c_transfer_state =
    kIdleState | kTransmitSubaddrState | kTransmitDataState | kReceiveDataBeginState | kReceiveDataState
  | kReceiveLastDataState | kStartState | kStopState | kWaitForCompletionState

record i2c_master_transfer =
  xfer_flags :: u32
  slaveAddress :: u8
  xfer_direction :: i2c_direction
  subaddress :: u32
  subaddressSize :: u32
  xfer_data :: u32
  xfer_dataSize :: u32

record i2c_master_handle =
  mstate :: i2c_transfer_state
  transferCount :: u32
  remainingBytes :: u32
  mbuf :: u32
  remainingSubaddr :: u32
  subaddrBuf :: "u8 list"
  checkAddrNack :: bool
  mtransfer :: i2c_master_transfer
  completionCallback :: "nat option"
  m_userData :: u32

datatype i2c_irq_handler = I2C_MasterHandler | I2C_SlaveHandler | I2C_OtherHandler nat

record 'd i2c_master =
  im_dev :: 'd
  im_handle :: i2c_master_handle
  im_ram :: mem
  im_irqs :: "(i2c_irq_handler, u32) flexcomm_irqs"

subsection \<open>Registers and parameters\<close>

datatype i2c_reg =
    I_CFG | I_STAT | I_INTENSET | I_INTENCLR | I_TIMEOUT | I_CLKDIV | I_INTSTAT | I_MSTCTL | I_MSTTIME | I_MSTDAT
  | I_SLVCTL | I_SLVDAT | I_SLVADR nat | I_SLVQUAL0 | I_PSELID

datatype i2c_mask =
    CFG_MSTEN | CFG_SLVEN | CFG_TIMEOUTEN
  | STAT_MSTPENDING | STAT_MSTSTATE | STAT_MSTARBLOSS | STAT_MSTSTSTPERR | STAT_SLVPENDING | STAT_SLVSTATE | STAT_SLVIDX
  | STAT_SLVDESEL | STAT_MONOV | STAT_MONIDLE | STAT_EVENTTIMEOUT | STAT_SCLTIMEOUT
  | INTSTAT_MSTPENDING | INTSTAT_MSTARBLOSS | INTSTAT_MSTSTSTPERR | INTSTAT_SLVPENDING | INTSTAT_SLVDESEL
  | INTSTAT_EVENTTIMEOUT | INTSTAT_SCLTIMEOUT
  | CLKDIV_DIVVAL | MSTCTL_MSTSTART | MSTCTL_MSTSTOP | MSTCTL_MSTCONTINUE | SLVCTL_SLVCONTINUE | SLVCTL_SLVNACK

datatype i2c_field =
    V_CLKDIV_DIVVAL | V_MSTTIME_MSTSCLLOW | V_MSTTIME_MSTSCLHIGH | V_SLVADR_SLVADR | V_SLVADR_SADISABLE
  | V_SLVQUAL0_QUALMODE0 | V_SLVQUAL0_SLVQUAL0 | V_CFG_SLVEN | V_SLVDAT_DATA

record 'd i2c_soc = "(i2c_reg, 'd) flexcomm_soc" +
  imask :: "i2c_mask \<Rightarrow> u32"
  ifield :: "i2c_field \<Rightarrow> u32 \<Rightarrow> u32"
  STAT_MSTSTATE_SHIFT :: nat
  STAT_SLVSTATE_SHIFT :: nat
  STAT_SLVIDX_SHIFT :: nat
  CLKDIV_DIVVAL_SHIFT :: nat
  I2C_RETRY_TIMES :: u32
  IGNORE_LAST_NACK :: bool
  HAS_TIMEOUT_RECOVERY :: bool
  HAS_PREPCLKFRG_8MHZ :: bool
  i2c_bases :: "u32 list"
  i2c_cmse :: bool
  i2c_EnableIRQ :: "nat \<Rightarrow> 'd \<Rightarrow> 'd"
  i2c_invoke :: "nat \<Rightarrow> status \<Rightarrow> u32 \<Rightarrow> 'd i2c_master \<Rightarrow> 'd i2c_master option"

definition I2C_CFG_MASK :: u32 where "I2C_CFG_MASK = 0x1F"

definition I2C_STAT_MSTCODE_IDLE :: u32 where "I2C_STAT_MSTCODE_IDLE = 0"
definition I2C_STAT_MSTCODE_RXREADY :: u32 where "I2C_STAT_MSTCODE_RXREADY = 1"
definition I2C_STAT_MSTCODE_TXREADY :: u32 where "I2C_STAT_MSTCODE_TXREADY = 2"
definition I2C_STAT_MSTCODE_NACKADR :: u32 where "I2C_STAT_MSTCODE_NACKADR = 3"
definition I2C_STAT_MSTCODE_NACKDAT :: u32 where "I2C_STAT_MSTCODE_NACKDAT = 4"

lemmas i2c_code_defs =
  I2C_STAT_MSTCODE_IDLE_def I2C_STAT_MSTCODE_RXREADY_def I2C_STAT_MSTCODE_TXREADY_def I2C_STAT_MSTCODE_NACKADR_def
  I2C_STAT_MSTCODE_NACKDAT_def

definition kI2C_MasterIrqFlags :: "'d i2c_soc \<Rightarrow> u32" where
  "kI2C_MasterIrqFlags soc =
     imask soc INTSTAT_MSTPENDING OR imask soc INTSTAT_MSTARBLOSS OR imask soc INTSTAT_MSTSTSTPERR OR
     imask soc INTSTAT_EVENTTIMEOUT OR imask soc INTSTAT_SCLTIMEOUT"

definition kI2C_MasterAllClearFlags :: "'d i2c_soc \<Rightarrow> u32" where
  "kI2C_MasterAllClearFlags soc = imask soc STAT_MSTARBLOSS OR imask soc STAT_MSTSTSTPERR"

definition kI2C_CommonAllClearFlags :: "'d i2c_soc \<Rightarrow> u32" where
  "kI2C_CommonAllClearFlags soc =
     imask soc STAT_MONOV OR imask soc STAT_MONIDLE OR imask soc STAT_EVENTTIMEOUT OR imask soc STAT_SCLTIMEOUT"

definition on_imdev :: "('d \<Rightarrow> 'd) \<Rightarrow> 'd i2c_master \<Rightarrow> 'd i2c_master" where
  "on_imdev f s = s\<lparr>im_dev := f (im_dev s)\<rparr>"

definition on_imh :: "(i2c_master_handle \<Rightarrow> i2c_master_handle) \<Rightarrow> 'd i2c_master \<Rightarrow> 'd i2c_master" where
  "on_imh f s = s\<lparr>im_handle := f (im_handle s)\<rparr>"

subsection \<open>Inline functions and configuration\<close>

definition I2C_GetInstance :: "'d i2c_soc \<Rightarrow> u32 \<Rightarrow> nat option" where
  "I2C_GetInstance soc base = do {
     let i = find_base (i2c_cmse soc) (i2c_bases soc) base;
     c_assert (i < length (i2c_bases soc));
     Some i
   }"

definition I2C_MasterEnable :: "'d i2c_soc \<Rightarrow> bool \<Rightarrow> 'd \<Rightarrow> 'd" where
  "I2C_MasterEnable soc enable d =
     (let (v, d) = reg_read soc I_CFG d
      in if enable then reg_write soc I_CFG (v AND I2C_CFG_MASK OR imask soc CFG_MSTEN) d
         else reg_write soc I_CFG (v AND I2C_CFG_MASK AND NOT (imask soc CFG_MSTEN)) d)"

definition I2C_SlaveEnable :: "'d i2c_soc \<Rightarrow> bool \<Rightarrow> 'd \<Rightarrow> 'd" where
  "I2C_SlaveEnable soc enable d =
     (let (v, d) = reg_read soc I_CFG d
      in if enable then reg_write soc I_CFG (v AND I2C_CFG_MASK OR imask soc CFG_SLVEN) d
         else reg_write soc I_CFG (v AND I2C_CFG_MASK AND NOT (imask soc CFG_SLVEN)) d)"

text \<open>\<open>I2C_MasterReset\<close> has an empty body.\<close>

definition I2C_MasterReset :: "'d \<Rightarrow> 'd" where
  "I2C_MasterReset d = d"

definition I2C_ClearStatusFlags :: "'d i2c_soc \<Rightarrow> u32 \<Rightarrow> 'd \<Rightarrow> 'd" where
  "I2C_ClearStatusFlags soc statusMask d =
     reg_write soc I_STAT
       (statusMask AND (kI2C_CommonAllClearFlags soc OR kI2C_MasterAllClearFlags soc OR imask soc STAT_SLVDESEL)) d"

definition I2C_MasterClearStatusFlags :: "'d i2c_soc \<Rightarrow> u32 \<Rightarrow> 'd \<Rightarrow> 'd" where
  "I2C_MasterClearStatusFlags soc statusMask d =
     reg_write soc I_STAT (statusMask AND (imask soc STAT_MSTARBLOSS OR imask soc STAT_MSTSTSTPERR)) d"

definition I2C_EnableInterrupts :: "'d i2c_soc \<Rightarrow> u32 \<Rightarrow> 'd \<Rightarrow> 'd" where
  "I2C_EnableInterrupts soc interruptMask d = reg_write soc I_INTENSET interruptMask d"

definition I2C_DisableInterrupts :: "'d i2c_soc \<Rightarrow> u32 \<Rightarrow> 'd \<Rightarrow> 'd" where
  "I2C_DisableInterrupts soc interruptMask d = reg_write soc I_INTENCLR interruptMask d"

definition I2C_GetEnabledInterrupts :: "'d i2c_soc \<Rightarrow> 'd \<Rightarrow> u32 \<times> 'd" where
  "I2C_GetEnabledInterrupts soc d = reg_read soc I_INTSTAT d"

definition I2C_MasterGetBusIdleState :: "'d i2c_soc \<Rightarrow> 'd \<Rightarrow> bool \<times> 'd" where
  "I2C_MasterGetBusIdleState soc d =
     (let (v, d) = reg_read soc I_STAT d
      in (v AND (imask soc STAT_MSTPENDING OR imask soc STAT_MSTSTATE) = imask soc STAT_MSTPENDING, d))"

text \<open>\<open>(base->STAT & I2C_STAT_MSTSTATE_MASK) >> I2C_STAT_MSTSTATE_SHIFT\<close>\<close>

definition i2c_master_code :: "'d i2c_soc \<Rightarrow> 'd \<Rightarrow> u32 \<times> 'd" where
  "i2c_master_code soc d =
     (let (v, d) = reg_read soc I_STAT d in (drop_bit (STAT_MSTSTATE_SHIFT soc) (v AND imask soc STAT_MSTSTATE), d))"

definition I2C_MasterGetDefaultConfig :: i2c_master_config where
  "I2C_MasterGetDefaultConfig =
     \<lparr>enableMaster = True, baudRate_Bps = 100000, enableTimeout = False, timeout_Ms = 35\<rparr>"

definition i2c_status_value :: "'d i2c_soc \<Rightarrow> u32 \<Rightarrow> u32" where
  "i2c_status_value soc statusMask =
     (let statusMask = (if statusMask AND imask soc STAT_MSTSTATE = 0 then statusMask OR push_bit 5 1 else statusMask);
          statusMask =
            (if drop_bit (STAT_MSTSTATE_SHIFT soc) (statusMask AND imask soc STAT_MSTSTATE) = 3
             then statusMask AND NOT (imask soc STAT_MSTSTATE) OR push_bit 7 1 else statusMask);
          statusMask = (if statusMask AND imask soc STAT_SLVSTATE = 0 then statusMask OR push_bit 22 1 else statusMask);
          statusMask = (if statusMask AND imask soc STAT_SLVIDX = 0 then statusMask OR push_bit 20 1 else statusMask)
      in if drop_bit (STAT_SLVIDX_SHIFT soc) (statusMask AND imask soc STAT_SLVIDX) = 3
         then statusMask AND NOT (imask soc STAT_SLVIDX) OR push_bit 21 1 else statusMask)"

definition I2C_GetStatusFlags :: "'d i2c_soc \<Rightarrow> 'd \<Rightarrow> u32 \<times> 'd" where
  "I2C_GetStatusFlags soc d = (let (v, d) = reg_read soc I_STAT d in (i2c_status_value soc v, d))"

subsection \<open>Bit rate and timeout\<close>

text \<open>The loop of \<open>I2C_MasterSetBaudRate\<close>; \<open>best\<close> is \<open>best_err\<close>, \<open>best_div\<close> and \<open>best_scl\<close>.\<close>

function i2c_baud_loop :: "u32 \<Rightarrow> u32 \<Rightarrow> u32 \<Rightarrow> u32 \<times> u32 \<times> u32 \<Rightarrow> (u32 \<times> u32 \<times> u32) option" where
  "i2c_baud_loop baudRate srcClock_Hz divider best =
     (if divider \<le> 0x10000 then do {
        q \<leftarrow> c_div (srcClock_Hz * 10) (divider * baudRate);
        let scl = (q + 5) div 10;
        let scl = (if 18 < scl then 18 else scl);
        let err = srcClock_Hz - baudRate * scl * divider;
        let best = (if err < fst best \<or> fst best = 0 then (err, divider, scl) else best);
        if err = 0 \<or> scl \<le> 4 then Some best
        else i2c_baud_loop baudRate srcClock_Hz (divider + 1) best
      } else Some best)"
  by pat_completeness auto
termination
  by (relation "measure (\<lambda>(_, _, divider, _). 0x10001 - unat divider)") (auto simp: word_le_nat_alt unat_plus_small)

declare i2c_baud_loop.simps [simp del]

definition i2c_baud_search :: "u32 \<Rightarrow> u32 \<Rightarrow> u32 \<times> u32 \<Rightarrow> (u32 \<times> u32) option" where
  "i2c_baud_search baudRate srcClock_Hz best = do {
     let mindivider = (srcClock_Hz * 10 div 2000000 + 5) div 10;
     q \<leftarrow> c_div srcClock_Hz mindivider;
     q \<leftarrow> c_div q baudRate;
     mindivider \<leftarrow> (if q < 4 then c_div (srcClock_Hz div 4) baudRate else Some mindivider);
     (best_err, best_div, best_scl) \<leftarrow> i2c_baud_loop baudRate srcClock_Hz mindivider (0, best);
     Some (best_div, best_scl)
   }"

text \<open>The workaround for a clock fixed at 8 MHz, and the test that falls back to the search.\<close>

definition i2c_baud_8mhz :: "u32 \<Rightarrow> u32 \<Rightarrow> (u32 \<times> u32) option" where
  "i2c_baud_8mhz baudRate srcClock_Hz = do {
     let best_div = srcClock_Hz div 8000000;
     best_scl \<leftarrow> c_div 8000000 baudRate;
     a \<leftarrow> c_div 8000000 best_scl;
     b \<leftarrow> c_div 8000000 (best_scl + 1);
     let best_scl = (if baudRate - b < a - baudRate then best_scl + 1 else best_scl);
     if 18 < best_scl \<or> best_scl < 4 then i2c_baud_search baudRate srcClock_Hz (best_div, best_scl)
     else if baudRate = 400000 then do {
       f \<leftarrow> c_div srcClock_Hz best_div;
       if 2000000 < f then i2c_baud_search baudRate srcClock_Hz (best_div, best_scl) else Some (best_div, best_scl)
     } else Some (best_div, best_scl)
   }"

definition I2C_MasterSetBaudRate :: "'d i2c_soc \<Rightarrow> u32 \<Rightarrow> u32 \<Rightarrow> 'd \<Rightarrow> 'd option" where
  "I2C_MasterSetBaudRate soc baudRate srcClock_Hz d = do {
     (best_div, best_scl) \<leftarrow> (if HAS_PREPCLKFRG_8MHZ soc then i2c_baud_8mhz baudRate srcClock_Hz
                              else i2c_baud_search baudRate srcClock_Hz (0, 0));
     let d = reg_write soc I_CLKDIV (ifield soc V_CLKDIV_DIVVAL (best_div - 1)) d;
     Some (reg_write soc I_MSTTIME
       (ifield soc V_MSTTIME_MSTSCLLOW (if best_scl mod 2 = 0 then best_scl div 2 - 2 else best_scl div 2 - 1) OR
        ifield soc V_MSTTIME_MSTSCLHIGH (best_scl div 2 - 2)) d)
   }"

definition I2C_MasterSetTimeoutValue :: "'d i2c_soc \<Rightarrow> u8 \<Rightarrow> u32 \<Rightarrow> 'd \<Rightarrow> 'd option" where
  "I2C_MasterSetTimeoutValue soc timeout srcClock_Hz d = do {
     c_assert (timeout \<noteq> 0 \<and> srcClock_Hz \<noteq> 0);
     let (v, d) = reg_read soc I_CLKDIV d;
     let clkDivider = drop_bit (CLKDIV_DIVVAL_SHIFT soc) (v AND imask soc CLKDIV_DIVVAL);
     f \<leftarrow> c_div srcClock_Hz (clkDivider + 1);
     let timeoutValue = (ucast timeout * f div 16 div 100 + 5) div 10;
     let timeoutValue = (if 0x1000 < timeoutValue then 0x1000 else timeoutValue);
     Some (reg_write soc I_TIMEOUT (push_bit 4 (timeoutValue - 1) OR 0xF) d)
   }"

definition I2C_MasterInit :: "'d i2c_soc \<Rightarrow> u32 \<Rightarrow> i2c_master_config \<Rightarrow> u32 \<Rightarrow> 'd \<Rightarrow> 'd option" where
  "I2C_MasterInit soc base config srcClock_Hz d = do {
     (_, d) \<leftarrow> FLEXCOMM_Init soc base FLEXCOMM_PERIPH_I2C d;
     let d = I2C_MasterEnable soc (enableMaster config) d;
     d \<leftarrow> I2C_MasterSetBaudRate soc (baudRate_Bps config) srcClock_Hz d;
     let d = (if enableTimeout config then reg_set soc I_CFG (imask soc CFG_TIMEOUTEN) d
              else reg_clear soc I_CFG (imask soc CFG_TIMEOUTEN) d);
     I2C_MasterSetTimeoutValue soc (timeout_Ms config) srcClock_Hz d
   }"

definition I2C_MasterDeinit :: "'d i2c_soc \<Rightarrow> 'd \<Rightarrow> 'd" where
  "I2C_MasterDeinit soc d = I2C_MasterEnable soc False d"

text \<open>Below one megahertz the least divider is zero, and the search divides by it.\<close>

lemma i2c_slow_clock:
  assumes "srcClock_Hz < 1000000"
  shows "i2c_baud_search baudRate srcClock_Hz best = None"
proof -
  have u: "unat srcClock_Hz < 1000000" using assms by (simp add: word_less_nat_alt)
  then have m: "unat (srcClock_Hz * 10) = unat srcClock_Hz * 10" by (simp add: unat_word_ariths)
  then have "unat (srcClock_Hz * 10 div 2000000) \<le> 4" using u by (simp add: unat_div)
  then have "unat ((srcClock_Hz * 10 div 2000000 + 5) div 10) = 0" by (simp add: unat_div unat_plus_small)
  then have "(srcClock_Hz * 10 div 2000000 + 5) div 10 = 0" by (simp only: unat_eq_zero)
  then show ?thesis by (simp add: i2c_baud_search_def c_div_def)
qed

subsection \<open>Polling transfers\<close>

text \<open>
  The loop of \<open>I2C_PendingStatusWait\<close>: result, last status, the retries that are left and the device.
\<close>

partial_function (option) i2c_pending_loop ::
    "'d i2c_soc \<Rightarrow> u32 \<Rightarrow> status \<Rightarrow> 'd \<Rightarrow> (status \<times> u32 \<times> u32 \<times> 'd) option" where
  "i2c_pending_loop soc waitTimes res d =
     (let (flg, d) = I2C_GetStatusFlags soc d;
          res = (if flg AND imask soc STAT_EVENTTIMEOUT \<noteq> 0 then kStatus_I2C_EventTimeout else res);
          res = (if flg AND imask soc STAT_SCLTIMEOUT \<noteq> 0 then kStatus_I2C_SclLowTimeout else res)
      in if HAS_TIMEOUT_RECOVERY soc \<and> res \<noteq> kStatus_Success
         then Some (res, flg, waitTimes, I2C_MasterEnable soc True (I2C_MasterEnable soc False d))
         else
           let waitTimes = (if I2C_RETRY_TIMES soc \<noteq> 0 then waitTimes - 1 else waitTimes)
           in if flg AND imask soc STAT_MSTPENDING = 0 \<and> (I2C_RETRY_TIMES soc \<noteq> 0 \<longrightarrow> waitTimes \<noteq> 0)
              then i2c_pending_loop soc waitTimes res d
              else Some (res, flg, waitTimes, d))"

definition I2C_PendingStatusWait :: "'d i2c_soc \<Rightarrow> 'd \<Rightarrow> (status \<times> 'd) option" where
  "I2C_PendingStatusWait soc d = do {
     (res, flg, waitTimes, d) \<leftarrow> i2c_pending_loop soc (I2C_RETRY_TIMES soc) kStatus_Success d;
     if I2C_RETRY_TIMES soc \<noteq> 0 \<and> waitTimes = 0 then
       Some (kStatus_I2C_Timeout,
             if HAS_TIMEOUT_RECOVERY soc then I2C_MasterEnable soc True (I2C_MasterEnable soc False d) else d)
     else do {
       let res = (if flg AND imask soc STAT_MSTARBLOSS \<noteq> 0 then kStatus_I2C_ArbitrationLost else res);
       let res = (if flg AND imask soc STAT_MSTSTSTPERR \<noteq> 0 then kStatus_I2C_StartStopError else res);
       Some (res, I2C_ClearStatusFlags soc
                    (kI2C_MasterAllClearFlags soc OR imask soc STAT_EVENTTIMEOUT OR imask soc STAT_SCLTIMEOUT) d)
     }
   }"

definition I2C_MasterStart :: "'d i2c_soc \<Rightarrow> u8 \<Rightarrow> i2c_direction \<Rightarrow> 'd \<Rightarrow> (status \<times> 'd) option" where
  "I2C_MasterStart soc address direction d = do {
     (res, d) \<leftarrow> I2C_PendingStatusWait soc d;
     if res \<noteq> kStatus_Success then Some (res, d)
     else do {
       let d = reg_write soc I_MSTDAT (push_bit 1 (ucast address) OR (i2c_direction_num direction AND 1)) d;
       Some (kStatus_Success, reg_write soc I_MSTCTL (imask soc MSTCTL_MSTSTART) d)
     }
   }"

definition I2C_MasterRepeatedStart :: "'d i2c_soc \<Rightarrow> u8 \<Rightarrow> i2c_direction \<Rightarrow> 'd \<Rightarrow> (status \<times> 'd) option" where
  "I2C_MasterRepeatedStart soc address direction d = I2C_MasterStart soc address direction d"

definition I2C_MasterStop :: "'d i2c_soc \<Rightarrow> 'd \<Rightarrow> (status \<times> 'd) option" where
  "I2C_MasterStop soc d = do {
     (res, d) \<leftarrow> I2C_PendingStatusWait soc d;
     if res \<noteq> kStatus_Success then Some (res, d)
     else Some (kStatus_Success, reg_write soc I_MSTCTL (imask soc MSTCTL_MSTSTOP) d)
   }"

text \<open>
  \<open>I2C_MasterWriteBlocking\<close>. The bytes at \<open>txBuff\<close> are a list: the buffer is a local array or lies in
  RAM, which the device does not change. The loop first.
\<close>

fun i2c_write_loop :: "'d i2c_soc \<Rightarrow> u8 list \<Rightarrow> 'd \<Rightarrow> (status \<times> 'd) option" where
  "i2c_write_loop soc [] d = Some (kStatus_Success, d)"
| "i2c_write_loop soc (b # bs) d = do {
     (err, d) \<leftarrow> I2C_PendingStatusWait soc d;
     if err \<noteq> kStatus_Success then Some (err, d)
     else do {
       let (master_state, d) = i2c_master_code soc d;
       if master_state = I2C_STAT_MSTCODE_TXREADY then do {
         let d = reg_write soc I_MSTDAT (ucast b) d;
         i2c_write_loop soc bs (reg_write soc I_MSTCTL (imask soc MSTCTL_MSTCONTINUE) d)
       } else if master_state = I2C_STAT_MSTCODE_NACKADR \<or> master_state = I2C_STAT_MSTCODE_NACKDAT then do {
         (_, d) \<leftarrow> I2C_MasterStop soc d;
         Some (kStatus_I2C_Nak, d)
       } else Some (kStatus_I2C_UnexpectedState, d)
     }
   }"

definition i2c_write_end :: "'d i2c_soc \<Rightarrow> u32 \<Rightarrow> 'd \<Rightarrow> (status \<times> 'd) option" where
  "i2c_write_end soc flg d =
     (if flg AND kI2C_TransferNoStopFlag = 0 then do {
        let d = reg_write soc I_MSTCTL (imask soc MSTCTL_MSTSTOP) d;
        (err, d) \<leftarrow> I2C_PendingStatusWait soc d;
        if err \<noteq> kStatus_Success then Some (err, d) else Some (kStatus_Success, d)
      } else Some (kStatus_Success, d))"

definition I2C_MasterWriteBlocking :: "'d i2c_soc \<Rightarrow> u8 list \<Rightarrow> u32 \<Rightarrow> 'd \<Rightarrow> (status \<times> 'd) option" where
  "I2C_MasterWriteBlocking soc bytes flg d = do {
     (err, d) \<leftarrow> i2c_write_loop soc bytes d;
     if err \<noteq> kStatus_Success then Some (err, d)
     else do {
       (err, d) \<leftarrow> I2C_PendingStatusWait soc d;
       if err \<noteq> kStatus_Success then Some (err, d)
       else if \<not> IGNORE_LAST_NACK soc then do {
         let (code, d) = i2c_master_code soc d;
         if code = I2C_STAT_MSTCODE_NACKDAT then do {
           (_, d) \<leftarrow> I2C_MasterStop soc d;
           Some (kStatus_I2C_Nak, d)
         } else i2c_write_end soc flg d
       } else i2c_write_end soc flg d
     }
   }"

fun i2c_read_loop :: "'d i2c_soc \<Rightarrow> u32 \<Rightarrow> u32 \<Rightarrow> nat \<Rightarrow> mem \<times> 'd \<Rightarrow> (status \<times> mem \<times> 'd) option" where
  "i2c_read_loop soc flg buf 0 (ram, d) = Some (kStatus_Success, ram, d)"
| "i2c_read_loop soc flg buf (Suc n) (ram, d) = do {
     (err, d) \<leftarrow> I2C_PendingStatusWait soc d;
     if err \<noteq> kStatus_Success then Some (err, ram, d)
     else do {
       let (master_state, d) = i2c_master_code soc d;
       if master_state = I2C_STAT_MSTCODE_RXREADY then do {
         let (v, d) = reg_read soc I_MSTDAT d;
         let ram = ram(buf := ucast v);
         if n \<noteq> 0 then i2c_read_loop soc flg (buf + 1) n (ram, reg_write soc I_MSTCTL (imask soc MSTCTL_MSTCONTINUE) d)
         else if flg AND kI2C_TransferNoStopFlag = 0 then do {
           let d = reg_write soc I_MSTCTL (imask soc MSTCTL_MSTSTOP) d;
           (err, d) \<leftarrow> I2C_PendingStatusWait soc d;
           if err \<noteq> kStatus_Success then Some (err, ram, d) else i2c_read_loop soc flg (buf + 1) n (ram, d)
         } else i2c_read_loop soc flg (buf + 1) n (ram, d)
       } else if master_state = I2C_STAT_MSTCODE_NACKADR \<or> master_state = I2C_STAT_MSTCODE_NACKDAT
         then Some (kStatus_I2C_Nak, ram, d)
       else Some (kStatus_I2C_UnexpectedState, ram, d)
     }
   }"

definition I2C_MasterReadBlocking ::
    "'d i2c_soc \<Rightarrow> u32 \<Rightarrow> u32 \<Rightarrow> u32 \<Rightarrow> mem \<times> 'd \<Rightarrow> (status \<times> mem \<times> 'd) option" where
  "I2C_MasterReadBlocking soc rxBuff rxSize flg rd = do {
     c_assert (rxBuff \<noteq> 0);
     i2c_read_loop soc flg rxBuff (unat rxSize) rd
   }"

definition I2C_MasterCheckStartResponse :: "'d i2c_soc \<Rightarrow> 'd \<Rightarrow> (status \<times> 'd) option" where
  "I2C_MasterCheckStartResponse soc d = do {
     (res, d) \<leftarrow> I2C_PendingStatusWait soc d;
     if res \<noteq> kStatus_Success then Some (res, d)
     else do {
       let (code, d) = i2c_master_code soc d;
       if code = I2C_STAT_MSTCODE_NACKADR then do {
         (_, d) \<leftarrow> I2C_MasterStop soc d;
         Some (kStatus_I2C_Addr_Nak, d)
       } else Some (kStatus_Success, d)
     }
   }"

text \<open>
  The loop that lays out a subaddress, most significant byte first; an array of four bytes.
\<close>

fun i2c_fill_subaddr :: "nat \<Rightarrow> u32 \<Rightarrow> u8 list \<Rightarrow> u8 list" where
  "i2c_fill_subaddr 0 sub buf = buf"
| "i2c_fill_subaddr (Suc i) sub buf = i2c_fill_subaddr i (drop_bit 8 sub) (buf[i := ucast sub])"

text \<open>
  The address phase of \<open>I2C_MasterTransferBlocking\<close>; the flag tells that the function returns at once.
\<close>

definition i2c_send_subaddr :: "'d i2c_soc \<Rightarrow> i2c_master_transfer \<Rightarrow> 'd \<Rightarrow> (bool \<times> status \<times> 'd) option" where
  "i2c_send_subaddr soc xfer d = do {
     c_assert (subaddressSize xfer \<le> 4);
     let subaddrBuf = i2c_fill_subaddr (unat (subaddressSize xfer)) (subaddress xfer) (replicate 4 0);
     (res, d) \<leftarrow> I2C_MasterWriteBlocking soc (take (unat (subaddressSize xfer)) subaddrBuf) kI2C_TransferNoStopFlag d;
     if res \<noteq> kStatus_Success then
       if res = kStatus_I2C_Nak then do {
         (_, d) \<leftarrow> I2C_MasterStop soc d;
         Some (True, kStatus_I2C_Addr_Nak, d)
       } else Some (False, res, d)
     else if xfer_direction xfer = kI2C_Read then do {
       (res, d) \<leftarrow> I2C_MasterRepeatedStart soc (slaveAddress xfer) (xfer_direction xfer) d;
       if res = kStatus_Success then do {
         (res, d) \<leftarrow> I2C_MasterCheckStartResponse soc d;
         Some (res \<noteq> kStatus_Success, res, d)
       } else Some (False, res, d)
     } else Some (False, res, d)
   }"

definition i2c_address_phase :: "'d i2c_soc \<Rightarrow> i2c_master_transfer \<Rightarrow> 'd \<Rightarrow> (bool \<times> status \<times> 'd) option" where
  "i2c_address_phase soc xfer d =
     (if xfer_flags xfer AND kI2C_TransferNoStartFlag = 0 then do {
        let direction = (if subaddressSize xfer \<noteq> 0 then kI2C_Write else xfer_direction xfer);
        (res, d) \<leftarrow> I2C_MasterStart soc (slaveAddress xfer) direction d;
        if res = kStatus_Success then do {
          (res, d) \<leftarrow> I2C_MasterCheckStartResponse soc d;
          if res \<noteq> kStatus_Success then Some (True, res, d)
          else if subaddressSize xfer \<noteq> 0 then i2c_send_subaddr soc xfer d
          else Some (False, res, d)
        } else Some (False, res, d)
      } else Some (False, kStatus_Success, d))"

definition i2c_data_phase ::
    "'d i2c_soc \<Rightarrow> i2c_master_transfer \<Rightarrow> mem \<times> 'd \<Rightarrow> (status \<times> mem \<times> 'd) option" where
  "i2c_data_phase soc xfer rd =
     (if xfer_direction xfer = kI2C_Write \<and> 0 < xfer_dataSize xfer then do {
        c_assert (xfer_data xfer \<noteq> 0);
        (res, d) \<leftarrow> I2C_MasterWriteBlocking soc (mem_bytes (fst rd) (xfer_data xfer) (unat (xfer_dataSize xfer)))
                     (xfer_flags xfer) (snd rd);
        Some (res, fst rd, d)
      } else if xfer_direction xfer = kI2C_Read \<and> 0 < xfer_dataSize xfer
        then I2C_MasterReadBlocking soc (xfer_data xfer) (xfer_dataSize xfer) (xfer_flags xfer) rd
      else Some (kStatus_Success, rd))"

definition I2C_MasterTransferBlocking ::
    "'d i2c_soc \<Rightarrow> i2c_master_transfer \<Rightarrow> mem \<times> 'd \<Rightarrow> (status \<times> mem \<times> 'd) option" where
  "I2C_MasterTransferBlocking soc xfer rd = do {
     let (ram, d) = rd;
     let d = I2C_SlaveEnable soc False (I2C_MasterEnable soc True d);
     (returned, res, d) \<leftarrow> i2c_address_phase soc xfer d;
     if returned then Some (res, ram, d)
     else do {
       (res, ram, d) \<leftarrow> (if res = kStatus_Success then i2c_data_phase soc xfer (ram, d) else Some (res, ram, d));
       if res = kStatus_I2C_Nak then do {
         (_, d) \<leftarrow> I2C_MasterStop soc d;
         Some (res, ram, d)
       } else Some (res, ram, d)
     }
   }"

end
