(* ===== verification/I2c_Master.thy ===== *)
theory I2c_Master
  imports I2c
begin

text \<open>
  \<open>drivers/flexcomm/i2c/fsl_i2c.c\<close>, non-blocking master transfers: the handle, the state machine that
  each interrupt advances by one step, and the interrupt handler.
\<close>

subsection \<open>Handle\<close>

definition I2C_MasterTransferCreateHandle ::
    "'d i2c_soc \<Rightarrow> u32 \<Rightarrow> u32 \<Rightarrow> nat option \<Rightarrow> u32 \<Rightarrow> 'd i2c_master \<Rightarrow> 'd i2c_master option" where
  "I2C_MasterTransferCreateHandle soc base handle cb ud s = do {
     c_assert (handle \<noteq> 0);
     inst \<leftarrow> I2C_GetInstance soc base;
     let s = s\<lparr>im_handle :=
       \<lparr>mstate = kIdleState, transferCount = 0, remainingBytes = 0, mbuf = 0, remainingSubaddr = 0,
        subaddrBuf = replicate 4 0, checkAddrNack = False,
        mtransfer = \<lparr>xfer_flags = 0, slaveAddress = 0, xfer_direction = kI2C_Write, subaddress = 0, subaddressSize = 0,
                     xfer_data = 0, xfer_dataSize = 0\<rparr>,
        completionCallback = cb, m_userData = ud\<rparr>\<rparr>;
     irqs \<leftarrow> FLEXCOMM_SetIRQHandler soc base (Some I2C_MasterHandler) handle (im_irqs s);
     let s = s\<lparr>im_irqs := irqs\<rparr>;
     Some (on_imdev (i2c_EnableIRQ soc inst) (on_imdev (I2C_DisableInterrupts soc (kI2C_MasterIrqFlags soc)) s))
   }"

text \<open>\<open>xfer->subaddressSize > sizeof(handle->subaddrBuf)\<close> is tested only when a start is sent.\<close>

definition I2C_InitTransferStateMachine ::
    "i2c_master_transfer \<Rightarrow> i2c_master_handle \<Rightarrow> status \<times> i2c_master_handle" where
  "I2C_InitTransferStateMachine xfer h =
     (let h = h\<lparr>mtransfer := xfer, transferCount := 0, remainingBytes := xfer_dataSize xfer, mbuf := xfer_data xfer,
                remainingSubaddr := 0, checkAddrNack := False\<rparr>
      in if xfer_flags xfer AND kI2C_TransferNoStartFlag \<noteq> 0 then
           if xfer_dataSize xfer = 0 then (kStatus_Success, h\<lparr>mstate := kStopState\<rparr>)
           else if xfer_direction xfer = kI2C_Write then (kStatus_Success, h\<lparr>mstate := kTransmitDataState\<rparr>)
           else if xfer_direction xfer = kI2C_Read then (kStatus_Success, h\<lparr>mstate := kReceiveDataBeginState\<rparr>)
           else (kStatus_I2C_InvalidParameter, h)
         else if 4 < subaddressSize xfer then (kStatus_I2C_InvalidParameter, h)
         else
           let h = (if subaddressSize xfer \<noteq> 0 then
                      h\<lparr>subaddrBuf := i2c_fill_subaddr (unat (subaddressSize xfer)) (subaddress xfer) (subaddrBuf h),
                        remainingSubaddr := subaddressSize xfer\<rparr>
                    else h)
           in (kStatus_Success, h\<lparr>mstate := kStartState, checkAddrNack := True\<rparr>))"

definition I2C_MasterTransferNonBlocking ::
    "'d i2c_soc \<Rightarrow> i2c_master_transfer \<Rightarrow> 'd i2c_master \<Rightarrow> (status \<times> 'd i2c_master) option" where
  "I2C_MasterTransferNonBlocking soc xfer s = do {
     c_assert (subaddressSize xfer \<le> 4);
     if mstate (im_handle s) \<noteq> kIdleState then Some (kStatus_I2C_Busy, s)
     else do {
       let s = on_imdev (\<lambda>d. I2C_SlaveEnable soc False (I2C_MasterEnable soc True d)) s;
       let s = on_imdev (I2C_DisableInterrupts soc (kI2C_MasterIrqFlags soc)) s;
       let (res, h) = I2C_InitTransferStateMachine xfer (im_handle s);
       let s = s\<lparr>im_handle := h\<rparr>;
       let s = on_imdev (I2C_ClearStatusFlags soc (kI2C_MasterAllClearFlags soc OR kI2C_CommonAllClearFlags soc)) s;
       Some (res, on_imdev (I2C_EnableInterrupts soc (kI2C_MasterIrqFlags soc)) s)
     }
   }"

text \<open>The second result is what is stored through \<open>count\<close>; a null pointer is \<open>False\<close>.\<close>

definition I2C_MasterTransferGetCount :: "bool \<Rightarrow> 'd i2c_master \<Rightarrow> status \<times> u32 option" where
  "I2C_MasterTransferGetCount count s =
     (if \<not> count then (kStatus_InvalidArgument, None)
      else if mstate (im_handle s) = kIdleState then (kStatus_NoTransferInProgress, Some 0)
      else (kStatus_Success, Some (transferCount (im_handle s))))"

definition I2C_MasterTransferAbort :: "'d i2c_soc \<Rightarrow> 'd i2c_master \<Rightarrow> (status \<times> 'd i2c_master) option" where
  "I2C_MasterTransferAbort soc s =
     (if mstate (im_handle s) \<noteq> kIdleState then do {
        let s = on_imdev (I2C_DisableInterrupts soc (kI2C_MasterIrqFlags soc)) s;
        (res, d) \<leftarrow> I2C_PendingStatusWait soc (im_dev s);
        if res \<noteq> kStatus_Success then Some (res, on_imh (\<lambda>h. h\<lparr>mstate := kIdleState\<rparr>) (s\<lparr>im_dev := d\<rparr>))
        else do {
          let (master_state, d) = i2c_master_code soc d;
          (res, d) \<leftarrow> (if master_state \<noteq> I2C_STAT_MSTCODE_IDLE
                       then I2C_PendingStatusWait soc (reg_write soc I_MSTCTL (imask soc MSTCTL_MSTSTOP) d)
                       else Some (kStatus_Success, d));
          if res \<noteq> kStatus_Success then Some (res, on_imh (\<lambda>h. h\<lparr>mstate := kIdleState\<rparr>) (s\<lparr>im_dev := d\<rparr>))
          else Some (kStatus_Success, on_imh (\<lambda>h. h\<lparr>mstate := kIdleState, checkAddrNack := False\<rparr>) (s\<lparr>im_dev := d\<rparr>))
        }
      } else Some (kStatus_Success, s))"

subsection \<open>State machine\<close>

text \<open>The errors that end a step before the hardware state is looked at.\<close>

definition i2c_master_errors :: "'d i2c_soc \<Rightarrow> u32 \<Rightarrow> 'd \<Rightarrow> (status \<times> 'd) option" where
  "i2c_master_errors soc flg d =
     (let recover = (\<lambda>d. if HAS_TIMEOUT_RECOVERY soc then I2C_MasterEnable soc True (I2C_MasterEnable soc False d) else d)
      in if flg AND imask soc STAT_MSTARBLOSS \<noteq> 0 then
           Some (kStatus_I2C_ArbitrationLost, I2C_ClearStatusFlags soc (imask soc STAT_MSTARBLOSS) d)
         else if flg AND imask soc STAT_MSTSTSTPERR \<noteq> 0 then
           Some (kStatus_I2C_StartStopError, I2C_ClearStatusFlags soc (imask soc STAT_MSTSTSTPERR) d)
         else if flg AND imask soc STAT_EVENTTIMEOUT \<noteq> 0 then
           Some (kStatus_I2C_EventTimeout, I2C_ClearStatusFlags soc (imask soc STAT_EVENTTIMEOUT) (recover d))
         else if flg AND imask soc STAT_SCLTIMEOUT \<noteq> 0 then
           Some (kStatus_I2C_SclLowTimeout, I2C_ClearStatusFlags soc (imask soc STAT_SCLTIMEOUT) (recover d))
         else if flg AND imask soc STAT_MSTPENDING = 0 then Some (kStatus_I2C_Busy, d)
         else None)"

definition i2c_command :: "'d i2c_soc \<Rightarrow> i2c_mask \<Rightarrow> 'd i2c_master \<Rightarrow> 'd i2c_master" where
  "i2c_command soc m = on_imdev (reg_write soc I_MSTCTL (imask soc m))"

text \<open>The cases of the switch: status, whether the transfer is done, and the state after it.\<close>

definition i2c_start_state :: "'d i2c_soc \<Rightarrow> 'd i2c_master \<Rightarrow> (status \<times> bool \<times> 'd i2c_master) option" where
  "i2c_start_state soc s =
     (let h = im_handle s; adr = push_bit 1 (ucast (slaveAddress (mtransfer h)));
          (byte, next) =
            (if remainingSubaddr h \<noteq> 0 then (adr, kTransmitSubaddrState)
             else if xfer_direction (mtransfer h) = kI2C_Write then
               (adr, if remainingBytes h \<noteq> 0 then kTransmitDataState else kStopState)
             else (adr OR 1, if remainingBytes h \<noteq> 0 then kReceiveDataState else kStopState));
          s = on_imh (\<lambda>h. h\<lparr>mstate := next\<rparr>) (on_imdev (reg_write soc I_MSTDAT byte) s)
      in Some (kStatus_Success, False, i2c_command soc MSTCTL_MSTSTART s))"

definition i2c_subaddr_state :: "'d i2c_soc \<Rightarrow> u32 \<Rightarrow> 'd i2c_master \<Rightarrow> (status \<times> bool \<times> 'd i2c_master) option" where
  "i2c_subaddr_state soc master_state s =
     (if master_state \<noteq> I2C_STAT_MSTCODE_TXREADY then Some (kStatus_I2C_UnexpectedState, False, s)
      else do {
        let h = im_handle s;
        let i = unat (subaddressSize (mtransfer h) - remainingSubaddr h);
        c_assert (i < length (subaddrBuf h));
        let s = on_imdev (reg_write soc I_MSTDAT (ucast (subaddrBuf h ! i))) s;
        let s = i2c_command soc MSTCTL_MSTCONTINUE s;
        let s = on_imh (\<lambda>h. h\<lparr>remainingSubaddr := remainingSubaddr h - 1\<rparr>) s;
        if remainingSubaddr (im_handle s) \<noteq> 0 then Some (kStatus_Success, False, s)
        else Some (kStatus_Success, False,
          on_imh (\<lambda>h. h\<lparr>mstate := (if remainingBytes h \<noteq> 0 then
                                      if xfer_direction (mtransfer h) = kI2C_Read then kStartState else kTransmitDataState
                                    else kStopState)\<rparr>) s)
      })"

definition i2c_transmit_state :: "'d i2c_soc \<Rightarrow> u32 \<Rightarrow> 'd i2c_master \<Rightarrow> (status \<times> bool \<times> 'd i2c_master) option" where
  "i2c_transmit_state soc master_state s0 = do {
     let s = on_imh (\<lambda>h. h\<lparr>checkAddrNack := False\<rparr>) s0;
     if master_state \<noteq> I2C_STAT_MSTCODE_TXREADY then Some (kStatus_I2C_UnexpectedState, False, s)
     else do {
       c_assert (mbuf (im_handle s) \<noteq> 0);
       let s = on_imdev (reg_write soc I_MSTDAT (ucast (im_ram s (mbuf (im_handle s))))) s;
       let s = on_imh (\<lambda>h. h\<lparr>mbuf := mbuf h + 1\<rparr>) s;
       let s = i2c_command soc MSTCTL_MSTCONTINUE s;
       let s = on_imh (\<lambda>h. h\<lparr>remainingBytes := remainingBytes h - 1\<rparr>) s;
       let s = (if remainingBytes (im_handle s) = 0 then on_imh (\<lambda>h. h\<lparr>mstate := kStopState\<rparr>) s else s);
       Some (kStatus_Success, False, on_imh (\<lambda>h. h\<lparr>transferCount := transferCount h + 1\<rparr>) s)
     }
   }"

definition i2c_receive_begin_state ::
    "'d i2c_soc \<Rightarrow> u32 \<Rightarrow> 'd i2c_master \<Rightarrow> (status \<times> bool \<times> 'd i2c_master) option" where
  "i2c_receive_begin_state soc master_state s0 =
     (let s = on_imh (\<lambda>h. h\<lparr>checkAddrNack := False\<rparr>) s0
      in if master_state \<noteq> I2C_STAT_MSTCODE_RXREADY then Some (kStatus_I2C_UnexpectedState, False, s)
         else
           let s = on_imdev (\<lambda>d. snd (reg_read soc I_MSTDAT d)) s;
               s = i2c_command soc MSTCTL_MSTCONTINUE s
           in Some (kStatus_Success, False, on_imh (\<lambda>h. h\<lparr>mstate := kReceiveDataState\<rparr>) s))"

definition i2c_receive_state :: "'d i2c_soc \<Rightarrow> u32 \<Rightarrow> 'd i2c_master \<Rightarrow> (status \<times> bool \<times> 'd i2c_master) option" where
  "i2c_receive_state soc master_state s0 = do {
     let s = on_imh (\<lambda>h. h\<lparr>checkAddrNack := False\<rparr>) s0;
     if master_state \<noteq> I2C_STAT_MSTCODE_RXREADY then Some (kStatus_I2C_UnexpectedState, False, s)
     else do {
       let (v, d) = reg_read soc I_MSTDAT (im_dev s);
       c_assert (mbuf (im_handle s) \<noteq> 0);
       let s = s\<lparr>im_dev := d, im_ram := (im_ram s)(mbuf (im_handle s) := ucast v)\<rparr>;
       let s = on_imh (\<lambda>h. h\<lparr>mbuf := mbuf h + 1, remainingBytes := remainingBytes h - 1\<rparr>) s;
       let s = (if remainingBytes (im_handle s) \<noteq> 0 then i2c_command soc MSTCTL_MSTCONTINUE s
                else
                  let s = (if xfer_flags (mtransfer (im_handle s)) AND kI2C_TransferNoStopFlag = 0
                           then i2c_command soc MSTCTL_MSTSTOP s else s)
                  in on_imh (\<lambda>h. h\<lparr>mstate := kWaitForCompletionState\<rparr>) s);
       Some (kStatus_Success, False, on_imh (\<lambda>h. h\<lparr>transferCount := transferCount h + 1\<rparr>) s)
     }
   }"

definition i2c_stop_state :: "'d i2c_soc \<Rightarrow> 'd i2c_master \<Rightarrow> (status \<times> bool \<times> 'd i2c_master) option" where
  "i2c_stop_state soc s0 =
     (let s = on_imh (\<lambda>h. h\<lparr>checkAddrNack := False\<rparr>) s0
      in if xfer_flags (mtransfer (im_handle s)) AND kI2C_TransferNoStopFlag \<noteq> 0
         then Some (kStatus_Success, True, on_imh (\<lambda>h. h\<lparr>mstate := kIdleState\<rparr>) s)
         else Some (kStatus_Success, False,
                    on_imh (\<lambda>h. h\<lparr>mstate := kWaitForCompletionState\<rparr>) (i2c_command soc MSTCTL_MSTSTOP s)))"

definition i2c_switch :: "'d i2c_soc \<Rightarrow> u32 \<Rightarrow> 'd i2c_master \<Rightarrow> (status \<times> bool \<times> 'd i2c_master) option" where
  "i2c_switch soc master_state s =
     (case mstate (im_handle s) of
        kStartState \<Rightarrow> i2c_start_state soc s
      | kTransmitSubaddrState \<Rightarrow> i2c_subaddr_state soc master_state s
      | kTransmitDataState \<Rightarrow> i2c_transmit_state soc master_state s
      | kReceiveDataBeginState \<Rightarrow> i2c_receive_begin_state soc master_state s
      | kReceiveDataState \<Rightarrow> i2c_receive_state soc master_state s
      | kStopState \<Rightarrow> i2c_stop_state soc s
      | kWaitForCompletionState \<Rightarrow> Some (kStatus_Success, True, on_imh (\<lambda>h. h\<lparr>mstate := kIdleState\<rparr>) s)
      | _ \<Rightarrow> Some (kStatus_I2C_UnexpectedState, False, s))"

definition i2c_ignore_nak :: "'d i2c_soc \<Rightarrow> i2c_master_handle \<Rightarrow> bool" where
  "i2c_ignore_nak soc h \<longleftrightarrow>
     mstate h = kWaitForCompletionState \<and> remainingBytes h = 0 \<or>
     IGNORE_LAST_NACK soc \<and> mstate h = kStopState \<and> remainingBytes h = 0"

definition I2C_RunTransferStateMachine ::
    "'d i2c_soc \<Rightarrow> 'd i2c_master \<Rightarrow> (status \<times> bool \<times> 'd i2c_master) option" where
  "I2C_RunTransferStateMachine soc s =
     (let ignoreNak = i2c_ignore_nak soc (im_handle s);
          (flg, d) = I2C_GetStatusFlags soc (im_dev s)
      in case i2c_master_errors soc flg d of
           Some (err, d) \<Rightarrow> Some (err, False, s\<lparr>im_dev := d\<rparr>)
         | None \<Rightarrow>
             let (master_state, d) = i2c_master_code soc d;
                 s = s\<lparr>im_dev := d\<rparr>
             in if master_state = I2C_STAT_MSTCODE_NACKADR \<or> master_state = I2C_STAT_MSTCODE_NACKDAT \<and> \<not> ignoreNak then
                  let s = on_imh (\<lambda>h. h\<lparr>mstate := kWaitForCompletionState\<rparr>) (i2c_command soc MSTCTL_MSTSTOP s)
                  in Some (if master_state = I2C_STAT_MSTCODE_NACKADR \<or> checkAddrNack (im_handle s)
                           then kStatus_I2C_Addr_Nak else kStatus_I2C_Nak, False, s)
                else i2c_switch soc master_state s)"

definition i2c_callback :: "'d i2c_soc \<Rightarrow> status \<Rightarrow> 'd i2c_master \<Rightarrow> 'd i2c_master option" where
  "i2c_callback soc res s =
     (case completionCallback (im_handle s) of None \<Rightarrow> Some s
      | Some f \<Rightarrow> i2c_invoke soc f res (m_userData (im_handle s)) s)"

text \<open>\<open>handle\<close> is the handle's address.\<close>

definition I2C_MasterTransferHandleIRQ :: "'d i2c_soc \<Rightarrow> u32 \<Rightarrow> 'd i2c_master \<Rightarrow> 'd i2c_master option" where
  "I2C_MasterTransferHandleIRQ soc handle s =
     (if handle = 0 then Some s
      else do {
        (res, isDone, s) \<leftarrow> I2C_RunTransferStateMachine soc s;
        if res \<noteq> kStatus_Success \<or> isDone then do {
          let s = on_imh (\<lambda>h. h\<lparr>mstate := kIdleState\<rparr>) s;
          let s = on_imdev (I2C_DisableInterrupts soc (kI2C_MasterIrqFlags soc)) s;
          i2c_callback soc res s
        } else Some s
      })"

end
