(* ===== verification/I2c_Bus.thy ===== *)
theory I2c_Bus
  imports I2c_Master
begin

text \<open>
  The I2C bus as the master engine drives it: what is on the wire, what the peripheral promises, and
  what a transfer should put on the wire for a given partner. The non-blocking and the blocking
  transfers are related to this specification.
\<close>

subsection \<open>Wire and partner\<close>

text \<open>
  What happens on the wire: a (repeated) start with the address byte, a byte sent by the master, a
  byte received by it, a stop. A partner is described by whether it acknowledges the last byte of a
  history and which byte it sends next.
\<close>

datatype wire = W_Start u8 | W_Send u8 | W_Recv u8 | W_Stop

record i2c_partner =
  acks :: "wire list \<Rightarrow> bool"
  answer :: "wire list \<Rightarrow> u8"

record i2c_bus =
  ib_wire :: "wire list"
  ib_code :: u32
  ib_dat :: u32
  ib_cfg :: u32
  ib_delay :: nat

text \<open>
  The commands of the engine. After a start the engine reports that it can send or has received the
  first byte, or that the address was refused.
\<close>

definition bus_receive :: "i2c_partner \<Rightarrow> i2c_bus \<Rightarrow> i2c_bus" where
  "bus_receive p b =
     b\<lparr>ib_wire := ib_wire b @ [W_Recv (answer p (ib_wire b))], ib_dat := ucast (answer p (ib_wire b)),
       ib_code := I2C_STAT_MSTCODE_RXREADY\<rparr>"

definition bus_start :: "i2c_partner \<Rightarrow> i2c_bus \<Rightarrow> i2c_bus" where
  "bus_start p b =
     (let w = ib_wire b @ [W_Start (ucast (ib_dat b))]
      in if \<not> acks p w then b\<lparr>ib_wire := w, ib_code := I2C_STAT_MSTCODE_NACKADR\<rparr>
         else if ib_dat b AND 1 = 0 then b\<lparr>ib_wire := w, ib_code := I2C_STAT_MSTCODE_TXREADY\<rparr>
         else bus_receive p (b\<lparr>ib_wire := w\<rparr>))"

definition bus_continue :: "i2c_partner \<Rightarrow> i2c_bus \<Rightarrow> i2c_bus" where
  "bus_continue p b =
     (if ib_code b = I2C_STAT_MSTCODE_RXREADY then bus_receive p b
      else
        let w = ib_wire b @ [W_Send (ucast (ib_dat b))]
        in b\<lparr>ib_wire := w, ib_code := (if acks p w then I2C_STAT_MSTCODE_TXREADY else I2C_STAT_MSTCODE_NACKDAT)\<rparr>)"

definition bus_stop :: "i2c_bus \<Rightarrow> i2c_bus" where
  "bus_stop b = b\<lparr>ib_wire := ib_wire b @ [W_Stop], ib_code := I2C_STAT_MSTCODE_IDLE\<rparr>"

text \<open>
  What the driver relies on, for a bus without arbitration loss, errors and timeouts: the layout of
  the masks it uses, STAT reports the state of the engine and, once a command has completed, pending;
  a command is carried out with the data written before. After a command the engine may take any
  number of polls to complete. Writes that keep the master enabled and writes to the interrupt
  enables and flags do not disturb it.
\<close>

definition same_bus :: "i2c_bus \<Rightarrow> i2c_bus \<Rightarrow> bool" where
  "same_bus b b' \<longleftrightarrow> (\<exists>n. b' = b\<lparr>ib_delay := n\<rparr>)"

definition i2c_layout :: "'d i2c_soc \<Rightarrow> bool" where
  "i2c_layout soc \<longleftrightarrow>
     imask soc CFG_MSTEN = 1 \<and> imask soc CFG_SLVEN = 2 \<and>
     imask soc STAT_MSTPENDING = 1 \<and> imask soc STAT_MSTSTATE = 0xE \<and> STAT_MSTSTATE_SHIFT soc = 1 \<and>
     imask soc STAT_MSTARBLOSS = 0x10 \<and> imask soc STAT_MSTSTSTPERR = 0x40 \<and>
     imask soc STAT_SLVSTATE = 0x600 \<and> imask soc STAT_SLVIDX = 0x3000 \<and> STAT_SLVIDX_SHIFT soc = 12 \<and>
     imask soc STAT_EVENTTIMEOUT = 0x1000000 \<and> imask soc STAT_SCLTIMEOUT = 0x2000000 \<and>
     imask soc MSTCTL_MSTCONTINUE = 1 \<and> imask soc MSTCTL_MSTSTART = 2 \<and> imask soc MSTCTL_MSTSTOP = 4"

definition i2c_engine :: "'d i2c_soc \<Rightarrow> i2c_partner \<Rightarrow> ('d \<Rightarrow> i2c_bus) \<Rightarrow> bool" where
  "i2c_engine soc p bus \<longleftrightarrow>
     i2c_layout soc \<and>
     (\<forall>d. fst (reg_read soc I_STAT d) AND 0x300005F = (if ib_delay (bus d) = 0 then 1 else 0) OR push_bit 1 (ib_code (bus d)) \<and>
          bus (snd (reg_read soc I_STAT d)) = (bus d)\<lparr>ib_delay := ib_delay (bus d) - 1\<rparr>) \<and>
     (\<forall>d. ib_code (bus d) \<le> 4) \<and>
     (\<forall>d. reg_read soc I_CFG d = (ib_cfg (bus d), snd (reg_read soc I_CFG d)) \<and> bus (snd (reg_read soc I_CFG d)) = bus d) \<and>
     (\<forall>d v. v AND 1 = 1 \<longrightarrow> bus (reg_write soc I_CFG v d) = (bus d)\<lparr>ib_cfg := v\<rparr>) \<and>
     (\<forall>d r v. r \<in> {I_STAT, I_INTENSET, I_INTENCLR} \<longrightarrow> bus (reg_write soc r v d) = bus d) \<and>
     (\<forall>d v. bus (reg_write soc I_MSTDAT v d) = (bus d)\<lparr>ib_dat := v\<rparr>) \<and>
     (\<forall>d. ib_code (bus d) = I2C_STAT_MSTCODE_RXREADY \<longrightarrow>
        fst (reg_read soc I_MSTDAT d) AND 0xFF = ib_dat (bus d) AND 0xFF \<and> bus (snd (reg_read soc I_MSTDAT d)) = bus d) \<and>
     (\<forall>d. same_bus (bus_start p (bus d)) (bus (reg_write soc I_MSTCTL 2 d))) \<and>
     (\<forall>d. ib_code (bus d) \<in> {I2C_STAT_MSTCODE_RXREADY, I2C_STAT_MSTCODE_TXREADY} \<longrightarrow>
        same_bus (bus_continue p (bus d)) (bus (reg_write soc I_MSTCTL 1 d))) \<and>
     (\<forall>d. same_bus (bus_stop (bus d)) (bus (reg_write soc I_MSTCTL 4 d)))"

subsection \<open>What a transfer puts on the wire\<close>

text \<open>Sending bytes until one is refused; receiving bytes.\<close>

fun wire_send :: "i2c_partner \<Rightarrow> wire list \<Rightarrow> u8 list \<Rightarrow> bool \<times> wire list" where
  "wire_send p w [] = (True, w)"
| "wire_send p w (b # bs) =
     (let w = w @ [W_Send b] in if acks p w then wire_send p w bs else (False, w))"

fun wire_recv :: "i2c_partner \<Rightarrow> wire list \<Rightarrow> nat \<Rightarrow> u8 list \<times> wire list" where
  "wire_recv p w 0 = ([], w)"
| "wire_recv p w (Suc n) =
     (let b = answer p w; (bs, w) = wire_recv p (w @ [W_Recv b]) n in (b # bs, w))"

definition addr_byte :: "u8 \<Rightarrow> i2c_direction \<Rightarrow> u8" where
  "addr_byte a dir = push_bit 1 a OR (if dir = kI2C_Read then 1 else 0)"

definition sub_bytes :: "i2c_master_transfer \<Rightarrow> u8 list" where
  "sub_bytes x = map (\<lambda>i. ucast (drop_bit (8 * (unat (subaddressSize x) - 1 - i)) (subaddress x))) [0..<unat (subaddressSize x)]"

text \<open>
  The data of a write, the data of a read, and a start followed by one of them: status, wire and
  received bytes. \<open>bytes\<close> are the data of a write, \<open>ignore_last\<close> is \<open>I2C_MASTER_TRANSMIT_IGNORE_LAST_NACK\<close>.
\<close>

definition wire_data :: "bool \<Rightarrow> i2c_partner \<Rightarrow> u8 list \<Rightarrow> wire list \<Rightarrow> status \<times> wire list \<times> u8 list" where
  "wire_data ignore_last p bytes w =
     (let (ok, w3) = wire_send p w bytes
      in (if ok \<or> ignore_last \<and> length w3 = length w + length bytes then kStatus_Success else kStatus_I2C_Nak, w3 @ [W_Stop], []))"

definition wire_read :: "i2c_partner \<Rightarrow> i2c_master_transfer \<Rightarrow> wire list \<Rightarrow> status \<times> wire list \<times> u8 list" where
  "wire_read p x w =
     (let (bs, w4) = wire_recv p w (unat (xfer_dataSize x)) in (kStatus_Success, w4 @ [W_Stop], bs))"

definition wire_start :: "bool \<Rightarrow> i2c_partner \<Rightarrow> i2c_master_transfer \<Rightarrow> u8 list \<Rightarrow> wire list \<Rightarrow> status \<times> wire list \<times> u8 list" where
  "wire_start ignore_last p x bytes w =
     (let w1 = w @ [W_Start (addr_byte (slaveAddress x) (xfer_direction x))]
      in if \<not> acks p w1 then (kStatus_I2C_Addr_Nak, w1 @ [W_Stop], [])
         else if xfer_direction x = kI2C_Write then wire_data ignore_last p bytes w1 else wire_read p x w1)"

text \<open>
  A transfer with a start and a stop. A subaddress is written first, then the data follow, for a read
  after a repeated start.
\<close>

definition wire_transfer ::
    "bool \<Rightarrow> i2c_partner \<Rightarrow> i2c_master_transfer \<Rightarrow> u8 list \<Rightarrow> wire list \<Rightarrow> status \<times> wire list \<times> u8 list" where
  "wire_transfer ignore_last p x bytes w =
     (if subaddressSize x = 0 then wire_start ignore_last p x bytes w
      else
        let w1 = w @ [W_Start (addr_byte (slaveAddress x) kI2C_Write)]
        in if \<not> acks p w1 then (kStatus_I2C_Addr_Nak, w1 @ [W_Stop], [])
           else
             let (ok, w2) = wire_send p w1 (sub_bytes x)
             in if \<not> ok then (kStatus_I2C_Addr_Nak, w2 @ [W_Stop], [])
                else if xfer_direction x = kI2C_Write then wire_data ignore_last p bytes w2
                else wire_start ignore_last p x bytes w2)"

text \<open>
  The specification against the shape of an I2C transfer: a partner that acknowledges everything sees
  the address, the subaddress most significant byte first and the data; a read appends exactly the
  bytes that are delivered.
\<close>

lemma wire_send_acked: "(\<And>w. acks p w) \<Longrightarrow> wire_send p w bs = (True, w @ map W_Send bs)"
  by (induction p w bs rule: wire_send.induct) (simp_all add: Let_def)

lemma wire_recv_shape: "wire_recv p w n = (bs, w') \<Longrightarrow> w' = w @ map W_Recv bs \<and> length bs = n"
  by (induction p w n arbitrary: bs w' rule: wire_recv.induct) (auto simp: Let_def split: prod.splits)

lemma sub_bytes_length [simp]: "length (sub_bytes x) = unat (subaddressSize x)"
  by (simp add: sub_bytes_def)

lemma wire_transfer_acked:
  assumes "\<And>w. acks p w" "xfer_direction x = kI2C_Write"
  shows "wire_transfer ign p x bytes w =
    (kStatus_Success, w @ W_Start (addr_byte (slaveAddress x) kI2C_Write) # map W_Send (sub_bytes x @ bytes) @ [W_Stop], [])"
  using assms by (simp add: wire_transfer_def wire_start_def wire_data_def wire_send_acked Let_def sub_bytes_def)

end
