(* ===== verification/I2c_Wire.thy ===== *)
theory I2c_Wire
  imports I2c_Bus
begin

unbundle bit_operations_syntax

subsection \<open>Reading the state of the engine\<close>

lemma engine_layout: "i2c_engine soc p bus \<Longrightarrow> i2c_layout soc"
  by (simp add: i2c_engine_def)

lemma engine_stat:
  assumes "i2c_engine soc p bus"
  shows "fst (reg_read soc I_STAT d) AND 0x300005F = (if ib_delay (bus d) = 0 then 1 else 0) OR push_bit 1 (ib_code (bus d))"
    "bus (snd (reg_read soc I_STAT d)) = (bus d)\<lparr>ib_delay := ib_delay (bus d) - 1\<rparr>"
    "ib_code (bus d) \<le> 4"
  using assms unfolding i2c_engine_def by blast+

lemma code_cases: "(c :: u32) \<le> 4 \<Longrightarrow> c = 0 \<or> c = 1 \<or> c = 2 \<or> c = 3 \<or> c = 4"
proof -
  assume "c \<le> 4"
  then have "unat c \<le> 4" by (simp add: word_le_nat_alt)
  then show ?thesis by (simp add: word_unat_eq_iff) arith
qed

lemma stat_part:
  assumes "(v :: u32) AND m = x" "k AND m = k"
  shows "v AND k = x AND k"
proof -
  have "v AND k = v AND (k AND m)" by (simp only: assms(2))
  also have "\<dots> = (v AND m) AND k" by (simp only: ac_simps)
  finally show ?thesis by (simp only: assms(1))
qed

lemma engine_bits:
  fixes d :: 'd
  assumes "i2c_engine soc p bus"
  defines "v \<equiv> fst (reg_read soc I_STAT d)"
  shows "v AND 1 = (if ib_delay (bus d) = 0 then 1 else 0)" "v AND 0xE = push_bit 1 (ib_code (bus d))" "v AND 0x10 = 0"
    "v AND 0x40 = 0" "v AND 0x1000000 = 0" "v AND 0x2000000 = 0"
proof -
  let ?x = "(if ib_delay (bus d) = 0 then 1 else 0) OR push_bit 1 (ib_code (bus d))"
  have x: "v AND k = ?x AND k" if "k AND 0x300005F = k" for k
    using stat_part [OF engine_stat(1) [OF assms(1), of d]] that by (simp add: v_def)
  note c = code_cases [OF engine_stat(3) [OF assms(1), of d]]
  show "v AND 1 = (if ib_delay (bus d) = 0 then 1 else 0)" "v AND 0xE = push_bit 1 (ib_code (bus d))" "v AND 0x10 = 0"
    "v AND 0x40 = 0" "v AND 0x1000000 = 0" "v AND 0x2000000 = 0"
    using c by (auto simp: x)
qed

lemma or_and_skip: "b AND k = 0 \<Longrightarrow> (a OR b) AND k = a AND (k :: u32)"
  by (simp add: bit.conj_disj_distrib2)

lemma not_and_skip: "NOT m AND k = k \<Longrightarrow> (a AND NOT m) AND k = a AND (k :: u32)"
  by (simp add: and.assoc)

lemma status_value_and:
  assumes "i2c_layout soc" "k \<in> {1, 0x10, 0x40, 0x1000000, 0x2000000}"
  shows "i2c_status_value soc v AND k = v AND k"
proof -
  have k: "push_bit 5 1 AND k = 0" "push_bit 7 1 AND k = 0" "push_bit 20 1 AND k = 0" "push_bit 21 1 AND k = 0"
    "push_bit 22 1 AND k = 0" "NOT 0xE AND k = k" "NOT 0x3000 AND k = k"
    using assms(2) by auto
  show ?thesis using assms(1) unfolding i2c_layout_def i2c_status_value_def Let_def
    by (simp only: if_distrib [of "\<lambda>x. x AND k"] or_and_skip k not_and_skip if_cancel)
qed


lemma flags_read:
  assumes "i2c_engine soc p bus"
  shows "fst (I2C_GetStatusFlags soc d) AND imask soc STAT_MSTPENDING = (if ib_delay (bus d) = 0 then 1 else 0)"
    "fst (I2C_GetStatusFlags soc d) AND imask soc STAT_MSTARBLOSS = 0"
    "fst (I2C_GetStatusFlags soc d) AND imask soc STAT_MSTSTSTPERR = 0"
    "fst (I2C_GetStatusFlags soc d) AND imask soc STAT_EVENTTIMEOUT = 0"
    "fst (I2C_GetStatusFlags soc d) AND imask soc STAT_SCLTIMEOUT = 0"
    "snd (I2C_GetStatusFlags soc d) = snd (reg_read soc I_STAT d)"
proof -
  note l = engine_layout [OF assms] and b = engine_bits [OF assms, of d]
  have v: "fst (I2C_GetStatusFlags soc d) = i2c_status_value soc (fst (reg_read soc I_STAT d))"
    "snd (I2C_GetStatusFlags soc d) = snd (reg_read soc I_STAT d)"
    by (simp_all add: I2C_GetStatusFlags_def case_prod_beta)
  show "fst (I2C_GetStatusFlags soc d) AND imask soc STAT_MSTPENDING = (if ib_delay (bus d) = 0 then 1 else 0)"
    "fst (I2C_GetStatusFlags soc d) AND imask soc STAT_MSTARBLOSS = 0"
    "fst (I2C_GetStatusFlags soc d) AND imask soc STAT_MSTSTSTPERR = 0"
    "fst (I2C_GetStatusFlags soc d) AND imask soc STAT_EVENTTIMEOUT = 0"
    "fst (I2C_GetStatusFlags soc d) AND imask soc STAT_SCLTIMEOUT = 0"
    using b l unfolding v(1) by (simp_all add: i2c_layout_def status_value_and [OF l])
  show "snd (I2C_GetStatusFlags soc d) = snd (reg_read soc I_STAT d)" by (rule v(2))
qed

lemma master_code_read:
  assumes "i2c_engine soc p bus"
  shows "i2c_master_code soc d = (ib_code (bus d), snd (reg_read soc I_STAT d))"
proof -
  have m: "imask soc STAT_MSTSTATE = 0xE" "STAT_MSTSTATE_SHIFT soc = 1"
    using engine_layout [OF assms] by (simp_all add: i2c_layout_def)
  have "drop_bit 1 (push_bit 1 (ib_code (bus d))) = ib_code (bus d)"
    using code_cases [OF engine_stat(3) [OF assms, of d]] by auto
  then show ?thesis
    unfolding i2c_master_code_def case_prod_beta Let_def m engine_bits(2) [OF assms] by (simp only:)
qed

lemma engine_quiet:
  assumes "i2c_engine soc p bus"
  shows "r \<in> {I_STAT, I_INTENSET, I_INTENCLR} \<Longrightarrow> bus (reg_write soc r v d) = bus d"
    "bus (reg_write soc I_MSTDAT v d) = (bus d)\<lparr>ib_dat := v\<rparr>"
    "same_bus (bus_start p (bus d)) (bus (reg_write soc I_MSTCTL (imask soc MSTCTL_MSTSTART) d))"
    "same_bus (bus_stop (bus d)) (bus (reg_write soc I_MSTCTL (imask soc MSTCTL_MSTSTOP) d))"
    "ib_code (bus d) \<in> {I2C_STAT_MSTCODE_RXREADY, I2C_STAT_MSTCODE_TXREADY} \<Longrightarrow>
       same_bus (bus_continue p (bus d)) (bus (reg_write soc I_MSTCTL (imask soc MSTCTL_MSTCONTINUE) d))"
  using assms unfolding i2c_engine_def i2c_layout_def by auto

lemma engine_read_data:
  assumes "i2c_engine soc p bus" "ib_code (bus d) = I2C_STAT_MSTCODE_RXREADY"
  shows "fst (reg_read soc I_MSTDAT d) AND 0xFF = ib_dat (bus d) AND 0xFF" "bus (snd (reg_read soc I_MSTDAT d)) = bus d"
  using assms unfolding i2c_engine_def by blast+

lemma ucast_low_byte: "(v :: u32) AND 0xFF = w AND 0xFF \<Longrightarrow> (ucast v :: u8) = ucast w"
proof -
  assume a: "v AND 0xFF = w AND 0xFF"
  have m: "(0xFF :: u32) = mask 8" by (simp add: mask_eq_exp_minus_1)
  from a have "bit v n = bit w n" if "n < 8" for n
    using that unfolding m bit_eq_iff by (auto simp: bit_simps dest!: spec [of _ n])
  then show ?thesis by (intro bit_word_eqI) (simp add: bit_simps)
qed

subsection \<open>Waiting\<close>

lemma clear_flags_quiet: "i2c_engine soc p bus \<Longrightarrow> bus (I2C_ClearStatusFlags soc m d) = bus d"
  by (simp add: I2C_ClearStatusFlags_def engine_quiet)

lemma pending_loop_returns:
  assumes "i2c_engine soc p bus" "I2C_RETRY_TIMES soc = 0"
  shows "\<exists>flg d'. i2c_pending_loop soc t kStatus_Success d = Some (kStatus_Success, flg, t, d') \<and>
     bus d' = (bus d)\<lparr>ib_delay := 0\<rparr> \<and> flg AND imask soc STAT_MSTARBLOSS = 0 \<and> flg AND imask soc STAT_MSTSTSTPERR = 0"
proof (induction "ib_delay (bus d)" arbitrary: d)
  case 0
  then show ?case using assms(2) flags_read [OF assms(1), of d] engine_stat(2) [OF assms(1), of d]
    by (subst i2c_pending_loop.simps) (auto simp: case_prod_beta Let_def)
next
  case (Suc n)
  let ?d = "snd (reg_read soc I_STAT d)"
  have b: "bus ?d = (bus d)\<lparr>ib_delay := n\<rparr>" using engine_stat(2) [OF assms(1), of d] Suc.hyps(2) by simp
  have "(bus ?d)\<lparr>ib_delay := 0\<rparr> = (bus d)\<lparr>ib_delay := 0\<rparr>" "n = ib_delay (bus ?d)" by (simp_all add: b)
  moreover have "i2c_pending_loop soc t kStatus_Success d = i2c_pending_loop soc t kStatus_Success ?d"
    using Suc.hyps(2) assms(2) flags_read [OF assms(1), of d]
    by (subst i2c_pending_loop.simps) (simp add: case_prod_beta Let_def)
  ultimately show ?case using Suc.hyps(1) [of ?d] by (simp only:)
qed

lemma pending_wait:
  assumes "i2c_engine soc p bus" "I2C_RETRY_TIMES soc = 0"
  shows "\<exists>d'. I2C_PendingStatusWait soc d = Some (kStatus_Success, d') \<and> bus d' = (bus d)\<lparr>ib_delay := 0\<rparr>"
proof -
  from pending_loop_returns [OF assms, of 0 d] obtain flg d1 where
    "i2c_pending_loop soc 0 kStatus_Success d = Some (kStatus_Success, flg, 0, d1)" "bus d1 = (bus d)\<lparr>ib_delay := 0\<rparr>"
    "flg AND imask soc STAT_MSTARBLOSS = 0" "flg AND imask soc STAT_MSTSTSTPERR = 0" by auto
  then show ?thesis using assms(2) clear_flags_quiet [OF assms(1)]
    by (simp add: I2C_PendingStatusWait_def)
qed


subsection \<open>One interrupt\<close>

text \<open>
  The handler runs when the engine has completed a command. \<open>settle\<close> is the time that passes until
  then. The state of a master for the proofs: wire, state of the engine, handle and RAM.
\<close>

definition settles :: "('d \<Rightarrow> 'd) \<Rightarrow> ('d \<Rightarrow> i2c_bus) \<Rightarrow> bool" where
  "settles settle bus \<longleftrightarrow> (\<forall>d. bus (settle d) = (bus d)\<lparr>ib_delay := 0\<rparr>)"

definition i2c_tick :: "'d i2c_soc \<Rightarrow> ('d \<Rightarrow> 'd) \<Rightarrow> u32 \<Rightarrow> 'd i2c_master \<Rightarrow> 'd i2c_master option" where
  "i2c_tick soc settle handle s = I2C_MasterTransferHandleIRQ soc handle (on_imdev settle s)"

fun i2c_serve :: "'d i2c_soc \<Rightarrow> ('d \<Rightarrow> 'd) \<Rightarrow> u32 \<Rightarrow> nat \<Rightarrow> 'd i2c_master \<Rightarrow> 'd i2c_master option" where
  "i2c_serve soc settle handle 0 s = Some s"
| "i2c_serve soc settle handle (Suc n) s = i2c_tick soc settle handle s \<bind> i2c_serve soc settle handle n"

definition master_at :: "('d \<Rightarrow> i2c_bus) \<Rightarrow> 'd i2c_master \<Rightarrow> wire list \<Rightarrow> u32 \<Rightarrow> i2c_master_handle \<Rightarrow> mem \<Rightarrow> bool" where
  "master_at bus s w c h ram \<longleftrightarrow>
     ib_wire (bus (im_dev s)) = w \<and> ib_code (bus (im_dev s)) = c \<and> im_handle s = h \<and> im_ram s = ram \<and>
     (c = I2C_STAT_MSTCODE_RXREADY \<longrightarrow> last w = W_Recv (ucast (ib_dat (bus (im_dev s)))))"

lemma on_im_simps [simp]:
  "im_dev (on_imdev f s) = f (im_dev s)" "im_handle (on_imdev f s) = im_handle s" "im_ram (on_imdev f s) = im_ram s"
  "im_dev (on_imh g s) = im_dev s" "im_handle (on_imh g s) = g (im_handle s)" "im_ram (on_imh g s) = im_ram s"
  "im_irqs (on_imdev f s) = im_irqs s" "im_irqs (on_imh g s) = im_irqs s"
  by (simp_all add: on_imdev_def on_imh_def)

lemma command_simps [simp]:
  "im_handle (i2c_command soc m s) = im_handle s" "im_ram (i2c_command soc m s) = im_ram s"
  "im_dev (i2c_command soc m s) = reg_write soc I_MSTCTL (imask soc m) (im_dev s)"
  by (simp_all add: i2c_command_def)

lemma same_bus_simps [simp]: "same_bus b b' \<Longrightarrow> ib_wire b' = ib_wire b" "same_bus b b' \<Longrightarrow> ib_code b' = ib_code b"
  "same_bus b b' \<Longrightarrow> ib_dat b' = ib_dat b"
  by (auto simp: same_bus_def)

text \<open>The state machine on a settled engine: refused bytes, or the case of the switch.\<close>

lemma machine_step:
  assumes e: "i2c_engine soc p bus" and t: "settles settle bus"
  obtains d where "bus d = (bus (im_dev s))\<lparr>ib_delay := 0\<rparr>"
    "I2C_RunTransferStateMachine soc (on_imdev settle s) =
       (let c = ib_code (bus (im_dev s)); s = s\<lparr>im_dev := d\<rparr>
        in if c = I2C_STAT_MSTCODE_NACKADR \<or> c = I2C_STAT_MSTCODE_NACKDAT \<and> \<not> i2c_ignore_nak soc (im_handle s) then
             Some (if c = I2C_STAT_MSTCODE_NACKADR \<or> checkAddrNack (im_handle s) then kStatus_I2C_Addr_Nak else kStatus_I2C_Nak,
                   False, on_imh (\<lambda>h. h\<lparr>mstate := kWaitForCompletionState\<rparr>) (i2c_command soc MSTCTL_MSTSTOP s))
           else i2c_switch soc c s)"
proof -
  let ?da = "settle (im_dev s)"
  let ?db = "snd (reg_read soc I_STAT ?da)"
  let ?d = "snd (reg_read soc I_STAT ?db)"
  have b0: "bus ?da = (bus (im_dev s))\<lparr>ib_delay := 0\<rparr>" using t by (simp add: settles_def)
  then have b1: "bus ?db = (bus (im_dev s))\<lparr>ib_delay := 0\<rparr>" by (simp add: engine_stat(2) [OF e])
  then have b: "bus ?d = (bus (im_dev s))\<lparr>ib_delay := 0\<rparr>" by (simp add: engine_stat(2) [OF e])
  have f: "fst (I2C_GetStatusFlags soc ?da) AND imask soc STAT_MSTPENDING \<noteq> 0" using flags_read(1) [OF e, of ?da] b0 by simp
  have err: "i2c_master_errors soc (fst (I2C_GetStatusFlags soc ?da)) ?db = None"
    using f flags_read(2-5) [OF e, of ?da] by (simp add: i2c_master_errors_def)
  have c: "i2c_master_code soc ?db = (ib_code (bus (im_dev s)), ?d)" using master_code_read [OF e, of ?db] b1 by simp
  have s: "(on_imdev settle s)\<lparr>im_dev := x\<rparr> = s\<lparr>im_dev := x\<rparr>" for x by (simp add: on_imdev_def)
  have g: "I2C_GetStatusFlags soc ?da = (fst (I2C_GetStatusFlags soc ?da), ?db)" using flags_read(6) [OF e, of ?da] by (simp add: prod_eq_iff)
  show ?thesis
  proof (rule that [OF b])
    show "I2C_RunTransferStateMachine soc (on_imdev settle s) =
       (let c = ib_code (bus (im_dev s)); s = s\<lparr>im_dev := ?d\<rparr>
        in if c = I2C_STAT_MSTCODE_NACKADR \<or> c = I2C_STAT_MSTCODE_NACKDAT \<and> \<not> i2c_ignore_nak soc (im_handle s) then
             Some (if c = I2C_STAT_MSTCODE_NACKADR \<or> checkAddrNack (im_handle s) then kStatus_I2C_Addr_Nak else kStatus_I2C_Nak,
                   False, on_imh (\<lambda>h. h\<lparr>mstate := kWaitForCompletionState\<rparr>) (i2c_command soc MSTCTL_MSTSTOP s))
           else i2c_switch soc c s)"
      unfolding I2C_RunTransferStateMachine_def on_im_simps
      by (subst g) (simp add: err c s Let_def)
  qed
qed


text \<open>What the last byte or command left: the handler stops the bus when a byte was refused.\<close>

definition refused :: "'d i2c_soc \<Rightarrow> u32 \<Rightarrow> i2c_master_handle \<Rightarrow> bool" where
  "refused soc c h \<longleftrightarrow> c = I2C_STAT_MSTCODE_NACKADR \<or> c = I2C_STAT_MSTCODE_NACKDAT \<and> \<not> i2c_ignore_nak soc h"

definition nak_status :: "u32 \<Rightarrow> i2c_master_handle \<Rightarrow> status" where
  "nak_status c h = (if c = I2C_STAT_MSTCODE_NACKADR \<or> checkAddrNack h then kStatus_I2C_Addr_Nak else kStatus_I2C_Nak)"

lemma nak_status_fails: "nak_status c h \<noteq> kStatus_Success"
  by (simp add: nak_status_def i2c_status_defs)

definition i2c_setup :: "'d i2c_soc \<Rightarrow> i2c_partner \<Rightarrow> ('d \<Rightarrow> i2c_bus) \<Rightarrow> ('d \<Rightarrow> 'd) \<Rightarrow> u32 \<Rightarrow> bool" where
  "i2c_setup soc p bus settle handle \<longleftrightarrow> i2c_engine soc p bus \<and> settles settle bus \<and> handle \<noteq> 0"

lemma setupD: "i2c_setup soc p bus settle handle \<Longrightarrow> i2c_engine soc p bus" "i2c_setup soc p bus settle handle \<Longrightarrow> settles settle bus"
  "i2c_setup soc p bus settle handle \<Longrightarrow> handle \<noteq> 0"
  by (simp_all add: i2c_setup_def)

lemma tick_refused:
  assumes su: "i2c_setup soc p bus settle handle" and a: "master_at bus s w c h ram" "refused soc c h"
  shows "\<exists>s'. i2c_tick soc settle handle s = i2c_callback soc (nak_status c h) s' \<and>
     master_at bus s' (w @ [W_Stop]) I2C_STAT_MSTCODE_IDLE (h\<lparr>mstate := kIdleState\<rparr>) ram"
proof -
  obtain d where d: "bus d = (bus (im_dev s))\<lparr>ib_delay := 0\<rparr>" and m: "I2C_RunTransferStateMachine soc (on_imdev settle s) =
      Some (nak_status c h, False, on_imh (\<lambda>h. h\<lparr>mstate := kWaitForCompletionState\<rparr>) (i2c_command soc MSTCTL_MSTSTOP (s\<lparr>im_dev := d\<rparr>)))"
    by (rule machine_step [OF setupD(1,2) [OF su], of s]) (use a in \<open>auto simp: master_at_def refused_def nak_status_def Let_def\<close>)
  let ?s = "on_imdev (I2C_DisableInterrupts soc (kI2C_MasterIrqFlags soc)) (on_imh (\<lambda>h. h\<lparr>mstate := kIdleState\<rparr>)
      (on_imh (\<lambda>h. h\<lparr>mstate := kWaitForCompletionState\<rparr>) (i2c_command soc MSTCTL_MSTSTOP (s\<lparr>im_dev := d\<rparr>))))"
  have "i2c_tick soc settle handle s = i2c_callback soc (nak_status c h) ?s"
    using setupD(3) [OF su] nak_status_fails by (simp add: i2c_tick_def I2C_MasterTransferHandleIRQ_def m Let_def)
  moreover have "master_at bus ?s (w @ [W_Stop]) I2C_STAT_MSTCODE_IDLE (h\<lparr>mstate := kIdleState\<rparr>) ram"
    using a(1) same_bus_simps [OF engine_quiet(4) [OF setupD(1) [OF su], of d]] d
    by (simp add: master_at_def I2C_DisableInterrupts_def engine_quiet(1) [OF setupD(1) [OF su]] bus_stop_def i2c_code_defs)
  ultimately show ?thesis by blast
qed

lemma tick_switch:
  assumes su: "i2c_setup soc p bus settle handle" and a: "master_at bus s w c h ram" "\<not> refused soc c h"
  obtains d where "bus d = (bus (im_dev s))\<lparr>ib_delay := 0\<rparr>" "master_at bus (s\<lparr>im_dev := d\<rparr>) w c h ram"
    "\<And>s'. i2c_switch soc c (s\<lparr>im_dev := d\<rparr>) = Some (kStatus_Success, False, s') \<Longrightarrow> i2c_tick soc settle handle s = Some s'"
    "\<And>s'. i2c_switch soc c (s\<lparr>im_dev := d\<rparr>) = Some (kStatus_Success, True, s') \<Longrightarrow>
       i2c_tick soc settle handle s = i2c_callback soc kStatus_Success
         (on_imdev (I2C_DisableInterrupts soc (kI2C_MasterIrqFlags soc)) (on_imh (\<lambda>h. h\<lparr>mstate := kIdleState\<rparr>) s'))"
proof -
  obtain d where d: "bus d = (bus (im_dev s))\<lparr>ib_delay := 0\<rparr>" and
    m: "I2C_RunTransferStateMachine soc (on_imdev settle s) = i2c_switch soc c (s\<lparr>im_dev := d\<rparr>)"
    by (rule machine_step [OF setupD(1,2) [OF su], of s]) (use a in \<open>auto simp: master_at_def refused_def Let_def\<close>)
  show ?thesis
    by (rule that [OF d])
       (use a(1) d setupD(3) [OF su] in \<open>simp_all add: master_at_def i2c_tick_def I2C_MasterTransferHandleIRQ_def m Let_def\<close>)
qed


subsection \<open>The steps of the state machine\<close>

lemma addr_byte_word:
  "ucast (push_bit (Suc 0) (ucast (a :: u8)) :: u32) = addr_byte a kI2C_Write"
  "ucast (push_bit (Suc 0) (ucast a) OR 1 :: u32) = addr_byte a kI2C_Read"
  "push_bit (Suc 0) (ucast a) AND 1 = (0 :: u32)" "(push_bit (Suc 0) (ucast a) OR 1) AND 1 = (1 :: u32)"
proof -
  have o: "addr_byte a kI2C_Write = push_bit (Suc 0) a" "addr_byte a kI2C_Read = push_bit (Suc 0) a OR 1"
    unfolding addr_byte_def by (simp_all only: One_nat_def if_True if_False i2c_direction.distinct or.right_neutral simp_thms)
  show "ucast (push_bit (Suc 0) (ucast a) :: u32) = addr_byte a kI2C_Write"
    "ucast (push_bit (Suc 0) (ucast a) OR 1 :: u32) = addr_byte a kI2C_Read"
    unfolding o by (rule bit_word_eqI; auto simp: bit_ucast_iff bit_or_iff bit_push_bit_iff bit_1_iff simp del: push_bit_Suc)+
  show "push_bit (Suc 0) (ucast a) AND 1 = (0 :: u32)" "(push_bit (Suc 0) (ucast a) OR 1) AND 1 = (1 :: u32)"
    by (rule bit_word_eqI; auto simp: bit_ucast_iff bit_or_iff bit_and_iff bit_push_bit_iff bit_1_iff simp del: push_bit_Suc)+
qed

text \<open>After a start: refused, ready to send, or a byte received.\<close>

definition started :: "i2c_partner \<Rightarrow> wire list \<Rightarrow> u8 \<Rightarrow> i2c_direction \<Rightarrow> wire list \<times> u32" where
  "started p w a dir =
     (let w = w @ [W_Start (addr_byte a dir)]
      in if \<not> acks p w then (w, I2C_STAT_MSTCODE_NACKADR)
         else if dir = kI2C_Write then (w, I2C_STAT_MSTCODE_TXREADY)
         else (w @ [W_Recv (answer p w)], I2C_STAT_MSTCODE_RXREADY))"

definition addr_word :: "u8 \<Rightarrow> i2c_direction \<Rightarrow> u32" where
  "addr_word a dir = (if dir = kI2C_Write then push_bit 1 (ucast a) else push_bit 1 (ucast a) OR 1)"

lemma addr_word_facts: "ucast (addr_word a dir) = addr_byte a dir" "addr_word a dir AND 1 = 0 \<longleftrightarrow> dir = kI2C_Write"
  unfolding addr_word_def One_nat_def
  by (cases dir; simp only: if_True if_False i2c_direction.distinct simp_thms addr_byte_word one_neq_zero)+

lemma bus_start_started:
  assumes "ib_dat b = addr_word a dir"
  shows "(ib_wire (bus_start p b), ib_code (bus_start p b)) = started p (ib_wire b) a dir"
    "ib_code (bus_start p b) = I2C_STAT_MSTCODE_RXREADY \<Longrightarrow> last (ib_wire (bus_start p b)) = W_Recv (ucast (ib_dat (bus_start p b)))"
proof -
  have d: "ucast (ib_dat b) = addr_byte a dir" "ib_dat b AND 1 = 0 \<longleftrightarrow> dir = kI2C_Write" by (simp_all only: assms addr_word_facts)
  show "(ib_wire (bus_start p b), ib_code (bus_start p b)) = started p (ib_wire b) a dir"
    unfolding bus_start_def started_def Let_def d by (simp add: bus_receive_def)
  show "ib_code (bus_start p b) = I2C_STAT_MSTCODE_RXREADY \<Longrightarrow> last (ib_wire (bus_start p b)) = W_Recv (ucast (ib_dat (bus_start p b)))"
    unfolding bus_start_def Let_def d by (simp add: bus_receive_def i2c_code_defs split: if_splits)
qed

text \<open>The direction of a start: a subaddress is written first.\<close>

definition start_direction :: "i2c_master_handle \<Rightarrow> i2c_direction" where
  "start_direction h = (if remainingSubaddr h \<noteq> 0 then kI2C_Write else xfer_direction (mtransfer h))"

definition start_next :: "i2c_master_handle \<Rightarrow> i2c_transfer_state" where
  "start_next h =
     (if remainingSubaddr h \<noteq> 0 then kTransmitSubaddrState
      else if remainingBytes h = 0 then kStopState
      else if xfer_direction (mtransfer h) = kI2C_Write then kTransmitDataState else kReceiveDataState)"

lemma tick_start:
  assumes su: "i2c_setup soc p bus settle handle" and a: "master_at bus s w c h ram" "\<not> refused soc c h"
    "mstate h = kStartState" and w: "started p w (slaveAddress (mtransfer h)) (start_direction h) = (w', c')"
  shows "\<exists>s'. i2c_tick soc settle handle s = Some s' \<and> master_at bus s' w' c' (h\<lparr>mstate := start_next h\<rparr>) ram"
proof -
  let ?byte = "addr_word (slaveAddress (mtransfer h)) (start_direction h)"
  let ?s = "\<lambda>d. i2c_command soc MSTCTL_MSTSTART (on_imh (\<lambda>h. h\<lparr>mstate := start_next h\<rparr>) (on_imdev (reg_write soc I_MSTDAT ?byte) (s\<lparr>im_dev := d\<rparr>)))"
  obtain d where d: "bus d = (bus (im_dev s))\<lparr>ib_delay := 0\<rparr>" "master_at bus (s\<lparr>im_dev := d\<rparr>) w c h ram" and
    k: "\<And>s'. i2c_switch soc c (s\<lparr>im_dev := d\<rparr>) = Some (kStatus_Success, False, s') \<Longrightarrow> i2c_tick soc settle handle s = Some s'"
    by (rule tick_switch [OF su a(1,2)]) auto
  have h: "im_handle s = h" using a(1) by (simp add: master_at_def)
  have "i2c_start_state soc (s\<lparr>im_dev := d\<rparr>) = Some (kStatus_Success, False, ?s d)"
    by (cases "xfer_direction (mtransfer h)") (auto simp: i2c_start_state_def h Let_def start_direction_def start_next_def addr_word_def on_imh_def on_imdev_def)
  then have "i2c_tick soc settle handle s = Some (?s d)" using a(3) h by (intro k) (simp add: i2c_switch_def)
  moreover have "master_at bus (?s d) w' c' (h\<lparr>mstate := start_next h\<rparr>) ram"
  proof -
    let ?d = "reg_write soc I_MSTDAT ?byte d"
    have b: "ib_dat (bus ?d) = ?byte" "ib_wire (bus ?d) = w"
      using engine_quiet(2) [OF setupD(1) [OF su], of ?byte d] d(1) a(1) by (simp_all add: master_at_def)
    note r = bus_start_started [OF b(1), of p] and q = same_bus_simps [OF engine_quiet(3) [OF setupD(1) [OF su], of ?d]]
    show ?thesis using r q a(1) unfolding b(2) w by (simp add: master_at_def h)
  qed
  ultimately show ?thesis by blast
qed

lemma tick_done:
  assumes su: "i2c_setup soc p bus settle handle" and a: "master_at bus s w c h ram" "\<not> refused soc c h"
    "mstate h = kWaitForCompletionState"
  shows "\<exists>s'. i2c_tick soc settle handle s = i2c_callback soc kStatus_Success s' \<and> master_at bus s' w c (h\<lparr>mstate := kIdleState\<rparr>) ram"
proof -
  obtain d where d: "bus d = (bus (im_dev s))\<lparr>ib_delay := 0\<rparr>" "master_at bus (s\<lparr>im_dev := d\<rparr>) w c h ram" and
    k: "\<And>s'. i2c_switch soc c (s\<lparr>im_dev := d\<rparr>) = Some (kStatus_Success, True, s') \<Longrightarrow>
       i2c_tick soc settle handle s = i2c_callback soc kStatus_Success
         (on_imdev (I2C_DisableInterrupts soc (kI2C_MasterIrqFlags soc)) (on_imh (\<lambda>h. h\<lparr>mstate := kIdleState\<rparr>) s'))"
    by (rule tick_switch [OF su a(1,2)]) auto
  have "i2c_switch soc c (s\<lparr>im_dev := d\<rparr>) = Some (kStatus_Success, True, on_imh (\<lambda>h. h\<lparr>mstate := kIdleState\<rparr>) (s\<lparr>im_dev := d\<rparr>))"
    using a(1,3) by (simp add: i2c_switch_def master_at_def)
  from k [OF this] show ?thesis using d(2)
    by (intro exI conjI) (assumption, simp add: master_at_def I2C_DisableInterrupts_def engine_quiet(1) [OF setupD(1) [OF su]])
qed

end
