(* ===== verification/I2c_Transfer.thy ===== *)
theory I2c_Transfer
  imports I2c_Wire
begin

text \<open>
  The non-blocking master transfer of \<open>fsl_i2c.c\<close>: from the call to the completion callback, the
  interrupts put the transfer on the wire that \<open>wire_transfer\<close> prescribes.
\<close>

unbundle bit_operations_syntax

subsection \<open>Bytes on the wire\<close>

definition sent :: "i2c_partner \<Rightarrow> wire list \<Rightarrow> u8 \<Rightarrow> wire list \<times> u32" where
  "sent p w b = (w @ [W_Send b], if acks p (w @ [W_Send b]) then I2C_STAT_MSTCODE_TXREADY else I2C_STAT_MSTCODE_NACKDAT)"

lemma continue_sends:
  fixes b :: u8 and d :: 'd
  assumes e: "i2c_engine soc p bus" and c: "ib_code (bus d) = I2C_STAT_MSTCODE_TXREADY"
  defines "d' \<equiv> reg_write soc I_MSTCTL (imask soc MSTCTL_MSTCONTINUE) (reg_write soc I_MSTDAT (ucast b) d)"
  shows "(ib_wire (bus d'), ib_code (bus d')) = sent p (ib_wire (bus d)) b" "ib_code (bus d') \<noteq> I2C_STAT_MSTCODE_RXREADY"
proof -
  let ?d = "reg_write soc I_MSTDAT (ucast b) d"
  have b: "bus ?d = (bus d)\<lparr>ib_dat := ucast b\<rparr>" by (rule engine_quiet(2) [OF e])
  then have "same_bus (bus_continue p (bus ?d)) (bus d')" unfolding d'_def using c by (intro engine_quiet(5) [OF e]) simp
  from same_bus_simps [OF this] show "(ib_wire (bus d'), ib_code (bus d')) = sent p (ib_wire (bus d)) b"
    "ib_code (bus d') \<noteq> I2C_STAT_MSTCODE_RXREADY"
    using b c by (simp_all add: bus_continue_def sent_def Let_def i2c_code_defs)
qed

lemma continue_receives:
  fixes d :: 'd
  assumes e: "i2c_engine soc p bus" and c: "ib_code (bus d) = I2C_STAT_MSTCODE_RXREADY"
  defines "d' \<equiv> reg_write soc I_MSTCTL (imask soc MSTCTL_MSTCONTINUE) d"
  shows "ib_wire (bus d') = ib_wire (bus d) @ [W_Recv (answer p (ib_wire (bus d)))]" "ib_code (bus d') = I2C_STAT_MSTCODE_RXREADY"
    "ucast (ib_dat (bus d')) = answer p (ib_wire (bus d))"
proof -
  have "same_bus (bus_continue p (bus d)) (bus d')" unfolding d'_def using c by (intro engine_quiet(5) [OF e]) simp
  from same_bus_simps [OF this] show "ib_wire (bus d') = ib_wire (bus d) @ [W_Recv (answer p (ib_wire (bus d)))]"
    "ib_code (bus d') = I2C_STAT_MSTCODE_RXREADY" "ucast (ib_dat (bus d')) = answer p (ib_wire (bus d))"
    using c by (simp_all add: bus_continue_def bus_receive_def)
qed

lemma stop_stops:
  fixes d :: 'd
  assumes e: "i2c_engine soc p bus"
  defines "d' \<equiv> reg_write soc I_MSTCTL (imask soc MSTCTL_MSTSTOP) d"
  shows "ib_wire (bus d') = ib_wire (bus d) @ [W_Stop]" "ib_code (bus d') = I2C_STAT_MSTCODE_IDLE"
  using same_bus_simps [OF engine_quiet(4) [OF e, of d]] by (simp_all add: d'_def bus_stop_def)

subsection \<open>The other steps of the state machine\<close>

definition sub_handle :: "i2c_master_handle \<Rightarrow> i2c_master_handle" where
  "sub_handle h =
     h\<lparr>remainingSubaddr := remainingSubaddr h - 1,
       mstate := (if remainingSubaddr h - 1 \<noteq> 0 then kTransmitSubaddrState
                  else if remainingBytes h = 0 then kStopState
                  else if xfer_direction (mtransfer h) = kI2C_Read then kStartState else kTransmitDataState)\<rparr>"

definition data_handle :: "i2c_master_handle \<Rightarrow> i2c_master_handle" where
  "data_handle h =
     h\<lparr>checkAddrNack := False, mbuf := mbuf h + 1, remainingBytes := remainingBytes h - 1,
       mstate := (if remainingBytes h - 1 = 0 then kStopState else kTransmitDataState), transferCount := transferCount h + 1\<rparr>"

definition recv_handle :: "i2c_master_handle \<Rightarrow> i2c_master_handle" where
  "recv_handle h =
     h\<lparr>checkAddrNack := False, mbuf := mbuf h + 1, remainingBytes := remainingBytes h - 1,
       mstate := (if remainingBytes h - 1 = 0 then kWaitForCompletionState else kReceiveDataState),
       transferCount := transferCount h + 1\<rparr>"

lemma ready_not_refused: "\<not> refused soc I2C_STAT_MSTCODE_TXREADY h" "\<not> refused soc I2C_STAT_MSTCODE_RXREADY h"
  "\<not> refused soc I2C_STAT_MSTCODE_IDLE h"
  by (simp_all add: refused_def i2c_code_defs)

lemma tick_sub:
  assumes su: "i2c_setup soc p bus settle handle" and a: "master_at bus s w I2C_STAT_MSTCODE_TXREADY h ram"
    "mstate h = kTransmitSubaddrState" and i: "unat (subaddressSize (mtransfer h) - remainingSubaddr h) < length (subaddrBuf h)"
    and w: "sent p w (subaddrBuf h ! unat (subaddressSize (mtransfer h) - remainingSubaddr h)) = (w', c')"
  shows "\<exists>s'. i2c_tick soc settle handle s = Some s' \<and> master_at bus s' w' c' (sub_handle h) ram"
proof -
  let ?c = I2C_STAT_MSTCODE_TXREADY
  let ?b = "subaddrBuf h ! unat (subaddressSize (mtransfer h) - remainingSubaddr h)"
  let ?s = "\<lambda>d. on_imh (\<lambda>_. sub_handle h) (i2c_command soc MSTCTL_MSTCONTINUE (on_imdev (reg_write soc I_MSTDAT (ucast ?b)) (s\<lparr>im_dev := d\<rparr>)))"
  obtain d where d: "bus d = (bus (im_dev s))\<lparr>ib_delay := 0\<rparr>" "master_at bus (s\<lparr>im_dev := d\<rparr>) w ?c h ram" and
    k: "\<And>s'. i2c_switch soc ?c (s\<lparr>im_dev := d\<rparr>) = Some (kStatus_Success, False, s') \<Longrightarrow> i2c_tick soc settle handle s = Some s'"
    by (rule tick_switch [OF su a(1) ready_not_refused(1)]) auto
  have h: "im_handle s = h" using a(1) by (simp add: master_at_def)
  have "i2c_subaddr_state soc ?c (s\<lparr>im_dev := d\<rparr>) = Some (kStatus_Success, False, ?s d)"
    using i a(2) by (simp add: i2c_subaddr_state_def h Let_def sub_handle_def on_imh_def on_imdev_def i2c_command_def)
  then have "i2c_tick soc settle handle s = Some (?s d)" using a(2) h by (intro k) (simp add: i2c_switch_def)
  moreover have "master_at bus (?s d) w' c' (sub_handle h) ram"
    using continue_sends [OF setupD(1) [OF su], of d ?b] d(2) w by (simp add: master_at_def)
  ultimately show ?thesis by blast
qed

lemma tick_data:
  assumes su: "i2c_setup soc p bus settle handle" and a: "master_at bus s w I2C_STAT_MSTCODE_TXREADY h ram"
    "mstate h = kTransmitDataState" "mbuf h \<noteq> 0" and w: "sent p w (ram (mbuf h)) = (w', c')"
  shows "\<exists>s'. i2c_tick soc settle handle s = Some s' \<and> master_at bus s' w' c' (data_handle h) ram"
proof -
  let ?c = I2C_STAT_MSTCODE_TXREADY
  let ?s = "\<lambda>d. on_imh (\<lambda>_. data_handle h) (i2c_command soc MSTCTL_MSTCONTINUE (on_imdev (reg_write soc I_MSTDAT (ucast (ram (mbuf h)))) (s\<lparr>im_dev := d\<rparr>)))"
  obtain d where d: "bus d = (bus (im_dev s))\<lparr>ib_delay := 0\<rparr>" "master_at bus (s\<lparr>im_dev := d\<rparr>) w ?c h ram" and
    k: "\<And>s'. i2c_switch soc ?c (s\<lparr>im_dev := d\<rparr>) = Some (kStatus_Success, False, s') \<Longrightarrow> i2c_tick soc settle handle s = Some s'"
    by (rule tick_switch [OF su a(1) ready_not_refused(1)]) auto
  have h: "im_handle s = h" "im_ram s = ram" using a(1) by (simp_all add: master_at_def)
  have "i2c_transmit_state soc ?c (s\<lparr>im_dev := d\<rparr>) = Some (kStatus_Success, False, ?s d)"
    using a(2,3) by (simp add: i2c_transmit_state_def h Let_def data_handle_def on_imh_def on_imdev_def i2c_command_def)
  then have "i2c_tick soc settle handle s = Some (?s d)" using a(2) h by (intro k) (simp add: i2c_switch_def)
  moreover have "master_at bus (?s d) w' c' (data_handle h) ram"
    using continue_sends [OF setupD(1) [OF su], of d "ram (mbuf h)"] d(2) w by (simp add: master_at_def)
  ultimately show ?thesis by blast
qed

lemma tick_recv:
  assumes su: "i2c_setup soc p bus settle handle" and a: "master_at bus s w I2C_STAT_MSTCODE_RXREADY h ram" "last w = W_Recv b"
    "mstate h = kReceiveDataState" "mbuf h \<noteq> 0" "xfer_flags (mtransfer h) AND kI2C_TransferNoStopFlag = 0"
  shows "\<exists>s'. i2c_tick soc settle handle s = Some s' \<and>
    (if remainingBytes h - 1 = 0 then master_at bus s' (w @ [W_Stop]) I2C_STAT_MSTCODE_IDLE (recv_handle h) (ram(mbuf h := b))
     else master_at bus s' (w @ [W_Recv (answer p w)]) I2C_STAT_MSTCODE_RXREADY (recv_handle h) (ram(mbuf h := b)))"
proof -
  let ?c = I2C_STAT_MSTCODE_RXREADY
  note e = setupD(1) [OF su]
  obtain d where d: "bus d = (bus (im_dev s))\<lparr>ib_delay := 0\<rparr>" "master_at bus (s\<lparr>im_dev := d\<rparr>) w ?c h ram" and
    k: "\<And>s'. i2c_switch soc ?c (s\<lparr>im_dev := d\<rparr>) = Some (kStatus_Success, False, s') \<Longrightarrow> i2c_tick soc settle handle s = Some s'"
    by (rule tick_switch [OF su a(1) ready_not_refused(2)]) auto
  have h: "im_handle s = h" "im_ram s = ram" using a(1) by (simp_all add: master_at_def)
  obtain v d1 where r: "reg_read soc I_MSTDAT d = (v, d1)" by (cases "reg_read soc I_MSTDAT d") auto
  have c: "ib_code (bus d) = ?c" "ib_wire (bus d) = w" "b = ucast (ib_dat (bus d))" using d(2) a(2) by (simp_all add: master_at_def)
  have v: "ucast v = b" "bus d1 = bus d"
    using engine_read_data [OF e c(1)] r c(3) ucast_low_byte [of v "ib_dat (bus d)"] by simp_all
  let ?m = "if remainingBytes h - 1 = 0 then MSTCTL_MSTSTOP else MSTCTL_MSTCONTINUE"
  let ?s = "on_imh (\<lambda>_. recv_handle h) (i2c_command soc ?m (s\<lparr>im_dev := d1, im_ram := ram(mbuf h := b)\<rparr>))"
  have "i2c_receive_state soc ?c (s\<lparr>im_dev := d\<rparr>) = Some (kStatus_Success, False, ?s)"
    using a(3-5) v(1) h r
    by (cases s; cases "remainingBytes h = 1")
       (simp_all add: i2c_receive_state_def Let_def recv_handle_def on_imh_def on_imdev_def i2c_command_def)
  then have t: "i2c_tick soc settle handle s = Some ?s" using a(3) h by (intro k) (simp add: i2c_switch_def)
  show ?thesis
  proof (cases "remainingBytes h - 1 = 0")
    case True
    then have "master_at bus ?s (w @ [W_Stop]) I2C_STAT_MSTCODE_IDLE (recv_handle h) (ram(mbuf h := b))"
      using stop_stops [OF e, of d1] v(2) c by (simp add: master_at_def i2c_code_defs)
    with t True show ?thesis by auto
  next
    case False
    then have "master_at bus ?s (w @ [W_Recv (answer p w)]) ?c (recv_handle h) (ram(mbuf h := b))"
      using continue_receives [OF e, of d1] v(2) c by (simp add: master_at_def)
    with t False show ?thesis by auto
  qed
qed

lemma tick_stop:
  assumes su: "i2c_setup soc p bus settle handle" and a: "master_at bus s w c h ram" "\<not> refused soc c h"
    "mstate h = kStopState" "xfer_flags (mtransfer h) AND kI2C_TransferNoStopFlag = 0"
  shows "\<exists>s'. i2c_tick soc settle handle s = Some s' \<and>
    master_at bus s' (w @ [W_Stop]) I2C_STAT_MSTCODE_IDLE (h\<lparr>checkAddrNack := False, mstate := kWaitForCompletionState\<rparr>) ram"
proof -
  let ?h = "h\<lparr>checkAddrNack := False, mstate := kWaitForCompletionState\<rparr>"
  let ?s = "\<lambda>d. on_imh (\<lambda>_. ?h) (i2c_command soc MSTCTL_MSTSTOP (s\<lparr>im_dev := d\<rparr>))"
  obtain d where d: "bus d = (bus (im_dev s))\<lparr>ib_delay := 0\<rparr>" "master_at bus (s\<lparr>im_dev := d\<rparr>) w c h ram" and
    k: "\<And>s'. i2c_switch soc c (s\<lparr>im_dev := d\<rparr>) = Some (kStatus_Success, False, s') \<Longrightarrow> i2c_tick soc settle handle s = Some s'"
    by (rule tick_switch [OF su a(1,2)]) auto
  have h: "im_handle s = h" using a(1) by (simp add: master_at_def)
  have "i2c_stop_state soc (s\<lparr>im_dev := d\<rparr>) = Some (kStatus_Success, False, ?s d)"
    using a(4) by (simp add: i2c_stop_state_def h Let_def on_imh_def on_imdev_def i2c_command_def)
  then have "i2c_tick soc settle handle s = Some (?s d)" using a(3) h by (intro k) (simp add: i2c_switch_def)
  moreover have "master_at bus (?s d) (w @ [W_Stop]) I2C_STAT_MSTCODE_IDLE ?h ram"
    using stop_stops [OF setupD(1) [OF su], of d] d(2) by (simp add: master_at_def i2c_code_defs)
  ultimately show ?thesis by blast
qed

subsection \<open>From a state of the machine to the callback\<close>

text \<open>The interrupts end in the callback with a status, the wire and the RAM as given.\<close>

definition finishes ::
    "'d i2c_soc \<Rightarrow> ('d \<Rightarrow> i2c_bus) \<Rightarrow> ('d \<Rightarrow> 'd) \<Rightarrow> u32 \<Rightarrow> 'd i2c_master \<Rightarrow> status \<Rightarrow> wire list \<Rightarrow> mem \<Rightarrow> bool" where
  "finishes soc bus settle handle s st w ram \<longleftrightarrow>
     (\<exists>n s'. i2c_serve soc settle handle n s = i2c_callback soc st s' \<and> ib_wire (bus (im_dev s')) = w \<and>
        ib_code (bus (im_dev s')) = I2C_STAT_MSTCODE_IDLE \<and> im_ram s' = ram \<and> mstate (im_handle s') = kIdleState \<and>
        completionCallback (im_handle s') = completionCallback (im_handle s) \<and> m_userData (im_handle s') = m_userData (im_handle s))"

lemma finishes_now:
  assumes "i2c_tick soc settle handle s = i2c_callback soc st s'" "master_at bus s' w I2C_STAT_MSTCODE_IDLE h' ram"
    "mstate h' = kIdleState" "completionCallback h' = completionCallback (im_handle s)" "m_userData h' = m_userData (im_handle s)"
  shows "finishes soc bus settle handle s st w ram"
proof -
  have "i2c_serve soc settle handle (Suc 0) s = i2c_tick soc settle handle s" by (cases "i2c_tick soc settle handle s") auto
  with assms show ?thesis unfolding finishes_def master_at_def by metis
qed

lemma finishes_step:
  assumes "i2c_tick soc settle handle s = Some s'" "finishes soc bus settle handle s' st w ram"
    "completionCallback (im_handle s') = completionCallback (im_handle s)" "m_userData (im_handle s') = m_userData (im_handle s)"
  shows "finishes soc bus settle handle s st w ram"
proof -
  from assms(2) obtain n t where t: "i2c_serve soc settle handle n s' = i2c_callback soc st t" "ib_wire (bus (im_dev t)) = w"
    "ib_code (bus (im_dev t)) = I2C_STAT_MSTCODE_IDLE" "im_ram t = ram" "mstate (im_handle t) = kIdleState"
    "completionCallback (im_handle t) = completionCallback (im_handle s')" "m_userData (im_handle t) = m_userData (im_handle s')"
    unfolding finishes_def by blast
  have "i2c_serve soc settle handle (Suc n) s = i2c_callback soc st t" using assms(1) t(1) by simp
  with t assms(3,4) show ?thesis unfolding finishes_def by metis
qed

lemma finishes_refused:
  assumes "i2c_setup soc p bus settle handle" "master_at bus s w c h ram" "refused soc c h"
  shows "finishes soc bus settle handle s (nak_status c h) (w @ [W_Stop]) ram"
proof -
  from tick_refused [OF assms] obtain s' where "i2c_tick soc settle handle s = i2c_callback soc (nak_status c h) s'"
    "master_at bus s' (w @ [W_Stop]) I2C_STAT_MSTCODE_IDLE (h\<lparr>mstate := kIdleState\<rparr>) ram" by blast
  then show ?thesis by (rule finishes_now) (use assms(2) in \<open>simp_all add: master_at_def\<close>)
qed

lemma finishes_wait:
  assumes "i2c_setup soc p bus settle handle" "master_at bus s w I2C_STAT_MSTCODE_IDLE h ram" "mstate h = kWaitForCompletionState"
  shows "finishes soc bus settle handle s kStatus_Success w ram"
proof -
  from tick_done [OF assms(1,2) ready_not_refused(3) assms(3)] obtain s' where
    "i2c_tick soc settle handle s = i2c_callback soc kStatus_Success s'"
    "master_at bus s' w I2C_STAT_MSTCODE_IDLE (h\<lparr>mstate := kIdleState\<rparr>) ram" by blast
  then show ?thesis by (rule finishes_now) (use assms(2) in \<open>simp_all add: master_at_def\<close>)
qed

lemma finishes_stop:
  assumes su: "i2c_setup soc p bus settle handle" and a: "master_at bus s w c h ram" "\<not> refused soc c h"
    "mstate h = kStopState" "xfer_flags (mtransfer h) AND kI2C_TransferNoStopFlag = 0"
  shows "finishes soc bus settle handle s kStatus_Success (w @ [W_Stop]) ram"
proof -
  let ?h = "h\<lparr>checkAddrNack := False, mstate := kWaitForCompletionState\<rparr>"
  from tick_stop [OF assms] obtain s' where t: "i2c_tick soc settle handle s = Some s'"
    and m: "master_at bus s' (w @ [W_Stop]) I2C_STAT_MSTCODE_IDLE ?h ram" by blast
  show ?thesis by (rule finishes_step [OF t finishes_wait [OF su m]]) (use a(1) m in \<open>simp_all add: master_at_def\<close>)
qed

text \<open>A buffer that does not start at the null pointer and does not wrap around.\<close>

definition span :: "u32 \<Rightarrow> nat \<Rightarrow> bool" where
  "span a n \<longleftrightarrow> n = 0 \<or> a \<noteq> 0 \<and> unat a + n \<le> 2 ^ 32"

lemma span_Suc: "span a (Suc n) \<Longrightarrow> a \<noteq> 0 \<and> span (a + 1) n"
proof -
  assume s: "span a (Suc n)"
  have u: "unat (a + 1) = Suc (unat a)" if "n \<noteq> 0"
  proof -
    have "unat a + unat (1 :: u32) < 2 ^ 32" using s that by (simp add: span_def)
    then show ?thesis using unat_plus_small [of a 1] by simp
  qed
  then have "a + 1 \<noteq> 0" if "n \<noteq> 0" using that by (metis nat.distinct(1) unat_0)
  with s u show ?thesis by (simp add: span_def) linarith
qed

lemma unat_minus_1: "(x :: u32) \<noteq> 0 \<Longrightarrow> unat x = Suc (unat (x - 1))"
  by (simp add: unat_minus_one unat_gt_0)

text \<open>One interrupt that does not end the transfer, and what is left to show after it.\<close>

lemma finishes_back:
  assumes "i2c_tick soc settle handle s = Some s'" "master_at bus s w c h ram" "master_at bus s' w' c' h' ram'"
    "completionCallback h' = completionCallback h" "m_userData h' = m_userData h"
  shows "finishes soc bus settle handle s' st v r \<Longrightarrow> finishes soc bus settle handle s st v r"
  by (rule finishes_step [OF assms(1)]) (use assms(2-5) in \<open>simp_all add: master_at_def\<close>)

lemma data_step:
  assumes su: "i2c_setup soc p bus settle handle" and a: "master_at bus s w I2C_STAT_MSTCODE_TXREADY h ram"
    "mstate h = kTransmitDataState" "mbuf h \<noteq> 0" and w: "sent p w (ram (mbuf h)) = (w', c')"
  obtains s' where "master_at bus s' w' c' (data_handle h) ram"
    "\<And>st v r. finishes soc bus settle handle s' st v r \<Longrightarrow> finishes soc bus settle handle s st v r"
proof -
  from tick_data [OF assms] obtain s' where t: "i2c_tick soc settle handle s = Some s'" and m: "master_at bus s' w' c' (data_handle h) ram"
    by blast
  show ?thesis by (rule that [OF m finishes_back [OF t a(1) m]]) (simp_all add: data_handle_def)
qed

lemma sent_code: "sent p w b = (w', c') \<Longrightarrow> c' = (if acks p w' then I2C_STAT_MSTCODE_TXREADY else I2C_STAT_MSTCODE_NACKDAT) \<and> w' = w @ [W_Send b]"
  by (auto simp: sent_def)

lemma data_handle_keeps [simp]:
  "mtransfer (data_handle h) = mtransfer h" "checkAddrNack (data_handle h) = False" "mbuf (data_handle h) = mbuf h + 1"
  "remainingBytes (data_handle h) = remainingBytes h - 1"
  by (simp_all add: data_handle_def)

lemma data_nak:
  assumes "mstate h \<noteq> kWaitForCompletionState" "\<not> (IGNORE_LAST_NACK soc \<and> mstate h = kStopState)" "\<not> checkAddrNack h"
  shows "refused soc I2C_STAT_MSTCODE_NACKDAT h" "nak_status I2C_STAT_MSTCODE_NACKDAT h = kStatus_I2C_Nak"
  using assms by (auto simp: refused_def i2c_ignore_nak_def nak_status_def i2c_code_defs)

lemma finishes_last_byte:
  assumes su: "i2c_setup soc p bus settle handle" and a: "master_at bus s w I2C_STAT_MSTCODE_TXREADY h ram"
    "mstate h = kTransmitDataState" "unat (remainingBytes h) = Suc 0" "mbuf h \<noteq> 0" "xfer_flags (mtransfer h) AND kI2C_TransferNoStopFlag = 0"
  defines "w' \<equiv> w @ [W_Send (ram (mbuf h))]"
  shows "finishes soc bus settle handle s (if acks p w' \<or> IGNORE_LAST_NACK soc then kStatus_Success else kStatus_I2C_Nak) (w' @ [W_Stop]) ram"
proof -
  let ?h = "data_handle h"
  obtain c' where c: "sent p w (ram (mbuf h)) = (w', c')" "c' = (if acks p w' then I2C_STAT_MSTCODE_TXREADY else I2C_STAT_MSTCODE_NACKDAT)"
    by (simp add: sent_def w'_def)
  obtain s' where m: "master_at bus s' w' c' ?h ram"
    and k: "\<And>st v r. finishes soc bus settle handle s' st v r \<Longrightarrow> finishes soc bus settle handle s st v r"
    using data_step [OF su a(1,2,4) c(1)] by blast
  have h: "mstate ?h = kStopState" "remainingBytes ?h = 0"
    using a(3) by (simp_all add: data_handle_def word_unat_eq_iff unat_minus_one)
  show ?thesis
  proof (cases "acks p w' \<or> IGNORE_LAST_NACK soc")
    case True
    then have "\<not> refused soc c' ?h" using c(2) h by (auto simp: refused_def i2c_ignore_nak_def i2c_code_defs)
    with k [OF finishes_stop [OF su m _ h(1)]] a(5) True show ?thesis by simp
  next
    case False
    with k [OF finishes_refused [OF su m]] data_nak [of ?h soc] c(2) h show ?thesis by simp
  qed
qed

lemma finishes_data:
  assumes su: "i2c_setup soc p bus settle handle"
  shows "master_at bus s w I2C_STAT_MSTCODE_TXREADY h ram \<Longrightarrow> mstate h = kTransmitDataState \<Longrightarrow> unat (remainingBytes h) = Suc n \<Longrightarrow>
    span (mbuf h) (Suc n) \<Longrightarrow> xfer_flags (mtransfer h) AND kI2C_TransferNoStopFlag = 0 \<Longrightarrow>
    wire_send p w (mem_bytes ram (mbuf h) (Suc n)) = (ok, w3) \<Longrightarrow>
    finishes soc bus settle handle s
      (if ok \<or> IGNORE_LAST_NACK soc \<and> length w3 = length w + Suc n then kStatus_Success else kStatus_I2C_Nak) (w3 @ [W_Stop]) ram"
proof (induction n arbitrary: s w h)
  case (0 s w h)
  let ?w = "w @ [W_Send (ram (mbuf h))]"
  have "ok = acks p ?w \<and> w3 = ?w" using 0(6) by (auto simp: mem_bytes_Cons Let_def split: if_splits)
  with finishes_last_byte [OF su 0(1-3)] 0(4,5) show ?case by (simp add: span_def)
next
  case (Suc n s w h)
  let ?h = "data_handle h" and ?w = "w @ [W_Send (ram (mbuf h))]"
  obtain c' where s: "sent p w (ram (mbuf h)) = (?w, c')" "c' = (if acks p ?w then I2C_STAT_MSTCODE_TXREADY else I2C_STAT_MSTCODE_NACKDAT)"
    by (simp add: sent_def)
  have "mbuf h \<noteq> 0" using Suc.prems(4) by (simp add: span_def)
  then obtain s' where m: "master_at bus s' ?w c' ?h ram"
    and k: "\<And>st v r. finishes soc bus settle handle s' st v r \<Longrightarrow> finishes soc bus settle handle s st v r"
    using data_step [OF su Suc.prems(1,2) _ s(1)] by blast
  have r: "unat (remainingBytes h - 1) = Suc n"
    using Suc.prems(3) unat_minus_1 [of "remainingBytes h"] by (cases "remainingBytes h = 0") simp_all
  then have "remainingBytes h - 1 \<noteq> 0" by (metis nat.distinct(1) unat_0)
  then have h: "mstate ?h = kTransmitDataState" "unat (remainingBytes ?h) = Suc n" "span (mbuf ?h) (Suc n)"
    using Suc.prems(4) r span_Suc [of "mbuf h" "Suc n"] by (simp_all add: data_handle_def)
  have w: "wire_send p w (mem_bytes ram (mbuf h) (Suc (Suc n))) =
      (if acks p ?w then wire_send p ?w (mem_bytes ram (mbuf ?h) (Suc n)) else (False, ?w))"
    by (simp add: mem_bytes_Cons [of _ _ "Suc n"] Let_def)
  show ?case
  proof (cases "acks p ?w")
    case True
    with k [OF Suc.IH [of s' ?w ?h]] m h s(2) w Suc.prems(5,6) show ?thesis by simp
  next
    case False
    with k [OF finishes_refused [OF su m]] data_nak [of ?h soc] h(1) s(2) w Suc.prems(6) show ?thesis by simp
  qed
qed

lemma finishes_recv:
  assumes su: "i2c_setup soc p bus settle handle"
  shows "master_at bus s (w @ [W_Recv (answer p w)]) I2C_STAT_MSTCODE_RXREADY h ram \<Longrightarrow> mstate h = kReceiveDataState \<Longrightarrow>
    unat (remainingBytes h) = Suc n \<Longrightarrow> span (mbuf h) (Suc n) \<Longrightarrow> xfer_flags (mtransfer h) AND kI2C_TransferNoStopFlag = 0 \<Longrightarrow>
    wire_recv p w (Suc n) = (bs, w4) \<Longrightarrow>
    finishes soc bus settle handle s kStatus_Success (w4 @ [W_Stop]) (mem_write ram (mbuf h) bs)"
proof (induction n arbitrary: s w h ram bs)
  case 0
  let ?w = "w @ [W_Recv (answer p w)]" and ?h = "recv_handle h" and ?ram = "ram(mbuf h := answer p w)"
  have r: "remainingBytes h - 1 = 0" using 0(3) by (simp add: word_unat_eq_iff unat_minus_one)
  from tick_recv [OF su 0(1) _ 0(2) _ 0(5), of "answer p w"] 0(4) r obtain s' where t: "i2c_tick soc settle handle s = Some s'"
    and m: "master_at bus s' (?w @ [W_Stop]) I2C_STAT_MSTCODE_IDLE ?h ?ram" by (auto simp: span_def)
  have h: "mstate ?h = kWaitForCompletionState" using r by (simp add: recv_handle_def)
  have keep: "completionCallback (im_handle s') = completionCallback (im_handle s)" "m_userData (im_handle s') = m_userData (im_handle s)"
    using m 0(1) by (simp_all add: master_at_def recv_handle_def)
  have "bs = [answer p w]" "w4 = ?w" using 0(6) by (simp_all add: Let_def)
  with finishes_step [OF t finishes_wait [OF su m h] keep] show ?case by (simp add: fun_upd_def)
next
  case (Suc n)
  let ?w = "w @ [W_Recv (answer p w)]" and ?h = "recv_handle h" and ?ram = "ram(mbuf h := answer p w)"
  have u: "unat (remainingBytes h - 1) = Suc n"
    using Suc.prems(3) unat_minus_1 [of "remainingBytes h"] by (cases "remainingBytes h = 0") simp_all
  then have r: "remainingBytes h - 1 \<noteq> 0" by (metis nat.distinct(1) unat_0)
  from tick_recv [OF su Suc.prems(1) _ Suc.prems(2) _ Suc.prems(5), of "answer p w"] Suc.prems(4) r obtain s' where
    t: "i2c_tick soc settle handle s = Some s'"
    and m: "master_at bus s' (?w @ [W_Recv (answer p ?w)]) I2C_STAT_MSTCODE_RXREADY ?h ?ram" by (auto simp: span_def)
  have h: "mstate ?h = kReceiveDataState" "unat (remainingBytes ?h) = Suc n" "span (mbuf ?h) (Suc n)"
    "xfer_flags (mtransfer ?h) AND kI2C_TransferNoStopFlag = 0" "mbuf ?h = mbuf h + 1"
    using Suc.prems(4,5) u r by (simp_all add: recv_handle_def span_Suc)
  have keep: "completionCallback (im_handle s') = completionCallback (im_handle s)" "m_userData (im_handle s') = m_userData (im_handle s)"
    using m Suc.prems(1) by (simp_all add: master_at_def recv_handle_def)
  obtain cs where r: "wire_recv p ?w (Suc n) = (cs, w4)" and b: "bs = answer p w # cs"
    using Suc.prems(6) by (simp only: wire_recv.simps(2) [of p w "Suc n"]) (auto simp: Let_def split: prod.splits)
  from finishes_step [OF t Suc.IH [OF m h(1-4) r] keep] show ?case by (simp add: b h(5) fun_upd_def)
qed

subsection \<open>The whole transfer\<close>

definition finishes_as ::
    "'d i2c_soc \<Rightarrow> ('d \<Rightarrow> i2c_bus) \<Rightarrow> ('d \<Rightarrow> 'd) \<Rightarrow> u32 \<Rightarrow> 'd i2c_master \<Rightarrow> mem \<Rightarrow> u32 \<Rightarrow> status \<times> wire list \<times> u8 list \<Rightarrow> bool" where
  "finishes_as soc bus settle handle s ram buf r \<longleftrightarrow>
     finishes soc bus settle handle s (fst r) (fst (snd r)) (mem_write ram buf (snd (snd r)))"

definition ready_handle :: "i2c_master_transfer \<Rightarrow> i2c_master_handle \<Rightarrow> bool" where
  "ready_handle x h \<longleftrightarrow>
     mtransfer h = x \<and> remainingBytes h = xfer_dataSize x \<and> mbuf h = xfer_data x \<and> checkAddrNack h \<and>
     xfer_dataSize x \<noteq> 0 \<and> span (xfer_data x) (unat (xfer_dataSize x)) \<and> xfer_flags x AND kI2C_TransferNoStopFlag = 0"

lemma ready_handle_update [simp]:
  "ready_handle x (h\<lparr>mstate := st\<rparr>) = ready_handle x h" "ready_handle x (h\<lparr>remainingSubaddr := k\<rparr>) = ready_handle x h"
  by (simp_all add: ready_handle_def)

lemma finishes_write:
  assumes su: "i2c_setup soc p bus settle handle" and a: "master_at bus s w I2C_STAT_MSTCODE_TXREADY h ram"
    "mstate h = kTransmitDataState" "ready_handle x h"
  shows "finishes_as soc bus settle handle s ram (xfer_data x)
    (wire_data (IGNORE_LAST_NACK soc) p (mem_bytes ram (xfer_data x) (unat (xfer_dataSize x))) w)"
proof -
  obtain n where n: "unat (xfer_dataSize x) = Suc n"
    using a(3) unat_minus_1 [of "xfer_dataSize x"] by (auto simp: ready_handle_def)
  obtain ok w3 where w: "wire_send p w (mem_bytes ram (mbuf h) (Suc n)) = (ok, w3)" by fastforce
  from finishes_data [OF su a(1,2) _ _ _ w] a(3) n w show ?thesis
    by (simp add: ready_handle_def finishes_as_def wire_data_def)
qed

lemma finishes_read:
  assumes su: "i2c_setup soc p bus settle handle" and a: "master_at bus s (w @ [W_Recv (answer p w)]) I2C_STAT_MSTCODE_RXREADY h ram"
    "mstate h = kReceiveDataState" "ready_handle x h"
  shows "finishes_as soc bus settle handle s ram (xfer_data x) (wire_read p x w)"
proof -
  obtain n where n: "unat (xfer_dataSize x) = Suc n"
    using a(3) unat_minus_1 [of "xfer_dataSize x"] by (auto simp: ready_handle_def)
  obtain bs w4 where w: "wire_recv p w (Suc n) = (bs, w4)" by fastforce
  from finishes_recv [OF su a(1,2) _ _ _ w] a(3) n w show ?thesis
    by (simp add: ready_handle_def finishes_as_def wire_read_def)
qed

lemma finishes_start:
  assumes su: "i2c_setup soc p bus settle handle" and a: "master_at bus s w c h ram" "\<not> refused soc c h"
    "mstate h = kStartState" "ready_handle x h" "remainingSubaddr h = 0"
  shows "finishes_as soc bus settle handle s ram (xfer_data x)
    (wire_start (IGNORE_LAST_NACK soc) p x (mem_bytes ram (xfer_data x) (unat (xfer_dataSize x))) w)"
proof -
  let ?w = "w @ [W_Start (addr_byte (slaveAddress x) (xfer_direction x))]" and ?h = "h\<lparr>mstate := start_next h\<rparr>"
  obtain w' c' where w: "started p w (slaveAddress (mtransfer h)) (start_direction h) = (w', c')" by fastforce
  from tick_start [OF su a(1-3) w] obtain s' where t: "i2c_tick soc settle handle s = Some s'" and m: "master_at bus s' w' c' ?h ram" by blast
  have x: "mtransfer h = x" "xfer_dataSize x \<noteq> 0" "remainingBytes h = xfer_dataSize x" using a(4) by (simp_all add: ready_handle_def)
  have keep: "completionCallback (im_handle s') = completionCallback (im_handle s)" "m_userData (im_handle s') = m_userData (im_handle s)"
    using m a(1) by (simp_all add: master_at_def)
  note step = finishes_step [OF t _ keep]
  have st: "w' = ?w \<and> c' = I2C_STAT_MSTCODE_NACKADR" if "\<not> acks p ?w"
    using w that a(5) x(1) by (simp add: started_def start_direction_def Let_def)
  show ?thesis
  proof (cases "acks p ?w")
    case False
    then have "refused soc c' ?h" "nak_status c' ?h = kStatus_I2C_Addr_Nak" using st by (simp_all add: refused_def nak_status_def)
    with step [OF finishes_refused [OF su m]] st False show ?thesis by (simp add: finishes_as_def wire_start_def)
  next
    case ok: True
    show ?thesis
    proof (cases "xfer_direction x")
      case kI2C_Write
      then have "w' = ?w" "c' = I2C_STAT_MSTCODE_TXREADY" "mstate ?h = kTransmitDataState"
        using w ok a(5) x by (simp_all add: started_def start_direction_def start_next_def Let_def)
      with step finishes_write [OF su _ _, of s' ?w ?h ram x] m a(4) ok kI2C_Write show ?thesis
        by (simp add: finishes_as_def wire_start_def)
    next
      case kI2C_Read
      then have "w' = ?w @ [W_Recv (answer p ?w)]" "c' = I2C_STAT_MSTCODE_RXREADY" "mstate ?h = kReceiveDataState"
        using w ok a(5) x by (simp_all add: started_def start_direction_def start_next_def Let_def)
      with step finishes_read [OF su _ _, of s' ?w ?h ram x] m a(4) ok kI2C_Read show ?thesis
        by (simp add: finishes_as_def wire_start_def)
    qed
  qed
qed

text \<open>What is left of a transfer when part of the subaddress has been sent.\<close>

definition wire_sub :: "bool \<Rightarrow> i2c_partner \<Rightarrow> i2c_master_transfer \<Rightarrow> u8 list \<Rightarrow> u8 list \<Rightarrow> wire list \<Rightarrow> status \<times> wire list \<times> u8 list" where
  "wire_sub ignore_last p x bytes subs w =
     (let (ok, w2) = wire_send p w subs
      in if \<not> ok then (kStatus_I2C_Addr_Nak, w2 @ [W_Stop], [])
         else if xfer_direction x = kI2C_Write then wire_data ignore_last p bytes w2
         else wire_start ignore_last p x bytes w2)"

lemma wire_sub_Cons:
  "sent p w b = (w', c') \<Longrightarrow>
   wire_sub ignore_last p x bytes (b # subs) w =
     (if acks p w' then wire_sub ignore_last p x bytes subs w' else (kStatus_I2C_Addr_Nak, w' @ [W_Stop], []))"
  by (auto simp: wire_sub_def sent_def Let_def)

lemma sub_handle_keeps [simp]:
  "mtransfer (sub_handle h) = mtransfer h" "subaddrBuf (sub_handle h) = subaddrBuf h" "checkAddrNack (sub_handle h) = checkAddrNack h"
  "completionCallback (sub_handle h) = completionCallback h" "m_userData (sub_handle h) = m_userData h"
  "ready_handle x (sub_handle h) = ready_handle x h" "remainingSubaddr (sub_handle h) = remainingSubaddr h - 1"
  by (simp_all add: sub_handle_def ready_handle_def)

lemma sub_refused:
  assumes "ready_handle x h" "mstate h \<noteq> kStopState" "mstate h \<noteq> kWaitForCompletionState"
  shows "refused soc I2C_STAT_MSTCODE_NACKDAT h" "nak_status I2C_STAT_MSTCODE_NACKDAT h = kStatus_I2C_Addr_Nak"
  using assms by (simp_all add: refused_def nak_status_def i2c_ignore_nak_def ready_handle_def)

lemma sub_step:
  assumes su: "i2c_setup soc p bus settle handle" and a: "master_at bus s w I2C_STAT_MSTCODE_TXREADY h ram"
    "mstate h = kTransmitSubaddrState" "unat (remainingSubaddr h) = Suc k" "Suc k \<le> unat (subaddressSize (mtransfer h))"
    "unat (subaddressSize (mtransfer h)) \<le> length (subaddrBuf h)"
    and w: "sent p w (subaddrBuf h ! (unat (subaddressSize (mtransfer h)) - Suc k)) = (w', c')"
  obtains s' where "master_at bus s' w' c' (sub_handle h) ram"
    "\<And>st v r. finishes soc bus settle handle s' st v r \<Longrightarrow> finishes soc bus settle handle s st v r"
proof -
  have i: "unat (subaddressSize (mtransfer h) - remainingSubaddr h) = unat (subaddressSize (mtransfer h)) - Suc k"
    using a(3,4) unat_minus_small [of "remainingSubaddr h" "subaddressSize (mtransfer h)"] by simp
  have "unat (subaddressSize (mtransfer h)) - Suc k < length (subaddrBuf h)" using a(4,5) by simp
  from tick_sub [OF su a(1,2), unfolded i, OF this w] obtain s' where
    t: "i2c_tick soc settle handle s = Some s'" and m: "master_at bus s' w' c' (sub_handle h) ram" by blast
  show ?thesis by (rule that [OF m finishes_back [OF t a(1) m]]) simp_all
qed

text \<open>The last byte of the subaddress is answered: the data of a write or the repeated start of a read follow.\<close>

lemma finishes_after_sub:
  assumes su: "i2c_setup soc p bus settle handle" and m: "master_at bus s w c h ram" and x: "ready_handle x h" "remainingSubaddr h = 0"
    "mstate h = (if xfer_direction x = kI2C_Read then kStartState else kTransmitDataState)"
    and c: "c = (if acks p w then I2C_STAT_MSTCODE_TXREADY else I2C_STAT_MSTCODE_NACKDAT)"
  shows "finishes_as soc bus settle handle s ram (xfer_data x)
    (if acks p w then wire_sub (IGNORE_LAST_NACK soc) p x (mem_bytes ram (xfer_data x) (unat (xfer_dataSize x))) [] w
     else (kStatus_I2C_Addr_Nak, w @ [W_Stop], []))"
proof (cases "acks p w")
  case False
  with finishes_refused [OF su m] sub_refused(1) [of x h soc] sub_refused(2) [of x h] x c show ?thesis
    by (simp add: finishes_as_def split: if_splits)
next
  case True
  then have m': "master_at bus s w I2C_STAT_MSTCODE_TXREADY h ram" using m c by simp
  show ?thesis
  proof (cases "xfer_direction x")
    case kI2C_Write
    with finishes_write [OF su m' _ x(1)] x(3) True show ?thesis by (simp add: wire_sub_def)
  next
    case kI2C_Read
    with finishes_start [OF su m' ready_not_refused(1) _ x(1,2)] x(3) True show ?thesis by (simp add: wire_sub_def)
  qed
qed

lemma finishes_sub:
  assumes su: "i2c_setup soc p bus settle handle"
  shows "master_at bus s w I2C_STAT_MSTCODE_TXREADY h ram \<Longrightarrow> mstate h = kTransmitSubaddrState \<Longrightarrow> ready_handle x h \<Longrightarrow>
    unat (remainingSubaddr h) = Suc k \<Longrightarrow> Suc k \<le> unat (subaddressSize x) \<Longrightarrow> unat (subaddressSize x) \<le> length (subaddrBuf h) \<Longrightarrow>
    finishes_as soc bus settle handle s ram (xfer_data x)
      (wire_sub (IGNORE_LAST_NACK soc) p x (mem_bytes ram (xfer_data x) (unat (xfer_dataSize x)))
        (drop (unat (subaddressSize x) - Suc k) (take (unat (subaddressSize x)) (subaddrBuf h))) w)"
proof (induction k arbitrary: s w h)
  case (0 s w h)
  let ?b = "subaddrBuf h ! (unat (subaddressSize x) - Suc 0)" and ?h = "sub_handle h"
  have x: "mtransfer h = x" "xfer_dataSize x \<noteq> 0" "remainingBytes h = xfer_dataSize x" using 0(3) by (simp_all add: ready_handle_def)
  have l: "drop (unat (subaddressSize x) - Suc 0) (take (unat (subaddressSize x)) (subaddrBuf h)) = [?b]"
    using 0(5,6) by (intro nth_equalityI) auto
  obtain w' c' where w: "sent p w ?b = (w', c')" by fastforce
  obtain s' where m: "master_at bus s' w' c' ?h ram"
    and k: "\<And>st v r. finishes soc bus settle handle s' st v r \<Longrightarrow> finishes soc bus settle handle s st v r"
    using sub_step [OF su 0(1,2,4)] x(1) 0(5,6) w by metis
  have r: "remainingSubaddr h - 1 = 0" using 0(4) by (simp add: word_unat_eq_iff unat_minus_one)
  then have h: "mstate ?h = (if xfer_direction x = kI2C_Read then kStartState else kTransmitDataState)" "remainingSubaddr ?h = 0"
    using x by (simp_all add: sub_handle_def)
  from finishes_after_sub [OF su m _ h(2,1)] sent_code [OF w] 0(3) k show ?case
    by (simp add: finishes_as_def l wire_sub_Cons [OF w])
next
  case (Suc k s w h)
  let ?i = "unat (subaddressSize x) - Suc (Suc k)" and ?h = "sub_handle h"
  let ?subs = "drop (unat (subaddressSize x) - Suc k) (take (unat (subaddressSize x)) (subaddrBuf h))"
  have x: "mtransfer h = x" using Suc.prems(3) by (simp add: ready_handle_def)
  have l: "drop ?i (take (unat (subaddressSize x)) (subaddrBuf h)) = subaddrBuf h ! ?i # ?subs"
    using Suc.prems(5,6) by (subst Cons_nth_drop_Suc [symmetric]) (auto simp: Suc_diff_Suc)
  obtain w' c' where w: "sent p w (subaddrBuf h ! ?i) = (w', c')" by fastforce
  obtain s' where m: "master_at bus s' w' c' ?h ram"
    and f: "\<And>st v r. finishes soc bus settle handle s' st v r \<Longrightarrow> finishes soc bus settle handle s st v r"
    using sub_step [OF su Suc.prems(1,2,4)] x Suc.prems(5,6) w by metis
  have u: "unat (remainingSubaddr h - 1) = Suc k"
    using Suc.prems(4) unat_minus_1 [of "remainingSubaddr h"] by (cases "remainingSubaddr h = 0") simp_all
  then have "remainingSubaddr h - 1 \<noteq> 0" by (metis nat.distinct(1) unat_0)
  then have h: "mstate ?h = kTransmitSubaddrState" by (simp add: sub_handle_def)
  show ?case
  proof (cases "acks p w'")
    case False
    with f [OF finishes_refused [OF su m]] sub_refused(1) [of x ?h soc] sub_refused(2) [of x ?h] Suc.prems(3) h sent_code [OF w]
    show ?thesis by (simp add: finishes_as_def l wire_sub_Cons [OF w])
  next
    case True
    with f Suc.IH [of s' w' ?h] m h u sent_code [OF w] Suc.prems show ?thesis by (simp add: finishes_as_def l wire_sub_Cons [OF w])
  qed
qed

lemma length_fill_subaddr [simp]: "length (i2c_fill_subaddr n sub buf) = length buf"
  by (induction n sub buf rule: i2c_fill_subaddr.induct) simp_all

lemma fill_subaddr_above: "n \<le> i \<Longrightarrow> i2c_fill_subaddr n sub buf ! i = buf ! i"
  by (induction n sub buf rule: i2c_fill_subaddr.induct) simp_all

lemma fill_subaddr_bytes:
  "n \<le> length buf \<Longrightarrow> take n (i2c_fill_subaddr n sub buf) = map (\<lambda>i. ucast (drop_bit (8 * (n - 1 - i)) sub)) [0..<n]"
proof (induction n sub buf rule: i2c_fill_subaddr.induct)
  case (2 n sub buf)
  have "map (\<lambda>i. ucast (drop_bit (8 * (n - 1 - i)) (drop_bit 8 sub)) :: u8) [0..<n] = map (\<lambda>i. ucast (drop_bit (8 * (n - i)) sub)) [0..<n]"
  proof (rule map_cong [OF refl])
    fix i assume "i \<in> set [0..<n]"
    then have "8 * (n - i) = 8 * (n - 1 - i) + 8" by simp
    then show "(ucast (drop_bit (8 * (n - 1 - i)) (drop_bit 8 sub)) :: u8) = ucast (drop_bit (8 * (n - i)) sub)"
      by (simp only: drop_bit_drop_bit)
  qed
  with 2 show ?case by (simp add: take_Suc_conv_app_nth fill_subaddr_above)
qed simp

end
