(* ===== verification/I2c_Nonblocking.thy ===== *)
theory I2c_Nonblocking
  imports I2c_Transfer
begin

text \<open>
  The non-blocking master transfer from the call to the callback, and a concrete engine that meets
  the hypotheses of the I2C theorems.
\<close>

unbundle bit_operations_syntax

subsection \<open>Starting a transfer\<close>

lemma engine_cfg:
  assumes "i2c_engine soc p bus"
  shows "fst (reg_read soc I_CFG d) = ib_cfg (bus d)" "bus (snd (reg_read soc I_CFG d)) = bus d"
    "v AND 1 = 1 \<Longrightarrow> bus (reg_write soc I_CFG v d) = (bus d)\<lparr>ib_cfg := v\<rparr>"
proof -
  have "reg_read soc I_CFG d = (ib_cfg (bus d), snd (reg_read soc I_CFG d)) \<and> bus (snd (reg_read soc I_CFG d)) = bus d"
    "v AND 1 = 1 \<longrightarrow> bus (reg_write soc I_CFG v d) = (bus d)\<lparr>ib_cfg := v\<rparr>"
    using assms unfolding i2c_engine_def by blast+
  then show "fst (reg_read soc I_CFG d) = ib_cfg (bus d)" "bus (snd (reg_read soc I_CFG d)) = bus d"
    "v AND 1 = 1 \<Longrightarrow> bus (reg_write soc I_CFG v d) = (bus d)\<lparr>ib_cfg := v\<rparr>"
    by (metis fst_conv, simp_all)
qed

lemma enables_quiet:
  assumes "i2c_engine soc p bus"
  shows "\<exists>v. bus (I2C_SlaveEnable soc False (I2C_MasterEnable soc True d)) = (bus d)\<lparr>ib_cfg := v\<rparr>"
proof -
  note l = engine_layout [OF assms, unfolded i2c_layout_def]
  let ?v = "ib_cfg (bus d) AND I2C_CFG_MASK OR 1"
  have b: "?v AND 1 = 1" by (simp add: bit.conj_disj_distrib2)
  have m: "bus (I2C_MasterEnable soc True d) = (bus d)\<lparr>ib_cfg := ?v\<rparr>"
    using engine_cfg(1,2) [OF assms, of d] engine_cfg(3) [OF assms b] l by (simp add: I2C_MasterEnable_def case_prod_beta)
  have "(?v AND I2C_CFG_MASK AND NOT 2) AND 1 = ?v AND 1"
    by (simp only: and.assoc) (simp add: I2C_CFG_MASK_def)
  then have c: "(?v AND I2C_CFG_MASK AND NOT 2) AND 1 = 1" by (simp only: b)
  have "bus (I2C_SlaveEnable soc False (I2C_MasterEnable soc True d)) = (bus d)\<lparr>ib_cfg := ?v AND I2C_CFG_MASK AND NOT 2\<rparr>"
    using engine_cfg(1,2) [OF assms, of "I2C_MasterEnable soc True d"] engine_cfg(3) [OF assms c] l m
    by (simp add: I2C_SlaveEnable_def case_prod_beta)
  then show ?thesis by blast
qed

definition started_handle :: "i2c_master_transfer \<Rightarrow> i2c_master_handle \<Rightarrow> i2c_master_handle" where
  "started_handle x h =
     h\<lparr>mtransfer := x, transferCount := 0, remainingBytes := xfer_dataSize x, mbuf := xfer_data x,
       remainingSubaddr := subaddressSize x,
       subaddrBuf := i2c_fill_subaddr (unat (subaddressSize x)) (subaddress x) (subaddrBuf h),
       mstate := kStartState, checkAddrNack := True\<rparr>"

definition plain_transfer :: "i2c_master_transfer \<Rightarrow> bool" where
  "plain_transfer x \<longleftrightarrow>
     xfer_flags x AND kI2C_TransferNoStartFlag = 0 \<and> xfer_flags x AND kI2C_TransferNoStopFlag = 0 \<and>
     subaddressSize x \<le> 4 \<and> xfer_dataSize x \<noteq> 0 \<and> span (xfer_data x) (unat (xfer_dataSize x))"

lemma init_machine:
  "plain_transfer x \<Longrightarrow> I2C_InitTransferStateMachine x h = (kStatus_Success, started_handle x h)"
  by (cases "subaddressSize x = 0") (auto simp: plain_transfer_def I2C_InitTransferStateMachine_def started_handle_def Let_def)

lemma nonblocking_starts:
  assumes e: "i2c_engine soc p bus" and x: "plain_transfer x" and s: "mstate (im_handle s) = kIdleState"
    "ib_code (bus (im_dev s)) = I2C_STAT_MSTCODE_IDLE"
  shows "\<exists>s1. I2C_MasterTransferNonBlocking soc x s = Some (kStatus_Success, s1) \<and>
    master_at bus s1 (ib_wire (bus (im_dev s))) I2C_STAT_MSTCODE_IDLE (started_handle x (im_handle s)) (im_ram s)"
proof -
  obtain v where v: "bus (I2C_SlaveEnable soc False (I2C_MasterEnable soc True (im_dev s))) = (bus (im_dev s))\<lparr>ib_cfg := v\<rparr>"
    using enables_quiet [OF e] by blast
  note q = engine_quiet(1) [OF e] clear_flags_quiet [OF e]
  have "4 \<ge> subaddressSize x" using x by (simp add: plain_transfer_def)
  then show ?thesis using s v
    by (simp add: I2C_MasterTransferNonBlocking_def init_machine [OF x] Let_def master_at_def I2C_EnableInterrupts_def
        I2C_DisableInterrupts_def q i2c_code_defs)
qed

subsection \<open>To the callback\<close>

lemma finishes_transfer:
  assumes su: "i2c_setup soc p bus settle handle" and x: "plain_transfer x" and l: "length (subaddrBuf h) = 4"
    and m: "master_at bus s w I2C_STAT_MSTCODE_IDLE (started_handle x h) ram"
  shows "finishes_as soc bus settle handle s ram (xfer_data x)
    (wire_transfer (IGNORE_LAST_NACK soc) p x (mem_bytes ram (xfer_data x) (unat (xfer_dataSize x))) w)"
proof -
  let ?h = "started_handle x h" and ?bytes = "mem_bytes ram (xfer_data x) (unat (xfer_dataSize x))"
  have h: "mstate ?h = kStartState" "ready_handle x ?h" "remainingSubaddr ?h = subaddressSize x" "mtransfer ?h = x"
    using x by (simp_all add: started_handle_def ready_handle_def plain_transfer_def)
  show ?thesis
  proof (cases "subaddressSize x = 0")
    case True
    with finishes_start [OF su m ready_not_refused(3) h(1,2)] h(3) show ?thesis by (simp add: wire_transfer_def)
  next
    case False
    let ?w = "w @ [W_Start (addr_byte (slaveAddress x) kI2C_Write)]" and ?n = "unat (subaddressSize x)"
    let ?h' = "?h\<lparr>mstate := kTransmitSubaddrState\<rparr>"
    obtain w' c' where w: "started p w (slaveAddress (mtransfer ?h)) (start_direction ?h) = (w', c')" by fastforce
    have d: "start_direction ?h = kI2C_Write" "start_next ?h = kTransmitSubaddrState"
      using False h(3) by (simp_all add: start_direction_def start_next_def)
    from tick_start [OF su m ready_not_refused(3) h(1) w] obtain s' where t: "i2c_tick soc settle handle s = Some s'"
      and m': "master_at bus s' w' c' ?h' ram" unfolding d by blast
    have keep: "completionCallback (im_handle s') = completionCallback (im_handle s)" "m_userData (im_handle s') = m_userData (im_handle s)"
      using m m' by (simp_all add: master_at_def)
    note step = finishes_step [OF t _ keep]
    have c: "w' = ?w" "c' = (if acks p ?w then I2C_STAT_MSTCODE_TXREADY else I2C_STAT_MSTCODE_NACKADR)"
      using w d(1) h(4) by (simp_all add: started_def Let_def split: if_splits)
    have n4: "?n \<le> 4" using x by (simp add: plain_transfer_def word_le_nat_alt)
    then have sb: "take ?n (subaddrBuf ?h') = sub_bytes x"
      using fill_subaddr_bytes [of ?n "subaddrBuf h" "subaddress x"] l by (simp add: started_handle_def sub_bytes_def)
    show ?thesis
    proof (cases "acks p ?w")
      case nak: False
      then have "refused soc c' ?h'" "nak_status c' ?h' = kStatus_I2C_Addr_Nak" using c by (simp_all add: refused_def nak_status_def)
      with step [OF finishes_refused [OF su m']] nak False c show ?thesis by (simp add: finishes_as_def wire_transfer_def)
    next
      case True
      have lh: "length (subaddrBuf ?h) = 4" using l by (simp add: started_handle_def)
      obtain k where k: "?n = Suc k" using False unat_minus_1 [of "subaddressSize x"] by auto
      have "finishes_as soc bus settle handle s' ram (xfer_data x)
          (wire_sub (IGNORE_LAST_NACK soc) p x ?bytes (drop (?n - Suc k) (take ?n (subaddrBuf ?h'))) ?w)"
        by (rule finishes_sub [OF su, where h = ?h'])
           (use m' c True h k n4 lh in simp_all)
      with step k sb True False show ?thesis
        by (simp add: finishes_as_def wire_transfer_def wire_sub_def)
    qed
  qed
qed

lemma nonblocking_core:
  assumes su: "i2c_setup soc p bus settle handle" and x: "plain_transfer x" and s: "mstate (im_handle s) = kIdleState"
    "ib_code (bus (im_dev s)) = I2C_STAT_MSTCODE_IDLE" "length (subaddrBuf (im_handle s)) = 4"
    and r: "wire_transfer (IGNORE_LAST_NACK soc) p x (mem_bytes (im_ram s) (xfer_data x) (unat (xfer_dataSize x)))
      (ib_wire (bus (im_dev s))) = (st, w, bs)"
  shows "\<exists>s1 n s'. I2C_MasterTransferNonBlocking soc x s = Some (kStatus_Success, s1) \<and>
    i2c_serve soc settle handle n s1 = i2c_callback soc st s' \<and>
    ib_wire (bus (im_dev s')) = w \<and> ib_code (bus (im_dev s')) = I2C_STAT_MSTCODE_IDLE \<and>
    im_ram s' = mem_write (im_ram s) (xfer_data x) bs \<and> mstate (im_handle s') = kIdleState \<and>
    completionCallback (im_handle s') = completionCallback (im_handle s) \<and> m_userData (im_handle s') = m_userData (im_handle s)"
proof -
  from nonblocking_starts [OF setupD(1) [OF su] x s(1,2)] obtain s1 where
    n: "I2C_MasterTransferNonBlocking soc x s = Some (kStatus_Success, s1)"
    and m: "master_at bus s1 (ib_wire (bus (im_dev s))) I2C_STAT_MSTCODE_IDLE (started_handle x (im_handle s)) (im_ram s)" by blast
  have h: "completionCallback (im_handle s1) = completionCallback (im_handle s)" "m_userData (im_handle s1) = m_userData (im_handle s)"
    using m by (simp_all add: master_at_def started_handle_def)
  from finishes_transfer [OF su x s(3) m] n h show ?thesis unfolding finishes_as_def finishes_def r fst_conv snd_conv by metis
qed

subsection \<open>A concrete engine\<close>

text \<open>An engine that takes two polls for each command; its device state is the bus.\<close>

definition eng_norm :: "i2c_bus \<Rightarrow> i2c_bus" where
  "eng_norm b = b\<lparr>ib_code := (if ib_code b \<le> 4 then ib_code b else 0)\<rparr>"

definition eng_read :: "i2c_reg \<Rightarrow> i2c_bus \<Rightarrow> u32 \<times> i2c_bus" where
  "eng_read r b =
     (let b = eng_norm b
      in case r of
           I_STAT \<Rightarrow> ((if ib_delay b = 0 then 1 else 0) OR push_bit 1 (ib_code b), b\<lparr>ib_delay := ib_delay b - 1\<rparr>)
         | I_CFG \<Rightarrow> (ib_cfg b, b) | I_MSTDAT \<Rightarrow> (ib_dat b, b) | _ \<Rightarrow> (0, b))"

definition eng_write :: "i2c_partner \<Rightarrow> i2c_reg \<Rightarrow> u32 \<Rightarrow> i2c_bus \<Rightarrow> i2c_bus" where
  "eng_write p r v b =
     (let b = eng_norm b
      in case r of
           I_CFG \<Rightarrow> b\<lparr>ib_cfg := v\<rparr> | I_MSTDAT \<Rightarrow> b\<lparr>ib_dat := v\<rparr>
         | I_MSTCTL \<Rightarrow>
             (if v = 2 then (bus_start p b)\<lparr>ib_delay := 2\<rparr> else if v = 1 then (bus_continue p b)\<lparr>ib_delay := 2\<rparr>
              else if v = 4 then (bus_stop b)\<lparr>ib_delay := 2\<rparr> else b)
         | _ \<Rightarrow> b)"

primrec eng_mask :: "i2c_mask \<Rightarrow> u32" where
  "eng_mask CFG_MSTEN = 1" | "eng_mask CFG_SLVEN = 2" | "eng_mask CFG_TIMEOUTEN = 8"
| "eng_mask STAT_MSTPENDING = 1" | "eng_mask STAT_MSTSTATE = 0xE" | "eng_mask STAT_MSTARBLOSS = 0x10"
| "eng_mask STAT_MSTSTSTPERR = 0x40" | "eng_mask STAT_SLVPENDING = 0x100" | "eng_mask STAT_SLVSTATE = 0x600"
| "eng_mask STAT_SLVIDX = 0x3000" | "eng_mask STAT_SLVDESEL = 0x8000" | "eng_mask STAT_MONOV = 0x20000"
| "eng_mask STAT_MONIDLE = 0x80000" | "eng_mask STAT_EVENTTIMEOUT = 0x1000000" | "eng_mask STAT_SCLTIMEOUT = 0x2000000"
| "eng_mask INTSTAT_MSTPENDING = 1" | "eng_mask INTSTAT_MSTARBLOSS = 0x10" | "eng_mask INTSTAT_MSTSTSTPERR = 0x40"
| "eng_mask INTSTAT_SLVPENDING = 0x100" | "eng_mask INTSTAT_SLVDESEL = 0x8000" | "eng_mask INTSTAT_EVENTTIMEOUT = 0x1000000"
| "eng_mask INTSTAT_SCLTIMEOUT = 0x2000000" | "eng_mask CLKDIV_DIVVAL = 0xFFFF" | "eng_mask MSTCTL_MSTSTART = 2"
| "eng_mask MSTCTL_MSTSTOP = 4" | "eng_mask MSTCTL_MSTCONTINUE = 1" | "eng_mask SLVCTL_SLVCONTINUE = 1" | "eng_mask SLVCTL_SLVNACK = 2"

definition ex_soc :: "(i2c_reg \<Rightarrow> 'd \<Rightarrow> u32 \<times> 'd) \<Rightarrow> (i2c_reg \<Rightarrow> u32 \<Rightarrow> 'd \<Rightarrow> 'd) \<Rightarrow> 'd i2c_soc" where
  "ex_soc rd wr =
     \<lparr>reg_read = rd, reg_write = wr, PSELID = I_PSELID, PSELID_LOCK_MASK = 8, PSELID_PERSEL_MASK = 7,
      HAS_CLOCK_CONTROL = True, HAS_RESET = True, flexcomm_bases = [0x40086000], flexcomm_cmse = False,
      CLOCK_EnableClock = (\<lambda>_ d. d), RESET_PeripheralReset = (\<lambda>_ d. d),
      imask = eng_mask, ifield = (\<lambda>_ v. v), STAT_MSTSTATE_SHIFT = 1, STAT_SLVSTATE_SHIFT = 9, STAT_SLVIDX_SHIFT = 12,
      CLKDIV_DIVVAL_SHIFT = 0, I2C_RETRY_TIMES = 0, IGNORE_LAST_NACK = False, HAS_TIMEOUT_RECOVERY = False,
      HAS_PREPCLKFRG_8MHZ = False, i2c_bases = [0x40086000], i2c_cmse = False, i2c_EnableIRQ = (\<lambda>_ d. d),
      i2c_invoke = (\<lambda>_ _ _ s. Some s)\<rparr>"

definition eng_soc :: "i2c_partner \<Rightarrow> i2c_bus i2c_soc" where
  "eng_soc p = ex_soc eng_read (eng_write p)"

lemma eng_soc_simps [simp]:
  "reg_read (eng_soc p) = eng_read" "reg_write (eng_soc p) = eng_write p" "imask (eng_soc p) = eng_mask"
  "STAT_MSTSTATE_SHIFT (eng_soc p) = 1" "STAT_SLVIDX_SHIFT (eng_soc p) = 12" "I2C_RETRY_TIMES (eng_soc p) = 0"
  "IGNORE_LAST_NACK (eng_soc p) = False"
  by (simp_all add: eng_soc_def ex_soc_def)

lemma eng_norm_code [simp]: "ib_code (eng_norm b) \<le> 4"
  by (simp add: eng_norm_def)

lemma eng_norm_id: "ib_code b \<le> 4 \<Longrightarrow> eng_norm b = b"
  by (simp add: eng_norm_def)

lemma eng_commands_code:
  "ib_code (bus_receive p b) \<le> 4" "ib_code (bus_start p b) \<le> 4" "ib_code (bus_continue p b) \<le> 4" "ib_code (bus_stop b) \<le> 4"
  by (simp_all add: bus_receive_def bus_start_def bus_continue_def bus_stop_def i2c_code_defs Let_def)

lemma eng_engine: "i2c_engine (eng_soc p) p eng_norm"
proof -
  have st: "fst (eng_read I_STAT d) AND 0x300005F = (if ib_delay (eng_norm d) = 0 then 1 else 0) OR push_bit 1 (ib_code (eng_norm d))" for d
    using code_cases [OF eng_norm_code, of d] by (auto simp: eng_read_def Let_def)
  have l: "i2c_layout (eng_soc p)" by (simp add: i2c_layout_def)
  have n: "eng_norm (eng_norm d) = eng_norm d" for d by (rule eng_norm_id) (rule eng_norm_code)
  show ?thesis unfolding i2c_engine_def same_bus_def eng_soc_simps
    by (intro conjI allI impI l st)
       (auto simp: eng_read_def eng_write_def Let_def n eng_norm_id eng_commands_code)
qed

definition eng_settle :: "i2c_bus \<Rightarrow> i2c_bus" where
  "eng_settle b = (eng_norm b)\<lparr>ib_delay := 0\<rparr>"

lemma eng_setup: "i2c_setup (eng_soc p) p eng_norm eng_settle 0x20000000"
  by (simp add: i2c_setup_def eng_engine settles_def eng_settle_def eng_norm_id)

text \<open>A partner that acknowledges every byte and sends \<open>0x5A\<close>, an idle bus and an idle master.\<close>

definition ex_partner :: i2c_partner where "ex_partner = \<lparr>acks = (\<lambda>_. True), answer = (\<lambda>_. 0x5A)\<rparr>"

definition ex_bus :: i2c_bus where "ex_bus = \<lparr>ib_wire = [], ib_code = 0, ib_dat = 0, ib_cfg = 0, ib_delay = 0\<rparr>"

definition ex_transfer :: i2c_master_transfer where
  "ex_transfer = \<lparr>xfer_flags = 0, slaveAddress = 0x50, xfer_direction = kI2C_Read, subaddress = 0x1234, subaddressSize = 2,
     xfer_data = 0x20001000, xfer_dataSize = 2\<rparr>"

definition ex_master :: "i2c_bus i2c_master" where
  "ex_master = \<lparr>im_dev = ex_bus,
     im_handle = \<lparr>mstate = kIdleState, transferCount = 0, remainingBytes = 0, mbuf = 0, remainingSubaddr = 0,
        subaddrBuf = replicate 4 0, checkAddrNack = False, mtransfer = ex_transfer, completionCallback = Some 7, m_userData = 9\<rparr>,
     im_ram = (\<lambda>_. 0), im_irqs = \<lparr>s_flexcommIrqHandler = (\<lambda>_. None), s_flexcommHandle = (\<lambda>_. 0)\<rparr>\<rparr>"

lemma ex_plain: "plain_transfer ex_transfer"
  by (simp add: plain_transfer_def ex_transfer_def kI2C_TransferNoStartFlag_def kI2C_TransferNoStopFlag_def span_def)

lemma ex_wire:
  "wire_transfer False ex_partner ex_transfer bytes [] =
     (kStatus_Success,
      [W_Start 0xA0, W_Send 0x12, W_Send 0x34, W_Start 0xA1, W_Recv 0x5A, W_Recv 0x5A, W_Stop], [0x5A, 0x5A])"
proof -
  have n: "unat (subaddressSize ex_transfer) = Suc (Suc 0)" "unat (xfer_dataSize ex_transfer) = Suc (Suc 0)"
    by (simp_all add: ex_transfer_def)
  have s: "sub_bytes ex_transfer = [0x12, 0x34]" unfolding sub_bytes_def n by (simp add: ex_transfer_def)
  show ?thesis unfolding wire_transfer_def wire_start_def wire_read_def s n
    by (simp add: ex_transfer_def ex_partner_def addr_byte_def Let_def)
qed

subsection \<open>The transfer\<close>

text \<open>C5: A non-blocking transfer with start and stop is what the specification says: started on an idle
  handle and an idle bus, its interrupts end in the completion callback with the status, the wire and
  the RAM of \<open>wire_transfer\<close>, for a write, a read and either after a subaddress of up to four bytes, and
  for a partner that acknowledges any of the bytes or refuses them: a refused address, subaddress or
  data byte stops the bus and is reported. The callback and its argument are those of the handle.
\<close>

theorem i2c_nonblocking_transfer:
  assumes "i2c_engine soc p bus" "settles settle bus" "handle \<noteq> 0" "plain_transfer x"
    and "mstate (im_handle s) = kIdleState" "length (subaddrBuf (im_handle s)) = 4" "ib_code (bus (im_dev s)) = I2C_STAT_MSTCODE_IDLE"
    and "wire_transfer (IGNORE_LAST_NACK soc) p x (mem_bytes (im_ram s) (xfer_data x) (unat (xfer_dataSize x)))
      (ib_wire (bus (im_dev s))) = (st, w, bs)"
  shows "\<exists>s1 n s'. I2C_MasterTransferNonBlocking soc x s = Some (kStatus_Success, s1) \<and>
    i2c_serve soc settle handle n s1 = i2c_callback soc st s' \<and>
    ib_wire (bus (im_dev s')) = w \<and> ib_code (bus (im_dev s')) = I2C_STAT_MSTCODE_IDLE \<and>
    im_ram s' = mem_write (im_ram s) (xfer_data x) bs \<and> mstate (im_handle s') = kIdleState \<and>
    completionCallback (im_handle s') = completionCallback (im_handle s) \<and> m_userData (im_handle s') = m_userData (im_handle s)"
  using nonblocking_core [of soc p bus settle handle x s st w bs] assms by (simp add: i2c_setup_def)

theorem i2c_nonblocking_transfer_witness:
  "\<exists>s1 n s'. I2C_MasterTransferNonBlocking (eng_soc ex_partner) ex_transfer ex_master = Some (kStatus_Success, s1) \<and>
    i2c_serve (eng_soc ex_partner) eng_settle 0x20000000 n s1 = i2c_callback (eng_soc ex_partner) kStatus_Success s' \<and>
    ib_wire (eng_norm (im_dev s')) =
      [W_Start 0xA0, W_Send 0x12, W_Send 0x34, W_Start 0xA1, W_Recv 0x5A, W_Recv 0x5A, W_Stop] \<and>
    mem_bytes (im_ram s') 0x20001000 2 = [0x5A, 0x5A]"
proof -
  have s: "mstate (im_handle ex_master) = kIdleState" "length (subaddrBuf (im_handle ex_master)) = 4"
    "ib_code (eng_norm (im_dev ex_master)) = I2C_STAT_MSTCODE_IDLE" "ib_wire (eng_norm (im_dev ex_master)) = []"
    by (simp_all add: ex_master_def ex_bus_def eng_norm_def I2C_STAT_MSTCODE_IDLE_def)
  note e = eng_setup [of ex_partner, unfolded i2c_setup_def]
  have r: "wire_transfer (IGNORE_LAST_NACK (eng_soc ex_partner)) ex_partner ex_transfer
      (mem_bytes (im_ram ex_master) (xfer_data ex_transfer) (unat (xfer_dataSize ex_transfer))) (ib_wire (eng_norm (im_dev ex_master))) =
     (kStatus_Success, [W_Start 0xA0, W_Send 0x12, W_Send 0x34, W_Start 0xA1, W_Recv 0x5A, W_Recv 0x5A, W_Stop], [0x5A, 0x5A])"
    unfolding s(4) by (simp add: ex_wire)
  have b: "mem_bytes (mem_write m 0x20001000 [0x5A, 0x5A]) 0x20001000 2 = [0x5A, 0x5A]" for m
    by (simp add: mem_bytes_def numeral_2_eq_2)
  have "xfer_data ex_transfer = 0x20001000" by (simp add: ex_transfer_def)
  with i2c_nonblocking_transfer [OF conjunct1 [OF e] conjunct1 [OF conjunct2 [OF e]] conjunct2 [OF conjunct2 [OF e]] ex_plain s(1-3) r] b
  show ?thesis by metis
qed

end
