(* ===== verification/I2c_Blocking.thy ===== *)
theory I2c_Blocking
  imports I2c_Nonblocking
begin

text \<open>
  The polling master transfer of \<open>fsl_i2c.c\<close> against the same specification of the wire as the
  non-blocking one.
\<close>

unbundle bit_operations_syntax

subsection \<open>The polling operations on the wire\<close>

definition dev_at :: "('d \<Rightarrow> i2c_bus) \<Rightarrow> 'd \<Rightarrow> wire list \<Rightarrow> u32 \<Rightarrow> bool" where
  "dev_at bus d w c \<longleftrightarrow>
     ib_wire (bus d) = w \<and> ib_code (bus d) = c \<and> (c = I2C_STAT_MSTCODE_RXREADY \<longrightarrow> last w = W_Recv (ucast (ib_dat (bus d))))"

lemma dev_at_delay: "dev_at bus d w c \<Longrightarrow> bus d' = (bus d)\<lparr>ib_delay := n\<rparr> \<Longrightarrow> dev_at bus d' w c"
  by (simp add: dev_at_def)

definition polling :: "'d i2c_soc \<Rightarrow> i2c_partner \<Rightarrow> ('d \<Rightarrow> i2c_bus) \<Rightarrow> bool" where
  "polling soc p bus \<longleftrightarrow> i2c_engine soc p bus \<and> I2C_RETRY_TIMES soc = 0"

lemma wait_at:
  assumes "polling soc p bus" "dev_at bus d w c"
  obtains d' where "I2C_PendingStatusWait soc d = Some (kStatus_Success, d')" "dev_at bus d' w c"
proof -
  obtain d' where "I2C_PendingStatusWait soc d = Some (kStatus_Success, d')" "bus d' = (bus d)\<lparr>ib_delay := 0\<rparr>"
    using pending_wait [of soc p bus d] assms(1) by (auto simp: polling_def)
  then show ?thesis by (intro that [of d'] dev_at_delay [OF assms(2)])
qed

lemma code_at:
  assumes "polling soc p bus" "dev_at bus d w c"
  obtains d' where "i2c_master_code soc d = (c, d')" "dev_at bus d' w c"
proof -
  have e: "i2c_engine soc p bus" using assms(1) by (simp add: polling_def)
  show ?thesis
    by (rule that [of "snd (reg_read soc I_STAT d)"])
       (use master_code_read [OF e, of d] assms(2) dev_at_delay [OF assms(2) engine_stat(2) [OF e]] in \<open>auto simp: dev_at_def\<close>)
qed

lemma stop_command:
  assumes "polling soc p bus" "dev_at bus d w c"
  shows "dev_at bus (reg_write soc I_MSTCTL (imask soc MSTCTL_MSTSTOP) d) (w @ [W_Stop]) I2C_STAT_MSTCODE_IDLE"
  using stop_stops [of soc p bus d] assms by (simp add: polling_def dev_at_def i2c_code_defs)

lemma stop_at:
  assumes "polling soc p bus" "dev_at bus d w c"
  obtains d' where "I2C_MasterStop soc d = Some (kStatus_Success, d')" "dev_at bus d' (w @ [W_Stop]) I2C_STAT_MSTCODE_IDLE"
proof -
  obtain d1 where "I2C_PendingStatusWait soc d = Some (kStatus_Success, d1)" "dev_at bus d1 w c" by (rule wait_at [OF assms])
  with stop_command [OF assms(1), of d1 w c] that show ?thesis by (simp add: I2C_MasterStop_def)
qed

lemma direction_word: "push_bit 1 (ucast a) OR (i2c_direction_num dir AND 1) = addr_word a dir"
  by (cases dir) (simp_all add: addr_word_def)

lemma start_at:
  assumes "polling soc p bus" "dev_at bus d w c" "started p w a dir = (w', c')"
  obtains d' where "I2C_MasterStart soc a dir d = Some (kStatus_Success, d')" "dev_at bus d' w' c'"
proof -
  have e: "i2c_engine soc p bus" using assms(1) by (simp add: polling_def)
  obtain d1 where d1: "I2C_PendingStatusWait soc d = Some (kStatus_Success, d1)" "dev_at bus d1 w c" by (rule wait_at [OF assms(1,2)])
  let ?d2 = "reg_write soc I_MSTDAT (addr_word a dir) d1"
  let ?d3 = "reg_write soc I_MSTCTL (imask soc MSTCTL_MSTSTART) ?d2"
  have b: "ib_dat (bus ?d2) = addr_word a dir" "ib_wire (bus ?d2) = w"
    using engine_quiet(2) [OF e, of "addr_word a dir" d1] d1(2) by (simp_all add: dev_at_def)
  note r = bus_start_started [OF b(1), of p] and q = same_bus_simps [OF engine_quiet(3) [OF e, of ?d2]]
  have "dev_at bus ?d3 w' c'" using r q assms(3) unfolding b(2) by (simp add: dev_at_def)
  moreover have "I2C_MasterStart soc a dir d = Some (kStatus_Success, ?d3)"
    by (simp only: I2C_MasterStart_def d1(1) direction_word bind.bind_lunit prod.case) (simp add: Let_def)
  ultimately show ?thesis using that by blast
qed

lemma response_at:
  assumes "polling soc p bus" "dev_at bus d w c"
  obtains d' where "I2C_MasterCheckStartResponse soc d =
      Some (if c = I2C_STAT_MSTCODE_NACKADR then kStatus_I2C_Addr_Nak else kStatus_Success, d')"
    "if c = I2C_STAT_MSTCODE_NACKADR then dev_at bus d' (w @ [W_Stop]) I2C_STAT_MSTCODE_IDLE else dev_at bus d' w c"
proof -
  obtain d1 where d1: "I2C_PendingStatusWait soc d = Some (kStatus_Success, d1)" "dev_at bus d1 w c" by (rule wait_at [OF assms])
  obtain d2 where d2: "i2c_master_code soc d1 = (c, d2)" "dev_at bus d2 w c" by (rule code_at [OF assms(1) d1(2)])
  obtain d3 where d3: "I2C_MasterStop soc d2 = Some (kStatus_Success, d3)" "dev_at bus d3 (w @ [W_Stop]) I2C_STAT_MSTCODE_IDLE"
    by (rule stop_at [OF assms(1) d2(2)])
  show ?thesis
    by (rule that [of "if c = I2C_STAT_MSTCODE_NACKADR then d3 else d2"])
       (use d1 d2 d3 in \<open>simp_all add: I2C_MasterCheckStartResponse_def\<close>)
qed

subsection \<open>Writing\<close>

definition write_code :: "bool \<Rightarrow> u32" where
  "write_code ok = (if ok then I2C_STAT_MSTCODE_TXREADY else I2C_STAT_MSTCODE_NACKDAT)"

lemma wire_send_length: "wire_send p w bs = (ok, w') \<Longrightarrow> length w' \<le> length w + length bs"
  by (induction p w bs rule: wire_send.induct) (auto simp: Let_def split: if_splits)

lemma wire_send_full: "wire_send p w bs = (True, w') \<Longrightarrow> length w' = length w + length bs"
  by (induction p w bs rule: wire_send.induct) (auto simp: Let_def split: if_splits)

text \<open>The loop stops the bus when a byte other than the last was refused.\<close>

lemma write_loop_nak:
  assumes p: "polling soc p bus" and a: "dev_at bus d w I2C_STAT_MSTCODE_NACKDAT"
  shows "\<exists>d'. i2c_write_loop soc (b # bs) d = Some (kStatus_I2C_Nak, d') \<and> dev_at bus d' (w @ [W_Stop]) I2C_STAT_MSTCODE_IDLE"
proof -
  obtain d1 where d1: "I2C_PendingStatusWait soc d = Some (kStatus_Success, d1)" "dev_at bus d1 w I2C_STAT_MSTCODE_NACKDAT"
    by (rule wait_at [OF p a])
  obtain d2 where d2: "i2c_master_code soc d1 = (I2C_STAT_MSTCODE_NACKDAT, d2)" "dev_at bus d2 w I2C_STAT_MSTCODE_NACKDAT"
    by (rule code_at [OF p d1(2)])
  obtain d3 where d3: "I2C_MasterStop soc d2 = Some (kStatus_Success, d3)" "dev_at bus d3 (w @ [W_Stop]) I2C_STAT_MSTCODE_IDLE"
    by (rule stop_at [OF p d2(2)])
  show ?thesis using d1 d2 d3 by (simp add: i2c_code_defs)
qed

lemma write_loop_at:
  assumes p: "polling soc p bus"
  shows "dev_at bus d w I2C_STAT_MSTCODE_TXREADY \<Longrightarrow> wire_send p w bs = (ok, w') \<Longrightarrow>
    \<exists>d'. if ok \<or> length w' = length w + length bs
         then i2c_write_loop soc bs d = Some (kStatus_Success, d') \<and> dev_at bus d' w' (write_code ok)
         else i2c_write_loop soc bs d = Some (kStatus_I2C_Nak, d') \<and> dev_at bus d' (w' @ [W_Stop]) I2C_STAT_MSTCODE_IDLE"
proof (induction bs arbitrary: d w)
  case Nil
  then show ?case by (auto simp: write_code_def)
next
  case (Cons b bs)
  have e: "i2c_engine soc p bus" using p by (simp add: polling_def)
  obtain d1 where d1: "I2C_PendingStatusWait soc d = Some (kStatus_Success, d1)" "dev_at bus d1 w I2C_STAT_MSTCODE_TXREADY"
    by (rule wait_at [OF p Cons.prems(1)])
  obtain d2 where d2: "i2c_master_code soc d1 = (I2C_STAT_MSTCODE_TXREADY, d2)" "dev_at bus d2 w I2C_STAT_MSTCODE_TXREADY"
    by (rule code_at [OF p d1(2)])
  let ?d3 = "reg_write soc I_MSTCTL (imask soc MSTCTL_MSTCONTINUE) (reg_write soc I_MSTDAT (ucast b) d2)"
  let ?w = "w @ [W_Send b]"
  have d3: "dev_at bus ?d3 ?w (write_code (acks p ?w))"
    using continue_sends [OF e, of d2 b] d2(2) by (simp add: dev_at_def sent_def write_code_def i2c_code_defs)
  have l: "i2c_write_loop soc (b # bs) d = i2c_write_loop soc bs ?d3" using d1(1) d2(1) by simp
  show ?case
  proof (cases "acks p ?w")
    case True
    with Cons.IH [of ?d3 ?w] Cons.prems(2) d3 show ?thesis unfolding l by (simp add: write_code_def)
  next
    case nak: False
    then have w: "\<not> ok" "w' = ?w" using Cons.prems(2) by (simp_all add: Let_def)
    show ?thesis
    proof (cases bs)
      case Nil
      with nak w d3 show ?thesis unfolding l by (auto simp: write_code_def)
    next
      case (Cons b' bs')
      with write_loop_nak [OF p, of ?d3 ?w b' bs'] nak w d3 show ?thesis unfolding l by (simp add: write_code_def)
    qed
  qed
qed

lemma write_end_at:
  assumes "polling soc p bus" "dev_at bus d w c"
  shows "\<exists>d'. i2c_write_end soc flg d = Some (kStatus_Success, d') \<and>
    (if flg AND kI2C_TransferNoStopFlag = 0 then dev_at bus d' (w @ [W_Stop]) I2C_STAT_MSTCODE_IDLE else dev_at bus d' w c)"
proof -
  obtain d1 where "I2C_PendingStatusWait soc (reg_write soc I_MSTCTL (imask soc MSTCTL_MSTSTOP) d) = Some (kStatus_Success, d1)"
    "dev_at bus d1 (w @ [W_Stop]) I2C_STAT_MSTCODE_IDLE"
    by (rule wait_at [OF assms(1) stop_command [OF assms]])
  with assms(2) show ?thesis by (auto simp: i2c_write_end_def)
qed

lemma write_blocking_at:
  assumes p: "polling soc p bus" and a: "dev_at bus d w I2C_STAT_MSTCODE_TXREADY" "wire_send p w bs = (ok, w')"
  shows "\<exists>d'. if ok \<or> IGNORE_LAST_NACK soc \<and> length w' = length w + length bs
     then I2C_MasterWriteBlocking soc bs flg d = Some (kStatus_Success, d') \<and>
       (if flg AND kI2C_TransferNoStopFlag = 0 then dev_at bus d' (w' @ [W_Stop]) I2C_STAT_MSTCODE_IDLE else dev_at bus d' w' (write_code ok))
     else I2C_MasterWriteBlocking soc bs flg d = Some (kStatus_I2C_Nak, d') \<and> dev_at bus d' (w' @ [W_Stop]) I2C_STAT_MSTCODE_IDLE"
proof (cases "ok \<or> length w' = length w + length bs")
  case False
  with write_loop_at [OF p a] show ?thesis by (auto simp: I2C_MasterWriteBlocking_def i2c_status_defs)
next
  case True
  with write_loop_at [OF p a] obtain d1 where l: "i2c_write_loop soc bs d = Some (kStatus_Success, d1)"
    and d1: "dev_at bus d1 w' (write_code ok)" by auto
  obtain d2 where d2: "I2C_PendingStatusWait soc d1 = Some (kStatus_Success, d2)" "dev_at bus d2 w' (write_code ok)"
    by (rule wait_at [OF p d1])
  obtain d3 where d3: "i2c_master_code soc d2 = (write_code ok, d3)" "dev_at bus d3 w' (write_code ok)" by (rule code_at [OF p d2(2)])
  obtain d4 where d4: "I2C_MasterStop soc d3 = Some (kStatus_Success, d4)" "dev_at bus d4 (w' @ [W_Stop]) I2C_STAT_MSTCODE_IDLE"
    by (rule stop_at [OF p d3(2)])
  note r = l d2(1) d3(1) d4
  show ?thesis
  proof (cases "IGNORE_LAST_NACK soc")
    case ig: True
    with write_end_at [OF p d2(2), of flg] True r show ?thesis by (simp add: I2C_MasterWriteBlocking_def)
  next
    case nig: False
    show ?thesis
    proof (cases ok)
      case True
      with write_end_at [OF p d3(2), of flg] nig r show ?thesis
        by (simp add: I2C_MasterWriteBlocking_def write_code_def i2c_code_defs)
    next
      case False
      with nig r show ?thesis by (simp add: I2C_MasterWriteBlocking_def write_code_def)
    qed
  qed
qed

subsection \<open>Reading\<close>

text \<open>One byte is read from the engine.\<close>

lemma read_byte_at:
  assumes p: "polling soc p bus" and a: "dev_at bus d (w @ [W_Recv b]) I2C_STAT_MSTCODE_RXREADY"
  obtains d1 d2 v d3 where "I2C_PendingStatusWait soc d = Some (kStatus_Success, d1)"
    "i2c_master_code soc d1 = (I2C_STAT_MSTCODE_RXREADY, d2)" "reg_read soc I_MSTDAT d2 = (v, d3)"
    "ucast v = b" "dev_at bus d3 (w @ [W_Recv b]) I2C_STAT_MSTCODE_RXREADY"
proof -
  have e: "i2c_engine soc p bus" using p by (simp add: polling_def)
  let ?w = "w @ [W_Recv b]" and ?c = I2C_STAT_MSTCODE_RXREADY
  obtain d1 where d1: "I2C_PendingStatusWait soc d = Some (kStatus_Success, d1)" "dev_at bus d1 ?w ?c" by (rule wait_at [OF p a])
  obtain d2 where d2: "i2c_master_code soc d1 = (?c, d2)" "dev_at bus d2 ?w ?c" by (rule code_at [OF p d1(2)])
  obtain v d3 where r: "reg_read soc I_MSTDAT d2 = (v, d3)" by fastforce
  have c: "ib_code (bus d2) = ?c" "b = ucast (ib_dat (bus d2))" using d2(2) by (simp_all add: dev_at_def)
  have "ucast v = b" "bus d3 = bus d2"
    using engine_read_data [OF e c(1)] r c(2) ucast_low_byte [of v "ib_dat (bus d2)"] by simp_all
  moreover from this d2(2) have "dev_at bus d3 ?w ?c" by (simp add: dev_at_def)
  ultimately show ?thesis using that d1(1) d2(1) r by blast
qed

lemma read_loop_at:
  assumes p: "polling soc p bus" and flg: "flg AND kI2C_TransferNoStopFlag = 0"
  shows "dev_at bus d (w @ [W_Recv (answer p w)]) I2C_STAT_MSTCODE_RXREADY \<Longrightarrow> wire_recv p w (Suc n) = (bs, w4) \<Longrightarrow>
    \<exists>d'. i2c_read_loop soc flg buf (Suc n) (ram, d) = Some (kStatus_Success, mem_write ram buf bs, d') \<and>
         dev_at bus d' (w4 @ [W_Stop]) I2C_STAT_MSTCODE_IDLE"
proof (induction n arbitrary: d w buf ram bs)
  case (0 d w buf ram bs)
  let ?w = "w @ [W_Recv (answer p w)]"
  obtain d1 d2 v d3 where r: "I2C_PendingStatusWait soc d = Some (kStatus_Success, d1)"
    "i2c_master_code soc d1 = (I2C_STAT_MSTCODE_RXREADY, d2)" "reg_read soc I_MSTDAT d2 = (v, d3)" "ucast v = answer p w"
    and d3: "dev_at bus d3 ?w I2C_STAT_MSTCODE_RXREADY" by (rule read_byte_at [OF p 0(1)])
  obtain d4 where "I2C_PendingStatusWait soc (reg_write soc I_MSTCTL (imask soc MSTCTL_MSTSTOP) d3) = Some (kStatus_Success, d4)"
    "dev_at bus d4 (?w @ [W_Stop]) I2C_STAT_MSTCODE_IDLE" by (rule wait_at [OF p stop_command [OF p d3]])
  moreover have "bs = [answer p w]" "w4 = ?w" using 0(2) by (simp_all add: Let_def)
  ultimately show ?case using flg r(1-3) by (simp add: fun_upd_def r(4) cong: if_cong)
next
  case (Suc n d w buf ram bs)
  let ?w = "w @ [W_Recv (answer p w)]"
  have e: "i2c_engine soc p bus" using p by (simp add: polling_def)
  obtain d1 d2 v d3 where r: "I2C_PendingStatusWait soc d = Some (kStatus_Success, d1)"
    "i2c_master_code soc d1 = (I2C_STAT_MSTCODE_RXREADY, d2)" "reg_read soc I_MSTDAT d2 = (v, d3)" "ucast v = answer p w"
    and d3: "dev_at bus d3 ?w I2C_STAT_MSTCODE_RXREADY" by (rule read_byte_at [OF p Suc.prems(1)])
  let ?d4 = "reg_write soc I_MSTCTL (imask soc MSTCTL_MSTCONTINUE) d3"
  have d4: "dev_at bus ?d4 (?w @ [W_Recv (answer p ?w)]) I2C_STAT_MSTCODE_RXREADY"
    using continue_receives [OF e, of d3] d3 by (simp add: dev_at_def)
  obtain cs where c: "wire_recv p ?w (Suc n) = (cs, w4)" and b: "bs = answer p w # cs"
    using Suc.prems(2) by (simp only: wire_recv.simps(2) [of p w "Suc n"]) (auto simp: Let_def split: prod.splits)
  have "i2c_read_loop soc flg buf (Suc (Suc n)) (ram, d) = i2c_read_loop soc flg (buf + 1) (Suc n) (ram(buf := answer p w), ?d4)"
    using r by (subst i2c_read_loop.simps(2)) (simp del: i2c_read_loop.simps(2))
  with Suc.IH [OF d4 c, of "buf + 1" "ram(buf := answer p w)"] show ?case by (simp add: b fun_upd_def del: i2c_read_loop.simps(2))
qed

subsection \<open>The whole transfer\<close>

definition i2c_finish :: "'d i2c_soc \<Rightarrow> i2c_master_transfer \<Rightarrow> mem \<times> 'd \<Rightarrow> (status \<times> mem \<times> 'd) option" where
  "i2c_finish soc x rd = do {
     (res, ram, d) \<leftarrow> i2c_data_phase soc x rd;
     if res = kStatus_I2C_Nak then do {
       (_, d) \<leftarrow> I2C_MasterStop soc d;
       Some (res, ram, d)
     } else Some (res, ram, d)
   }"

lemma blocking_unfold:
  defines "d0 \<equiv> \<lambda>soc d. I2C_SlaveEnable soc False (I2C_MasterEnable soc True d)"
  shows "i2c_address_phase soc x (d0 soc d) = Some (True, res, d1) \<Longrightarrow> I2C_MasterTransferBlocking soc x (ram, d) = Some (res, ram, d1)"
    "i2c_address_phase soc x (d0 soc d) = Some (False, kStatus_Success, d1) \<Longrightarrow>
       I2C_MasterTransferBlocking soc x (ram, d) = i2c_finish soc x (ram, d1)"
  unfolding d0_def by (simp_all add: I2C_MasterTransferBlocking_def i2c_finish_def)

text \<open>A refused subaddress or data byte makes the polling transfer stop the bus a second time.\<close>

definition second_stop :: "status \<Rightarrow> wire list \<Rightarrow> wire list" where
  "second_stop st w =
     (if st = kStatus_Success then [] else case last (butlast w) of W_Send _ \<Rightarrow> [W_Stop] | _ \<Rightarrow> [])"

lemma wire_send_refused: "wire_send p w bs = (False, w') \<Longrightarrow> \<exists>b. last w' = W_Send b"
  by (induction p w bs rule: wire_send.induct) (auto simp: Let_def split: if_splits)

lemma nak_not_success [simp]: "kStatus_I2C_Nak \<noteq> kStatus_Success" "kStatus_Success \<noteq> kStatus_I2C_Nak"
  "kStatus_I2C_Addr_Nak \<noteq> kStatus_Success" "kStatus_Success \<noteq> kStatus_I2C_Addr_Nak" "kStatus_I2C_Addr_Nak \<noteq> kStatus_I2C_Nak"
  by (simp_all add: i2c_status_defs)

lemma finish_write_at:
  assumes p: "polling soc p bus" and a: "dev_at bus d w I2C_STAT_MSTCODE_TXREADY" and x: "plain_transfer x" "xfer_direction x = kI2C_Write"
    and w: "wire_data (IGNORE_LAST_NACK soc) p (mem_bytes ram (xfer_data x) (unat (xfer_dataSize x))) w = (st, w3, bs)"
  shows "\<exists>d'. i2c_finish soc x (ram, d) = Some (st, mem_write ram (xfer_data x) bs, d') \<and>
    dev_at bus d' (w3 @ second_stop st w3) I2C_STAT_MSTCODE_IDLE"
proof -
  let ?bytes = "mem_bytes ram (xfer_data x) (unat (xfer_dataSize x))"
  obtain ok w' where s: "wire_send p w ?bytes = (ok, w')" by fastforce
  have x': "xfer_dataSize x \<noteq> 0" "xfer_data x \<noteq> 0" "xfer_flags x AND kI2C_TransferNoStopFlag = 0"
    using x by (auto simp: plain_transfer_def span_def unat_eq_zero)
  let ?good = "ok \<or> IGNORE_LAST_NACK soc \<and> length w' = length w + length ?bytes"
  have st: "st = (if ?good then kStatus_Success else kStatus_I2C_Nak)" "w3 = w' @ [W_Stop]" "bs = []"
    using w unfolding wire_data_def s by simp_all
  obtain d1 where d1: "I2C_MasterWriteBlocking soc ?bytes (xfer_flags x) d = Some (st, d1)" "dev_at bus d1 w3 I2C_STAT_MSTCODE_IDLE"
    using write_blocking_at [OF p a s, of "xfer_flags x"] x'(3) unfolding st by (cases ?good) auto
  have ph: "i2c_data_phase soc x (ram, d) = Some (st, ram, d1)"
    using x' x(2) d1(1) by (simp add: i2c_data_phase_def word_gt_0)
  show ?thesis
  proof (cases ?good)
    case True
    then show ?thesis using ph d1(2) by (simp add: i2c_finish_def st second_stop_def)
  next
    case False
    then obtain b where b: "last w' = W_Send b" using wire_send_refused [of p w ?bytes w'] s by (cases ok) auto
    obtain d2 where d2: "I2C_MasterStop soc d1 = Some (kStatus_Success, d2)" "dev_at bus d2 (w3 @ [W_Stop]) I2C_STAT_MSTCODE_IDLE"
      by (rule stop_at [OF p d1(2)])
    have s2: "st = kStatus_I2C_Nak" "second_stop st w3 = [W_Stop]" using False b by (simp_all add: st(1,2) second_stop_def)
    show ?thesis using ph d2 s2 by (simp add: i2c_finish_def st(3))
  qed
qed

lemma finish_read_at:
  assumes p: "polling soc p bus" and a: "dev_at bus d (w @ [W_Recv (answer p w)]) I2C_STAT_MSTCODE_RXREADY"
    and x: "plain_transfer x" "xfer_direction x = kI2C_Read" and w: "wire_read p x w = (st, w3, bs)"
  shows "\<exists>d'. i2c_finish soc x (ram, d) = Some (st, mem_write ram (xfer_data x) bs, d') \<and>
    dev_at bus d' (w3 @ second_stop st w3) I2C_STAT_MSTCODE_IDLE"
proof -
  obtain n where n: "unat (xfer_dataSize x) = Suc n"
    using x unat_minus_1 [of "xfer_dataSize x"] by (auto simp: plain_transfer_def)
  obtain w4 where r: "wire_recv p w (Suc n) = (bs, w4)" and st: "st = kStatus_Success" "w3 = w4 @ [W_Stop]"
    using w by (auto simp: wire_read_def n split: prod.splits)
  have x': "xfer_dataSize x \<noteq> 0" "xfer_data x \<noteq> 0" "xfer_flags x AND kI2C_TransferNoStopFlag = 0"
    using x by (auto simp: plain_transfer_def span_def unat_eq_zero)
  obtain d1 where "i2c_read_loop soc (xfer_flags x) (xfer_data x) (Suc n) (ram, d) = Some (kStatus_Success, mem_write ram (xfer_data x) bs, d1)"
    "dev_at bus d1 w3 I2C_STAT_MSTCODE_IDLE"
    using read_loop_at [OF p x'(3) a r, of "xfer_data x" ram] st(2) by auto
  then show ?thesis using x' x(2) st(1)
    by (simp add: i2c_finish_def i2c_data_phase_def I2C_MasterReadBlocking_def n word_gt_0 second_stop_def del: i2c_read_loop.simps)
qed

text \<open>A start in the direction of the transfer, its response and the data.\<close>

definition i2c_open :: "'d i2c_soc \<Rightarrow> i2c_master_transfer \<Rightarrow> 'd \<Rightarrow> (bool \<times> status \<times> 'd) option" where
  "i2c_open soc x d = do {
     (res, d) \<leftarrow> I2C_MasterStart soc (slaveAddress x) (xfer_direction x) d;
     if res = kStatus_Success then do {
       (res, d) \<leftarrow> I2C_MasterCheckStartResponse soc d;
       Some (res \<noteq> kStatus_Success, res, d)
     } else Some (False, res, d)
   }"

lemma open_at:
  assumes p: "polling soc p bus" and a: "dev_at bus d w c" and x: "plain_transfer x"
    and w: "wire_start (IGNORE_LAST_NACK soc) p x (mem_bytes ram (xfer_data x) (unat (xfer_dataSize x))) w = (st, w3, bs)"
  obtains (refused) d' where "i2c_open soc x d = Some (True, st, d')" "dev_at bus d' w3 I2C_STAT_MSTCODE_IDLE" "bs = []" "second_stop st w3 = []"
  | (data) d1 d' where "i2c_open soc x d = Some (False, kStatus_Success, d1)"
      "i2c_finish soc x (ram, d1) = Some (st, mem_write ram (xfer_data x) bs, d')" "dev_at bus d' (w3 @ second_stop st w3) I2C_STAT_MSTCODE_IDLE"
proof -
  let ?w = "w @ [W_Start (addr_byte (slaveAddress x) (xfer_direction x))]"
  obtain w' c' where s: "started p w (slaveAddress x) (xfer_direction x) = (w', c')" by fastforce
  obtain d1 where d1: "I2C_MasterStart soc (slaveAddress x) (xfer_direction x) d = Some (kStatus_Success, d1)" "dev_at bus d1 w' c'"
    by (rule start_at [OF p a s])
  obtain d2 where d2: "I2C_MasterCheckStartResponse soc d1 =
      Some (if c' = I2C_STAT_MSTCODE_NACKADR then kStatus_I2C_Addr_Nak else kStatus_Success, d2)"
    "if c' = I2C_STAT_MSTCODE_NACKADR then dev_at bus d2 (w' @ [W_Stop]) I2C_STAT_MSTCODE_IDLE else dev_at bus d2 w' c'"
    by (rule response_at [OF p d1(2)])
  show ?thesis
  proof (cases "acks p ?w")
    case False
    then have "w' = ?w" "c' = I2C_STAT_MSTCODE_NACKADR" using s by (simp_all add: started_def Let_def)
    with False d1 d2 w show ?thesis by (intro refused [of d2]) (auto simp: i2c_open_def wire_start_def second_stop_def butlast_append)
  next
    case ok: True
    show ?thesis
    proof (cases "xfer_direction x")
      case kI2C_Write
      then have c: "w' = ?w" "c' = I2C_STAT_MSTCODE_TXREADY" using s ok by (simp_all add: started_def Let_def)
      then have d3: "dev_at bus d2 ?w I2C_STAT_MSTCODE_TXREADY" "i2c_open soc x d = Some (False, kStatus_Success, d2)"
        using d1 d2 by (simp_all add: i2c_open_def i2c_code_defs)
      from finish_write_at [OF p d3(1) x kI2C_Write, of ram st w3 bs] d3(2) ok w kI2C_Write data show ?thesis by (auto simp: wire_start_def)
    next
      case kI2C_Read
      then have c: "w' = ?w @ [W_Recv (answer p ?w)]" "c' = I2C_STAT_MSTCODE_RXREADY" using s ok by (simp_all add: started_def Let_def)
      then have d3: "dev_at bus d2 (?w @ [W_Recv (answer p ?w)]) I2C_STAT_MSTCODE_RXREADY" "i2c_open soc x d = Some (False, kStatus_Success, d2)"
        using d1 d2 by (simp_all add: i2c_open_def i2c_code_defs)
      from finish_read_at [OF p d3(1) x kI2C_Read, of st w3 bs ram] d3(2) ok w kI2C_Read data show ?thesis by (auto simp: wire_start_def)
    qed
  qed
qed

lemma sub_write_at:
  assumes p: "polling soc p bus" and a: "dev_at bus d w I2C_STAT_MSTCODE_TXREADY" and n: "unat (subaddressSize x) \<le> 4"
    and s: "wire_send p w (sub_bytes x) = (ok, w2)" and g: "IGNORE_LAST_NACK soc \<Longrightarrow> ok"
  obtains d' where "I2C_MasterWriteBlocking soc
      (take (unat (subaddressSize x)) (i2c_fill_subaddr (unat (subaddressSize x)) (subaddress x) (replicate 4 0))) kI2C_TransferNoStopFlag d =
      Some (if ok then kStatus_Success else kStatus_I2C_Nak, d')"
    "if ok then dev_at bus d' w2 I2C_STAT_MSTCODE_TXREADY else dev_at bus d' (w2 @ [W_Stop]) I2C_STAT_MSTCODE_IDLE"
proof -
  have "take (unat (subaddressSize x)) (i2c_fill_subaddr (unat (subaddressSize x)) (subaddress x) (replicate 4 0)) = sub_bytes x"
    using fill_subaddr_bytes [of "unat (subaddressSize x)" "replicate 4 0" "subaddress x"] n by (simp add: sub_bytes_def)
  moreover obtain d' where "if ok \<or> IGNORE_LAST_NACK soc \<and> length w2 = length w + length (sub_bytes x)
     then I2C_MasterWriteBlocking soc (sub_bytes x) kI2C_TransferNoStopFlag d = Some (kStatus_Success, d') \<and>
       (if kI2C_TransferNoStopFlag AND kI2C_TransferNoStopFlag = 0 then dev_at bus d' (w2 @ [W_Stop]) I2C_STAT_MSTCODE_IDLE else dev_at bus d' w2 (write_code ok))
     else I2C_MasterWriteBlocking soc (sub_bytes x) kI2C_TransferNoStopFlag d = Some (kStatus_I2C_Nak, d') \<and> dev_at bus d' (w2 @ [W_Stop]) I2C_STAT_MSTCODE_IDLE"
    using write_blocking_at [OF p a s, of kI2C_TransferNoStopFlag] by blast
  ultimately show ?thesis using that g by (cases ok) (auto simp: kI2C_TransferNoStopFlag_def write_code_def split: if_splits)
qed

lemma address_phase_open:
  "plain_transfer x \<Longrightarrow> subaddressSize x = 0 \<Longrightarrow> i2c_address_phase soc x d = i2c_open soc x d"
  by (auto simp: plain_transfer_def i2c_address_phase_def i2c_open_def split: bind_splits)

lemma send_subaddr_at:
  assumes p: "polling soc p bus" and a: "dev_at bus d w I2C_STAT_MSTCODE_TXREADY" and x: "plain_transfer x"
    and r: "wire_sub (IGNORE_LAST_NACK soc) p x (mem_bytes ram (xfer_data x) (unat (xfer_dataSize x))) (sub_bytes x) w = (st, w3, bs)"
    and s: "wire_send p w (sub_bytes x) = (ok, w2)" and g: "IGNORE_LAST_NACK soc \<Longrightarrow> ok"
  obtains (returns) d' where "i2c_send_subaddr soc x d = Some (True, st, d')" "dev_at bus d' (w3 @ second_stop st w3) I2C_STAT_MSTCODE_IDLE" "bs = []"
  | (data) d1 d' where "i2c_send_subaddr soc x d = Some (False, kStatus_Success, d1)"
      "i2c_finish soc x (ram, d1) = Some (st, mem_write ram (xfer_data x) bs, d')" "dev_at bus d' (w3 @ second_stop st w3) I2C_STAT_MSTCODE_IDLE"
proof -
  have x': "subaddressSize x \<le> 4" "unat (subaddressSize x) \<le> 4" using x by (simp_all add: plain_transfer_def word_le_nat_alt)
  obtain d3 where d3: "I2C_MasterWriteBlocking soc
      (take (unat (subaddressSize x)) (i2c_fill_subaddr (unat (subaddressSize x)) (subaddress x) (replicate 4 0))) kI2C_TransferNoStopFlag d =
      Some (if ok then kStatus_Success else kStatus_I2C_Nak, d3)"
    "if ok then dev_at bus d3 w2 I2C_STAT_MSTCODE_TXREADY else dev_at bus d3 (w2 @ [W_Stop]) I2C_STAT_MSTCODE_IDLE"
    by (rule sub_write_at [OF p a x'(2) s g])
  show ?thesis
  proof (cases ok)
    case False
    then obtain b where b: "last w2 = W_Send b" using wire_send_refused [of p w "sub_bytes x" w2] s by auto
    from False d3(2) have "dev_at bus d3 (w2 @ [W_Stop]) I2C_STAT_MSTCODE_IDLE" by simp
    then obtain d4 where d4: "I2C_MasterStop soc d3 = Some (kStatus_Success, d4)" "dev_at bus d4 ((w2 @ [W_Stop]) @ [W_Stop]) I2C_STAT_MSTCODE_IDLE"
      by (rule stop_at [OF p])
    have e: "st = kStatus_I2C_Addr_Nak" "w3 = w2 @ [W_Stop]" "bs = []" using r s False by (simp_all add: wire_sub_def)
    then have "second_stop st w3 = [W_Stop]" using b by (simp add: second_stop_def)
    with d3(1) d4 e x' False show ?thesis by (intro returns [of d4]) (simp_all add: i2c_send_subaddr_def)
  next
    case True
    then have d3': "dev_at bus d3 w2 I2C_STAT_MSTCODE_TXREADY" using d3(2) by simp
    show ?thesis
    proof (cases "xfer_direction x")
      case kI2C_Write
      then have "i2c_send_subaddr soc x d = Some (False, kStatus_Success, d3)" using d3(1) True x' by (simp add: i2c_send_subaddr_def)
      with finish_write_at [OF p d3' x kI2C_Write, of ram st w3 bs] r s True kI2C_Write data show ?thesis by (auto simp: wire_sub_def)
    next
      case kI2C_Read
      then have o: "i2c_send_subaddr soc x d = i2c_open soc x d3"
        using d3(1) True x' by (simp add: i2c_send_subaddr_def i2c_open_def I2C_MasterRepeatedStart_def)
      have "wire_start (IGNORE_LAST_NACK soc) p x (mem_bytes ram (xfer_data x) (unat (xfer_dataSize x))) w2 = (st, w3, bs)"
        using r s True kI2C_Read by (simp add: wire_sub_def)
      then show ?thesis by (rule open_at [OF p d3' x]) (use o returns data in auto)
    qed
  qed
qed

lemma address_phase_sub:
  assumes p: "polling soc p bus" and a: "dev_at bus d w c" and x: "plain_transfer x" "subaddressSize x \<noteq> 0"
    and r: "wire_transfer (IGNORE_LAST_NACK soc) p x (mem_bytes ram (xfer_data x) (unat (xfer_dataSize x))) w = (st, w3, bs)"
    and s: "wire_send p (w @ [W_Start (addr_byte (slaveAddress x) kI2C_Write)]) (sub_bytes x) = (ok, w2)"
    and g: "IGNORE_LAST_NACK soc \<Longrightarrow> ok"
  obtains (returns) d' where "i2c_address_phase soc x d = Some (True, st, d')" "dev_at bus d' (w3 @ second_stop st w3) I2C_STAT_MSTCODE_IDLE" "bs = []"
  | (data) d1 d' where "i2c_address_phase soc x d = Some (False, kStatus_Success, d1)"
      "i2c_finish soc x (ram, d1) = Some (st, mem_write ram (xfer_data x) bs, d')" "dev_at bus d' (w3 @ second_stop st w3) I2C_STAT_MSTCODE_IDLE"
proof -
  let ?w = "w @ [W_Start (addr_byte (slaveAddress x) kI2C_Write)]"
  have x': "xfer_flags x AND kI2C_TransferNoStartFlag = 0" using x(1) by (simp add: plain_transfer_def)
  obtain w' c' where st: "started p w (slaveAddress x) kI2C_Write = (w', c')" by fastforce
  obtain d1 where d1: "I2C_MasterStart soc (slaveAddress x) kI2C_Write d = Some (kStatus_Success, d1)" "dev_at bus d1 w' c'"
    by (rule start_at [OF p a st])
  obtain d2 where d2: "I2C_MasterCheckStartResponse soc d1 =
      Some (if c' = I2C_STAT_MSTCODE_NACKADR then kStatus_I2C_Addr_Nak else kStatus_Success, d2)"
    "if c' = I2C_STAT_MSTCODE_NACKADR then dev_at bus d2 (w' @ [W_Stop]) I2C_STAT_MSTCODE_IDLE else dev_at bus d2 w' c'"
    by (rule response_at [OF p d1(2)])
  show ?thesis
  proof (cases "acks p ?w")
    case False
    then have "w' = ?w" "c' = I2C_STAT_MSTCODE_NACKADR" using st by (simp_all add: started_def Let_def)
    with False d1 d2 r x' x(2) show ?thesis
      by (intro returns [of d2]) (auto simp: i2c_address_phase_def wire_transfer_def second_stop_def butlast_append)
  next
    case acked: True
    then have c: "w' = ?w" "c' = I2C_STAT_MSTCODE_TXREADY" using st by (simp_all add: started_def Let_def)
    then have d2': "dev_at bus d2 ?w I2C_STAT_MSTCODE_TXREADY" using d2(2) by (simp add: i2c_code_defs)
    have ph: "i2c_address_phase soc x d = i2c_send_subaddr soc x d2"
      using x' x(2) d1(1) d2(1) c(2) by (simp add: i2c_address_phase_def i2c_code_defs)
    have "wire_sub (IGNORE_LAST_NACK soc) p x (mem_bytes ram (xfer_data x) (unat (xfer_dataSize x))) (sub_bytes x) ?w = (st, w3, bs)"
      using r x(2) acked by (simp add: wire_transfer_def wire_sub_def)
    from d2' x(1) this s g show ?thesis by (rule send_subaddr_at [OF p]) (use ph returns data in auto)
  qed
qed

lemma blocking_core:
  assumes p: "polling soc p bus" and a: "dev_at bus d w c" and x: "plain_transfer x"
    and r: "wire_transfer (IGNORE_LAST_NACK soc) p x (mem_bytes ram (xfer_data x) (unat (xfer_dataSize x))) w = (st, w3, bs)"
    and g: "IGNORE_LAST_NACK soc \<Longrightarrow> fst (wire_send p (w @ [W_Start (addr_byte (slaveAddress x) kI2C_Write)]) (sub_bytes x))"
  shows "\<exists>d'. I2C_MasterTransferBlocking soc x (ram, d) = Some (st, mem_write ram (xfer_data x) bs, d') \<and>
    dev_at bus d' (w3 @ second_stop st w3) I2C_STAT_MSTCODE_IDLE"
proof -
  let ?d = "I2C_SlaveEnable soc False (I2C_MasterEnable soc True d)"
  obtain v where "bus ?d = (bus d)\<lparr>ib_cfg := v\<rparr>" using enables_quiet [of soc p bus d] p by (auto simp: polling_def)
  with a have d: "dev_at bus ?d w c" by (simp add: dev_at_def)
  show ?thesis
  proof (cases "subaddressSize x = 0")
    case True
    have "wire_start (IGNORE_LAST_NACK soc) p x (mem_bytes ram (xfer_data x) (unat (xfer_dataSize x))) w = (st, w3, bs)"
      using r True by (simp add: wire_transfer_def)
    then show ?thesis
      by (rule open_at [OF p d x]) (auto simp: address_phase_open [OF x True] blocking_unfold)
  next
    case False
    obtain ok w2 where s: "wire_send p (w @ [W_Start (addr_byte (slaveAddress x) kI2C_Write)]) (sub_bytes x) = (ok, w2)" by fastforce
    show ?thesis
      by (rule address_phase_sub [OF p d x False r s]) (use g s in \<open>auto simp: blocking_unfold\<close>)
  qed
qed

text \<open>C6: The polling and the non-blocking transfer agree. From the same idle bus and the same RAM,
  \<open>I2C_MasterTransferBlocking\<close> returns, with the status that the interrupts of
  \<open>I2C_MasterTransferNonBlocking\<close> report to the callback, and leaves the same RAM and the same wire, for
  every transfer with start and stop and for every partner that acknowledges any of the bytes or
  refuses them. The one difference: when a byte of the subaddress or of the data was refused, the
  polling transfer stops the bus twice. Where the last refusal is ignored, the subaddress has to be
  acknowledged: the polling transfer then goes on after a refused subaddress.
\<close>

theorem i2c_blocking_agrees:
  assumes "i2c_engine soc p bus" "I2C_RETRY_TIMES soc = 0" "settles settle bus" "handle \<noteq> 0" "plain_transfer x"
    and "mstate (im_handle s) = kIdleState" "length (subaddrBuf (im_handle s)) = 4" "ib_code (bus (im_dev s)) = I2C_STAT_MSTCODE_IDLE"
    and "IGNORE_LAST_NACK soc \<Longrightarrow>
      fst (wire_send p (ib_wire (bus (im_dev s)) @ [W_Start (addr_byte (slaveAddress x) kI2C_Write)]) (sub_bytes x))"
  shows "\<exists>st ram d' s1 n s'.
    I2C_MasterTransferBlocking soc x (im_ram s, im_dev s) = Some (st, ram, d') \<and>
    I2C_MasterTransferNonBlocking soc x s = Some (kStatus_Success, s1) \<and>
    i2c_serve soc settle handle n s1 = i2c_callback soc st s' \<and> im_ram s' = ram \<and>
    ib_wire (bus d') = ib_wire (bus (im_dev s')) @ second_stop st (ib_wire (bus (im_dev s')))"
proof -
  obtain st w bs where r: "wire_transfer (IGNORE_LAST_NACK soc) p x (mem_bytes (im_ram s) (xfer_data x) (unat (xfer_dataSize x)))
      (ib_wire (bus (im_dev s))) = (st, w, bs)" by (rule prod_cases3)
  have p: "polling soc p bus" "i2c_setup soc p bus settle handle" using assms(1-4) by (simp_all add: polling_def i2c_setup_def)
  have a: "dev_at bus (im_dev s) (ib_wire (bus (im_dev s))) I2C_STAT_MSTCODE_IDLE" using assms(8) by (simp add: dev_at_def i2c_code_defs)
  from blocking_core [OF p(1) a assms(5) r assms(9)] obtain d' where
    "I2C_MasterTransferBlocking soc x (im_ram s, im_dev s) = Some (st, mem_write (im_ram s) (xfer_data x) bs, d')"
    "ib_wire (bus d') = w @ second_stop st w" by (auto simp: dev_at_def)
  with nonblocking_core [OF p(2) assms(5,6,8,7) r] show ?thesis by metis
qed

theorem i2c_blocking_agrees_witness:
  "\<exists>st ram d' s1 n s'.
    I2C_MasterTransferBlocking (eng_soc ex_partner) ex_transfer (im_ram ex_master, im_dev ex_master) = Some (st, ram, d') \<and>
    I2C_MasterTransferNonBlocking (eng_soc ex_partner) ex_transfer ex_master = Some (kStatus_Success, s1) \<and>
    i2c_serve (eng_soc ex_partner) eng_settle 0x20000000 n s1 = i2c_callback (eng_soc ex_partner) st s' \<and> im_ram s' = ram \<and>
    ib_wire (eng_norm d') = ib_wire (eng_norm (im_dev s')) @ second_stop st (ib_wire (eng_norm (im_dev s')))"
proof -
  have s: "mstate (im_handle ex_master) = kIdleState" "length (subaddrBuf (im_handle ex_master)) = 4"
    "ib_code (eng_norm (im_dev ex_master)) = I2C_STAT_MSTCODE_IDLE"
    by (simp_all add: ex_master_def ex_bus_def eng_norm_def I2C_STAT_MSTCODE_IDLE_def)
  note e = eng_setup [of ex_partner, unfolded i2c_setup_def]
  show ?thesis
    by (rule i2c_blocking_agrees [OF conjunct1 [OF e] _ conjunct1 [OF conjunct2 [OF e]] conjunct2 [OF conjunct2 [OF e]] ex_plain s]) simp_all
qed

end
