(* ===== verification/I2c_Inv.thy ===== *)
theory I2c_Inv
  imports I2c_Nonblocking
begin

text \<open>
  The life of an I2C master handle: a step relation over the transactional interface and the
  interrupt handler, and what holds of every reachable handle whatever the device does, timeouts,
  lost arbitration and unexpected states included.
\<close>

subsection \<open>Invariant\<close>

text \<open>A running transfer: the bytes moved and left, the position in the buffer, and what each state needs.\<close>

definition state_ok :: "i2c_master_handle \<Rightarrow> bool" where
  "state_ok h =
     (case mstate h of
        kTransmitSubaddrState \<Rightarrow> remainingSubaddr h \<noteq> 0
      | kTransmitDataState \<Rightarrow> remainingBytes h \<noteq> 0 \<and> xfer_direction (mtransfer h) = kI2C_Write
      | kReceiveDataBeginState \<Rightarrow> remainingBytes h \<noteq> 0 \<and> xfer_direction (mtransfer h) = kI2C_Read
      | kReceiveDataState \<Rightarrow> remainingBytes h \<noteq> 0 \<and> xfer_direction (mtransfer h) = kI2C_Read
      | kReceiveLastDataState \<Rightarrow> False
      | kStopState \<Rightarrow> remainingBytes h = 0
      | kWaitForCompletionState \<Rightarrow> remainingBytes h = 0
      | _ \<Rightarrow> True)"

definition progress_ok :: "i2c_master_handle \<Rightarrow> bool" where
  "progress_ok h \<longleftrightarrow>
     unat (transferCount h) + unat (remainingBytes h) = unat (xfer_dataSize (mtransfer h)) \<and>
     mbuf h = xfer_data (mtransfer h) + transferCount h \<and>
     span (xfer_data (mtransfer h)) (unat (xfer_dataSize (mtransfer h))) \<and>
     remainingSubaddr h \<le> subaddressSize (mtransfer h) \<and> subaddressSize (mtransfer h) \<le> 4"

definition im_ok :: "i2c_master_handle \<Rightarrow> bool" where
  "im_ok h \<longleftrightarrow> length (subaddrBuf h) = 4 \<and> (mstate h \<noteq> kIdleState \<longrightarrow> progress_ok h \<and> state_ok h)"

lemma state_ok_simps [simp]:
  "state_ok (h\<lparr>checkAddrNack := b\<rparr>) = state_ok h" "state_ok (h\<lparr>transferCount := n\<rparr>) = state_ok h" "state_ok (h\<lparr>mbuf := a\<rparr>) = state_ok h"
  "progress_ok (h\<lparr>checkAddrNack := b\<rparr>) = progress_ok h" "progress_ok (h\<lparr>mstate := st\<rparr>) = progress_ok h"
  by (simp_all add: state_ok_def progress_ok_def cong: i2c_transfer_state.case_cong)

lemma progress_buffer:
  assumes "progress_ok h" "remainingBytes h \<noteq> 0"
  shows "mbuf h \<noteq> 0" "\<exists>i < unat (xfer_dataSize (mtransfer h)). mbuf h = xfer_data (mtransfer h) + of_nat i"
proof -
  have r: "unat (transferCount h) < unat (xfer_dataSize (mtransfer h))"
    using assms unat_gt_0 [of "remainingBytes h"] by (auto simp: progress_ok_def)
  then have s: "xfer_data (mtransfer h) \<noteq> 0" "unat (xfer_data (mtransfer h)) + unat (xfer_dataSize (mtransfer h)) \<le> 2 ^ 32"
    using assms(1) by (auto simp: progress_ok_def span_def)
  then have "unat (xfer_data (mtransfer h)) + unat (transferCount h) < 2 ^ 32" using r by linarith
  then have "unat (mbuf h) = unat (xfer_data (mtransfer h)) + unat (transferCount h)"
    using assms(1) unat_plus_small [of "xfer_data (mtransfer h)" "transferCount h"] by (simp add: progress_ok_def)
  moreover have "unat (xfer_data (mtransfer h)) \<noteq> 0" using s(1) by (simp add: unat_eq_zero)
  ultimately show "mbuf h \<noteq> 0" by (metis add_is_0 unat_0)
  show "\<exists>i < unat (xfer_dataSize (mtransfer h)). mbuf h = xfer_data (mtransfer h) + of_nat i"
    using r assms(1) by (intro exI [of _ "unat (transferCount h)"]) (simp add: progress_ok_def)
qed

lemma progress_step:
  assumes "progress_ok h" "remainingBytes h \<noteq> 0"
  shows "progress_ok (h\<lparr>mbuf := mbuf h + 1, remainingBytes := remainingBytes h - 1, transferCount := transferCount h + 1\<rparr>)"
proof -
  have u: "unat (remainingBytes h) = Suc (unat (remainingBytes h - 1))" by (rule unat_minus_1 [OF assms(2)])
  then have "unat (transferCount h) + unat (1 :: u32) < 2 ^ 32"
    using assms(1) unsigned_less [of "xfer_dataSize (mtransfer h)", where ?'a = nat] by (simp add: progress_ok_def)
  then have "unat (transferCount h + 1) = Suc (unat (transferCount h))" using unat_plus_small [of "transferCount h" 1] by simp
  with u assms(1) show ?thesis by (simp add: progress_ok_def)
qed

subsection \<open>One step of the state machine\<close>

text \<open>
  What a step may do: it returns, keeps the transfer and the subaddress buffer, leaves the callback
  alone, writes the RAM only inside the buffer of a read, and a step that neither fails nor completes
  leaves a running transfer.
\<close>

definition ram_kept :: "i2c_master_transfer \<Rightarrow> mem \<Rightarrow> mem \<Rightarrow> bool" where
  "ram_kept x m m' \<longleftrightarrow>
     (\<forall>a. (\<forall>i < unat (xfer_dataSize x). a \<noteq> xfer_data x + of_nat i) \<or> xfer_direction x = kI2C_Write \<longrightarrow> m' a = m a)"

definition step_ok :: "'d i2c_master \<Rightarrow> (status \<times> bool \<times> 'd i2c_master) option \<Rightarrow> bool" where
  "step_ok s r =
     (case r of None \<Rightarrow> False
      | Some (res, isDone, s') \<Rightarrow>
          subaddrBuf (im_handle s') = subaddrBuf (im_handle s) \<and> mtransfer (im_handle s') = mtransfer (im_handle s) \<and>
          ram_kept (mtransfer (im_handle s)) (im_ram s) (im_ram s') \<and>
          (res = kStatus_Success \<and> \<not> isDone \<longrightarrow> progress_ok (im_handle s') \<and> state_ok (im_handle s') \<and> mstate (im_handle s') \<noteq> kIdleState))"

lemma ram_kept_refl [simp]: "ram_kept x m m"
  by (simp add: ram_kept_def)

lemma unexpected_fails [simp]: "kStatus_I2C_UnexpectedState \<noteq> kStatus_Success"
  by (simp add: i2c_status_defs)

lemma step_ok_simps [simp]:
  "step_ok (s\<lparr>im_dev := d\<rparr>) r = step_ok s r" "step_ok s (Some (kStatus_I2C_UnexpectedState, b, s))"
  "step_ok s (Some (kStatus_Success, True, on_imh (\<lambda>h. h\<lparr>mstate := st\<rparr>) s))"
  by (cases r; simp add: step_ok_def)+

lemma start_ok:
  assumes "progress_ok (im_handle s)"
  shows "step_ok s (i2c_start_state soc s)"
  using assms unfolding i2c_start_state_def
  by (cases "xfer_direction (mtransfer (im_handle s))") (auto simp: step_ok_def Let_def state_ok_def)

lemma subaddr_ok:
  assumes "progress_ok (im_handle s)" "remainingSubaddr (im_handle s) \<noteq> 0" "length (subaddrBuf (im_handle s)) = 4"
    "mstate (im_handle s) = kTransmitSubaddrState"
  shows "step_ok s (i2c_subaddr_state soc c s)"
proof -
  let ?h = "im_handle s"
  have le: "unat (remainingSubaddr ?h) \<le> unat (subaddressSize (mtransfer ?h))" "unat (subaddressSize (mtransfer ?h)) \<le> 4"
    using assms(1) by (auto simp: progress_ok_def word_le_nat_alt)
  have n: "unat (remainingSubaddr ?h) = Suc (unat (remainingSubaddr ?h - 1))" by (rule unat_minus_1 [OF assms(2)])
  have i: "unat (subaddressSize (mtransfer ?h) - remainingSubaddr ?h) < 4"
    using le n unat_minus_small [OF le(1)] by simp
  have p: "progress_ok (?h\<lparr>remainingSubaddr := remainingSubaddr ?h - 1\<rparr>)"
    using assms(1) le n by (simp add: progress_ok_def word_le_nat_alt)
  show ?thesis
  proof (cases "c = I2C_STAT_MSTCODE_TXREADY")
    case True
    with i p assms(3,4) show ?thesis
      by (cases "xfer_direction (mtransfer ?h)") (auto simp: i2c_subaddr_state_def step_ok_def Let_def state_ok_def)
  qed (simp add: i2c_subaddr_state_def step_ok_def)
qed

lemma transmit_ok:
  assumes "progress_ok (im_handle s)" "remainingBytes (im_handle s) \<noteq> 0" "xfer_direction (mtransfer (im_handle s)) = kI2C_Write"
    "mstate (im_handle s) = kTransmitDataState"
  shows "step_ok s (i2c_transmit_state soc c s)"
proof (cases "c = I2C_STAT_MSTCODE_TXREADY")
  case True
  have "progress_ok (h\<lparr>mbuf := mbuf h + 1, remainingBytes := remainingBytes h - 1, mstate := st, transferCount := transferCount h + 1\<rparr>)"
    if "h = im_handle s\<lparr>checkAddrNack := False\<rparr>" for h st
    using progress_step [of h] assms(1,2) that by (simp add: progress_ok_def)
  then show ?thesis using True progress_buffer(1) [OF assms(1,2)] progress_step [OF assms(1,2)] assms(3,4)
    by (auto simp: i2c_transmit_state_def step_ok_def Let_def state_ok_def progress_ok_def)
qed (simp add: i2c_transmit_state_def step_ok_def)

lemma receive_begin_ok:
  assumes "progress_ok (im_handle s)" "remainingBytes (im_handle s) \<noteq> 0" "xfer_direction (mtransfer (im_handle s)) = kI2C_Read"
  shows "step_ok s (i2c_receive_begin_state soc c s)"
  using assms by (auto simp: i2c_receive_begin_state_def step_ok_def Let_def state_ok_def)

lemma receive_ok:
  assumes "progress_ok (im_handle s)" "remainingBytes (im_handle s) \<noteq> 0" "xfer_direction (mtransfer (im_handle s)) = kI2C_Read"
    "mstate (im_handle s) = kReceiveDataState"
  shows "step_ok s (i2c_receive_state soc c s)"
proof (cases "c = I2C_STAT_MSTCODE_RXREADY")
  case True
  note b = progress_buffer [OF assms(1,2)]
  have k: "ram_kept (mtransfer (im_handle s)) (im_ram s) ((im_ram s)(mbuf (im_handle s) := v))" for v
    using b(2) assms(3) by (auto simp: ram_kept_def)
  show ?thesis using True b(1) k progress_step [OF assms(1,2)] assms(3,4)
    by (auto simp: i2c_receive_state_def step_ok_def Let_def state_ok_def progress_ok_def case_prod_beta)
qed (simp add: i2c_receive_state_def step_ok_def)

lemma stop_ok:
  assumes "progress_ok (im_handle s)" "remainingBytes (im_handle s) = 0"
  shows "step_ok s (i2c_stop_state soc s)"
  using assms by (auto simp: i2c_stop_state_def step_ok_def Let_def state_ok_def)

lemma switch_ok:
  assumes "im_ok (im_handle s)"
  shows "step_ok s (i2c_switch soc c s)"
proof (cases "mstate (im_handle s)")
  case kTransmitSubaddrState
  with assms show ?thesis by (simp add: i2c_switch_def im_ok_def state_ok_def subaddr_ok)
next
  case kTransmitDataState
  with assms show ?thesis by (simp add: i2c_switch_def im_ok_def state_ok_def transmit_ok)
next
  case kReceiveDataState
  with assms show ?thesis by (simp add: i2c_switch_def im_ok_def state_ok_def receive_ok)
qed (use assms in \<open>simp_all add: i2c_switch_def im_ok_def state_ok_def start_ok receive_begin_ok stop_ok\<close>)

lemma machine_ok:
  assumes "im_ok (im_handle s)"
  shows "step_ok s (I2C_RunTransferStateMachine soc s)"
proof -
  obtain flg d where f: "I2C_GetStatusFlags soc (im_dev s) = (flg, d)" by fastforce
  show ?thesis
  proof (cases "i2c_master_errors soc flg d")
    case (Some e)
    then have "fst e \<noteq> kStatus_Success"
      by (auto simp: i2c_master_errors_def Let_def i2c_status_defs split: if_splits)
    with Some show ?thesis by (cases e) (simp add: I2C_RunTransferStateMachine_def f step_ok_def)
  next
    case None
    obtain c d2 where c: "i2c_master_code soc d = (c, d2)" by fastforce
    show ?thesis
    proof (cases "c = I2C_STAT_MSTCODE_NACKADR \<or> c = I2C_STAT_MSTCODE_NACKDAT \<and> \<not> i2c_ignore_nak soc (im_handle s)")
      case True
      then show ?thesis
        by (simp add: I2C_RunTransferStateMachine_def f None c Let_def step_ok_def i2c_status_defs)
    next
      case False
      have "I2C_RunTransferStateMachine soc s = i2c_switch soc c (s\<lparr>im_dev := d2\<rparr>)"
        using False by (auto simp: I2C_RunTransferStateMachine_def f None c Let_def)
      with switch_ok [of "s\<lparr>im_dev := d2\<rparr>" soc c] assms show ?thesis by simp
    qed
  qed
qed

subsection \<open>The life of a handle\<close>

text \<open>What a callback must not do: leave an inconsistent handle.\<close>

definition im_callback_ok :: "'d i2c_soc \<Rightarrow> bool" where
  "im_callback_ok soc \<longleftrightarrow>
     (\<forall>f st ud s s'. im_ok (im_handle s) \<and> i2c_invoke soc f st ud s = Some s' \<longrightarrow> im_ok (im_handle s'))"

text \<open>
  The steps. The buffer of a transfer does not start at the null pointer and does not wrap around;
  flags, direction, subaddress and size are arbitrary, a size of zero included.
\<close>

inductive i2c_reach :: "'d i2c_soc \<Rightarrow> 'd i2c_master \<Rightarrow> bool" for soc where
  create: "I2C_MasterTransferCreateHandle soc base handle cb ud s = Some s' \<Longrightarrow> i2c_reach soc s'"
| transfer: "i2c_reach soc s \<Longrightarrow> span (xfer_data x) (unat (xfer_dataSize x)) \<Longrightarrow>
    I2C_MasterTransferNonBlocking soc x s = Some (st, s') \<Longrightarrow> i2c_reach soc s'"
| abort: "i2c_reach soc s \<Longrightarrow> I2C_MasterTransferAbort soc s = Some (st, s') \<Longrightarrow> i2c_reach soc s'"
| irq: "i2c_reach soc s \<Longrightarrow> I2C_MasterTransferHandleIRQ soc handle s = Some s' \<Longrightarrow> i2c_reach soc s'"
| environment: "i2c_reach soc s \<Longrightarrow> im_handle s' = im_handle s \<Longrightarrow> i2c_reach soc s'"

lemma callback_keeps_im:
  "im_callback_ok soc \<Longrightarrow> im_ok (im_handle s) \<Longrightarrow> i2c_callback soc st s = Some s' \<Longrightarrow> im_ok (im_handle s')"
  unfolding im_callback_ok_def i2c_callback_def by (auto split: option.splits; blast)

lemma irq_keeps_im:
  assumes "im_callback_ok soc" "im_ok (im_handle s)" "I2C_MasterTransferHandleIRQ soc handle s = Some s'"
  shows "im_ok (im_handle s')"
proof (cases "handle = 0")
  case True
  with assms(2,3) show ?thesis by (simp add: I2C_MasterTransferHandleIRQ_def)
next
  case False
  obtain res dn s1 where r: "I2C_RunTransferStateMachine soc s = Some (res, dn, s1)"
    and o: "step_ok s (Some (res, dn, s1))"
    using machine_ok [OF assms(2), of soc] by (cases "I2C_RunTransferStateMachine soc s") (auto simp: step_ok_def)
  have l: "length (subaddrBuf (im_handle s1)) = 4" using o assms(2) by (simp add: step_ok_def im_ok_def)
  show ?thesis
  proof (cases "res \<noteq> kStatus_Success \<or> dn")
    case True
    let ?s = "on_imdev (I2C_DisableInterrupts soc (kI2C_MasterIrqFlags soc)) (on_imh (\<lambda>h. h\<lparr>mstate := kIdleState\<rparr>) s1)"
    have "i2c_callback soc res ?s = Some s'" using assms(3) True False by (simp add: I2C_MasterTransferHandleIRQ_def r Let_def)
    then show ?thesis by (rule callback_keeps_im [OF assms(1), rotated]) (simp add: im_ok_def l)
  next
    case go: False
    then have "s' = s1" using assms(3) False by (simp add: I2C_MasterTransferHandleIRQ_def r)
    with o go l show ?thesis by (simp add: step_ok_def im_ok_def)
  qed
qed

lemma init_keeps_im:
  assumes "length (subaddrBuf h) = 4" "span (xfer_data x) (unat (xfer_dataSize x))" "subaddressSize x \<le> 4"
    "I2C_InitTransferStateMachine x h = (st, h')"
  shows "im_ok h'"
proof -
  have n: "\<not> 4 < subaddressSize x" using assms(3) by simp
  show ?thesis using assms(1-3) n assms(4)
    by (cases "xfer_direction x")
       (auto simp: I2C_InitTransferStateMachine_def Let_def im_ok_def progress_ok_def state_ok_def split: if_splits)
qed

lemma transfer_keeps_im:
  assumes "im_ok (im_handle s)" "span (xfer_data x) (unat (xfer_dataSize x))"
    "I2C_MasterTransferNonBlocking soc x s = Some (st, s')"
  shows "im_ok (im_handle s')"
proof -
  have x: "subaddressSize x \<le> 4" using assms(3) by (simp add: I2C_MasterTransferNonBlocking_def c_assert_def split: if_splits)
  obtain r h where i: "I2C_InitTransferStateMachine x (im_handle s) = (r, h)" by fastforce
  have "im_handle s' = h \<or> s' = s"
    using assms(3) x i by (auto simp: I2C_MasterTransferNonBlocking_def Let_def split: if_splits)
  then show ?thesis using init_keeps_im [OF _ assms(2) x i] assms(1) by (auto simp: im_ok_def)
qed

lemma abort_idles:
  assumes "I2C_MasterTransferAbort soc s = Some (st, s')"
  shows "mstate (im_handle s') = kIdleState \<and> subaddrBuf (im_handle s') = subaddrBuf (im_handle s)"
  using assms by (auto simp: I2C_MasterTransferAbort_def bind_eq_Some_conv Let_def case_prod_beta split: if_splits)

lemma i2c_reach_core:
  assumes "im_callback_ok soc" "i2c_reach soc s"
  shows "im_ok (im_handle s)"
  using assms(2)
proof (induction rule: i2c_reach.induct)
  case (create base handle cb ud s s')
  then show ?case
    by (auto simp: I2C_MasterTransferCreateHandle_def Let_def bind_eq_Some_conv im_ok_def)
next
  case (transfer s x st s')
  then show ?case using transfer_keeps_im by blast
next
  case (abort s st s')
  then show ?case using abort_idles [OF abort(2)] by (simp add: im_ok_def)
next
  case (irq s handle s')
  then show ?case using irq_keeps_im [OF assms(1)] by blast
next
  case (environment s s')
  then show ?case by simp
qed

subsection \<open>Property\<close>

text \<open>C7: Every I2C master handle that the API calls, the interrupt handler and well-behaved callbacks can
  produce, on any device and with any flags, directions and sizes, is consistent: a transfer that runs
  has moved exactly the bytes it does not have left and stands at that place of its buffer. From such
  a handle a step of the state machine always returns: no assertion fails, the subaddress is not read
  outside its buffer, and no RAM outside the buffer of a read is written, whatever the device reports.
\<close>

theorem i2c_reachable_safe:
  assumes "im_callback_ok soc" "i2c_reach soc s"
  shows "im_ok (im_handle s) \<and>
    (\<exists>res isDone s'. I2C_RunTransferStateMachine soc s = Some (res, isDone, s') \<and>
      ram_kept (mtransfer (im_handle s)) (im_ram s) (im_ram s'))"
proof -
  have o: "im_ok (im_handle s)" by (rule i2c_reach_core [OF assms])
  with machine_ok [OF o, of soc] show ?thesis by (auto simp: step_ok_def split: option.splits)
qed

theorem i2c_reachable_safe_witness:
  "\<exists>s1 st s2. I2C_MasterTransferCreateHandle (eng_soc ex_partner) 0x40086000 0x20000000 None 0 ex_master = Some s1 \<and>
     I2C_MasterTransferNonBlocking (eng_soc ex_partner) ex_transfer s1 = Some (st, s2) \<and>
     mstate (im_handle s2) = kStartState \<and> im_ok (im_handle s2) \<and>
     (\<exists>res isDone s'. I2C_RunTransferStateMachine (eng_soc ex_partner) s2 = Some (res, isDone, s') \<and>
        ram_kept ex_transfer (im_ram s2) (im_ram s'))"
proof -
  have cb: "im_callback_ok (eng_soc ex_partner)" by (simp add: im_callback_ok_def eng_soc_def ex_soc_def)
  obtain s1 where s1: "I2C_MasterTransferCreateHandle (eng_soc ex_partner) 0x40086000 0x20000000 None 0 ex_master = Some s1"
    "mstate (im_handle s1) = kIdleState"
    by (simp add: I2C_MasterTransferCreateHandle_def I2C_GetInstance_def FLEXCOMM_SetIRQHandler_def FLEXCOMM_GetInstance_def
        eng_soc_def ex_soc_def ex_master_def Let_def)
  then obtain st s2 where s2: "I2C_MasterTransferNonBlocking (eng_soc ex_partner) ex_transfer s1 = Some (st, s2)"
    "mtransfer (im_handle s2) = ex_transfer" "mstate (im_handle s2) = kStartState"
    using ex_plain by (simp add: I2C_MasterTransferNonBlocking_def init_machine plain_transfer_def started_handle_def Let_def)
  have "span (xfer_data ex_transfer) (unat (xfer_dataSize ex_transfer))" using ex_plain by (simp add: plain_transfer_def)
  then have "i2c_reach (eng_soc ex_partner) s2"
    by (rule i2c_reach.transfer [OF i2c_reach.create [OF s1(1)] _ s2(1)])
  from i2c_reachable_safe [OF cb this] s1 s2 show ?thesis by metis
qed

end
