(* ===== verification/I2c_Slave.thy ===== *)
theory I2c_Slave
  imports I2c
begin

text \<open>
  \<open>drivers/flexcomm/i2c/fsl_i2c.c\<close>, slave side: configuration, polling transfers, and the transfers
  that the interrupt handler carries out with buffers supplied by the event callback.
\<close>

subsection \<open>Data\<close>

record i2c_slave_address =
  address :: u8
  addressDisable :: bool

datatype i2c_slave_bus_speed =
    kI2C_SlaveStandardMode | kI2C_SlaveFastMode | kI2C_SlaveFastModePlus | kI2C_SlaveHsMode

datatype i2c_slave_address_qual_mode = kI2C_QualModeMask | kI2C_QualModeExtend

record i2c_slave_config =
  address0 :: i2c_slave_address
  address1 :: i2c_slave_address
  address2 :: i2c_slave_address
  address3 :: i2c_slave_address
  qualMode :: i2c_slave_address_qual_mode
  qualAddress :: u8
  busSpeed :: i2c_slave_bus_speed
  enableSlave :: bool

datatype i2c_slave_transfer_event =
    kI2C_SlaveNoEvent | kI2C_SlaveAddressMatchEvent | kI2C_SlaveTransmitEvent | kI2C_SlaveReceiveEvent
  | kI2C_SlaveCompletionEvent | kI2C_SlaveDeselectedEvent

text \<open>The values of the enumerators; a zeroed handle has the value 0, which is none of them.\<close>

primrec i2c_event_num :: "i2c_slave_transfer_event \<Rightarrow> u32" where
  "i2c_event_num kI2C_SlaveNoEvent = 0" | "i2c_event_num kI2C_SlaveAddressMatchEvent = 1"
| "i2c_event_num kI2C_SlaveTransmitEvent = 2" | "i2c_event_num kI2C_SlaveReceiveEvent = 4"
| "i2c_event_num kI2C_SlaveCompletionEvent = 0x20" | "i2c_event_num kI2C_SlaveDeselectedEvent = 0x40"

record i2c_slave_transfer =
  st_handle :: u32
  st_event :: i2c_slave_transfer_event
  receivedAddress :: u8
  eventMask :: u32
  rxData :: u32
  txData :: u32
  txSize :: u32
  rxSize :: u32
  transferredCount :: u32
  completionStatus :: status

datatype i2c_slave_fsm = kI2C_SlaveFsmAddressMatch | kI2C_SlaveFsmReceive | kI2C_SlaveFsmTransmit

record i2c_slave_handle =
  stransfer :: i2c_slave_transfer
  isBusy :: bool
  slaveFsm :: i2c_slave_fsm
  s_callback :: "nat option"
  s_userData :: u32

record 'd i2c_slave =
  is_dev :: 'd
  is_handle :: i2c_slave_handle
  is_ram :: mem
  is_irqs :: "(i2c_irq_handler, u32) flexcomm_irqs"

text \<open>
  The event callback, with the transfer it is called for inside the state; it may call the driver.
\<close>

type_synonym 'd i2c_slave_invoke = "nat \<Rightarrow> u32 \<Rightarrow> 'd i2c_slave \<Rightarrow> 'd i2c_slave option"

definition I2C_STAT_SLVST_ADDR :: u32 where "I2C_STAT_SLVST_ADDR = 0"
definition I2C_STAT_SLVST_RX :: u32 where "I2C_STAT_SLVST_RX = 1"
definition I2C_STAT_SLVST_TX :: u32 where "I2C_STAT_SLVST_TX = 2"

lemmas i2c_slave_code_defs = I2C_STAT_SLVST_ADDR_def I2C_STAT_SLVST_RX_def I2C_STAT_SLVST_TX_def

definition kI2C_SlaveIrqFlags :: "'d i2c_soc \<Rightarrow> u32" where
  "kI2C_SlaveIrqFlags soc = imask soc INTSTAT_SLVPENDING OR imask soc INTSTAT_SLVDESEL"

text \<open>\<open>(stat & I2C_STAT_SLVSTATE_MASK) >> I2C_STAT_SLVSTATE_SHIFT\<close>\<close>

definition i2c_slave_code :: "'d i2c_soc \<Rightarrow> u32 \<Rightarrow> u32" where
  "i2c_slave_code soc stat = drop_bit (STAT_SLVSTATE_SHIFT soc) (stat AND imask soc STAT_SLVSTATE)"

definition on_isdev :: "('d \<Rightarrow> 'd) \<Rightarrow> 'd i2c_slave \<Rightarrow> 'd i2c_slave" where
  "on_isdev f s = s\<lparr>is_dev := f (is_dev s)\<rparr>"

definition on_ish :: "(i2c_slave_handle \<Rightarrow> i2c_slave_handle) \<Rightarrow> 'd i2c_slave \<Rightarrow> 'd i2c_slave" where
  "on_ish f s = s\<lparr>is_handle := f (is_handle s)\<rparr>"

definition on_ist :: "(i2c_slave_transfer \<Rightarrow> i2c_slave_transfer) \<Rightarrow> 'd i2c_slave \<Rightarrow> 'd i2c_slave" where
  "on_ist f s = on_ish (\<lambda>h. h\<lparr>stransfer := f (stransfer h)\<rparr>) s"

abbreviation is_xfer :: "'d i2c_slave \<Rightarrow> i2c_slave_transfer" where
  "is_xfer s \<equiv> stransfer (is_handle s)"

subsection \<open>Configuration\<close>

definition I2C_SlaveClearStatusFlags :: "'d i2c_soc \<Rightarrow> u32 \<Rightarrow> 'd \<Rightarrow> 'd" where
  "I2C_SlaveClearStatusFlags soc statusMask d = reg_write soc I_STAT (statusMask AND imask soc STAT_SLVDESEL) d"

definition I2C_SlaveSetAddress :: "'d i2c_soc \<Rightarrow> nat \<Rightarrow> u8 \<Rightarrow> bool \<Rightarrow> 'd \<Rightarrow> 'd" where
  "I2C_SlaveSetAddress soc addressRegister adr disable d =
     reg_write soc (I_SLVADR addressRegister)
       (ifield soc V_SLVADR_SLVADR (ucast adr) OR ifield soc V_SLVADR_SADISABLE (if disable then 1 else 0)) d"

definition I2C_SlaveGetDefaultConfig :: i2c_slave_config where
  "I2C_SlaveGetDefaultConfig =
     \<lparr>address0 = \<lparr>address = 0, addressDisable = False\<rparr>, address1 = \<lparr>address = 0, addressDisable = True\<rparr>,
      address2 = \<lparr>address = 0, addressDisable = True\<rparr>, address3 = \<lparr>address = 0, addressDisable = True\<rparr>,
      qualMode = kI2C_QualModeMask, qualAddress = 0, busSpeed = kI2C_SlaveStandardMode, enableSlave = True\<rparr>"

primrec i2c_setup_time :: "i2c_slave_bus_speed \<Rightarrow> u32" where
  "i2c_setup_time kI2C_SlaveStandardMode = 250" | "i2c_setup_time kI2C_SlaveFastMode = 100"
| "i2c_setup_time kI2C_SlaveFastModePlus = 50" | "i2c_setup_time kI2C_SlaveHsMode = 10"

definition I2C_SlaveDivVal :: "'d i2c_soc \<Rightarrow> u32 \<Rightarrow> i2c_slave_bus_speed \<Rightarrow> status \<times> u32" where
  "I2C_SlaveDivVal soc srcClock_Hz speed =
     (if i2c_setup_time speed = 0 then (kStatus_InvalidArgument, 0)
      else
        let divVal = srcClock_Hz div 1000 * i2c_setup_time speed div 1000000
        in (kStatus_Success, if imask soc CLKDIV_DIVVAL < divVal then imask soc CLKDIV_DIVVAL else divVal))"

definition I2C_SlaveInit :: "'d i2c_soc \<Rightarrow> u32 \<Rightarrow> i2c_slave_config \<Rightarrow> u32 \<Rightarrow> 'd \<Rightarrow> (status \<times> 'd) option" where
  "I2C_SlaveInit soc base config srcClock_Hz d = do {
     let (st, divVal) = I2C_SlaveDivVal soc srcClock_Hz (busSpeed config);
     if kStatus_Success \<noteq> st then Some (st, d)
     else do {
       (_, d) \<leftarrow> FLEXCOMM_Init soc base FLEXCOMM_PERIPH_I2C d;
       let d = reg_write soc I_CLKDIV divVal d;
       let d = I2C_SlaveSetAddress soc 0 (address (address0 config)) (addressDisable (address0 config)) d;
       let d = I2C_SlaveSetAddress soc 1 (address (address1 config)) (addressDisable (address1 config)) d;
       let d = I2C_SlaveSetAddress soc 2 (address (address2 config)) (addressDisable (address2 config)) d;
       let d = I2C_SlaveSetAddress soc 3 (address (address3 config)) (addressDisable (address3 config)) d;
       let d = reg_write soc I_SLVQUAL0
         (ifield soc V_SLVQUAL0_QUALMODE0 (if qualMode config = kI2C_QualModeMask then 0 else 1) OR
          ifield soc V_SLVQUAL0_SLVQUAL0 (ucast (qualAddress config))) d;
       Some (st, reg_write soc I_CFG (ifield soc V_CFG_SLVEN (if enableSlave config then 1 else 0)) d)
     }
   }"

definition I2C_SlaveDeinit :: "'d i2c_soc \<Rightarrow> 'd \<Rightarrow> 'd" where
  "I2C_SlaveDeinit soc d = I2C_SlaveEnable soc False d"

definition I2C_SlaveInternalStateMachineReset :: "'d i2c_soc \<Rightarrow> 'd \<Rightarrow> 'd" where
  "I2C_SlaveInternalStateMachineReset soc d = I2C_SlaveEnable soc False d"

subsection \<open>Polling transfers\<close>

partial_function (option) i2c_slave_poll_loop :: "'d i2c_soc \<Rightarrow> u32 \<Rightarrow> 'd \<Rightarrow> (u32 \<times> u32 \<times> 'd) option" where
  "i2c_slave_poll_loop soc waitTimes d =
     (let (stat, d) = reg_read soc I_STAT d;
          waitTimes = (if I2C_RETRY_TIMES soc \<noteq> 0 then waitTimes - 1 else waitTimes)
      in if stat AND imask soc STAT_SLVPENDING = 0 \<and> (I2C_RETRY_TIMES soc \<noteq> 0 \<longrightarrow> waitTimes \<noteq> 0)
         then i2c_slave_poll_loop soc waitTimes d
         else Some (stat, waitTimes, d))"

definition I2C_SlavePollPending :: "'d i2c_soc \<Rightarrow> 'd \<Rightarrow> (u32 \<times> 'd) option" where
  "I2C_SlavePollPending soc d = do {
     (stat, waitTimes, d) \<leftarrow> i2c_slave_poll_loop soc (I2C_RETRY_TIMES soc) d;
     Some (if I2C_RETRY_TIMES soc \<noteq> 0 \<and> waitTimes = 0 then word_of_int kStatus_I2C_Timeout else stat, d)
   }"

text \<open>
  The address phase that \<open>I2C_SlaveWriteBlocking\<close> and \<open>I2C_SlaveReadBlocking\<close> share; \<open>code\<close> is the state of
  the hardware that the function expects. A status is returned when the function ends there.
\<close>

definition i2c_slave_address_phase :: "'d i2c_soc \<Rightarrow> u32 \<Rightarrow> 'd \<Rightarrow> (status option \<times> u32 \<times> 'd) option" where
  "i2c_slave_address_phase soc code d = do {
     let d = I2C_SlaveEnable soc True d;
     (stat, d) \<leftarrow> I2C_SlavePollPending soc d;
     if stat = word_of_int kStatus_I2C_Timeout then Some (Some kStatus_I2C_Timeout, stat, d)
     else if \<not> (i2c_slave_code soc stat = I2C_STAT_SLVST_ADDR \<or> i2c_slave_code soc stat = code)
       then Some (Some kStatus_Fail, stat, I2C_SlaveInternalStateMachineReset soc d)
     else if i2c_slave_code soc stat = I2C_STAT_SLVST_ADDR then do {
       (stat, d) \<leftarrow> I2C_SlavePollPending soc (reg_write soc I_SLVCTL (imask soc SLVCTL_SLVCONTINUE) d);
       Some (if stat = word_of_int kStatus_I2C_Timeout then Some kStatus_I2C_Timeout else None, stat, d)
     } else Some (None, stat, d)
   }"

fun i2c_slave_write_loop :: "'d i2c_soc \<Rightarrow> mem \<Rightarrow> u32 \<Rightarrow> nat \<Rightarrow> u32 \<Rightarrow> 'd \<Rightarrow> (status \<times> 'd) option" where
  "i2c_slave_write_loop soc ram buf 0 stat d = Some (kStatus_Success, d)"
| "i2c_slave_write_loop soc ram buf (Suc n) stat d =
     (if i2c_slave_code soc stat \<noteq> I2C_STAT_SLVST_TX then Some (kStatus_Fail, I2C_SlaveInternalStateMachineReset soc d)
      else do {
        let d = reg_write soc I_SLVDAT (ifield soc V_SLVDAT_DATA (ucast (ram buf))) d;
        let d = reg_write soc I_SLVCTL (imask soc SLVCTL_SLVCONTINUE) d;
        if n \<noteq> 0 then do {
          (stat, d) \<leftarrow> I2C_SlavePollPending soc d;
          if stat = word_of_int kStatus_I2C_Timeout then Some (kStatus_I2C_Timeout, d)
          else i2c_slave_write_loop soc ram (buf + 1) n stat d
        } else i2c_slave_write_loop soc ram (buf + 1) n stat d
      })"

definition I2C_SlaveWriteBlocking :: "'d i2c_soc \<Rightarrow> u32 \<Rightarrow> u32 \<Rightarrow> mem \<Rightarrow> 'd \<Rightarrow> (status \<times> 'd) option" where
  "I2C_SlaveWriteBlocking soc txBuff txn ram d = do {
     (ended, stat, d) \<leftarrow> i2c_slave_address_phase soc I2C_STAT_SLVST_TX d;
     case ended of Some st \<Rightarrow> Some (st, d) | None \<Rightarrow> i2c_slave_write_loop soc ram txBuff (unat txn) stat d
   }"

fun i2c_slave_read_loop :: "'d i2c_soc \<Rightarrow> u32 \<Rightarrow> nat \<Rightarrow> u32 \<Rightarrow> mem \<times> 'd \<Rightarrow> (status \<times> mem \<times> 'd) option" where
  "i2c_slave_read_loop soc buf 0 stat rd = Some (kStatus_Success, rd)"
| "i2c_slave_read_loop soc buf (Suc n) stat rd =
     (if i2c_slave_code soc stat \<noteq> I2C_STAT_SLVST_RX
      then Some (kStatus_Fail, fst rd, I2C_SlaveInternalStateMachineReset soc (snd rd))
      else do {
        let (v, d) = reg_read soc I_SLVDAT (snd rd);
        let ram = (fst rd)(buf := ucast v);
        let d = reg_write soc I_SLVCTL (imask soc SLVCTL_SLVCONTINUE) d;
        if n \<noteq> 0 then do {
          (stat, d) \<leftarrow> I2C_SlavePollPending soc d;
          if stat = word_of_int kStatus_I2C_Timeout then Some (kStatus_I2C_Timeout, ram, d)
          else i2c_slave_read_loop soc (buf + 1) n stat (ram, d)
        } else i2c_slave_read_loop soc (buf + 1) n stat (ram, d)
      })"

definition I2C_SlaveReadBlocking :: "'d i2c_soc \<Rightarrow> u32 \<Rightarrow> u32 \<Rightarrow> mem \<times> 'd \<Rightarrow> (status \<times> mem \<times> 'd) option" where
  "I2C_SlaveReadBlocking soc rxBuff rxn rd = do {
     (ended, stat, d) \<leftarrow> i2c_slave_address_phase soc I2C_STAT_SLVST_RX (snd rd);
     case ended of Some st \<Rightarrow> Some (st, fst rd, d) | None \<Rightarrow> i2c_slave_read_loop soc rxBuff (unat rxn) stat (fst rd, d)
   }"

subsection \<open>Non-blocking transfers\<close>

definition I2C_SlaveTransferCreateHandle ::
    "'d i2c_soc \<Rightarrow> u32 \<Rightarrow> u32 \<Rightarrow> nat option \<Rightarrow> u32 \<Rightarrow> 'd i2c_slave \<Rightarrow> 'd i2c_slave option" where
  "I2C_SlaveTransferCreateHandle soc base handle cb ud s = do {
     c_assert (handle \<noteq> 0);
     inst \<leftarrow> I2C_GetInstance soc base;
     let s = s\<lparr>is_handle :=
       \<lparr>stransfer = \<lparr>st_handle = handle, st_event = kI2C_SlaveNoEvent, receivedAddress = 0, eventMask = 0, rxData = 0,
                     txData = 0, txSize = 0, rxSize = 0, transferredCount = 0, completionStatus = 0\<rparr>,
        isBusy = False, slaveFsm = kI2C_SlaveFsmAddressMatch, s_callback = cb, s_userData = ud\<rparr>\<rparr>;
     irqs \<leftarrow> FLEXCOMM_SetIRQHandler soc base (Some I2C_SlaveHandler) handle (is_irqs s);
     let s = s\<lparr>is_irqs := irqs\<rparr>;
     Some (on_isdev (i2c_EnableIRQ soc inst) (on_isdev (I2C_DisableInterrupts soc (kI2C_SlaveIrqFlags soc)) s))
   }"

definition I2C_SlaveTransferNonBlockingInternal ::
    "'d i2c_soc \<Rightarrow> u32 \<Rightarrow> u32 \<Rightarrow> u32 \<Rightarrow> u32 \<Rightarrow> u32 \<Rightarrow> 'd i2c_slave \<Rightarrow> status \<times> 'd i2c_slave" where
  "I2C_SlaveTransferNonBlockingInternal soc tx txn rx rxn evmask s =
     (let s = on_isdev (\<lambda>d. I2C_SlaveEnable soc True (I2C_MasterEnable soc False d)) s;
          s = on_isdev (I2C_DisableInterrupts soc (kI2C_SlaveIrqFlags soc)) s;
          st = (if isBusy (is_handle s) then kStatus_I2C_Busy else kStatus_Success);
          s = on_ist (\<lambda>t. t\<lparr>txData := tx, txSize := txn, rxData := rx, rxSize := rxn, transferredCount := 0,
                            eventMask := evmask OR i2c_event_num kI2C_SlaveTransmitEvent OR
                                         i2c_event_num kI2C_SlaveReceiveEvent\<rparr>) s;
          s = on_ish (\<lambda>h. h\<lparr>isBusy := True\<rparr>) s;
          s = on_isdev (I2C_SlaveEnable soc True) s;
          s = on_isdev (reg_set soc I_STAT 0) s
      in (st, on_isdev (I2C_EnableInterrupts soc (kI2C_SlaveIrqFlags soc)) s))"

definition I2C_SlaveSetSendBuffer ::
    "'d i2c_soc \<Rightarrow> u32 \<Rightarrow> u32 \<Rightarrow> u32 \<Rightarrow> 'd i2c_slave \<Rightarrow> status \<times> 'd i2c_slave" where
  "I2C_SlaveSetSendBuffer soc tx txn evmask s = I2C_SlaveTransferNonBlockingInternal soc tx txn 0 0 evmask s"

definition I2C_SlaveSetReceiveBuffer ::
    "'d i2c_soc \<Rightarrow> u32 \<Rightarrow> u32 \<Rightarrow> u32 \<Rightarrow> 'd i2c_slave \<Rightarrow> status \<times> 'd i2c_slave" where
  "I2C_SlaveSetReceiveBuffer soc rx rxn evmask s = I2C_SlaveTransferNonBlockingInternal soc 0 0 rx rxn evmask s"

definition I2C_SlaveTransferNonBlocking :: "'d i2c_soc \<Rightarrow> u32 \<Rightarrow> 'd i2c_slave \<Rightarrow> status \<times> 'd i2c_slave" where
  "I2C_SlaveTransferNonBlocking soc evmask s = I2C_SlaveTransferNonBlockingInternal soc 0 0 0 0 evmask s"

definition I2C_SlaveGetReceivedAddress :: "'d i2c_slave \<Rightarrow> u32" where
  "I2C_SlaveGetReceivedAddress s = ucast (receivedAddress (is_xfer s))"

definition I2C_SlaveTransferGetCount :: "bool \<Rightarrow> 'd i2c_slave \<Rightarrow> status \<times> u32 option" where
  "I2C_SlaveTransferGetCount count s =
     (if \<not> count then (kStatus_InvalidArgument, None)
      else if \<not> isBusy (is_handle s) then (kStatus_NoTransferInProgress, Some 0)
      else (kStatus_Success, Some (transferredCount (is_xfer s))))"

definition I2C_SlaveTransferAbort :: "'d i2c_soc \<Rightarrow> 'd i2c_slave \<Rightarrow> 'd i2c_slave" where
  "I2C_SlaveTransferAbort soc s =
     (let s = on_isdev (I2C_DisableInterrupts soc (kI2C_SlaveIrqFlags soc)) s;
          s = on_isdev (I2C_SlaveEnable soc False) s;
          s = on_ish (\<lambda>h. h\<lparr>isBusy := False\<rparr>) s
      in on_ist (\<lambda>t. t\<lparr>txSize := 0, rxSize := 0\<rparr>) s)"

subsection \<open>Interrupt handler\<close>

definition I2C_SlaveInvokeEvent ::
    "'d i2c_slave_invoke \<Rightarrow> i2c_slave_transfer_event \<Rightarrow> 'd i2c_slave \<Rightarrow> 'd i2c_slave option" where
  "I2C_SlaveInvokeEvent invoke ev s = do {
     let evmask = eventMask (is_xfer s);
     let s = on_ist (\<lambda>t. t\<lparr>st_event := ev\<rparr>) s;
     if s_callback (is_handle s) \<noteq> None \<and> evmask AND i2c_event_num ev \<noteq> 0 then do {
       s \<leftarrow> invoke (the (s_callback (is_handle s))) (s_userData (is_handle s)) s;
       let t = is_xfer s;
       let s = (if \<not> isBusy (is_handle s) \<and> (txData t \<noteq> 0 \<and> txSize t \<noteq> 0 \<or> rxData t \<noteq> 0 \<and> rxSize t \<noteq> 0)
                then on_ish (\<lambda>h. h\<lparr>isBusy := True\<rparr>) s else s);
       Some (if ev = kI2C_SlaveReceiveEvent \<or> ev = kI2C_SlaveTransmitEvent
             then on_ist (\<lambda>t. t\<lparr>transferredCount := 0\<rparr>) s else s)
     } else Some s
   }"

definition i2c_need_tx ::
    "'d i2c_slave_invoke \<Rightarrow> 'd i2c_slave \<Rightarrow> 'd i2c_slave option" where
  "i2c_need_tx invoke s =
     (if txData (is_xfer s) = 0 \<or> txSize (is_xfer s) = 0 then I2C_SlaveInvokeEvent invoke kI2C_SlaveTransmitEvent s else Some s)"

definition i2c_need_rx ::
    "'d i2c_slave_invoke \<Rightarrow> 'd i2c_slave \<Rightarrow> 'd i2c_slave option" where
  "i2c_need_rx invoke s =
     (if rxData (is_xfer s) = 0 \<or> rxSize (is_xfer s) = 0 then I2C_SlaveInvokeEvent invoke kI2C_SlaveReceiveEvent s else Some s)"

definition I2C_SlaveAddressIRQ ::
    "'d i2c_soc \<Rightarrow> 'd i2c_slave_invoke \<Rightarrow> 'd i2c_slave \<Rightarrow> (bool \<times> 'd i2c_slave) option" where
  "I2C_SlaveAddressIRQ soc invoke s = do {
     let (v, d) = reg_read soc I_SLVDAT (is_dev s);
     let addressByte0 = (ucast v :: u8);
     let s = on_ist (\<lambda>t. t\<lparr>receivedAddress := addressByte0\<rparr>) (s\<lparr>is_dev := d\<rparr>);
     if addressByte0 AND 1 \<noteq> 0 then do {
       s \<leftarrow> i2c_need_tx invoke s;
       if txData (is_xfer s) = 0 \<or> txSize (is_xfer s) = 0
       then Some (False, on_isdev (reg_write soc I_SLVCTL (imask soc SLVCTL_SLVNACK)) s)
       else Some (True, on_isdev (reg_write soc I_SLVCTL (imask soc SLVCTL_SLVCONTINUE))
                          (on_ish (\<lambda>h. h\<lparr>slaveFsm := kI2C_SlaveFsmTransmit\<rparr>) s))
     } else do {
       s \<leftarrow> i2c_need_rx invoke s;
       if rxData (is_xfer s) = 0 \<or> rxSize (is_xfer s) = 0
       then Some (False, on_isdev (reg_write soc I_SLVCTL (imask soc SLVCTL_SLVNACK)) s)
       else Some (True, on_isdev (reg_write soc I_SLVCTL (imask soc SLVCTL_SLVCONTINUE))
                          (on_ish (\<lambda>h. h\<lparr>slaveFsm := kI2C_SlaveFsmReceive\<rparr>) s))
     }
   }"

text \<open>\<open>if ((0U == rxSize) && (0U == txSize))\<close>: the transfer is complete.\<close>

definition i2c_slave_complete :: "'d i2c_slave_invoke \<Rightarrow> 'd i2c_slave \<Rightarrow> 'd i2c_slave option" where
  "i2c_slave_complete invoke s =
     (if 0 = rxSize (is_xfer s) \<and> 0 = txSize (is_xfer s)
      then I2C_SlaveInvokeEvent invoke kI2C_SlaveCompletionEvent (on_ish (\<lambda>h. h\<lparr>isBusy := False\<rparr>) s) else Some s)"

definition i2c_slave_receive ::
    "'d i2c_soc \<Rightarrow> 'd i2c_slave_invoke \<Rightarrow> 'd i2c_slave \<Rightarrow> 'd i2c_slave option" where
  "i2c_slave_receive soc invoke s = do {
     s \<leftarrow> i2c_need_rx invoke s;
     let s = (if rxData (is_xfer s) \<noteq> 0 \<and> rxSize (is_xfer s) \<noteq> 0 then
                let s = on_isdev (reg_write soc I_SLVCTL (imask soc SLVCTL_SLVCONTINUE)) s;
                    (v, d) = reg_read soc I_SLVDAT (is_dev s);
                    s = s\<lparr>is_dev := d, is_ram := (is_ram s)(rxData (is_xfer s) := ucast v)\<rparr>
                in on_ist (\<lambda>t. t\<lparr>rxSize := rxSize t - 1, rxData := rxData t + 1, transferredCount := transferredCount t + 1\<rparr>) s
              else s);
     i2c_slave_complete invoke s
   }"

definition i2c_slave_transmit ::
    "'d i2c_soc \<Rightarrow> 'd i2c_slave_invoke \<Rightarrow> 'd i2c_slave \<Rightarrow> 'd i2c_slave option" where
  "i2c_slave_transmit soc invoke s = do {
     s \<leftarrow> i2c_need_tx invoke s;
     let s = (if txData (is_xfer s) \<noteq> 0 \<and> txSize (is_xfer s) \<noteq> 0 then
                let s = on_isdev (reg_write soc I_SLVDAT (ucast (is_ram s (txData (is_xfer s))))) s;
                    s = on_isdev (reg_write soc I_SLVCTL (imask soc SLVCTL_SLVCONTINUE)) s
                in on_ist (\<lambda>t. t\<lparr>txSize := txSize t - 1, txData := txData t + 1, transferredCount := transferredCount t + 1\<rparr>) s
              else s);
     i2c_slave_complete invoke s
   }"

definition i2c_slave_data ::
    "'d i2c_soc \<Rightarrow> 'd i2c_slave_invoke \<Rightarrow> u32 \<Rightarrow> 'd i2c_slave \<Rightarrow> 'd i2c_slave option" where
  "i2c_slave_data soc invoke code s =
     (case slaveFsm (is_handle s) of
        kI2C_SlaveFsmReceive \<Rightarrow>
          if code = I2C_STAT_SLVST_RX then i2c_slave_receive soc invoke s
          else Some (on_isdev (reg_write soc I_SLVCTL (imask soc SLVCTL_SLVNACK)) s)
      | kI2C_SlaveFsmTransmit \<Rightarrow>
          if code = I2C_STAT_SLVST_TX then i2c_slave_transmit soc invoke s
          else Some (on_isdev (reg_write soc I_SLVCTL (imask soc SLVCTL_SLVNACK)) s)
      | _ \<Rightarrow> Some s)"

definition I2C_SlaveTransferHandleIRQ ::
    "'d i2c_soc \<Rightarrow> 'd i2c_slave_invoke \<Rightarrow> 'd i2c_slave \<Rightarrow> 'd i2c_slave option" where
  "I2C_SlaveTransferHandleIRQ soc invoke s = do {
     let (i2cStatus, d) = reg_read soc I_STAT (is_dev s);
     let s = s\<lparr>is_dev := d\<rparr>;
     s \<leftarrow> (if i2cStatus AND imask soc STAT_SLVDESEL \<noteq> 0 then do {
            s \<leftarrow> I2C_SlaveInvokeEvent invoke kI2C_SlaveDeselectedEvent s;
            Some (on_isdev (I2C_SlaveClearStatusFlags soc (imask soc STAT_SLVDESEL)) s)
          } else Some s);
     if i2cStatus AND imask soc STAT_SLVPENDING \<noteq> 0 then
       if i2c_slave_code soc i2cStatus = I2C_STAT_SLVST_ADDR then do {
         s \<leftarrow> I2C_SlaveInvokeEvent invoke kI2C_SlaveAddressMatchEvent s;
         (_, s) \<leftarrow> I2C_SlaveAddressIRQ soc invoke s;
         Some s
       } else i2c_slave_data soc invoke (i2c_slave_code soc i2cStatus) s
     else Some s
   }"

end
