(* ===== verification/I2c_Slave_Stream.thy ===== *)
theory I2c_Slave_Stream
  imports I2c_Slave I2c_Nonblocking
begin

text \<open>
  The interrupt-driven slave of \<open>fsl_i2c.c\<close> on the bytes of a master: a write by the master fills the
  receive buffer, a read is answered from the send buffer, and the completion event comes once, after
  the last byte.
\<close>

unbundle bit_operations_syntax

subsection \<open>What the slave engine promises\<close>

text \<open>
  What the master does next, as the slave sees it: the address byte, a byte that the master writes, a
  byte that it wants to read. SLVDAT holds the byte that arrived until the next one arrives, or the
  byte written to it, which goes out when the slave continues.
\<close>

datatype slave_item = S_Addr u8 | S_Data u8 | S_Request

record slave_bus =
  sb_todo :: "slave_item list"
  sb_dat :: u8
  sb_out :: "u8 list"

primrec item_code :: "slave_item \<Rightarrow> u32" where
  "item_code (S_Addr a) = I2C_STAT_SLVST_ADDR"
| "item_code (S_Data b) = I2C_STAT_SLVST_RX"
| "item_code S_Request = I2C_STAT_SLVST_TX"

fun slave_arrive :: "slave_bus \<Rightarrow> slave_bus" where
  "slave_arrive b = (case sb_todo b of S_Addr a # _ \<Rightarrow> b\<lparr>sb_dat := a\<rparr> | S_Data v # _ \<Rightarrow> b\<lparr>sb_dat := v\<rparr> | _ \<Rightarrow> b)"

definition slave_continue :: "slave_bus \<Rightarrow> slave_bus" where
  "slave_continue b =
     b\<lparr>sb_todo := tl (sb_todo b),
       sb_out := (case sb_todo b of S_Request # _ \<Rightarrow> sb_out b @ [sb_dat b] | _ \<Rightarrow> sb_out b)\<rparr>"

definition slave_engine :: "'d i2c_soc \<Rightarrow> ('d \<Rightarrow> slave_bus) \<Rightarrow> bool" where
  "slave_engine soc sb \<longleftrightarrow>
     (\<forall>d. fst (reg_read soc I_STAT d) AND imask soc STAT_SLVDESEL = 0 \<and>
          (fst (reg_read soc I_STAT d) AND imask soc STAT_SLVPENDING \<noteq> 0) = (sb_todo (sb d) \<noteq> []) \<and>
          (sb_todo (sb d) \<noteq> [] \<longrightarrow> i2c_slave_code soc (fst (reg_read soc I_STAT d)) = item_code (hd (sb_todo (sb d)))) \<and>
          sb (snd (reg_read soc I_STAT d)) = sb d) \<and>
     (\<forall>d. ucast (fst (reg_read soc I_SLVDAT d)) = sb_dat (sb d) \<and> sb (snd (reg_read soc I_SLVDAT d)) = sb d) \<and>
     (\<forall>d. sb (snd (reg_read soc I_CFG d)) = sb d) \<and>
     (\<forall>d r v. r \<in> {I_STAT, I_CFG, I_INTENSET, I_INTENCLR} \<longrightarrow> sb (reg_write soc r v d) = sb d) \<and>
     (\<forall>d v. sb (reg_write soc I_SLVDAT v d) = (sb d)\<lparr>sb_dat := ucast v\<rparr>) \<and>
     (\<forall>d. sb (reg_write soc I_SLVCTL (imask soc SLVCTL_SLVCONTINUE) d) = slave_continue (sb d))"

definition arrives :: "('d \<Rightarrow> 'd) \<Rightarrow> ('d \<Rightarrow> slave_bus) \<Rightarrow> bool" where
  "arrives arrive sb \<longleftrightarrow> (\<forall>d. sb (arrive d) = slave_arrive (sb d))"

lemma slave_engineD:
  assumes "slave_engine soc sb"
  shows "fst (reg_read soc I_STAT d) AND imask soc STAT_SLVDESEL = 0"
    "sb_todo (sb d) \<noteq> [] \<Longrightarrow> fst (reg_read soc I_STAT d) AND imask soc STAT_SLVPENDING \<noteq> 0"
    "sb_todo (sb d) \<noteq> [] \<Longrightarrow> i2c_slave_code soc (fst (reg_read soc I_STAT d)) = item_code (hd (sb_todo (sb d)))"
    "sb (snd (reg_read soc I_STAT d)) = sb d"
    "ucast (fst (reg_read soc I_SLVDAT d)) = sb_dat (sb d)" "sb (snd (reg_read soc I_SLVDAT d)) = sb d"
    "sb (snd (reg_read soc I_CFG d)) = sb d"
    "r \<in> {I_STAT, I_CFG, I_INTENSET, I_INTENCLR} \<Longrightarrow> sb (reg_write soc r v d) = sb d"
    "sb (reg_write soc I_SLVDAT v d) = (sb d)\<lparr>sb_dat := ucast v\<rparr>"
    "sb (reg_write soc I_SLVCTL (imask soc SLVCTL_SLVCONTINUE) d) = slave_continue (sb d)"
  using assms unfolding slave_engine_def by blast+

subsection \<open>Interrupts\<close>

text \<open>The interrupt comes when the next item of the master has arrived.\<close>

definition slave_tick ::
    "'d i2c_soc \<Rightarrow> 'd i2c_slave_invoke \<Rightarrow> ('d \<Rightarrow> 'd) \<Rightarrow> 'd i2c_slave \<Rightarrow> 'd i2c_slave option" where
  "slave_tick soc invoke arrive s = I2C_SlaveTransferHandleIRQ soc invoke (on_isdev arrive s)"

fun slave_serve ::
    "'d i2c_soc \<Rightarrow> 'd i2c_slave_invoke \<Rightarrow> ('d \<Rightarrow> 'd) \<Rightarrow> nat \<Rightarrow> 'd i2c_slave \<Rightarrow> 'd i2c_slave option" where
  "slave_serve soc invoke arrive 0 s = Some s"
| "slave_serve soc invoke arrive (Suc n) s = slave_tick soc invoke arrive s \<bind> slave_serve soc invoke arrive n"

lemma on_is_simps [simp]:
  "is_dev (on_isdev f s) = f (is_dev s)" "is_handle (on_isdev f s) = is_handle s" "is_ram (on_isdev f s) = is_ram s"
  "is_dev (on_ish g s) = is_dev s" "is_handle (on_ish g s) = g (is_handle s)" "is_ram (on_ish g s) = is_ram s"
  "is_dev (on_ist k s) = is_dev s" "is_ram (on_ist k s) = is_ram s"
  "is_handle (on_ist k s) = (is_handle s)\<lparr>stransfer := k (is_xfer s)\<rparr>"
  by (simp_all add: on_isdev_def on_ish_def on_ist_def)

text \<open>The state of a slave for the proofs.\<close>

definition slave_at ::
    "('d \<Rightarrow> slave_bus) \<Rightarrow> 'd i2c_slave \<Rightarrow> slave_item list \<Rightarrow> u8 list \<Rightarrow> i2c_slave_handle \<Rightarrow> mem \<Rightarrow> bool" where
  "slave_at sb s todo out h ram \<longleftrightarrow>
     sb_todo (sb (is_dev s)) = todo \<and> sb_out (sb (is_dev s)) = out \<and> is_handle s = h \<and> is_ram s = ram"

lemma tick_item:
  assumes e: "slave_engine soc sb" "arrives arrive sb" and a: "slave_at sb s (i # todo) out h ram"
  obtains d where "slave_at sb (s\<lparr>is_dev := d\<rparr>) (i # todo) out h ram" "sb_dat (sb d) = sb_dat (slave_arrive (sb (is_dev s)))"
    "slave_tick soc invoke arrive s =
       (if item_code i = I2C_STAT_SLVST_ADDR then do {
          s \<leftarrow> I2C_SlaveInvokeEvent invoke kI2C_SlaveAddressMatchEvent (s\<lparr>is_dev := d\<rparr>);
          (_, s) \<leftarrow> I2C_SlaveAddressIRQ soc invoke s;
          Some s
        } else i2c_slave_data soc invoke (item_code i) (s\<lparr>is_dev := d\<rparr>))"
proof -
  let ?da = "arrive (is_dev s)" and ?d = "snd (reg_read soc I_STAT (arrive (is_dev s)))"
  have b: "sb ?da = slave_arrive (sb (is_dev s))" using e(2) by (simp add: arrives_def)
  have t: "sb_todo (sb ?da) = i # todo" "sb_out (sb ?da) = out" using a b by (auto simp: slave_at_def split: slave_item.splits list.splits)
  note f = slave_engineD [OF e(1)]
  have d: "sb ?d = sb ?da" by (rule f(4))
  have s: "(on_isdev arrive s)\<lparr>is_dev := x\<rparr> = s\<lparr>is_dev := x\<rparr>" for x by (simp add: on_isdev_def)
  show ?thesis
  proof (rule that [of ?d])
    show "slave_at sb (s\<lparr>is_dev := ?d\<rparr>) (i # todo) out h ram" using a d t by (simp add: slave_at_def)
    show "sb_dat (sb ?d) = sb_dat (slave_arrive (sb (is_dev s)))" by (simp only: d b)
    show "slave_tick soc invoke arrive s =
       (if item_code i = I2C_STAT_SLVST_ADDR then do {
          s \<leftarrow> I2C_SlaveInvokeEvent invoke kI2C_SlaveAddressMatchEvent (s\<lparr>is_dev := ?d\<rparr>);
          (_, s) \<leftarrow> I2C_SlaveAddressIRQ soc invoke s;
          Some s
        } else i2c_slave_data soc invoke (item_code i) (s\<lparr>is_dev := ?d\<rparr>))"
      using f(1-3) [of ?da] t unfolding slave_tick_def I2C_SlaveTransferHandleIRQ_def by (simp add: case_prod_beta s Let_def)
  qed
qed

subsection \<open>The address\<close>

lemma not_subscribed:
  assumes "eventMask (is_xfer s) AND i2c_event_num ev = 0"
  shows "I2C_SlaveInvokeEvent invoke ev s = Some (on_ist (\<lambda>t. t\<lparr>st_event := ev\<rparr>) s)"
  using assms by (simp add: I2C_SlaveInvokeEvent_def Let_def)

definition addressed :: "i2c_slave_handle \<Rightarrow> u8 \<Rightarrow> i2c_slave_handle" where
  "addressed h a =
     h\<lparr>stransfer := (stransfer h)\<lparr>st_event := kI2C_SlaveAddressMatchEvent, receivedAddress := a\<rparr>,
       slaveFsm := (if a AND 1 \<noteq> 0 then kI2C_SlaveFsmTransmit else kI2C_SlaveFsmReceive)\<rparr>"

lemma tick_address:
  assumes e: "slave_engine soc sb" "arrives arrive sb" and a: "slave_at sb s (S_Addr a # todo) out h ram"
    and m: "eventMask (stransfer h) AND 1 = 0"
    and b: "if a AND 1 \<noteq> 0 then txData (stransfer h) \<noteq> 0 \<and> txSize (stransfer h) \<noteq> 0
            else rxData (stransfer h) \<noteq> 0 \<and> rxSize (stransfer h) \<noteq> 0"
  shows "\<exists>s'. slave_tick soc invoke arrive s = Some s' \<and> slave_at sb s' todo out (addressed h a) ram"
proof -
  note f = slave_engineD [OF e(1)]
  obtain d where d: "slave_at sb (s\<lparr>is_dev := d\<rparr>) (S_Addr a # todo) out h ram" "sb_dat (sb d) = sb_dat (slave_arrive (sb (is_dev s)))"
    and t: "slave_tick soc invoke arrive s = do {
       s \<leftarrow> I2C_SlaveInvokeEvent invoke kI2C_SlaveAddressMatchEvent (s\<lparr>is_dev := d\<rparr>);
       (_, s) \<leftarrow> I2C_SlaveAddressIRQ soc invoke s;
       Some s
     }"
    by (rule tick_item [OF e a, of invoke]) simp
  let ?d = "snd (reg_read soc I_SLVDAT d)"
  let ?d2 = "reg_write soc I_SLVCTL (imask soc SLVCTL_SLVCONTINUE) ?d"
  have h: "is_handle s = h" using a by (simp add: slave_at_def)
  have v: "ucast (fst (reg_read soc I_SLVDAT d)) = a" using f(5) [of d] d(2) a by (simp add: slave_at_def)
  have i: "I2C_SlaveInvokeEvent invoke kI2C_SlaveAddressMatchEvent (s\<lparr>is_dev := d\<rparr>) =
      Some (on_ist (\<lambda>t. t\<lparr>st_event := kI2C_SlaveAddressMatchEvent\<rparr>) (s\<lparr>is_dev := d\<rparr>))"
    by (rule not_subscribed) (simp add: h m)
  have "slave_tick soc invoke arrive s = Some (s\<lparr>is_dev := ?d2, is_handle := addressed h a\<rparr>)"
    unfolding t i using b v
    by (cases s; cases "a AND 1 = 0")
       (simp_all add: I2C_SlaveAddressIRQ_def case_prod_beta i2c_need_tx_def i2c_need_rx_def h [symmetric] addressed_def Let_def
         on_isdev_def on_ish_def on_ist_def)
  moreover have "slave_at sb (s\<lparr>is_dev := ?d2, is_handle := addressed h a\<rparr>) todo out (addressed h a) ram"
    using d(1) a f(6) [of d] f(10) [of ?d] by (simp add: slave_at_def slave_continue_def)
  ultimately show ?thesis by blast
qed

subsection \<open>The data\<close>

definition took :: "i2c_slave_handle \<Rightarrow> i2c_slave_handle" where
  "took h =
     h\<lparr>stransfer := (stransfer h)\<lparr>rxSize := rxSize (stransfer h) - 1, rxData := rxData (stransfer h) + 1,
                                   transferredCount := transferredCount (stransfer h) + 1\<rparr>\<rparr>"

definition gave :: "i2c_slave_handle \<Rightarrow> i2c_slave_handle" where
  "gave h =
     h\<lparr>stransfer := (stransfer h)\<lparr>txSize := txSize (stransfer h) - 1, txData := txData (stransfer h) + 1,
                                   transferredCount := transferredCount (stransfer h) + 1\<rparr>\<rparr>"

lemma slave_codes [simp]:
  "I2C_STAT_SLVST_RX \<noteq> I2C_STAT_SLVST_ADDR" "I2C_STAT_SLVST_TX \<noteq> I2C_STAT_SLVST_ADDR"
  by (simp_all add: i2c_slave_code_defs)

lemma tick_take:
  assumes e: "slave_engine soc sb" "arrives arrive sb" and a: "slave_at sb s (S_Data b # todo) out h ram"
    "slaveFsm h = kI2C_SlaveFsmReceive" "rxData (stransfer h) \<noteq> 0" "rxSize (stransfer h) \<noteq> 0"
  shows "\<exists>s'. slave_tick soc invoke arrive s = i2c_slave_complete invoke s' \<and>
    slave_at sb s' todo out (took h) (ram(rxData (stransfer h) := b))"
proof -
  note f = slave_engineD [OF e(1)]
  obtain d where d: "slave_at sb (s\<lparr>is_dev := d\<rparr>) (S_Data b # todo) out h ram" "sb_dat (sb d) = sb_dat (slave_arrive (sb (is_dev s)))"
    and t: "slave_tick soc invoke arrive s = i2c_slave_data soc invoke I2C_STAT_SLVST_RX (s\<lparr>is_dev := d\<rparr>)"
    by (rule tick_item [OF e a(1), of invoke]) simp
  let ?d1 = "reg_write soc I_SLVCTL (imask soc SLVCTL_SLVCONTINUE) d"
  let ?d2 = "snd (reg_read soc I_SLVDAT ?d1)"
  let ?s = "s\<lparr>is_dev := ?d2, is_handle := took h, is_ram := ram(rxData (stransfer h) := b)\<rparr>"
  have h: "is_handle s = h" "is_ram s = ram" using a(1) by (simp_all add: slave_at_def)
  have v: "ucast (fst (reg_read soc I_SLVDAT ?d1)) = b"
    using f(5) [of ?d1] f(10) [of d] d(2) a(1) by (simp add: slave_at_def slave_continue_def)
  have "slave_tick soc invoke arrive s = i2c_slave_complete invoke ?s"
    unfolding t using a(2-4) v h
    by (cases s) (simp add: i2c_slave_data_def i2c_slave_receive_def i2c_need_rx_def case_prod_beta took_def Let_def
         on_isdev_def on_ish_def on_ist_def)
  moreover have "slave_at sb ?s todo out (took h) (ram(rxData (stransfer h) := b))"
    using d(1) f(6) [of ?d1] f(10) [of d] by (simp add: slave_at_def slave_continue_def)
  ultimately show ?thesis by blast
qed

lemma tick_give:
  assumes e: "slave_engine soc sb" "arrives arrive sb" and a: "slave_at sb s (S_Request # todo) out h ram"
    "slaveFsm h = kI2C_SlaveFsmTransmit" "txData (stransfer h) \<noteq> 0" "txSize (stransfer h) \<noteq> 0"
  shows "\<exists>s'. slave_tick soc invoke arrive s = i2c_slave_complete invoke s' \<and>
    slave_at sb s' todo (out @ [ram (txData (stransfer h))]) (gave h) ram"
proof -
  note f = slave_engineD [OF e(1)]
  obtain d where d: "slave_at sb (s\<lparr>is_dev := d\<rparr>) (S_Request # todo) out h ram"
    and t: "slave_tick soc invoke arrive s = i2c_slave_data soc invoke I2C_STAT_SLVST_TX (s\<lparr>is_dev := d\<rparr>)"
    by (rule tick_item [OF e a(1), of invoke]) simp
  let ?b = "ram (txData (stransfer h))"
  let ?d1 = "reg_write soc I_SLVDAT (ucast ?b) d"
  let ?d2 = "reg_write soc I_SLVCTL (imask soc SLVCTL_SLVCONTINUE) ?d1"
  let ?s = "s\<lparr>is_dev := ?d2, is_handle := gave h\<rparr>"
  have h: "is_handle s = h" "is_ram s = ram" using a(1) by (simp_all add: slave_at_def)
  have "slave_tick soc invoke arrive s = i2c_slave_complete invoke ?s"
    unfolding t using a(2-4) h
    by (cases s) (simp add: i2c_slave_data_def i2c_slave_transmit_def i2c_need_tx_def gave_def Let_def on_isdev_def on_ish_def on_ist_def)
  moreover have "slave_at sb ?s todo (out @ [?b]) (gave h) ram"
    using d(1) f(9) [of "ucast ?b" d] f(10) [of ?d1] by (simp add: slave_at_def slave_continue_def)
  ultimately show ?thesis by blast
qed

text \<open>The end of a transfer: the completion event, on a slave that is no longer busy.\<close>

definition completes ::
    "'d i2c_soc \<Rightarrow> ('d \<Rightarrow> slave_bus) \<Rightarrow> 'd i2c_slave_invoke \<Rightarrow> ('d \<Rightarrow> 'd) \<Rightarrow> nat \<Rightarrow> 'd i2c_slave \<Rightarrow> u8 list \<Rightarrow> mem \<Rightarrow> u32 \<Rightarrow> u8 \<Rightarrow> bool" where
  "completes soc sb invoke arrive n s out ram count a \<longleftrightarrow>
     (\<exists>s'. slave_serve soc invoke arrive n s = I2C_SlaveInvokeEvent invoke kI2C_SlaveCompletionEvent s' \<and>
        sb_todo (sb (is_dev s')) = [] \<and> sb_out (sb (is_dev s')) = out \<and> is_ram s' = ram \<and> \<not> isBusy (is_handle s') \<and>
        rxSize (is_xfer s') = 0 \<and> txSize (is_xfer s') = 0 \<and> transferredCount (is_xfer s') = count \<and> receivedAddress (is_xfer s') = a)"

lemma completes_step:
  "slave_tick soc invoke arrive s = Some s' \<Longrightarrow> completes soc sb invoke arrive n s' out ram count a \<Longrightarrow>
   completes soc sb invoke arrive (Suc n) s out ram count a"
  by (simp add: completes_def)

lemma completes_last:
  assumes "slave_tick soc invoke arrive s = i2c_slave_complete invoke s'" "slave_at sb s' [] out h ram"
    "rxSize (stransfer h) = 0" "txSize (stransfer h) = 0"
  shows "completes soc sb invoke arrive (Suc 0) s out ram (transferredCount (stransfer h)) (receivedAddress (stransfer h))"
proof -
  let ?s = "on_ish (\<lambda>h. h\<lparr>isBusy := False\<rparr>) s'"
  have "slave_serve soc invoke arrive (Suc 0) s = slave_tick soc invoke arrive s"
    by (cases "slave_tick soc invoke arrive s") simp_all
  also have "\<dots> = I2C_SlaveInvokeEvent invoke kI2C_SlaveCompletionEvent ?s"
    using assms by (simp add: i2c_slave_complete_def slave_at_def)
  finally have "slave_serve soc invoke arrive (Suc 0) s = I2C_SlaveInvokeEvent invoke kI2C_SlaveCompletionEvent ?s" .
  with assms(2-4) show ?thesis unfolding completes_def by (intro exI [of _ ?s]) (simp add: slave_at_def)
qed

lemma not_complete: "rxSize (is_xfer s) \<noteq> 0 \<or> txSize (is_xfer s) \<noteq> 0 \<Longrightarrow> i2c_slave_complete invoke s = Some s"
  by (auto simp: i2c_slave_complete_def)

lemma receives_all:
  assumes e: "slave_engine soc sb" "arrives arrive sb"
  shows "slave_at sb s (map S_Data (b # bs)) out h ram \<Longrightarrow> slaveFsm h = kI2C_SlaveFsmReceive \<Longrightarrow> txSize (stransfer h) = 0 \<Longrightarrow>
    unat (rxSize (stransfer h)) = length (b # bs) \<Longrightarrow> span (rxData (stransfer h)) (length (b # bs)) \<Longrightarrow>
    completes soc sb invoke arrive (length (b # bs)) s out (mem_write ram (rxData (stransfer h)) (b # bs))
      (transferredCount (stransfer h) + of_nat (length (b # bs))) (receivedAddress (stransfer h))"
proof (induction bs arbitrary: s b h ram)
  case (Nil s b h ram)
  have r: "rxSize (stransfer h) = 1" using Nil(4) by (simp add: word_unat_eq_iff)
  have "rxData (stransfer h) \<noteq> 0" using Nil(5) by (simp add: span_def)
  with tick_take [OF e _ Nil(2), of s b "[]" out ram invoke] Nil(1) r obtain s' where
    t: "slave_tick soc invoke arrive s = i2c_slave_complete invoke s'"
    "slave_at sb s' [] out (took h) (ram(rxData (stransfer h) := b))" by auto
  from completes_last [OF t] r Nil(3) show ?case by (simp add: took_def fun_upd_def add.commute)
next
  case (Cons c bs s b h ram)
  let ?a = "rxData (stransfer h)"
  have r: "rxSize (stransfer h) \<noteq> 0" "unat (rxSize (stransfer h) - 1) = length (c # bs)"
    using Cons.prems(4) unat_minus_1 [of "rxSize (stransfer h)"] by (cases "rxSize (stransfer h) = 0"; simp)+
  then have r': "rxSize (stransfer h) - 1 \<noteq> 0" by auto
  have a: "?a \<noteq> 0" "span (?a + 1) (length (c # bs))" using Cons.prems(5) span_Suc [of ?a "length (c # bs)"] by simp_all
  from tick_take [OF e _ Cons.prems(2) a(1) r(1), of s b "map S_Data (c # bs)" out ram invoke] Cons.prems(1) obtain s' where
    t: "slave_tick soc invoke arrive s = i2c_slave_complete invoke s'"
    "slave_at sb s' (map S_Data (c # bs)) out (took h) (ram(?a := b))" by auto
  have "is_handle s' = took h" using t(2) by (simp add: slave_at_def)
  with t(1) r' have t1: "slave_tick soc invoke arrive s = Some s'" by (simp add: not_complete took_def)
  have h: "slaveFsm (took h) = kI2C_SlaveFsmReceive" "txSize (stransfer (took h)) = 0"
    "unat (rxSize (stransfer (took h))) = length (c # bs)" "span (rxData (stransfer (took h))) (length (c # bs))"
    "rxData (stransfer (took h)) = ?a + 1" "transferredCount (stransfer (took h)) = transferredCount (stransfer h) + 1"
    "receivedAddress (stransfer (took h)) = receivedAddress (stransfer h)"
    using Cons.prems(2,3) r(2) a(2) by (simp_all add: took_def)
  from completes_step [OF t1 Cons.IH [OF t(2) h(1-4)]] show ?case
    by (simp add: h fun_upd_def add.assoc)
qed

lemma sends_all:
  assumes e: "slave_engine soc sb" "arrives arrive sb"
  shows "slave_at sb s (replicate (Suc n) S_Request) out h ram \<Longrightarrow> slaveFsm h = kI2C_SlaveFsmTransmit \<Longrightarrow> rxSize (stransfer h) = 0 \<Longrightarrow>
    unat (txSize (stransfer h)) = Suc n \<Longrightarrow> span (txData (stransfer h)) (Suc n) \<Longrightarrow>
    completes soc sb invoke arrive (Suc n) s (out @ mem_bytes ram (txData (stransfer h)) (Suc n)) ram
      (transferredCount (stransfer h) + of_nat (Suc n)) (receivedAddress (stransfer h))"
proof (induction n arbitrary: s h out)
  case (0 s h out)
  have r: "txSize (stransfer h) = 1" using 0(4) by (simp add: word_unat_eq_iff)
  have "txData (stransfer h) \<noteq> 0" using 0(5) by (simp add: span_def)
  with tick_give [OF e _ 0(2), of s "[]" out ram invoke] 0(1) r obtain s' where
    t: "slave_tick soc invoke arrive s = i2c_slave_complete invoke s'"
    "slave_at sb s' [] (out @ [ram (txData (stransfer h))]) (gave h) ram" by auto
  from completes_last [OF t] r 0(3) show ?case by (simp add: gave_def mem_bytes_Cons add.commute)
next
  case (Suc n s h out)
  let ?a = "txData (stransfer h)"
  have r: "txSize (stransfer h) \<noteq> 0" "unat (txSize (stransfer h) - 1) = Suc n"
    using Suc.prems(4) unat_minus_1 [of "txSize (stransfer h)"] by (cases "txSize (stransfer h) = 0"; simp)+
  then have r': "txSize (stransfer h) - 1 \<noteq> 0" by auto
  have a: "?a \<noteq> 0" "span (?a + 1) (Suc n)" using Suc.prems(5) span_Suc [of ?a "Suc n"] by simp_all
  from tick_give [OF e _ Suc.prems(2) a(1) r(1), of s "replicate (Suc n) S_Request" out ram invoke] Suc.prems(1) obtain s' where
    t: "slave_tick soc invoke arrive s = i2c_slave_complete invoke s'"
    "slave_at sb s' (replicate (Suc n) S_Request) (out @ [ram ?a]) (gave h) ram" by auto
  have "is_handle s' = gave h" using t(2) by (simp add: slave_at_def)
  with t(1) r' have t1: "slave_tick soc invoke arrive s = Some s'" by (simp add: not_complete gave_def)
  have h: "slaveFsm (gave h) = kI2C_SlaveFsmTransmit" "rxSize (stransfer (gave h)) = 0"
    "unat (txSize (stransfer (gave h))) = Suc n" "span (txData (stransfer (gave h))) (Suc n)"
    "txData (stransfer (gave h)) = ?a + 1" "transferredCount (stransfer (gave h)) = transferredCount (stransfer h) + 1"
    "receivedAddress (stransfer (gave h)) = receivedAddress (stransfer h)"
    using Suc.prems(2,3) r(2) a(2) by (simp_all add: gave_def)
  from completes_step [OF t1 Suc.IH [OF t(2) h(1-4)]] show ?case
    by (simp add: h mem_bytes_Cons [of _ _ "Suc n"] add.assoc)
qed

subsection \<open>The transfers\<close>

lemma internal_quiet:
  assumes "slave_engine soc sb"
  shows "sb (is_dev (snd (I2C_SlaveTransferNonBlockingInternal soc tx txn rx rxn evmask s))) = sb (is_dev s)"
    "is_ram (snd (I2C_SlaveTransferNonBlockingInternal soc tx txn rx rxn evmask s)) = is_ram s"
  using slave_engineD(4,7,8) [OF assms]
  by (simp_all add: I2C_SlaveTransferNonBlockingInternal_def Let_def I2C_SlaveEnable_def I2C_MasterEnable_def case_prod_beta
      I2C_DisableInterrupts_def I2C_EnableInterrupts_def reg_set_def)

lemma internal_handle:
  fixes soc :: "'d i2c_soc" and s :: "'d i2c_slave" and tx txn rx rxn evmask :: u32
  defines "t \<equiv> is_xfer (snd (I2C_SlaveTransferNonBlockingInternal soc tx txn rx rxn evmask s))"
  shows "txData t = tx" "txSize t = txn" "rxData t = rx" "rxSize t = rxn" "transferredCount t = 0"
    "eventMask t = evmask OR 2 OR 4"
  by (simp_all add: t_def I2C_SlaveTransferNonBlockingInternal_def Let_def)

lemma slave_receive_core:
  assumes e: "slave_engine soc sb" "arrives arrive sb" and q: "sb_todo (sb (is_dev s)) = S_Addr a # map S_Data bs"
    and a: "a AND 1 = 0" "evmask AND 1 = 0" "bs \<noteq> []" "span rx (length bs)" "unat n = length bs"
  shows "completes soc sb invoke arrive (Suc (length bs)) (snd (I2C_SlaveSetReceiveBuffer soc rx n evmask s))
    (sb_out (sb (is_dev s))) (mem_write (is_ram s) rx bs) n a"
proof -
  let ?s = "snd (I2C_SlaveTransferNonBlockingInternal soc 0 0 rx n evmask s)"
  note h = internal_handle [of soc 0 0 rx n evmask s] and b = internal_quiet [OF e(1), of 0 0 rx n evmask s]
  have n: "n \<noteq> 0" using a(3,5) by auto
  have rx: "rx \<noteq> 0" using a(3,4) by (simp add: span_def)
  have l: "of_nat (length bs) = n" using arg_cong [OF a(5), of "of_nat :: nat \<Rightarrow> u32"] by simp
  have m: "(evmask OR 2 OR 4) AND 1 = 0" using a(2) by (simp add: bit.conj_disj_distrib2)
  have "slave_at sb ?s (S_Addr a # map S_Data bs) (sb_out (sb (is_dev s))) (is_handle ?s) (is_ram s)" using b q by (simp add: slave_at_def)
  from tick_address [OF e this, of invoke] a(1) h n rx m obtain s1 where t: "slave_tick soc invoke arrive ?s = Some s1"
    and s1: "slave_at sb s1 (map S_Data bs) (sb_out (sb (is_dev s))) (addressed (is_handle ?s) a) (is_ram s)" by auto
  obtain c cs where c: "bs = c # cs" using a(3) by (cases bs) auto
  have h1: "slaveFsm (addressed (is_handle ?s) a) = kI2C_SlaveFsmReceive" "txSize (stransfer (addressed (is_handle ?s) a)) = 0"
    "rxSize (stransfer (addressed (is_handle ?s) a)) = n" "rxData (stransfer (addressed (is_handle ?s) a)) = rx"
    "transferredCount (stransfer (addressed (is_handle ?s) a)) = 0" "receivedAddress (stransfer (addressed (is_handle ?s) a)) = a"
    using h a(1) by (simp_all add: addressed_def)
  have "completes soc sb invoke arrive (length bs) s1 (sb_out (sb (is_dev s))) (mem_write (is_ram s) rx bs) n a"
    by (rule receives_all [OF e, of s1 c cs, folded c, OF s1, unfolded h1 l add_0, OF refl refl a(5,4)])
  from completes_step [OF t this] show ?thesis by (simp add: I2C_SlaveSetReceiveBuffer_def)
qed

lemma slave_send_core:
  assumes e: "slave_engine soc sb" "arrives arrive sb" and q: "sb_todo (sb (is_dev s)) = S_Addr a # replicate (unat n) S_Request"
    and a: "a AND 1 \<noteq> 0" "evmask AND 1 = 0" "n \<noteq> 0" "span tx (unat n)"
  shows "completes soc sb invoke arrive (Suc (unat n)) (snd (I2C_SlaveSetSendBuffer soc tx n evmask s))
    (sb_out (sb (is_dev s)) @ mem_bytes (is_ram s) tx (unat n)) (is_ram s) n a"
proof -
  let ?s = "snd (I2C_SlaveTransferNonBlockingInternal soc tx n 0 0 evmask s)"
  note h = internal_handle [of soc tx n 0 0 evmask s] and b = internal_quiet [OF e(1), of tx n 0 0 evmask s]
  obtain k where k: "unat n = Suc k" using unat_minus_1 [OF a(3)] by blast
  have n: "tx \<noteq> 0" using a(4) k by (simp add: span_def)
  have l: "of_nat (unat n) = n" by simp
  have m: "(evmask OR 2 OR 4) AND 1 = 0" using a(2) by (simp add: bit.conj_disj_distrib2)
  have "slave_at sb ?s (S_Addr a # replicate (unat n) S_Request) (sb_out (sb (is_dev s))) (is_handle ?s) (is_ram s)"
    using b q by (simp add: slave_at_def)
  from tick_address [OF e this, of invoke] a(1,3) h n m obtain s1 where t: "slave_tick soc invoke arrive ?s = Some s1"
    and s1: "slave_at sb s1 (replicate (unat n) S_Request) (sb_out (sb (is_dev s))) (addressed (is_handle ?s) a) (is_ram s)" by auto
  have h1: "slaveFsm (addressed (is_handle ?s) a) = kI2C_SlaveFsmTransmit" "rxSize (stransfer (addressed (is_handle ?s) a)) = 0"
    "txSize (stransfer (addressed (is_handle ?s) a)) = n" "txData (stransfer (addressed (is_handle ?s) a)) = tx"
    "transferredCount (stransfer (addressed (is_handle ?s) a)) = 0" "receivedAddress (stransfer (addressed (is_handle ?s) a)) = a"
    using h a(1) by (simp_all add: addressed_def)
  have "completes soc sb invoke arrive (unat n) s1 (sb_out (sb (is_dev s)) @ mem_bytes (is_ram s) tx (unat n)) (is_ram s) n a"
    by (rule sends_all [OF e, of s1 k, folded k, OF s1, unfolded h1 l add_0, OF refl refl refl a(4)])
  from completes_step [OF t this] show ?thesis by (simp add: I2C_SlaveSetSendBuffer_def)
qed

text \<open>
  A master that writes more than the buffer holds, and no callback that supplies another buffer: the
  handler neither continues nor refuses the byte, so the same interrupt is pending again.
\<close>

lemma slave_overrun_stuck:
  assumes e: "slave_engine soc sb" "arrives arrive sb" and a: "slave_at sb s (S_Data b # todo) out h ram"
    "slaveFsm h = kI2C_SlaveFsmReceive" "rxSize (stransfer h) = 0" "s_callback h = None"
  shows "\<exists>s'. slave_tick soc invoke arrive s = Some s' \<and> sb_todo (sb (is_dev s')) = S_Data b # todo"
proof -
  obtain d where d: "slave_at sb (s\<lparr>is_dev := d\<rparr>) (S_Data b # todo) out h ram"
    and t: "slave_tick soc invoke arrive s = i2c_slave_data soc invoke I2C_STAT_SLVST_RX (s\<lparr>is_dev := d\<rparr>)"
    by (rule tick_item [OF e a(1), of invoke]) simp
  have h: "is_handle s = h" using a(1) by (simp add: slave_at_def)
  have n: "I2C_SlaveInvokeEvent invoke ev u = Some (on_ist (\<lambda>t. t\<lparr>st_event := ev\<rparr>) u)" if "s_callback (is_handle u) = None" for ev u
    using that by (simp add: I2C_SlaveInvokeEvent_def Let_def)
  show ?thesis unfolding t using a(2-4) h d
    by (simp add: i2c_slave_data_def i2c_slave_receive_def i2c_need_rx_def i2c_slave_complete_def n slave_at_def Let_def)
qed

subsection \<open>A concrete slave engine\<close>

definition slv_read :: "i2c_reg \<Rightarrow> slave_bus \<Rightarrow> u32 \<times> slave_bus" where
  "slv_read r b =
     (case r of
        I_STAT \<Rightarrow> (case sb_todo b of [] \<Rightarrow> 0 | i # _ \<Rightarrow> 0x100 OR push_bit 9 (item_code i), b)
      | I_SLVDAT \<Rightarrow> (ucast (sb_dat b), b) | _ \<Rightarrow> (0, b))"

definition slv_write :: "i2c_reg \<Rightarrow> u32 \<Rightarrow> slave_bus \<Rightarrow> slave_bus" where
  "slv_write r v b =
     (case r of
        I_SLVDAT \<Rightarrow> b\<lparr>sb_dat := ucast v\<rparr> | I_SLVCTL \<Rightarrow> if v = 1 then slave_continue b else b | _ \<Rightarrow> b)"

definition slv_soc :: "slave_bus i2c_soc" where "slv_soc = ex_soc slv_read slv_write"

lemma slv_engine: "slave_engine slv_soc (\<lambda>b. b)"
proof -
  have m: "imask slv_soc = eng_mask" "reg_read slv_soc = slv_read" "reg_write slv_soc = slv_write" "STAT_SLVSTATE_SHIFT slv_soc = 9"
    by (simp_all add: slv_soc_def ex_soc_def)
  have s: "fst (slv_read I_STAT b) AND 0x8000 = 0" "(fst (slv_read I_STAT b) AND 0x100 \<noteq> 0) = (sb_todo b \<noteq> [])"
    "sb_todo b \<noteq> [] \<Longrightarrow> drop_bit 9 (fst (slv_read I_STAT b) AND 0x600) = item_code (hd (sb_todo b))" for b
    by (cases "sb_todo b"; cases "hd (sb_todo b)"; simp add: slv_read_def i2c_slave_code_defs)+
  have u: "(ucast (ucast x :: u32) :: u8) = x" for x :: u8 by (simp add: unsigned_ucast_eq)
  show ?thesis unfolding slave_engine_def m i2c_slave_code_def eng_mask.simps
    by (intro conjI allI impI s) (auto simp: slv_read_def slv_write_def u)
qed

definition ex_slave :: "slave_item list \<Rightarrow> slave_bus i2c_slave" where
  "ex_slave todo = \<lparr>is_dev = \<lparr>sb_todo = todo, sb_dat = 0, sb_out = []\<rparr>,
     is_handle = \<lparr>stransfer = \<lparr>st_handle = 0x20000000, st_event = kI2C_SlaveNoEvent, receivedAddress = 0, eventMask = 0, rxData = 0,
          txData = 0, txSize = 0, rxSize = 0, transferredCount = 0, completionStatus = 0\<rparr>,
        isBusy = False, slaveFsm = kI2C_SlaveFsmAddressMatch, s_callback = Some 3, s_userData = 0\<rparr>,
     is_ram = (\<lambda>a. ucast a), is_irqs = \<lparr>s_flexcommIrqHandler = (\<lambda>_. None), s_flexcommHandle = (\<lambda>_. 0)\<rparr>\<rparr>"

subsection \<open>Property\<close>

text \<open>C8: The slave serves a master with the buffer it was given. After \<open>I2C_SlaveSetReceiveBuffer\<close>, an
  address with the write bit and as many bytes as the buffer holds leave exactly these bytes in the
  buffer; after \<open>I2C_SlaveSetSendBuffer\<close>, an address with the read bit and as many requests send the
  bytes of the buffer in order. One interrupt serves each item, no interrupt before the last calls
  back, and the last one raises the completion event on a slave that is no longer busy, with the
  count of the bytes and the address that was received.
\<close>

theorem i2c_slave_serves:
  assumes "slave_engine soc sb" "arrives arrive sb" "evmask AND 1 = 0" "n \<noteq> 0" "span buf (unat n)"
  shows "(sb_todo (sb (is_dev s)) = S_Addr a # map S_Data bs \<and> a AND 1 = 0 \<and> length bs = unat n \<longrightarrow>
       completes soc sb invoke arrive (Suc (unat n)) (snd (I2C_SlaveSetReceiveBuffer soc buf n evmask s))
         (sb_out (sb (is_dev s))) (mem_write (is_ram s) buf bs) n a) \<and>
    (sb_todo (sb (is_dev s)) = S_Addr a # replicate (unat n) S_Request \<and> a AND 1 \<noteq> 0 \<longrightarrow>
       completes soc sb invoke arrive (Suc (unat n)) (snd (I2C_SlaveSetSendBuffer soc buf n evmask s))
         (sb_out (sb (is_dev s)) @ mem_bytes (is_ram s) buf (unat n)) (is_ram s) n a)"
proof -
  have "unat n \<noteq> 0" using assms(4) by (simp add: unat_eq_zero)
  then have "bs \<noteq> []" if "length bs = unat n" using that by auto
  with slave_receive_core [OF assms(1,2), of s a bs evmask buf n invoke] slave_send_core [OF assms(1,2), of s a n evmask buf invoke] assms
  show ?thesis by metis
qed

theorem i2c_slave_serves_witness:
  "completes slv_soc (\<lambda>b. b) (\<lambda>_ _ s. Some s) slave_arrive 3
     (snd (I2C_SlaveSetReceiveBuffer slv_soc 0x1000 2 0x20 (ex_slave [S_Addr 0xA0, S_Data 0x55, S_Data 0x66])))
     [] (mem_write (\<lambda>a. ucast a) 0x1000 [0x55, 0x66]) 2 0xA0 \<and>
   completes slv_soc (\<lambda>b. b) (\<lambda>_ _ s. Some s) slave_arrive 3
     (snd (I2C_SlaveSetSendBuffer slv_soc 0x1077 2 0x20 (ex_slave [S_Addr 0xA1, S_Request, S_Request])))
     [0x77, 0x78] (\<lambda>a. ucast a) 2 0xA1"
proof -
  have a: "arrives slave_arrive (\<lambda>b. b)" by (simp add: arrives_def)
  have n: "unat (2 :: u32) = Suc (Suc 0)" "(3 :: nat) = Suc (Suc (Suc 0))" by simp_all
  have sp: "span 0x1000 (unat (2 :: u32))" "span 0x1077 (unat (2 :: u32))" by (simp_all add: span_def)
  have e: "(0x20 :: u32) AND 1 = 0" "(2 :: u32) \<noteq> 0" "(0xA0 :: u8) AND 1 = 0" "(0xA1 :: u8) AND 1 \<noteq> 0" by simp_all
  have r: "mem_bytes (\<lambda>a. ucast a) 0x1077 (unat (2 :: u32)) = [0x77, 0x78]" unfolding n by (simp add: mem_bytes_Cons)
  note p = i2c_slave_serves [OF slv_engine a e(1,2)]
  show ?thesis
  proof
    show "completes slv_soc (\<lambda>b. b) (\<lambda>_ _ s. Some s) slave_arrive 3
     (snd (I2C_SlaveSetReceiveBuffer slv_soc 0x1000 2 0x20 (ex_slave [S_Addr 0xA0, S_Data 0x55, S_Data 0x66])))
     [] (mem_write (\<lambda>a. ucast a) 0x1000 [0x55, 0x66]) 2 0xA0"
      using conjunct1 [OF p [OF sp(1), of "ex_slave [S_Addr 0xA0, S_Data 0x55, S_Data 0x66]" "0xA0" "[0x55, 0x66]" "\<lambda>_ _ s. Some s"]] e(3)
      unfolding n by (simp add: ex_slave_def)
    show "completes slv_soc (\<lambda>b. b) (\<lambda>_ _ s. Some s) slave_arrive 3
     (snd (I2C_SlaveSetSendBuffer slv_soc 0x1077 2 0x20 (ex_slave [S_Addr 0xA1, S_Request, S_Request])))
     [0x77, 0x78] (\<lambda>a. ucast a) 2 0xA1"
      using conjunct2 [OF p [OF sp(2), of "ex_slave [S_Addr 0xA1, S_Request, S_Request]" "0xA1" "[]" "\<lambda>_ _ s. Some s"]] e(4) r
      unfolding n by (simp add: ex_slave_def)
  qed
qed

end
