(* ===== verification/Spec2Isabelle.thy ===== *)
theory Spec2Isabelle
  imports Rtc Lin_Memory Lin_Baud Usart_Inv Usart_Blocking Usart_Baud Lpuart_Inv Lpuart_Config Sdk_Delay Sdk_Atomic Ostimer
    I2c_Blocking I2c_Inv I2c_Slave_Stream
begin

text \<open>
  A verification library for the peripheral drivers of the MCUXpresso SDK core
  (\<open>src/drivers\<close>). Each driver is a group of C functions over the registers of one peripheral
  and a state structure that the application owns; an interrupt handler advances the transfers
  that the API functions start, and reports to the application through callbacks.

  \<^bold>\<open>How C is modelled\<close> (theories Prelude and Common).
  \<^item> Integers are words of their C width and wrap. \<open>assert\<close>, a null pointer that is followed, a
    division by zero and a loop that never ends are the value \<open>None\<close> of the option monad.
  \<^item> A peripheral is an abstract state with a record of volatile read and write functions. Nothing
    is assumed of it in the definitions; a property that needs documented register behaviour
    states it as a named hypothesis (\<open>ram_like\<close> for given bits of given registers, \<open>seconds_counter\<close>
    and \<open>bus_log\<close>, \<open>cycle_counter\<close>, \<open>gray_counter\<close>, \<open>serial_tx\<close>, \<open>fifo_device\<close>, \<open>lp_fifo_device\<close>,
    \<open>i2c_engine\<close>, \<open>slave_engine\<close>) with a concrete device in its witness. The masks, field macros and feature macros of the device headers, which are
    generated per device and not part of the repository, are fields of the same record.
  \<^item> RAM that buffers live in is a function from 32-bit addresses to bytes, so that overlapping
    buffers are visible. Callbacks are numbered functions on the whole state of their instance.
  \<^item> The status codes of \<open>fsl_common.h\<close>, the address comparison of every \<open>GetInstance\<close> and the
    interrupt mask of the core (\<open>fsl_common_arm.h\<close>) are in Common.

  \<^bold>\<open>Real-time clock\<close> (\<open>drivers/rtc/fsl_rtc.c\<close>, \<open>fsl_rtc.h\<close>).
  \<^item> Calendar: a reference count of days in the Gregorian calendar and the locale
    \<open>datetime_codec\<close>, the contract of a date conversion.
  \<^item> Rtc_Calendar: \<open>RTC_CheckDatetimeFormat\<close> and the two conversions with their loops; they
    discharge the contract (interpretation \<open>rtc\<close>). The check accepts exactly the valid dates, the
    conversion to seconds counts them, and the conversion back is its inverse up to 2099.
  \<^item> Rtc: every operation of the driver; set and get of the date with the counter stopped, as the
    hardware requires, the alarm with the exact sequence of register writes, interrupt enables and
    the monotonic counter on every branch.

  \<^bold>\<open>LIN\<close> (\<open>drivers/lin/fsl_lin.c\<close>, \<open>fsl_lin_lpuart.c\<close>).
  \<^item> Lin_Frame: parity and checksum, with the locale \<open>frame_check\<close> of what an error-detecting code
    promises; single-bit and single-byte errors are detected.
  \<^item> Lin_Lpuart: the node state and every operation of the LPUART layer, the interrupt handler
    included. Lin: the functions of \<open>fsl_lin.c\<close> that dispatch to the instances.
  \<^item> Lin_Session: what a receive and a send session do byte by byte, and that a frame sent is the
    frame received. Lin_Bus: the header exchange, timeouts, the step relation of a node with its
    invariant, isolation of instances. Lin_Memory: a node that receives writes RAM only inside the
    buffer of the accepted request, with its storage pointer tied to the byte count. Lin_Baud: the
    search for a baud rate against an optimal reference.

  \<^bold>\<open>FLEXCOMM USART\<close> (\<open>drivers/flexcomm/fsl_flexcomm.c\<close>, \<open>drivers/flexcomm/usart/fsl_usart.c\<close>).
  \<^item> Flexcomm: selection of the peripheral, handler table, interrupt dispatch.
  \<^item> Usart: the handle, every operation and the interrupt handler, whose loop may run as long as
    the device has data.
  \<^item> Usart_Ring: the receive ring buffer; the interpretations \<open>uring\<close> and \<open>ring\<close> discharge the contracts
    of Ring_Queue for head and tail.
  \<^item> Usart_Transfer: the handler loop is simulated by a pure step on handle, RAM and FIFO contents
    (\<open>irq_step\<close>), whose iteration has a closed form (\<open>irq_result\<close>). Usart_Stream: what one run of the
    handler moves, and that a request gets the bytes of the ring and the FIFO in order.
  \<^item> Usart_Inv: the step relation \<open>usart_reach\<close> and the invariant of every reachable handle, the
    dispatch of a new handle. Usart_Blocking: the blocking transfers return under a retry bound.
    Usart_Baud: the baud-rate search against the dividers it ranges over.

  \<^bold>\<open>FLEXCOMM I2C\<close> (\<open>drivers/flexcomm/i2c/fsl_i2c.c\<close>, \<open>fsl_i2c.h\<close>).
  \<^item> I2c: registers and parameters, configuration, bit rate and the polling transfers of the master.
    I2c_Master: its handle, the transfer state machine and the interrupt handler. I2c_Slave: the
    slave side, polling and driven by interrupts and event callbacks.
  \<^item> I2c_Bus: the wire, what the master engine promises (\<open>i2c_engine\<close>: each command is carried out, in
    any time) and the specification \<open>wire_transfer\<close> of a transfer, for a partner that acknowledges or
    refuses each byte. I2c_Wire: reading the engine and one interrupt. I2c_Transfer: the phases of
    the state machine, from the last to the first.
  \<^item> I2c_Nonblocking: the interrupts of a non-blocking transfer end in the callback with the wire, RAM
    and status of the specification. I2c_Blocking: the polling transfer agrees with it, but for a
    second stop. I2c_Inv: the step relation \<open>i2c_reach\<close> and what holds of every reachable handle on any
    device. I2c_Slave_Stream: the slave serves a master from its buffers. A transfer that omits the
    start or the stop is covered by the definitions and by I2c_Inv, not by the specification.

  \<^bold>\<open>LPUART\<close> (\<open>drivers/lpuart/fsl_lpuart.c\<close>, \<open>fsl_lpuart.h\<close>).
  \<^item> Lpuart: the data and the register level (configuration, baud rate, interrupt enables, flags,
    blocking transfers), with the features of the device as parameters. Lpuart_Irq: the handle, the
    non-blocking transfers in 8-bit and 16-bit mode and the interrupt handler.
  \<^item> Lpuart_Ring: the ring buffer of bytes or half-words, interpretations \<open>lpindex\<close> and \<open>lpring\<close> of the
    contracts of Ring_Queue.
  \<^item> Lpuart_Transfer: what a device with FIFOs promises (\<open>lp_fifo_device\<close>) and the specification of the
    loops of the handler on handle, RAM and FIFOs. Lpuart_Stream: the handler refines the
    composition of the requested parts; where the received units go.
  \<^item> Lpuart_Inv: the step relation \<open>lpuart_reach\<close>, the invariant of every reachable handle, the
    dispatch of a new handle. Lpuart_Baud: the search for a rate against all oversampling ratios.
    Lpuart_Config: the interrupt enables as one set over three registers, and where the driver
    departs from its description.

  \<^bold>\<open>Ring buffers\<close> (Ring_Queue). The locale \<open>bounded_queue\<close> states what a queue that drops its oldest
  element promises; \<open>index_ring\<close> states what head and tail indices over an array must satisfy, and a
  sublocale derives the first contract from it. Both serial drivers interpret them.

  \<^bold>\<open>Common services\<close> (\<open>drivers/common/fsl_common.c\<close>, \<open>fsl_common_arm.c\<close>, \<open>fsl_common_arm.h\<close>).
  \<^item> Sdk_Memory: aligned allocation over a heap of blocks; allocation and release are inverse.
  \<^item> Sdk_Arm: interrupt enabling, vector table, wake-up interrupts, delays, critical sections.
    Sdk_Delay: the timing of the delay with the cycle counter, and where it goes wrong.
  \<^item> Sdk_Atomic: the atomic operations over an exclusive monitor with interfering writes; each
    operation takes effect once, on the value it replaces.

  \<^bold>\<open>OS event timer\<close> (\<open>drivers/ostimer/fsl_ostimer.c\<close>). Ostimer: the driver, its Gray code against the
  parity definition, reads of the running counter and the match register.

  \<^bold>\<open>Loops.\<close> Loops with a bound are recursive functions with a termination proof. The loops that
  wait for the device (\<open>lin_wait_tc\<close>, \<open>usart_wait\<close>, \<open>lp_wait\<close>, \<open>lp_wait_read\<close>, \<open>cycle_wait\<close>, \<open>match_ready\<close>,
  \<open>i2c_pending_loop\<close>, \<open>i2c_slave_poll_loop\<close>),
  the retry loops of Sdk_Atomic and the interrupt loop \<open>usart_irq_loop\<close> are
  partial functions into \<open>option\<close>; where a property says that they return, this is proved from
  hypotheses on the device or from a retry bound.

  \<^bold>\<open>Not modelled.\<close> The other driver families under \<open>src/drivers\<close> and the DMA, FreeRTOS and CMSIS
  variants of the serial drivers; build files, scripts, device and board descriptions; start-up code and the parts of \<open>fsl_common\<close> that are inline assembly. Real
  concurrency of an interrupt with the code it interrupts is modelled only as the sequences of
  calls that the step relations allow: the code masks the interrupt where it matters.
\<close>

end
